(* ===== verification/Prelude.thy ===== *)
theory Prelude
  imports Main "HOL-Library.Char_ord" "HOL-Library.List_Lexorder"
begin

text \<open>
  Shared vocabulary of the development.  A Go string is an Isabelle \<open>string\<close>, a list of
  bytes, and the functions of Go's \<open>strings\<close> package that the code relies on are written
  out on bytes: \<open>trim_space\<close> (\<open>strings.TrimSpace\<close>, with the multi-byte UTF-8 spaces),
  \<open>to_lower\<close> (\<open>strings.ToLower\<close>: the ASCII fast path is written out, the Unicode case
  table is the parameter \<open>ulow\<close>), \<open>trim_chars\<close> (\<open>strings.Trim\<close> with an ASCII cut set).
  The theory also holds the order-preserving de-duplication loop several packages share and
  the named collections the component proofs use.
\<close>

named_theorems norm_simps \<open>normalisation functions that reduce to trimming\<close>
named_theorems frame_simps \<open>what an operation leaves unchanged\<close>

section \<open>Bytes and white space\<close>

definition byte :: "char \<Rightarrow> nat" where
  "byte c = of_char c"

text \<open>One-, two- and three-byte encodings of the runes \<open>unicode.IsSpace\<close> accepts.\<close>

definition space1 :: "char \<Rightarrow> bool" where
  "space1 a \<longleftrightarrow> byte a \<in> {9, 10, 11, 12, 13, 32}"

definition space2 :: "char \<Rightarrow> char \<Rightarrow> bool" where
  "space2 a b \<longleftrightarrow> byte a = 194 \<and> byte b \<in> {133, 160}"

definition space3 :: "char \<Rightarrow> char \<Rightarrow> char \<Rightarrow> bool" where
  "space3 a b c \<longleftrightarrow>
     byte a = 225 \<and> byte b = 154 \<and> byte c = 128
   \<or> byte a = 226 \<and> byte b = 128 \<and> (128 \<le> byte c \<and> byte c \<le> 138 \<or> byte c \<in> {168, 169, 175})
   \<or> byte a = 226 \<and> byte b = 129 \<and> byte c = 159
   \<or> byte a = 227 \<and> byte b = 128 \<and> byte c = 128"

text \<open>Number of bytes of the white-space rune a string starts with, 0 when it starts with none.\<close>

definition space_len :: "string \<Rightarrow> nat" where
  "space_len s = (case s of
     [] \<Rightarrow> 0
   | a # t \<Rightarrow> if space1 a then 1 else (case t of
       [] \<Rightarrow> 0
     | b # u \<Rightarrow> if space2 a b then 2 else (case u of
         [] \<Rightarrow> 0
       | c # _ \<Rightarrow> if space3 a b c then 3 else 0)))"

text \<open>The same for the rune a string ends with; the argument is the reversed string.\<close>

definition rspace_len :: "string \<Rightarrow> nat" where
  "rspace_len s = (case s of
     [] \<Rightarrow> 0
   | c # t \<Rightarrow> if space1 c then 1 else (case t of
       [] \<Rightarrow> 0
     | b # u \<Rightarrow> if space2 b c then 2 else (case u of
         [] \<Rightarrow> 0
       | a # _ \<Rightarrow> if space3 a b c then 3 else 0)))"

function strip :: "(string \<Rightarrow> nat) \<Rightarrow> string \<Rightarrow> string" where
  "strip f s = (if s = [] \<or> f s = 0 then s else strip f (drop (f s) s))"
  by pat_completeness auto
termination
  by (relation "measure (\<lambda>(f, s). length s)") auto

declare strip.simps [simp del]

definition trim_space :: "string \<Rightarrow> string" where
  "trim_space s = rev (strip rspace_len (rev (strip space_len s)))"

lemma strip_Nil [simp]: "strip f [] = []"
  by (simp add: strip.simps)

lemma strip_stop: "f s = 0 \<Longrightarrow> strip f s = s"
  by (simp add: strip.simps)

lemma strip_stops: "strip f s = [] \<or> f (strip f s) = 0"
proof (induction f s rule: strip.induct)
  case (1 f s)
  show ?case
    by (cases "s = [] \<or> f s = 0") (use "1.IH" in \<open>auto simp: strip.simps [of f s]\<close>)
qed

lemma strip_idem [simp]: "strip f (strip f s) = strip f s"
  using strip_stops [of f s] by (auto intro: strip_stop)

lemma strip_suffix: "\<exists>p. s = p @ strip f s"
proof (induction f s rule: strip.induct)
  case (1 f s)
  show ?case
  proof (cases "s = [] \<or> f s = 0")
    case True
    then show ?thesis by (auto simp: strip.simps [of f s])
  next
    case False
    with "1.IH" obtain p where p: "drop (f s) s = p @ strip f (drop (f s) s)" by blast
    have "s = take (f s) s @ drop (f s) s" by simp
    also have "\<dots> = (take (f s) s @ p) @ strip f s"
      using p False by (simp add: strip.simps [of f s])
    finally show ?thesis by blast
  qed
qed

lemma space_len_append: "space_len s = n \<Longrightarrow> n \<noteq> 0 \<Longrightarrow> space_len (s @ t) = n"
  by (auto simp: space_len_def split: list.splits if_splits)

lemma space_len_prefix: "space_len (s @ t) = 0 \<Longrightarrow> space_len s = 0"
  using space_len_append [of s "space_len s" t] by (cases "space_len s = 0") auto

lemma trim_space_Nil [simp]: "trim_space [] = []"
  by (simp add: trim_space_def)

text \<open>Trimming twice is trimming once: every normaliser of the code relies on it.\<close>

lemma trim_space_idem [simp]: "trim_space (trim_space s) = trim_space s"
proof -
  let ?l = "strip space_len s"
  let ?r = "strip rspace_len (rev ?l)"
  obtain p where "rev ?l = p @ ?r" using strip_suffix by blast
  then have l: "?l = rev ?r @ rev p" by (metis rev_append rev_rev_ident)
  have "space_len (rev ?r) = 0"
  proof (cases "?l = []")
    case True
    then have "?r = []" by simp
    then show ?thesis by (simp add: space_len_def)
  next
    case False
    with strip_stops [of space_len s] have "space_len ?l = 0" by blast
    with l have "space_len (rev ?r @ rev p) = 0" by simp
    then show ?thesis by (rule space_len_prefix)
  qed
  then have "strip space_len (rev ?r) = rev ?r" by (rule strip_stop)
  then show ?thesis by (simp add: trim_space_def)
qed

lemma trim_space_empty_iff [simp]: "trim_space (trim_space s) = [] \<longleftrightarrow> trim_space s = []"
  by simp

text \<open>A trimmed string starts and ends with a rune that is not white space.\<close>

lemma trimmed_ends:
  assumes "trim_space s = s" "s \<noteq> []"
  shows "space_len s = 0 \<and> rspace_len (rev s) = 0"
proof -
  let ?l = "strip space_len s"
  obtain p where p: "s = p @ ?l" using strip_suffix by blast
  obtain q where q: "rev ?l = q @ strip rspace_len (rev ?l)" using strip_suffix by blast
  have "length s = length (strip rspace_len (rev ?l))" using assms(1) by (metis length_rev trim_space_def)
  moreover have "length s = length p + length ?l" using arg_cong [OF p, of length] by simp
  moreover have "length ?l = length q + length (strip rspace_len (rev ?l))"
    using arg_cong [OF q, of length] by simp
  ultimately have "p = []" "q = []" by auto
  with p q have l: "?l = s" and r: "strip rspace_len (rev ?l) = rev ?l" by auto
  show ?thesis
    using strip_stops [of space_len s] strip_stops [of rspace_len "rev s"] l r assms(2) by auto
qed

lemma trimmed_join:
  assumes "trim_space v = v" "v \<noteq> []" "trim_space w = w" "w \<noteq> []"
  shows "trim_space (v @ CHR 0x0A # w) = v @ CHR 0x0A # w"
proof -
  have n: "byte (CHR 0x0A) = 10" by (simp add: byte_def)
  have f: "\<not> space2 a (CHR 0x0A)" "\<not> space3 a (CHR 0x0A) b" "\<not> space3 a b (CHR 0x0A)"
    "\<not> space2 (CHR 0x0A) a" "\<not> space3 (CHR 0x0A) a b" for a b
    by (simp_all add: space2_def space3_def n)
  have l: "space_len (x @ CHR 0x0A # y) = 0" if "space_len x = 0" "x \<noteq> []" for x y
  proof -
    from that(2) consider a where "x = [a]" | a b where "x = [a, b]" | a b c z where "x = a # b # c # z"
      by (metis list.exhaust)
    then show ?thesis using that(1) f by cases (simp_all add: space_len_def split: list.split if_split_asm)
  qed
  have r: "rspace_len (x @ CHR 0x0A # y) = 0" if "rspace_len x = 0" "x \<noteq> []" for x y
  proof -
    from that(2) consider a where "x = [a]" | a b where "x = [a, b]" | a b c z where "x = a # b # c # z"
      by (metis list.exhaust)
    then show ?thesis using that(1) f by cases (simp_all add: rspace_len_def split: list.split if_split_asm)
  qed
  from trimmed_ends [OF assms(1,2)] trimmed_ends [OF assms(3,4)] l [of v w] r [of "rev w" "rev v"] assms(2,4)
  show ?thesis by (simp add: trim_space_def strip_stop)
qed

section \<open>Case and cut sets\<close>

text \<open>\<open>hex.EncodeToString\<close>.\<close>

definition hex_digit :: "nat \<Rightarrow> char" where
  "hex_digit n = (if n < 10 then char_of (48 + n) else char_of (87 + n))"

definition hex_bytes :: "string \<Rightarrow> string" where
  "hex_bytes s = concat (map (\<lambda>c. [hex_digit (byte c div 16), hex_digit (byte c mod 16)]) s)"

lemma length_hex_bytes: "length (hex_bytes s) = 2 * length s"
  by (induction s) (simp_all add: hex_bytes_def)

definition is_ascii :: "char \<Rightarrow> bool" where
  "is_ascii c \<longleftrightarrow> byte c < 128"

definition ascii_lower :: "char \<Rightarrow> char" where
  "ascii_lower c = (if 65 \<le> byte c \<and> byte c \<le> 90 then char_of (byte c + 32) else c)"

text \<open>
  \<open>strings.ToLower\<close> lower-cases an ASCII string byte by byte and maps any other string through
  the Unicode tables, which are the parameter \<open>ulow\<close>.
\<close>

definition to_lower :: "(string \<Rightarrow> string) \<Rightarrow> string \<Rightarrow> string" where
  "to_lower ulow s = (if list_all is_ascii s then map ascii_lower s else ulow s)"

definition trim_chars :: "char list \<Rightarrow> string \<Rightarrow> string" where
  "trim_chars cs s =
     rev (dropWhile (\<lambda>c. c \<in> set cs) (rev (dropWhile (\<lambda>c. c \<in> set cs) s)))"

lemma byte_char_of: "n < 256 \<Longrightarrow> byte (char_of n) = n"
  by (simp add: byte_def)

lemma byte_ascii_lower: "byte (ascii_lower c) =
  (if 65 \<le> byte c \<and> byte c \<le> 90 then byte c + 32 else byte c)"
  by (simp add: ascii_lower_def byte_char_of)

lemma ascii_lower_idem [simp]: "ascii_lower (ascii_lower c) = ascii_lower c"
  by (simp add: ascii_lower_def byte_char_of)

lemma is_ascii_lower [simp]: "is_ascii (ascii_lower c) = is_ascii c"
  by (auto simp: is_ascii_def byte_ascii_lower)

lemma to_lower_idem_ascii: "list_all is_ascii s \<Longrightarrow> to_lower u (to_lower u s) = to_lower u s"
  by (auto simp: to_lower_def list_all_iff)

lemma dropWhile_head: "dropWhile P s = [] \<or> \<not> P (hd (dropWhile P s))"
  by (metis hd_dropWhile)

lemma dropWhile_stop: "s = [] \<or> \<not> P (hd s) \<Longrightarrow> dropWhile P s = s"
  by (cases s) auto

text \<open>A cut string has no cut character at either end, and cutting twice is cutting once.\<close>

lemma trim_chars_ends:
  "trim_chars cs s \<noteq> [] \<Longrightarrow> hd (trim_chars cs s) \<notin> set cs \<and> last (trim_chars cs s) \<notin> set cs"
proof -
  let ?P = "\<lambda>c. c \<in> set cs"
  let ?l = "dropWhile ?P s"
  let ?r = "dropWhile ?P (rev ?l)"
  assume ne: "trim_chars cs s \<noteq> []"
  then have r: "?r \<noteq> []" by (simp add: trim_chars_def)
  then have "last (rev ?r) \<notin> set cs" using hd_dropWhile [OF r] by (simp add: last_rev)
  moreover have "hd (rev ?r) = last ?r" by (simp add: hd_rev r)
  moreover have "last ?r = last (rev ?l)"
    using takeWhile_dropWhile_id [of ?P "rev ?l"] r by (metis last_appendR)
  moreover have l: "?l \<noteq> []" using r by (metis dropWhile.simps(1) rev.simps(1))
  have "last (rev ?l) \<notin> set cs" using hd_dropWhile [OF l] unfolding last_rev .
  ultimately show ?thesis by (simp add: trim_chars_def)
qed

lemma trim_chars_stable: "s = [] \<or> (hd s \<notin> set cs \<and> last s \<notin> set cs) \<Longrightarrow> trim_chars cs s = s"
proof -
  assume a: "s = [] \<or> (hd s \<notin> set cs \<and> last s \<notin> set cs)"
  then have l: "dropWhile (\<lambda>c. c \<in> set cs) s = s" by (intro dropWhile_stop) auto
  from a have "dropWhile (\<lambda>c. c \<in> set cs) (rev s) = rev s" by (intro dropWhile_stop) (auto simp: hd_rev)
  with l show ?thesis by (simp add: trim_chars_def)
qed

lemma set_dropWhile_subset: "set (dropWhile P s) \<subseteq> set s"
  by (induction s) auto

lemma set_trim_chars: "set (trim_chars cs s) \<subseteq> set s"
proof -
  let ?l = "dropWhile (\<lambda>c. c \<in> set cs) s"
  have "set (trim_chars cs s) \<subseteq> set (rev ?l)"
    unfolding trim_chars_def using set_dropWhile_subset [of _ "rev ?l"] by (subst set_rev)
  also have "\<dots> \<subseteq> set s" using set_dropWhile_subset by simp
  finally show ?thesis .
qed

lemma trim_chars_empty: "trim_chars cs s = [] \<longleftrightarrow> set s \<subseteq> set cs"
proof
  define l where "l = dropWhile (\<lambda>c. c \<in> set cs) s"
  assume "trim_chars cs s = []"
  then have "\<forall>c \<in> set l. c \<in> set cs" by (simp add: trim_chars_def l_def [symmetric] dropWhile_eq_Nil_conv)
  then have "l = []" using dropWhile_head [of "\<lambda>c. c \<in> set cs" s] by (metis hd_in_set l_def)
  then show "set s \<subseteq> set cs" unfolding l_def by (auto simp: dropWhile_eq_Nil_conv)
next
  assume "set s \<subseteq> set cs"
  then have e: "dropWhile (\<lambda>c. c \<in> set cs) s = []" by (auto simp: dropWhile_eq_Nil_conv)
  show "trim_chars cs s = []" unfolding trim_chars_def e by simp
qed

lemma has_prefix_conv: "take (length p) s = p \<longleftrightarrow> (\<exists>t. s = p @ t)"
  by (metis append_eq_conv_conj append_take_drop_id)

section \<open>Order-preserving de-duplication\<close>

text \<open>The loop \<open>for _, v := range values { if seen[v] { continue }; seen[v] = true; ... }\<close>.\<close>

fun uniq_from :: "'a list \<Rightarrow> 'a list \<Rightarrow> 'a list" where
  "uniq_from seen [] = []"
| "uniq_from seen (x # xs) =
     (if x \<in> set seen then uniq_from seen xs else x # uniq_from (x # seen) xs)"

abbreviation uniq :: "'a list \<Rightarrow> 'a list" where
  "uniq \<equiv> uniq_from []"

lemma set_uniq_from [simp]: "set (uniq_from seen xs) = set xs - set seen"
  by (induction xs arbitrary: seen) auto

lemma distinct_uniq_from [simp]: "distinct (uniq_from seen xs)"
  by (induction xs arbitrary: seen) auto

lemma uniq_from_id: "distinct xs \<Longrightarrow> set xs \<inter> set seen = {} \<Longrightarrow> uniq_from seen xs = xs"
  by (induction xs arbitrary: seen) auto

lemma uniq_eq_Nil [simp]: "uniq xs = [] \<longleftrightarrow> xs = []"
  by (cases xs) auto

lemma uniq_idem [simp]: "uniq (uniq xs) = uniq xs"
  by (rule uniq_from_id) auto

lemma length_uniq_from: "length (uniq_from seen xs) \<le> length xs"
  by (induction xs arbitrary: seen) (auto intro: le_SucI)

lemma distinct_singleton: "distinct xs \<Longrightarrow> set xs = {x} \<Longrightarrow> length xs = 1"
  using distinct_card [of xs] by simp

section \<open>Machine integers\<close>

text \<open>Go's \<open>int64\<close> range; \<open>int\<close> has the same width on the supported platforms.\<close>

definition max_int64 :: int where
  "max_int64 = 9223372036854775807"

definition min_int64 :: int where
  "min_int64 = -9223372036854775808"

definition in_int64 :: "int \<Rightarrow> bool" where
  "in_int64 n \<longleftrightarrow> min_int64 \<le> n \<and> n \<le> max_int64"

text \<open>\<open>time.Time{}\<close> is midnight of January 1st of year 1.\<close>

definition zero_time :: int where
  "zero_time = - 62135596800000000000"

section \<open>Fallible results\<close>

text \<open>A Go result \<open>(T, error)\<close> is \<open>error + T\<close>: \<open>Inl\<close> is the error return.\<close>

fun is_ok :: "'e + 'a \<Rightarrow> bool" where
  "is_ok (Inr _) = True"
| "is_ok (Inl _) = False"

lemma is_ok_iff: "is_ok r \<longleftrightarrow> (\<exists>x. r = Inr x)"
  by (cases r) auto

lemma bind_sum_Inr: "(case r of Inl e \<Rightarrow> Inl e | Inr x \<Rightarrow> f x) = Inr y \<longleftrightarrow>
    (\<exists>x. r = Inr x \<and> f x = Inr y)"
  by (cases r) auto

end
