(* ===== verification/Text.thy ===== *)
theory Text
  imports Prelude
begin

text \<open>
  The string, list and identifier helpers of \<open>service/internal\<close>: \<open>textutil/trimmed\<close>,
  \<open>textutil/stringnorm\<close> (the set and unique operations every normaliser calls),
  \<open>textutil/wordspace\<close> (word splitting and token budgets), \<open>idutil\<close> (decimal ids with a typed
  prefix) and \<open>limitutil\<close>.
\<close>

section \<open>Trimmed text (textutil/trimmed)\<close>

definition Space :: "string \<Rightarrow> string" where
  "Space value = trim_space value"

definition Blank :: "string \<Rightarrow> bool" where
  "Blank value \<longleftrightarrow> Space value = []"

fun FirstNonBlank :: "string list \<Rightarrow> string" where
  "FirstNonBlank [] = []"
| "FirstNonBlank (v # vs) = (let v' = Space v in if v' \<noteq> [] then v' else FirstNonBlank vs)"

definition Lower :: "(string \<Rightarrow> string) \<Rightarrow> string \<Rightarrow> string" where
  "Lower ulow value = to_lower ulow (Space value)"

definition optionalMatch :: "string \<Rightarrow> string \<Rightarrow> bool \<Rightarrow> bool" where
  "optionalMatch value flt admitEmptyValue =
     (let flt' = Space flt in flt' = [] \<or> (admitEmptyValue \<and> value = []) \<or> value = flt')"

declare Space_def [norm_simps] Blank_def [norm_simps]

lemma Space_idem [simp]: "Space (Space s) = Space s"
  by (simp add: Space_def)

lemma FirstNonBlank_trimmed [simp]: "Space (FirstNonBlank vs) = FirstNonBlank vs"
  by (induction vs) (auto simp: Let_def Space_def)

lemma FirstNonBlank_empty: "FirstNonBlank vs = [] \<longleftrightarrow> (\<forall>v \<in> set vs. Blank v)"
  by (induction vs) (auto simp: Let_def Blank_def)

section \<open>Normalised sets (textutil/stringnorm)\<close>

definition normalizedNonEmpty :: "string list \<Rightarrow> (string \<Rightarrow> string) \<Rightarrow> string list" where
  "normalizedNonEmpty values nrm = filter (\<lambda>v. v \<noteq> []) (map nrm values)"

definition Unique :: "string list \<Rightarrow> (string \<Rightarrow> string) \<Rightarrow> bool \<Rightarrow> string list" where
  "Unique values nrm sortOutput =
     (let out = uniq (normalizedNonEmpty values nrm) in if sortOutput then sort out else out)"

definition UniqueTrimmed :: "string list \<Rightarrow> bool \<Rightarrow> string list" where
  "UniqueTrimmed values sortOutput = Unique values Space sortOutput"

lemma set_normalizedNonEmpty: "set (normalizedNonEmpty vs f) = f ` set vs - {[]}"
  by (auto simp: normalizedNonEmpty_def)

lemma set_Unique: "set (Unique vs f b) = f ` set vs - {[]}"
  by (simp add: Unique_def Let_def set_normalizedNonEmpty)

lemma distinct_Unique: "distinct (Unique vs f b)"
  by (simp add: Unique_def Let_def)

lemma sorted_Unique: "sorted (Unique vs f True)"
  by (simp add: Unique_def Let_def)

lemma normalizedNonEmpty_id:
  "(\<And>v. v \<in> set vs \<Longrightarrow> f v = v \<and> v \<noteq> []) \<Longrightarrow> normalizedNonEmpty vs f = vs"
  by (induction vs) (auto simp: normalizedNonEmpty_def)

text \<open>Normalising an already normalised set changes nothing, sorted or not.\<close>

lemma Unique_idem:
  assumes idem: "\<And>v. f (f v) = f v"
  shows "Unique (Unique vs f b) f b = Unique vs f b"
proof -
  have "normalizedNonEmpty (Unique vs f b) f = Unique vs f b"
    by (rule normalizedNonEmpty_id) (use idem in \<open>auto simp: set_Unique\<close>)
  moreover have "uniq (Unique vs f b) = Unique vs f b"
    by (rule uniq_from_id) (auto simp: distinct_Unique)
  ultimately have "Unique (Unique vs f b) f b = (if b then sort (Unique vs f b) else Unique vs f b)"
    unfolding Unique_def [of "Unique vs f b"] by simp
  also have "\<dots> = Unique vs f b"
    using sorted_Unique [of vs f] by (simp add: sorted_sort_id)
  finally show ?thesis .
qed

section \<open>Words and budgets (textutil/wordspace)\<close>

text \<open>\<open>strings.Fields\<close>: the maximal runs of bytes that start no white-space rune.\<close>

function fields_from :: "string \<Rightarrow> string \<Rightarrow> string list" where
  "fields_from cur s =
     (case s of
        [] \<Rightarrow> if cur = [] then [] else [rev cur]
      | c # t \<Rightarrow>
          if space_len s = 0 then fields_from (c # cur) t
          else (if cur = [] then [] else [rev cur]) @ fields_from [] (drop (space_len s) s))"
  by pat_completeness auto
termination
  by (relation "measure (\<lambda>(cur, s). length s)") auto

declare fields_from.simps [simp del]

definition Words :: "string \<Rightarrow> string list" where
  "Words value = fields_from [] value"

fun join_with :: "string \<Rightarrow> string list \<Rightarrow> string" where
  "join_with sep [] = []"
| "join_with sep [w] = w"
| "join_with sep (w # v # ws) = w @ sep @ join_with sep (v # ws)"

definition Collapse :: "string \<Rightarrow> string" where
  "Collapse value = join_with '' '' (Words value)"

definition FirstWords :: "string \<Rightarrow> int \<Rightarrow> string" where
  "FirstWords content n =
     (let words = Words content in
      if n \<le> 0 then []
      else if int (length words) \<le> n then Space content
      else join_with '' '' (take (nat n) words))"

definition WordCount :: "string \<Rightarrow> int" where
  "WordCount content = int (length (Words content))"

definition ApproxTokens :: "string \<Rightarrow> int" where
  "ApproxTokens content =
     (let content' = Space content in
      if content' = [] then 1
      else let n = WordCount content' in if n > 0 then n else 1)"

definition FitsTokenBudget :: "int \<Rightarrow> int \<Rightarrow> int \<Rightarrow> bool \<Rightarrow> bool" where
  "FitsTokenBudget used cost budget allowFirstOverBudget =
     (if budget \<le> 0 then False
      else if allowFirstOverBudget \<and> used = 0 then True
      else used + cost \<le> budget)"

lemma ApproxTokens_pos: "1 \<le> ApproxTokens s"
  by (simp add: ApproxTokens_def Let_def)

lemma fields_from_nonempty: "w \<in> set (fields_from cur s) \<Longrightarrow> w \<noteq> []"
proof (induction cur s rule: fields_from.induct)
  case (1 cur s)
  show ?case
  proof (cases s)
    case Nil
    with "1.prems" show ?thesis by (auto simp: fields_from.simps [of cur "[]"] split: if_splits)
  next
    case (Cons c t)
    then show ?thesis
      using "1.IH"(1) [OF Cons] "1.IH"(2) [OF Cons] "1.prems"
      by (auto simp: fields_from.simps [of cur "c # t"] split: if_splits)
  qed
qed

section \<open>Limits (limitutil)\<close>

definition LimitDefault :: "int \<Rightarrow> int \<Rightarrow> int" where
  "LimitDefault limit defaultLimit = (if limit \<le> 0 then defaultLimit else limit)"

definition DefaultClamped :: "int \<Rightarrow> int \<Rightarrow> int \<Rightarrow> int" where
  "DefaultClamped limit defaultLimit maxLimit =
     (if limit \<le> 0 \<or> limit > maxLimit then defaultLimit else limit)"

lemma DefaultClamped_bounds:
  "0 < d \<Longrightarrow> d \<le> m \<Longrightarrow> 0 < DefaultClamped l d m \<and> DefaultClamped l d m \<le> m"
  by (auto simp: DefaultClamped_def)

section \<open>Decimal identifiers (idutil)\<close>

definition digit_char :: "nat \<Rightarrow> char" where
  "digit_char d = char_of (48 + d)"

fun digits :: "nat \<Rightarrow> string" where
  "digits n = (if n < 10 then [digit_char n] else digits (n div 10) @ [digit_char (n mod 10)])"

declare digits.simps [simp del]

text \<open>\<open>strconv.FormatInt(id, 10)\<close>.\<close>

definition Decimal :: "int \<Rightarrow> string" where
  "Decimal i = (if i < 0 then CHR ''-'' # digits (nat (- i)) else digits (nat i))"

definition Prefixed :: "string \<Rightarrow> int \<Rightarrow> string" where
  "Prefixed prefix i = prefix @ Decimal i"

datatype parse_error = ErrSyntax | ErrRange

definition is_digit :: "char \<Rightarrow> bool" where
  "is_digit c \<longleftrightarrow> 48 \<le> byte c \<and> byte c \<le> 57"

definition digits_value :: "string \<Rightarrow> nat" where
  "digits_value s = foldl (\<lambda>n c. 10 * n + (byte c - 48)) 0 s"

text \<open>\<open>strconv.ParseInt(s, 10, 64)\<close>: an optional sign, at least one digit, the int64 range.\<close>

definition parse_digits :: "bool \<Rightarrow> string \<Rightarrow> parse_error + int" where
  "parse_digits neg ds =
     (if ds = [] \<or> \<not> list_all is_digit ds then Inl ErrSyntax
      else let n = int (digits_value ds); v = (if neg then - n else n) in
           if in_int64 v then Inr v else Inl ErrRange)"

definition ParseInt :: "string \<Rightarrow> parse_error + int" where
  "ParseInt s = (case s of
     [] \<Rightarrow> Inl ErrSyntax
   | c # t \<Rightarrow> if c = CHR ''-'' then parse_digits True t
              else if c = CHR ''+'' then parse_digits False t
              else parse_digits False s)"

definition ParseDecimal :: "string \<Rightarrow> parse_error + int" where
  "ParseDecimal value = ParseInt (trim_space value)"

definition has_prefix :: "string \<Rightarrow> string \<Rightarrow> bool" where
  "has_prefix s p \<longleftrightarrow> take (length p) s = p"

definition ParsePrefixed :: "string \<Rightarrow> string \<Rightarrow> parse_error + int" where
  "ParsePrefixed value prefix =
     (if \<not> has_prefix value prefix then Inl ErrSyntax
      else ParseDecimal (drop (length prefix) value))"

lemma byte_digit_char: "d < 10 \<Longrightarrow> byte (digit_char d) = 48 + d"
  by (simp add: digit_char_def byte_char_of)

lemma digits_nonempty [simp]: "digits n \<noteq> []"
  by (subst digits.simps) simp

lemma digits_all: "list_all is_digit (digits n)"
proof (induction n rule: digits.induct)
  case (1 n)
  then show ?case
    by (cases "n < 10") (simp_all add: digits.simps [of n] is_digit_def byte_digit_char)
qed

lemma digits_value_snoc: "digits_value (s @ [c]) = 10 * digits_value s + (byte c - 48)"
  by (simp add: digits_value_def)

lemma digits_value_digits: "digits_value (digits n) = n"
proof (induction n rule: digits.induct)
  case (1 n)
  show ?case
  proof (cases "n < 10")
    case True
    then show ?thesis
      by (simp add: digits.simps [of n] digits_value_def byte_digit_char)
  next
    case False
    with "1.IH" show ?thesis
      by (simp add: digits.simps [of n] digits_value_snoc byte_digit_char)
  qed
qed

text \<open>Digits and signs are not white space, so trimming a decimal changes nothing.\<close>

lemma not_space_len: "s \<noteq> [] \<Longrightarrow> byte (hd s) < 128 \<Longrightarrow> \<not> space1 (hd s) \<Longrightarrow> space_len s = 0"
  by (cases s) (auto simp: space_len_def space2_def space3_def split: list.splits)

lemma not_rspace_len: "s \<noteq> [] \<Longrightarrow> byte (hd s) < 128 \<Longrightarrow> \<not> space1 (hd s) \<Longrightarrow> rspace_len s = 0"
  by (cases s) (auto simp: rspace_len_def space2_def space3_def split: list.splits)

lemma trim_space_solid:
  assumes "s \<noteq> []" and "\<And>c. c \<in> set s \<Longrightarrow> byte c < 128 \<and> \<not> space1 c"
  shows "trim_space s = s"
proof -
  have "space_len s = 0"
    by (rule not_space_len) (use assms hd_in_set [OF assms(1)] in auto)
  moreover have "rspace_len (rev s) = 0"
    by (rule not_rspace_len) (use assms hd_in_set [of "rev s"] in auto)
  ultimately show ?thesis by (simp add: trim_space_def strip_stop)
qed

lemma is_digit_solid: "is_digit c \<Longrightarrow> byte c < 128 \<and> \<not> space1 c"
  by (auto simp: is_digit_def space1_def)

lemma trim_Decimal: "trim_space (Decimal i) = Decimal i"
proof (rule trim_space_solid)
  show "Decimal i \<noteq> []" by (simp add: Decimal_def)
  fix c assume "c \<in> set (Decimal i)"
  then consider "c = CHR ''-''" | "is_digit c"
    using digits_all by (auto simp: Decimal_def list_all_iff split: if_splits)
  then show "byte c < 128 \<and> \<not> space1 c"
  proof cases
    case 1
    then show ?thesis by (simp add: byte_def space1_def)
  next
    case 2
    then show ?thesis by (rule is_digit_solid)
  qed
qed

lemma digits_head: "\<exists>c t. digits n = c # t \<and> is_digit c"
  using digits_all [of n] digits_nonempty [of n] by (cases "digits n") auto

lemma ParseInt_Decimal:
  assumes "in_int64 i"
  shows "ParseInt (Decimal i) = Inr i"
proof (cases "i < 0")
  case True
  with assms show ?thesis
    using digits_all [of "nat (- i)"]
    by (simp add: Decimal_def ParseInt_def parse_digits_def digits_value_digits)
next
  case False
  obtain c t where ct: "digits (nat i) = c # t" "is_digit c" using digits_head by blast
  then have "c \<noteq> CHR ''-''" "c \<noteq> CHR ''+''" by (auto simp: is_digit_def byte_def)
  with False ct assms show ?thesis
    using digits_all [of "nat i"] digits_value_digits [of "nat i"]
    by (simp add: Decimal_def ParseInt_def parse_digits_def)
qed

lemma Decimal_inject: "in_int64 i \<Longrightarrow> in_int64 j \<Longrightarrow> Decimal i = Decimal j \<longleftrightarrow> i = j"
  by (metis ParseInt_Decimal Inr_inject)

text \<open>
  Formatting an int64 identifier with a type prefix and parsing it back gives the identifier,
  and no other prefixed text of an identifier parses to it.
\<close>

theorem prefixed_id_roundtrip:
  assumes "in_int64 i"
  shows "ParsePrefixed (Prefixed prefix i) prefix = Inr i
    \<and> (\<forall>j. in_int64 j \<longrightarrow> Prefixed prefix j = Prefixed prefix i \<longrightarrow> j = i)"
  using assms
  by (auto simp: ParsePrefixed_def Prefixed_def has_prefix_def ParseDecimal_def trim_Decimal ParseInt_Decimal Decimal_inject)

theorem prefixed_id_roundtrip_witness:
  "ParsePrefixed (Prefixed ''obs:'' (-9223372036854775808)) ''obs:'' = Inr (-9223372036854775808)"
  by (rule conjunct1 [OF prefixed_id_roundtrip]) (simp add: in_int64_def min_int64_def max_int64_def)

end
