(* ===== verification/Tables.thy ===== *)
theory Tables
  imports Prelude "HOL-Library.Product_Lexorder"
begin

text \<open>
  The SQL the code issues, on tables held as lists of rows: \<open>SELECT ... WHERE key = ?\<close>
  (\<open>tfind\<close>), \<open>INSERT ... ON CONFLICT(key) DO UPDATE SET ...\<close> (\<open>tupsert\<close>, whose argument
  \<open>upd\<close> is the \<open>SET\<close> clause), \<open>DELETE ... WHERE\<close> (\<open>tdelete\<close>), \<open>INSERT\<close> into a table
  with an \<open>AUTOINCREMENT\<close> key (\<open>ainsert\<close>) and \<open>ORDER BY ... LIMIT\<close>.
  Two interfaces are stated as locales.  \<open>keyed_table\<close> is what a component relies on in a
  table with a primary key; \<open>replacing_table\<close> extends it for a \<open>SET\<close> clause that copies every
  column.  \<open>machine\<close> is a component whose operations keep an invariant, \<open>logged_machine\<close>
  extends it with an audit log that only grows.  Each component interprets them on its own
  tables and operations.
\<close>

section \<open>Keyed tables\<close>

definition tfind :: "('r \<Rightarrow> 'k) \<Rightarrow> 'k \<Rightarrow> 'r list \<Rightarrow> 'r option" where
  "tfind key k t = find (\<lambda>r. key r = k) t"

fun tupsert :: "('r \<Rightarrow> 'k) \<Rightarrow> ('r \<Rightarrow> 'r \<Rightarrow> 'r) \<Rightarrow> 'r \<Rightarrow> 'r list \<Rightarrow> 'r list" where
  "tupsert key upd r [] = [r]"
| "tupsert key upd r (x # xs) =
     (if key x = key r then upd x r # xs else x # tupsert key upd r xs)"

definition tdelete :: "('r \<Rightarrow> bool) \<Rightarrow> 'r list \<Rightarrow> 'r list" where
  "tdelete p t = filter (\<lambda>r. \<not> p r) t"

definition unique_keys :: "('r \<Rightarrow> 'k) \<Rightarrow> 'r list \<Rightarrow> bool" where
  "unique_keys key t \<longleftrightarrow> distinct (map key t)"

lemma tfind_Nil [simp]: "tfind key k [] = None"
  by (simp add: tfind_def)

lemma tfind_Cons [simp]:
  "tfind key k (x # xs) = (if key x = k then Some x else tfind key k xs)"
  by (simp add: tfind_def)

lemma tfind_Some: "tfind key k t = Some r \<Longrightarrow> r \<in> set t \<and> key r = k"
  by (auto simp: tfind_def find_Some_iff)

lemma tfind_None: "tfind key k t = None \<longleftrightarrow> k \<notin> key ` set t"
  by (auto simp: tfind_def find_None_iff)

lemma unique_keys_Nil [simp]: "unique_keys key []"
  by (simp add: unique_keys_def)

lemma tfind_unique: "unique_keys key t \<Longrightarrow> r \<in> set t \<Longrightarrow> tfind key (key r) t = Some r"
  by (induction t) (auto simp: unique_keys_def image_iff)

lemma unique_keys_eq: "unique_keys key t \<Longrightarrow> x \<in> set t \<Longrightarrow> y \<in> set t \<Longrightarrow> key x = key y \<Longrightarrow> x = y"
  by (auto simp: unique_keys_def distinct_map dest: inj_onD)

lemma unique_filter:
  "unique_keys key t \<Longrightarrow> tfind key k t = Some r \<Longrightarrow> filter (\<lambda>x. key x = k) t = [r]"
proof (induction t)
  case (Cons x xs)
  then show ?case by (auto simp: unique_keys_def filter_empty_conv image_iff split: if_splits)
qed simp

lemma unique_keys_tdelete [simp]: "unique_keys key t \<Longrightarrow> unique_keys key (tdelete p t)"
  by (simp add: unique_keys_def tdelete_def distinct_map_filter)

lemma tfind_tdelete_key:
  "tfind key k (tdelete (\<lambda>r. key r = k') t) = (if k = k' then None else tfind key k t)"
  by (induction t) (auto simp: tdelete_def)

lemma set_tdelete [simp]: "set (tdelete p t) = {r \<in> set t. \<not> p r}"
  by (simp add: tdelete_def)

lemma tfind_map: "(\<And>x. key (f x) = key x) \<Longrightarrow> tfind key k (map f t) = map_option f (tfind key k t)"
  by (induction t) auto

lemma tfind_append: "tfind key k (xs @ ys) = (case tfind key k xs of None \<Rightarrow> tfind key k ys | Some x \<Rightarrow> Some x)"
  by (induction xs) auto

lemma unique_keys_map: "(\<And>x. key (f x) = key x) \<Longrightarrow> unique_keys key (map f t) = unique_keys key t"
  by (simp add: unique_keys_def comp_def)

lemma tupsert_absent: "key r \<notin> key ` set t \<Longrightarrow> tupsert key upd r t = t @ [r]"
  by (induction t) auto

text \<open>The contract of a table with a primary key: the \<open>SET\<close> clause does not touch the key.\<close>

locale keyed_table =
  fixes key :: "'r \<Rightarrow> 'k"
    and upd :: "'r \<Rightarrow> 'r \<Rightarrow> 'r"
  assumes key_upd: "key x = key r \<Longrightarrow> key (upd x r) = key r"
begin

lemma find_upsert:
  "tfind key k (tupsert key upd r t) =
    (if k = key r then Some (case tfind key k t of None \<Rightarrow> r | Some x \<Rightarrow> upd x r)
     else tfind key k t)"
  by (induction t) (auto simp: key_upd)

lemma find_upsert_other [simp]:
  "k \<noteq> key r \<Longrightarrow> tfind key k (tupsert key upd r t) = tfind key k t"
  by (simp add: find_upsert)

lemma keys_upsert: "key ` set (tupsert key upd r t) = insert (key r) (key ` set t)"
  by (induction t) (auto simp: key_upd)

lemma unique_upsert [simp]: "unique_keys key t \<Longrightarrow> unique_keys key (tupsert key upd r t)"
proof (induction t)
  case Nil
  then show ?case by (simp add: unique_keys_def)
next
  case (Cons x xs)
  then have IH: "unique_keys key (tupsert key upd r xs)"
    and x: "key x \<notin> key ` set xs" by (auto simp: unique_keys_def)
  show ?case
  proof (cases "key x = key r")
    case True
    with Cons.prems show ?thesis by (auto simp: unique_keys_def key_upd)
  next
    case False
    with x have "key x \<notin> key ` set (tupsert key upd r xs)" by (simp add: keys_upsert)
    with IH False show ?thesis by (simp add: unique_keys_def)
  qed
qed

lemma upsert_row: "x \<in> set (tupsert key upd r t) \<Longrightarrow>
    x = r \<or> x \<in> set t \<or> (\<exists>y \<in> set t. key y = key r \<and> x = upd y r)"
  by (induction t) (auto split: if_splits)

text \<open>Writes to other keys leave a row alone: no scope sees another scope's writes.\<close>

lemma find_upserts_other:
  "k \<notin> key ` set rs \<Longrightarrow> tfind key k (fold (tupsert key upd) rs t) = tfind key k t"
  by (induction rs arbitrary: t) auto

end

text \<open>A \<open>SET\<close> clause that copies every column: the last write wins.\<close>

locale replacing_table = keyed_table +
  assumes upd_replaces: "key x = key r \<Longrightarrow> upd x r = r"
begin

lemma find_upsert_same [simp]: "tfind key (key r) (tupsert key upd r t) = Some r"
proof (cases "tfind key (key r) t")
  case None
  then show ?thesis by (simp add: find_upsert)
next
  case (Some x)
  then have "key x = key r" by (auto dest: tfind_Some)
  with Some show ?thesis by (simp add: find_upsert upd_replaces)
qed

lemma upsert_rows: "set (tupsert key upd r t) \<subseteq> insert r (set t)"
proof (induction t)
  case (Cons x xs)
  then show ?case by (cases "key x = key r") (auto simp: upd_replaces)
qed simp

end

section \<open>Tables with an AUTOINCREMENT key\<close>

text \<open>
  \<open>INTEGER PRIMARY KEY AUTOINCREMENT\<close>: SQLite keeps the largest id it ever gave out
  (\<open>aseq\<close>, the \<open>sqlite_sequence\<close> entry), so ids are never reused; \<open>LastInsertId\<close> is the id
  of the inserted row.
\<close>

record 'r atable =
  arows :: "(int \<times> 'r) list"
  aseq :: int

definition aempty :: "'r atable" where
  "aempty = \<lparr>arows = [], aseq = 0\<rparr>"

definition ainsert :: "'r \<Rightarrow> 'r atable \<Rightarrow> int \<times> 'r atable" where
  "ainsert r t = (let i = aseq t + 1 in (i, t\<lparr>arows := arows t @ [(i, r)], aseq := i\<rparr>))"

definition awf :: "'r atable \<Rightarrow> bool" where
  "awf t \<longleftrightarrow> distinct (map fst (arows t)) \<and> (\<forall>(i, r) \<in> set (arows t). 0 < i \<and> i \<le> aseq t)
     \<and> 0 \<le> aseq t"

text \<open>One audit log extends another: nothing was removed or rewritten, and what is new has greater ids.\<close>

definition extends :: "'r atable \<Rightarrow> 'r atable \<Rightarrow> bool" where
  "extends t u \<longleftrightarrow> (\<exists>rs. arows u = arows t @ rs \<and> (\<forall>(i, r) \<in> set rs. aseq t < i)) \<and> aseq t \<le> aseq u"

lemma awf_aempty [simp]: "awf aempty"
  by (simp add: awf_def aempty_def)

lemma awf_ainsert [simp]: "awf t \<Longrightarrow> awf (snd (ainsert r t))"
  by (fastforce simp: awf_def ainsert_def Let_def)

text \<open>An \<open>UPDATE\<close> keeps the ids.\<close>

lemma awf_update: "(\<And>x. fst (f x) = fst x) \<Longrightarrow> awf t \<Longrightarrow> awf (t\<lparr>arows := map f (arows t)\<rparr>)"
  by (simp add: awf_def comp_def split_def)

lemma arows_ainsert [simp]:
  "arows (snd (ainsert r t)) = arows t @ [(fst (ainsert r t), r)]"
  by (simp add: ainsert_def Let_def)

lemma aseq_ainsert [simp]: "aseq (snd (ainsert r t)) = fst (ainsert r t)"
  by (simp add: ainsert_def Let_def)

lemma fst_ainsert: "fst (ainsert r t) = aseq t + 1"
  by (simp add: ainsert_def Let_def)

lemma ainsert_fresh: "awf t \<Longrightarrow> fst (ainsert r t) \<notin> fst ` set (arows t)"
  by (fastforce simp: awf_def fst_ainsert)

lemma extends_refl [simp]: "extends t t"
  by (simp add: extends_def)

lemma extends_trans: "extends t u \<Longrightarrow> extends u v \<Longrightarrow> extends t v"
  unfolding extends_def by (fastforce intro: order.strict_trans1)

lemma extends_ainsert [simp]: "extends t (snd (ainsert r t))"
  by (simp add: extends_def fst_ainsert)

lemma extends_ainsert_trans: "extends t u \<Longrightarrow> extends t (snd (ainsert r u))"
  by (rule extends_trans [OF _ extends_ainsert])

section \<open>Ordering and limits\<close>

text \<open>\<open>ORDER BY k ASC LIMIT n\<close>, \<open>ORDER BY k DESC LIMIT n\<close>; \<open>k\<close> is unique where it is used.\<close>

definition order_asc :: "('r \<Rightarrow> 'k::linorder) \<Rightarrow> 'r list \<Rightarrow> 'r list" where
  "order_asc k rs = sort_key k rs"

definition order_desc :: "('r \<Rightarrow> 'k::linorder) \<Rightarrow> 'r list \<Rightarrow> 'r list" where
  "order_desc k rs = rev (sort_key k rs)"

lemma set_order_asc [simp]: "set (order_asc k rs) = set rs"
  by (simp add: order_asc_def)

lemma set_order_desc [simp]: "set (order_desc k rs) = set rs"
  by (simp add: order_desc_def)

lemma length_order_asc [simp]: "length (order_asc k rs) = length rs"
  by (simp add: order_asc_def)

lemma sorted_order_asc [simp]: "sorted (map k (order_asc k rs))"
  by (simp add: order_asc_def)

lemma distinct_map_order_asc [simp]: "distinct (map f (order_asc k rs)) = distinct (map f rs)"
  by (simp add: order_asc_def distinct_map)

lemma insort_key_append: "(\<And>y. y \<in> set ys \<Longrightarrow> k x \<le> k y) \<Longrightarrow> insort_key k x (xs @ ys) = insort_key k x xs @ ys"
  by (induction xs) (auto intro: insort_is_Cons)

lemma order_asc_append:
  "(\<And>x y. x \<in> set xs \<Longrightarrow> y \<in> set ys \<Longrightarrow> k x \<le> k y) \<Longrightarrow> order_asc k (xs @ ys) = order_asc k xs @ order_asc k ys"
proof (induction xs)
  case (Cons x xs)
  then have "\<And>y. y \<in> set (sort_key k ys) \<Longrightarrow> k x \<le> k y" by simp
  from insort_key_append [where k = k and x = x and xs = "sort_key k xs" and ys = "sort_key k ys", OF this] Cons show ?case by (simp add: order_asc_def)
qed (simp add: order_asc_def)

lemma order_asc_id: "sorted (map k xs) \<Longrightarrow> order_asc k xs = xs"
  by (induction xs) (auto simp: order_asc_def intro: insort_is_Cons)

lemma last_sort_key:
  assumes "x \<in> set xs" "\<And>y. y \<in> set xs \<Longrightarrow> y \<noteq> x \<Longrightarrow> k y < k x"
  shows "last (sort_key k xs) = x"
proof (rule ccontr)
  let ?s = "sort_key k xs"
  assume ne: "last ?s \<noteq> x"
  have n: "?s \<noteq> []" using assms(1) by (metis empty_iff empty_set set_sort)
  then have "last ?s \<in> set xs" by (metis last_in_set set_sort)
  with assms(2) ne have lt: "k (last ?s) < k x" by blast
  have s: "sorted (map k (butlast ?s @ [last ?s]))" using n by simp
  have "x \<in> set (butlast ?s)" using assms(1) ne n by (metis append_butlast_last_id in_set_conv_decomp rotate1.simps(2) set_ConsD set_rotate1 set_sort)
  with s have "k x \<le> k (last ?s)" by (auto simp: sorted_append)
  with lt show False by simp
qed

lemma order_desc_greatest:
  assumes "x \<in> set xs" "\<And>y. y \<in> set xs \<Longrightarrow> y \<noteq> x \<Longrightarrow> k y < k x"
  shows "\<exists>ys. order_desc k xs = x # ys"
proof -
  have "sort_key k xs \<noteq> []" using assms(1) by (metis empty_iff empty_set set_sort)
  then have "sort_key k xs = butlast (sort_key k xs) @ [last (sort_key k xs)]" by simp
  with last_sort_key [of x xs k] assms show ?thesis unfolding order_desc_def by (metis rev.simps(2) rev_rev_ident append_Nil2 rev_append rev_singleton_conv append_Cons append_Nil)
qed

text \<open>\<open>ORDER BY k DESC LIMIT n\<close> returns the \<open>n\<close> rows with the greatest keys, greatest first.\<close>

definition newest :: "('r \<Rightarrow> 'k::linorder) \<Rightarrow> nat \<Rightarrow> 'r list \<Rightarrow> 'r list \<Rightarrow> bool" where
  "newest k n xs ys \<longleftrightarrow> set ys \<subseteq> set xs \<and> length ys = min n (length xs) \<and> distinct ys \<and> sorted (rev (map k ys))
     \<and> (\<forall>x \<in> set xs - set ys. \<forall>y \<in> set ys. k x \<le> k y)"

lemma newest_order_desc: "distinct xs \<Longrightarrow> newest k n xs (take n (order_desc k xs))"
proof -
  assume d: "distinct xs"
  let ?o = "order_desc k xs"
  have s: "sorted (rev (map k (take n ?o @ drop n ?o)))" by (simp add: order_desc_def rev_map [symmetric])
  then have "\<forall>x \<in> set (drop n ?o). \<forall>y \<in> set (take n ?o). k x \<le> k y" "sorted (rev (map k (take n ?o)))"
    by (simp_all only: map_append rev_append sorted_append set_rev set_map) auto
  moreover have "set xs = set (take n ?o) \<union> set (drop n ?o)"
    by (metis append_take_drop_id set_append set_order_desc)
  moreover have "distinct ?o" using d by (simp add: order_desc_def)
  ultimately show ?thesis by (auto simp: newest_def order_desc_def dest: in_set_takeD)
qed

lemma newest_full:
  assumes "newest k n xs ys" "distinct xs" "\<forall>b \<in> B. \<forall>a \<in> A. k a < k b" "B \<subseteq> set xs" "n \<le> card B"
  shows "set ys \<inter> A = {}"
proof (rule ccontr)
  assume "set ys \<inter> A \<noteq> {}"
  then obtain a where a: "a \<in> set ys" "a \<in> A" by blast
  have fin: "finite B" using assms(4) by (auto intro: finite_subset)
  have "B \<subseteq> set ys"
    using assms a unfolding newest_def by (metis DiffI linorder_not_le subset_iff)
  moreover have "a \<notin> B" using assms(3) a by blast
  ultimately have "card (insert a B) \<le> card (set ys)" using a by (intro card_mono) auto
  moreover have "card (set ys) \<le> n" using assms(1) distinct_card [of ys] by (simp add: newest_def)
  ultimately show False using \<open>a \<notin> B\<close> fin assms(5) by simp
qed

section \<open>Components with an invariant\<close>

locale machine =
  fixes step :: "'e \<Rightarrow> 's \<Rightarrow> 's"
    and inv :: "'s \<Rightarrow> bool"
  assumes step_inv: "inv s \<Longrightarrow> inv (step e s)"
begin

lemma run_inv: "inv s \<Longrightarrow> inv (fold step es s)"
  by (induction es arbitrary: s) (auto intro: step_inv)

lemma run_prefix_inv: "inv s \<Longrightarrow> inv (fold step (take n es) s)"
  by (rule run_inv)

end

text \<open>A component whose invariant holds as long as its callers keep a condition.\<close>

locale guarded_machine =
  fixes step :: "'e \<Rightarrow> 's \<Rightarrow> 's"
    and inv :: "'s \<Rightarrow> bool"
    and ok :: "'e \<Rightarrow> bool"
  assumes guarded_step: "ok e \<Longrightarrow> inv s \<Longrightarrow> inv (step e s)"
begin

lemma guarded_run: "list_all ok es \<Longrightarrow> inv s \<Longrightarrow> inv (fold step es s)"
  by (induction es arbitrary: s) (auto intro: guarded_step)

end

locale logged_machine = machine +
  fixes log :: "'s \<Rightarrow> 'r atable"
  assumes step_log: "inv s \<Longrightarrow> extends (log s) (log (step e s))"
begin

lemma run_log: "inv s \<Longrightarrow> extends (log s) (log (fold step es s))"
proof (induction es arbitrary: s)
  case Nil
  then show ?case by simp
next
  case (Cons e es)
  from Cons.IH [OF step_inv [OF Cons.prems]] step_log [OF Cons.prems]
  show ?case by (auto intro: extends_trans)
qed

end

text \<open>
  A component that implements an abstract machine: its steps commute with the abstraction, so a
  run of the implementation is abstracted by the run of the specification.
\<close>

locale simulation = machine +
  fixes abs :: "'s \<Rightarrow> 'a"
    and astep :: "'e \<Rightarrow> 'a \<Rightarrow> 'a"
  assumes step_abs: "inv s \<Longrightarrow> abs (step e s) = astep e (abs s)"
begin

lemma run_abs: "inv s \<Longrightarrow> abs (fold step es s) = fold astep es (abs s)"
  by (induction es arbitrary: s) (simp_all add: step_inv step_abs)

lemma run_abs_cong: "inv s \<Longrightarrow> inv s' \<Longrightarrow> abs s = abs s' \<Longrightarrow> abs (fold step es s) = abs (fold step es s')"
  by (simp add: run_abs)

end

end
