(* ===== verification/Scope.thy ===== *)
theory Scope
  imports Text Tables
begin

text \<open>
  Workspace, profile, peer and action scopes: \<open>scopekey\<close>, \<open>actionscope\<close>, \<open>memoryscope\<close>,
  \<open>scopeauth\<close> under \<open>service/internal\<close>, \<open>service/action_scope.go\<close>, and the server-mode
  gate of \<open>service/server_mode.go\<close>.  Every scoped row of the database is keyed by the
  normalised scope, so the lemmas here are what keeps the rows of two scopes apart.
\<close>

record Scope =
  WorkspaceID :: string
  ProfileID :: string
  Peer :: string

record ActionScope = Scope +
  ActionID :: string

definition scopekey_Workspace :: "string \<Rightarrow> string \<Rightarrow> bool \<Rightarrow> string" where
  "scopekey_Workspace defaultWorkspace requested wildcardAll =
     (let workspaceID = trim_space requested in
      if wildcardAll \<and> workspaceID = ''*'' then []
      else if workspaceID = [] then trim_space defaultWorkspace
      else workspaceID)"

definition scopekey_Normalize :: "string \<Rightarrow> string \<Rightarrow> string \<Rightarrow> string \<Rightarrow> Scope" where
  "scopekey_Normalize defaultWorkspace workspaceID profileID peer =
     \<lparr>WorkspaceID = scopekey_Workspace defaultWorkspace workspaceID False,
      ProfileID = trim_space profileID, Peer = trim_space peer\<rparr>"

definition Complete :: "'a Scope_scheme \<Rightarrow> bool" where
  "Complete s \<longleftrightarrow> WorkspaceID s \<noteq> [] \<and> Peer s \<noteq> []"

definition actionscope_Normalize ::
    "string \<Rightarrow> string \<Rightarrow> string \<Rightarrow> string \<Rightarrow> string \<Rightarrow> ActionScope" where
  "actionscope_Normalize defaultWorkspaceID workspaceID profileID peer actionID =
     (let scope = scopekey_Normalize defaultWorkspaceID workspaceID profileID peer in
      \<lparr>WorkspaceID = WorkspaceID scope, ProfileID = ProfileID scope, Peer = Peer scope,
       ActionID = trim_space actionID\<rparr>)"

text \<open>\<open>Service.normalizeScopedAction\<close>: the message is the text after the \<open>goncho: \<close> prefix.\<close>

definition normalizeScopedAction ::
    "string \<Rightarrow> string \<Rightarrow> string \<Rightarrow> string \<Rightarrow> string \<Rightarrow> string \<Rightarrow> bool \<Rightarrow> string + ActionScope" where
  "normalizeScopedAction svcWorkspace workspaceID profileID peer actionID requiredMessage requireActionID =
     (let scope = actionscope_Normalize svcWorkspace workspaceID profileID peer actionID in
      if \<not> Complete scope \<or> (requireActionID \<and> ActionID scope = []) then Inl requiredMessage
      else Inr scope)"

definition memoryscope_Normalize :: "(string \<Rightarrow> string) \<Rightarrow> string \<Rightarrow> string \<Rightarrow> string" where
  "memoryscope_Normalize ulow scope profileID =
     (let s = Lower ulow scope in
      if s \<in> {''profile'', ''workspace'', ''shared'', ''session'', ''global''} then s
      else if trim_space profileID \<noteq> [] then ''profile'' else ''workspace'')"

record ActorScope =
  ActorWorkspaceID :: string
  ActorProfileID :: string

definition NormalizeActorScope :: "string \<Rightarrow> string \<Rightarrow> string \<Rightarrow> ActorScope" where
  "NormalizeActorScope actorWorkspaceID actorProfileID targetWorkspaceID =
     (let workspaceID = trim_space actorWorkspaceID in
      \<lparr>ActorWorkspaceID = (if workspaceID = [] then targetWorkspaceID else workspaceID),
       ActorProfileID = trim_space actorProfileID\<rparr>)"

definition SameScope :: "ActorScope \<Rightarrow> string \<Rightarrow> string \<Rightarrow> bool" where
  "SameScope actor targetWorkspaceID targetProfileID \<longleftrightarrow>
     ActorWorkspaceID actor = targetWorkspaceID \<and> ActorProfileID actor = targetProfileID"

text \<open>
  \<open>fmt.Sprintf("%q", s)\<close>: an ASCII text is quoted byte by byte; any other text goes through the
  Unicode tables of \<open>strconv.Quote\<close>, which are the parameter \<open>uquote\<close>.
\<close>

definition quote_char :: "char \<Rightarrow> string" where
  "quote_char c =
     (let b = byte c; bs = char_of (92 :: nat) in
      if b = 34 \<or> b = 92 then [bs, c]
      else if b = 7 then [bs, CHR ''a''] else if b = 8 then [bs, CHR ''b'']
      else if b = 9 then [bs, CHR ''t''] else if b = 10 then [bs, CHR ''n'']
      else if b = 11 then [bs, CHR ''v''] else if b = 12 then [bs, CHR ''f'']
      else if b = 13 then [bs, CHR ''r'']
      else if b < 32 \<or> b = 127 then [bs, CHR ''x'', hex_digit (b div 16), hex_digit (b mod 16)]
      else [c])"

definition quote :: "(string \<Rightarrow> string) \<Rightarrow> string \<Rightarrow> string" where
  "quote uquote s =
     (if list_all is_ascii s then [char_of (34 :: nat)] @ concat (map quote_char s) @ [char_of (34 :: nat)] else uquote s)"

definition DeniedReadReason :: "(string \<Rightarrow> string) \<Rightarrow> ActorScope \<Rightarrow> string \<Rightarrow> string \<Rightarrow> string \<Rightarrow> string" where
  "DeniedReadReason uquote actor resource targetWorkspaceID targetProfileID =
     ''actor scope workspace='' @ quote uquote (ActorWorkspaceID actor) @ '' profile='' @ quote uquote (ActorProfileID actor)
     @ '' cannot read '' @ resource @ '' scope workspace='' @ quote uquote targetWorkspaceID
     @ '' profile='' @ quote uquote targetProfileID"

text \<open>\<open>normalizeServerMode\<close> and \<open>requireDistributedServerMode\<close>; the mode constants are the text.\<close>

definition normalizeServerMode :: "(string \<Rightarrow> string) \<Rightarrow> string \<Rightarrow> string" where
  "normalizeServerMode ulow mode =
     (let m = trim_space (to_lower ulow mode) in
      if m = ''team-preview'' then ''team-preview''
      else if m = ''team-enabled'' then ''team-enabled''
      else ''local-only'')"

definition requireDistributedServerMode :: "(string \<Rightarrow> string) \<Rightarrow> string option \<Rightarrow> bool" where
  "requireDistributedServerMode ulow serverMode =
     (case serverMode of None \<Rightarrow> False
      | Some m \<Rightarrow> normalizeServerMode ulow m = ''team-enabled'')"

section \<open>Facts about normalised scopes\<close>

text \<open>The key of every action-scoped table.\<close>

type_synonym scope_key = "string \<times> string \<times> string \<times> string"

definition scope_key :: "'a ActionScope_scheme \<Rightarrow> scope_key" where
  "scope_key s = (WorkspaceID s, ProfileID s, Peer s, ActionID s)"

text \<open>
  The \<open>WHERE\<close> clause \<open>actionwhere.ScopedAction\<close> builds: workspace, profile and peer are always
  compared, the action only when one was given.
\<close>

definition ScopedAction :: "scope_key \<Rightarrow> scope_key \<Rightarrow> bool" where
  "ScopedAction q k = (case q of (w, p, pe, a) \<Rightarrow> case k of (w', p', pe', a') \<Rightarrow>
     w' = w \<and> p' = p \<and> pe' = pe \<and> (a \<noteq> [] \<longrightarrow> a' = a))"

definition peer_of :: "scope_key \<Rightarrow> string \<times> string \<times> string" where
  "peer_of k = (case k of (w, p, pe, a) \<Rightarrow> (w, p, pe))"

definition act_of :: "scope_key \<Rightarrow> string" where
  "act_of k = (case k of (w, p, pe, a) \<Rightarrow> a)"

lemma ScopedAction_alt: "ScopedAction q k \<longleftrightarrow>
    peer_of k = peer_of q \<and> (act_of q \<noteq> [] \<longrightarrow> act_of k = act_of q)"
  by (auto simp: ScopedAction_def peer_of_def act_of_def split: prod.splits)

lemma scope_key_eq_iff: "k = k' \<longleftrightarrow> peer_of k = peer_of k' \<and> act_of k = act_of k'"
  by (auto simp: peer_of_def act_of_def split: prod.splits)

lemma ScopedAction_exact: "act_of q \<noteq> [] \<Longrightarrow> ScopedAction q k \<longleftrightarrow> k = q"
  by (auto simp: ScopedAction_alt scope_key_eq_iff)

lemma act_of_scope_key [simp]: "act_of (scope_key s) = ActionID s"
  by (simp add: act_of_def scope_key_def)

lemma scope_key_inject [simp]: "scope_key (s :: ActionScope) = scope_key s' \<longleftrightarrow> s = s'"
  by (cases s; cases s') (auto simp: scope_key_def)

definition trimmed :: "string \<Rightarrow> bool" where
  "trimmed s \<longleftrightarrow> trim_space s = s"

lemma trimmed_trim [simp]: "trimmed (trim_space s)"
  by (simp add: trimmed_def)

lemma trimmed_Nil [simp]: "trimmed []"
  by (simp add: trimmed_def)

lemma normalizeScopedAction_cases:
  "normalizeScopedAction w ws p pe a msg req = Inl e \<Longrightarrow> e = msg"
  by (auto simp: normalizeScopedAction_def Let_def split: if_splits)

lemma normalizeScopedAction_ok:
  assumes "normalizeScopedAction w ws p pe a msg req = Inr s"
  shows "WorkspaceID s \<noteq> []" "Peer s \<noteq> []" "req \<Longrightarrow> ActionID s \<noteq> []"
    and "trimmed (WorkspaceID s)" "trimmed (ProfileID s)" "trimmed (Peer s)" "trimmed (ActionID s)"
  using assms
  by (auto simp: normalizeScopedAction_def actionscope_Normalize_def scopekey_Normalize_def
      scopekey_Workspace_def Complete_def Let_def split: if_splits)

lemma memoryscope_Normalize_valid:
  "memoryscope_Normalize u s p \<in> {''profile'', ''workspace'', ''shared'', ''session'', ''global''}"
  by (simp add: memoryscope_Normalize_def Let_def)

lemma normalizeServerMode_valid:
  "normalizeServerMode u m \<in> {''local-only'', ''team-preview'', ''team-enabled''}"
  by (simp add: normalizeServerMode_def Let_def)

end
