(* ===== verification/ActionGraph.thy ===== *)
theory ActionGraph
  imports Scope
begin

text \<open>
  The action graph of \<open>service/action_graph.go\<close>: actions with a status, the dependencies
  between them, the signals sent to them, and the frontier of actions that are ready to run.
  Each operation takes the stored tables (\<open>action_db\<close>), the clock reading \<open>now\<close> and a fault
  oracle \<open>flt\<close> that says which SQL statement of the call fails; it returns the result and the
  tables after the call.  The statements of \<open>UpsertAction\<close> are not in one transaction, so a
  fault leaves the effect of the statements before it, which the model keeps.
\<close>

section \<open>Tables and values\<close>

datatype ActionStatus = ActionStatusPending | ActionStatusDone

record ActionSignalReceipt =
  rc_ID :: int
  rc_key :: scope_key
  rc_SignalID :: int
  rc_Actor :: string
  rc_ReadAt :: int

record ActionSignal =
  sg_ID :: int
  sg_ActionID :: string
  sg_Signal :: string
  sg_Message :: string
  sg_Actor :: string
  sg_CreatedAt :: int
  sg_Receipts :: "ActionSignalReceipt list"

record ActionNode =
  an_scope :: ActionScope
  an_Title :: string
  an_Status :: ActionStatus
  an_DependsOn :: "string list"
  an_Signals :: "ActionSignal list"
  an_CreatedAt :: int
  an_UpdatedAt :: int

record signal_row =
  sr_key :: scope_key
  sr_Signal :: string
  sr_Message :: string
  sr_Actor :: string
  sr_CreatedAt :: int

record action_db =
  actions :: "ActionNode list"
  deps :: "(scope_key \<times> string) list"
  signals :: "signal_row atable"
  receipts :: "ActionSignalReceipt list"

record ActionGraph =
  ag_Nodes :: "ActionNode list"
  ag_Frontier :: "ActionNode list"
  ag_NextAction :: "ActionNode option"

datatype act_site = GetAction | GetStored | UpsertRow | ClearDeps | InsertDep nat | CompleteUpdate
  | InsertSignal | ListActions | ListDeps | ListSignals | ListReceipts

datatype act_error = ActInvalid string | ActNoRows | ActDb act_site | ActDupDep string

record ActionParams =
  ap_WorkspaceID :: string
  ap_ProfileID :: string
  ap_Peer :: string
  ap_ActionID :: string
  ap_Title :: string
  ap_DependsOn :: "string list"

record ActionGraphQuery =
  aq_WorkspaceID :: string
  aq_ProfileID :: string
  aq_Peer :: string
  aq_ActionID :: string

record ActionSignalParams = ActionGraphQuery +
  as_Signal :: string
  as_Message :: string
  as_Actor :: string

definition an_key :: "ActionNode \<Rightarrow> scope_key" where
  "an_key n = scope_key (an_scope n)"

abbreviation an_ID :: "ActionNode \<Rightarrow> string" where
  "an_ID n \<equiv> ActionID (an_scope n)"

section \<open>Normalisation\<close>

definition normalizeActionParams :: "string \<Rightarrow> ActionParams \<Rightarrow> act_error + ActionNode" where
  "normalizeActionParams svcWs p =
     (let msg = ''action workspace_id, peer, action_id, and title are required'' in
      case normalizeScopedAction svcWs (ap_WorkspaceID p) (ap_ProfileID p) (ap_Peer p) (ap_ActionID p) msg True of
        Inl e \<Rightarrow> Inl (ActInvalid e)
      | Inr action \<Rightarrow>
          let title = trim_space (ap_Title p) in
          if title = [] then Inl (ActInvalid msg)
          else Inr \<lparr>an_scope = action, an_Title = title, an_Status = ActionStatusPending,
                    an_DependsOn = UniqueTrimmed (ap_DependsOn p) True, an_Signals = [],
                    an_CreatedAt = 0, an_UpdatedAt = 0\<rparr>)"

definition normalizeActionQuery :: "string \<Rightarrow> 'a ActionGraphQuery_scheme \<Rightarrow> act_error + ActionScope" where
  "normalizeActionQuery svcWs q =
     (case normalizeScopedAction svcWs (aq_WorkspaceID q) (aq_ProfileID q) (aq_Peer q) (aq_ActionID q)
             ''action workspace_id and peer are required'' False of
        Inl e \<Rightarrow> Inl (ActInvalid e) | Inr a \<Rightarrow> Inr a)"

definition normalizeActionSignal :: "string \<Rightarrow> ActionSignalParams \<Rightarrow> act_error + (ActionScope \<times> ActionSignal)" where
  "normalizeActionSignal svcWs p =
     (let msg = ''action signal workspace_id, peer, action_id, and signal are required'' in
      case normalizeScopedAction svcWs (aq_WorkspaceID p) (aq_ProfileID p) (aq_Peer p) (aq_ActionID p) msg True of
        Inl e \<Rightarrow> Inl (ActInvalid e)
      | Inr action \<Rightarrow>
          let signal = trim_space (as_Signal p) in
          if signal = [] then Inl (ActInvalid msg)
          else Inr (action, \<lparr>sg_ID = 0, sg_ActionID = ActionID action, sg_Signal = signal,
                 sg_Message = trim_space (as_Message p), sg_Actor = trim_space (as_Actor p),
                 sg_CreatedAt = 0, sg_Receipts = []\<rparr>))"

section \<open>Statements\<close>

definition set_action :: "ActionNode \<Rightarrow> ActionNode \<Rightarrow> ActionNode" where
  "set_action old new = old\<lparr>an_Title := an_Title new, an_Status := an_Status new,
     an_UpdatedAt := an_UpdatedAt new\<rparr>"

text \<open>A stored row holds no edges; \<open>listActionDependencies\<close> and \<open>listActionSignals\<close> read them.\<close>

definition upsertActionNode :: "ActionNode \<Rightarrow> action_db \<Rightarrow> action_db" where
  "upsertActionNode node db =
     db\<lparr>actions := tupsert an_key set_action (node\<lparr>an_DependsOn := [], an_Signals := []\<rparr>) (actions db)\<rparr>"

definition getActionNode :: "action_db \<Rightarrow> scope_key \<Rightarrow> ActionNode option" where
  "getActionNode db k = tfind an_key k (actions db)"

fun insertActionDeps :: "(act_site \<Rightarrow> bool) \<Rightarrow> nat \<Rightarrow> scope_key \<Rightarrow> string list \<Rightarrow> action_db
    \<Rightarrow> (act_error + unit) \<times> action_db" where
  "insertActionDeps flt i k [] db = (Inr (), db)"
| "insertActionDeps flt i k (d # ds) db =
     (if flt (InsertDep i) then (Inl (ActDb (InsertDep i)), db)
      else if (k, d) \<in> set (deps db) then (Inl (ActDupDep d), db)
      else insertActionDeps flt (Suc i) k ds (db\<lparr>deps := deps db @ [(k, d)]\<rparr>))"

definition replaceActionDependencies :: "(act_site \<Rightarrow> bool) \<Rightarrow> ActionNode \<Rightarrow> action_db
    \<Rightarrow> (act_error + unit) \<times> action_db" where
  "replaceActionDependencies flt node db =
     (if flt ClearDeps then (Inl (ActDb ClearDeps), db)
      else insertActionDeps flt 0 (an_key node) (an_DependsOn node)
             (db\<lparr>deps := tdelete (\<lambda>(k, d). k = an_key node) (deps db)\<rparr>))"

text \<open>\<open>ORDER BY depends_on ASC\<close>.\<close>

definition listActionDependencies :: "action_db \<Rightarrow> scope_key \<Rightarrow> string list" where
  "listActionDependencies db k = sort (map snd (filter (\<lambda>(k', d). ScopedAction k k') (deps db)))"

text \<open>\<open>listActionSignalReceiptsBySignal\<close>: oldest first, at most 100.\<close>

definition listReceiptsBySignal :: "action_db \<Rightarrow> scope_key \<Rightarrow> int \<Rightarrow> ActionSignalReceipt list" where
  "listReceiptsBySignal db k signalID =
     take 100 (order_asc (\<lambda>r. (rc_ReadAt r, rc_ID r))
       (filter (\<lambda>r. rc_key r = k \<and> (signalID \<noteq> 0 \<longrightarrow> rc_SignalID r = signalID)) (receipts db)))"

definition listActionSignals :: "action_db \<Rightarrow> scope_key \<Rightarrow> ActionSignal list" where
  "listActionSignals db k =
     map (\<lambda>(i, r). \<lparr>sg_ID = i, sg_ActionID = snd (snd (snd (sr_key r))), sg_Signal = sr_Signal r,
            sg_Message = sr_Message r, sg_Actor = sr_Actor r, sg_CreatedAt = sr_CreatedAt r,
            sg_Receipts = listReceiptsBySignal db k i\<rparr>)
       (order_asc (\<lambda>(i, r). (sr_CreatedAt r, i)) (filter (\<lambda>(i, r). ScopedAction k (sr_key r)) (arows (signals db))))"

text \<open>\<open>ORDER BY created_at ASC, action_id ASC\<close> within one workspace, profile and peer.\<close>

definition same_peer :: "ActionScope \<Rightarrow> ActionNode \<Rightarrow> bool" where
  "same_peer s n \<longleftrightarrow> ScopedAction (WorkspaceID s, ProfileID s, Peer s, []) (an_key n)"

definition listActionNodes :: "action_db \<Rightarrow> ActionScope \<Rightarrow> ActionNode list" where
  "listActionNodes db s =
     order_asc (\<lambda>n. (an_CreatedAt n, an_ID n)) (filter (same_peer s) (actions db))"

definition withEdges :: "action_db \<Rightarrow> ActionNode \<Rightarrow> ActionNode" where
  "withEdges db n = n\<lparr>an_DependsOn := listActionDependencies db (an_key n),
     an_Signals := listActionSignals db (an_key n)\<rparr>"

text \<open>The read statements of one node, in order: receipts are read only when there are signals.\<close>

definition edgeFault :: "(act_site \<Rightarrow> bool) \<Rightarrow> action_db \<Rightarrow> scope_key \<Rightarrow> act_site option" where
  "edgeFault flt db k = find flt ([ListDeps, ListSignals] @
     (if listActionSignals db k = [] then [] else [ListReceipts]))"

fun edgeFaults :: "(act_site \<Rightarrow> bool) \<Rightarrow> action_db \<Rightarrow> ActionNode list \<Rightarrow> act_site option" where
  "edgeFaults flt db [] = None"
| "edgeFaults flt db (n # ns) = (case edgeFault flt db (an_key n) of
     Some s \<Rightarrow> Some s | None \<Rightarrow> edgeFaults flt db ns)"

definition actionNodeWithEdges :: "(act_site \<Rightarrow> bool) \<Rightarrow> action_db \<Rightarrow> scope_key \<Rightarrow> act_error + ActionNode" where
  "actionNodeWithEdges flt db k =
     (if flt GetStored then Inl (ActDb GetStored)
      else case getActionNode db k of
        None \<Rightarrow> Inl ActNoRows
      | Some node \<Rightarrow>
          (case edgeFault flt db k of
             Some s \<Rightarrow> Inl (ActDb s) | None \<Rightarrow> Inr (withEdges db node)))"

section \<open>The frontier\<close>

text \<open>\<open>statusByID\<close>: later rows overwrite earlier ones; a missing id has no status.\<close>

definition statusByID :: "ActionNode list \<Rightarrow> string \<Rightarrow> ActionStatus option" where
  "statusByID nodes = map_of (rev (map (\<lambda>n. (an_ID n, an_Status n)) nodes))"

definition ready :: "ActionNode list \<Rightarrow> ActionNode \<Rightarrow> bool" where
  "ready nodes n \<longleftrightarrow> list_all (\<lambda>d. statusByID nodes d = Some ActionStatusDone) (an_DependsOn n)"

definition actionFrontier :: "ActionNode list \<Rightarrow> ActionNode list" where
  "actionFrontier nodes =
     sort_key (\<lambda>n. (an_CreatedAt n, an_ID n))
       (filter (\<lambda>n. an_Status n = ActionStatusPending \<and> ready nodes n) nodes)"

section \<open>Operations\<close>

definition UpsertAction :: "(act_site \<Rightarrow> bool) \<Rightarrow> string \<Rightarrow> int \<Rightarrow> ActionParams \<Rightarrow> action_db
    \<Rightarrow> (act_error + ActionNode) \<times> action_db" where
  "UpsertAction flt svcWs now params db =
     (case normalizeActionParams svcWs params of
        Inl e \<Rightarrow> (Inl e, db)
      | Inr norm \<Rightarrow>
          if flt GetAction then (Inl (ActDb GetAction), db)
          else
            let norm1 = (case getActionNode db (an_key norm) of
                  None \<Rightarrow> norm\<lparr>an_Status := ActionStatusPending, an_CreatedAt := now\<rparr>
                | Some existing \<Rightarrow> norm\<lparr>an_Status := an_Status existing, an_CreatedAt := an_CreatedAt existing\<rparr>);
                norm2 = norm1\<lparr>an_UpdatedAt := now\<rparr> in
            if flt UpsertRow then (Inl (ActDb UpsertRow), db)
            else
              (case replaceActionDependencies flt norm2 (upsertActionNode norm2 db) of
                 (Inl e, db') \<Rightarrow> (Inl e, db')
               | (Inr _, db') \<Rightarrow> (actionNodeWithEdges flt db' (an_key norm2), db')))"

definition complete_row :: "scope_key \<Rightarrow> int \<Rightarrow> ActionNode \<Rightarrow> ActionNode" where
  "complete_row k now n = (if an_key n = k
     then n\<lparr>an_Status := ActionStatusDone, an_UpdatedAt := now\<rparr> else n)"

definition CompleteAction :: "(act_site \<Rightarrow> bool) \<Rightarrow> string \<Rightarrow> int \<Rightarrow> ActionGraphQuery \<Rightarrow> action_db
    \<Rightarrow> (act_error + ActionNode) \<times> action_db" where
  "CompleteAction flt svcWs now query db =
     (case normalizeActionQuery svcWs query of
        Inl e \<Rightarrow> (Inl e, db)
      | Inr norm \<Rightarrow>
          if ActionID norm = [] then (Inl (ActInvalid ''action_id is required''), db)
          else if flt CompleteUpdate then (Inl (ActDb CompleteUpdate), db)
          else
            let k = scope_key norm; db' = db\<lparr>actions := map (complete_row k now) (actions db)\<rparr> in
            if getActionNode db k = None then (Inl ActNoRows, db')
            else (actionNodeWithEdges flt db' k, db'))"

text \<open>
  \<open>SignalAction\<close> looks the action up but only inspects the error of the lookup, not whether a
  row was found.
\<close>

definition SignalAction :: "(act_site \<Rightarrow> bool) \<Rightarrow> string \<Rightarrow> int \<Rightarrow> ActionSignalParams \<Rightarrow> action_db
    \<Rightarrow> (act_error + ActionSignal) \<times> action_db" where
  "SignalAction flt svcWs now params db =
     (case normalizeActionSignal svcWs params of
        Inl e \<Rightarrow> (Inl e, db)
      | Inr (action, signalInput) \<Rightarrow>
          if flt GetAction then (Inl (ActDb GetAction), db)
          else if flt InsertSignal then (Inl (ActDb InsertSignal), db)
          else
            let row = \<lparr>sr_key = scope_key action, sr_Signal = sg_Signal signalInput,
                  sr_Message = sg_Message signalInput, sr_Actor = sg_Actor signalInput,
                  sr_CreatedAt = now\<rparr>;
                (i, sigs) = ainsert row (signals db) in
            (Inr (signalInput\<lparr>sg_ID := i, sg_CreatedAt := now\<rparr>), db\<lparr>signals := sigs\<rparr>))"

definition ReadActionGraph :: "(act_site \<Rightarrow> bool) \<Rightarrow> string \<Rightarrow> ActionGraphQuery \<Rightarrow> action_db
    \<Rightarrow> act_error + ActionGraph" where
  "ReadActionGraph flt svcWs query db =
     (case normalizeActionQuery svcWs query of
        Inl e \<Rightarrow> Inl e
      | Inr norm \<Rightarrow>
          if flt ListActions then Inl (ActDb ListActions)
          else
            let rows = listActionNodes db norm; nodes = map (withEdges db) rows in
            case edgeFaults flt db rows of
              Some s \<Rightarrow> Inl (ActDb s)
            | None \<Rightarrow>
                let frontier = actionFrontier nodes in
                Inr \<lparr>ag_Nodes = nodes, ag_Frontier = frontier,
                     ag_NextAction = (case frontier of [] \<Rightarrow> None | item # _ \<Rightarrow> Some item)\<rparr>)"

section \<open>Invariant and events\<close>

interpretation action_rows: keyed_table an_key set_action
  by unfold_locales (simp add: an_key_def set_action_def)

definition act_inv :: "action_db \<Rightarrow> bool" where
  "act_inv db \<longleftrightarrow> unique_keys an_key (actions db) \<and> awf (signals db) \<and> distinct (deps db)"

definition action_done :: "scope_key \<Rightarrow> action_db \<Rightarrow> bool" where
  "action_done k db \<longleftrightarrow>
     (case getActionNode db k of None \<Rightarrow> False | Some n \<Rightarrow> an_Status n = ActionStatusDone)"

text \<open>One call of the service, with its fault oracle and clock reading.\<close>

datatype act_event =
    EvUpsert "act_site \<Rightarrow> bool" int ActionParams
  | EvComplete "act_site \<Rightarrow> bool" int ActionGraphQuery
  | EvSignal "act_site \<Rightarrow> bool" int ActionSignalParams

fun act_step :: "string \<Rightarrow> act_event \<Rightarrow> action_db \<Rightarrow> action_db" where
  "act_step ws (EvUpsert flt now p) db = snd (UpsertAction flt ws now p db)"
| "act_step ws (EvComplete flt now q) db = snd (CompleteAction flt ws now q db)"
| "act_step ws (EvSignal flt now p) db = snd (SignalAction flt ws now p db)"

fun ev_peer :: "string \<Rightarrow> act_event \<Rightarrow> string \<times> string \<times> string" where
  "ev_peer ws (EvUpsert flt now p) =
     peer_of (scope_key (actionscope_Normalize ws (ap_WorkspaceID p) (ap_ProfileID p) (ap_Peer p) (ap_ActionID p)))"
| "ev_peer ws (EvComplete flt now q) =
     peer_of (scope_key (actionscope_Normalize ws (aq_WorkspaceID q) (aq_ProfileID q) (aq_Peer q) (aq_ActionID q)))"
| "ev_peer ws (EvSignal flt now p) =
     peer_of (scope_key (actionscope_Normalize ws (aq_WorkspaceID p) (aq_ProfileID p) (aq_Peer p) (aq_ActionID p)))"

subsection \<open>Frames\<close>

lemma upsertActionNode_frame [simp]:
  "deps (upsertActionNode n db) = deps db" "signals (upsertActionNode n db) = signals db"
  "receipts (upsertActionNode n db) = receipts db"
  by (simp_all add: upsertActionNode_def)

lemma insertActionDeps_frame:
  "insertActionDeps flt i k ds db = (r, db') \<Longrightarrow>
     actions db' = actions db \<and> signals db' = signals db \<and> receipts db' = receipts db"
  by (induction ds arbitrary: i db) (auto split: if_splits dest!: meta_spec)

lemma insertActionDeps_prefix:
  "insertActionDeps flt i k ds db = (r, db') \<Longrightarrow>
     \<exists>es. deps db' = deps db @ map (Pair k) es \<and> (r = Inr () \<longrightarrow> es = ds)"
proof (induction ds arbitrary: i db)
  case Nil
  then show ?case by (auto intro: exI [of _ "[]"])
next
  case (Cons d ds)
  show ?case
  proof (cases "flt (InsertDep i) \<or> (k, d) \<in> set (deps db)")
    case True
    with Cons.prems show ?thesis by (auto intro: exI [of _ "[]"] split: if_splits)
  next
    case False
    with Cons.prems Cons.IH obtain es where
      "deps db' = (deps db @ [(k, d)]) @ map (Pair k) es \<and> (r = Inr () \<longrightarrow> es = ds)"
      by (fastforce split: if_splits)
    then show ?thesis by (auto intro: exI [of _ "d # es"])
  qed
qed

lemma insertActionDeps_distinct:
  "insertActionDeps flt i k ds db = (r, db') \<Longrightarrow> distinct (deps db) \<Longrightarrow> distinct (deps db')"
  by (induction ds arbitrary: i db) (auto split: if_splits)

lemma replaceActionDependencies_frame:
  assumes "replaceActionDependencies flt n db = (r, db')"
  shows "actions db' = actions db" "signals db' = signals db" "receipts db' = receipts db"
    and "distinct (deps db) \<Longrightarrow> distinct (deps db')"
    and "\<exists>es. deps db' = deps db \<or>
           deps db' = tdelete (\<lambda>(k, d). k = an_key n) (deps db) @ map (Pair (an_key n)) es"
    and "r = Inr () \<Longrightarrow> deps db' =
           tdelete (\<lambda>(k, d). k = an_key n) (deps db) @ map (Pair (an_key n)) (an_DependsOn n)"
proof -
  let ?c = "db\<lparr>deps := tdelete (\<lambda>(k, d). k = an_key n) (deps db)\<rparr>"
  have *: "(r, db') = (Inl (ActDb ClearDeps), db) \<or>
      insertActionDeps flt 0 (an_key n) (an_DependsOn n) ?c = (r, db')"
    using assms by (auto simp: replaceActionDependencies_def split: if_splits)
  then show "actions db' = actions db" "signals db' = signals db" "receipts db' = receipts db"
    by (auto dest: insertActionDeps_frame)
  show "distinct (deps db')" if "distinct (deps db)"
    using * that by (auto dest: insertActionDeps_distinct simp: tdelete_def)
  show "\<exists>es. deps db' = deps db \<or>
      deps db' = tdelete (\<lambda>(k, d). k = an_key n) (deps db) @ map (Pair (an_key n)) es"
    using * insertActionDeps_prefix [of flt 0 "an_key n" "an_DependsOn n" ?c r db'] by auto
  show "deps db' = tdelete (\<lambda>(k, d). k = an_key n) (deps db) @ map (Pair (an_key n)) (an_DependsOn n)"
    if "r = Inr ()"
    using * that by (auto dest: insertActionDeps_prefix)
qed

subsection \<open>Every operation keeps the invariant\<close>

lemma normalizeActionParams_key:
  "normalizeActionParams ws p = Inr n \<Longrightarrow>
     an_scope n = actionscope_Normalize ws (ap_WorkspaceID p) (ap_ProfileID p) (ap_Peer p) (ap_ActionID p)
   \<and> an_Status n = ActionStatusPending \<and> an_DependsOn n = UniqueTrimmed (ap_DependsOn p) True
   \<and> ActionID (an_scope n) \<noteq> []"
  by (auto simp: normalizeActionParams_def normalizeScopedAction_def Let_def split: sum.splits if_splits)

text \<open>The row an upsert writes: an existing action keeps its status and creation time.\<close>

definition upserted :: "int \<Rightarrow> action_db \<Rightarrow> ActionNode \<Rightarrow> ActionNode" where
  "upserted now db norm =
     (case getActionNode db (an_key norm) of
        None \<Rightarrow> norm\<lparr>an_Status := ActionStatusPending, an_CreatedAt := now, an_UpdatedAt := now\<rparr>
      | Some x \<Rightarrow> norm\<lparr>an_Status := an_Status x, an_CreatedAt := an_CreatedAt x, an_UpdatedAt := now\<rparr>)"

lemma upserted_simps [simp]:
  "an_scope (upserted now db n) = an_scope n" "an_DependsOn (upserted now db n) = an_DependsOn n"
  "an_key (upserted now db n) = an_key n" "an_Title (upserted now db n) = an_Title n"
  by (auto simp: upserted_def an_key_def split: option.splits)

lemma UpsertAction_cases:
  assumes "UpsertAction flt ws now p db = (r, db')"
  obtains "db' = db" "\<not> is_ok r"
  | n r' where "normalizeActionParams ws p = Inr n"
      "replaceActionDependencies flt (upserted now db n) (upsertActionNode (upserted now db n) db) = (r', db')"
      "r = (case r' of Inl e \<Rightarrow> Inl e | Inr _ \<Rightarrow> actionNodeWithEdges flt db' (an_key n))"
proof (cases "normalizeActionParams ws p")
  case (Inl e)
  with assms have "r = Inl e" "db' = db" by (auto simp: UpsertAction_def)
  with that(1) show ?thesis by simp
next
  case (Inr n)
  have up: "(case getActionNode db (an_key n) of
      None \<Rightarrow> n\<lparr>an_Status := ActionStatusPending, an_CreatedAt := now\<rparr>
    | Some x \<Rightarrow> n\<lparr>an_Status := an_Status x, an_CreatedAt := an_CreatedAt x\<rparr>)\<lparr>an_UpdatedAt := now\<rparr>
    = upserted now db n" by (simp add: upserted_def split: option.splits)
  obtain r' db1 where r': "replaceActionDependencies flt (upserted now db n)
      (upsertActionNode (upserted now db n) db) = (r', db1)" by fastforce
  show ?thesis
  proof (cases "flt GetAction \<or> flt UpsertRow")
    case True
    with assms Inr that(1) show ?thesis by (auto simp: UpsertAction_def Let_def split: if_splits)
  next
    case False
    with assms Inr r' that(2) [of n r'] show ?thesis
      by (auto simp: UpsertAction_def Let_def up split: sum.splits)
  qed
qed

lemma CompleteAction_db:
  "snd (CompleteAction flt ws now q db) = db \<or>
   (\<exists>s. normalizeActionQuery ws q = Inr s \<and> ActionID s \<noteq> [] \<and>
     snd (CompleteAction flt ws now q db) = db\<lparr>actions := map (complete_row (scope_key s) now) (actions db)\<rparr>)"
  by (auto simp: CompleteAction_def Let_def split: sum.splits)

lemma SignalAction_db:
  "snd (SignalAction flt ws now p db) = db \<or>
   (\<exists>s i. normalizeActionSignal ws p = Inr (s, i) \<and>
     snd (SignalAction flt ws now p db) = db\<lparr>signals := snd (ainsert
       \<lparr>sr_key = scope_key s, sr_Signal = sg_Signal i, sr_Message = sg_Message i,
        sr_Actor = sg_Actor i, sr_CreatedAt = now\<rparr> (signals db))\<rparr>)"
  by (auto simp: SignalAction_def Let_def case_prod_beta split: sum.splits)

lemma complete_row_key [simp]: "an_key (complete_row k now n) = an_key n"
  by (simp add: complete_row_def an_key_def)

lemma act_inv_step: "act_inv db \<Longrightarrow> act_inv (act_step ws e db)"
proof (cases e)
  case (EvUpsert flt now p)
  assume inv: "act_inv db"
  obtain r db' where u: "UpsertAction flt ws now p db = (r, db')" by fastforce
  then show ?thesis
  proof (cases rule: UpsertAction_cases)
    case 1
    with inv u EvUpsert show ?thesis by simp
  next
    case (2 n r')
    note f = replaceActionDependencies_frame [OF 2(2)]
    show ?thesis using inv u EvUpsert f(1,2,4)
      by (simp add: act_inv_def upsertActionNode_def)
  qed
next
  case (EvComplete flt now q)
  assume "act_inv db"
  with EvComplete CompleteAction_db [of flt ws now q db] show ?thesis
    by (auto simp: act_inv_def unique_keys_def comp_def)
next
  case (EvSignal flt now p)
  assume "act_inv db"
  with EvSignal SignalAction_db [of flt ws now p db] show ?thesis
    by (auto simp: act_inv_def)
qed

interpretation action_machine: machine "act_step ws" act_inv for ws
  by unfold_locales (rule act_inv_step)

section \<open>The frontier\<close>

lemma statusByID_iff:
  assumes "distinct (map an_ID nodes)"
  shows "statusByID nodes d = Some s \<longleftrightarrow> (\<exists>n \<in> set nodes. an_ID n = d \<and> an_Status n = s)"
proof -
  have "distinct (map fst (rev (map (\<lambda>n. (an_ID n, an_Status n)) nodes)))"
    using assms by (simp add: rev_map comp_def flip: rev_map)
  then show ?thesis
    by (subst statusByID_def, subst map_of_eq_Some_iff) auto
qed

lemma frontier_iff:
  assumes "distinct (map an_ID nodes)"
  shows "n \<in> set (actionFrontier nodes) \<longleftrightarrow>
    n \<in> set nodes \<and> an_Status n = ActionStatusPending \<and>
    (\<forall>d \<in> set (an_DependsOn n). \<exists>m \<in> set nodes. an_ID m = d \<and> an_Status m = ActionStatusDone)"
  using assms by (auto simp: actionFrontier_def ready_def list_all_iff statusByID_iff)

lemma sorted_frontier: "sorted (map (\<lambda>n. (an_CreatedAt n, an_ID n)) (actionFrontier nodes))"
  by (simp add: actionFrontier_def)

lemma withEdges_simps [simp]:
  "an_scope (withEdges db n) = an_scope n" "an_Status (withEdges db n) = an_Status n"
  "an_CreatedAt (withEdges db n) = an_CreatedAt n" "an_key (withEdges db n) = an_key n"
  by (simp_all add: withEdges_def an_key_def)

lemma listActionNodes_distinct:
  assumes "act_inv db"
  shows "distinct (map an_ID (listActionNodes db s))"
proof -
  let ?t = "filter (same_peer s) (actions db)"
  have d: "distinct (map an_key ?t)"
    using assms by (auto simp: act_inv_def unique_keys_def intro: distinct_map_filter)
  have "inj_on act_of (set (map an_key ?t))"
    by (rule inj_onI) (auto simp: same_peer_def ScopedAction_alt scope_key_eq_iff)
  with d have "distinct (map act_of (map an_key ?t))"
    by (subst distinct_map) auto
  then have "distinct (map an_ID ?t)"
    by (simp add: comp_def an_key_def)
  then show ?thesis
    by (simp add: listActionNodes_def order_asc_def distinct_map inj_on_def)
qed

text \<open>
  C3. An action is offered as ready (\<open>Frontier\<close>) exactly when it is a pending node of the graph
  all of whose dependencies are nodes of the graph that are done; the frontier is ordered by
  creation time, then id, and \<open>NextAction\<close> is its first element.
\<close>

theorem frontier_exactly_ready:
  assumes "act_inv db" and "ReadActionGraph flt ws q db = Inr g"
  shows "(n \<in> set (ag_Frontier g) \<longleftrightarrow>
      n \<in> set (ag_Nodes g) \<and> an_Status n = ActionStatusPending \<and>
      (\<forall>d \<in> set (an_DependsOn n). \<exists>m \<in> set (ag_Nodes g). an_ID m = d \<and> an_Status m = ActionStatusDone))
    \<and> sorted (map (\<lambda>n. (an_CreatedAt n, an_ID n)) (ag_Frontier g))
    \<and> ag_NextAction g = (case ag_Frontier g of [] \<Rightarrow> None | a # _ \<Rightarrow> Some a)"
proof -
  from assms(2) obtain s where g: "ag_Nodes g = map (withEdges db) (listActionNodes db s)"
    "ag_Frontier g = actionFrontier (ag_Nodes g)"
    "ag_NextAction g = (case ag_Frontier g of [] \<Rightarrow> None | a # _ \<Rightarrow> Some a)"
    by (auto simp: ReadActionGraph_def Let_def split: sum.splits option.splits if_splits)
  have "distinct (map an_ID (ag_Nodes g))"
    using listActionNodes_distinct [OF assms(1), of s] by (simp add: g(1) comp_def)
  then show ?thesis using g(2,3) by (simp add: frontier_iff sorted_frontier)
qed

text \<open>The dependency edges between pending actions: from a pending dependency to the pending action that needs it.\<close>

definition pending_edges :: "ActionNode list \<Rightarrow> (string \<times> string) set" where
  "pending_edges nodes = (\<Union>n \<in> set (filter (\<lambda>n. an_Status n = ActionStatusPending) nodes).
     (\<lambda>d. (d, an_ID n)) ` (set (an_DependsOn n) \<inter> an_ID ` set (filter (\<lambda>m. an_Status m = ActionStatusPending) nodes)))"

lemma finite_pending_edges [simp]: "finite (pending_edges nodes)"
  by (simp add: pending_edges_def)

lemma frontier_nonempty:
  assumes ids: "distinct (map an_ID nodes)" and acyclic: "acyclic (pending_edges nodes)"
    and closed: "\<forall>n \<in> set nodes. an_Status n = ActionStatusPending \<longrightarrow>
      set (an_DependsOn n) \<subseteq> an_ID ` set nodes"
    and pending: "n0 \<in> set nodes" "an_Status n0 = ActionStatusPending"
  shows "actionFrontier nodes \<noteq> []"
proof -
  let ?Q = "an_ID ` {n \<in> set nodes. an_Status n = ActionStatusPending}"
  have "wf (pending_edges nodes)" by (rule finite_acyclic_wf) (simp_all add: acyclic)
  moreover have "an_ID n0 \<in> ?Q" using pending by blast
  ultimately obtain z where z: "z \<in> ?Q" "\<And>y. (y, z) \<in> pending_edges nodes \<Longrightarrow> y \<notin> ?Q"
    by (rule wfE_min) blast
  from z(1) obtain n where n: "n \<in> set nodes" "an_Status n = ActionStatusPending" "an_ID n = z"
    by blast
  have "\<exists>m \<in> set nodes. an_ID m = d \<and> an_Status m = ActionStatusDone"
    if d: "d \<in> set (an_DependsOn n)" for d
  proof -
    from d n closed obtain m where m: "m \<in> set nodes" "an_ID m = d" by blast
    have "an_Status m \<noteq> ActionStatusPending"
    proof
      assume "an_Status m = ActionStatusPending"
      with m have q: "d \<in> ?Q" by blast
      with d n have "(d, z) \<in> pending_edges nodes" by (auto simp: pending_edges_def)
      with z(2) q show False by blast
    qed
    with m show ?thesis by (cases "an_Status m") auto
  qed
  with n ids have "n \<in> set (actionFrontier nodes)" by (simp add: frontier_iff)
  then show ?thesis by auto
qed

text \<open>
  C39. Work never stalls: in a graph that is read from well-formed tables, when every dependency of a pending action
  is an action of the graph and the dependencies among the pending actions form no cycle, a graph with a pending
  action offers one: the frontier is not empty, and the next action is a pending one all of whose
  dependencies are done.  Cycles through actions that are done do not matter.
\<close>

theorem frontier_progress:
  assumes "act_inv db" "ReadActionGraph flt ws q db = Inr g"
    and "acyclic (pending_edges (ag_Nodes g))"
    and "\<forall>n \<in> set (ag_Nodes g). an_Status n = ActionStatusPending \<longrightarrow> set (an_DependsOn n) \<subseteq> an_ID ` set (ag_Nodes g)"
    and "n0 \<in> set (ag_Nodes g)" "an_Status n0 = ActionStatusPending"
  shows "\<exists>a. ag_NextAction g = Some a \<and> a \<in> set (ag_Nodes g) \<and> an_Status a = ActionStatusPending
    \<and> (\<forall>d \<in> set (an_DependsOn a). \<exists>m \<in> set (ag_Nodes g). an_ID m = d \<and> an_Status m = ActionStatusDone)"
proof -
  from assms(2) obtain s where g: "ag_Nodes g = map (withEdges db) (listActionNodes db s)"
    "ag_Frontier g = actionFrontier (ag_Nodes g)"
    "ag_NextAction g = (case ag_Frontier g of [] \<Rightarrow> None | a # _ \<Rightarrow> Some a)"
    by (auto simp: ReadActionGraph_def Let_def split: sum.splits option.splits if_splits)
  have ids: "distinct (map an_ID (ag_Nodes g))"
    using listActionNodes_distinct [OF assms(1), of s] by (simp add: g(1) comp_def)
  from frontier_nonempty [OF ids assms(3-6)] obtain a as where f: "actionFrontier (ag_Nodes g) = a # as"
    by (cases "actionFrontier (ag_Nodes g)") auto
  then have "a \<in> set (actionFrontier (ag_Nodes g))" by simp
  with frontier_iff [OF ids] f g(2,3) show ?thesis by auto
qed

section \<open>Completed actions stay completed\<close>

lemma action_done_step:
  assumes inv: "act_inv db" and dn: "action_done k db"
  shows "action_done k (act_step ws e db)"
proof -
  from dn obtain x where x: "tfind an_key k (actions db) = Some x" "an_Status x = ActionStatusDone"
    by (auto simp: action_done_def getActionNode_def split: option.splits)
  show ?thesis
  proof (cases e)
    case (EvUpsert flt now p)
    obtain r db' where u: "UpsertAction flt ws now p db = (r, db')" by fastforce
    then show ?thesis
    proof (cases rule: UpsertAction_cases)
      case 1
      with u EvUpsert dn show ?thesis by simp
    next
      case (2 n r')
      let ?n = "(upserted now db n)\<lparr>an_DependsOn := [], an_Signals := []\<rparr>"
      have a: "actions db' = tupsert an_key set_action ?n (actions db)"
        using replaceActionDependencies_frame(1) [OF 2(2)] by (simp add: upsertActionNode_def)
      have kn: "an_key ?n = an_key n"
        by (simp add: an_key_def)
      have "an_Status ?n = ActionStatusDone" if "k = an_key n"
        using that x by (simp add: upserted_def getActionNode_def)
      then show ?thesis using u EvUpsert a x kn
        by (auto simp: action_done_def getActionNode_def action_rows.find_upsert set_action_def)
    qed
  next
    case (EvComplete flt now q)
    with x EvComplete dn CompleteAction_db [of flt ws now q db] show ?thesis
      by (auto simp: action_done_def getActionNode_def tfind_map) (auto simp: complete_row_def)
  next
    case (EvSignal flt now p)
    with dn SignalAction_db [of flt ws now p db] show ?thesis
      by (auto simp: action_done_def getActionNode_def)
  qed
qed

interpretation done_machine: machine "act_step ws" "\<lambda>db. act_inv db \<and> action_done k db" for ws k
  by unfold_locales (simp add: act_inv_step action_done_step)

text \<open>What a call keeps: actions are never deleted, signals only grow, an edge belongs to an action.\<close>

lemma act_step_receipts: "receipts (act_step ws e db) = receipts db"
proof (cases e)
  case (EvUpsert flt now p)
  obtain r db' where u: "UpsertAction flt ws now p db = (r, db')" by fastforce
  then have "receipts db' = receipts db"
    by (cases rule: UpsertAction_cases) (use replaceActionDependencies_frame(3) in fastforce)+
  with u EvUpsert show ?thesis by simp
next
  case (EvComplete flt now q)
  with CompleteAction_db [of flt ws now q db] show ?thesis by auto
next
  case (EvSignal flt now p)
  with SignalAction_db [of flt ws now p db] show ?thesis by auto
qed

lemma act_step_signals: "extends (signals db) (signals (act_step ws e db))"
proof (cases e)
  case (EvUpsert flt now p)
  obtain r db' where u: "UpsertAction flt ws now p db = (r, db')" by fastforce
  then have "signals db' = signals db"
    by (cases rule: UpsertAction_cases) (use replaceActionDependencies_frame(2) in fastforce)+
  with u EvUpsert show ?thesis by simp
next
  case (EvComplete flt now q)
  with CompleteAction_db [of flt ws now q db] show ?thesis by auto
next
  case (EvSignal flt now p)
  with SignalAction_db [of flt ws now p db] show ?thesis by auto
qed

lemma act_step_actions:
  "getActionNode db k \<noteq> None \<Longrightarrow> getActionNode (act_step ws e db) k \<noteq> None"
proof (cases e)
  case (EvUpsert flt now p)
  assume k: "getActionNode db k \<noteq> None"
  obtain r db' where u: "UpsertAction flt ws now p db = (r, db')" by fastforce
  then have "getActionNode db' k \<noteq> None"
  proof (cases rule: UpsertAction_cases)
    case (2 n r')
    with replaceActionDependencies_frame(1) [OF 2(2)] k show ?thesis
      by (auto simp: getActionNode_def upsertActionNode_def action_rows.find_upsert)
  qed (use k in simp)
  with u EvUpsert show ?thesis by simp
next
  case (EvComplete flt now q)
  assume "getActionNode db k \<noteq> None"
  with EvComplete CompleteAction_db [of flt ws now q db] show ?thesis by (auto simp: getActionNode_def tfind_map)
next
  case (EvSignal flt now p)
  assume "getActionNode db k \<noteq> None"
  with EvSignal SignalAction_db [of flt ws now p db] show ?thesis by (auto simp: getActionNode_def)
qed

lemma act_step_deps:
  assumes "(k, d) \<in> set (deps (act_step ws e db))"
  shows "(k, d) \<in> set (deps db) \<or> getActionNode (act_step ws e db) k \<noteq> None"
proof (cases e)
  case (EvUpsert flt now p)
  obtain r db' where u: "UpsertAction flt ws now p db = (r, db')" by fastforce
  then have "(k, d) \<in> set (deps db') \<longrightarrow> (k, d) \<in> set (deps db) \<or> getActionNode db' k \<noteq> None"
  proof (cases rule: UpsertAction_cases)
    case (2 n r')
    have a: "getActionNode db' (an_key n) \<noteq> None"
      using replaceActionDependencies_frame(1) [OF 2(2)]
      by (simp add: getActionNode_def upsertActionNode_def action_rows.find_upsert an_key_def)
    from replaceActionDependencies_frame(5) [OF 2(2)] a show ?thesis by auto
  qed simp
  with u EvUpsert assms show ?thesis by simp
next
  case (EvComplete flt now q)
  with assms CompleteAction_db [of flt ws now q db] show ?thesis by auto
next
  case (EvSignal flt now p)
  with assms SignalAction_db [of flt ws now p db] show ?thesis by auto
qed

text \<open>
  Completion is permanent: once an action is done, no later sequence of upserts,
  completions and signals, whatever statements fail in them, makes it pending again.
\<close>

theorem completed_stays_completed:
  assumes "act_inv db" and "action_done k db"
  shows "action_done k (fold (act_step ws) es db) \<and> act_inv (fold (act_step ws) es db)"
  using done_machine.run_inv [of db k ws es] assms by blast

section \<open>Scope isolation\<close>

lemma ev_peer_normalize:
  "normalizeActionQuery ws q = Inr s \<Longrightarrow> ActionID s \<noteq> [] \<Longrightarrow>
     peer_of (scope_key s) = ev_peer ws (EvComplete flt now q)"
  "normalizeActionSignal ws p = Inr (s, i) \<Longrightarrow> peer_of (scope_key s) = ev_peer ws (EvSignal flt now p)"
  by (auto simp: normalizeActionQuery_def normalizeActionSignal_def normalizeScopedAction_def Let_def
      split: sum.splits if_splits)

lemma filter_tupsert_other:
  "\<not> P r \<Longrightarrow> (\<And>x. key x = key r \<Longrightarrow> \<not> P x \<and> \<not> P (upd x r)) \<Longrightarrow>
     filter P (tupsert key upd r t) = filter P t"
  by (induction t) auto

lemma filter_map_other:
  "(\<And>x. P (f x) = P x) \<Longrightarrow> (\<And>x. P x \<Longrightarrow> f x = x) \<Longrightarrow> filter P (map f t) = filter P t"
  by (induction t) auto

text \<open>What one peer reads of the tables.\<close>

definition peer_view :: "string \<times> string \<times> string \<Rightarrow> action_db
    \<Rightarrow> ActionNode list \<times> (scope_key \<times> string) list \<times> (int \<times> signal_row) list \<times> ActionSignalReceipt list" where
  "peer_view pk db =
     (filter (\<lambda>n. peer_of (an_key n) = pk) (actions db),
      filter (\<lambda>(k, d). peer_of k = pk) (deps db),
      filter (\<lambda>(i, r). peer_of (sr_key r) = pk) (arows (signals db)),
      filter (\<lambda>r. peer_of (rc_key r) = pk) (receipts db))"

lemma filter_view:
  assumes "filter Q xs = filter Q ys" and "\<And>x. P x \<Longrightarrow> Q x"
  shows "filter P xs = filter P ys"
proof -
  have "filter P zs = filter P (filter Q zs)" for zs
    by (simp add: filter_filter) (metis (mono_tags, lifting) assms(2))
  with assms(1) show ?thesis by metis
qed

lemma filter_deps_other:
  "peer_of k0 \<noteq> pk \<Longrightarrow> filter (\<lambda>(k, d). peer_of k = pk) (tdelete (\<lambda>(k, d). k = k0) t @ map (Pair k0) es)
     = filter (\<lambda>(k, d). peer_of k = pk) t"
  by (induction t) (auto simp: tdelete_def filter_empty_conv)

lemma peer_view_step:
  assumes "ev_peer ws e \<noteq> pk"
  shows "peer_view pk (act_step ws e db) = peer_view pk db"
proof (cases e)
  case (EvUpsert flt now p)
  obtain r db' where u: "UpsertAction flt ws now p db = (r, db')" by fastforce
  then show ?thesis
  proof (cases rule: UpsertAction_cases)
    case 1
    with u EvUpsert show ?thesis by simp
  next
    case (2 n r')
    let ?k = "an_key n"
    have k: "peer_of ?k \<noteq> pk"
      using assms EvUpsert normalizeActionParams_key [OF 2(1)] by (simp add: an_key_def)
    note f = replaceActionDependencies_frame [OF 2(2), simplified]
    have "filter (\<lambda>n. peer_of (an_key n) = pk) (actions db') = filter (\<lambda>n. peer_of (an_key n) = pk) (actions db)"
      by (simp add: f(1) upsertActionNode_def, rule filter_tupsert_other) (use k in \<open>auto simp: an_key_def set_action_def upserted_def split: option.splits\<close>)
    moreover have "filter (\<lambda>(k, d). peer_of k = pk) (deps db') = filter (\<lambda>(k, d). peer_of k = pk) (deps db)"
      using f(5) filter_deps_other [OF k] by metis
    ultimately show ?thesis using u EvUpsert f(2,3) by (simp add: peer_view_def)
  qed
next
  case (EvComplete flt now q)
  from CompleteAction_db [of flt ws now q db] show ?thesis
  proof
    assume "snd (CompleteAction flt ws now q db) = db"
    with EvComplete show ?thesis by simp
  next
    assume "\<exists>s. normalizeActionQuery ws q = Inr s \<and> ActionID s \<noteq> [] \<and>
      snd (CompleteAction flt ws now q db) = db\<lparr>actions := map (complete_row (scope_key s) now) (actions db)\<rparr>"
    then obtain s where s: "normalizeActionQuery ws q = Inr s" "ActionID s \<noteq> []"
      "snd (CompleteAction flt ws now q db) = db\<lparr>actions := map (complete_row (scope_key s) now) (actions db)\<rparr>"
      by blast
    from assms EvComplete ev_peer_normalize(1) [OF s(1,2)] have k: "peer_of (scope_key s) \<noteq> pk" by simp
    have "filter (\<lambda>n. peer_of (an_key n) = pk) (map (complete_row (scope_key s) now) (actions db))
        = filter (\<lambda>n. peer_of (an_key n) = pk) (actions db)"
      by (rule filter_map_other) (use k in \<open>auto simp: complete_row_def an_key_def\<close>)
    with s EvComplete show ?thesis by (simp add: peer_view_def)
  qed
next
  case (EvSignal flt now p)
  with assms ev_peer_normalize(2) SignalAction_db [of flt ws now p db] show ?thesis
    by (auto simp: peer_view_def)
qed

lemma view_reads:
  assumes v: "peer_view pk db = peer_view pk db'"
  shows "peer_of (scope_key s) = pk \<Longrightarrow> listActionNodes db s = listActionNodes db' s"
    and "peer_of k = pk \<Longrightarrow> listActionDependencies db k = listActionDependencies db' k"
    and "peer_of k = pk \<Longrightarrow> listActionSignals db k = listActionSignals db' k"
proof -
  have a: "filter P (actions db) = filter P (actions db')" if "\<And>n. P n \<Longrightarrow> peer_of (an_key n) = pk" for P
    by (rule filter_view [where Q = "\<lambda>n. peer_of (an_key n) = pk"]) (use v that in \<open>auto simp: peer_view_def\<close>)
  have d: "filter P (deps db) = filter P (deps db')" if "\<And>x. P x \<Longrightarrow> peer_of (fst x) = pk" for P
    by (rule filter_view [where Q = "\<lambda>(k, d). peer_of k = pk"]) (use v that in \<open>auto simp: peer_view_def\<close>)
  have g: "filter P (arows (signals db)) = filter P (arows (signals db'))"
    if "\<And>x. P x \<Longrightarrow> peer_of (sr_key (snd x)) = pk" for P
    by (rule filter_view [where Q = "\<lambda>(i, r). peer_of (sr_key r) = pk"]) (use v that in \<open>auto simp: peer_view_def\<close>)
  have c: "filter P (receipts db) = filter P (receipts db')" if "\<And>r. P r \<Longrightarrow> peer_of (rc_key r) = pk" for P
    by (rule filter_view [where Q = "\<lambda>r. peer_of (rc_key r) = pk"]) (use v that in \<open>auto simp: peer_view_def\<close>)
  show "listActionNodes db s = listActionNodes db' s" if "peer_of (scope_key s) = pk"
    unfolding listActionNodes_def
    by (subst a) (use that in \<open>auto simp: same_peer_def ScopedAction_alt peer_of_def scope_key_def\<close>)
  show "listActionDependencies db k = listActionDependencies db' k" if "peer_of k = pk"
    unfolding listActionDependencies_def
    by (subst d) (use that in \<open>auto simp: ScopedAction_alt\<close>)
  have r: "listReceiptsBySignal db k i = listReceiptsBySignal db' k i" if "peer_of k = pk" for i
    unfolding listReceiptsBySignal_def by (subst c) (use that in auto)
  show "listActionSignals db k = listActionSignals db' k" if "peer_of k = pk"
    unfolding listActionSignals_def
    by (subst g) (use that in \<open>auto simp: ScopedAction_alt r\<close>)
qed

text \<open>
  Scope isolation: a call made for one workspace, profile and peer leaves the action graph
  another one reads exactly as it was, whatever the call does and whichever statement fails.
\<close>

theorem graph_scope_isolation:
  assumes other: "ev_peer ws e \<noteq>
      ev_peer ws (EvComplete flt 0 q)"
  shows "ReadActionGraph flt ws q (act_step ws e db) = ReadActionGraph flt ws q db"
proof (cases "normalizeActionQuery ws q")
  case (Inl err)
  then show ?thesis by (simp add: ReadActionGraph_def)
next
  case (Inr s)
  let ?pk = "ev_peer ws (EvComplete flt 0 q)" and ?db' = "act_step ws e db"
  have pk: "peer_of (scope_key s) = ?pk"
    using Inr by (auto simp: normalizeActionQuery_def normalizeScopedAction_def Let_def split: sum.splits if_splits)
  have v: "peer_view ?pk ?db' = peer_view ?pk db" by (rule peer_view_step) (rule other)
  note r = view_reads [OF v]
  have rows: "listActionNodes ?db' s = listActionNodes db s" by (rule r(1)) (rule pk)
  have in_peer: "peer_of (an_key n) = ?pk" if "n \<in> set (listActionNodes db s)" for n
    using that pk by (auto simp: listActionNodes_def same_peer_def ScopedAction_alt peer_of_def scope_key_def)
  then have nodes: "map (withEdges ?db') (listActionNodes db s) = map (withEdges db) (listActionNodes db s)"
    by (auto simp: withEdges_def r(2,3))
  have "edgeFaults flt ?db' ns = edgeFaults flt db ns" if "\<forall>n \<in> set ns. peer_of (an_key n) = ?pk" for ns
    using that by (induction ns) (auto simp: edgeFault_def r(3) split: option.splits)
  with in_peer have "edgeFaults flt ?db' (listActionNodes db s) = edgeFaults flt db (listActionNodes db s)"
    by blast
  with Inr show ?thesis by (simp add: ReadActionGraph_def Let_def rows nodes split: option.split)
qed

section \<open>What an upsert writes\<close>

lemma replaced_deps:
  assumes "act_of k \<noteq> []"
  shows "map snd (filter (\<lambda>(k', d). ScopedAction k k') (tdelete (\<lambda>(k', d). k' = k) t @ map (Pair k) es)) = es"
proof -
  have "filter (\<lambda>(k', d). ScopedAction k k') (tdelete (\<lambda>(k', d). k' = k) t) = []"
    using ScopedAction_exact [OF assms] by (auto simp: tdelete_def filter_empty_conv)
  moreover have "map snd (filter (\<lambda>(k', d). ScopedAction k k') (map (Pair k) es)) = es"
    using ScopedAction_exact [OF assms] by (induction es) auto
  ultimately show ?thesis by simp
qed

text \<open>
  A successful upsert returns the action with the requested title, with its dependencies
  trimmed, without blanks or duplicates and sorted, with the status and creation time of the
  stored action when there was one and pending and new otherwise.
\<close>

theorem upsert_action_result:
  assumes inv: "act_inv db" and ok: "UpsertAction flt ws now p db = (Inr node, db')"
  shows "an_Title node = trim_space (ap_Title p)
    \<and> an_DependsOn node = UniqueTrimmed (ap_DependsOn p) True
    \<and> an_UpdatedAt node = now
    \<and> (case getActionNode db (an_key node) of
         None \<Rightarrow> an_Status node = ActionStatusPending \<and> an_CreatedAt node = now
       | Some old \<Rightarrow> an_Status node = an_Status old \<and> an_CreatedAt node = an_CreatedAt old)
    \<and> getActionNode db' (an_key node) \<noteq> None"
  using ok
proof (cases rule: UpsertAction_cases)
  case 1
  then show ?thesis by simp
next
  case (2 n r')
  let ?n = "(upserted now db n)\<lparr>an_DependsOn := [], an_Signals := []\<rparr>"
  from 2(3) have r': "r' = Inr ()" by (cases r') auto
  note f = replaceActionDependencies_frame [OF 2(2), simplified]
  have kn: "an_key ?n = an_key n" by (simp add: an_key_def)
  have a: "getActionNode db' (an_key n) = Some (case getActionNode db (an_key n) of
      None \<Rightarrow> ?n | Some x \<Rightarrow> set_action x ?n)"
    using f(1) kn by (simp add: getActionNode_def upsertActionNode_def action_rows.find_upsert)
  have ne: "act_of (an_key n) \<noteq> []"
  proof -
    have "ActionID (an_scope n) \<noteq> []" using normalizeActionParams_key [OF 2(1)] by blast
    then show ?thesis by (simp add: an_key_def)
  qed
  have dn: "an_DependsOn n = UniqueTrimmed (ap_DependsOn p) True" using normalizeActionParams_key [OF 2(1)] by blast
  have "listActionDependencies db' (an_key n) = sort (UniqueTrimmed (ap_DependsOn p) True)"
    unfolding listActionDependencies_def f(6) [OF r'] upserted_simps dn upsertActionNode_frame
      by (subst replaced_deps [OF ne]) simp
  also have "\<dots> = UniqueTrimmed (ap_DependsOn p) True"
    by (simp add: UniqueTrimmed_def sorted_Unique sorted_sort_id)
  finally have d: "listActionDependencies db' (an_key n) = UniqueTrimmed (ap_DependsOn p) True" .
  from 2(3) r' a have node: "node = withEdges db' (case getActionNode db (an_key n) of
      None \<Rightarrow> ?n | Some x \<Rightarrow> set_action x ?n)"
    by (auto simp: actionNodeWithEdges_def split: if_splits option.splits)
  have kx: "an_key x = an_key n" if "getActionNode db (an_key n) = Some x" for x
    using that by (auto simp: getActionNode_def dest: tfind_Some)
  have title: "an_Title n = trim_space (ap_Title p)"
    using 2(1) by (auto simp: normalizeActionParams_def Let_def split: sum.splits if_splits)
  show ?thesis
  proof (cases "getActionNode db (an_key n)")
    case None
    with node have nd: "node = withEdges db' ?n" by simp
    have key: "an_key node = an_key n" unfolding nd by (simp add: an_key_def withEdges_def)
    have "an_DependsOn node = UniqueTrimmed (ap_DependsOn p) True"
      unfolding nd withEdges_def using d by (simp add: kn)
    moreover have "an_Title node = trim_space (ap_Title p)" "an_UpdatedAt node = now"
      "an_Status node = ActionStatusPending" "an_CreatedAt node = now"
      unfolding nd using None by (simp_all add: withEdges_def upserted_def title)
    ultimately show ?thesis unfolding key using None a by simp
  next
    case (Some x)
    with node have nd: "node = withEdges db' (set_action x ?n)" by simp
    have kk: "an_key (set_action x ?n) = an_key n"
      using kx [OF Some] by (simp add: an_key_def set_action_def)
    have key: "an_key node = an_key n" unfolding nd using kk by (simp add: an_key_def withEdges_def)
    have "an_DependsOn node = UniqueTrimmed (ap_DependsOn p) True"
      unfolding nd withEdges_def using d by (simp add: kk)
    moreover have "an_Title node = trim_space (ap_Title p)" "an_UpdatedAt node = now"
      "an_Status node = an_Status x" "an_CreatedAt node = an_CreatedAt x"
      unfolding nd using Some by (simp_all add: withEdges_def set_action_def upserted_def title)
    ultimately show ?thesis unfolding key using Some a by simp
  qed
qed

section \<open>Behaviour under faults and on missing actions\<close>

text \<open>
  \<open>UpsertAction\<close> clears the stored dependencies before it writes the new ones, outside a
  transaction: when the first insert fails the call reports the error, and the action is left
  with no dependency at all, so nothing holds it back from the frontier any more.
\<close>

theorem upsert_fault_drops_dependencies:
  assumes p: "normalizeActionParams ws p = Inr n" and d: "an_DependsOn n \<noteq> []"
    and flt: "\<not> flt GetAction" "\<not> flt UpsertRow" "\<not> flt ClearDeps" "flt (InsertDep 0)"
  shows "\<exists>db'. UpsertAction flt ws now p db = (Inl (ActDb (InsertDep 0)), db')
    \<and> listActionDependencies db' (an_key n) = []"
proof -
  obtain x ds where ds: "an_DependsOn n = x # ds" using d by (cases "an_DependsOn n") auto
  have "ActionID (an_scope n) \<noteq> []" using normalizeActionParams_key [OF p] by blast
  then have ne: "act_of (an_key n) \<noteq> []" by (simp add: an_key_def)
  have key: "an_key (n\<lparr>an_Status := st, an_CreatedAt := c, an_UpdatedAt := u\<rparr>) = an_key n" for st c u
    by (simp add: an_key_def)
  from p flt ds ne show ?thesis
    by (auto simp: UpsertAction_def Let_def replaceActionDependencies_def key listActionDependencies_def
        ScopedAction_exact tdelete_def filter_filter upsertActionNode_def filter_empty_conv
        split: option.splits)
qed

text \<open>
  A signal to an action that does not exist is accepted: \<open>SignalAction\<close> checks that the
  lookup raised no error but not that it found a row, so the signal row is stored.
\<close>

theorem signal_to_missing_action_accepted:
  assumes "normalizeActionSignal ws p = Inr (s, i)" and "getActionNode db (scope_key s) = None"
    and "\<not> flt GetAction" "\<not> flt InsertSignal"
  shows "\<exists>sig db'. SignalAction flt ws now p db = (Inr sig, db')
    \<and> sg_ID sig = aseq (signals db) + 1
    \<and> length (arows (signals db')) = Suc (length (arows (signals db)))"
  using assms by (auto simp: SignalAction_def Let_def case_prod_beta fst_ainsert)

section \<open>A sample graph\<close>

definition empty_action_db :: action_db where
  "empty_action_db = \<lparr>actions = [], deps = [], signals = aempty, receipts = []\<rparr>"

definition demo_params :: "string \<Rightarrow> string list \<Rightarrow> ActionParams" where
  "demo_params a ds = \<lparr>ap_WorkspaceID = ''w'', ap_ProfileID = ''p'', ap_Peer = '' bob '',
     ap_ActionID = a, ap_Title = ''do it'', ap_DependsOn = ds\<rparr>"

definition demo_query :: "string \<Rightarrow> ActionGraphQuery" where
  "demo_query a = \<lparr>aq_WorkspaceID = [], aq_ProfileID = ''p'', aq_Peer = ''bob'', aq_ActionID = a\<rparr>"

text \<open>\<open>b\<close> depends on \<open>a\<close>; \<open>a\<close> is completed.\<close>

definition demo_db :: action_db where
  "demo_db = fold (act_step ''w'')
     [EvUpsert (\<lambda>_. False) 1 (demo_params ''a'' []), EvUpsert (\<lambda>_. False) 2 (demo_params ''b'' ['' a '', ''a'']),
      EvComplete (\<lambda>_. False) 3 (demo_query ''a'')] empty_action_db"

lemma demo_db_inv: "act_inv demo_db"
  unfolding demo_db_def
  by (rule action_machine.run_inv) (simp add: act_inv_def empty_action_db_def)

theorem frontier_exactly_ready_witness:
  "\<exists>g. ReadActionGraph (\<lambda>_. False) ''w'' (demo_query []) demo_db = Inr g \<and>
     (\<forall>n. n \<in> set (ag_Frontier g) \<longleftrightarrow>
      n \<in> set (ag_Nodes g) \<and> an_Status n = ActionStatusPending \<and>
      (\<forall>d \<in> set (an_DependsOn n). \<exists>m \<in> set (ag_Nodes g). an_ID m = d \<and> an_Status m = ActionStatusDone))
     \<and> map an_ID (ag_Frontier g) = [''b'']"
proof -
  have "(case ReadActionGraph (\<lambda>_. False) ''w'' (demo_query []) demo_db of
      Inl e \<Rightarrow> False | Inr g \<Rightarrow> map an_ID (ag_Frontier g) = [''b''])" by code_simp
  then obtain g where g: "ReadActionGraph (\<lambda>_. False) ''w'' (demo_query []) demo_db = Inr g"
    "map an_ID (ag_Frontier g) = [''b'']" by (auto split: sum.splits)
  show ?thesis
    by (intro exI conjI allI, rule g(1)) (simp_all add: frontier_exactly_ready [OF demo_db_inv g(1)] g(2))
qed

text \<open>Two pending actions of which one needs the other.\<close>

definition demo_pending :: action_db where
  "demo_pending = fold (act_step ''w'') [EvUpsert (\<lambda>_. False) 1 (demo_params ''a'' []), EvUpsert (\<lambda>_. False) 2 (demo_params ''b'' [''a''])] empty_action_db"

theorem frontier_progress_witness:
  "\<exists>g a. ReadActionGraph (\<lambda>_. False) ''w'' (demo_query []) demo_pending = Inr g \<and> length (ag_Nodes g) = 2
     \<and> ag_NextAction g = Some a \<and> an_Status a = ActionStatusPending"
proof -
  have ok: "case ReadActionGraph (\<lambda>_. False) ''w'' (demo_query []) demo_pending of Inl _ \<Rightarrow> False
      | Inr g \<Rightarrow> map (\<lambda>n. (an_ID n, an_DependsOn n, an_Status n)) (ag_Nodes g)
          = [(''a'', [], ActionStatusPending), (''b'', [''a''], ActionStatusPending)]" by code_simp
  then obtain g where g: "ReadActionGraph (\<lambda>_. False) ''w'' (demo_query []) demo_pending = Inr g"
    "map (\<lambda>n. (an_ID n, an_DependsOn n, an_Status n)) (ag_Nodes g) = [(''a'', [], ActionStatusPending), (''b'', [''a''], ActionStatusPending)]"
    by (auto split: sum.splits)
  then obtain m n where mn: "ag_Nodes g = [m, n]" "an_ID m = ''a''" "an_DependsOn m = []" "an_ID n = ''b''" "an_DependsOn n = [''a'']"
    "an_Status m = ActionStatusPending" "an_Status n = ActionStatusPending"
    by (auto simp: map_eq_Cons_conv)
  have "pending_edges (ag_Nodes g) = {(''a'', ''b'')}" unfolding pending_edges_def using mn by simp
  then have acyclic: "acyclic (pending_edges (ag_Nodes g))" by (simp add: acyclic_insert, simp add: acyclic_def)
  have inv: "act_inv demo_pending" unfolding demo_pending_def
    by (rule action_machine.run_inv) (simp add: act_inv_def empty_action_db_def)
  from frontier_progress [OF inv g(1) acyclic, of m] mn g(1) show ?thesis by auto
qed

theorem completed_stays_completed_witness:
  "action_done (''w'', ''p'', ''bob'', ''a'')
     (fold (act_step ''w'') [EvUpsert (\<lambda>_. False) 9 (demo_params ''a'' [''b''])] demo_db)"
proof -
  have "action_done (''w'', ''p'', ''bob'', ''a'') demo_db"
  by code_simp
  then show ?thesis using completed_stays_completed [OF demo_db_inv] by blast
qed

theorem graph_scope_isolation_witness:
  "ReadActionGraph (\<lambda>_. False) ''w'' (demo_query [])
     (act_step ''w'' (EvUpsert (\<lambda>_. False) 5 ((demo_params ''b'' [])\<lparr>ap_WorkspaceID := ''other''\<rparr>)) demo_db)
   = ReadActionGraph (\<lambda>_. False) ''w'' (demo_query []) demo_db"
  by (rule graph_scope_isolation) code_simp

theorem upsert_action_result_witness:
  "\<exists>node. fst (UpsertAction (\<lambda>_. False) ''w'' 7 (demo_params ''c'' ['' a '']) demo_db) = Inr node
     \<and> an_DependsOn node = UniqueTrimmed ['' a ''] True \<and> an_UpdatedAt node = 7"
proof -
  let ?c = "UpsertAction (\<lambda>_. False) ''w'' 7 (demo_params ''c'' ['' a '']) demo_db"
  have "is_ok (fst ?c)" by code_simp
  then obtain node db' where c: "?c = (Inr node, db')" by (cases ?c) (auto simp: is_ok_iff)
  show ?thesis
    by (rule exI [of _ node]) (use upsert_action_result [OF demo_db_inv c] in \<open>simp add: c, simp add: demo_params_def\<close>)
qed

theorem upsert_fault_drops_dependencies_witness:
  "\<exists>db'. UpsertAction (\<lambda>s. s = InsertDep 0) ''w'' 7 (demo_params ''b'' [''zz'']) demo_db
      = (Inl (ActDb (InsertDep 0)), db')
    \<and> listActionDependencies db' (''w'', ''p'', ''bob'', ''b'') = []"
proof -
  have "is_ok (normalizeActionParams ''w'' (demo_params ''b'' [''zz'']))" by code_simp
  then obtain n where n: "normalizeActionParams ''w'' (demo_params ''b'' [''zz'']) = Inr n"
    by (auto simp: is_ok_iff)
  have "map_sum id (\<lambda>n. (an_key n, an_DependsOn n)) (normalizeActionParams ''w'' (demo_params ''b'' [''zz'']))
      = Inr ((''w'', ''p'', ''bob'', ''b''), [''zz''])" by code_simp
  with n have "an_key n = (''w'', ''p'', ''bob'', ''b'')" "an_DependsOn n \<noteq> []" by auto
  with upsert_fault_drops_dependencies [OF n, of "\<lambda>s. s = InsertDep 0" 7 demo_db] show ?thesis by simp
qed

definition demo_signal :: "string \<Rightarrow> ActionSignalParams" where
  "demo_signal a = \<lparr>aq_WorkspaceID = [], aq_ProfileID = ''p'', aq_Peer = ''bob'', aq_ActionID = a,
     as_Signal = ''stop'', as_Message = [], as_Actor = ''eve''\<rparr>"

theorem signal_to_missing_action_accepted_witness:
  "getActionNode demo_db (''w'', ''p'', ''bob'', ''nope'') = None \<and>
   (\<exists>sig db'. SignalAction (\<lambda>_. False) ''w'' 8 (demo_signal ''nope'') demo_db = (Inr sig, db')
      \<and> sg_ID sig = aseq (signals demo_db) + 1)"
proof -
  have none: "getActionNode demo_db (''w'', ''p'', ''bob'', ''nope'') = None" by code_simp
  have "map_sum id (\<lambda>(s, i). scope_key s) (normalizeActionSignal ''w'' (demo_signal ''nope''))
      = Inr (''w'', ''p'', ''bob'', ''nope'')" by code_simp
  then obtain s i where s: "normalizeActionSignal ''w'' (demo_signal ''nope'') = Inr (s, i)"
    "scope_key s = (''w'', ''p'', ''bob'', ''nope'')"
    by (cases "normalizeActionSignal ''w'' (demo_signal ''nope'')") auto
  with none signal_to_missing_action_accepted [OF s(1), of demo_db "\<lambda>_. False" 8] show ?thesis by auto
qed

end
