(* ===== verification/ActionLeases.thy ===== *)
theory ActionLeases
  imports ActionGraph
begin

text \<open>
  The action leases of \<open>service/action_leases.go\<close>: a lease gives one owner the right to work on
  an action until it expires.  \<open>AcquireActionLease\<close>, \<open>RenewActionLease\<close> and
  \<open>ExpireActionLeases\<close> run one transaction each; every statement of the transaction can fail
  (\<open>flt\<close>), and a failure rolls the whole call back.  Times are \<open>int64\<close> nanoseconds, the
  overflow test on the expiry is the code's.
\<close>

section \<open>Tables and values\<close>

datatype ActionLeaseDecision = ActionLeaseDecisionAcquired | ActionLeaseDecisionHeldByOther
  | ActionLeaseDecisionRenewed | ActionLeaseDecisionExpired

record ActionLease =
  ls_scope :: ActionScope
  ls_Owner :: string
  ls_AcquiredAt :: int
  ls_RenewedAt :: int
  ls_ExpiresAt :: int

record lease_audit_row =
  au_key :: scope_key
  au_Actor :: string
  au_Decision :: ActionLeaseDecision
  au_Reason :: string
  au_ExpiresAt :: int
  au_CreatedAt :: int

record lease_db =
  lgraph :: action_db
  leases :: "ActionLease list"
  laudit :: "lease_audit_row atable"

record ActionLeaseParams =
  lp_WorkspaceID :: string
  lp_ProfileID :: string
  lp_Peer :: string
  lp_ActionID :: string
  lp_Owner :: string
  lp_TTL :: int

record ActionLeaseExpireParams =
  le_WorkspaceID :: string
  le_ProfileID :: string
  le_Peer :: string
  le_ActionID :: string

record ActionLeaseResult =
  lr_Acquired :: bool
  lr_Decision :: ActionLeaseDecision
  lr_Lease :: ActionLease
  lr_Reason :: string
  lr_AuditID :: int

record ActionLeaseExpireResult =
  lx_ExpiredCount :: int
  lx_Events :: "(int \<times> lease_audit_row) list"

datatype lease_site = LBegin | LCheckAction | LGet | LUpsert | LAudit | LCommit
  | LListExpired | LDeleteNth nat | LAuditNth nat

datatype lease_error = LeaseServerMode | LeaseInvalid string | LeaseTTL | LeaseOverflow
  | LeaseNoAction | LeaseDb lease_site

text \<open>The part of a service the leases use: its workspace, its server mode, and Go's case table.\<close>

record lease_service =
  sv_workspaceID :: string
  sv_serverMode :: string
  sv_ulow :: "string \<Rightarrow> string"

definition ls_key :: "ActionLease \<Rightarrow> scope_key" where
  "ls_key l = scope_key (ls_scope l)"

section \<open>Normalisation and expiry\<close>

definition normalizeActionLeaseParams :: "lease_service \<Rightarrow> ActionLeaseParams \<Rightarrow> lease_error + ActionLease" where
  "normalizeActionLeaseParams sv p =
     (let msg = ''action lease workspace_id, peer, action_id, and owner are required'' in
      case normalizeScopedAction (sv_workspaceID sv) (lp_WorkspaceID p) (lp_ProfileID p) (lp_Peer p) (lp_ActionID p) msg True of
        Inl e \<Rightarrow> Inl (LeaseInvalid e)
      | Inr action \<Rightarrow>
          let owner = trim_space (lp_Owner p) in
          if owner = [] then Inl (LeaseInvalid msg)
          else if lp_TTL p \<le> 0 then Inl LeaseTTL
          else Inr \<lparr>ls_scope = action, ls_Owner = owner, ls_AcquiredAt = 0, ls_RenewedAt = 0, ls_ExpiresAt = 0\<rparr>)"

definition normalizeActionLeaseExpireParams :: "lease_service \<Rightarrow> ActionLeaseExpireParams \<Rightarrow> lease_error + ActionScope" where
  "normalizeActionLeaseExpireParams sv p =
     (case normalizeScopedAction (sv_workspaceID sv) (le_WorkspaceID p) (le_ProfileID p) (le_Peer p) (le_ActionID p)
             ''action lease expiry workspace_id and peer are required'' False of
        Inl e \<Rightarrow> Inl (LeaseInvalid e) | Inr a \<Rightarrow> Inr a)"

definition actionLeaseAcquiredAt :: "int \<Rightarrow> ActionLease option \<Rightarrow> string \<Rightarrow> int" where
  "actionLeaseAcquiredAt now existing owner =
     (case existing of
        Some e \<Rightarrow> if ls_Owner e = owner \<and> ls_ExpiresAt e > now \<and> ls_AcquiredAt e > 0 then ls_AcquiredAt e else now
      | None \<Rightarrow> now)"

definition actionLeaseExpiresAt :: "int \<Rightarrow> int \<Rightarrow> lease_error + int" where
  "actionLeaseExpiresAt now ttl =
     (if ttl \<le> 0 then Inl LeaseTTL
      else if now > max_int64 - ttl then Inl LeaseOverflow
      else Inr (now + ttl))"

definition heldReason :: "ActionLease \<Rightarrow> string" where
  "heldReason l = ''action lease held by '' @ ls_Owner l @ '' until '' @ Decimal (ls_ExpiresAt l)"

section \<open>Statements\<close>

definition set_lease :: "ActionLease \<Rightarrow> ActionLease \<Rightarrow> ActionLease" where
  "set_lease old new = old\<lparr>ls_Owner := ls_Owner new, ls_AcquiredAt := ls_AcquiredAt new,
     ls_RenewedAt := ls_RenewedAt new, ls_ExpiresAt := ls_ExpiresAt new\<rparr>"

definition actionExists :: "lease_db \<Rightarrow> scope_key \<Rightarrow> bool" where
  "actionExists db k \<longleftrightarrow> getActionNode (lgraph db) k \<noteq> None"

definition getActionLease :: "lease_db \<Rightarrow> scope_key \<Rightarrow> ActionLease option" where
  "getActionLease db k = tfind ls_key k (leases db)"

definition upsertActionLease :: "ActionLease \<Rightarrow> lease_db \<Rightarrow> lease_db" where
  "upsertActionLease l db = db\<lparr>leases := tupsert ls_key set_lease l (leases db)\<rparr>"

definition auditRow :: "ActionLease \<Rightarrow> string \<Rightarrow> ActionLeaseDecision \<Rightarrow> string \<Rightarrow> int \<Rightarrow> lease_audit_row" where
  "auditRow l actor decision reason createdAt =
     \<lparr>au_key = ls_key l, au_Actor = actor, au_Decision = decision, au_Reason = reason,
      au_ExpiresAt = ls_ExpiresAt l, au_CreatedAt = createdAt\<rparr>"

definition insertActionLeaseAudit :: "lease_audit_row \<Rightarrow> lease_db \<Rightarrow> int \<times> lease_db" where
  "insertActionLeaseAudit row db = (let (i, t) = ainsert row (laudit db) in (i, db\<lparr>laudit := t\<rparr>))"

text \<open>\<open>ORDER BY expires_at ASC, action_id ASC\<close>.\<close>

definition listExpiredActionLeases :: "lease_db \<Rightarrow> ActionScope \<Rightarrow> int \<Rightarrow> ActionLease list" where
  "listExpiredActionLeases db q now =
     order_asc (\<lambda>l. (ls_ExpiresAt l, ActionID (ls_scope l)))
       (filter (\<lambda>l. ScopedAction (scope_key q) (ls_key l) \<and> ls_ExpiresAt l \<le> now) (leases db))"

section \<open>Operations\<close>

text \<open>The audit insert, the commit and the result that every branch of a call ends with.\<close>

definition finishLease :: "(lease_site \<Rightarrow> bool) \<Rightarrow> lease_audit_row \<Rightarrow> (int \<Rightarrow> ActionLeaseResult) \<Rightarrow> lease_db
    \<Rightarrow> lease_db \<Rightarrow> (lease_error + ActionLeaseResult) \<times> lease_db" where
  "finishLease flt row res db0 db =
     (if flt LAudit then (Inl (LeaseDb LAudit), db0)
      else let (i, db') = insertActionLeaseAudit row db in
        if flt LCommit then (Inl (LeaseDb LCommit), db0) else (Inr (res i), db'))"

definition AcquireActionLease :: "(lease_site \<Rightarrow> bool) \<Rightarrow> lease_service \<Rightarrow> int \<Rightarrow> ActionLeaseParams \<Rightarrow> lease_db
    \<Rightarrow> (lease_error + ActionLeaseResult) \<times> lease_db" where
  "AcquireActionLease flt sv now params db =
     (if \<not> requireDistributedServerMode (sv_ulow sv) (Some (sv_serverMode sv)) then (Inl LeaseServerMode, db)
      else case normalizeActionLeaseParams sv params of
        Inl e \<Rightarrow> (Inl e, db)
      | Inr norm \<Rightarrow>
      (case actionLeaseExpiresAt now (lp_TTL params) of
        Inl e \<Rightarrow> (Inl e, db)
      | Inr expiresAt \<Rightarrow>
          if flt LBegin then (Inl (LeaseDb LBegin), db)
          else if flt LCheckAction then (Inl (LeaseDb LCheckAction), db)
          else if \<not> actionExists db (ls_key norm) then (Inl LeaseNoAction, db)
          else if flt LGet then (Inl (LeaseDb LGet), db)
          else
            let existing = getActionLease db (ls_key norm); e = the existing in
            if existing \<noteq> None \<and> ls_ExpiresAt e > now \<and> ls_Owner e \<noteq> ls_Owner norm then
                finishLease flt (auditRow e (ls_Owner norm) ActionLeaseDecisionHeldByOther (heldReason e) now)
                  (\<lambda>i. \<lparr>lr_Acquired = False, lr_Decision = ActionLeaseDecisionHeldByOther, lr_Lease = e,
                        lr_Reason = heldReason e, lr_AuditID = i\<rparr>) db db
            else
                let lease = norm\<lparr>ls_AcquiredAt := actionLeaseAcquiredAt now existing (ls_Owner norm),
                                 ls_RenewedAt := now, ls_ExpiresAt := expiresAt\<rparr> in
                if flt LUpsert then (Inl (LeaseDb LUpsert), db)
                else finishLease flt (auditRow lease (ls_Owner norm) ActionLeaseDecisionAcquired ''lease acquired'' now)
                  (\<lambda>i. \<lparr>lr_Acquired = True, lr_Decision = ActionLeaseDecisionAcquired, lr_Lease = lease,
                        lr_Reason = [], lr_AuditID = i\<rparr>) db (upsertActionLease lease db)))"

definition RenewActionLease :: "(lease_site \<Rightarrow> bool) \<Rightarrow> lease_service \<Rightarrow> int \<Rightarrow> ActionLeaseParams \<Rightarrow> lease_db
    \<Rightarrow> (lease_error + ActionLeaseResult) \<times> lease_db" where
  "RenewActionLease flt sv now params db =
     (if \<not> requireDistributedServerMode (sv_ulow sv) (Some (sv_serverMode sv)) then (Inl LeaseServerMode, db)
      else case normalizeActionLeaseParams sv params of
        Inl e \<Rightarrow> (Inl e, db)
      | Inr norm \<Rightarrow>
          if flt LBegin then (Inl (LeaseDb LBegin), db)
          else if flt LCheckAction then (Inl (LeaseDb LCheckAction), db)
          else if \<not> actionExists db (ls_key norm) then (Inl LeaseNoAction, db)
          else if flt LGet then (Inl (LeaseDb LGet), db)
          else
            let found = getActionLease db (ls_key norm); existing = the found in
            if found = None \<or> ls_ExpiresAt existing \<le> now then
                finishLease flt (auditRow norm (ls_Owner norm) ActionLeaseDecisionExpired ''action lease is missing or expired'' now)
                  (\<lambda>i. \<lparr>lr_Acquired = False, lr_Decision = ActionLeaseDecisionExpired, lr_Lease = norm,
                        lr_Reason = ''action lease is missing or expired'', lr_AuditID = i\<rparr>) db db
            else if ls_Owner existing \<noteq> ls_Owner norm then
                  finishLease flt (auditRow existing (ls_Owner norm) ActionLeaseDecisionHeldByOther (heldReason existing) now)
                    (\<lambda>i. \<lparr>lr_Acquired = False, lr_Decision = ActionLeaseDecisionHeldByOther, lr_Lease = existing,
                          lr_Reason = heldReason existing, lr_AuditID = i\<rparr>) db db
                else (case actionLeaseExpiresAt now (lp_TTL params) of
                    Inl e \<Rightarrow> (Inl e, db)
                  | Inr expiresAt \<Rightarrow>
                      let lease = existing\<lparr>ls_RenewedAt := now, ls_ExpiresAt := expiresAt\<rparr> in
                      if flt LUpsert then (Inl (LeaseDb LUpsert), db)
                      else finishLease flt (auditRow lease (ls_Owner norm) ActionLeaseDecisionRenewed ''lease renewed'' now)
                        (\<lambda>i. \<lparr>lr_Acquired = True, lr_Decision = ActionLeaseDecisionRenewed, lr_Lease = lease,
                              lr_Reason = [], lr_AuditID = i\<rparr>) db (upsertActionLease lease db)))"

text \<open>The loop of \<open>ExpireActionLeases\<close>; the state it returns on an error is rolled back.\<close>

fun expireLoop :: "(lease_site \<Rightarrow> bool) \<Rightarrow> nat \<Rightarrow> int \<Rightarrow> ActionLease list \<Rightarrow> lease_db
    \<Rightarrow> (lease_error + (int \<times> lease_audit_row) list) \<times> lease_db" where
  "expireLoop flt n now [] db = (Inr [], db)"
| "expireLoop flt n now (l # ls) db =
     (if flt (LDeleteNth n) then (Inl (LeaseDb (LDeleteNth n)), db)
      else let db1 = db\<lparr>leases := tdelete (\<lambda>r. ls_key r = ls_key l) (leases db)\<rparr> in
      if flt (LAuditNth n) then (Inl (LeaseDb (LAuditNth n)), db1)
      else
        let row = auditRow l (ls_Owner l) ActionLeaseDecisionExpired ''lease expired'' now;
            (i, db2) = insertActionLeaseAudit row db1 in
        (case expireLoop flt (Suc n) now ls db2 of
           (Inl e, db3) \<Rightarrow> (Inl e, db3)
         | (Inr evs, db3) \<Rightarrow> (Inr ((i, row) # evs), db3)))"

definition ExpireActionLeases :: "(lease_site \<Rightarrow> bool) \<Rightarrow> lease_service \<Rightarrow> int \<Rightarrow> ActionLeaseExpireParams \<Rightarrow> lease_db
    \<Rightarrow> (lease_error + ActionLeaseExpireResult) \<times> lease_db" where
  "ExpireActionLeases flt sv now params db =
     (if \<not> requireDistributedServerMode (sv_ulow sv) (Some (sv_serverMode sv)) then (Inl LeaseServerMode, db)
      else case normalizeActionLeaseExpireParams sv params of
        Inl e \<Rightarrow> (Inl e, db)
      | Inr norm \<Rightarrow>
          if flt LBegin then (Inl (LeaseDb LBegin), db)
          else if flt LListExpired then (Inl (LeaseDb LListExpired), db)
          else (case expireLoop flt 0 now (listExpiredActionLeases db norm now) db of
              (Inl e, _) \<Rightarrow> (Inl e, db)
            | (Inr events, db') \<Rightarrow>
                if flt LCommit then (Inl (LeaseDb LCommit), db)
                else (Inr \<lparr>lx_ExpiredCount = int (length events), lx_Events = events\<rparr>, db')))"

text \<open>\<open>ListActionLeaseAudit\<close>: newest first, at most 100 rows.\<close>

definition ListActionLeaseAudit :: "lease_service \<Rightarrow> ActionLeaseExpireParams \<Rightarrow> int \<Rightarrow> lease_db
    \<Rightarrow> lease_error + (int \<times> lease_audit_row) list" where
  "ListActionLeaseAudit sv q lim db =
     (case normalizeScopedAction (sv_workspaceID sv) (le_WorkspaceID q) (le_ProfileID q) (le_Peer q) (le_ActionID q)
             ''action lease audit workspace_id and peer are required'' False of
        Inl e \<Rightarrow> Inl (LeaseInvalid e)
      | Inr norm \<Rightarrow>
          Inr (take (nat (DefaultClamped lim 100 100))
            (order_desc (\<lambda>(i, r). (au_CreatedAt r, i))
              (filter (\<lambda>(i, r). ScopedAction (scope_key norm) (au_key r)) (arows (laudit db))))))"

section \<open>What each call does\<close>

interpretation lease_rows: replacing_table ls_key set_lease
  by unfold_locales (simp_all add: ls_key_def set_lease_def)

lemma insertActionLeaseAudit_simps [simp]:
  "lgraph (snd (insertActionLeaseAudit row db)) = lgraph db"
  "leases (snd (insertActionLeaseAudit row db)) = leases db"
  "arows (laudit (snd (insertActionLeaseAudit row db))) =
     arows (laudit db) @ [(fst (insertActionLeaseAudit row db), row)]"
  "awf (laudit db) \<Longrightarrow> awf (laudit (snd (insertActionLeaseAudit row db)))"
  "extends (laudit db) (laudit (snd (insertActionLeaseAudit row db)))"
  by (simp_all add: insertActionLeaseAudit_def case_prod_beta)

lemma upsertActionLease_simps [simp]:
  "lgraph (upsertActionLease l db) = lgraph db" "laudit (upsertActionLease l db) = laudit db"
  by (simp_all add: upsertActionLease_def)

lemma getActionLease_upsert:
  "getActionLease (upsertActionLease l db) k = (if k = ls_key l then Some l else getActionLease db k)"
  by (simp add: getActionLease_def upsertActionLease_def)

lemma getActionLease_audit [simp]:
  "getActionLease (snd (insertActionLeaseAudit row db)) k = getActionLease db k"
  by (simp add: getActionLease_def)

text \<open>A call that commits: the audit row is appended and the result carries its id.\<close>

definition logged :: "lease_audit_row \<Rightarrow> (int \<Rightarrow> ActionLeaseResult) \<Rightarrow> lease_db \<Rightarrow> ActionLeaseResult \<times> lease_db" where
  "logged row res db = (res (fst (insertActionLeaseAudit row db)), snd (insertActionLeaseAudit row db))"

definition denial :: "int \<Rightarrow> string \<Rightarrow> ActionLease \<Rightarrow> lease_db \<Rightarrow> ActionLeaseResult \<times> lease_db" where
  "denial now actor e db = logged (auditRow e actor ActionLeaseDecisionHeldByOther (heldReason e) now)
     (\<lambda>i. \<lparr>lr_Acquired = False, lr_Decision = ActionLeaseDecisionHeldByOther, lr_Lease = e,
           lr_Reason = heldReason e, lr_AuditID = i\<rparr>) db"

definition miss :: "int \<Rightarrow> ActionLease \<Rightarrow> lease_db \<Rightarrow> ActionLeaseResult \<times> lease_db" where
  "miss now norm db = logged (auditRow norm (ls_Owner norm) ActionLeaseDecisionExpired ''action lease is missing or expired'' now)
     (\<lambda>i. \<lparr>lr_Acquired = False, lr_Decision = ActionLeaseDecisionExpired, lr_Lease = norm,
           lr_Reason = ''action lease is missing or expired'', lr_AuditID = i\<rparr>) db"

definition grant :: "int \<Rightarrow> ActionLeaseDecision \<Rightarrow> string \<Rightarrow> ActionLease \<Rightarrow> lease_db \<Rightarrow> ActionLeaseResult \<times> lease_db" where
  "grant now d reason lease db = logged (auditRow lease (ls_Owner lease) d reason now)
     (\<lambda>i. \<lparr>lr_Acquired = True, lr_Decision = d, lr_Lease = lease, lr_Reason = [], lr_AuditID = i\<rparr>)
     (upsertActionLease lease db)"

definition held_by_other :: "int \<Rightarrow> string \<Rightarrow> ActionLease option \<Rightarrow> bool" where
  "held_by_other now owner x \<longleftrightarrow>
     (case x of None \<Rightarrow> False | Some e \<Rightarrow> ls_ExpiresAt e > now \<and> ls_Owner e \<noteq> owner)"

definition acquired_lease :: "int \<Rightarrow> int \<Rightarrow> ActionLease option \<Rightarrow> ActionLease \<Rightarrow> ActionLease" where
  "acquired_lease now x existing norm =
     norm\<lparr>ls_AcquiredAt := actionLeaseAcquiredAt now existing (ls_Owner norm), ls_RenewedAt := now, ls_ExpiresAt := x\<rparr>"

lemma finishLease_Inr: "finishLease flt row res db0 db = (Inr v, db') \<Longrightarrow> logged row res db = (v, db')"
  by (auto simp: finishLease_def logged_def Let_def case_prod_beta split: if_splits)

lemma finishLease_Inl: "finishLease flt row res db0 db = (Inl e, db') \<Longrightarrow> db' = db0"
  by (auto simp: finishLease_def Let_def case_prod_beta split: if_splits)

lemma Acquire_err: "AcquireActionLease flt sv now p db = (Inl e, db') \<Longrightarrow> db' = db"
  by (auto simp: AcquireActionLease_def Let_def split: if_splits sum.splits dest: finishLease_Inl)

lemma Renew_err: "RenewActionLease flt sv now p db = (Inl e, db') \<Longrightarrow> db' = db"
  by (auto simp: RenewActionLease_def Let_def split: if_splits sum.splits dest: finishLease_Inl)

lemma Acquire_ok:
  assumes "AcquireActionLease flt sv now p db = (Inr v, db')"
  obtains norm x where "normalizeActionLeaseParams sv p = Inr norm"
    "actionLeaseExpiresAt now (lp_TTL p) = Inr x" "actionExists db (ls_key norm)"
    "(v, db') = (let existing = getActionLease db (ls_key norm) in
       if held_by_other now (ls_Owner norm) existing then denial now (ls_Owner norm) (the existing) db
       else grant now ActionLeaseDecisionAcquired ''lease acquired'' (acquired_lease now x existing norm) db)"
proof -
  from assms obtain norm where n: "normalizeActionLeaseParams sv p = Inr norm"
    by (auto simp: AcquireActionLease_def split: if_splits sum.splits)
  from assms n obtain x where x: "actionLeaseExpiresAt now (lp_TTL p) = Inr x"
    by (auto simp: AcquireActionLease_def split: if_splits sum.splits)
  note u = assms [unfolded AcquireActionLease_def n x, simplified]
  from u have ex: "actionExists db (ls_key norm)" by (simp split: if_splits)
  show thesis
  proof (rule that [OF n x ex], cases "held_by_other now (ls_Owner norm) (getActionLease db (ls_key norm))")
    case True
    with u show "(v, db') = (let existing = getActionLease db (ls_key norm) in
       if held_by_other now (ls_Owner norm) existing then denial now (ls_Owner norm) (the existing) db
       else grant now ActionLeaseDecisionAcquired ''lease acquired'' (acquired_lease now x existing norm) db)"
      by (auto simp: held_by_other_def denial_def split: if_splits option.splits dest!: finishLease_Inr)
  next
    case False
    with u show "(v, db') = (let existing = getActionLease db (ls_key norm) in
       if held_by_other now (ls_Owner norm) existing then denial now (ls_Owner norm) (the existing) db
       else grant now ActionLeaseDecisionAcquired ''lease acquired'' (acquired_lease now x existing norm) db)"
      by (auto simp: held_by_other_def grant_def acquired_lease_def Let_def split: if_splits option.splits
          dest!: finishLease_Inr)
  qed
qed

lemma Renew_ok:
  assumes "RenewActionLease flt sv now p db = (Inr v, db')"
  obtains norm where "normalizeActionLeaseParams sv p = Inr norm" "actionExists db (ls_key norm)"
    "(case getActionLease db (ls_key norm) of
        None \<Rightarrow> (v, db') = miss now norm db
      | Some e \<Rightarrow>
          if ls_ExpiresAt e \<le> now then (v, db') = miss now norm db
          else if ls_Owner e \<noteq> ls_Owner norm then (v, db') = denial now (ls_Owner norm) e db
          else \<exists>x. actionLeaseExpiresAt now (lp_TTL p) = Inr x \<and>
            (v, db') = grant now ActionLeaseDecisionRenewed ''lease renewed'' (e\<lparr>ls_RenewedAt := now, ls_ExpiresAt := x\<rparr>) db)"
proof -
  from assms obtain norm where n: "normalizeActionLeaseParams sv p = Inr norm"
    by (auto simp: RenewActionLease_def split: if_splits sum.splits)
  note u = assms [unfolded RenewActionLease_def n, simplified]
  from u have ex: "actionExists db (ls_key norm)" by (simp split: if_splits)
  show thesis
  proof (rule that [OF n ex], cases "getActionLease db (ls_key norm)")
    case None
    with u show "case getActionLease db (ls_key norm) of
        None \<Rightarrow> (v, db') = miss now norm db
      | Some e \<Rightarrow>
          if ls_ExpiresAt e \<le> now then (v, db') = miss now norm db
          else if ls_Owner e \<noteq> ls_Owner norm then (v, db') = denial now (ls_Owner norm) e db
          else \<exists>x. actionLeaseExpiresAt now (lp_TTL p) = Inr x \<and>
            (v, db') = grant now ActionLeaseDecisionRenewed ''lease renewed'' (e\<lparr>ls_RenewedAt := now, ls_ExpiresAt := x\<rparr>) db"
      by (auto simp: miss_def split: if_splits dest!: finishLease_Inr)
  next
    case (Some e)
    with u show "case getActionLease db (ls_key norm) of
        None \<Rightarrow> (v, db') = miss now norm db
      | Some e \<Rightarrow>
          if ls_ExpiresAt e \<le> now then (v, db') = miss now norm db
          else if ls_Owner e \<noteq> ls_Owner norm then (v, db') = denial now (ls_Owner norm) e db
          else \<exists>x. actionLeaseExpiresAt now (lp_TTL p) = Inr x \<and>
            (v, db') = grant now ActionLeaseDecisionRenewed ''lease renewed'' (e\<lparr>ls_RenewedAt := now, ls_ExpiresAt := x\<rparr>) db"
      by (auto simp: miss_def denial_def grant_def Let_def split: if_splits sum.splits dest!: finishLease_Inr)
  qed
qed

lemma expireLoop_ok:
  "expireLoop flt n now ls db = (Inr evs, db') \<Longrightarrow>
     lgraph db' = lgraph db
   \<and> leases db' = tdelete (\<lambda>r. ls_key r \<in> ls_key ` set ls) (leases db)
   \<and> arows (laudit db') = arows (laudit db) @ evs
   \<and> map snd evs = map (\<lambda>l. auditRow l (ls_Owner l) ActionLeaseDecisionExpired ''lease expired'' now) ls
   \<and> (awf (laudit db) \<longrightarrow> awf (laudit db')) \<and> extends (laudit db) (laudit db')"
proof (induction ls arbitrary: n db evs db')
  case Nil
  then show ?case by (simp add: tdelete_def)
next
  case (Cons l ls)
  let ?db1 = "db\<lparr>leases := tdelete (\<lambda>r. ls_key r = ls_key l) (leases db)\<rparr>"
  let ?row = "auditRow l (ls_Owner l) ActionLeaseDecisionExpired ''lease expired'' now"
  let ?db2 = "snd (insertActionLeaseAudit ?row ?db1)"
  have fl: "\<not> flt (LDeleteNth n)" "\<not> flt (LAuditNth n)" using Cons.prems by (auto split: if_splits)
  obtain r3 db3 where r3: "expireLoop flt (Suc n) now ls ?db2 = (r3, db3)" by (cases "expireLoop flt (Suc n) now ls ?db2")
  have "expireLoop flt n now (l # ls) db = (case (r3, db3) of (Inl e, db3) \<Rightarrow> (Inl e, db3)
      | (Inr evs, db3) \<Rightarrow> (Inr ((fst (insertActionLeaseAudit ?row ?db1), ?row) # evs), db3))"
    using fl r3 by (cases r3) (simp_all add: Let_def case_prod_beta)
  with Cons.prems obtain evs' where r: "r3 = Inr evs'" "db3 = db'"
    "evs = (fst (insertActionLeaseAudit ?row ?db1), ?row) # evs'"
    by (cases r3) auto
  note ih = Cons.IH [OF r3 [unfolded r(1,2)]]
  have del: "leases db' = tdelete (\<lambda>r. ls_key r \<in> ls_key ` set (l # ls)) (leases db)"
    using ih by (auto simp: tdelete_def intro: filter_cong)
  have ext: "extends (laudit db) (laudit db')"
    using ih extends_trans insertActionLeaseAudit_simps(5) [of ?db1 ?row] by fastforce
  show ?case using ih del ext by (simp add: r(3))
qed

lemma Expire_err: "ExpireActionLeases flt sv now p db = (Inl e, db') \<Longrightarrow> db' = db"
  by (auto simp: ExpireActionLeases_def split: if_splits sum.splits prod.splits)

lemma Expire_ok:
  assumes "ExpireActionLeases flt sv now p db = (Inr v, db')"
  obtains s evs where "normalizeActionLeaseExpireParams sv p = Inr s"
      "expireLoop flt 0 now (listExpiredActionLeases db s now) db = (Inr evs, db')"
      "v = \<lparr>lx_ExpiredCount = int (length evs), lx_Events = evs\<rparr>"
  using assms unfolding ExpireActionLeases_def
  by (auto split: if_splits sum.splits prod.splits)

section \<open>Invariant and events\<close>

definition lease_inv :: "lease_db \<Rightarrow> bool" where
  "lease_inv db \<longleftrightarrow> unique_keys ls_key (leases db) \<and> awf (laudit db)"

datatype lease_event =
    EvAcquire "lease_site \<Rightarrow> bool" int ActionLeaseParams
  | EvRenew "lease_site \<Rightarrow> bool" int ActionLeaseParams
  | EvExpire "lease_site \<Rightarrow> bool" int ActionLeaseExpireParams

fun lease_step :: "lease_service \<Rightarrow> lease_event \<Rightarrow> lease_db \<Rightarrow> lease_db" where
  "lease_step sv (EvAcquire flt now p) db = snd (AcquireActionLease flt sv now p db)"
| "lease_step sv (EvRenew flt now p) db = snd (RenewActionLease flt sv now p db)"
| "lease_step sv (EvExpire flt now p) db = snd (ExpireActionLeases flt sv now p db)"

fun event_now :: "lease_event \<Rightarrow> int" where
  "event_now (EvAcquire flt now p) = now"
| "event_now (EvRenew flt now p) = now"
| "event_now (EvExpire flt now p) = now"

text \<open>An event is foreign to an owner when it is not that owner's acquire or renew.\<close>

fun foreign :: "string \<Rightarrow> lease_event \<Rightarrow> bool" where
  "foreign owner (EvAcquire flt now p) \<longleftrightarrow> trim_space (lp_Owner p) \<noteq> owner"
| "foreign owner (EvRenew flt now p) \<longleftrightarrow> trim_space (lp_Owner p) \<noteq> owner"
| "foreign owner (EvExpire flt now p) \<longleftrightarrow> True"

lemma normalizeActionLeaseParams_ok:
  "normalizeActionLeaseParams sv p = Inr n \<Longrightarrow>
     ls_Owner n = trim_space (lp_Owner p) \<and> ls_Owner n \<noteq> [] \<and> 0 < lp_TTL p"
  by (auto simp: normalizeActionLeaseParams_def Let_def split: sum.splits if_splits)

lemma ls_key_update [simp]:
  "ls_key (acquired_lease now x o' n) = ls_key n"
  "ls_key (l\<lparr>ls_RenewedAt := r, ls_ExpiresAt := x\<rparr>) = ls_key l"
  by (simp_all add: ls_key_def acquired_lease_def)

lemma acquired_lease_simps [simp]:
  "ls_Owner (acquired_lease now x o' n) = ls_Owner n" "ls_ExpiresAt (acquired_lease now x o' n) = x"
  "ls_scope (acquired_lease now x o' n) = ls_scope n"
  by (simp_all add: acquired_lease_def)

lemma getActionLease_key: "getActionLease db k = Some l \<Longrightarrow> ls_key l = k"
  by (auto simp: getActionLease_def dest: tfind_Some)

text \<open>The tables after each of the three outcomes of a committed acquire or renew.\<close>

lemma outcome_db:
  "(v, db') = denial now a e db \<Longrightarrow> leases db' = leases db \<and> lgraph db' = lgraph db"
  "(v, db') = miss now n db \<Longrightarrow> leases db' = leases db \<and> lgraph db' = lgraph db"
  "(v, db') = grant now d r l db \<Longrightarrow> leases db' = leases (upsertActionLease l db) \<and> lgraph db' = lgraph db"
  by (auto simp: denial_def miss_def grant_def logged_def)

lemma outcome_audit:
  "(v, db') = denial now a e db \<Longrightarrow>
     arows (laudit db') = arows (laudit db) @ [(lr_AuditID v, auditRow (lr_Lease v) a (lr_Decision v) (lr_Reason v) now)]
     \<and> (awf (laudit db) \<longrightarrow> awf (laudit db')) \<and> extends (laudit db) (laudit db')"
  "(v, db') = miss now n db \<Longrightarrow>
     arows (laudit db') = arows (laudit db) @ [(lr_AuditID v, auditRow (lr_Lease v) (ls_Owner n) (lr_Decision v) (lr_Reason v) now)]
     \<and> (awf (laudit db) \<longrightarrow> awf (laudit db')) \<and> extends (laudit db) (laudit db')"
  "(v, db') = grant now d r l db \<Longrightarrow>
     arows (laudit db') = arows (laudit db) @ [(lr_AuditID v, auditRow (lr_Lease v) (ls_Owner l) (lr_Decision v) r now)]
     \<and> (awf (laudit db) \<longrightarrow> awf (laudit db')) \<and> extends (laudit db) (laudit db')"
  using insertActionLeaseAudit_simps(4,5) [of "upsertActionLease l db" "auditRow l (ls_Owner l) d r now"]
  by (auto simp: denial_def miss_def grant_def logged_def)

lemma unique_upsertLease [simp]:
  "unique_keys ls_key (leases db) \<Longrightarrow> unique_keys ls_key (leases (upsertActionLease l db))"
  by (simp add: upsertActionLease_def)

text \<open>Every call either leaves the tables alone or ends in one of the outcomes.\<close>

definition lease_outcome :: "int \<Rightarrow> string \<Rightarrow> lease_db \<Rightarrow> ActionLeaseResult \<Rightarrow> lease_db \<Rightarrow> bool" where
  "lease_outcome now actor db v db' \<longleftrightarrow>
     (\<exists>e. (v, db') = denial now actor e db \<and> getActionLease db (ls_key e) = Some e
          \<and> now < ls_ExpiresAt e \<and> ls_Owner e \<noteq> actor)
   \<or> (\<exists>n. (v, db') = miss now n db \<and> ls_Owner n = actor)
   \<or> (\<exists>d r l. (v, db') = grant now d r l db \<and> ls_Owner l = actor \<and> actionExists db (ls_key l)
          \<and> \<not> held_by_other now actor (getActionLease db (ls_key l)))"

lemma Acquire_outcome:
  assumes "AcquireActionLease flt sv now p db = (Inr v, db')"
  shows "lease_outcome now (trim_space (lp_Owner p)) db v db'"
proof -
  from assms obtain norm x where n: "normalizeActionLeaseParams sv p = Inr norm" and ex: "actionExists db (ls_key norm)"
    and o: "(v, db') = (let existing = getActionLease db (ls_key norm) in
       if held_by_other now (ls_Owner norm) existing then denial now (ls_Owner norm) (the existing) db
       else grant now ActionLeaseDecisionAcquired ''lease acquired'' (acquired_lease now x existing norm) db)"
    by (rule Acquire_ok)
  have own: "ls_Owner norm = trim_space (lp_Owner p)" using normalizeActionLeaseParams_ok [OF n] by simp
  show ?thesis
  proof (cases "held_by_other now (ls_Owner norm) (getActionLease db (ls_key norm))")
    case True
    then obtain e where e: "getActionLease db (ls_key norm) = Some e" "now < ls_ExpiresAt e" "ls_Owner e \<noteq> ls_Owner norm"
      by (auto simp: held_by_other_def split: option.splits)
    have "(v, db') = denial now (trim_space (lp_Owner p)) e db" using o True e(1) own by simp
    moreover have "getActionLease db (ls_key e) = Some e" using e(1) getActionLease_key [OF e(1)] by simp
    ultimately show ?thesis using e own unfolding lease_outcome_def by metis
  next
    case False
    let ?l = "acquired_lease now x (getActionLease db (ls_key norm)) norm"
    have "(v, db') = grant now ActionLeaseDecisionAcquired ''lease acquired'' ?l db" using o False by simp
    moreover have "ls_Owner ?l = trim_space (lp_Owner p)" using own by simp
    moreover have "\<not> held_by_other now (trim_space (lp_Owner p)) (getActionLease db (ls_key ?l))" using False own by simp
    moreover have "actionExists db (ls_key ?l)" using ex by simp
    ultimately show ?thesis unfolding lease_outcome_def by blast
  qed
qed

lemma Renew_outcome:
  assumes "RenewActionLease flt sv now p db = (Inr v, db')"
  shows "lease_outcome now (trim_space (lp_Owner p)) db v db'"
proof -
  from assms obtain norm where n: "normalizeActionLeaseParams sv p = Inr norm" and ex: "actionExists db (ls_key norm)"
    and o: "(case getActionLease db (ls_key norm) of
        None \<Rightarrow> (v, db') = miss now norm db
      | Some e \<Rightarrow>
          if ls_ExpiresAt e \<le> now then (v, db') = miss now norm db
          else if ls_Owner e \<noteq> ls_Owner norm then (v, db') = denial now (ls_Owner norm) e db
          else \<exists>x. actionLeaseExpiresAt now (lp_TTL p) = Inr x \<and>
            (v, db') = grant now ActionLeaseDecisionRenewed ''lease renewed'' (e\<lparr>ls_RenewedAt := now, ls_ExpiresAt := x\<rparr>) db)"
    by (rule Renew_ok)
  have own: "ls_Owner norm = trim_space (lp_Owner p)" using normalizeActionLeaseParams_ok [OF n] by simp
  show ?thesis
  proof (cases "getActionLease db (ls_key norm)")
    case None
    with o own show ?thesis unfolding lease_outcome_def by auto
  next
    case (Some e)
    have ke: "getActionLease db (ls_key e) = Some e" using Some getActionLease_key [OF Some] by simp
    consider "(v, db') = miss now norm db" | "\<not> ls_ExpiresAt e \<le> now" "ls_Owner e \<noteq> ls_Owner norm" "(v, db') = denial now (ls_Owner norm) e db"
      | x where "ls_Owner e = ls_Owner norm"
        "(v, db') = grant now ActionLeaseDecisionRenewed ''lease renewed'' (e\<lparr>ls_RenewedAt := now, ls_ExpiresAt := x\<rparr>) db"
      using o Some by (auto split: if_splits)
    then show ?thesis
    proof cases
      case 1
      with own show ?thesis unfolding lease_outcome_def by blast
    next
      case 2
      with own ke show ?thesis unfolding lease_outcome_def by (metis linorder_not_le)
    next
      case 3
      let ?l = "e\<lparr>ls_RenewedAt := now, ls_ExpiresAt := x\<rparr>"
      have "\<not> held_by_other now (trim_space (lp_Owner p)) (getActionLease db (ls_key ?l))"
        using ke own 3(1) by (simp add: held_by_other_def)
      moreover have "ls_Owner ?l = trim_space (lp_Owner p)" using own 3(1) by simp
      moreover have "actionExists db (ls_key ?l)" using ex getActionLease_key [OF Some] by simp
      ultimately show ?thesis using 3(2) unfolding lease_outcome_def by blast
    qed
  qed
qed

lemma lease_outcome_inv:
  assumes "lease_outcome now a db v db'" "lease_inv db"
  shows "lease_inv db' \<and> extends (laudit db) (laudit db')"
  using assms outcome_db [of v db'] outcome_audit [of v db']
  unfolding lease_outcome_def lease_inv_def by (metis unique_upsertLease)

lemma lease_step_cases:
  obtains "lease_step sv e db = db"
  | v where "lease_outcome (event_now e) (case e of EvAcquire _ _ p \<Rightarrow> trim_space (lp_Owner p)
       | EvRenew _ _ p \<Rightarrow> trim_space (lp_Owner p) | EvExpire _ _ _ \<Rightarrow> []) db v (lease_step sv e db)" "\<forall>f n p. e \<noteq> EvExpire f n p"
  | flt s evs where "expireLoop flt 0 (event_now e) (listExpiredActionLeases db s (event_now e)) db = (Inr evs, lease_step sv e db)"
proof (cases e)
  case (EvAcquire f n p)
  then show ?thesis
    using Acquire_err [of f sv n p db] Acquire_outcome [of f sv n p db] that(1,2)
    by (cases "AcquireActionLease f sv n p db"; cases "fst (AcquireActionLease f sv n p db)") auto
next
  case (EvRenew f n p)
  then show ?thesis
    using Renew_err [of f sv n p db] Renew_outcome [of f sv n p db] that(1,2)
    by (cases "RenewActionLease f sv n p db"; cases "fst (RenewActionLease f sv n p db)") auto
next
  case (EvExpire f n p)
  obtain r db' where c: "ExpireActionLeases f sv n p db = (r, db')" by fastforce
  show ?thesis
  proof (cases r)
    case (Inl x)
    with c EvExpire Expire_err [of f sv n p db x db'] that(1) show ?thesis by simp
  next
    case (Inr v)
    from c [unfolded Inr] obtain s evs where
      "expireLoop f 0 n (listExpiredActionLeases db s n) db = (Inr evs, db')" by (rule Expire_ok)
    with c EvExpire that(3) [of f s evs] show ?thesis by simp
  qed
qed

lemma tfind_lease_tdelete:
  "tfind ls_key k (tdelete (\<lambda>r. ls_key r \<in> K) t) = (if k \<in> K then None else tfind ls_key k t)"
  by (induction t) (auto simp: tdelete_def)

lemma expired_deleted:
  assumes "expireLoop flt 0 now (listExpiredActionLeases db s now) db = (Inr evs, db')"
  shows "leases db' = tdelete (\<lambda>r. ls_key r \<in> ls_key ` {l \<in> set (leases db).
             ScopedAction (scope_key s) (ls_key l) \<and> ls_ExpiresAt l \<le> now}) (leases db)"
  using expireLoop_ok [OF assms] by (simp add: listExpiredActionLeases_def)

lemma getActionLease_expired:
  assumes "expireLoop flt 0 now (listExpiredActionLeases db s now) db = (Inr evs, db')"
    and inv: "unique_keys ls_key (leases db)"
  shows "getActionLease db' k = (case getActionLease db k of None \<Rightarrow> None
     | Some l \<Rightarrow> if ScopedAction (scope_key s) k \<and> ls_ExpiresAt l \<le> now then None else Some l)"
proof (cases "getActionLease db k")
  case None
  then show ?thesis
    by (simp add: getActionLease_def expired_deleted [OF assms(1)] tfind_lease_tdelete)
next
  case (Some l)
  then have l: "l \<in> set (leases db)" "ls_key l = k" by (auto simp: getActionLease_def dest: tfind_Some)
  have "k \<in> ls_key ` {l \<in> set (leases db). ScopedAction (scope_key s) (ls_key l) \<and> ls_ExpiresAt l \<le> now}
      \<longleftrightarrow> ScopedAction (scope_key s) k \<and> ls_ExpiresAt l \<le> now"
    using l tfind_unique [OF inv] by (auto, metis option.inject)
  with Some show ?thesis
    by (simp add: getActionLease_def expired_deleted [OF assms(1)] tfind_lease_tdelete)
qed

lemma lease_step_inv: "lease_inv db \<Longrightarrow> lease_inv (lease_step sv e db) \<and> extends (laudit db) (laudit (lease_step sv e db))"
proof (cases rule: lease_step_cases [of sv e db])
  case (3 f s evs)
  assume "lease_inv db"
  with expireLoop_ok [OF 3] show ?thesis by (simp add: lease_inv_def)
qed (auto dest: lease_outcome_inv)

interpretation lease_machine: logged_machine "lease_step sv" lease_inv laudit for sv
  by unfold_locales (use lease_step_inv in auto)

text \<open>No call touches the graph, and a lease it writes is of an action the graph has.\<close>

lemma lease_step_graph: "lgraph (lease_step sv e db) = lgraph db"
proof (cases rule: lease_step_cases [of sv e db])
  case (2 v)
  then show ?thesis unfolding lease_outcome_def using outcome_db [of v "lease_step sv e db"] by blast
next
  case (3 f s evs)
  then show ?thesis using expireLoop_ok by blast
qed simp

lemma lease_step_rows:
  assumes "l \<in> set (leases (lease_step sv e db))"
  shows "l \<in> set (leases db) \<or> actionExists db (ls_key l)"
proof (cases rule: lease_step_cases [of sv e db])
  case (2 v)
  then consider "leases (lease_step sv e db) = leases db"
    | m where "leases (lease_step sv e db) = leases (upsertActionLease m db)" "actionExists db (ls_key m)"
    unfolding lease_outcome_def using outcome_db [of v "lease_step sv e db"] by blast
  then show ?thesis
    using assms lease_rows.upsert_rows by cases (auto simp: upsertActionLease_def)
next
  case (3 f s evs)
  with assms expireLoop_ok [OF 3] show ?thesis by simp
qed (use assms in simp)

text \<open>A live lease survives every call that is not its owner's.\<close>

lemma outcome_keeps_live:
  assumes o: "lease_outcome now a db v db'" and l: "getActionLease db k = Some l"
    and live: "now < ls_ExpiresAt l" and a: "a \<noteq> ls_Owner l"
  shows "getActionLease db' k = Some l"
proof -
  have same: "getActionLease db' k = Some l" if "leases db' = leases db"
    using that l by (simp add: getActionLease_def)
  from o consider "leases db' = leases db"
    | d r m where "(v, db') = grant now d r m db" "ls_Owner m = a" "\<not> held_by_other now a (getActionLease db (ls_key m))"
    unfolding lease_outcome_def using outcome_db(1,2) by metis
  then show ?thesis
  proof cases
    case 2
    have "ls_key m \<noteq> k"
      using 2(3) l live a by (auto simp: held_by_other_def)
    moreover have "getActionLease db' k = getActionLease (upsertActionLease m db) k"
      using outcome_db(3) [OF 2(1)] by (simp add: getActionLease_def)
    ultimately show ?thesis using l by (simp add: getActionLease_upsert)
  qed (use same in simp)
qed

lemma step_keeps_live:
  assumes "lease_inv db" "getActionLease db k = Some l" "event_now e < ls_ExpiresAt l" "foreign (ls_Owner l) e"
  shows "getActionLease (lease_step sv e db) k = Some l"
proof (cases rule: lease_step_cases [of sv e db])
  case (2 v)
  then show ?thesis
    using outcome_keeps_live [OF 2(1) assms(2,3)] assms(4) by (cases e) auto
next
  case (3 f s evs)
  show ?thesis using getActionLease_expired [OF 3] assms(1-3) by (simp add: lease_inv_def)
qed (use assms in simp)

section \<open>Correctness of the leases\<close>

text \<open>
  C1. Mutual exclusion: while a stored lease has not expired, no sequence of acquire, renew and
  expire calls other than its owner's, whatever their scopes, faults and clock readings before
  the expiry, changes or removes it, and an acquire or a renew of the same action by anybody
  else that returns a result is denied with that lease as the holder.
\<close>

theorem lease_exclusive:
  assumes inv: "lease_inv db" and l: "getActionLease db k = Some l"
    and es: "\<forall>e \<in> set es. foreign (ls_Owner l) e \<and> event_now e < ls_ExpiresAt l"
    and n: "normalizeActionLeaseParams sv p = Inr n" "ls_key n = k" "ls_Owner n \<noteq> ls_Owner l" "now < ls_ExpiresAt l"
    and c: "AcquireActionLease flt sv now p (fold (lease_step sv) es db) = (Inr v, db')
      \<or> RenewActionLease flt sv now p (fold (lease_step sv) es db) = (Inr v, db')"
  shows "getActionLease (fold (lease_step sv) es db) k = Some l
    \<and> \<not> lr_Acquired v \<and> lr_Decision v = ActionLeaseDecisionHeldByOther \<and> lr_Lease v = l
    \<and> getActionLease db' k = Some l"
proof -
  have held: "getActionLease (fold (lease_step sv) es db) k = Some l"
    using inv l es
  proof (induction es arbitrary: db)
    case (Cons e es)
    have "getActionLease (lease_step sv e db) k = Some l"
      using Cons.prems by (intro step_keeps_live) auto
    with Cons show ?case by (auto dest: lease_step_inv)
  qed simp
  let ?d = "fold (lease_step sv) es db"
  have "(v, db') = denial now (ls_Owner n) l ?d"
    using c
  proof
    assume "AcquireActionLease flt sv now p ?d = (Inr v, db')"
    then show ?thesis
      by (rule Acquire_ok) (use n held in \<open>auto simp: held_by_other_def\<close>)
  next
    assume "RenewActionLease flt sv now p ?d = (Inr v, db')"
    then show ?thesis by (rule Renew_ok) (use n held in \<open>auto split: if_splits\<close>)
  qed
  with held show ?thesis
    by (auto simp: denial_def logged_def)
qed

text \<open>
  The audit log is complete: a run of calls never removes or rewrites an entry, and an
  acquire or a renew that returns a result has appended exactly one entry, whose id is the one
  in the result and which names the caller, the decision, the clock reading and the lease
  decided on; that id was not used before.
\<close>

theorem lease_audit_complete:
  assumes inv: "lease_inv db"
    and c: "AcquireActionLease flt sv now p (fold (lease_step sv) es db) = (Inr v, db')
      \<or> RenewActionLease flt sv now p (fold (lease_step sv) es db) = (Inr v, db')"
  shows "extends (laudit db) (laudit (fold (lease_step sv) es db)) \<and>
    (\<exists>row. arows (laudit db') = arows (laudit (fold (lease_step sv) es db)) @ [(lr_AuditID v, row)]
        \<and> lr_AuditID v \<notin> fst ` set (arows (laudit (fold (lease_step sv) es db)))
        \<and> au_Actor row = trim_space (lp_Owner p) \<and> au_Decision row = lr_Decision v
        \<and> au_CreatedAt row = now \<and> au_key row = ls_key (lr_Lease v)
        \<and> au_ExpiresAt row = ls_ExpiresAt (lr_Lease v))"
proof -
  let ?d = "fold (lease_step sv) es db"
  have o: "lease_outcome now (trim_space (lp_Owner p)) ?d v db'"
    using c Acquire_outcome Renew_outcome by blast
  obtain r where r: "arows (laudit db') = arows (laudit ?d) @
      [(lr_AuditID v, auditRow (lr_Lease v) (trim_space (lp_Owner p)) (lr_Decision v) r now)]"
    using o outcome_audit [of v db'] unfolding lease_outcome_def by metis
  have "awf (laudit db')"
    using lease_outcome_inv [OF o lease_machine.run_inv [OF inv]] by (simp add: lease_inv_def)
  with r have "lr_AuditID v \<notin> fst ` set (arows (laudit ?d))" by (auto simp: awf_def)
  with r lease_machine.run_log [OF inv] show ?thesis by (auto simp: auditRow_def)
qed

text \<open>
  A granted lease is the stored one: it belongs to the caller, names an existing action, and
  expires exactly \<open>TTL\<close> after the clock reading, strictly in the future and within \<open>int64\<close>; the
  previous lease of that action was absent, expired or the caller's own.
\<close>

theorem lease_grant_correct:
  assumes c: "AcquireActionLease flt sv now p db = (Inr v, db') \<or> RenewActionLease flt sv now p db = (Inr v, db')"
    and g: "lr_Acquired v"
  shows "getActionLease db' (ls_key (lr_Lease v)) = Some (lr_Lease v)
    \<and> ls_Owner (lr_Lease v) = trim_space (lp_Owner p)
    \<and> ls_ExpiresAt (lr_Lease v) = now + lp_TTL p \<and> now < ls_ExpiresAt (lr_Lease v)
    \<and> ls_ExpiresAt (lr_Lease v) \<le> max_int64
    \<and> actionExists db (ls_key (lr_Lease v))
    \<and> (\<forall>e. getActionLease db (ls_key (lr_Lease v)) = Some e \<longrightarrow>
          ls_ExpiresAt e \<le> now \<or> ls_Owner e = ls_Owner (lr_Lease v))"
proof -
  have x: "x = now + lp_TTL p \<and> now < x \<and> x \<le> max_int64" if "actionLeaseExpiresAt now (lp_TTL p) = Inr x" for x
    using that by (auto simp: actionLeaseExpiresAt_def split: if_splits)
  have gr: "getActionLease db' (ls_key l) = Some l \<and> lr_Lease v = l" if "(v, db') = grant now d r l db" for d r l
    using that outcome_db(3) [OF that] getActionLease_upsert [of l db "ls_key l"]
    by (simp add: grant_def logged_def getActionLease_def)
  from c show ?thesis
  proof
    assume "AcquireActionLease flt sv now p db = (Inr v, db')"
    then show ?thesis
    proof (rule Acquire_ok)
      fix n y
      assume n: "normalizeActionLeaseParams sv p = Inr n" and y: "actionLeaseExpiresAt now (lp_TTL p) = Inr y"
        and ex: "actionExists db (ls_key n)"
        and o: "(v, db') = (let existing = getActionLease db (ls_key n) in
          if held_by_other now (ls_Owner n) existing then denial now (ls_Owner n) (the existing) db
          else grant now ActionLeaseDecisionAcquired ''lease acquired'' (acquired_lease now y existing n) db)"
      have nh: "\<not> held_by_other now (ls_Owner n) (getActionLease db (ls_key n))"
        using o g by (auto simp: Let_def denial_def logged_def split: if_splits)
      then have gg: "(v, db') = grant now ActionLeaseDecisionAcquired ''lease acquired''
          (acquired_lease now y (getActionLease db (ls_key n)) n) db" using o by (simp add: Let_def)
      have "lr_Lease v = acquired_lease now y (getActionLease db (ls_key n)) n"
        "getActionLease db' (ls_key (lr_Lease v)) = Some (lr_Lease v)" using gr [OF gg] by simp_all
      with x [OF y] ex nh normalizeActionLeaseParams_ok [OF n] show ?thesis
        by (auto simp: held_by_other_def split: option.splits)
    qed
  next
    assume "RenewActionLease flt sv now p db = (Inr v, db')"
    then show ?thesis
    proof (rule Renew_ok)
      fix n
      assume n: "normalizeActionLeaseParams sv p = Inr n" and ex: "actionExists db (ls_key n)"
        and o: "(case getActionLease db (ls_key n) of
            None \<Rightarrow> (v, db') = miss now n db
          | Some e \<Rightarrow>
              if ls_ExpiresAt e \<le> now then (v, db') = miss now n db
              else if ls_Owner e \<noteq> ls_Owner n then (v, db') = denial now (ls_Owner n) e db
              else \<exists>x. actionLeaseExpiresAt now (lp_TTL p) = Inr x \<and>
                (v, db') = grant now ActionLeaseDecisionRenewed ''lease renewed'' (e\<lparr>ls_RenewedAt := now, ls_ExpiresAt := x\<rparr>) db)"
      have nm: "(v, db') \<noteq> miss now n db" "(v, db') \<noteq> denial now (ls_Owner n) e db" for e
        using g by (auto simp: miss_def denial_def logged_def)
      from o nm obtain e y where e: "getActionLease db (ls_key n) = Some e" "ls_Owner e = ls_Owner n"
        and y: "actionLeaseExpiresAt now (lp_TTL p) = Inr y"
        and gg: "(v, db') = grant now ActionLeaseDecisionRenewed ''lease renewed'' (e\<lparr>ls_RenewedAt := now, ls_ExpiresAt := y\<rparr>) db"
        by (auto split: option.splits if_splits)
      have "ls_key e = ls_key n" by (rule getActionLease_key [OF e(1)])
      with gr [OF gg] x [OF y] e ex normalizeActionLeaseParams_ok [OF n] show ?thesis by auto
    qed
  qed
qed

text \<open>
  Expiry is exact: a successful \<open>ExpireActionLeases\<close> removes the leases of the given scope
  whose expiry is not after the clock reading and no others, and reports and logs one event per
  removed lease, with the former owner as the actor.
\<close>

theorem expire_exact:
  assumes inv: "lease_inv db" and c: "ExpireActionLeases flt sv now q db = (Inr v, db')"
  shows "\<exists>s :: ActionScope. normalizeActionLeaseExpireParams sv q = Inr s
    \<and> (\<forall>k. getActionLease db' k = (case getActionLease db k of None \<Rightarrow> None
         | Some l \<Rightarrow> if ScopedAction (scope_key s) k \<and> ls_ExpiresAt l \<le> now then None else Some l))
    \<and> arows (laudit db') = arows (laudit db) @ lx_Events v
    \<and> lx_ExpiredCount v = int (length (leases db)) - int (length (leases db'))
    \<and> (\<forall>(i, r) \<in> set (lx_Events v). \<exists>l. getActionLease db (au_key r) = Some l \<and> ls_ExpiresAt l \<le> now
         \<and> au_Actor r = ls_Owner l \<and> au_Decision r = ActionLeaseDecisionExpired \<and> au_CreatedAt r = now)"
  using c
proof (rule Expire_ok)
  fix s :: ActionScope and evs
  let ?P = "\<lambda>l. ScopedAction (scope_key s) (ls_key l) \<and> ls_ExpiresAt l \<le> now"
  let ?row = "\<lambda>l. auditRow l (ls_Owner l) ActionLeaseDecisionExpired ''lease expired'' now"
  assume s: "normalizeActionLeaseExpireParams sv q = Inr s"
    and e: "expireLoop flt 0 now (listExpiredActionLeases db s now) db = (Inr evs, db')"
    and v: "v = \<lparr>lx_ExpiredCount = int (length evs), lx_Events = evs\<rparr>"
  have u: "unique_keys ls_key (leases db)" using inv by (simp add: lease_inv_def)
  have m: "map snd evs = map ?row (order_asc (\<lambda>l. (ls_ExpiresAt l, ActionID (ls_scope l))) (filter ?P (leases db)))"
    using expireLoop_ok [OF e] by (simp add: listExpiredActionLeases_def)
  have len: "length evs = length (filter ?P (leases db))"
    using arg_cong [OF m, of length] by simp
  have "ls_key r \<in> ls_key ` {l \<in> set (leases db). ?P l} \<longleftrightarrow> ?P r" if "r \<in> set (leases db)" for r
  proof
    assume "ls_key r \<in> ls_key ` {l \<in> set (leases db). ?P l}"
    then obtain l where l: "l \<in> set (leases db)" "?P l" "ls_key r = ls_key l" by auto
    from unique_keys_eq [OF u that l(1,3)] l(2) show "?P r" by (rule ssubst)
  qed (rule image_eqI [OF refl], use that in simp)
  then have "leases db' = filter (\<lambda>l. \<not> ?P l) (leases db)"
    by (auto simp: expired_deleted [OF e] tdelete_def intro!: filter_cong)
  then have cnt: "int (length evs) = int (length (leases db)) - int (length (leases db'))"
    using sum_length_filter_compl [of ?P "leases db"] len by simp
  have ev: "\<exists>l. getActionLease db (au_key r) = Some l \<and> ls_ExpiresAt l \<le> now
         \<and> au_Actor r = ls_Owner l \<and> au_Decision r = ActionLeaseDecisionExpired \<and> au_CreatedAt r = now"
    if "(i, r) \<in> set evs" for i r
  proof -
    have "r \<in> set (map snd evs)" using that by force
    then obtain l where l: "l \<in> set (leases db)" "?P l" "r = ?row l" unfolding m by auto
    then show ?thesis using tfind_unique [OF u l(1)] by (auto simp: getActionLease_def auditRow_def)
  qed
  show ?thesis
    using s getActionLease_expired [OF e u] expireLoop_ok [OF e] cnt ev by (auto simp: v)
qed

section \<open>A sample run\<close>

definition demo_sv :: lease_service where
  "demo_sv = \<lparr>sv_workspaceID = ''w'', sv_serverMode = ''team-enabled'', sv_ulow = (\<lambda>s. s)\<rparr>"

definition demo_lp :: "string \<Rightarrow> int \<Rightarrow> ActionLeaseParams" where
  "demo_lp owner ttl = \<lparr>lp_WorkspaceID = [], lp_ProfileID = ''p'', lp_Peer = ''bob'', lp_ActionID = ''a'',
     lp_Owner = owner, lp_TTL = ttl\<rparr>"

definition demo_le :: ActionLeaseExpireParams where
  "demo_le = \<lparr>le_WorkspaceID = [], le_ProfileID = ''p'', le_Peer = ''bob'', le_ActionID = []\<rparr>"

definition demo_leases0 :: lease_db where
  "demo_leases0 = \<lparr>lgraph = demo_db, leases = [], laudit = aempty\<rparr>"

text \<open>At time 10, \<open>ann\<close> takes action \<open>a\<close> for 100.\<close>

definition demo_leases :: lease_db where
  "demo_leases = lease_step demo_sv (EvAcquire (\<lambda>_. False) 10 (demo_lp '' ann'' 100)) demo_leases0"

lemma demo_leases_inv: "lease_inv demo_leases"
proof -
  have "lease_inv demo_leases0" by (simp add: lease_inv_def demo_leases0_def)
  then show ?thesis unfolding demo_leases_def using lease_step_inv by blast
qed

definition demo_key :: scope_key where
  "demo_key = (''w'', ''p'', ''bob'', ''a'')"

definition demo_lease :: ActionLease where
  "demo_lease = \<lparr>ls_scope = actionscope_Normalize [] ''w'' ''p'' ''bob'' ''a'', ls_Owner = ''ann'',
     ls_AcquiredAt = 10, ls_RenewedAt = 10, ls_ExpiresAt = 110\<rparr>"

lemma demo_lease_stored: "getActionLease demo_leases demo_key = Some demo_lease"
  by code_simp

theorem lease_exclusive_witness:
  "\<exists>v db'. AcquireActionLease (\<lambda>_. False) demo_sv 50 (demo_lp ''eve'' 5)
       (fold (lease_step demo_sv) [EvRenew (\<lambda>_. False) 20 (demo_lp ''eve'' 9), EvExpire (\<lambda>_. False) 30 demo_le] demo_leases)
     = (Inr v, db') \<and> \<not> lr_Acquired v \<and> lr_Lease v = demo_lease"
proof -
  let ?es = "[EvRenew (\<lambda>_. False) 20 (demo_lp ''eve'' 9), EvExpire (\<lambda>_. False) 30 demo_le]"
  let ?c = "AcquireActionLease (\<lambda>_. False) demo_sv 50 (demo_lp ''eve'' 5) (fold (lease_step demo_sv) ?es demo_leases)"
  have es: "\<forall>e \<in> set ?es. foreign (ls_Owner demo_lease) e \<and> event_now e < ls_ExpiresAt demo_lease" by code_simp
  have "map_sum id (\<lambda>n. (ls_key n, ls_Owner n)) (normalizeActionLeaseParams demo_sv (demo_lp ''eve'' 5))
      = Inr (demo_key, ''eve'')" by code_simp
  then obtain n where n: "normalizeActionLeaseParams demo_sv (demo_lp ''eve'' 5) = Inr n"
    "ls_key n = demo_key" "ls_Owner n = ''eve''"
    by (cases "normalizeActionLeaseParams demo_sv (demo_lp ''eve'' 5)") auto
  have "ls_Owner n \<noteq> ls_Owner demo_lease" "50 < ls_ExpiresAt demo_lease" using n by (simp_all add: demo_lease_def)
  note n' = n(1,2) this
  have "is_ok (fst ?c)" by code_simp
  then obtain v db' where c: "?c = (Inr v, db')" by (cases ?c) (auto simp: is_ok_iff)
  show ?thesis
    using lease_exclusive [OF demo_leases_inv demo_lease_stored es n' disjI1 [OF c]] c by blast
qed

theorem lease_audit_complete_witness:
  "\<exists>v db'. RenewActionLease (\<lambda>_. False) demo_sv 50 (demo_lp ''eve'' 5) (fold (lease_step demo_sv) [] demo_leases) = (Inr v, db')
    \<and> extends (laudit demo_leases) (laudit (fold (lease_step demo_sv) [] demo_leases))
    \<and> length (arows (laudit db')) = 2"
proof -
  let ?c = "RenewActionLease (\<lambda>_. False) demo_sv 50 (demo_lp ''eve'' 5) (fold (lease_step demo_sv) [] demo_leases)"
  have "is_ok (fst ?c)" by code_simp
  then obtain v db' where c: "?c = (Inr v, db')" by (cases ?c) (auto simp: is_ok_iff)
  have "length (arows (laudit demo_leases)) = 1" by code_simp
  with lease_audit_complete [OF demo_leases_inv disjI2 [OF c]] c show ?thesis by auto
qed

theorem lease_grant_correct_witness:
  "\<exists>v db'. AcquireActionLease (\<lambda>_. False) demo_sv 110 (demo_lp ''eve'' 5) demo_leases = (Inr v, db')
    \<and> ls_ExpiresAt (lr_Lease v) = 115 \<and> ls_Owner (lr_Lease v) = ''eve''"
proof -
  let ?c = "AcquireActionLease (\<lambda>_. False) demo_sv 110 (demo_lp ''eve'' 5) demo_leases"
  have "(case fst ?c of Inl _ \<Rightarrow> False | Inr v \<Rightarrow> lr_Acquired v)" by code_simp
  then obtain v db' where c: "?c = (Inr v, db')" "lr_Acquired v" by (cases ?c; cases "fst ?c") auto
  have t: "trim_space (lp_Owner (demo_lp ''eve'' 5)) = ''eve''" by code_simp
  from lease_grant_correct [OF disjI1 [OF c(1)] c(2)] c(1) t show ?thesis by (auto simp: demo_lp_def)
qed

theorem expire_exact_witness:
  "\<exists>v db'. ExpireActionLeases (\<lambda>_. False) demo_sv 110 demo_le demo_leases = (Inr v, db')
    \<and> lx_ExpiredCount v = 1 - int (length (leases db')) \<and> getActionLease db' demo_key = None"
proof -
  let ?c = "ExpireActionLeases (\<lambda>_. False) demo_sv 110 demo_le demo_leases"
  have "is_ok (fst ?c)" by code_simp
  then obtain v db' where c: "?c = (Inr v, db')" by (cases ?c) (auto simp: is_ok_iff)
  have "map_sum id scope_key (normalizeActionLeaseExpireParams demo_sv demo_le)
      = Inr (''w'', ''p'', ''bob'', [])" by code_simp
  then obtain s where s: "normalizeActionLeaseExpireParams demo_sv demo_le = Inr s" "scope_key s = (''w'', ''p'', ''bob'', [])"
    by (cases "normalizeActionLeaseExpireParams demo_sv demo_le") auto
  have k: "ScopedAction (''w'', ''p'', ''bob'', []) demo_key" by code_simp
  have l: "length (leases demo_leases) = 1" by code_simp
  have x: "ls_ExpiresAt demo_lease = 110" by (simp add: demo_lease_def)
  from expire_exact [OF demo_leases_inv c] obtain s' where s': "normalizeActionLeaseExpireParams demo_sv demo_le = Inr s'"
    and g: "\<forall>k. getActionLease db' k = (case getActionLease demo_leases k of None \<Rightarrow> None
         | Some l \<Rightarrow> if ScopedAction (scope_key s') k \<and> ls_ExpiresAt l \<le> 110 then None else Some l)"
    and n: "lx_ExpiredCount v = int (length (leases demo_leases)) - int (length (leases db'))" by blast
  have "s' = s" using s(1) s' by simp
  with g [rule_format, of demo_key] s k x demo_lease_stored have "getActionLease db' demo_key = None" by simp
  with c n l show ?thesis by auto
qed

end
