(* ===== verification/ActionReceipts.thy ===== *)
theory ActionReceipts
  imports ActionGraph
begin

text \<open>
  The signal receipts of \<open>service/action_signal_receipts.go\<close>: an actor records that it has read a
  signal; a reader from another workspace or profile is denied, and both decisions are written to an
  audit table.  The receipts live in the action tables (\<open>receipts\<close> of \<open>action_db\<close>, which
  \<open>ReadActionGraph\<close> lists with each signal); the audit table is \<open>raudit\<close>.  The statements are not in
  one transaction: a fault keeps the effect of the statements before it.  Receipts are never deleted, so the
  row id that AUTOINCREMENT gives a new one is above every id of the table (\<open>nextReceiptID\<close>); \<open>gap\<close> is the
  number of ids that were used up by statements that stored no row.
\<close>

section \<open>Tables and values\<close>

datatype ActionSignalReceiptDecision = ActionSignalReceiptDecisionAllowed | ActionSignalReceiptDecisionDenied

record ActionSignalReceiptParams =
  rp_WorkspaceID :: string
  rp_ProfileID :: string
  rp_Peer :: string
  rp_ActionID :: string
  rp_SignalID :: int
  rp_Actor :: string
  rp_ActorWorkspaceID :: string
  rp_ActorProfileID :: string

record ActionSignalReceiptQuery =
  rqy_WorkspaceID :: string
  rqy_ProfileID :: string
  rqy_Peer :: string
  rqy_ActionID :: string
  rqy_SignalID :: int
  rqy_Limit :: int

record ActionSignalReceiptAuditEvent =
  ra_key :: scope_key
  ra_SignalID :: int
  ra_Actor :: string
  ra_ActorWorkspaceID :: string
  ra_ActorProfileID :: string
  ra_Decision :: ActionSignalReceiptDecision
  ra_Reason :: string
  ra_CreatedAt :: int

record ActionSignalReceiptResult =
  rr_Authorized :: bool
  rr_Decision :: ActionSignalReceiptDecision
  rr_Receipt :: "ActionSignalReceipt option"
  rr_Reason :: string
  rr_AuditID :: int

record receipt_db =
  rgraph :: action_db
  raudit :: "ActionSignalReceiptAuditEvent atable"

datatype receipt_site = RcCheckSignal | RcUpsert | RcResolve | RcAudit | RcList

datatype receipt_error = ReceiptInvalid string | ReceiptNoSignal | ReceiptDb receipt_site

text \<open>The unique constraint of the receipts: one per reader and signal.\<close>

definition rc_unique :: "ActionSignalReceipt \<Rightarrow> scope_key \<times> int \<times> string" where
  "rc_unique r = (rc_key r, rc_SignalID r, rc_Actor r)"

section \<open>Normalisation\<close>

definition normalizeActionSignalReceiptParams :: "string \<Rightarrow> ActionSignalReceiptParams
    \<Rightarrow> receipt_error + (ActionScope \<times> ActionSignalReceipt)" where
  "normalizeActionSignalReceiptParams svcWs p =
     (let msg = ''action signal receipt workspace_id, peer, action_id, signal_id, and actor are required'' in
      case normalizeScopedAction svcWs (rp_WorkspaceID p) (rp_ProfileID p) (rp_Peer p) (rp_ActionID p) msg True of
        Inl e \<Rightarrow> Inl (ReceiptInvalid e)
      | Inr action \<Rightarrow>
          let actor = trim_space (rp_Actor p) in
          if rp_SignalID p = 0 \<or> actor = [] then Inl (ReceiptInvalid msg)
          else Inr (action, \<lparr>rc_ID = 0, rc_key = scope_key action, rc_SignalID = rp_SignalID p, rc_Actor = actor, rc_ReadAt = 0\<rparr>))"

definition normalizeActionSignalReceiptQuery :: "string \<Rightarrow> ActionSignalReceiptQuery \<Rightarrow> receipt_error + (scope_key \<times> int)" where
  "normalizeActionSignalReceiptQuery svcWs q =
     (case normalizeScopedAction svcWs (rqy_WorkspaceID q) (rqy_ProfileID q) (rqy_Peer q) (rqy_ActionID q)
             ''action signal receipt query workspace_id, peer, and action_id are required'' True of
        Inl e \<Rightarrow> Inl (ReceiptInvalid e) | Inr action \<Rightarrow> Inr (scope_key action, rqy_SignalID q))"

definition normalizeActionSignalReceiptAuditQuery :: "string \<Rightarrow> ActionSignalReceiptQuery \<Rightarrow> receipt_error + (scope_key \<times> int)" where
  "normalizeActionSignalReceiptAuditQuery svcWs q =
     (case normalizeScopedAction svcWs (rqy_WorkspaceID q) (rqy_ProfileID q) (rqy_Peer q) (rqy_ActionID q)
             ''action signal receipt audit workspace_id and peer are required'' False of
        Inl e \<Rightarrow> Inl (ReceiptInvalid e) | Inr action \<Rightarrow> Inr (scope_key action, rqy_SignalID q))"

section \<open>Statements\<close>

definition ensureActionSignalExists :: "action_db \<Rightarrow> ActionSignalReceipt \<Rightarrow> bool" where
  "ensureActionSignalExists db r \<longleftrightarrow> list_ex (\<lambda>(i, row). i = rc_SignalID r \<and> sr_key row = rc_key r) (arows (signals db))"

definition set_receipt :: "ActionSignalReceipt \<Rightarrow> ActionSignalReceipt \<Rightarrow> ActionSignalReceipt" where
  "set_receipt old new = old\<lparr>rc_ReadAt := rc_ReadAt new\<rparr>"

definition upsertReceipt :: "ActionSignalReceipt \<Rightarrow> action_db \<Rightarrow> action_db" where
  "upsertReceipt r db = db\<lparr>receipts := tupsert rc_unique set_receipt r (receipts db)\<rparr>"

definition resolveActionSignalReceiptID :: "action_db \<Rightarrow> ActionSignalReceipt \<Rightarrow> int option" where
  "resolveActionSignalReceiptID db r = map_option rc_ID (tfind rc_unique (rc_unique r) (receipts db))"

definition insertActionSignalReceiptAudit :: "ActionSignalReceipt \<Rightarrow> ActorScope \<Rightarrow> ActionSignalReceiptDecision \<Rightarrow> string \<Rightarrow> int
    \<Rightarrow> receipt_db \<Rightarrow> int \<times> receipt_db" where
  "insertActionSignalReceiptAudit r actor decision reason now db =
     (let (i, t) = ainsert \<lparr>ra_key = rc_key r, ra_SignalID = rc_SignalID r, ra_Actor = rc_Actor r,
            ra_ActorWorkspaceID = ActorWorkspaceID actor, ra_ActorProfileID = ActorProfileID actor,
            ra_Decision = decision, ra_Reason = reason, ra_CreatedAt = now\<rparr> (raudit db)
      in (i, db\<lparr>raudit := t\<rparr>))"

definition listActionSignalReceiptsFiltered :: "action_db \<Rightarrow> scope_key \<Rightarrow> int \<Rightarrow> int \<Rightarrow> ActionSignalReceipt list" where
  "listActionSignalReceiptsFiltered db k signalID limit =
     take (nat limit) (order_asc (\<lambda>r. (rc_ReadAt r, rc_ID r))
       (filter (\<lambda>r. rc_key r = k \<and> (signalID \<noteq> 0 \<longrightarrow> rc_SignalID r = signalID)) (receipts db)))"

section \<open>Operations\<close>

definition nextReceiptID :: "nat \<Rightarrow> action_db \<Rightarrow> int" where
  "nextReceiptID gap g = fold max (map rc_ID (receipts g)) 0 + 1 + int gap"

text \<open>\<open>now\<close> and \<open>auditNow\<close> are the clock readings of the receipt and of the audit entry.\<close>

definition RecordActionSignalReceipt :: "(receipt_site \<Rightarrow> bool) \<Rightarrow> (string \<Rightarrow> string) \<Rightarrow> string \<Rightarrow> nat \<Rightarrow> int \<Rightarrow> int
    \<Rightarrow> ActionSignalReceiptParams \<Rightarrow> receipt_db \<Rightarrow> (receipt_error + ActionSignalReceiptResult) \<times> receipt_db" where
  "RecordActionSignalReceipt flt uquote svcWs gap now auditNow params db =
     (case normalizeActionSignalReceiptParams svcWs params of
        Inl e \<Rightarrow> (Inl e, db)
      | Inr (scope, norm) \<Rightarrow>
          let actorScope = NormalizeActorScope (rp_ActorWorkspaceID params) (rp_ActorProfileID params) (WorkspaceID scope) in
          if \<not> SameScope actorScope (WorkspaceID scope) (ProfileID scope) then
            (let reason = DeniedReadReason uquote actorScope ''signal'' (WorkspaceID scope) (ProfileID scope) in
             if flt RcAudit then (Inl (ReceiptDb RcAudit), db)
             else let (auditID, db') = insertActionSignalReceiptAudit norm actorScope ActionSignalReceiptDecisionDenied reason auditNow db in
               (Inr \<lparr>rr_Authorized = False, rr_Decision = ActionSignalReceiptDecisionDenied, rr_Receipt = None,
                     rr_Reason = reason, rr_AuditID = auditID\<rparr>, db'))
          else if flt RcCheckSignal then (Inl (ReceiptDb RcCheckSignal), db)
          else if \<not> ensureActionSignalExists (rgraph db) norm then (Inl ReceiptNoSignal, db)
          else if flt RcUpsert then (Inl (ReceiptDb RcUpsert), db)
          else
            let g = upsertReceipt (norm\<lparr>rc_ID := nextReceiptID gap (rgraph db), rc_ReadAt := now\<rparr>) (rgraph db); db1 = db\<lparr>rgraph := g\<rparr> in
            if flt RcResolve then (Inl (ReceiptDb RcResolve), db1)
            else case resolveActionSignalReceiptID g norm of
              None \<Rightarrow> (Inl (ReceiptDb RcResolve), db1)
            | Some i \<Rightarrow>
                if flt RcAudit then (Inl (ReceiptDb RcAudit), db1)
                else let (auditID, db2) = insertActionSignalReceiptAudit norm actorScope ActionSignalReceiptDecisionAllowed
                       ''read receipt recorded'' auditNow db1 in
                  (Inr \<lparr>rr_Authorized = True, rr_Decision = ActionSignalReceiptDecisionAllowed,
                        rr_Receipt = Some (norm\<lparr>rc_ID := i, rc_ReadAt := now\<rparr>), rr_Reason = [], rr_AuditID = auditID\<rparr>, db2))"

definition ListActionSignalReceipts :: "(receipt_site \<Rightarrow> bool) \<Rightarrow> string \<Rightarrow> ActionSignalReceiptQuery \<Rightarrow> receipt_db
    \<Rightarrow> receipt_error + ActionSignalReceipt list" where
  "ListActionSignalReceipts flt svcWs q db =
     (case normalizeActionSignalReceiptQuery svcWs q of
        Inl e \<Rightarrow> Inl e
      | Inr (k, signalID) \<Rightarrow>
          if flt RcList then Inl (ReceiptDb RcList)
          else Inr (listActionSignalReceiptsFiltered (rgraph db) k signalID (DefaultClamped (rqy_Limit q) 100 100)))"

definition ListActionSignalReceiptAudit :: "(receipt_site \<Rightarrow> bool) \<Rightarrow> string \<Rightarrow> ActionSignalReceiptQuery \<Rightarrow> receipt_db
    \<Rightarrow> receipt_error + (int \<times> ActionSignalReceiptAuditEvent) list" where
  "ListActionSignalReceiptAudit flt svcWs q db =
     (case normalizeActionSignalReceiptAuditQuery svcWs q of
        Inl e \<Rightarrow> Inl e
      | Inr (k, signalID) \<Rightarrow>
          if flt RcList then Inl (ReceiptDb RcList)
          else Inr (take (nat (DefaultClamped (rqy_Limit q) 100 100))
            (order_desc (\<lambda>(i, r). (ra_CreatedAt r, i))
              (filter (\<lambda>(i, r). ScopedAction k (ra_key r) \<and> (signalID \<noteq> 0 \<longrightarrow> ra_SignalID r = signalID)) (arows (raudit db))))))"

lemma listReceiptsBySignal_filtered:
  "listReceiptsBySignal db k i = listActionSignalReceiptsFiltered db k i 100"
  by (simp add: listReceiptsBySignal_def listActionSignalReceiptsFiltered_def)

section \<open>What a call does\<close>

interpretation receipt_rows: keyed_table rc_unique set_receipt
  by unfold_locales (simp add: rc_unique_def set_receipt_def)

lemma insert_audit_simps [simp]:
  "rgraph (snd (insertActionSignalReceiptAudit r a d x now db)) = rgraph db"
  "awf (raudit db) \<Longrightarrow> awf (raudit (snd (insertActionSignalReceiptAudit r a d x now db)))"
  "extends (raudit db) (raudit (snd (insertActionSignalReceiptAudit r a d x now db)))"
  "arows (raudit (snd (insertActionSignalReceiptAudit r a d x now db))) = arows (raudit db) @
     [(fst (insertActionSignalReceiptAudit r a d x now db),
       \<lparr>ra_key = rc_key r, ra_SignalID = rc_SignalID r, ra_Actor = rc_Actor r,
        ra_ActorWorkspaceID = ActorWorkspaceID a, ra_ActorProfileID = ActorProfileID a,
        ra_Decision = d, ra_Reason = x, ra_CreatedAt = now\<rparr>)]"
  by (simp_all add: insertActionSignalReceiptAudit_def case_prod_beta)

lemma rc_unique_update [simp]: "rc_unique (r\<lparr>rc_ID := i, rc_ReadAt := t\<rparr>) = rc_unique r"
  by (simp add: rc_unique_def)

lemma upsertReceipt_frame [simp]:
  "actions (upsertReceipt r g) = actions g" "deps (upsertReceipt r g) = deps g" "signals (upsertReceipt r g) = signals g"
  by (simp_all add: upsertReceipt_def)

lemma resolve_upserted:
  "\<exists>i. resolveActionSignalReceiptID (upsertReceipt (n\<lparr>rc_ID := newID, rc_ReadAt := now\<rparr>) g) n = Some i
     \<and> tfind rc_unique (rc_unique n) (receipts (upsertReceipt (n\<lparr>rc_ID := newID, rc_ReadAt := now\<rparr>) g))
         = Some (n\<lparr>rc_ID := i, rc_ReadAt := now\<rparr>)
     \<and> (i = newID \<or> i \<in> rc_ID ` set (receipts g))"
proof -
  let ?n = "n\<lparr>rc_ID := newID, rc_ReadAt := now\<rparr>"
  have u: "rc_unique ?n = rc_unique n" by simp
  show ?thesis
  proof (cases "tfind rc_unique (rc_unique n) (receipts g)")
    case None
    then show ?thesis
      using receipt_rows.find_upsert [of "rc_unique n" ?n "receipts g"] u
      by (simp add: resolveActionSignalReceiptID_def upsertReceipt_def)
  next
    case (Some x)
    then have x: "x \<in> set (receipts g)" "rc_unique x = rc_unique n" by (auto dest: tfind_Some)
    then have "set_receipt x ?n = n\<lparr>rc_ID := rc_ID x, rc_ReadAt := now\<rparr>"
      by (cases x; cases n) (auto simp: set_receipt_def rc_unique_def)
    with Some x(1) show ?thesis
      using receipt_rows.find_upsert [of "rc_unique n" ?n "receipts g"] u
      by (auto simp: resolveActionSignalReceiptID_def upsertReceipt_def)
  qed
qed

text \<open>The five ways a call can end.\<close>

definition actor_of :: "ActionSignalReceiptParams \<Rightarrow> ActionScope \<Rightarrow> ActorScope" where
  "actor_of p s = NormalizeActorScope (rp_ActorWorkspaceID p) (rp_ActorProfileID p) (WorkspaceID s)"

lemma Record_cases:
  assumes "RecordActionSignalReceipt flt uq ws gap now aNow p db = (r, db')"
  obtains e where "r = Inl e" "db' = db"
  | s n v where "r = Inr v" "normalizeActionSignalReceiptParams ws p = Inr (s, n)"
      "\<not> SameScope (actor_of p s) (WorkspaceID s) (ProfileID s)"
      "v = \<lparr>rr_Authorized = False, rr_Decision = ActionSignalReceiptDecisionDenied, rr_Receipt = None,
            rr_Reason = DeniedReadReason uq (actor_of p s) ''signal'' (WorkspaceID s) (ProfileID s), rr_AuditID = rr_AuditID v\<rparr>"
      "(rr_AuditID v, db') = insertActionSignalReceiptAudit n (actor_of p s) ActionSignalReceiptDecisionDenied (rr_Reason v) aNow db"
  | s n e where "r = Inl e" "normalizeActionSignalReceiptParams ws p = Inr (s, n)"
      "SameScope (actor_of p s) (WorkspaceID s) (ProfileID s)" "ensureActionSignalExists (rgraph db) n"
      "db' = db\<lparr>rgraph := upsertReceipt (n\<lparr>rc_ID := nextReceiptID gap (rgraph db), rc_ReadAt := now\<rparr>) (rgraph db)\<rparr>"
  | s n i v where "r = Inr v" "normalizeActionSignalReceiptParams ws p = Inr (s, n)"
      "SameScope (actor_of p s) (WorkspaceID s) (ProfileID s)" "ensureActionSignalExists (rgraph db) n"
      "v = \<lparr>rr_Authorized = True, rr_Decision = ActionSignalReceiptDecisionAllowed,
            rr_Receipt = Some (n\<lparr>rc_ID := i, rc_ReadAt := now\<rparr>), rr_Reason = [], rr_AuditID = rr_AuditID v\<rparr>"
      "resolveActionSignalReceiptID (upsertReceipt (n\<lparr>rc_ID := nextReceiptID gap (rgraph db), rc_ReadAt := now\<rparr>) (rgraph db)) n = Some i"
      "(rr_AuditID v, db') = insertActionSignalReceiptAudit n (actor_of p s) ActionSignalReceiptDecisionAllowed ''read receipt recorded'' aNow
         (db\<lparr>rgraph := upsertReceipt (n\<lparr>rc_ID := nextReceiptID gap (rgraph db), rc_ReadAt := now\<rparr>) (rgraph db)\<rparr>)"
proof (cases "normalizeActionSignalReceiptParams ws p")
  case (Inl e)
  with assms that(1) show ?thesis by (auto simp: RecordActionSignalReceipt_def)
next
  case (Inr sn)
  obtain s n where sn: "sn = (s, n)" by force
  note c = assms [unfolded RecordActionSignalReceipt_def Inr sn Let_def sum.case prod.case, folded actor_of_def]
  show ?thesis
  proof (cases "SameScope (actor_of p s) (WorkspaceID s) (ProfileID s)")
    case False
    then show ?thesis using c that(1) that(2) [OF _ Inr [unfolded sn]]
      by (auto split: if_splits prod.splits)
  next
    case True
    let ?d = "db\<lparr>rgraph := upsertReceipt (n\<lparr>rc_ID := nextReceiptID gap (rgraph db), rc_ReadAt := now\<rparr>) (rgraph db)\<rparr>"
    from resolve_upserted [where n = n and newID = "nextReceiptID gap (rgraph db)" and now = now and g = "rgraph db"] obtain i where
      i: "resolveActionSignalReceiptID (upsertReceipt (n\<lparr>rc_ID := nextReceiptID gap (rgraph db), rc_ReadAt := now\<rparr>) (rgraph db)) n = Some i" by blast
    show ?thesis
    proof (cases "flt RcCheckSignal \<or> \<not> ensureActionSignalExists (rgraph db) n \<or> flt RcUpsert")
      case True
      then show ?thesis using c \<open>SameScope _ _ _\<close> that(1) by (auto split: if_splits)
    next
      case False
      show ?thesis
      proof (cases "flt RcResolve \<or> flt RcAudit")
        case True
        then show ?thesis using c \<open>SameScope _ _ _\<close> False i that(3) [OF _ Inr [unfolded sn]] by (auto split: if_splits)
      next
        case nf: False
        obtain a d where a: "insertActionSignalReceiptAudit n (actor_of p s) ActionSignalReceiptDecisionAllowed
            ''read receipt recorded'' aNow ?d = (a, d)" by force
        show ?thesis
          by (rule that(4) [OF _ Inr [unfolded sn] \<open>SameScope _ _ _\<close> _ _ i])
            (use c \<open>SameScope _ _ _\<close> False nf i a in auto)
      qed
    qed
  qed
qed

section \<open>Invariant\<close>

text \<open>One receipt per reader and signal, with an id of its own, each of a stored signal of the same action.\<close>

definition receipt_inv :: "receipt_db \<Rightarrow> bool" where
  "receipt_inv db \<longleftrightarrow> unique_keys rc_unique (receipts (rgraph db)) \<and> distinct (map rc_ID (receipts (rgraph db))) \<and> awf (raudit db)
     \<and> (\<forall>r\<in>set (receipts (rgraph db)). ensureActionSignalExists (rgraph db) r)"

datatype receipt_event = EvReceipt "receipt_site \<Rightarrow> bool" "string \<Rightarrow> string" nat int int ActionSignalReceiptParams

fun receipt_step :: "string \<Rightarrow> receipt_event \<Rightarrow> receipt_db \<Rightarrow> receipt_db" where
  "receipt_step ws (EvReceipt flt uq gap now aNow p) db = snd (RecordActionSignalReceipt flt uq ws gap now aNow p db)"

lemma signal_exists_key: "rc_key r = rc_key r' \<Longrightarrow> rc_SignalID r = rc_SignalID r' \<Longrightarrow> signals g = signals g'
    \<Longrightarrow> ensureActionSignalExists g r = ensureActionSignalExists g' r'"
  by (simp add: ensureActionSignalExists_def)

lemma ids_upsert:
  "map rc_ID (tupsert rc_unique set_receipt r rs) = map rc_ID rs
   \<or> map rc_ID (tupsert rc_unique set_receipt r rs) = map rc_ID rs @ [rc_ID r]"
  by (induction rs) (auto simp: set_receipt_def)

lemma fold_max_ge: "m \<le> fold max xs m \<and> (\<forall>x\<in>set xs. x \<le> fold max xs (m :: int))"
  by (induction xs arbitrary: m) (fastforce simp: max_def)+

lemma nextReceiptID_fresh: "nextReceiptID gap g \<notin> rc_ID ` set (receipts g)"
proof
  assume "nextReceiptID gap g \<in> rc_ID ` set (receipts g)"
  then have "nextReceiptID gap g \<le> fold max (map rc_ID (receipts g)) 0"
    using fold_max_ge [of 0 "map rc_ID (receipts g)"] by auto
  then show False by (simp add: nextReceiptID_def)
qed

lemma distinct_ids_upsert:
  assumes "distinct (map rc_ID (receipts g))"
  shows "distinct (map rc_ID (receipts (upsertReceipt (n\<lparr>rc_ID := nextReceiptID gap g, rc_ReadAt := t\<rparr>) g)))"
  using ids_upsert [of "n\<lparr>rc_ID := nextReceiptID gap g, rc_ReadAt := t\<rparr>" "receipts g"] assms nextReceiptID_fresh [of gap g]
  by (auto simp: upsertReceipt_def)

lemma receipt_inv_upsert:
  assumes "receipt_inv db" "ensureActionSignalExists (rgraph db) n"
  shows "receipt_inv (db\<lparr>rgraph := upsertReceipt (n\<lparr>rc_ID := nextReceiptID gap (rgraph db), rc_ReadAt := t\<rparr>) (rgraph db)\<rparr>)"
proof -
  let ?n = "n\<lparr>rc_ID := nextReceiptID gap (rgraph db), rc_ReadAt := t\<rparr>"
  have "ensureActionSignalExists (upsertReceipt ?n (rgraph db)) r" if r: "r \<in> set (receipts (upsertReceipt ?n (rgraph db)))" for r
  proof -
    from r have "r \<in> set (tupsert rc_unique set_receipt ?n (receipts (rgraph db)))" by (simp add: upsertReceipt_def)
    then consider "r = ?n" | "r \<in> set (receipts (rgraph db))"
      | y where "y \<in> set (receipts (rgraph db))" "r = set_receipt y ?n" by (blast dest: receipt_rows.upsert_row)
    then obtain y where "rc_key r = rc_key y" "rc_SignalID r = rc_SignalID y" "ensureActionSignalExists (rgraph db) y"
    proof cases
      case 1 with assms(2) that show ?thesis by simp
    next
      case 2 with assms(1) that show ?thesis by (auto simp: receipt_inv_def)
    next
      case 3 with assms(1) that show ?thesis by (auto simp: receipt_inv_def set_receipt_def)
    qed
    then show ?thesis using signal_exists_key [of r y "upsertReceipt ?n (rgraph db)" "rgraph db"] by simp
  qed
  with assms(1) distinct_ids_upsert [where g = "rgraph db" and gap = gap and t = t and n = n] show ?thesis
    by (simp add: receipt_inv_def, simp add: upsertReceipt_def)
qed

lemma receipt_inv_audit:
  "receipt_inv (snd (insertActionSignalReceiptAudit r a d x now db)) \<longleftrightarrow> receipt_inv (db\<lparr>raudit := raudit (snd (insertActionSignalReceiptAudit r a d x now db))\<rparr>)"
  by (simp add: receipt_inv_def)

lemma receipt_inv_raudit: "receipt_inv db \<Longrightarrow> awf t \<Longrightarrow> receipt_inv (db\<lparr>raudit := t\<rparr>)"
  by (simp add: receipt_inv_def)

lemma receipt_inv_insert_audit [simp]: "receipt_inv db \<Longrightarrow> receipt_inv (snd (insertActionSignalReceiptAudit r a d x now db))"
  unfolding receipt_inv_audit by (rule receipt_inv_raudit) (simp_all add: receipt_inv_def)

lemma receipt_step_inv:
  assumes "receipt_inv db"
  shows "receipt_inv (receipt_step ws e db) \<and> extends (raudit db) (raudit (receipt_step ws e db))"
proof (cases e)
  case (EvReceipt flt uq gap now aNow p)
  obtain r db' where c: "RecordActionSignalReceipt flt uq ws gap now aNow p db = (r, db')" by force
  then have "receipt_inv db' \<and> extends (raudit db) (raudit db')"
  proof (cases rule: Record_cases)
    case (2 s n v)
    have "db' = snd (insertActionSignalReceiptAudit n (actor_of p s) ActionSignalReceiptDecisionDenied (rr_Reason v) aNow db)"
      using 2(5) by (metis snd_conv)
    with assms show ?thesis by simp
  next
    case (3 s n e)
    with assms receipt_inv_upsert show ?thesis by simp
  next
    case (4 s n i v)
    let ?d = "db\<lparr>rgraph := upsertReceipt (n\<lparr>rc_ID := nextReceiptID gap (rgraph db), rc_ReadAt := now\<rparr>) (rgraph db)\<rparr>"
    have "db' = snd (insertActionSignalReceiptAudit n (actor_of p s) ActionSignalReceiptDecisionAllowed ''read receipt recorded'' aNow ?d)"
      using 4(7) by (metis snd_conv)
    moreover have "receipt_inv ?d" by (rule receipt_inv_upsert [OF assms 4(4)])
    moreover have "extends (raudit ?d) (raudit (snd (insertActionSignalReceiptAudit n (actor_of p s) ActionSignalReceiptDecisionAllowed ''read receipt recorded'' aNow ?d)))"
      by (rule insert_audit_simps(3))
    ultimately show ?thesis by simp
  qed (use assms in simp)
  with c EvReceipt show ?thesis by simp
qed

interpretation receipt_machine: logged_machine "receipt_step ws" receipt_inv raudit for ws
  by unfold_locales (use receipt_step_inv in auto)

section \<open>Correctness of the receipts\<close>

text \<open>
  C33. Reads are authorised and audited: a call that returns a result authorises the actor exactly when
  its workspace and profile are those of the signal's action; it then holds the one stored receipt of
  that actor for a signal that exists, read at the clock reading, and otherwise the action tables are
  untouched; either way it has appended exactly one audit entry, which names the action with its workspace,
  profile and peer, the signal, the trimmed actor, the workspace and the profile the actor claimed (trimmed, the
  workspace of the action when none is claimed), the decision, its reason and the time.
\<close>

theorem receipt_authorised_and_audited:
  assumes inv: "receipt_inv db"
    and c: "RecordActionSignalReceipt flt uq ws gap now aNow p db = (Inr v, db')"
  shows "\<exists>s n row. normalizeActionSignalReceiptParams ws p = Inr (s, n)
    \<and> (rr_Authorized v \<longleftrightarrow> SameScope (actor_of p s) (WorkspaceID s) (ProfileID s))
    \<and> (\<not> rr_Authorized v \<longrightarrow> rgraph db' = rgraph db \<and> rr_Receipt v = None)
    \<and> (rr_Authorized v \<longrightarrow> ensureActionSignalExists (rgraph db) n \<and>
        (\<exists>i. rr_Receipt v = Some (n\<lparr>rc_ID := i, rc_ReadAt := now\<rparr>)
           \<and> filter (\<lambda>r. rc_unique r = rc_unique n) (receipts (rgraph db')) = [n\<lparr>rc_ID := i, rc_ReadAt := now\<rparr>]))
    \<and> arows (raudit db') = arows (raudit db) @ [(rr_AuditID v, row)]
    \<and> row = \<lparr>ra_key = scope_key s, ra_SignalID = rp_SignalID p, ra_Actor = trim_space (rp_Actor p),
        ra_ActorWorkspaceID = (if trim_space (rp_ActorWorkspaceID p) = [] then WorkspaceID s else trim_space (rp_ActorWorkspaceID p)),
        ra_ActorProfileID = trim_space (rp_ActorProfileID p), ra_Decision = rr_Decision v,
        ra_Reason = (if rr_Authorized v then ''read receipt recorded'' else rr_Reason v), ra_CreatedAt = aNow\<rparr>
    \<and> (rr_Decision v = ActionSignalReceiptDecisionAllowed \<longleftrightarrow> rr_Authorized v)"
  using c
proof (cases rule: Record_cases)
  case (2 s n w)
  have v: "v = w" using 2(1) by simp
  have d: "db' = snd (insertActionSignalReceiptAudit n (actor_of p s) ActionSignalReceiptDecisionDenied (rr_Reason w) aNow db)"
    and a: "rr_AuditID w = fst (insertActionSignalReceiptAudit n (actor_of p s) ActionSignalReceiptDecisionDenied (rr_Reason w) aNow db)"
    using 2(5) by (metis snd_conv, metis fst_conv)
  have n: "rc_key n = scope_key s" "rc_Actor n = trim_space (rp_Actor p)" "rc_SignalID n = rp_SignalID p"
    using 2(2) by (auto simp: normalizeActionSignalReceiptParams_def Let_def split: sum.splits if_splits)
  have w: "\<not> rr_Authorized w" "rr_Decision w = ActionSignalReceiptDecisionDenied" "rr_Receipt w = None"
    by (subst 2(4), simp)+
  show ?thesis unfolding v a d
    by (intro exI [of _ s] exI [of _ n] exI [where x = "\<lparr>ra_key = rc_key n, ra_SignalID = rc_SignalID n, ra_Actor = rc_Actor n,
        ra_ActorWorkspaceID = ActorWorkspaceID (actor_of p s), ra_ActorProfileID = ActorProfileID (actor_of p s),
        ra_Decision = ActionSignalReceiptDecisionDenied, ra_Reason = rr_Reason w, ra_CreatedAt = aNow\<rparr>"])
      (use 2(2,3) n w in \<open>simp add: actor_of_def NormalizeActorScope_def Let_def\<close>)
next
  case (4 s n i w)
  let ?d = "db\<lparr>rgraph := upsertReceipt (n\<lparr>rc_ID := nextReceiptID gap (rgraph db), rc_ReadAt := now\<rparr>) (rgraph db)\<rparr>"
  let ?ins = "insertActionSignalReceiptAudit n (actor_of p s) ActionSignalReceiptDecisionAllowed ''read receipt recorded'' aNow ?d"
  have v: "v = w" using 4(1) by simp
  have d: "db' = snd ?ins" and a: "rr_AuditID w = fst ?ins" using 4(7) by (metis snd_conv, metis fst_conv)
  have n: "rc_key n = scope_key s" "rc_Actor n = trim_space (rp_Actor p)" "rc_SignalID n = rp_SignalID p"
    using 4(2) by (auto simp: normalizeActionSignalReceiptParams_def Let_def split: sum.splits if_splits)
  have w: "rr_Authorized w" "rr_Decision w = ActionSignalReceiptDecisionAllowed"
    "rr_Receipt w = Some (n\<lparr>rc_ID := i, rc_ReadAt := now\<rparr>)" by (subst 4(5), simp)+
  have u: "unique_keys rc_unique (receipts (rgraph ?d))" using receipt_inv_upsert [OF inv 4(4)] by (simp add: receipt_inv_def)
  have f: "tfind rc_unique (rc_unique n) (receipts (rgraph ?d)) = Some (n\<lparr>rc_ID := i, rc_ReadAt := now\<rparr>)"
    using resolve_upserted [where n = n and newID = "nextReceiptID gap (rgraph db)" and now = now and g = "rgraph db"] 4(6) by auto
  have one: "filter (\<lambda>r. rc_unique r = rc_unique n) (receipts (rgraph ?d)) = [n\<lparr>rc_ID := i, rc_ReadAt := now\<rparr>]"
    by (rule unique_filter [OF u f])
  show ?thesis unfolding v a d
    by (intro exI [of _ s] exI [of _ n] exI [where x = "\<lparr>ra_key = rc_key n, ra_SignalID = rc_SignalID n, ra_Actor = rc_Actor n,
        ra_ActorWorkspaceID = ActorWorkspaceID (actor_of p s), ra_ActorProfileID = ActorProfileID (actor_of p s),
        ra_Decision = ActionSignalReceiptDecisionAllowed, ra_Reason = ''read receipt recorded'', ra_CreatedAt = aNow\<rparr>"])
      (use 4(2,3,4) n w one in \<open>simp add: actor_of_def NormalizeActorScope_def Let_def, blast\<close>)
qed simp_all

text \<open>
  A receipt can exist without an audit entry: when the audit insert of an authorised read fails,
  the call reports the error, but the receipt has been stored and the audit table has not changed.
\<close>

theorem receipt_without_audit:
  assumes n: "normalizeActionSignalReceiptParams ws p = Inr (s, n)"
    and ok: "SameScope (actor_of p s) (WorkspaceID s) (ProfileID s)" "ensureActionSignalExists (rgraph db) n"
    and flt: "\<not> flt RcCheckSignal" "\<not> flt RcUpsert" "\<not> flt RcResolve" "flt RcAudit"
  shows "\<exists>db'. RecordActionSignalReceipt flt uq ws gap now aNow p db = (Inl (ReceiptDb RcAudit), db')
    \<and> raudit db' = raudit db \<and> (\<exists>r\<in>set (receipts (rgraph db')). rc_unique r = rc_unique n \<and> rc_ReadAt r = now)"
proof -
  let ?d = "db\<lparr>rgraph := upsertReceipt (n\<lparr>rc_ID := nextReceiptID gap (rgraph db), rc_ReadAt := now\<rparr>) (rgraph db)\<rparr>"
  from resolve_upserted [where n = n and newID = "nextReceiptID gap (rgraph db)" and now = now and g = "rgraph db"] obtain i where
    i: "resolveActionSignalReceiptID (rgraph ?d) n = Some i"
      "tfind rc_unique (rc_unique n) (receipts (rgraph ?d)) = Some (n\<lparr>rc_ID := i, rc_ReadAt := now\<rparr>)" by auto
  have c: "RecordActionSignalReceipt flt uq ws gap now aNow p db = (Inl (ReceiptDb RcAudit), ?d)"
    using n ok flt i(1) by (simp add: RecordActionSignalReceipt_def actor_of_def Let_def)
  show ?thesis
    by (intro exI conjI, rule c, simp, rule bexI [OF _ conjunct1 [OF tfind_Some [OF i(2)]]]) simp
qed

section \<open>A sample receipt\<close>

definition demo_rp :: "string \<Rightarrow> ActionSignalReceiptParams" where
  "demo_rp actorProfile = \<lparr>rp_WorkspaceID = [], rp_ProfileID = ''p'', rp_Peer = ''bob'', rp_ActionID = ''b'', rp_SignalID = 1,
     rp_Actor = '' eve '', rp_ActorWorkspaceID = ''w'', rp_ActorProfileID = actorProfile\<rparr>"

definition demo_receipts :: receipt_db where
  "demo_receipts = \<lparr>rgraph = snd (SignalAction (\<lambda>_. False) ''w'' 8 (demo_signal ''b'') demo_db), raudit = aempty\<rparr>"

lemma demo_receipts_inv: "receipt_inv demo_receipts"
proof -
  have "receipts (rgraph demo_receipts) = []" "raudit demo_receipts = aempty" by code_simp+
  then show ?thesis by (simp add: receipt_inv_def)
qed

theorem receipt_authorised_and_audited_witness:
  "\<exists>v db' n. RecordActionSignalReceipt (\<lambda>_. False) id ''w'' 0 20 21 (demo_rp ''p'') demo_receipts = (Inr v, db')
    \<and> rr_Authorized v \<and> rr_AuditID v = 1 \<and> filter (\<lambda>r. rc_unique r = rc_unique n) (receipts (rgraph db')) = [n\<lparr>rc_ID := 1, rc_ReadAt := 20\<rparr>]"
proof -
  let ?c = "RecordActionSignalReceipt (\<lambda>_. False) id ''w'' 0 20 21 (demo_rp ''p'') demo_receipts"
  have ok: "map_sum (\<lambda>_. ()) (\<lambda>v. (rr_Authorized v, rr_AuditID v, map_option rc_ID (rr_Receipt v))) (fst ?c) = Inr (True, 1, Some 1)"
    by code_simp
  then obtain v db' where c: "?c = (Inr v, db')" by (cases ?c; cases "fst ?c") auto
  with ok have v: "rr_Authorized v" "rr_AuditID v = 1" "map_option rc_ID (rr_Receipt v) = Some 1" by simp_all
  from receipt_authorised_and_audited [OF demo_receipts_inv c] v(1) obtain n i where
    n: "rr_Receipt v = Some (n\<lparr>rc_ID := i, rc_ReadAt := 20\<rparr>)"
      "filter (\<lambda>r. rc_unique r = rc_unique n) (receipts (rgraph db')) = [n\<lparr>rc_ID := i, rc_ReadAt := 20\<rparr>]" by blast
  with v(3) have "i = 1" by simp
  with n c v show ?thesis by blast
qed

theorem receipt_without_audit_witness:
  "\<exists>n db'. RecordActionSignalReceipt (\<lambda>x. x = RcAudit) id ''w'' 0 20 21 (demo_rp ''p'') demo_receipts = (Inl (ReceiptDb RcAudit), db')
    \<and> raudit db' = raudit demo_receipts \<and> (\<exists>r\<in>set (receipts (rgraph db')). rc_unique r = rc_unique n \<and> rc_ReadAt r = 20)"
proof -
  have "(case normalizeActionSignalReceiptParams ''w'' (demo_rp ''p'') of Inl _ \<Rightarrow> False
      | Inr (s, n) \<Rightarrow> SameScope (actor_of (demo_rp ''p'') s) (WorkspaceID s) (ProfileID s) \<and> ensureActionSignalExists (rgraph demo_receipts) n)"
    by code_simp
  then obtain s n where n: "normalizeActionSignalReceiptParams ''w'' (demo_rp ''p'') = Inr (s, n)"
    "SameScope (actor_of (demo_rp ''p'') s) (WorkspaceID s) (ProfileID s)" "ensureActionSignalExists (rgraph demo_receipts) n"
    by (auto split: sum.splits prod.splits)
  have "\<exists>db'. RecordActionSignalReceipt (\<lambda>x. x = RcAudit) id ''w'' 0 20 21 (demo_rp ''p'') demo_receipts = (Inl (ReceiptDb RcAudit), db')
    \<and> raudit db' = raudit demo_receipts \<and> (\<exists>r\<in>set (receipts (rgraph db')). rc_unique r = rc_unique n \<and> rc_ReadAt r = 20)"
    by (rule receipt_without_audit [OF n]) simp_all
  then show ?thesis by blast
qed

end
