(* ===== verification/ActionSystem.thy ===== *)
theory ActionSystem
  imports ActionLeases ActionReceipts
begin

text \<open>
  The action tables as one database: the graph of \<open>service/action_graph.go\<close>, the leases of
  \<open>service/action_leases.go\<close> and the receipts of \<open>service/action_signal_receipts.go\<close> share their
  tables and are called in any order.  SQLite checks no foreign key between them; the invariant shown
  here is the referential integrity the operations keep by themselves.
\<close>

record action_system =
  sy_leases :: lease_db
  sy_raudit :: "ActionSignalReceiptAuditEvent atable"

abbreviation sy_graph :: "action_system \<Rightarrow> action_db" where
  "sy_graph s \<equiv> lgraph (sy_leases s)"

definition sy_receipts :: "action_system \<Rightarrow> receipt_db" where
  "sy_receipts s = \<lparr>rgraph = sy_graph s, raudit = sy_raudit s\<rparr>"

datatype system_event = GraphCall act_event | LeaseCall lease_event | ReceiptCall receipt_event

fun system_step :: "lease_service \<Rightarrow> system_event \<Rightarrow> action_system \<Rightarrow> action_system" where
  "system_step sv (GraphCall e) s = s\<lparr>sy_leases := (sy_leases s)\<lparr>lgraph := act_step (sv_workspaceID sv) e (sy_graph s)\<rparr>\<rparr>"
| "system_step sv (LeaseCall e) s = s\<lparr>sy_leases := lease_step sv e (sy_leases s)\<rparr>"
| "system_step sv (ReceiptCall e) s =
     (let r = receipt_step (sv_workspaceID sv) e (sy_receipts s) in
      s\<lparr>sy_leases := (sy_leases s)\<lparr>lgraph := rgraph r\<rparr>, sy_raudit := raudit r\<rparr>)"

text \<open>Edges and leases belong to stored actions, receipts to stored signals, one per reader.\<close>

definition referential :: "action_system \<Rightarrow> bool" where
  "referential s \<longleftrightarrow>
     (\<forall>(k, d)\<in>set (deps (sy_graph s)). getActionNode (sy_graph s) k \<noteq> None)
   \<and> (\<forall>l\<in>set (leases (sy_leases s)). actionExists (sy_leases s) (ls_key l))
   \<and> (\<forall>r\<in>set (receipts (sy_graph s)). ensureActionSignalExists (sy_graph s) r)"

definition system_inv :: "action_system \<Rightarrow> bool" where
  "system_inv s \<longleftrightarrow> act_inv (sy_graph s) \<and> lease_inv (sy_leases s) \<and> receipt_inv (sy_receipts s) \<and> referential s"

lemma receipt_step_frame:
  "actions (rgraph (receipt_step ws e db)) = actions (rgraph db) \<and> deps (rgraph (receipt_step ws e db)) = deps (rgraph db)
   \<and> signals (rgraph (receipt_step ws e db)) = signals (rgraph db)"
proof (cases e)
  case (EvReceipt flt uq gap now aNow p)
  obtain r db' where c: "RecordActionSignalReceipt flt uq ws gap now aNow p db = (r, db')" by force
  have st: "receipt_step ws e db = db'" unfolding EvReceipt receipt_step.simps c by (rule snd_conv)
  from c have "rgraph db' = rgraph db \<or> (\<exists>n. rgraph db' = upsertReceipt n (rgraph db))"
  proof (cases rule: Record_cases)
    case (1 x)
    then show ?thesis by blast
  next
    case (2 s n v)
    have "rgraph db' = rgraph db" using arg_cong [OF 2(5), of "\<lambda>x. rgraph (snd x)"] by (simp only: insert_audit_simps(1) snd_conv)
    then show ?thesis ..
  next
    case (3 s n x)
    show ?thesis unfolding 3(5) by auto
  next
    case (4 s n i v)
    have "rgraph db' = upsertReceipt (n\<lparr>rc_ID := nextReceiptID gap (rgraph db), rc_ReadAt := now\<rparr>) (rgraph db)"
      using arg_cong [OF 4(7), of "\<lambda>x. rgraph (snd x)"] by (simp add: insert_audit_simps(1))
    then show ?thesis by blast
  qed
  then show ?thesis unfolding st by auto
qed

lemma signal_exists_extends:
  "extends (signals g) (signals g') \<Longrightarrow> ensureActionSignalExists g r \<Longrightarrow> ensureActionSignalExists g' r"
  by (auto simp: ensureActionSignalExists_def extends_def)

lemma system_inv_graph: "system_inv s \<Longrightarrow> system_inv (system_step sv (GraphCall e) s)"
proof -
  assume inv: "system_inv s"
  let ?g = "sy_graph s" and ?g' = "act_step (sv_workspaceID sv) e (sy_graph s)"
  have ai: "act_inv ?g" and li: "lease_inv (sy_leases s)" and ri: "receipt_inv (sy_receipts s)"
    and rd: "\<And>k d. (k, d) \<in> set (deps ?g) \<Longrightarrow> getActionNode ?g k \<noteq> None"
    and rl: "\<And>l. l \<in> set (leases (sy_leases s)) \<Longrightarrow> getActionNode ?g (ls_key l) \<noteq> None"
    and rr: "\<And>r. r \<in> set (receipts ?g) \<Longrightarrow> ensureActionSignalExists ?g r"
    using inv unfolding system_inv_def referential_def actionExists_def by blast+
  have r: "\<forall>r\<in>set (receipts ?g'). ensureActionSignalExists ?g' r"
    using rr signal_exists_extends [OF act_step_signals] by (simp add: act_step_receipts)
  have d: "\<forall>(k, x)\<in>set (deps ?g'). getActionNode ?g' k \<noteq> None"
    using act_step_deps rd act_step_actions by blast
  have l: "\<forall>l\<in>set (leases (sy_leases s)). getActionNode ?g' (ls_key l) \<noteq> None"
    using rl act_step_actions by blast
  have "receipt_inv \<lparr>rgraph = ?g', raudit = sy_raudit s\<rparr>"
    using ri r by (simp add: receipt_inv_def sy_receipts_def act_step_receipts)
  with act_inv_step [OF ai] li r d l show ?thesis
    by (simp add: system_inv_def lease_inv_def sy_receipts_def referential_def actionExists_def)
qed

lemma system_inv_lease: "system_inv s \<Longrightarrow> system_inv (system_step sv (LeaseCall e) s)"
proof -
  assume inv: "system_inv s"
  have "actionExists (sy_leases s) (ls_key l)" if "l \<in> set (leases (lease_step sv e (sy_leases s)))" for l
    using lease_step_rows [OF that] inv by (auto simp: system_inv_def referential_def)
  with inv lease_step_inv show ?thesis
    by (simp add: system_inv_def sy_receipts_def referential_def actionExists_def lease_step_graph)
qed

lemma system_inv_receipt: "system_inv s \<Longrightarrow> system_inv (system_step sv (ReceiptCall e) s)"
proof -
  assume inv: "system_inv s"
  let ?r = "receipt_step (sv_workspaceID sv) e (sy_receipts s)"
  have r: "receipt_inv ?r" using inv receipt_step_inv by (simp add: system_inv_def)
  have f: "actions (rgraph ?r) = actions (sy_graph s)" "deps (rgraph ?r) = deps (sy_graph s)" "signals (rgraph ?r) = signals (sy_graph s)"
    using receipt_step_frame [of "sv_workspaceID sv" e "sy_receipts s"] by (simp_all add: sy_receipts_def)
  have "getActionNode (rgraph ?r) = getActionNode (sy_graph s)" by (simp add: getActionNode_def f fun_eq_iff)
  with inv r f show ?thesis
    by (simp add: system_inv_def Let_def act_inv_def lease_inv_def referential_def actionExists_def sy_receipts_def receipt_inv_def)
qed

interpretation action_system_machine: machine "system_step sv" system_inv for sv
proof unfold_locales
  fix s e assume "system_inv s"
  then show "system_inv (system_step sv e s)"
    by (cases e) (simp_all only: system_inv_graph system_inv_lease system_inv_receipt)
qed

section \<open>An empty database\<close>

definition empty_system :: action_system where
  "empty_system = \<lparr>sy_leases = \<lparr>lgraph = empty_action_db, leases = [], laudit = aempty\<rparr>, sy_raudit = aempty\<rparr>"

lemma empty_system_inv: "system_inv empty_system"
  by (simp add: system_inv_def empty_system_def empty_action_db_def act_inv_def lease_inv_def receipt_inv_def
      sy_receipts_def referential_def)

end
