(* ===== verification/CircuitBreaker.thy ===== *)
theory CircuitBreaker
  imports Text Tables
begin

text \<open>
  The provider circuit breaker and health registry of \<open>service/provider_resilience.go\<close> with the
  policy defaults of \<open>internal/providerpolicy\<close>.  Times are \<open>int\<close> nanoseconds, 0 is Go's zero
  time.  A provider call is three steps, \<open>beforeCall\<close> under the lock, the call itself outside it,
  and \<open>recordFailure\<close> or \<open>recordSuccess\<close> under the lock, so calls interleave: \<open>cb_step\<close> are the
  steps of any number of concurrent \<open>Execute\<close> calls, \<open>Execute\<close> is one call alone.
\<close>

section \<open>State\<close>

datatype ProviderKind = ProviderKindExtraction | ProviderKindEmbedding | ProviderKindReranking
  | ProviderKindSummarization | ProviderKindOther string

datatype ProviderStatus = ProviderStatusHealthy | ProviderStatusDegraded | ProviderStatusDisabled

datatype ProviderCircuitState = ProviderCircuitClosed | ProviderCircuitOpen | ProviderCircuitHalfOpen

fun kind_text :: "ProviderKind \<Rightarrow> string" where
  "kind_text ProviderKindExtraction = ''extraction''"
| "kind_text ProviderKindEmbedding = ''embedding''"
| "kind_text ProviderKindReranking = ''reranking''"
| "kind_text ProviderKindSummarization = ''summarization''"
| "kind_text (ProviderKindOther s) = s"

record ProviderResilienceConfig =
  pc_FailureThreshold :: int
  pc_Cooldown :: int
  pc_Timeout :: int
  pc_MaxPayloadBytes :: int

record ProviderCircuitBreakerConfig = ProviderResilienceConfig +
  pc_Name :: string
  pc_Kind :: ProviderKind

record ProviderCircuitBreaker =
  cb_name :: string
  cb_kind :: ProviderKind
  cb_failureThreshold :: int
  cb_cooldown :: int
  cb_timeout :: int
  cb_maxPayloadBytes :: int
  cb_state :: ProviderCircuitState
  cb_failureCount :: int
  cb_lastError :: string
  cb_openedAt :: int

record ProviderHealth =
  ph_Name :: string
  ph_Kind :: ProviderKind
  ph_Status :: ProviderStatus
  ph_CircuitState :: ProviderCircuitState
  ph_Optional :: bool
  ph_LastError :: string
  ph_FailureCount :: int
  ph_RetryAfter :: int
  ph_TimeoutMillis :: int
  ph_MaxPayloadBytes :: int

text \<open>What \<open>Execute\<close> returns: the circuit is open, the provider's error, or no error.\<close>

datatype call_error = ErrProviderCircuitOpen | ErrProvider string

section \<open>Policy (providerpolicy)\<close>

definition FailureThreshold :: "int \<Rightarrow> int" where
  "FailureThreshold threshold = (if threshold \<le> 0 then 3 else threshold)"

definition Cooldown :: "int \<Rightarrow> int" where
  "Cooldown cooldown = (if cooldown \<le> 0 then 30000000000 else cooldown)"

definition normalizeProviderResilienceConfig ::
    "'a ProviderResilienceConfig_scheme \<Rightarrow> ProviderResilienceConfig" where
  "normalizeProviderResilienceConfig cfg =
     \<lparr>pc_FailureThreshold = FailureThreshold (pc_FailureThreshold cfg), pc_Cooldown = Cooldown (pc_Cooldown cfg),
      pc_Timeout = (if pc_Timeout cfg \<le> 0 then 5000000000 else pc_Timeout cfg),
      pc_MaxPayloadBytes = pc_MaxPayloadBytes cfg\<rparr>"

definition NewProviderCircuitBreaker :: "ProviderCircuitBreakerConfig \<Rightarrow> ProviderCircuitBreaker" where
  "NewProviderCircuitBreaker cfg =
     (let name0 = trim_space (pc_Name cfg);
          name = (if name0 = [] then kind_text (pc_Kind cfg) else name0);
          kind = (if kind_text (pc_Kind cfg) = [] then ProviderKindOther name else pc_Kind cfg) in
      \<lparr>cb_name = name, cb_kind = kind, cb_failureThreshold = FailureThreshold (pc_FailureThreshold cfg),
       cb_cooldown = Cooldown (pc_Cooldown cfg), cb_timeout = pc_Timeout cfg,
       cb_maxPayloadBytes = pc_MaxPayloadBytes cfg, cb_state = ProviderCircuitClosed, cb_failureCount = 0,
       cb_lastError = [], cb_openedAt = 0\<rparr>)"

section \<open>Operations\<close>

definition beforeCall :: "int \<Rightarrow> ProviderCircuitBreaker \<Rightarrow> (call_error + unit) \<times> ProviderCircuitBreaker" where
  "beforeCall now b =
     (if cb_state b = ProviderCircuitOpen then
        (if now < cb_openedAt b + cb_cooldown b then (Inl ErrProviderCircuitOpen, b)
         else (Inr (), b\<lparr>cb_state := ProviderCircuitHalfOpen\<rparr>))
      else (Inr (), b))"

definition recordFailure :: "int \<Rightarrow> string \<Rightarrow> ProviderCircuitBreaker \<Rightarrow> ProviderCircuitBreaker" where
  "recordFailure now err b =
     (let b1 = b\<lparr>cb_failureCount := cb_failureCount b + 1, cb_lastError := err\<rparr> in
      if cb_failureCount b1 \<ge> cb_failureThreshold b1 \<or> cb_state b1 = ProviderCircuitHalfOpen
      then b1\<lparr>cb_state := ProviderCircuitOpen, cb_openedAt := now\<rparr> else b1)"

definition recordSuccess :: "ProviderCircuitBreaker \<Rightarrow> ProviderCircuitBreaker" where
  "recordSuccess b = b\<lparr>cb_failureCount := 0, cb_lastError := [], cb_state := ProviderCircuitClosed, cb_openedAt := 0\<rparr>"

text \<open>
  \<open>Execute\<close> of one call: \<open>t1\<close> and \<open>t2\<close> are the clock readings before and after, \<open>fn\<close> what the
  provider answers (\<open>Some\<close> an error).  The first component says whether the provider was called.
\<close>

definition Execute :: "int \<Rightarrow> int \<Rightarrow> string option \<Rightarrow> ProviderCircuitBreaker
    \<Rightarrow> bool \<times> (call_error + unit) \<times> ProviderCircuitBreaker" where
  "Execute t1 t2 fn b =
     (case beforeCall t1 b of
        (Inl e, b1) \<Rightarrow> (False, Inl e, b1)
      | (Inr _, b1) \<Rightarrow>
          (case fn of Some err \<Rightarrow> (True, Inl (ErrProvider err), recordFailure t2 err b1)
           | None \<Rightarrow> (True, Inr (), recordSuccess b1)))"

definition retryAfterLocked :: "ProviderCircuitBreaker \<Rightarrow> int" where
  "retryAfterLocked b =
     (if cb_state b \<noteq> ProviderCircuitOpen \<or> cb_openedAt b = 0 then 0 else cb_openedAt b + cb_cooldown b)"

text \<open>\<open>time.Duration.Milliseconds\<close> truncates towards zero.\<close>

definition Milliseconds :: "int \<Rightarrow> int" where
  "Milliseconds d = sgn d * (\<bar>d\<bar> div 1000000)"

definition Health :: "ProviderCircuitBreaker \<Rightarrow> ProviderHealth" where
  "Health b = \<lparr>ph_Name = cb_name b, ph_Kind = cb_kind b,
     ph_Status = (if cb_state b = ProviderCircuitOpen \<or> cb_failureCount b > 0 then ProviderStatusDegraded else ProviderStatusHealthy),
     ph_CircuitState = cb_state b, ph_Optional = True, ph_LastError = cb_lastError b,
     ph_FailureCount = cb_failureCount b, ph_RetryAfter = retryAfterLocked b,
     ph_TimeoutMillis = Milliseconds (cb_timeout b), ph_MaxPayloadBytes = cb_maxPayloadBytes b\<rparr>"

section \<open>Registry\<close>

record ProviderHealthRegistry =
  pr_config :: ProviderResilienceConfig
  pr_breakers :: "(string \<times> ProviderCircuitBreaker) list"

definition NewProviderHealthRegistry :: "'a ProviderResilienceConfig_scheme \<Rightarrow> bool \<Rightarrow> ProviderHealthRegistry" where
  "NewProviderHealthRegistry cfg0 vectorStore =
     (let cfg = normalizeProviderResilienceConfig cfg0 in
      \<lparr>pr_config = cfg, pr_breakers =
         (if vectorStore then [(kind_text ProviderKindEmbedding, NewProviderCircuitBreaker
            \<lparr>pc_FailureThreshold = pc_FailureThreshold cfg, pc_Cooldown = pc_Cooldown cfg, pc_Timeout = pc_Timeout cfg,
             pc_MaxPayloadBytes = pc_MaxPayloadBytes cfg, pc_Name = kind_text ProviderKindEmbedding, pc_Kind = ProviderKindEmbedding\<rparr>)]
          else [])\<rparr>)"

definition registry_breaker :: "ProviderHealthRegistry \<Rightarrow> string \<Rightarrow> ProviderCircuitBreaker option" where
  "registry_breaker r name = map_of (pr_breakers r) (trim_space name)"

text \<open>A provider without a breaker is called directly.\<close>

definition RegistryExecute :: "int \<Rightarrow> int \<Rightarrow> string option \<Rightarrow> string \<Rightarrow> ProviderHealthRegistry
    \<Rightarrow> bool \<times> (call_error + unit) \<times> ProviderHealthRegistry" where
  "RegistryExecute t1 t2 fn name r =
     (case registry_breaker r name of
        None \<Rightarrow> (True, (case fn of Some err \<Rightarrow> Inl (ErrProvider err) | None \<Rightarrow> Inr ()), r)
      | Some b \<Rightarrow>
          (case Execute t1 t2 fn b of (called, res, b') \<Rightarrow>
             (called, res, r\<lparr>pr_breakers := map (\<lambda>(n, x). if n = trim_space name then (n, b') else (n, x)) (pr_breakers r)\<rparr>)))"

definition MaxPayloadBytes :: "ProviderHealthRegistry \<Rightarrow> string \<Rightarrow> int" where
  "MaxPayloadBytes r name = (case registry_breaker r name of
     None \<Rightarrow> pc_MaxPayloadBytes (pr_config r) | Some b \<Rightarrow> cb_maxPayloadBytes b)"

definition defaultProviderHealthDiagnostics :: "(string \<times> ProviderCircuitBreaker) list \<Rightarrow> ProviderHealth list" where
  "defaultProviderHealthDiagnostics breakers =
     sort_key ph_Name (map (\<lambda>kind. case map_of breakers (kind_text kind) of
         Some b \<Rightarrow> Health b
       | None \<Rightarrow> \<lparr>ph_Name = kind_text kind, ph_Kind = kind, ph_Status = ProviderStatusDisabled,
            ph_CircuitState = ProviderCircuitClosed, ph_Optional = True, ph_LastError = [], ph_FailureCount = 0,
            ph_RetryAfter = 0, ph_TimeoutMillis = 0, ph_MaxPayloadBytes = 0\<rparr>)
       [ProviderKindExtraction, ProviderKindEmbedding, ProviderKindReranking, ProviderKindSummarization])"

definition Diagnostics :: "ProviderHealthRegistry option \<Rightarrow> ProviderHealth list" where
  "Diagnostics r = defaultProviderHealthDiagnostics (case r of None \<Rightarrow> [] | Some r \<Rightarrow> pr_breakers r)"

definition ByName :: "ProviderHealth list \<Rightarrow> string \<Rightarrow> ProviderHealth option" where
  "ByName d name = find (\<lambda>h. ph_Name h = trim_space name) d"

definition providerWarning :: "ProviderHealth \<Rightarrow> string option" where
  "providerWarning h = (case ph_Status h of
     ProviderStatusDisabled \<Rightarrow> Some (''provider '' @ ph_Name h @ '' disabled'')
   | ProviderStatusDegraded \<Rightarrow> Some (''provider '' @ ph_Name h @ '' degraded''
        @ (if ph_LastError h = [] then [] else '': '' @ ph_LastError h))
   | ProviderStatusHealthy \<Rightarrow> None)"

definition providerWarnings :: "ProviderHealth list \<Rightarrow> string list" where
  "providerWarnings hs = List.map_filter providerWarning hs"

section \<open>Concurrent calls\<close>

text \<open>
  The state of a breaker with the calls in flight (\<open>beforeCall\<close> let them through, their result is
  not recorded yet), and the steps: a call arrives, a call in flight fails or succeeds.
\<close>

datatype cb_event = CallArrives int | CallFails int string | CallSucceeds

fun cb_step :: "cb_event \<Rightarrow> ProviderCircuitBreaker \<times> nat \<Rightarrow> ProviderCircuitBreaker \<times> nat" where
  "cb_step (CallArrives now) (b, n) =
     (case beforeCall now b of (Inl _, b') \<Rightarrow> (b', n) | (Inr _, b') \<Rightarrow> (b', Suc n))"
| "cb_step (CallFails now err) (b, n) = (if n = 0 then (b, n) else (recordFailure now err b, n - 1))"
| "cb_step CallSucceeds (b, n) = (if n = 0 then (b, n) else (recordSuccess b, n - 1))"

text \<open>
  A closed breaker has seen fewer failures than the threshold, a breaker that is not closed has seen
  one; a closed breaker without failures carries no error and no opening time.
\<close>

definition cb_inv :: "ProviderCircuitBreaker \<times> nat \<Rightarrow> bool" where
  "cb_inv s \<longleftrightarrow> (let b = fst s in
     0 < cb_failureThreshold b \<and> 0 < cb_cooldown b \<and> 0 \<le> cb_failureCount b
   \<and> (cb_state b = ProviderCircuitClosed \<longrightarrow> cb_failureCount b < cb_failureThreshold b \<and> cb_openedAt b = 0)
   \<and> (cb_state b \<noteq> ProviderCircuitClosed \<longrightarrow> 0 < cb_failureCount b)
   \<and> (cb_failureCount b = 0 \<longrightarrow> cb_lastError b = []))"

lemma cb_step_inv: "cb_inv s \<Longrightarrow> cb_inv (cb_step e s)"
  by (cases s; cases e)
    (auto simp: cb_inv_def beforeCall_def recordFailure_def recordSuccess_def Let_def split: if_splits)

interpretation breaker: machine cb_step cb_inv
  by unfold_locales (rule cb_step_inv)

lemma New_inv: "cb_inv (NewProviderCircuitBreaker cfg, 0)"
  by (simp add: cb_inv_def NewProviderCircuitBreaker_def Let_def FailureThreshold_def Cooldown_def)

lemma reachable_inv: "cb_inv (fold cb_step es (NewProviderCircuitBreaker cfg, 0))"
  by (rule breaker.run_inv [OF New_inv])

section \<open>Correctness of the breaker\<close>

lemma Execute_failure: "cb_state b = ProviderCircuitClosed \<Longrightarrow>
    Execute t1 t2 (Some err) b = (True, Inl (ErrProvider err), recordFailure t2 err b)"
  by (simp add: Execute_def beforeCall_def)

definition run_failures :: "(int \<times> int \<times> string) list \<Rightarrow> ProviderCircuitBreaker \<Rightarrow> ProviderCircuitBreaker" where
  "run_failures fs b = fold (\<lambda>(t1, t2, err) b. snd (snd (Execute t1 t2 (Some err) b))) fs b"

text \<open>
  C24. The breaker trips exactly at the threshold: after any number of consecutive failed calls up to
  the configured threshold, a fresh breaker has counted all of them, and it is open if and only if
  their number reached the threshold; it then holds the time and the error of the last one.
\<close>

theorem breaker_trips_at_threshold:
  assumes "fs \<noteq> []" and "int (length fs) \<le> FailureThreshold (pc_FailureThreshold cfg)"
  shows "let b = run_failures fs (NewProviderCircuitBreaker cfg) in
     cb_failureCount b = int (length fs) \<and> cb_lastError b = snd (snd (last fs))
   \<and> (cb_state b = ProviderCircuitOpen \<longleftrightarrow> int (length fs) = FailureThreshold (pc_FailureThreshold cfg))
   \<and> (cb_state b = ProviderCircuitOpen \<longrightarrow> cb_openedAt b = fst (snd (last fs)))"
proof -
  let ?n = "NewProviderCircuitBreaker cfg"
  have *: "int (length fs) \<le> cb_failureThreshold ?n \<longrightarrow>
      (let b = run_failures fs ?n in cb_failureThreshold b = cb_failureThreshold ?n
       \<and> cb_failureCount b = int (length fs) \<and> (fs \<noteq> [] \<longrightarrow> cb_lastError b = snd (snd (last fs)))
       \<and> (if fs \<noteq> [] \<and> int (length fs) = cb_failureThreshold ?n
          then cb_state b = ProviderCircuitOpen \<and> cb_openedAt b = fst (snd (last fs))
          else cb_state b = ProviderCircuitClosed))" for fs
  proof (induction fs rule: rev_induct)
    case Nil
    then show ?case by (simp add: run_failures_def NewProviderCircuitBreaker_def Let_def)
  next
    case (snoc f fs)
    obtain t1 t2 err where f: "f = (t1, t2, err)" by (cases f) auto
    have r: "run_failures (fs @ [f]) ?n = snd (snd (Execute t1 t2 (Some err) (run_failures fs ?n)))"
      by (simp add: run_failures_def f)
    show ?case
    proof
      assume l: "int (length (fs @ [f])) \<le> cb_failureThreshold ?n"
      with snoc have c: "cb_state (run_failures fs ?n) = ProviderCircuitClosed"
        "cb_failureCount (run_failures fs ?n) = int (length fs)"
        "cb_failureThreshold (run_failures fs ?n) = cb_failureThreshold ?n" by (auto simp: Let_def split: if_splits)
      show "let b = run_failures (fs @ [f]) ?n in cb_failureThreshold b = cb_failureThreshold ?n
       \<and> cb_failureCount b = int (length (fs @ [f])) \<and> (fs @ [f] \<noteq> [] \<longrightarrow> cb_lastError b = snd (snd (last (fs @ [f]))))
       \<and> (if fs @ [f] \<noteq> [] \<and> int (length (fs @ [f])) = cb_failureThreshold ?n
          then cb_state b = ProviderCircuitOpen \<and> cb_openedAt b = fst (snd (last (fs @ [f])))
          else cb_state b = ProviderCircuitClosed)"
        unfolding r Execute_failure [OF c(1)] using c l by (simp add: recordFailure_def f Let_def)
    qed
  qed
  have "cb_failureThreshold ?n = FailureThreshold (pc_FailureThreshold cfg)"
    by (simp add: NewProviderCircuitBreaker_def Let_def)
  with * [of fs] assms show ?thesis by (auto simp: Let_def split: if_splits)
qed

text \<open>
  Fail fast and recover: from any state that interleaved calls can reach, while the circuit is
  open and its cooldown has not passed a call returns the circuit-open error without calling the
  provider and changes nothing; once it has passed the provider is called, a success closes the
  circuit and clears the error, and a single failure opens it again from the new time.
\<close>

theorem breaker_open_then_probe:
  assumes b: "fst (fold cb_step es (NewProviderCircuitBreaker cfg, 0)) = b" and o: "cb_state b = ProviderCircuitOpen"
  shows "(now < retryAfterLocked b \<longrightarrow> Execute now t2 fn b = (False, Inl ErrProviderCircuitOpen, b))
    \<and> (cb_openedAt b \<noteq> 0 \<and> retryAfterLocked b \<le> now \<longrightarrow>
         (case Execute now t2 None b of (called, res, b') \<Rightarrow>
            called \<and> res = Inr () \<and> cb_state b' = ProviderCircuitClosed \<and> ph_Status (Health b') = ProviderStatusHealthy
          \<and> ph_LastError (Health b') = [])
       \<and> (case Execute now t2 (Some err) b of (called, res, b') \<Rightarrow>
            called \<and> res = Inl (ErrProvider err) \<and> cb_state b' = ProviderCircuitOpen \<and> cb_openedAt b' = t2
          \<and> cb_failureCount b' = cb_failureCount b + 1 \<and> ph_Status (Health b') = ProviderStatusDegraded))"
proof -
  have i: "cb_inv (b, snd (fold cb_step es (NewProviderCircuitBreaker cfg, 0)))"
    using reachable_inv [of es cfg] b by (metis prod.collapse)
  have z: "now < cb_openedAt b + cb_cooldown b" if "now < retryAfterLocked b"
    using that o i unfolding retryAfterLocked_def cb_inv_def by (auto split: if_splits)
  show ?thesis
    using o z by (auto simp: Execute_def beforeCall_def recordSuccess_def recordFailure_def Health_def
        retryAfterLocked_def Let_def split: if_splits)
qed

text \<open>
  The half-open state admits every caller: after the cooldown, any number of concurrent calls
  pass \<open>beforeCall\<close> before the first result is recorded, and a success recorded by a call admitted
  before another call's failure reopened the circuit closes it at once, without any cooldown.
\<close>

theorem half_open_admits_all:
  assumes o: "cb_state b = ProviderCircuitOpen" and ts: "\<forall>t \<in> set ts. cb_openedAt b + cb_cooldown b \<le> t"
    and two: "2 \<le> length ts"
  shows "snd (fold cb_step (map CallArrives ts) (b, n)) = n + length ts
    \<and> (let s = fold cb_step (map CallArrives ts @ [CallFails now err]) (b, n) in
        cb_state (fst s) = ProviderCircuitOpen \<and> cb_state (fst (cb_step CallSucceeds s)) = ProviderCircuitClosed)"
proof -
  have half: "fold cb_step (map CallArrives ts) (h, m) = (h, m + length ts)"
    if "cb_state h = ProviderCircuitHalfOpen" for h m ts
    using that by (induction ts arbitrary: m) (auto simp: beforeCall_def)
  obtain t us where t: "ts = t # us" using two by (cases ts) auto
  let ?h = "b\<lparr>cb_state := ProviderCircuitHalfOpen\<rparr>"
  have "fold cb_step (map CallArrives ts) (b, n) = (?h, n + length ts)"
    using half [of ?h us "Suc n"] o ts by (simp add: t beforeCall_def)
  then show ?thesis using two by (auto simp: Let_def recordFailure_def recordSuccess_def)
qed

section \<open>A sample breaker\<close>

definition demo_cb_cfg :: ProviderCircuitBreakerConfig where
  "demo_cb_cfg = \<lparr>pc_FailureThreshold = 2, pc_Cooldown = 100, pc_Timeout = 0, pc_MaxPayloadBytes = 0,
     pc_Name = '' embedding '', pc_Kind = ProviderKindEmbedding\<rparr>"

definition demo_cb_run :: "cb_event list" where
  "demo_cb_run = [CallArrives 1, CallFails 5 ''e1'', CallArrives 6, CallFails 7 ''e2'']"

theorem breaker_trips_at_threshold_witness:
  "cb_state (run_failures [(1, 5, ''e1''), (6, 7, ''e2'')] (NewProviderCircuitBreaker demo_cb_cfg)) = ProviderCircuitOpen"
  using breaker_trips_at_threshold [of "[(1, 5, ''e1''), (6, 7, ''e2'')]" demo_cb_cfg]
  by (simp add: demo_cb_cfg_def FailureThreshold_def Let_def)

theorem breaker_open_then_probe_witness:
  "fst (Execute 50 60 None (fst (fold cb_step demo_cb_run (NewProviderCircuitBreaker demo_cb_cfg, 0)))) = False
   \<and> fst (Execute 107 110 None (fst (fold cb_step demo_cb_run (NewProviderCircuitBreaker demo_cb_cfg, 0)))) = True"
proof -
  let ?b = "fst (fold cb_step demo_cb_run (NewProviderCircuitBreaker demo_cb_cfg, 0))"
  have "cb_state ?b = ProviderCircuitOpen" "retryAfterLocked ?b = 107" "cb_openedAt ?b \<noteq> 0" by code_simp+
  then show ?thesis
    using breaker_open_then_probe [OF refl, of demo_cb_run demo_cb_cfg 50 60 None "[]"]
      breaker_open_then_probe [OF refl, of demo_cb_run demo_cb_cfg 107 110 None "[]"]
    by (auto split: prod.splits)
qed

theorem half_open_admits_all_witness:
  "snd (fold cb_step (map CallArrives [200, 201, 202]) (fst (fold cb_step demo_cb_run (NewProviderCircuitBreaker demo_cb_cfg, 0)), 0)) = 3"
proof -
  let ?b = "fst (fold cb_step demo_cb_run (NewProviderCircuitBreaker demo_cb_cfg, 0))"
  have "cb_state ?b = ProviderCircuitOpen" "\<forall>t \<in> set [200, 201, 202]. cb_openedAt ?b + cb_cooldown ?b \<le> t"
    by code_simp+
  from half_open_admits_all [OF this, of 0] show ?thesis by simp
qed

end
