(* ===== verification/WriteQueue.thy ===== *)
theory WriteQueue
  imports Text Tables
begin

text \<open>
  The serialized write queue of \<open>writequeue/write_queue.go\<close> and the relation vocabulary of
  \<open>writequeue/relations.go\<close>.  The store, the detector and the relation store are interfaces whose
  implementations are outside the package: they are the functions of the record \<open>seams\<close>, any
  functions at all.  \<open>Submit\<close> holds the queue mutex from start to end but \<open>Cancel\<close> only takes the
  cancellation mutex, so a \<open>Cancel\<close> can run between any two of the critical sections of a running
  \<open>Submit\<close>: \<open>wq_step\<close> are those sections.
\<close>

section \<open>Values and state\<close>

record MemoryWrite =
  mw_ID :: string
  mw_Content :: string
  mw_Tags :: "string list"

datatype RelationVerb = RelationRelated | RelationConflicts | RelationSupersedes | RelationCompatible
  | RelationScoped | RelationNotConflict

record RelationCandidate =
  rel_From :: string
  rel_To :: string
  rel_Verb :: RelationVerb
  rel_Note :: string
  rel_EvidenceIDs :: "string list"

datatype evidence_code = WriteEvidenceComplete | WriteEvidenceCancelled | WriteEvidenceRelationFailed
  | WriteEvidenceWriteFailed

record WriteEvidence =
  we_Code :: evidence_code
  we_WriteOK :: bool
  we_Candidates :: "RelationCandidate list"
  we_Err :: "string option"

text \<open>The three seams; an error is its text, the detector and the relation store may be absent.\<close>

record ('st, 'rel) seams =
  store_Apply :: "MemoryWrite \<Rightarrow> 'st \<Rightarrow> string option \<times> 'st"
  store_List :: "'st \<Rightarrow> string + MemoryWrite list"
  detector :: "(MemoryWrite \<Rightarrow> MemoryWrite list \<Rightarrow> string + RelationCandidate list) option"
  relations_SavePending :: "(RelationCandidate list \<Rightarrow> 'rel \<Rightarrow> string option \<times> 'rel) option"

record ('st, 'rel) write_queue =
  wq_store :: 'st
  wq_relations :: 'rel
  wq_cancelled :: "string list"
  wq_consumed :: "string list"

section \<open>Cancellation\<close>

definition Cancel :: "string \<Rightarrow> ('st, 'rel) write_queue \<Rightarrow> bool \<times> ('st, 'rel) write_queue" where
  "Cancel wid q =
     (if wid = [] then (False, q)
      else if wid \<in> set (wq_consumed q) then (False, q)
      else if wid \<in> set (wq_cancelled q) then (True, q)
      else (True, q\<lparr>wq_cancelled := wid # wq_cancelled q\<rparr>))"

definition markConsumed :: "string \<Rightarrow> ('st, 'rel) write_queue \<Rightarrow> ('st, 'rel) write_queue" where
  "markConsumed wid q = q\<lparr>wq_consumed := List.insert wid (wq_consumed q)\<rparr>"

definition takeCancelled :: "string \<Rightarrow> ('st, 'rel) write_queue \<Rightarrow> bool \<times> ('st, 'rel) write_queue" where
  "takeCancelled wid q =
     (if wid \<in> set (wq_cancelled q)
      then (True, markConsumed wid (q\<lparr>wq_cancelled := removeAll wid (wq_cancelled q)\<rparr>))
      else (False, q))"

section \<open>Relation candidates\<close>

definition relationMemoryEvidenceIDs :: "string list \<Rightarrow> string list" where
  "relationMemoryEvidenceIDs ids = uniq (map (\<lambda>wid. ''memory:'' @ wid) (filter (\<lambda>wid. wid \<noteq> []) ids))"

definition withDefaultRelationEvidenceIDs :: "RelationCandidate list \<Rightarrow> RelationCandidate list" where
  "withDefaultRelationEvidenceIDs candidates =
     map (\<lambda>c. if rel_EvidenceIDs c \<noteq> [] then c
              else c\<lparr>rel_EvidenceIDs := relationMemoryEvidenceIDs [rel_From c, rel_To c]\<rparr>) candidates"

definition priorMemoriesExcluding :: "('st, 'rel) seams \<Rightarrow> string \<Rightarrow> ('st, 'rel) write_queue \<Rightarrow> string + MemoryWrite list" where
  "priorMemoriesExcluding sm wid q =
     (case store_List sm (wq_store q) of
        Inl e \<Rightarrow> Inl e
      | Inr xs \<Rightarrow> Inr (filter (\<lambda>m. mw_ID m \<noteq> wid) xs))"

section \<open>Submit\<close>

definition evidence :: "evidence_code \<Rightarrow> bool \<Rightarrow> RelationCandidate list \<Rightarrow> string option \<Rightarrow> WriteEvidence" where
  "evidence code ok cs err = \<lparr>we_Code = code, we_WriteOK = ok, we_Candidates = cs, we_Err = err\<rparr>"

text \<open>The part of \<open>Submit\<close> after the write: best-effort relation detection.\<close>

definition detectRelations :: "('st, 'rel) seams \<Rightarrow> MemoryWrite \<Rightarrow> ('st, 'rel) write_queue
    \<Rightarrow> WriteEvidence \<times> ('st, 'rel) write_queue" where
  "detectRelations sm w q =
     (case priorMemoriesExcluding sm (mw_ID w) q of
        Inl err \<Rightarrow> (evidence WriteEvidenceRelationFailed True [] (Some err), q)
      | Inr prior \<Rightarrow>
      (case detector sm of
        None \<Rightarrow> (evidence WriteEvidenceComplete True [] None, q)
      | Some det \<Rightarrow>
      (case det w prior of
        Inl err \<Rightarrow> (evidence WriteEvidenceRelationFailed True [] (Some err), q)
      | Inr found \<Rightarrow>
          if found = [] then (evidence WriteEvidenceComplete True [] None, q)
          else
            let candidates = withDefaultRelationEvidenceIDs found in
            (case relations_SavePending sm of
               None \<Rightarrow> (evidence WriteEvidenceComplete True candidates None, q)
             | Some save \<Rightarrow>
                 (case save candidates (wq_relations q) of
                    (Some err, r) \<Rightarrow> (evidence WriteEvidenceRelationFailed True [] (Some err), q\<lparr>wq_relations := r\<rparr>)
                  | (None, r) \<Rightarrow> (evidence WriteEvidenceComplete True candidates None, q\<lparr>wq_relations := r\<rparr>))))))"

definition Submit :: "('st, 'rel) seams \<Rightarrow> MemoryWrite \<Rightarrow> ('st, 'rel) write_queue
    \<Rightarrow> WriteEvidence \<times> ('st, 'rel) write_queue" where
  "Submit sm w q =
     (case takeCancelled (mw_ID w) q of
        (True, q1) \<Rightarrow> (evidence WriteEvidenceCancelled False [] None, q1)
      | (False, q1) \<Rightarrow>
          (case store_Apply sm w (wq_store q1) of
             (Some err, st) \<Rightarrow>
               (evidence WriteEvidenceWriteFailed False [] (Some err), markConsumed (mw_ID w) (q1\<lparr>wq_store := st\<rparr>))
           | (None, st) \<Rightarrow> detectRelations sm w (markConsumed (mw_ID w) (q1\<lparr>wq_store := st\<rparr>))))"

section \<open>Interleaving\<close>

text \<open>Where the \<open>Submit\<close> that holds the queue mutex is; at most one holds it.\<close>

datatype phase = Idle | Begun MemoryWrite | Applied MemoryWrite "string option" | Marked MemoryWrite

datatype wq_event = EvCancel string | EvBegin MemoryWrite | EvNext

datatype wq_out = OutCancel string bool | OutEvidence string WriteEvidence

text \<open>\<open>q_applied\<close> lists the writes handed to the store, oldest last, \<open>q_out\<close> what was returned.\<close>

record ('st, 'rel) wq_sys =
  q_queue :: "('st, 'rel) write_queue"
  q_phase :: phase
  q_applied :: "MemoryWrite list"
  q_out :: "wq_out list"

fun wq_step :: "('st, 'rel) seams \<Rightarrow> wq_event \<Rightarrow> ('st, 'rel) wq_sys \<Rightarrow> ('st, 'rel) wq_sys" where
  "wq_step sm (EvCancel wid) s =
     (case Cancel wid (q_queue s) of (ok, q) \<Rightarrow> s\<lparr>q_queue := q, q_out := OutCancel wid ok # q_out s\<rparr>)"
| "wq_step sm (EvBegin w) s =
     (if q_phase s \<noteq> Idle then s
      else case takeCancelled (mw_ID w) (q_queue s) of
        (True, q) \<Rightarrow> s\<lparr>q_queue := q, q_out := OutEvidence (mw_ID w) (evidence WriteEvidenceCancelled False [] None) # q_out s\<rparr>
      | (False, q) \<Rightarrow> s\<lparr>q_queue := q, q_phase := Begun w\<rparr>)"
| "wq_step sm EvNext s =
     (case q_phase s of
        Idle \<Rightarrow> s
      | Begun w \<Rightarrow>
          (case store_Apply sm w (wq_store (q_queue s)) of (err, st) \<Rightarrow>
             s\<lparr>q_queue := (q_queue s)\<lparr>wq_store := st\<rparr>, q_phase := Applied w err, q_applied := w # q_applied s\<rparr>)
      | Applied w (Some err) \<Rightarrow>
          s\<lparr>q_queue := markConsumed (mw_ID w) (q_queue s), q_phase := Idle,
            q_out := OutEvidence (mw_ID w) (evidence WriteEvidenceWriteFailed False [] (Some err)) # q_out s\<rparr>
      | Applied w None \<Rightarrow> s\<lparr>q_queue := markConsumed (mw_ID w) (q_queue s), q_phase := Marked w\<rparr>
      | Marked w \<Rightarrow>
          (case detectRelations sm w (q_queue s) of (ev, q) \<Rightarrow>
             s\<lparr>q_queue := q, q_phase := Idle, q_out := OutEvidence (mw_ID w) ev # q_out s\<rparr>))"

fun phase_id :: "phase \<Rightarrow> string option" where
  "phase_id Idle = None"
| "phase_id (Begun w) = Some (mw_ID w)"
| "phase_id (Applied w e) = Some (mw_ID w)"
| "phase_id (Marked w) = Some (mw_ID w)"

fun is_marked :: "phase \<Rightarrow> bool" where
  "is_marked (Marked w) = True"
| "is_marked p = False"

text \<open>
  Every write handed to the store has been marked consumed, except the one whose \<open>Submit\<close> is
  still between the store call and the mark; the empty id is never cancelled.
\<close>

definition wq_inv :: "('st, 'rel) wq_sys \<Rightarrow> bool" where
  "wq_inv s \<longleftrightarrow> (\<forall>w \<in> set (q_applied s). mw_ID w \<in> set (wq_consumed (q_queue s))
        \<or> phase_id (q_phase s) = Some (mw_ID w))
   \<and> [] \<notin> set (wq_cancelled (q_queue s))
   \<and> (is_marked (q_phase s) \<longrightarrow> (\<forall>i. phase_id (q_phase s) = Some i \<longrightarrow> i \<in> set (wq_consumed (q_queue s))))"

definition wq_start :: "'st \<Rightarrow> 'rel \<Rightarrow> ('st, 'rel) wq_sys" where
  "wq_start st r = \<lparr>q_queue = \<lparr>wq_store = st, wq_relations = r, wq_cancelled = [], wq_consumed = []\<rparr>,
     q_phase = Idle, q_applied = [], q_out = []\<rparr>"

lemma detectRelations_frame:
  "wq_store (snd (detectRelations sm w q)) = wq_store q"
  "wq_cancelled (snd (detectRelations sm w q)) = wq_cancelled q"
  "wq_consumed (snd (detectRelations sm w q)) = wq_consumed q"
  by (simp_all add: detectRelations_def Let_def split: sum.splits option.splits prod.splits)

lemma detectRelations_ok: "we_WriteOK (fst (detectRelations sm w q))"
  by (simp add: detectRelations_def evidence_def Let_def split: sum.splits option.splits prod.splits)

lemma detectRelations_code:
  "we_Code (fst (detectRelations sm w q)) \<in> {WriteEvidenceComplete, WriteEvidenceRelationFailed}"
  by (simp add: detectRelations_def evidence_def Let_def split: sum.splits option.splits prod.splits)

lemma wq_step_inv: "wq_inv s \<Longrightarrow> wq_inv (wq_step sm e s)"
proof (cases e)
  case (EvCancel wid)
  then show "wq_inv s \<Longrightarrow> ?thesis" by (simp add: wq_inv_def Cancel_def)
next
  case (EvBegin w)
  then show "wq_inv s \<Longrightarrow> ?thesis"
    by (auto simp: wq_inv_def takeCancelled_def markConsumed_def split: prod.splits bool.splits)
next
  case EvNext
  assume i: "wq_inv s"
  show ?thesis
  proof (cases "q_phase s")
    case Idle
    with EvNext i show ?thesis by simp
  next
    case (Begun w)
    with EvNext i show ?thesis by (auto simp: wq_inv_def split: prod.splits)
  next
    case (Applied w r)
    with EvNext i show ?thesis by (cases r) (auto simp: wq_inv_def markConsumed_def)
  next
    case (Marked w)
    with EvNext i show ?thesis by (auto simp: wq_inv_def detectRelations_frame case_prod_beta)
  qed
qed

interpretation write_queue: machine "wq_step sm" wq_inv for sm
  by unfold_locales (rule wq_step_inv)

lemma wq_start_inv: "wq_inv (wq_start st r)"
  by (simp add: wq_inv_def wq_start_def)

text \<open>Consumed ids stay consumed.\<close>

lemma wq_step_consumed: "set (wq_consumed (q_queue s)) \<subseteq> set (wq_consumed (q_queue (wq_step sm e s)))"
proof (cases e)
  case EvNext
  then show ?thesis
    by (cases "q_phase s"; cases "case q_phase s of Applied w r \<Rightarrow> r | _ \<Rightarrow> None")
      (auto simp: markConsumed_def detectRelations_frame case_prod_beta split: option.splits)
qed (auto simp: Cancel_def takeCancelled_def markConsumed_def split: prod.splits bool.splits)

lemma wq_run_consumed: "i \<in> set (wq_consumed (q_queue s)) \<Longrightarrow> i \<in> set (wq_consumed (q_queue (fold (wq_step sm) es s)))"
proof (induction es arbitrary: s)
  case (Cons e es)
  then show ?case using wq_step_consumed [of s sm e] by auto
qed simp

section \<open>Correctness of the queue\<close>

text \<open>
  \<open>Submit\<close> is its critical sections run without interruption: from an idle queue, the begin
  step and three further steps leave the queue exactly as \<open>Submit\<close> does, idle again, with the
  evidence \<open>Submit\<close> returns as the output.
\<close>

theorem submit_refines_steps:
  assumes "q_phase s = Idle"
  shows "let s' = fold (wq_step sm) [EvBegin w, EvNext, EvNext, EvNext] s in
     q_queue s' = snd (Submit sm w (q_queue s)) \<and> q_phase s' = Idle
   \<and> q_out s' = OutEvidence (mw_ID w) (fst (Submit sm w (q_queue s))) # q_out s"
proof -
  obtain c q1 where tc: "takeCancelled (mw_ID w) (q_queue s) = (c, q1)" by fastforce
  obtain err st where ap: "store_Apply sm w (wq_store q1) = (err, st)" by fastforce
  show ?thesis
    using assms tc ap by (cases c; cases err) (simp_all add: Submit_def Let_def case_prod_beta)
qed

text \<open>
  The originating write is authoritative: a cancelled submission touches neither the store nor
  the relations; any other submission hands the write to the store exactly once, reports success
  exactly when the store did, whatever the detector and the relation store answer, and saves no
  relation when the store failed; afterwards the id can no longer be cancelled.
\<close>

theorem submit_write_authoritative:
  "case Submit sm w q of (ev, q') \<Rightarrow>
     (if mw_ID w \<in> set (wq_cancelled q)
      then we_Code ev = WriteEvidenceCancelled \<and> \<not> we_WriteOK ev \<and> wq_store q' = wq_store q \<and> wq_relations q' = wq_relations q
      else (case store_Apply sm w (wq_store q) of (err, st) \<Rightarrow>
          wq_store q' = st \<and> (we_WriteOK ev \<longleftrightarrow> err = None)
        \<and> (case err of
             Some x \<Rightarrow> we_Code ev = WriteEvidenceWriteFailed \<and> we_Err ev = Some x \<and> wq_relations q' = wq_relations q
           | None \<Rightarrow> we_Code ev \<in> {WriteEvidenceComplete, WriteEvidenceRelationFailed})))
   \<and> fst (Cancel (mw_ID w) q') = False"
proof -
  have d: "we_WriteOK ev \<and> we_Code ev \<in> {WriteEvidenceComplete, WriteEvidenceRelationFailed}
      \<and> wq_store q' = wq_store r \<and> wq_consumed q' = wq_consumed r"
    if "detectRelations sm w r = (ev, q')" for r ev q'
    using detectRelations_ok [of sm w r] detectRelations_code [of sm w r] detectRelations_frame [of sm w r] that by simp
  show ?thesis
  proof (cases "mw_ID w \<in> set (wq_cancelled q)")
    case True
    then show ?thesis by (simp add: Submit_def takeCancelled_def evidence_def markConsumed_def Cancel_def)
  next
    case False
    obtain err st where ap: "store_Apply sm w (wq_store q) = (err, st)" by fastforce
    obtain ev q' where dr: "detectRelations sm w (markConsumed (mw_ID w) (q\<lparr>wq_store := st\<rparr>)) = (ev, q')" by fastforce
    show ?thesis
      using False ap dr d [OF dr] by (cases err) (auto simp: Submit_def takeCancelled_def evidence_def markConsumed_def Cancel_def)
  qed
qed

fun begins :: "string \<Rightarrow> wq_event \<Rightarrow> bool" where
  "begins i (EvBegin w) \<longleftrightarrow> mw_ID w = i"
| "begins i e \<longleftrightarrow> False"

definition waiting_cancelled :: "string \<Rightarrow> MemoryWrite list \<Rightarrow> ('st, 'rel) wq_sys \<Rightarrow> bool" where
  "waiting_cancelled i ws s \<longleftrightarrow> i \<in> set (wq_cancelled (q_queue s)) \<and> phase_id (q_phase s) \<noteq> Some i
     \<and> filter (\<lambda>m. mw_ID m = i) (q_applied s) = ws"

lemma waiting_cancelled_step:
  assumes "waiting_cancelled i ws s" and "\<not> begins i e"
  shows "waiting_cancelled i ws (wq_step sm e s)"
proof (cases e)
  case EvNext
  show ?thesis
  proof (cases "q_phase s")
    case (Applied w r)
    with EvNext assms show ?thesis by (cases r) (auto simp: waiting_cancelled_def markConsumed_def)
  qed (use EvNext assms in \<open>auto simp: waiting_cancelled_def detectRelations_frame case_prod_beta\<close>)
qed (use assms in \<open>auto simp: waiting_cancelled_def Cancel_def takeCancelled_def markConsumed_def
      split: prod.splits bool.splits if_splits\<close>)

lemma waiting_cancelled_run:
  "waiting_cancelled i ws s \<Longrightarrow> \<forall>e \<in> set es. \<not> begins i e \<Longrightarrow> waiting_cancelled i ws (fold (wq_step sm) es s)"
  by (induction es arbitrary: s) (auto intro: waiting_cancelled_step)

text \<open>
  A cancellation registered before the write began holds: when \<open>Cancel\<close> of an id returns true
  while no submission of that id is running, then, whatever other submissions and cancellations
  follow, no write of that id reaches the store and its next submission is answered as cancelled
  with the store untouched.
\<close>

theorem cancel_before_start_holds:
  assumes c: "fst (Cancel i (q_queue s))" and p: "phase_id (q_phase s) \<noteq> Some i"
    and es: "\<forall>e \<in> set es. \<not> begins i e"
    and idle: "q_phase (fold (wq_step sm) (EvCancel i # es) s) = Idle" and w: "mw_ID w = i"
  shows "let s' = fold (wq_step sm) (EvCancel i # es) s; s'' = wq_step sm (EvBegin w) s' in
     filter (\<lambda>m. mw_ID m = i) (q_applied s'') = filter (\<lambda>m. mw_ID m = i) (q_applied s)
   \<and> q_out s'' = OutEvidence i (evidence WriteEvidenceCancelled False [] None) # q_out s'
   \<and> wq_store (q_queue s'') = wq_store (q_queue s') \<and> q_phase s'' = Idle"
proof -
  let ?ws = "filter (\<lambda>m. mw_ID m = i) (q_applied s)"
  have "waiting_cancelled i ?ws (wq_step sm (EvCancel i) s)"
    using c p by (auto simp: waiting_cancelled_def Cancel_def split: if_splits)
  then have "waiting_cancelled i ?ws (fold (wq_step sm) es (wq_step sm (EvCancel i) s))"
    by (rule waiting_cancelled_run [OF _ es])
  then show ?thesis
    using idle w by (auto simp: Let_def waiting_cancelled_def takeCancelled_def markConsumed_def)
qed

text \<open>
  \<open>Cancel\<close> can report a registered cancellation for a write that has begun: between the check
  and the mark of a running \<open>Submit\<close> of a fresh id it returns true, the write is applied all the
  same, and the next submission of that id is dropped as cancelled without reaching the store.
\<close>

theorem late_cancel_reported_registered:
  assumes idle: "q_phase s = Idle" and i: "mw_ID w = i" "mw_ID w' = i" "i \<noteq> []"
    and fresh: "i \<notin> set (wq_cancelled (q_queue s))" "i \<notin> set (wq_consumed (q_queue s))"
    and ok: "fst (store_Apply sm w (wq_store (q_queue s))) = None"
  shows "let s' = fold (wq_step sm) [EvBegin w, EvCancel i, EvNext, EvNext, EvNext, EvBegin w'] s in
     OutCancel i True \<in> set (q_out s') \<and> q_applied s' = w # q_applied s
   \<and> hd (q_out s') = OutEvidence i (evidence WriteEvidenceCancelled False [] None)
   \<and> wq_store (q_queue s') = snd (store_Apply sm w (wq_store (q_queue s)))"
proof -
  obtain st where ap: "store_Apply sm w (wq_store (q_queue s)) = (None, st)"
    using ok by (cases "store_Apply sm w (wq_store (q_queue s))") auto
  show ?thesis
    using idle i fresh ap
    by (simp add: Let_def takeCancelled_def Cancel_def markConsumed_def detectRelations_frame case_prod_beta)
qed

text \<open>
  An id whose submission has been decided can never be cancelled again: once it is consumed,
  every later \<open>Cancel\<close> of it, in any interleaving, returns false.
\<close>

theorem consumed_never_cancelled:
  assumes "i \<in> set (wq_consumed (q_queue s))"
  shows "fst (Cancel i (q_queue (fold (wq_step sm) es s))) = False"
  using wq_run_consumed [OF assms, of sm es] by (simp add: Cancel_def)

section \<open>A sample queue\<close>

definition demo_seams :: "(MemoryWrite list, RelationCandidate list) seams" where
  "demo_seams = \<lparr>store_Apply = (\<lambda>w st. if mw_Content w = [] then (Some ''empty'', st) else (None, st @ [w])),
     store_List = Inr,
     detector = Some (\<lambda>w prior. Inr (map (\<lambda>m. \<lparr>rel_From = mw_ID w, rel_To = mw_ID m, rel_Verb = RelationRelated,
        rel_Note = [], rel_EvidenceIDs = []\<rparr>) prior)),
     relations_SavePending = Some (\<lambda>cs r. (None, r @ cs))\<rparr>"

definition demo_write :: "string \<Rightarrow> string \<Rightarrow> MemoryWrite" where
  "demo_write i c = \<lparr>mw_ID = i, mw_Content = c, mw_Tags = []\<rparr>"

definition demo_sys :: "(MemoryWrite list, RelationCandidate list) wq_sys" where
  "demo_sys = wq_start [demo_write ''m0'' ''x''] []"

theorem submit_refines_steps_witness:
  "q_queue (fold (wq_step demo_seams) [EvBegin (demo_write ''m1'' ''y''), EvNext, EvNext, EvNext] demo_sys)
     = snd (Submit demo_seams (demo_write ''m1'' ''y'') (q_queue demo_sys))"
proof -
  have "q_phase demo_sys = Idle" by code_simp
  from submit_refines_steps [OF this, of demo_seams "demo_write ''m1'' ''y''"] show ?thesis unfolding Let_def by blast
qed

theorem submit_write_authoritative_witness:
  "\<not> we_WriteOK (fst (Submit demo_seams (demo_write ''m2'' []) (q_queue demo_sys)))
   \<and> we_WriteOK (fst (Submit demo_seams (demo_write ''m1'' ''y'') (q_queue demo_sys)))"
proof -
  have "''m2'' \<notin> set (wq_cancelled (q_queue demo_sys))" "''m1'' \<notin> set (wq_cancelled (q_queue demo_sys))" by code_simp+
  then show ?thesis
    using submit_write_authoritative [of "demo_write ''m2'' []" "q_queue demo_sys" demo_seams]
      submit_write_authoritative [of "demo_write ''m1'' ''y''" "q_queue demo_sys" demo_seams]
    by (auto simp: demo_seams_def demo_write_def split: prod.splits)
qed

lemmas demo_wq_simps = demo_sys_def wq_start_def demo_write_def demo_seams_def Cancel_def takeCancelled_def
  markConsumed_def detectRelations_def priorMemoriesExcluding_def Let_def

theorem cancel_before_start_holds_witness:
  "\<exists>rest. q_out (wq_step demo_seams (EvBegin (demo_write ''m1'' ''y'')) (fold (wq_step demo_seams)
       [EvCancel ''m1'', EvBegin (demo_write ''m2'' ''z''), EvNext, EvNext, EvNext] demo_sys))
     = OutEvidence ''m1'' (evidence WriteEvidenceCancelled False [] None) # rest"
proof -
  let ?es = "[EvBegin (demo_write ''m2'' ''z''), EvNext, EvNext, EvNext]"
  have "fst (Cancel ''m1'' (q_queue demo_sys))" "phase_id (q_phase demo_sys) \<noteq> Some ''m1''"
    "\<forall>e \<in> set ?es. \<not> begins ''m1'' e"
    "q_phase (fold (wq_step demo_seams) (EvCancel ''m1'' # ?es) demo_sys) = Idle"
    "mw_ID (demo_write ''m1'' ''y'') = ''m1''" by (simp_all add: demo_wq_simps)
  from cancel_before_start_holds [OF this] show ?thesis unfolding Let_def by blast
qed

theorem late_cancel_reported_registered_witness:
  "OutCancel ''m1'' True \<in> set (q_out (fold (wq_step demo_seams) [EvBegin (demo_write ''m1'' ''y''), EvCancel ''m1'',
       EvNext, EvNext, EvNext, EvBegin (demo_write ''m1'' ''v2'')] demo_sys))"
proof -
  have "q_phase demo_sys = Idle" "mw_ID (demo_write ''m1'' ''y'') = ''m1''" "mw_ID (demo_write ''m1'' ''v2'') = ''m1''"
    "''m1'' \<noteq> []" "''m1'' \<notin> set (wq_cancelled (q_queue demo_sys))" "''m1'' \<notin> set (wq_consumed (q_queue demo_sys))"
    "fst (store_Apply demo_seams (demo_write ''m1'' ''y'') (wq_store (q_queue demo_sys))) = None" by (simp_all add: demo_wq_simps)
  from late_cancel_reported_registered [OF this] show ?thesis unfolding Let_def by blast
qed

theorem consumed_never_cancelled_witness:
  "fst (Cancel ''m1'' (q_queue (fold (wq_step demo_seams) [EvCancel ''m3'']
     (fold (wq_step demo_seams) [EvBegin (demo_write ''m1'' ''y''), EvNext, EvNext] demo_sys)))) = False"
  by (rule consumed_never_cancelled) (simp add: demo_wq_simps)

end
