(* ===== verification/MemorySlots.thy ===== *)
theory MemorySlots
  imports Scope
begin

text \<open>
  The memory slots of \<open>service/memory_slots.go\<close>: named values per workspace, profile, peer and
  scope, with a revision counter and soft deletion.  Each operation reads the row, upserts it and
  then records an observation; the three are not one transaction, so a failed observation leaves the
  row written.  \<open>Service.Observe\<close> is an argument (\<open>obs\<close>, any function of the observation and its
  store), \<open>flt\<close> says which SQL statement fails and \<open>now\<close> is the clock reading in seconds.  The
  abstract specification \<open>spec_step\<close> is a map from slot keys to kind, value and revision.
\<close>

section \<open>Values and tables\<close>

record MemorySlotParams =
  sp_WorkspaceID :: string
  sp_ProfileID :: string
  sp_Peer :: string
  sp_Scope :: string
  sp_Name :: string
  sp_Kind :: string
  sp_Value :: string

record MemorySlotQuery =
  sq_WorkspaceID :: string
  sq_ProfileID :: string
  sq_Peer :: string
  sq_Scope :: string
  sq_Name :: string
  sq_Limit :: int

record MemorySlot =
  sl_WorkspaceID :: string
  sl_ProfileID :: string
  sl_Peer :: string
  sl_Scope :: string
  sl_Name :: string
  sl_Kind :: string
  sl_Value :: string
  sl_Revision :: int
  sl_Deleted :: bool
  sl_CreatedAt :: int
  sl_UpdatedAt :: int

type_synonym slot_key = "string \<times> string \<times> string \<times> string \<times> string"

definition slot_key :: "MemorySlot \<Rightarrow> slot_key" where
  "slot_key r = (sl_WorkspaceID r, sl_ProfileID r, sl_Peer r, sl_Scope r, sl_Name r)"

text \<open>What \<open>auditMemorySlot\<close> hands to \<open>Service.Observe\<close>: the action and the slot it reports.\<close>

record slot_observation =
  so_ProfileID :: string
  so_PeerID :: string
  so_Input :: string
  so_Output :: string
  so_Reason :: string
  so_Metadata :: "(string \<times> string) list"

record 'o slot_db =
  slots :: "MemorySlot list"
  observed :: 'o

datatype slot_site = SlotGet | SlotUpsert | SlotList

datatype slot_error = SlotInvalid string | ErrMemorySlotNotFound string | ErrMemorySlotConflict string
  | SlotDb slot_site | SlotObserve string

record slot_service =
  ss_workspaceID :: string
  ss_ulow :: "string \<Rightarrow> string"

section \<open>Normalisation\<close>

definition normalizeMemorySlotParams :: "slot_service \<Rightarrow> MemorySlotParams \<Rightarrow> slot_error + MemorySlot" where
  "normalizeMemorySlotParams sv p =
     (let scope = scopekey_Normalize (ss_workspaceID sv) (sp_WorkspaceID p) (sp_ProfileID p) (sp_Peer p);
          name = trim_space (sp_Name p);
          kind0 = trim_space (sp_Kind p);
          kind = (if kind0 = [] then ''fact'' else kind0);
          val = trim_space (sp_Value p) in
      if \<not> Complete scope \<or> name = [] \<or> val = []
      then Inl (SlotInvalid ''memory slot workspace_id, peer, name, and value are required'')
      else Inr \<lparr>sl_WorkspaceID = WorkspaceID scope, sl_ProfileID = ProfileID scope, sl_Peer = Peer scope,
             sl_Scope = memoryscope_Normalize (ss_ulow sv) (sp_Scope p) (ProfileID scope), sl_Name = name,
             sl_Kind = kind, sl_Value = val, sl_Revision = 0, sl_Deleted = False, sl_CreatedAt = 0, sl_UpdatedAt = 0\<rparr>)"

definition normalizeMemorySlotQuery :: "slot_service \<Rightarrow> MemorySlotQuery \<Rightarrow> slot_error + MemorySlot" where
  "normalizeMemorySlotQuery sv q =
     (let scope = scopekey_Normalize (ss_workspaceID sv) (sq_WorkspaceID q) (sq_ProfileID q) (sq_Peer q) in
      if \<not> Complete scope then Inl (SlotInvalid ''memory slot workspace_id and peer are required'')
      else Inr \<lparr>sl_WorkspaceID = WorkspaceID scope, sl_ProfileID = ProfileID scope, sl_Peer = Peer scope,
             sl_Scope = memoryscope_Normalize (ss_ulow sv) (sq_Scope q) (ProfileID scope), sl_Name = trim_space (sq_Name q),
             sl_Kind = [], sl_Value = [], sl_Revision = 0, sl_Deleted = False, sl_CreatedAt = 0, sl_UpdatedAt = 0\<rparr>)"

section \<open>Statements\<close>

definition getMemorySlotRow :: "'o slot_db \<Rightarrow> slot_key \<Rightarrow> bool \<Rightarrow> MemorySlot option" where
  "getMemorySlotRow db k includeDeleted =
     (case tfind slot_key k (slots db) of
        None \<Rightarrow> None
      | Some r \<Rightarrow> if sl_Deleted r \<and> \<not> includeDeleted then None else Some r)"

text \<open>The \<open>SET\<close> clause: the stored creation time is kept.\<close>

definition set_slot :: "MemorySlot \<Rightarrow> MemorySlot \<Rightarrow> MemorySlot" where
  "set_slot old new = old\<lparr>sl_Kind := sl_Kind new, sl_Value := sl_Value new, sl_Revision := sl_Revision new,
     sl_Deleted := sl_Deleted new, sl_UpdatedAt := sl_UpdatedAt new\<rparr>"

definition upsertMemorySlotRow :: "MemorySlot \<Rightarrow> 'o slot_db \<Rightarrow> 'o slot_db" where
  "upsertMemorySlotRow r db = db\<lparr>slots := tupsert slot_key set_slot r (slots db)\<rparr>"

type_synonym 'o observe = "slot_observation \<Rightarrow> 'o \<Rightarrow> string option \<times> 'o"

definition auditMemorySlot :: "'o observe \<Rightarrow> string \<Rightarrow> MemorySlot \<Rightarrow> 'o slot_db \<Rightarrow> string option \<times> 'o slot_db" where
  "auditMemorySlot obs action slot db =
     (case obs \<lparr>so_ProfileID = sl_ProfileID slot, so_PeerID = sl_Peer slot, so_Input = sl_Name slot, so_Output = action,
             so_Reason = ''memory_slot_'' @ action,
             so_Metadata = [(''custom_kind'', ''memory_slot''), (''action'', action), (''slot_name'', sl_Name slot),
               (''slot_scope'', sl_Scope slot), (''profile_id'', sl_ProfileID slot), (''kind'', sl_Kind slot),
               (''revision'', Decimal (sl_Revision slot))]\<rparr> (observed db) of
        (err, o') \<Rightarrow> (err, db\<lparr>observed := o'\<rparr>))"

text \<open>The upsert and the observation every operation ends with.\<close>

definition storeSlot :: "'o observe \<Rightarrow> (slot_site \<Rightarrow> bool) \<Rightarrow> string \<Rightarrow> MemorySlot \<Rightarrow> 'o slot_db
    \<Rightarrow> (slot_error + MemorySlot) \<times> 'o slot_db" where
  "storeSlot obs flt action slot db =
     (if flt SlotUpsert then (Inl (SlotDb SlotUpsert), db)
      else case auditMemorySlot obs action slot (upsertMemorySlotRow slot db) of
        (Some e, db') \<Rightarrow> (Inl (SlotObserve e), db')
      | (None, db') \<Rightarrow> (Inr slot, db'))"

section \<open>Operations\<close>

definition CreateMemorySlot :: "'o observe \<Rightarrow> (slot_site \<Rightarrow> bool) \<Rightarrow> slot_service \<Rightarrow> int \<Rightarrow> MemorySlotParams
    \<Rightarrow> 'o slot_db \<Rightarrow> (slot_error + MemorySlot) \<times> 'o slot_db" where
  "CreateMemorySlot obs flt sv now params db =
     (case normalizeMemorySlotParams sv params of
        Inl e \<Rightarrow> (Inl e, db)
      | Inr norm \<Rightarrow>
          if flt SlotGet then (Inl (SlotDb SlotGet), db)
          else
            let existing = getMemorySlotRow db (slot_key norm) True;
                live = (case existing of None \<Rightarrow> False | Some e \<Rightarrow> \<not> sl_Deleted e);
                created = (case existing of None \<Rightarrow> now | Some e \<Rightarrow> if sl_CreatedAt e > 0 then sl_CreatedAt e else now) in
            if live then (Inl (ErrMemorySlotConflict (sl_Name norm)), db)
            else storeSlot obs flt ''create'' (norm\<lparr>sl_Revision := 1, sl_CreatedAt := created, sl_UpdatedAt := now\<rparr>) db)"

definition AppendMemorySlot :: "'o observe \<Rightarrow> (slot_site \<Rightarrow> bool) \<Rightarrow> slot_service \<Rightarrow> int \<Rightarrow> MemorySlotParams
    \<Rightarrow> 'o slot_db \<Rightarrow> (slot_error + MemorySlot) \<times> 'o slot_db" where
  "AppendMemorySlot obs flt sv now params db =
     (case normalizeMemorySlotParams sv params of
        Inl e \<Rightarrow> (Inl e, db)
      | Inr norm \<Rightarrow>
          if flt SlotGet then (Inl (SlotDb SlotGet), db)
          else case getMemorySlotRow db (slot_key norm) False of
            None \<Rightarrow> (Inl (ErrMemorySlotNotFound (sl_Name norm)), db)
          | Some existing \<Rightarrow>
              let appendValue = trim_space (sl_Value norm) in
              if appendValue = [] then (Inl (SlotInvalid ''memory slot value is required''), db)
              else storeSlot obs flt ''append''
                (existing\<lparr>sl_Value := (if trim_space (sl_Value existing) = [] then appendValue
                             else sl_Value existing @ [CHR 0x0A] @ appendValue),
                   sl_Kind := (if sl_Kind norm \<noteq> [] then sl_Kind norm else sl_Kind existing),
                   sl_Revision := sl_Revision existing + 1, sl_UpdatedAt := now\<rparr>) db)"

definition ReplaceMemorySlot :: "'o observe \<Rightarrow> (slot_site \<Rightarrow> bool) \<Rightarrow> slot_service \<Rightarrow> int \<Rightarrow> MemorySlotParams
    \<Rightarrow> 'o slot_db \<Rightarrow> (slot_error + MemorySlot) \<times> 'o slot_db" where
  "ReplaceMemorySlot obs flt sv now params db =
     (case normalizeMemorySlotParams sv params of
        Inl e \<Rightarrow> (Inl e, db)
      | Inr norm \<Rightarrow>
          if flt SlotGet then (Inl (SlotDb SlotGet), db)
          else case getMemorySlotRow db (slot_key norm) False of
            None \<Rightarrow> (Inl (ErrMemorySlotNotFound (sl_Name norm)), db)
          | Some existing \<Rightarrow>
              storeSlot obs flt ''replace''
                (existing\<lparr>sl_Value := sl_Value norm,
                   sl_Kind := (if sl_Kind norm \<noteq> [] then sl_Kind norm else sl_Kind existing),
                   sl_Revision := sl_Revision existing + 1, sl_UpdatedAt := now\<rparr>) db)"

definition DeleteMemorySlot :: "'o observe \<Rightarrow> (slot_site \<Rightarrow> bool) \<Rightarrow> slot_service \<Rightarrow> int \<Rightarrow> MemorySlotQuery
    \<Rightarrow> 'o slot_db \<Rightarrow> (slot_error + MemorySlot) \<times> 'o slot_db" where
  "DeleteMemorySlot obs flt sv now query db =
     (case normalizeMemorySlotQuery sv query of
        Inl e \<Rightarrow> (Inl e, db)
      | Inr norm \<Rightarrow>
          if sl_Name norm = [] then (Inl (SlotInvalid ''memory slot name is required''), db)
          else if flt SlotGet then (Inl (SlotDb SlotGet), db)
          else case getMemorySlotRow db (slot_key norm) False of
            None \<Rightarrow> (Inl (ErrMemorySlotNotFound (sl_Name norm)), db)
          | Some existing \<Rightarrow>
              storeSlot obs flt ''delete''
                (existing\<lparr>sl_Deleted := True, sl_Revision := sl_Revision existing + 1, sl_UpdatedAt := now\<rparr>) db)"

definition GetMemorySlot :: "(slot_site \<Rightarrow> bool) \<Rightarrow> slot_service \<Rightarrow> MemorySlotQuery \<Rightarrow> 'o slot_db \<Rightarrow> slot_error + MemorySlot" where
  "GetMemorySlot flt sv query db =
     (case normalizeMemorySlotQuery sv query of
        Inl e \<Rightarrow> Inl e
      | Inr norm \<Rightarrow>
          if sl_Name norm = [] then Inl (SlotInvalid ''memory slot name is required'')
          else if flt SlotGet then Inl (SlotDb SlotGet)
          else case getMemorySlotRow db (slot_key norm) False of
            None \<Rightarrow> Inl (ErrMemorySlotNotFound (sl_Name norm))
          | Some slot \<Rightarrow> Inr slot)"

definition ListMemorySlots :: "(slot_site \<Rightarrow> bool) \<Rightarrow> slot_service \<Rightarrow> MemorySlotQuery \<Rightarrow> 'o slot_db
    \<Rightarrow> slot_error + MemorySlot list" where
  "ListMemorySlots flt sv query db =
     (case normalizeMemorySlotQuery sv query of
        Inl e \<Rightarrow> Inl e
      | Inr norm \<Rightarrow>
          if flt SlotList then Inl (SlotDb SlotList)
          else Inr (take (nat (LimitDefault (sq_Limit query) 100))
            (order_asc sl_Name (filter (\<lambda>r. sl_WorkspaceID r = sl_WorkspaceID norm \<and> sl_ProfileID r = sl_ProfileID norm
               \<and> sl_Peer r = sl_Peer norm \<and> sl_Scope r = sl_Scope norm \<and> \<not> sl_Deleted r) (slots db)))))"

interpretation slot_rows: keyed_table slot_key set_slot
  by unfold_locales (simp add: slot_key_def set_slot_def)

section \<open>Invariant\<close>

definition slot_ok :: "MemorySlot \<Rightarrow> bool" where
  "slot_ok r \<longleftrightarrow> trimmed (sl_Value r) \<and> sl_Value r \<noteq> [] \<and> sl_Kind r \<noteq> [] \<and> 1 \<le> sl_Revision r
     \<and> sl_Name r \<noteq> [] \<and> sl_WorkspaceID r \<noteq> [] \<and> sl_Peer r \<noteq> []"

definition slot_inv :: "'o slot_db \<Rightarrow> bool" where
  "slot_inv db \<longleftrightarrow> unique_keys slot_key (slots db) \<and> (\<forall>r \<in> set (slots db). slot_ok r)"

datatype slot_op = OpCreate MemorySlotParams | OpAppend MemorySlotParams | OpReplace MemorySlotParams
  | OpDelete MemorySlotQuery

fun run_op :: "'o observe \<Rightarrow> (slot_site \<Rightarrow> bool) \<Rightarrow> slot_service \<Rightarrow> int \<Rightarrow> slot_op \<Rightarrow> 'o slot_db
    \<Rightarrow> (slot_error + MemorySlot) \<times> 'o slot_db" where
  "run_op obs flt sv now (OpCreate p) db = CreateMemorySlot obs flt sv now p db"
| "run_op obs flt sv now (OpAppend p) db = AppendMemorySlot obs flt sv now p db"
| "run_op obs flt sv now (OpReplace p) db = ReplaceMemorySlot obs flt sv now p db"
| "run_op obs flt sv now (OpDelete q) db = DeleteMemorySlot obs flt sv now q db"

lemma storeSlot_slots:
  "slots (snd (storeSlot obs flt a r db)) = (if flt SlotUpsert then slots db else tupsert slot_key set_slot r (slots db))"
  by (simp add: storeSlot_def auditMemorySlot_def upsertMemorySlotRow_def split: prod.splits option.splits)

lemma storeSlot_result:
  "\<not> flt SlotUpsert \<Longrightarrow> fst (storeSlot obs flt a r db) = Inr r \<or> (\<exists>e. fst (storeSlot obs flt a r db) = Inl (SlotObserve e))"
  by (auto simp: storeSlot_def auditMemorySlot_def split: prod.splits option.splits)

lemma storeSlot_inv:
  assumes i: "slot_inv db" and r: "slot_ok r"
  shows "slot_inv (snd (storeSlot obs flt a r db))"
proof (cases "flt SlotUpsert")
  case True
  with i show ?thesis by (simp add: slot_inv_def storeSlot_def)
next
  case False
  have "slot_ok x" if "x \<in> set (tupsert slot_key set_slot r (slots db))" for x
    using slot_rows.upsert_row [OF that] i r by (auto simp: slot_inv_def slot_ok_def set_slot_def)
  with i False show ?thesis by (simp add: slot_inv_def storeSlot_slots)
qed

lemma normalizeMemorySlotParams_ok:
  "normalizeMemorySlotParams sv p = Inr n \<Longrightarrow> slot_ok (n\<lparr>sl_Revision := 1, sl_CreatedAt := c, sl_UpdatedAt := u\<rparr>)
     \<and> \<not> sl_Deleted n \<and> sl_Kind n \<noteq> [] \<and> trimmed (sl_Value n) \<and> sl_Value n \<noteq> []"
  by (auto simp: normalizeMemorySlotParams_def slot_ok_def Complete_def Let_def split: if_splits)

lemma getMemorySlotRow_ok: "getMemorySlotRow db k b = Some r \<Longrightarrow> slot_inv db \<Longrightarrow> slot_ok r \<and> slot_key r = k"
  by (auto simp: getMemorySlotRow_def slot_inv_def split: option.splits if_splits dest!: tfind_Some)

lemma append_value_ok:
  "trimmed v \<Longrightarrow> v \<noteq> [] \<Longrightarrow> trimmed w \<Longrightarrow> w \<noteq> [] \<Longrightarrow> trimmed (v @ CHR 0x0A # w)"
  by (simp add: trimmed_def trimmed_join)

lemma run_op_inv: "slot_inv db \<Longrightarrow> slot_inv (snd (run_op obs flt sv now e db))"
proof (cases e)
  case (OpCreate p)
  then show "slot_inv db \<Longrightarrow> ?thesis"
    by (auto simp: CreateMemorySlot_def Let_def split: sum.splits
        intro!: storeSlot_inv normalizeMemorySlotParams_ok [THEN conjunct1])
next
  case (OpAppend p)
  assume i: "slot_inv db"
  show ?thesis
  proof (cases "normalizeMemorySlotParams sv p")
    case (Inr n)
    note n = normalizeMemorySlotParams_ok [OF Inr]
    show ?thesis
    proof (cases "getMemorySlotRow db (slot_key n) False")
      case (Some x)
      from getMemorySlotRow_ok [OF Some i] have x: "slot_ok x" by simp
      then have "trimmed (sl_Value x @ CHR 0x0A # sl_Value n)"
        using append_value_ok n by (simp add: slot_ok_def)
      with x n i Inr Some OpAppend show ?thesis
        by (auto simp: AppendMemorySlot_def Let_def slot_ok_def trimmed_def intro!: storeSlot_inv)
    qed (use i Inr OpAppend in \<open>simp add: AppendMemorySlot_def\<close>)
  qed (use i OpAppend in \<open>simp add: AppendMemorySlot_def\<close>)
next
  case (OpReplace p)
  assume i: "slot_inv db"
  show ?thesis
  proof (cases "normalizeMemorySlotParams sv p")
    case (Inr n)
    with i OpReplace normalizeMemorySlotParams_ok [OF Inr] getMemorySlotRow_ok [of db "slot_key n" False] show ?thesis
      by (auto simp: ReplaceMemorySlot_def slot_ok_def split: option.splits intro!: storeSlot_inv)
  qed (use i OpReplace in \<open>simp add: ReplaceMemorySlot_def\<close>)
next
  case (OpDelete q)
  assume i: "slot_inv db"
  show ?thesis
  proof (cases "normalizeMemorySlotQuery sv q")
    case (Inr n)
    with i OpDelete getMemorySlotRow_ok [of db "slot_key n" False] show ?thesis
      by (auto simp: DeleteMemorySlot_def slot_ok_def split: option.splits intro!: storeSlot_inv)
  qed (use i OpDelete in \<open>simp add: DeleteMemorySlot_def\<close>)
qed

section \<open>Specification\<close>

text \<open>The abstract slots: live keys with their kind, value and revision.\<close>

type_synonym slot_map = "slot_key \<Rightarrow> (string \<times> string \<times> int) option"

definition slot_abs :: "'o slot_db \<Rightarrow> slot_map" where
  "slot_abs db k = map_option (\<lambda>r. (sl_Kind r, sl_Value r, sl_Revision r)) (getMemorySlotRow db k False)"

fun spec_op :: "slot_service \<Rightarrow> slot_op \<Rightarrow> slot_map \<Rightarrow> slot_error option \<times> slot_map" where
  "spec_op sv (OpCreate p) m =
     (case normalizeMemorySlotParams sv p of
        Inl e \<Rightarrow> (Some e, m)
      | Inr n \<Rightarrow> (case m (slot_key n) of
            Some _ \<Rightarrow> (Some (ErrMemorySlotConflict (sl_Name n)), m)
          | None \<Rightarrow> (None, m(slot_key n \<mapsto> (sl_Kind n, sl_Value n, 1)))))"
| "spec_op sv (OpAppend p) m =
     (case normalizeMemorySlotParams sv p of
        Inl e \<Rightarrow> (Some e, m)
      | Inr n \<Rightarrow> (case m (slot_key n) of
            None \<Rightarrow> (Some (ErrMemorySlotNotFound (sl_Name n)), m)
          | Some (kd, v, rv) \<Rightarrow> (None, m(slot_key n \<mapsto> (sl_Kind n, v @ [CHR 0x0A] @ sl_Value n, rv + 1)))))"
| "spec_op sv (OpReplace p) m =
     (case normalizeMemorySlotParams sv p of
        Inl e \<Rightarrow> (Some e, m)
      | Inr n \<Rightarrow> (case m (slot_key n) of
            None \<Rightarrow> (Some (ErrMemorySlotNotFound (sl_Name n)), m)
          | Some (kd, v, rv) \<Rightarrow> (None, m(slot_key n \<mapsto> (sl_Kind n, sl_Value n, rv + 1)))))"
| "spec_op sv (OpDelete q) m =
     (case normalizeMemorySlotQuery sv q of
        Inl e \<Rightarrow> (Some e, m)
      | Inr n \<Rightarrow>
          if sl_Name n = [] then (Some (SlotInvalid ''memory slot name is required''), m)
          else case m (slot_key n) of
            None \<Rightarrow> (Some (ErrMemorySlotNotFound (sl_Name n)), m)
          | Some _ \<Rightarrow> (None, m(slot_key n := None)))"

lemma slot_abs_store:
  assumes "\<not> flt SlotUpsert" and k: "slot_key r = k"
  shows "slot_abs (snd (storeSlot obs flt a r db)) =
    (slot_abs db)(k := if sl_Deleted r then None else Some (sl_Kind r, sl_Value r, sl_Revision r))"
proof
  fix j
  have "getMemorySlotRow (snd (storeSlot obs flt a r db)) j False =
      (if j = k then if sl_Deleted r then None
          else Some (case tfind slot_key k (slots db) of None \<Rightarrow> r | Some x \<Rightarrow> set_slot x r)
       else getMemorySlotRow db j False)"
    using assms by (auto simp: getMemorySlotRow_def storeSlot_slots slot_rows.find_upsert set_slot_def split: option.splits)
  then show "slot_abs (snd (storeSlot obs flt a r db)) j =
      ((slot_abs db)(k := if sl_Deleted r then None else Some (sl_Kind r, sl_Value r, sl_Revision r))) j"
    by (auto simp: slot_abs_def set_slot_def split: option.splits)
qed

definition refines :: "(slot_error + MemorySlot) \<times> 'o slot_db \<Rightarrow> 'o slot_db \<Rightarrow> slot_error option \<times> slot_map \<Rightarrow> bool" where
  "refines out db sp \<longleftrightarrow> slot_abs (snd out) = snd sp \<and>
     (case fst sp of
        Some e \<Rightarrow> out = (Inl e, db)
      | None \<Rightarrow> (case fst out of
          Inr slot \<Rightarrow> \<not> sl_Deleted slot \<longrightarrow>
            snd sp (slot_key slot) = Some (sl_Kind slot, sl_Value slot, sl_Revision slot)
        | Inl e \<Rightarrow> \<exists>x. e = SlotObserve x))"

lemma refines_store:
  assumes f: "\<not> flt SlotUpsert" and k: "slot_key r = k"
    and m: "m = (slot_abs db)(k := if sl_Deleted r then None else Some (sl_Kind r, sl_Value r, sl_Revision r))"
  shows "refines (storeSlot obs flt a r db) db (None, m)"
proof -
  have "slot_abs (snd (storeSlot obs flt a r db)) = m" unfolding m by (rule slot_abs_store) (rule f, rule k)
  moreover have "fst (storeSlot obs flt a r db) = Inr r \<or> (\<exists>e. fst (storeSlot obs flt a r db) = Inl (SlotObserve e))"
    by (rule storeSlot_result) (rule f)
  ultimately show ?thesis using k m by (auto simp: refines_def)
qed

lemma slot_key_updates [simp]:
  "slot_key (r\<lparr>sl_Kind := a\<rparr>) = slot_key r" "slot_key (r\<lparr>sl_Value := a\<rparr>) = slot_key r"
  "slot_key (r\<lparr>sl_Revision := i\<rparr>) = slot_key r" "slot_key (r\<lparr>sl_Deleted := b\<rparr>) = slot_key r"
  "slot_key (r\<lparr>sl_CreatedAt := i\<rparr>) = slot_key r" "slot_key (r\<lparr>sl_UpdatedAt := i\<rparr>) = slot_key r"
  by (simp_all add: slot_key_def)

lemma getMemorySlotRow_live: "getMemorySlotRow db k False = Some r \<Longrightarrow> \<not> sl_Deleted r"
  by (auto simp: getMemorySlotRow_def split: option.splits if_splits)

lemma getMemorySlotRow_abs:
  "getMemorySlotRow db k False = None \<Longrightarrow> slot_abs db k = None"
  "getMemorySlotRow db k False = Some r \<Longrightarrow> slot_abs db k = Some (sl_Kind r, sl_Value r, sl_Revision r)"
  by (simp_all add: slot_abs_def)

lemma create_refines:
  assumes nf: "\<And>s. \<not> flt s" and n: "normalizeMemorySlotParams sv p = Inr n"
  shows "refines (CreateMemorySlot obs flt sv now p db) db (spec_op sv (OpCreate p) (slot_abs db))"
proof (cases "getMemorySlotRow db (slot_key n) False")
  case None
  let ?c = "case getMemorySlotRow db (slot_key n) True of None \<Rightarrow> now | Some e \<Rightarrow> if sl_CreatedAt e > 0 then sl_CreatedAt e else now"
  have "CreateMemorySlot obs flt sv now p db =
      storeSlot obs flt ''create'' (n\<lparr>sl_Revision := 1, sl_CreatedAt := ?c, sl_UpdatedAt := now\<rparr>) db"
    using None nf n by (auto simp: CreateMemorySlot_def getMemorySlotRow_def Let_def split: option.splits if_splits)
  moreover have "spec_op sv (OpCreate p) (slot_abs db) = (None, (slot_abs db)(slot_key n \<mapsto> (sl_Kind n, sl_Value n, 1)))"
    using n getMemorySlotRow_abs(1) [OF None] by simp
  ultimately show ?thesis
    using nf normalizeMemorySlotParams_ok [OF n] by (simp add: refines_store)
next
  case (Some x)
  then have "CreateMemorySlot obs flt sv now p db = (Inl (ErrMemorySlotConflict (sl_Name n)), db)"
    using nf n by (auto simp: CreateMemorySlot_def getMemorySlotRow_def Let_def split: option.splits if_splits)
  with n getMemorySlotRow_abs(2) [OF Some] show ?thesis by (simp add: refines_def)
qed

lemma append_refines:
  assumes nf: "\<And>s. \<not> flt s" and n: "normalizeMemorySlotParams sv p = Inr n" and i: "slot_inv db"
  shows "refines (AppendMemorySlot obs flt sv now p db) db (spec_op sv (OpAppend p) (slot_abs db))"
proof (cases "getMemorySlotRow db (slot_key n) False")
  case None
  with n nf getMemorySlotRow_abs(1) [OF None] show ?thesis by (simp add: AppendMemorySlot_def refines_def)
next
  case (Some x)
  note ok = normalizeMemorySlotParams_ok [OF n] getMemorySlotRow_ok [OF Some i] getMemorySlotRow_live [OF Some]
  have t: "trim_space (sl_Value x) \<noteq> []" "trim_space (sl_Value n) = sl_Value n" "sl_Value n \<noteq> []"
    using ok by (auto simp: slot_ok_def trimmed_def)
  have "AppendMemorySlot obs flt sv now p db = storeSlot obs flt ''append''
      (x\<lparr>sl_Value := sl_Value x @ [CHR 0x0A] @ sl_Value n, sl_Kind := sl_Kind n,
         sl_Revision := sl_Revision x + 1, sl_UpdatedAt := now\<rparr>) db"
    using Some nf n t ok by (simp add: AppendMemorySlot_def)
  moreover have "spec_op sv (OpAppend p) (slot_abs db) =
      (None, (slot_abs db)(slot_key n \<mapsto> (sl_Kind n, sl_Value x @ [CHR 0x0A] @ sl_Value n, sl_Revision x + 1)))"
    using n getMemorySlotRow_abs(2) [OF Some] by simp
  ultimately show ?thesis using nf ok by (simp add: refines_store)
qed

lemma replace_refines:
  assumes nf: "\<And>s. \<not> flt s" and n: "normalizeMemorySlotParams sv p = Inr n" and i: "slot_inv db"
  shows "refines (ReplaceMemorySlot obs flt sv now p db) db (spec_op sv (OpReplace p) (slot_abs db))"
proof (cases "getMemorySlotRow db (slot_key n) False")
  case None
  with n nf getMemorySlotRow_abs(1) [OF None] show ?thesis by (simp add: ReplaceMemorySlot_def refines_def)
next
  case (Some x)
  note ok = normalizeMemorySlotParams_ok [OF n] getMemorySlotRow_ok [OF Some i] getMemorySlotRow_live [OF Some]
  have "spec_op sv (OpReplace p) (slot_abs db) =
      (None, (slot_abs db)(slot_key n \<mapsto> (sl_Kind n, sl_Value n, sl_Revision x + 1)))"
    using n getMemorySlotRow_abs(2) [OF Some] by simp
  with Some nf n ok show ?thesis by (simp add: ReplaceMemorySlot_def refines_store)
qed

lemma delete_refines:
  assumes nf: "\<And>s. \<not> flt s" and n: "normalizeMemorySlotQuery sv q = Inr n" and i: "slot_inv db"
  shows "refines (DeleteMemorySlot obs flt sv now q db) db (spec_op sv (OpDelete q) (slot_abs db))"
proof (cases "getMemorySlotRow db (slot_key n) False")
  case None
  with n nf getMemorySlotRow_abs(1) [OF None] show ?thesis by (simp add: DeleteMemorySlot_def refines_def)
next
  case (Some x)
  have k: "slot_key x = slot_key n" using getMemorySlotRow_ok [OF Some i] by simp
  show ?thesis
  proof (cases "sl_Name n = []")
    case True
    with n nf show ?thesis by (simp add: DeleteMemorySlot_def refines_def)
  next
    case False
    have "spec_op sv (OpDelete q) (slot_abs db) = (None, (slot_abs db)(slot_key n := None))"
      using n False getMemorySlotRow_abs(2) [OF Some] by simp
    with Some nf n k False show ?thesis by (simp add: DeleteMemorySlot_def refines_store)
  qed
qed

lemma run_op_refines:
  assumes "slot_inv db"
  shows "refines (run_op obs (\<lambda>_. False) sv now e db) db (spec_op sv e (slot_abs db))"
proof (cases e)
  case (OpCreate p)
  then show ?thesis
    by (cases "normalizeMemorySlotParams sv p")
      (simp add: CreateMemorySlot_def refines_def, simp only: run_op.simps, rule create_refines, simp_all)
next
  case (OpAppend p)
  then show ?thesis using assms
    by (cases "normalizeMemorySlotParams sv p")
      (simp add: AppendMemorySlot_def refines_def, simp only: run_op.simps, rule append_refines, simp_all)
next
  case (OpReplace p)
  then show ?thesis using assms
    by (cases "normalizeMemorySlotParams sv p")
      (simp add: ReplaceMemorySlot_def refines_def, simp only: run_op.simps, rule replace_refines, simp_all)
next
  case (OpDelete q)
  then show ?thesis using assms
    by (cases "normalizeMemorySlotQuery sv q")
      (simp add: DeleteMemorySlot_def refines_def, simp only: run_op.simps, rule delete_refines, simp_all)
qed

definition slot_step :: "'o observe \<Rightarrow> slot_service \<Rightarrow> int \<times> slot_op \<Rightarrow> 'o slot_db \<Rightarrow> 'o slot_db" where
  "slot_step obs sv ev db = snd (run_op obs (\<lambda>_. False) sv (fst ev) (snd ev) db)"

interpretation slot_machine: simulation "slot_step obs sv" slot_inv slot_abs "\<lambda>ev m. snd (spec_op sv (snd ev) m)" for obs sv
  by unfold_locales (simp_all add: slot_step_def run_op_inv run_op_refines [unfolded refines_def, THEN conjunct1])

section \<open>Correctness of the slots\<close>


text \<open>
  An append or a replace whose parameters name no kind overwrites the stored kind with
  \<open>fact\<close>: the normaliser has already defaulted the kind, so the guard that means to keep the
  stored kind when none was given never fires.
\<close>

theorem append_resets_kind:
  assumes i: "slot_inv db" and p: "trim_space (sp_Kind p) = []" and e: "e = OpAppend p \<or> e = OpReplace p"
    and c: "run_op obs (\<lambda>_. False) sv now e db = (Inr slot, db')"
  shows "sl_Kind slot = ''fact'' \<and> map_option fst (slot_abs db' (slot_key slot)) = Some ''fact''"
proof -
  note r = run_op_refines [OF i, of obs sv now e, unfolded c refines_def]
  have kd: "sl_Kind n = ''fact''" if "normalizeMemorySlotParams sv p = Inr n" for n
    using that p by (auto simp: normalizeMemorySlotParams_def Let_def split: if_splits)
  have live: "\<not> sl_Deleted slot \<and> sl_Kind slot = ''fact''"
  proof -
    have s: "slot = x" if "storeSlot obs (\<lambda>_. False) a x db = (Inr slot, db')" for a x
      using that by (auto simp: storeSlot_def split: prod.splits option.splits)
    from e show ?thesis
    proof
      assume "e = OpAppend p"
      with c kd show ?thesis
        by (auto simp: AppendMemorySlot_def Let_def split: sum.splits option.splits if_splits
            dest!: s getMemorySlotRow_live)
    next
      assume "e = OpReplace p"
      with c kd show ?thesis
        by (auto simp: ReplaceMemorySlot_def split: sum.splits option.splits if_splits
            dest!: s getMemorySlotRow_live)
    qed
  qed
  from r have "slot_abs db' (slot_key slot) = Some (sl_Kind slot, sl_Value slot, sl_Revision slot)"
    using live by (auto split: option.splits)
  with live show ?thesis by simp
qed

text \<open>
  A failed observation does not undo the write: when the observation log refuses the entry, a
  create reports the error although the slot is stored, so that the same create, repeated, fails
  with a conflict.
\<close>

theorem create_not_atomic:
  assumes n: "normalizeMemorySlotParams sv p = Inr n" and i: "slot_inv db" and new: "slot_abs db (slot_key n) = None"
    and c: "CreateMemorySlot obs (\<lambda>_. False) sv now p db = (Inl (SlotObserve x), db')"
  shows "slot_abs db' (slot_key n) = Some (sl_Kind n, sl_Value n, 1)
    \<and> CreateMemorySlot obs (\<lambda>_. False) sv now' p db' = (Inl (ErrMemorySlotConflict (sl_Name n)), db')"
proof -
  have "slot_abs db' = snd (spec_op sv (OpCreate p) (slot_abs db))"
    using run_op_refines [OF i, of obs sv now "OpCreate p"] c by (simp add: refines_def)
  then have a: "slot_abs db' (slot_key n) = Some (sl_Kind n, sl_Value n, 1)" using n new by simp
  have "slot_inv db'" using run_op_inv [OF i, of obs "\<lambda>_. False" sv now "OpCreate p"] c by simp
  from run_op_refines [OF this, of obs sv now' "OpCreate p"] n a show ?thesis by (simp add: refines_def)
qed

section \<open>A sample store\<close>

definition demo_ss :: slot_service where
  "demo_ss = \<lparr>ss_workspaceID = ''w'', ss_ulow = (\<lambda>s. s)\<rparr>"

definition demo_sp :: "string \<Rightarrow> string \<Rightarrow> MemorySlotParams" where
  "demo_sp kd v = \<lparr>sp_WorkspaceID = [], sp_ProfileID = ''p'', sp_Peer = ''bob'', sp_Scope = [], sp_Name = '' goals '',
     sp_Kind = kd, sp_Value = v\<rparr>"

definition demo_obs :: "nat \<Rightarrow> slot_observation list observe" where
  "demo_obs cap ob log = (if length log < cap then (None, ob # log) else (Some ''full'', log))"

definition demo_slots :: "slot_observation list slot_db" where
  "demo_slots = slot_step (demo_obs 9) demo_ss (5, OpCreate (demo_sp ''plan'' ''ship'')) \<lparr>slots = [], observed = []\<rparr>"

lemma empty_slots_inv: "slot_inv \<lparr>slots = [], observed = (x :: slot_observation list)\<rparr>"
  by (simp add: slot_inv_def)

lemma demo_slots_inv: "slot_inv demo_slots"
  unfolding demo_slots_def by (rule slot_machine.step_inv [OF empty_slots_inv])

definition demo_slot_key :: slot_key where
  "demo_slot_key = (''w'', ''p'', ''bob'', ''profile'', ''goals'')"


theorem append_resets_kind_witness:
  "map_option fst (slot_abs demo_slots demo_slot_key) = Some ''plan''
   \<and> (\<exists>slot db'. run_op (demo_obs 9) (\<lambda>_. False) demo_ss 8 (OpAppend (demo_sp [] ''more'')) demo_slots = (Inr slot, db')
       \<and> sl_Kind slot = ''fact'')"
proof -
  let ?c = "run_op (demo_obs 9) (\<lambda>_. False) demo_ss 8 (OpAppend (demo_sp [] ''more'')) demo_slots"
  have k: "map_option fst (slot_abs demo_slots demo_slot_key) = Some ''plan''" by code_simp
  have "is_ok (fst ?c)" by code_simp
  then obtain slot db' where c: "?c = (Inr slot, db')" by (cases ?c) (auto simp: is_ok_iff)
  have "trim_space (sp_Kind (demo_sp [] ''more'')) = []" by (simp add: demo_sp_def)
  from append_resets_kind [OF demo_slots_inv this disjI1 [OF refl] c] k c show ?thesis by blast
qed

theorem create_not_atomic_witness:
  "\<exists>x db'. CreateMemorySlot (demo_obs 0) (\<lambda>_. False) demo_ss 5 (demo_sp ''plan'' ''ship'') \<lparr>slots = [], observed = []\<rparr>
      = (Inl (SlotObserve x), db')
    \<and> slot_abs db' demo_slot_key = Some (''plan'', ''ship'', 1)"
proof -
  let ?c = "CreateMemorySlot (demo_obs 0) (\<lambda>_. False) demo_ss 5 (demo_sp ''plan'' ''ship'') \<lparr>slots = [], observed = []\<rparr>"
  have "(case fst ?c of Inl (SlotObserve x) \<Rightarrow> True | _ \<Rightarrow> False)" by code_simp
  then obtain x db' where c: "?c = (Inl (SlotObserve x), db')"
    by (cases ?c; cases "fst ?c") (auto split: slot_error.splits sum.splits)
  have "map_sum id (\<lambda>n. (slot_key n, sl_Kind n, sl_Value n)) (normalizeMemorySlotParams demo_ss (demo_sp ''plan'' ''ship''))
      = Inr (demo_slot_key, ''plan'', ''ship'')" by code_simp
  then obtain n where n: "normalizeMemorySlotParams demo_ss (demo_sp ''plan'' ''ship'') = Inr n"
    "slot_key n = demo_slot_key" "sl_Kind n = ''plan''" "sl_Value n = ''ship''"
    by (cases "normalizeMemorySlotParams demo_ss (demo_sp ''plan'' ''ship'')") auto
  have "slot_abs \<lparr>slots = [], observed = [] :: slot_observation list\<rparr> (slot_key n) = None"
    by (simp add: slot_abs_def getMemorySlotRow_def)
  from create_not_atomic [OF n(1) empty_slots_inv this c] n c show ?thesis by auto
qed

end
