(* ===== verification/Turns.thy ===== *)
theory Turns
  imports Text Tables
begin

text \<open>
  The rows of \<open>turns\<close> (\<open>memory/sqlite.go\<close>), which sessions, searches and imports share.  A session message
  is tagged with the metadata of \<open>createLifecycleMessages\<close>; assistant replies have no metadata, and the
  chunks of an imported file have metadata of their own.
\<close>

text \<open>
  A text stands for the user's metadata map, a Go value.  Encoding it in a row and decoding it again, as a listing
  does, is a function of its own (\<open>remap\<close> of Lifecycle), since numbers come back as floats and an empty map as nil.
\<close>

record lifecycleMessageMeta =
  lm_WorkspaceID :: string
  lm_ProfileID :: string
  lm_PeerID :: string
  lm_Sequence :: int
  lm_Metadata :: string

text \<open>
  \<open>meta_json\<close>: null or no JSON, a JSON object without \<open>goncho.workspace_id\<close>, or the metadata of a session
  message (a sequence that is absent reads 0).
\<close>

datatype turn_meta = NoMeta | OtherMeta | GonchoMeta lifecycleMessageMeta

record turn_row =
  tu_SessionID :: string
  tu_Role :: string
  tu_Content :: string
  tu_TsUnix :: int
  tu_ChatID :: "string option"
  tu_Meta :: turn_meta
  tu_SyncStatus :: string

text \<open>
  \<open>CASE WHEN json_valid(COALESCE(meta_json, '')) THEN json_extract(meta_json, '$.goncho.workspace_id') ELSE '' END = ?\<close>;
  a null is equal to nothing.
\<close>

definition of_workspace :: "string \<Rightarrow> turn_row \<Rightarrow> bool" where
  "of_workspace ws r \<longleftrightarrow> (case tu_Meta r of NoMeta \<Rightarrow> ws = [] | OtherMeta \<Rightarrow> False | GonchoMeta m \<Rightarrow> lm_WorkspaceID m = ws)"

lemma of_workspace_tagged:
  assumes "of_workspace ws r" "ws \<noteq> []"
  obtains m where "tu_Meta r = GonchoMeta m" "lm_WorkspaceID m = ws"
  using assms by (cases "tu_Meta r") (simp_all add: of_workspace_def)

end
