(* ===== verification/Utf8.thy ===== *)
theory Utf8
  imports Prelude "HOL-Library.Sublist"
begin

text \<open>
  UTF-8 as \<open>unicode/utf8\<close> and \<open>strings\<close> treat it: \<open>valid_utf8\<close> (\<open>utf8.Valid\<close>), \<open>ToValidUTF8\<close>, which replaces each
  maximal run of invalid bytes, and the truncation of \<open>internal/observationlog\<close>, which backs off to a
  valid prefix.
\<close>

section \<open>Runes\<close>

definition cont_byte :: "char \<Rightarrow> bool" where
  "cont_byte c \<longleftrightarrow> 128 \<le> byte c \<and> byte c \<le> 191"

text \<open>The bytes a lead byte allows in second place.\<close>

definition second_byte :: "char \<Rightarrow> char \<Rightarrow> bool" where
  "second_byte a b \<longleftrightarrow>
     (if byte a = 224 then 160 \<le> byte b \<and> byte b \<le> 191
      else if byte a = 237 then 128 \<le> byte b \<and> byte b \<le> 159
      else if byte a = 240 then 144 \<le> byte b \<and> byte b \<le> 191
      else if byte a = 244 then 128 \<le> byte b \<and> byte b \<le> 143
      else cont_byte b)"

text \<open>The length that a lead byte announces, 0 for a byte that leads no rune.\<close>

definition lead_len :: "char \<Rightarrow> nat" where
  "lead_len a =
     (if byte a < 128 then 1
      else if 194 \<le> byte a \<and> byte a \<le> 223 then 2
      else if 224 \<le> byte a \<and> byte a \<le> 239 then 3
      else if 240 \<le> byte a \<and> byte a \<le> 244 then 4
      else 0)"

text \<open>The number of bytes of the rune a string starts with, 0 when there is none.\<close>

definition rune_len :: "string \<Rightarrow> nat" where
  "rune_len s = (case s of
     [] \<Rightarrow> 0
   | a # t \<Rightarrow>
       let n = lead_len a in
       if n = 0 \<or> length t < n - 1 then 0
       else if n = 1 then 1
       else if second_byte a (t ! 0) \<and> list_all cont_byte (take (n - 2) (drop 1 t)) then n
       else 0)"

function valid_utf8 :: "string \<Rightarrow> bool" where
  "valid_utf8 s \<longleftrightarrow> (if s = [] then True else if rune_len s = 0 then False else valid_utf8 (drop (rune_len s) s))"
  by pat_completeness auto
termination
  by (relation "measure length") auto

declare valid_utf8.simps [simp del]

text \<open>\<open>strings.ToValidUTF8(s, "\\uFFFD")\<close>; \<open>run\<close> says that the byte before was invalid.\<close>

definition replacement_rune :: string where
  "replacement_rune = [char_of (239 :: nat), char_of (191 :: nat), char_of (189 :: nat)]"

function to_valid :: "bool \<Rightarrow> string \<Rightarrow> string" where
  "to_valid run s =
     (if s = [] then []
      else if rune_len s = 0 then (if run then [] else replacement_rune) @ to_valid True (drop 1 s)
      else take (rune_len s) s @ to_valid False (drop (rune_len s) s))"
  by pat_completeness auto
termination
  by (relation "measure (\<lambda>(run, s). length s)") auto

declare to_valid.simps [simp del]

definition ToValidUTF8 :: "string \<Rightarrow> string" where
  "ToValidUTF8 s = to_valid False s"

section \<open>Truncation\<close>

text \<open>\<open>for len(raw) > 0 && !utf8.Valid(raw) { raw = raw[:len(raw)-1] }\<close>\<close>

function drop_invalid :: "string \<Rightarrow> string" where
  "drop_invalid raw = (if raw \<noteq> [] \<and> \<not> valid_utf8 raw then drop_invalid (butlast raw) else raw)"
  by pat_completeness auto
termination
  by (relation "measure length") auto

declare drop_invalid.simps [simp del]

definition truncateUTF8Bytes :: "string \<Rightarrow> nat \<Rightarrow> string \<times> bool" where
  "truncateUTF8Bytes value limit =
     (if length value \<le> limit then (value, False) else (drop_invalid (take limit value), True))"

section \<open>Validity\<close>

lemma lead_len_le: "lead_len a \<le> 4"
  by (simp add: lead_len_def)

lemma rune_len_Nil [simp]: "rune_len [] = 0"
  by (simp add: rune_len_def)

lemma rune_len_cases: "rune_len s = 0 \<or> (\<exists>a t. s = a # t \<and> rune_len s = lead_len a \<and> lead_len a \<noteq> 0 \<and> lead_len a \<le> length s)"
  by (cases s) (auto simp: rune_len_def Let_def)

lemma rune_len_le: "rune_len s \<le> length s" "rune_len s \<le> 4"
  using rune_len_cases [of s] lead_len_le by fastforce+

text \<open>The rune a string starts with depends on its own bytes only.\<close>

lemma rune_len_take: "rune_len s \<noteq> 0 \<Longrightarrow> rune_len s \<le> k \<Longrightarrow> rune_len (take k s) = rune_len s"
proof -
  assume n: "rune_len s \<noteq> 0" and k: "rune_len s \<le> k"
  from rune_len_cases [of s] n obtain a t where s: "s = a # t" "rune_len s = lead_len a" "lead_len a \<noteq> 0" "lead_len a \<le> length s" by blast
  from k s(2,3) obtain j where j: "k = Suc j" by (cases k) auto
  have e: "take (lead_len a - 2) (drop 1 (take j t)) = take (lead_len a - 2) (drop 1 t)" if "lead_len a \<noteq> 1"
    using that s k j by (simp add: drop_take min_def)
  show ?thesis
    using n s k j e by (auto simp: rune_len_def Let_def split: if_splits)
qed

lemma rune_len_append: "rune_len s \<noteq> 0 \<Longrightarrow> rune_len (s @ t) = rune_len s"
  by (cases s) (auto simp: rune_len_def Let_def nth_append split: if_splits)

lemma valid_Nil [simp]: "valid_utf8 []"
  by (simp add: valid_utf8.simps)

lemma valid_step: "s \<noteq> [] \<Longrightarrow> valid_utf8 s \<longleftrightarrow> rune_len s \<noteq> 0 \<and> valid_utf8 (drop (rune_len s) s)"
  by (subst valid_utf8.simps) simp

lemma valid_append: "valid_utf8 s \<Longrightarrow> valid_utf8 t \<Longrightarrow> valid_utf8 (s @ t)"
proof (induction s rule: valid_utf8.induct)
  case (1 s)
  show ?case
  proof (cases "s = []")
    case False
    with 1 have "rune_len s \<noteq> 0" "valid_utf8 (drop (rune_len s) s @ t)" by (simp_all add: valid_step)
    with False rune_len_le(1) [of s] show ?thesis by (simp add: valid_step rune_len_append)
  qed (use 1 in simp)
qed

lemma valid_rune: "rune_len s \<noteq> 0 \<Longrightarrow> valid_utf8 (take (rune_len s) s)"
  using rune_len_take [of s "rune_len s"] by (subst valid_utf8.simps) (simp add: rune_len_le)

lemma valid_replacement: "valid_utf8 replacement_rune"
  by code_simp

lemma to_valid_Nil [simp]: "to_valid run [] = []"
  by (simp add: to_valid.simps)

lemma valid_to_valid: "valid_utf8 (to_valid run s)"
proof (induction run s rule: to_valid.induct)
  case (1 run s)
  consider "s = []" | "s \<noteq> []" "rune_len s = 0" | "s \<noteq> []" "rune_len s \<noteq> 0" by blast
  then show ?case
  proof cases
    case 2
    with 1 have "valid_utf8 ((if run then [] else replacement_rune) @ to_valid True (drop 1 s))"
      by (intro valid_append) (simp_all add: valid_replacement)
    with 2 show ?thesis by (simp add: to_valid.simps [of run s])
  next
    case 3
    with 1 have "valid_utf8 (take (rune_len s) s @ to_valid False (drop (rune_len s) s))"
      by (intro valid_append valid_rune) simp_all
    with 3 show ?thesis by (simp add: to_valid.simps [of run s])
  qed simp
qed

lemma to_valid_id: "valid_utf8 s \<Longrightarrow> to_valid run s = s"
proof (induction s arbitrary: run rule: valid_utf8.induct)
  case (1 s)
  then show ?case by (cases "s = []") (simp_all add: to_valid.simps [of run s] valid_step)
qed

lemma ToValidUTF8_valid [simp]: "valid_utf8 (ToValidUTF8 s)"
  by (simp add: ToValidUTF8_def valid_to_valid)

lemma ToValidUTF8_id: "valid_utf8 s \<Longrightarrow> ToValidUTF8 s = s"
  by (simp add: ToValidUTF8_def to_valid_id)

section \<open>What truncation keeps\<close>

text \<open>A valid string has a valid prefix within three bytes of any limit.\<close>

lemma valid_prefix_near:
  "valid_utf8 s \<Longrightarrow> limit \<le> length s \<Longrightarrow> \<exists>k. limit - 3 \<le> k \<and> k \<le> limit \<and> valid_utf8 (take k s)"
proof (induction s arbitrary: limit rule: valid_utf8.induct)
  case (1 s)
  show ?case
  proof (cases "s = [] \<or> limit < rune_len s")
    case True
    then show ?thesis using 1(3) rune_len_le(2) [of s] by (intro exI [of _ 0]) auto
  next
    case False
    with "1.prems" have r: "rune_len s \<noteq> 0" "valid_utf8 (drop (rune_len s) s)" by (simp_all add: valid_step)
    with 1 False obtain k where k: "limit - rune_len s - 3 \<le> k" "k \<le> limit - rune_len s" "valid_utf8 (take k (drop (rune_len s) s))"
      by (metis diff_le_mono length_drop)
    have "valid_utf8 (take (rune_len s) s @ take k (drop (rune_len s) s))" by (intro valid_append valid_rune r k)
    then have "valid_utf8 (take (rune_len s + k) s)" by (simp add: take_add)
    with k False show ?thesis by (intro exI [of _ "rune_len s + k"]) auto
  qed
qed

lemma drop_invalid_prefix: "valid_utf8 (drop_invalid s) \<and> prefix (drop_invalid s) s"
proof (induction s rule: drop_invalid.induct)
  case (1 raw)
  show ?case
  proof (cases "raw \<noteq> [] \<and> \<not> valid_utf8 raw")
    case True
    with 1 show ?thesis by (subst (1 2) drop_invalid.simps) (auto intro: prefix_order.trans prefixeq_butlast)
  next
    case False
    then show ?thesis by (subst (1 2) drop_invalid.simps) auto
  qed
qed

lemma drop_invalid_longest: "valid_utf8 (take k s) \<Longrightarrow> k \<le> length s \<Longrightarrow> k \<le> length (drop_invalid s)"
proof (induction s rule: drop_invalid.induct)
  case (1 raw)
  show ?case
  proof (cases "raw \<noteq> [] \<and> \<not> valid_utf8 raw")
    case True
    with 1(2,3) have "k < length raw" by (metis le_neq_implies_less take_all order_refl)
    then have "take k raw = take k (butlast raw)" "k \<le> length (butlast raw)" by (simp_all add: take_butlast)
    with 1 True show ?thesis by (subst drop_invalid.simps) auto
  next
    case False
    then show ?thesis using 1 by (subst drop_invalid.simps) auto
  qed
qed

text \<open>
  Truncation of a valid text respects the limit and loses at most three bytes beyond it: the result
  is a valid prefix of the text, no longer than the limit, within three bytes of the limit when the text is
  longer, and the text itself otherwise; the flag says which.
\<close>

theorem truncate_bounds:
  assumes "valid_utf8 value" "truncateUTF8Bytes value limit = (out, truncated)"
  shows "prefix out value \<and> valid_utf8 out \<and> length out \<le> limit \<and> min limit (length value) - 3 \<le> length out
    \<and> truncated = (limit < length value) \<and> (truncated \<or> out = value)"
proof (cases "length value \<le> limit")
  case True
  with assms show ?thesis by (auto simp: truncateUTF8Bytes_def)
next
  case False
  with assms(2) have o: "out = drop_invalid (take limit value)" "truncated" by (auto simp: truncateUTF8Bytes_def)
  have p: "valid_utf8 out" "prefix out (take limit value)" using drop_invalid_prefix o(1) by simp_all
  then have "prefix out value" by (metis prefix_order.trans take_is_prefix)
  moreover have "length out \<le> limit" using prefix_length_le [OF p(2)] by simp
  moreover obtain k where k: "limit - 3 \<le> k" "k \<le> limit" "valid_utf8 (take k value)"
    using valid_prefix_near [OF assms(1), of limit] False by auto
  then have "k \<le> length (drop_invalid (take limit value))" using False by (intro drop_invalid_longest) (auto simp: min_def)
  then have "limit - 3 \<le> length out" using k(1) o(1) by simp
  ultimately show ?thesis using p(1) o(2) False by auto
qed

theorem truncate_bounds_witness:
  "length (fst (truncateUTF8Bytes (''ab'' @ replacement_rune) 4)) \<ge> 1 \<and> snd (truncateUTF8Bytes (''ab'' @ replacement_rune) 4)"
proof -
  have v: "valid_utf8 (''ab'' @ replacement_rune)" by code_simp
  obtain out t where o: "truncateUTF8Bytes (''ab'' @ replacement_rune) 4 = (out, t)" by fastforce
  from truncate_bounds [OF v o] o show ?thesis by (simp add: replacement_rune_def)
qed

end
