(* ===== verification/DreamScheduler.thy ===== *)
theory DreamScheduler
  imports Text Tables
begin

text \<open>
  The dream scheduler of \<open>internal/dreamscheduler/scheduler.go\<close>: whether a consolidation run
  ("dream") of one observed peer is due, the rows of the \<open>goncho_dreams\<close> table that record the work
  intents, and their cancellation.  \<open>Schedule\<close> reads (\<open>scheduleDecide\<close>) and then inserts
  (\<open>scheduleCommit\<close>) without a transaction, so two calls can interleave between the two.  Times of
  the tables are unix seconds, durations nanoseconds; \<open>int64(d.Seconds())\<close> is \<open>d div 10 ^ 9\<close>, exact
  for durations in whole milliseconds.  What runs a dream and marks it completed is outside the
  repository: its writes are a parameter of the model, a function on the rows (\<open>EvExternal\<close>), and what the
  scheduler relies on is the hypothesis \<open>retires\<close>.
\<close>

section \<open>Configuration, values, tables\<close>

record ScheduleConfig =
  dc_WorkspaceID :: string
  dc_ObserverPeerID :: string
  dc_DreamEnabled :: bool
  dc_IdleTimeout :: int
  dc_MinConclusions :: int
  dc_Cooldown :: int

record DreamScheduleParams =
  dp_Peer :: string
  dp_Now :: int
  dp_Manual :: bool
  dp_Reason :: string

record DreamStatusEvidence =
  de_Code :: string
  de_Reason :: string
  de_DreamID :: int
  de_WorkspaceID :: string
  de_ObserverPeerID :: string
  de_ObservedPeerID :: string
  de_Status :: string
  de_WorkUnitKey :: string
  de_NewConclusions :: int
  de_MinConclusions :: int
  de_LastConclusionID :: int
  de_LastActivityAt :: int
  de_IdleUntil :: int
  de_CooldownUntil :: int

record DreamScheduleResult =
  dr_Action :: string
  dr_ID :: int
  dr_Status :: string
  dr_WorkspaceID :: string
  dr_ObserverPeerID :: string
  dr_ObservedPeerID :: string
  dr_WorkUnitKey :: string
  dr_NewConclusions :: int
  dr_MinConclusions :: int
  dr_LastConclusionID :: int
  dr_Evidence :: DreamStatusEvidence

record dreamEligibility =
  el_newConclusions :: int
  el_maxConclusionID :: int
  el_lastConclusionID :: int
  el_lastActivityAt :: int
  el_idleUntil :: int
  el_cooldownUntil :: int
  el_lastDreamID :: int

record Intent =
  in_ID :: int
  in_WorkspaceID :: string
  in_ObserverPeerID :: string
  in_ObservedPeerID :: string
  in_WorkUnitKey :: string
  in_Status :: string
  in_NewConclusions :: int
  in_MinConclusions :: int
  in_LastConclusionID :: int
  in_LastActivityAt :: int
  in_IdleUntil :: int
  in_CooldownUntil :: int

text \<open>A row of \<open>goncho_dreams\<close>: the intent's columns (its id is the table's key) and the others.\<close>

record dream_row =
  dw_Intent :: Intent
  dw_Manual :: bool
  dw_Reason :: string
  dw_ScheduledFor :: int
  dw_CompletedAt :: "int option"
  dw_StaleAt :: "int option"
  dw_CreatedAt :: int
  dw_UpdatedAt :: int

record conclusion_row =
  cr_WorkspaceID :: string
  cr_ObserverPeerID :: string
  cr_PeerID :: string
  cr_Status :: string
  cr_CreatedAt :: int

record dream_db =
  dreams_present :: bool
  dreams :: "dream_row atable"
  conclusions :: "conclusion_row atable"

datatype dream_site = DreamCtx | DreamNilDB | DreamTable | DreamFindActive | DreamLatest | DreamCount
  | DreamInsert | DreamFindAgain | DreamStale

datatype dream_error = DreamPeerRequired | DreamDb dream_site

section \<open>Configuration\<close>

definition DefaultDreamType :: string where
  "DefaultDreamType = ''consolidation''"

definition normalizeScheduleConfig :: "ScheduleConfig \<Rightarrow> ScheduleConfig" where
  "normalizeScheduleConfig cfg = cfg\<lparr>dc_WorkspaceID := trim_space (dc_WorkspaceID cfg),
     dc_ObserverPeerID := trim_space (dc_ObserverPeerID cfg),
     dc_IdleTimeout := (if dc_IdleTimeout cfg \<le> 0 then 3600000000000 else dc_IdleTimeout cfg),
     dc_MinConclusions := (if dc_MinConclusions cfg \<le> 0 then 50 else dc_MinConclusions cfg),
     dc_Cooldown := (if dc_Cooldown cfg \<le> 0 then 28800000000000 else dc_Cooldown cfg)\<rparr>"

definition Seconds :: "int \<Rightarrow> int" where
  "Seconds d = d div 1000000000"

definition WorkUnitKey :: "string \<Rightarrow> string \<Rightarrow> string \<Rightarrow> string" where
  "WorkUnitKey ws observer peer = ''dream:'' @ DefaultDreamType @ '':'' @ ws @ '':'' @ observer @ '':'' @ peer"

section \<open>Evidence\<close>

definition no_evidence :: DreamStatusEvidence where
  "no_evidence = \<lparr>de_Code = [], de_Reason = [], de_DreamID = 0, de_WorkspaceID = [], de_ObserverPeerID = [],
     de_ObservedPeerID = [], de_Status = [], de_WorkUnitKey = [], de_NewConclusions = 0, de_MinConclusions = 0,
     de_LastConclusionID = 0, de_LastActivityAt = 0, de_IdleUntil = 0, de_CooldownUntil = 0\<rparr>"

definition DisabledEvidence :: "string \<Rightarrow> string \<Rightarrow> string \<Rightarrow> DreamStatusEvidence" where
  "DisabledEvidence ws observer peer = no_evidence\<lparr>de_Code := ''dream_disabled'',
     de_Reason := ''dreaming is disabled; no background dream reasoning is active'',
     de_WorkspaceID := ws, de_ObserverPeerID := observer, de_ObservedPeerID := peer\<rparr>"

definition UnavailableEvidence :: "string \<Rightarrow> string \<Rightarrow> string \<Rightarrow> DreamStatusEvidence" where
  "UnavailableEvidence ws observer peer = no_evidence\<lparr>de_Code := ''dream_unavailable'',
     de_Reason := ''goncho_dreams scheduler table is unavailable; no background dream reasoning is active'',
     de_WorkspaceID := ws, de_ObserverPeerID := observer, de_ObservedPeerID := peer\<rparr>"

definition EvidenceFromIntent :: "Intent \<Rightarrow> DreamStatusEvidence" where
  "EvidenceFromIntent i =
     \<lparr>de_Code = ''dream_'' @ in_Status i,
      de_Reason = (if in_Status i = ''in_progress'' then ''dream work intent is in progress''
        else if in_Status i = ''pending'' then ''dream work intent is pending local execution''
        else ''dream work intent is '' @ in_Status i),
      de_DreamID = in_ID i, de_WorkspaceID = in_WorkspaceID i, de_ObserverPeerID = in_ObserverPeerID i,
      de_ObservedPeerID = in_ObservedPeerID i, de_Status = in_Status i, de_WorkUnitKey = in_WorkUnitKey i,
      de_NewConclusions = in_NewConclusions i, de_MinConclusions = in_MinConclusions i,
      de_LastConclusionID = in_LastConclusionID i, de_LastActivityAt = in_LastActivityAt i,
      de_IdleUntil = in_IdleUntil i, de_CooldownUntil = in_CooldownUntil i\<rparr>"

definition ResultFromIntent :: "string \<Rightarrow> Intent \<Rightarrow> DreamScheduleResult" where
  "ResultFromIntent action i =
     \<lparr>dr_Action = action, dr_ID = in_ID i, dr_Status = in_Status i, dr_WorkspaceID = in_WorkspaceID i,
      dr_ObserverPeerID = in_ObserverPeerID i, dr_ObservedPeerID = in_ObservedPeerID i,
      dr_WorkUnitKey = in_WorkUnitKey i, dr_NewConclusions = in_NewConclusions i,
      dr_MinConclusions = in_MinConclusions i, dr_LastConclusionID = in_LastConclusionID i,
      dr_Evidence = EvidenceFromIntent i\<rparr>"

section \<open>Statements\<close>

text \<open>The three columns every statement selects on.\<close>

definition row_peer :: "dream_row \<Rightarrow> string \<times> string \<times> string" where
  "row_peer r = (in_WorkspaceID (dw_Intent r), in_ObserverPeerID (dw_Intent r), in_ObservedPeerID (dw_Intent r))"

definition of_peer :: "string \<Rightarrow> string \<Rightarrow> string \<Rightarrow> dream_row \<Rightarrow> bool" where
  "of_peer ws observer peer r \<longleftrightarrow> row_peer r = (ws, observer, peer)"

definition active :: "dream_row \<Rightarrow> bool" where
  "active r \<longleftrightarrow> in_Status (dw_Intent r) \<in> {''pending'', ''in_progress''}"

fun first :: "'a list \<Rightarrow> 'a option" where
  "first [] = None"
| "first (x # xs) = Some x"

definition intent_of :: "int \<times> dream_row \<Rightarrow> Intent" where
  "intent_of ir = (dw_Intent (snd ir))\<lparr>in_ID := fst ir\<rparr>"

text \<open>\<open>ORDER BY updated_at DESC, id DESC LIMIT 1\<close>.\<close>

definition findActiveIntent :: "dream_db \<Rightarrow> string \<Rightarrow> string \<Rightarrow> string \<Rightarrow> Intent option" where
  "findActiveIntent db ws observer peer =
     map_option intent_of (first (order_desc (\<lambda>(i, r). (dw_UpdatedAt r, i))
       (filter (\<lambda>(i, r). of_peer ws observer peer r \<and> active r) (arows (dreams db)))))"

text \<open>\<open>ORDER BY COALESCE(completed_at, updated_at) DESC, id DESC LIMIT 1\<close> and the derived cooldown.\<close>

definition latestCompleted :: "dream_db \<Rightarrow> string \<Rightarrow> string \<Rightarrow> string \<Rightarrow> int \<Rightarrow> Intent option" where
  "latestCompleted db ws observer peer cooldown =
     (case first (order_desc (\<lambda>(i, r). ((case dw_CompletedAt r of None \<Rightarrow> dw_UpdatedAt r | Some t \<Rightarrow> t), i))
             (filter (\<lambda>(i, r). of_peer ws observer peer r \<and> in_Status (dw_Intent r) = ''completed'') (arows (dreams db)))) of
        None \<Rightarrow> None
      | Some (i, r) \<Rightarrow>
          let it = intent_of (i, r) in
          Some (case dw_CompletedAt r of
              Some t \<Rightarrow> if in_CooldownUntil it \<le> 0 then it\<lparr>in_CooldownUntil := t + Seconds cooldown\<rparr> else it
            | None \<Rightarrow> it))"

definition newConclusionRows :: "dream_db \<Rightarrow> string \<Rightarrow> string \<Rightarrow> string \<Rightarrow> int \<Rightarrow> (int \<times> conclusion_row) list" where
  "newConclusionRows db ws observer peer lastID =
     filter (\<lambda>(i, r). cr_WorkspaceID r = ws \<and> cr_ObserverPeerID r = observer \<and> cr_PeerID r = peer
        \<and> cr_Status r = ''processed'' \<and> i > lastID) (arows (conclusions db))"

fun max_of :: "int list \<Rightarrow> int option" where
  "max_of [] = None"
| "max_of (x # xs) = Some (foldl max x xs)"

definition readEligibility :: "dream_db \<Rightarrow> string \<Rightarrow> string \<Rightarrow> string \<Rightarrow> int \<Rightarrow> int \<Rightarrow> dreamEligibility" where
  "readEligibility db ws observer peer idleTimeout cooldown =
     (let last = latestCompleted db ws observer peer cooldown;
          lastID = (case last of None \<Rightarrow> 0 | Some l \<Rightarrow> in_LastConclusionID l);
          rows = newConclusionRows db ws observer peer lastID;
          activity = max_of (map (\<lambda>(i, r). cr_CreatedAt r) rows) in
      \<lparr>el_newConclusions = int (length rows),
       el_maxConclusionID = (case max_of (map fst rows) of None \<Rightarrow> 0 | Some m \<Rightarrow> m),
       el_lastConclusionID = lastID,
       el_lastActivityAt = (case activity of None \<Rightarrow> 0 | Some t \<Rightarrow> t),
       el_idleUntil = (case activity of None \<Rightarrow> 0 | Some t \<Rightarrow> t + Seconds idleTimeout),
       el_cooldownUntil = (case last of None \<Rightarrow> 0
          | Some l \<Rightarrow> if in_CooldownUntil l \<le> 0 then in_LastActivityAt l + Seconds cooldown else in_CooldownUntil l),
       el_lastDreamID = (case last of None \<Rightarrow> 0 | Some l \<Rightarrow> in_ID l)\<rparr>)"

definition insertIntent :: "Intent \<Rightarrow> int \<Rightarrow> bool \<Rightarrow> string \<Rightarrow> dream_db \<Rightarrow> int \<times> dream_db" where
  "insertIntent i now manual reason db =
     (let row = \<lparr>dw_Intent = i\<lparr>in_Status := ''pending''\<rparr>, dw_Manual = manual, dw_Reason = reason, dw_ScheduledFor = now,
                 dw_CompletedAt = None, dw_StaleAt = None, dw_CreatedAt = now, dw_UpdatedAt = now\<rparr>;
          (n, t) = ainsert row (dreams db) in
      (n, db\<lparr>dreams := t\<rparr>))"

section \<open>Schedule\<close>

text \<open>What the reading part decides: a result to return, or an intent to insert.\<close>

datatype dream_decision = Return DreamScheduleResult | InsertIntent Intent int string

definition scheduleDecide :: "(dream_site \<Rightarrow> bool) \<Rightarrow> ScheduleConfig \<Rightarrow> DreamScheduleParams \<Rightarrow> dream_db
    \<Rightarrow> dream_error + dream_decision" where
  "scheduleDecide flt cfg0 params db =
     (let cfg = normalizeScheduleConfig cfg0; ws = dc_WorkspaceID cfg; observer = dc_ObserverPeerID cfg;
          peer = trim_space (dp_Peer params); now = dp_Now params;
          base = \<lparr>dr_Action = ''rejected'', dr_ID = 0, dr_Status = [], dr_WorkspaceID = ws, dr_ObserverPeerID = observer,
             dr_ObservedPeerID = peer, dr_WorkUnitKey = [], dr_NewConclusions = 0, dr_MinConclusions = dc_MinConclusions cfg,
             dr_LastConclusionID = 0, dr_Evidence = no_evidence\<rparr> in
      if flt DreamCtx then Inl (DreamDb DreamCtx)
      else if flt DreamNilDB then Inl (DreamDb DreamNilDB)
      else if peer = [] then Inl DreamPeerRequired
      else if \<not> dc_DreamEnabled cfg then Inr (Return (base\<lparr>dr_Evidence := DisabledEvidence ws observer peer\<rparr>))
      else if flt DreamTable then Inl (DreamDb DreamTable)
      else if \<not> dreams_present db then Inr (Return (base\<lparr>dr_Evidence := UnavailableEvidence ws observer peer\<rparr>))
      else if flt DreamFindActive then Inl (DreamDb DreamFindActive)
      else (case findActiveIntent db ws observer peer of
        Some i \<Rightarrow> Inr (Return (ResultFromIntent ''reused'' i))
      | None \<Rightarrow>
        if flt DreamLatest then Inl (DreamDb DreamLatest)
        else if flt DreamCount then Inl (DreamDb DreamCount)
        else
          let el = readEligibility db ws observer peer (dc_IdleTimeout cfg) (dc_Cooldown cfg);
              base1 = base\<lparr>dr_NewConclusions := el_newConclusions el, dr_LastConclusionID := el_maxConclusionID el\<rparr>;
              ev = no_evidence\<lparr>de_WorkspaceID := ws, de_ObserverPeerID := observer, de_ObservedPeerID := peer,
                 de_NewConclusions := el_newConclusions el, de_MinConclusions := dc_MinConclusions cfg,
                 de_LastConclusionID := el_maxConclusionID el\<rparr> in
          if \<not> dp_Manual params \<and> el_newConclusions el < dc_MinConclusions cfg then
            Inr (Return (base1\<lparr>dr_Evidence := ev\<lparr>de_Code := ''dream_threshold'',
              de_Reason := ''dream requires at least '' @ Decimal (dc_MinConclusions cfg)
                 @ '' new conclusions since the last completed dream''\<rparr>\<rparr>))
          else if \<not> dp_Manual params \<and> el_cooldownUntil el > now then
            Inr (Return (base1\<lparr>dr_Evidence := ev\<lparr>de_Code := ''dream_cooldown'',
              de_Reason := ''dream cooldown has not elapsed since the last completed dream'',
              de_CooldownUntil := el_cooldownUntil el\<rparr>\<rparr>))
          else if \<not> dp_Manual params \<and> el_idleUntil el > now then
            Inr (Return (base1\<lparr>dr_Evidence := ev\<lparr>de_Code := ''dream_idle'',
              de_Reason := ''observed peer has not been idle for the configured dream idle timeout'',
              de_LastActivityAt := el_lastActivityAt el, de_IdleUntil := el_idleUntil el\<rparr>\<rparr>))
          else
            let reason0 = trim_space (dp_Reason params);
                reason = (if reason0 \<noteq> [] then reason0 else if dp_Manual params then ''manual'' else ''eligible'') in
            Inr (InsertIntent \<lparr>in_ID = 0, in_WorkspaceID = ws, in_ObserverPeerID = observer, in_ObservedPeerID = peer,
               in_WorkUnitKey = WorkUnitKey ws observer peer, in_Status = ''pending'',
               in_NewConclusions = el_newConclusions el, in_MinConclusions = dc_MinConclusions cfg,
               in_LastConclusionID = el_maxConclusionID el, in_LastActivityAt = el_lastActivityAt el,
               in_IdleUntil = el_idleUntil el, in_CooldownUntil = el_cooldownUntil el\<rparr> now reason)))"

definition scheduleCommit :: "(dream_site \<Rightarrow> bool) \<Rightarrow> bool \<Rightarrow> dream_decision \<Rightarrow> dream_db
    \<Rightarrow> (dream_error + DreamScheduleResult) \<times> dream_db" where
  "scheduleCommit flt manual d db =
     (case d of
        Return res \<Rightarrow> (Inr res, db)
      | InsertIntent i now reason \<Rightarrow>
          if flt DreamInsert then
            (if flt DreamFindAgain then (Inl (DreamDb DreamInsert), db)
             else case findActiveIntent db (in_WorkspaceID i) (in_ObserverPeerID i) (in_ObservedPeerID i) of
               Some a \<Rightarrow> (Inr (ResultFromIntent ''reused'' a), db)
             | None \<Rightarrow> (Inl (DreamDb DreamInsert), db))
          else case insertIntent i now manual reason db of
            (n, db') \<Rightarrow> (Inr (ResultFromIntent ''created'' (i\<lparr>in_ID := n\<rparr>)), db'))"

definition Schedule :: "(dream_site \<Rightarrow> bool) \<Rightarrow> ScheduleConfig \<Rightarrow> DreamScheduleParams \<Rightarrow> dream_db
    \<Rightarrow> (dream_error + DreamScheduleResult) \<times> dream_db" where
  "Schedule flt cfg params db =
     (case scheduleDecide flt cfg params db of
        Inl e \<Rightarrow> (Inl e, db)
      | Inr d \<Rightarrow> scheduleCommit flt (dp_Manual params) d db)"

section \<open>Cancellation\<close>

definition stale_row :: "string \<Rightarrow> string \<Rightarrow> int \<Rightarrow> string \<Rightarrow> dream_row \<Rightarrow> dream_row" where
  "stale_row ws observed now reason r =
     (if in_WorkspaceID (dw_Intent r) = ws \<and> in_ObservedPeerID (dw_Intent r) = observed \<and> in_Status (dw_Intent r) = ''pending''
      then r\<lparr>dw_Intent := (dw_Intent r)\<lparr>in_Status := ''stale''\<rparr>, dw_Reason := reason, dw_StaleAt := Some now, dw_UpdatedAt := now\<rparr>
      else r)"

definition update_rows :: "(int \<Rightarrow> dream_row \<Rightarrow> dream_row) \<Rightarrow> dream_db \<Rightarrow> dream_db" where
  "update_rows f db = db\<lparr>dreams := (dreams db)\<lparr>arows := map (\<lambda>(i, r). (i, f i r)) (arows (dreams db))\<rparr>\<rparr>"

definition CancelPendingForObserved :: "(dream_site \<Rightarrow> bool) \<Rightarrow> string \<Rightarrow> string \<Rightarrow> int \<Rightarrow> string \<Rightarrow> dream_db
    \<Rightarrow> (dream_error + int) \<times> dream_db" where
  "CancelPendingForObserved flt ws observed now reason0 db =
     (if flt DreamTable then (Inl (DreamDb DreamTable), db)
      else if \<not> dreams_present db then (Inr 0, db)
      else if flt DreamStale then (Inl (DreamDb DreamStale), db)
      else
        let reason = (if trim_space reason0 = [] then ''new_activity'' else reason0) in
        (Inr (int (length (filter (\<lambda>(i, r). in_WorkspaceID (dw_Intent r) = ws \<and> in_ObservedPeerID (dw_Intent r) = observed
             \<and> in_Status (dw_Intent r) = ''pending'') (arows (dreams db))))),
         update_rows (\<lambda>i. stale_row ws observed now reason) db))"

section \<open>Invariant\<close>

text \<open>
  The events on the two tables: calls of the scheduler, the deletion of a workspace (the statement of
  \<open>deleteLifecycleWorkspace\<close>), and the writes of other programs, which rewrite rows (a dream started, completed or
  failed) and bring new conclusions.
\<close>

datatype dream_event =
    EvSchedule "dream_site \<Rightarrow> bool" ScheduleConfig DreamScheduleParams
  | EvCancelPending "dream_site \<Rightarrow> bool" string string int string
  | EvDeleteDreams string
  | EvExternal "int \<Rightarrow> dream_row \<Rightarrow> dream_row" "conclusion_row atable"

fun dream_step :: "dream_event \<Rightarrow> dream_db \<Rightarrow> dream_db" where
  "dream_step (EvSchedule flt cfg p) db = snd (Schedule flt cfg p db)"
| "dream_step (EvCancelPending flt ws observed now reason) db = snd (CancelPendingForObserved flt ws observed now reason db)"
| "dream_step (EvDeleteDreams ws) db =
     db\<lparr>dreams := (dreams db)\<lparr>arows := tdelete (\<lambda>(i, r). in_WorkspaceID (dw_Intent r) = ws) (arows (dreams db))\<rparr>\<rparr>"
| "dream_step (EvExternal f cs) db = (update_rows f db)\<lparr>conclusions := cs\<rparr>"

text \<open>
  What the scheduler relies on: another program neither moves a dream to another peer nor makes a dream that is
  neither pending nor running pending or running again.
\<close>

definition retires :: "(int \<Rightarrow> dream_row \<Rightarrow> dream_row) \<Rightarrow> bool" where
  "retires f \<longleftrightarrow> (\<forall>n r. row_peer (f n r) = row_peer r \<and> (active (f n r) \<longrightarrow> active r))"

fun reliable :: "dream_event \<Rightarrow> bool" where
  "reliable (EvExternal f cs) \<longleftrightarrow> retires f"
| "reliable _ \<longleftrightarrow> True"

text \<open>At most one pending or running dream per observed peer.\<close>

definition one_active :: "(int \<times> dream_row) list \<Rightarrow> bool" where
  "one_active rows \<longleftrightarrow> (\<forall>x \<in> set rows. \<forall>y \<in> set rows.
     active (snd x) \<and> active (snd y) \<and> row_peer (snd x) = row_peer (snd y) \<longrightarrow> fst x = fst y)"

definition dream_inv :: "dream_db \<Rightarrow> bool" where
  "dream_inv db \<longleftrightarrow> awf (dreams db) \<and> one_active (arows (dreams db))"

lemma first_eq_None [simp]: "first xs = None \<longleftrightarrow> xs = []"
  by (cases xs) auto

lemma first_eq_Some: "first xs = Some x \<Longrightarrow> x \<in> set xs"
  by (cases xs) auto

lemma order_desc_Nil [simp]: "order_desc k rs = [] \<longleftrightarrow> rs = []"
  using set_order_desc [of k rs] by (metis set_empty)

lemma findActiveIntent_None:
  "findActiveIntent db ws ob pe = None \<longleftrightarrow> (\<forall>(i, r) \<in> set (arows (dreams db)). \<not> (of_peer ws ob pe r \<and> active r))"
  by (auto simp: findActiveIntent_def filter_empty_conv)

lemma findActiveIntent_Some:
  "findActiveIntent db ws ob pe = Some a \<Longrightarrow>
     \<exists>i r. (i, r) \<in> set (arows (dreams db)) \<and> of_peer ws ob pe r \<and> active r \<and> a = (dw_Intent r)\<lparr>in_ID := i\<rparr>"
  by (auto simp: findActiveIntent_def intent_of_def dest!: first_eq_Some) blast

text \<open>An update that keeps the peer columns and activates nothing keeps the invariant.\<close>

lemma update_rows_inv:
  assumes i: "dream_inv db" and keep: "\<And>n r. row_peer (f n r) = row_peer r"
    and act: "\<And>n r. active (f n r) \<Longrightarrow> active r"
  shows "dream_inv (update_rows f db)"
proof -
  let ?g = "\<lambda>(i, r). (i, f i r)"
  have o: "one_active (arows (dreams db))" and w: "awf (dreams db)" using i by (simp_all add: dream_inv_def)
  have "one_active (map ?g (arows (dreams db)))"
    unfolding one_active_def
  proof (intro ballI impI)
    fix x y assume "x \<in> set (map ?g (arows (dreams db)))" "y \<in> set (map ?g (arows (dreams db)))"
      and a: "active (snd x) \<and> active (snd y) \<and> row_peer (snd x) = row_peer (snd y)"
    then obtain j r k u where jr: "(j, r) \<in> set (arows (dreams db))" "x = (j, f j r)"
      and ku: "(k, u) \<in> set (arows (dreams db))" "y = (k, f k u)" by auto
    have "active r" using a jr(2) act by (metis snd_conv)
    moreover have "active u" using a ku(2) act by (metis snd_conv)
    moreover have "row_peer r = row_peer u" using a jr(2) ku(2) keep by simp
    ultimately have "j = k" using o jr(1) ku(1) unfolding one_active_def by fastforce
    with jr ku show "fst x = fst y" by simp
  qed
  moreover have "awf (dreams (update_rows f db))"
    using w by (auto simp: awf_def update_rows_def comp_def case_prod_beta)
  ultimately show ?thesis by (simp add: dream_inv_def update_rows_def)
qed

lemma scheduleDecide_insert:
  assumes "scheduleDecide flt cfg p db = Inr (InsertIntent i now reason)"
  shows "findActiveIntent db (in_WorkspaceID i) (in_ObserverPeerID i) (in_ObservedPeerID i) = None"
  using assms by (auto simp: scheduleDecide_def Let_def split: if_splits option.splits)

lemma insertIntent_inv:
  assumes i: "dream_inv db" and n: "findActiveIntent db (in_WorkspaceID it) (in_ObserverPeerID it) (in_ObservedPeerID it) = None"
  shows "dream_inv (snd (insertIntent it now m reason db))"
proof -
  let ?p = "(in_WorkspaceID it, in_ObserverPeerID it, in_ObservedPeerID it)"
  have no: "\<not> (row_peer (snd x) = ?p \<and> active (snd x))" if "x \<in> set (arows (dreams db))" for x
    using n that by (auto simp: findActiveIntent_None of_peer_def)
  have "one_active (rows @ [(j, u)])" if o: "one_active rows" and u: "row_peer u = ?p"
    and q: "\<forall>x \<in> set rows. \<not> (row_peer (snd x) = ?p \<and> active (snd x))" for rows j u
    unfolding one_active_def
  proof (intro ballI impI)
    fix x y assume xy: "x \<in> set (rows @ [(j, u)])" "y \<in> set (rows @ [(j, u)])"
      and a: "active (snd x) \<and> active (snd y) \<and> row_peer (snd x) = row_peer (snd y)"
    consider "x \<in> set rows" "y \<in> set rows" | "x = (j, u)" "y \<in> set rows" | "x \<in> set rows" "y = (j, u)"
      | "x = (j, u)" "y = (j, u)" using xy by auto
    then show "fst x = fst y"
    proof cases
      case 1
      with o a show ?thesis unfolding one_active_def by blast
    next
      case 2
      with a u q show ?thesis by auto
    next
      case 3
      with a u q show ?thesis by auto
    qed simp
  qed
  from this [of "arows (dreams db)"] no i show ?thesis
    by (simp add: insertIntent_def dream_inv_def Let_def case_prod_beta row_peer_def)
qed

lemma stale_row_peer [simp]: "row_peer (stale_row w o' t rn r) = row_peer r"
  by (simp add: stale_row_def row_peer_def)

lemma stale_row_active: "active (stale_row w o' t rn r) \<Longrightarrow> active r"
  by (auto simp: stale_row_def active_def split: if_splits)

lemma delete_dreams_inv: "dream_inv db \<Longrightarrow> dream_inv (db\<lparr>dreams := (dreams db)\<lparr>arows := tdelete q (arows (dreams db))\<rparr>\<rparr>)"
  by (auto simp: dream_inv_def one_active_def tdelete_def awf_def distinct_map_filter)

lemma dream_step_inv: "reliable e \<Longrightarrow> dream_inv db \<Longrightarrow> dream_inv (dream_step e db)"
proof (cases e)
  case (EvSchedule flt cfg p)
  assume i: "dream_inv db"
  show ?thesis
  proof (cases "scheduleDecide flt cfg p db")
    case (Inr d)
    with EvSchedule i show ?thesis
      by (cases d) (auto simp: Schedule_def scheduleCommit_def case_prod_beta split: option.split
          dest!: scheduleDecide_insert intro: insertIntent_inv)
  qed (use EvSchedule i in \<open>simp add: Schedule_def\<close>)
next
  case (EvCancelPending flt ws ob now reason)
  then show "dream_inv db \<Longrightarrow> ?thesis"
    by (auto simp: CancelPendingForObserved_def Let_def intro!: update_rows_inv dest: stale_row_active)
next
  case (EvDeleteDreams ws)
  then show "dream_inv db \<Longrightarrow> ?thesis" by (simp add: delete_dreams_inv)
next
  case (EvExternal f cs)
  assume "reliable e" "dream_inv db"
  with EvExternal have "dream_inv (update_rows f db)" by (auto simp: retires_def intro: update_rows_inv)
  with EvExternal show ?thesis by (simp add: dream_inv_def)
qed

interpretation dream_machine: guarded_machine dream_step dream_inv reliable
  by unfold_locales (rule dream_step_inv)

section \<open>Correctness of the scheduler\<close>

lemma normalizeScheduleConfig_simps [simp]:
  "dc_WorkspaceID (normalizeScheduleConfig cfg) = trim_space (dc_WorkspaceID cfg)"
  "dc_ObserverPeerID (normalizeScheduleConfig cfg) = trim_space (dc_ObserverPeerID cfg)"
  "dc_DreamEnabled (normalizeScheduleConfig cfg) = dc_DreamEnabled cfg"
  by (simp_all add: normalizeScheduleConfig_def)

lemma schedule_reuses:
  assumes "findActiveIntent db (trim_space (dc_WorkspaceID cfg)) (trim_space (dc_ObserverPeerID cfg)) (trim_space (dp_Peer p)) = Some a"
    and "trim_space (dp_Peer p) \<noteq> []" "dc_DreamEnabled cfg" "dreams_present db"
  shows "Schedule (\<lambda>_. False) cfg p db = (Inr (ResultFromIntent ''reused'' a), db)"
  using assms by (simp add: Schedule_def scheduleDecide_def scheduleCommit_def Let_def)

text \<open>
  C27. Calls that do not overlap keep at most one pending or running dream per observed peer: after
  any sequence of schedules, cancellations, workspace deletions and writes of other programs from an empty
  table, two active rows of the same workspace, observer and peer are the same row, and a schedule for that peer
  that reaches the table reports the active intent as reused instead of inserting another.  The
  programs that run dreams are not part of the repository; their writes are arbitrary functions on the rows
  that move no dream to another peer and reactivate none (\<open>retires\<close>).
\<close>

theorem dreams_deduplicated:
  assumes db: "db = fold dream_step es \<lparr>dreams_present = True, dreams = aempty, conclusions = cs\<rparr>"
    and external: "list_all reliable es"
    and r: "(i, r) \<in> set (arows (dreams db))" "(j, u) \<in> set (arows (dreams db))" "active r" "active u"
    and peer: "of_peer ws ob pe r" "of_peer ws ob pe u"
  shows "i = j \<and> (ws = trim_space (dc_WorkspaceID cfg) \<and> ob = trim_space (dc_ObserverPeerID cfg)
       \<and> pe = trim_space (dp_Peer p) \<and> pe \<noteq> [] \<and> dc_DreamEnabled cfg \<and> dreams_present db
      \<longrightarrow> Schedule (\<lambda>_. False) cfg p db = (Inr (ResultFromIntent ''reused'' ((dw_Intent r)\<lparr>in_ID := i\<rparr>)), db))"
proof -
  have inv: "dream_inv db"
    unfolding db by (rule dream_machine.guarded_run [OF external]) (simp add: dream_inv_def one_active_def aempty_def awf_def)
  then have uniq: "\<And>k v. (k, v) \<in> set (arows (dreams db)) \<Longrightarrow> active v \<Longrightarrow> of_peer ws ob pe v \<Longrightarrow> k = i"
    using r peer unfolding dream_inv_def one_active_def of_peer_def by (metis fst_conv snd_conv)
  have ij: "i = j" using uniq r(2,4) peer(2) by blast
  have ne: "findActiveIntent db ws ob pe \<noteq> None"
    using r(1,3) peer(1) by (auto simp: findActiveIntent_None)
  then obtain a where a: "findActiveIntent db ws ob pe = Some a" by auto
  from findActiveIntent_Some [OF a] obtain k v where kv: "(k, v) \<in> set (arows (dreams db))" "of_peer ws ob pe v" "active v"
    "a = (dw_Intent v)\<lparr>in_ID := k\<rparr>" by blast
  with uniq have "k = i" by blast
  moreover have "distinct (map fst (arows (dreams db)))" using inv by (simp add: dream_inv_def awf_def)
  ultimately have "v = r" using kv(1) r(1) by (metis eq_key_imp_eq_value)
  with kv \<open>k = i\<close> a have "findActiveIntent db ws ob pe = Some ((dw_Intent r)\<lparr>in_ID := i\<rparr>)" by simp
  then show ?thesis using ij schedule_reuses [of db cfg p] by blast
qed

text \<open>
  The gates of an automatic schedule: when no statement fails, a dream is created exactly when
  dreaming is enabled, the table exists, the peer has no active dream, at least the minimum of new
  processed conclusions exists since the last completed dream, its cooldown has passed and the peer
  has been idle long enough; a manual one only needs the first three.
\<close>

theorem schedule_gates:
  assumes "trim_space (dp_Peer p) \<noteq> []"
  shows "let c = normalizeScheduleConfig cfg; ws = dc_WorkspaceID c; ob = dc_ObserverPeerID c; pe = trim_space (dp_Peer p);
             el = readEligibility db ws ob pe (dc_IdleTimeout c) (dc_Cooldown c) in
    (\<exists>res db'. Schedule (\<lambda>_. False) cfg p db = (Inr res, db') \<and> dr_Action res = ''created'') \<longleftrightarrow>
      dc_DreamEnabled cfg \<and> dreams_present db
      \<and> (\<forall>(i, r) \<in> set (arows (dreams db)). \<not> (of_peer ws ob pe r \<and> active r))
      \<and> (dp_Manual p \<or> dc_MinConclusions c \<le> el_newConclusions el \<and> el_cooldownUntil el \<le> dp_Now p
           \<and> el_idleUntil el \<le> dp_Now p)"
proof -
  let ?c = "normalizeScheduleConfig cfg"
  have e: "dc_DreamEnabled ?c = dc_DreamEnabled cfg" by (simp add: normalizeScheduleConfig_def)
  show ?thesis
    unfolding Let_def findActiveIntent_None [symmetric]
    using assms
    by (cases "findActiveIntent db (dc_WorkspaceID ?c) (dc_ObserverPeerID ?c) (trim_space (dp_Peer p))")
      (auto simp: Schedule_def scheduleDecide_def scheduleCommit_def Let_def ResultFromIntent_def e case_prod_beta)
qed

text \<open>
  Two observations on what happens after a program has marked a dream as completed, with its status and the
  completion time: such a write of another program is \<open>completed_row\<close>, an instance of \<open>EvExternal\<close>.
\<close>

definition completed_row :: "int \<Rightarrow> int \<Rightarrow> int \<Rightarrow> dream_row \<Rightarrow> dream_row" where
  "completed_row n now = (\<lambda>i r. if i = n \<and> active r
     then r\<lparr>dw_Intent := (dw_Intent r)\<lparr>in_Status := ''completed''\<rparr>, dw_CompletedAt := Some now, dw_UpdatedAt := now\<rparr> else r)"

lemma retires_completed_row: "retires (completed_row n now)"
  by (simp add: retires_def completed_row_def row_peer_def active_def)

text \<open>The row a created intent leaves once it is marked as completed.\<close>

lemma completed_is_latest:
  assumes wf: "awf (dreams db)"
    and d: "scheduleDecide (\<lambda>_. False) cfg p db = Inr (InsertIntent it now reason)"
    and late: "\<forall>(i, r) \<in> set (arows (dreams db)). (case dw_CompletedAt r of None \<Rightarrow> dw_UpdatedAt r | Some t \<Rightarrow> t) \<le> tc"
    and db2: "db2 = update_rows (completed_row (dr_ID res) tc) db1" and c: "Schedule (\<lambda>_. False) cfg p db = (Inr res, db1)"
  shows "latestCompleted (db2\<lparr>conclusions := cs\<rparr>) (in_WorkspaceID it) (in_ObserverPeerID it) (in_ObservedPeerID it) cool =
    Some (it\<lparr>in_ID := dr_ID res, in_Status := ''completed'',
       in_CooldownUntil := (if in_CooldownUntil it \<le> 0 then tc + Seconds cool else in_CooldownUntil it)\<rparr>)"
proof -
  let ?n = "aseq (dreams db) + 1"
  let ?row = "\<lparr>dw_Intent = it\<lparr>in_Status := ''pending''\<rparr>, dw_Manual = dp_Manual p, dw_Reason = reason, dw_ScheduledFor = now,
     dw_CompletedAt = None, dw_StaleAt = None, dw_CreatedAt = now, dw_UpdatedAt = now\<rparr>"
  let ?done = "?row\<lparr>dw_Intent := it\<lparr>in_Status := ''completed''\<rparr>, dw_CompletedAt := Some tc, dw_UpdatedAt := tc\<rparr>"
  have s: "scheduleCommit (\<lambda>_. False) (dp_Manual p) (InsertIntent it now reason) db = (Inr res, db1)"
    using c d by (simp add: Schedule_def)
  then have n: "dr_ID res = ?n" and db1: "arows (dreams db1) = arows (dreams db) @ [(?n, ?row)]"
    by (auto simp: scheduleCommit_def insertIntent_def ainsert_def Let_def ResultFromIntent_def)
  let ?f = "\<lambda>(i, r). (i, if i = ?n \<and> active r then r\<lparr>dw_Intent := (dw_Intent r)\<lparr>in_Status := ''completed''\<rparr>,
      dw_CompletedAt := Some tc, dw_UpdatedAt := tc\<rparr> else r)"
  have old: "?f ir = ir" if "ir \<in> set (arows (dreams db))" for ir
    using wf that by (cases ir) (fastforce simp: awf_def)
  have rows: "arows (dreams db2) = arows (dreams db) @ [(?n, ?done)]"
    using old by (simp add: db2 completed_row_def update_rows_def n db1 active_def map_idI)
  let ?k = "\<lambda>(i, r). ((case dw_CompletedAt r of None \<Rightarrow> dw_UpdatedAt r | Some t \<Rightarrow> t), i :: int)"
  let ?xs = "filter (\<lambda>(i, r). of_peer (in_WorkspaceID it) (in_ObserverPeerID it) (in_ObservedPeerID it) r
      \<and> in_Status (dw_Intent r) = ''completed'') (arows (dreams db) @ [(?n, ?done)])"
  have "\<exists>ys. order_desc ?k ?xs = (?n, ?done) # ys"
  proof (rule order_desc_greatest)
    show "(?n, ?done) \<in> set ?xs" by (simp add: of_peer_def row_peer_def)
    fix y assume "y \<in> set ?xs" "y \<noteq> (?n, ?done)"
    then have y: "y \<in> set (arows (dreams db))" by (simp split: if_splits)
    obtain i r where yy: "y = (i, r)" by (cases y)
    with y wf have "i \<le> aseq (dreams db)" by (auto simp: awf_def)
    with yy have ir: "y = (i, r)" "i < ?n" by simp_all
    with y late have "(case dw_CompletedAt r of None \<Rightarrow> dw_UpdatedAt r | Some t \<Rightarrow> t) \<le> tc" by fastforce
    with ir show "?k y < ?k (?n, ?done)" by (auto simp: less_le)
  qed
  then obtain ys where ys: "order_desc ?k ?xs = (?n, ?done) # ys" by blast
  show ?thesis
    unfolding latestCompleted_def using ys
    by (simp add: rows n intent_of_def Let_def)
qed

lemma scheduleDecide_intent:
  assumes "scheduleDecide (\<lambda>_. False) cfg p db = Inr (InsertIntent it now reason)"
  shows "let c = normalizeScheduleConfig cfg;
             el = readEligibility db (dc_WorkspaceID c) (dc_ObserverPeerID c) (trim_space (dp_Peer p)) (dc_IdleTimeout c) (dc_Cooldown c) in
     in_WorkspaceID it = dc_WorkspaceID c \<and> in_ObserverPeerID it = dc_ObserverPeerID c \<and> in_ObservedPeerID it = trim_space (dp_Peer p)
   \<and> in_CooldownUntil it = el_cooldownUntil el \<and> in_LastConclusionID it = el_maxConclusionID el
   \<and> now = dp_Now p \<and> (\<not> dp_Manual p \<longrightarrow> el_cooldownUntil el \<le> dp_Now p)"
  using assms by (auto simp: scheduleDecide_def Let_def split: if_splits option.splits)

lemma created_decided:
  assumes "Schedule (\<lambda>_. False) cfg p db = (Inr res, db1)" "dr_Action res = ''created''"
  shows "\<exists>it now reason. scheduleDecide (\<lambda>_. False) cfg p db = Inr (InsertIntent it now reason)"
proof (cases "scheduleDecide (\<lambda>_. False) cfg p db")
  case (Inr d)
  show ?thesis
  proof (cases d)
    case (Return r)
    with Inr assms have "scheduleDecide (\<lambda>_. False) cfg p db = Inr (Return res)" "dr_Action res = ''created''"
      by (auto simp: Schedule_def scheduleCommit_def)
    then show ?thesis
      by (auto simp: scheduleDecide_def Let_def ResultFromIntent_def split: if_splits option.splits)
  qed (use Inr in blast)
qed (use assms in \<open>simp add: Schedule_def\<close>)

text \<open>
  From the second automatic dream of a peer on, completion starts no cooldown: the intent stores
  the previous dream's cooldown end, and when the executor completes it (after every other dream,
  writing the status and completion time) that positive, already elapsed value hides the completion
  time, so the cooldown gate stays open for every later schedule, however soon it comes.
\<close>

theorem second_dream_skips_cooldown:
  assumes wf: "awf (dreams db)" and c: "normalizeScheduleConfig cfg = c"
    and el: "el = readEligibility db (dc_WorkspaceID c) (dc_ObserverPeerID c) (trim_space (dp_Peer p)) (dc_IdleTimeout c) (dc_Cooldown c)"
    and prev: "0 < el_cooldownUntil el" and auto: "\<not> dp_Manual p"
    and s: "Schedule (\<lambda>_. False) cfg p db = (Inr res, db1)" "dr_Action res = ''created''"
    and late: "\<forall>(i, r) \<in> set (arows (dreams db)). (case dw_CompletedAt r of None \<Rightarrow> dw_UpdatedAt r | Some t \<Rightarrow> t) \<le> tc"
  shows "el_cooldownUntil (readEligibility ((update_rows (completed_row (dr_ID res) tc) db1)\<lparr>conclusions := cs\<rparr>)
      (dc_WorkspaceID c) (dc_ObserverPeerID c) (trim_space (dp_Peer p)) (dc_IdleTimeout c) (dc_Cooldown c)) \<le> dp_Now p"
proof -
  from created_decided [OF s] obtain it now reason where d:
    "scheduleDecide (\<lambda>_. False) cfg p db = Inr (InsertIntent it now reason)" by blast
  note i = scheduleDecide_intent [OF d, unfolded c Let_def, folded el]
  from completed_is_latest [OF wf d late refl s(1), of cs "dc_Cooldown c"] i prev auto
  show ?thesis by (simp add: readEligibility_def Let_def)
qed

text \<open>
  Two overlapping schedules both create: when both have decided before either inserts, both
  insert statements succeed, with different ids, and the peer has two active dreams.
\<close>

theorem schedule_race:
  assumes d: "scheduleDecide flt cfg p db = Inr (InsertIntent it now reason)" and nf: "\<not> flt DreamInsert"
  shows "let (r1, db1) = scheduleCommit flt m (InsertIntent it now reason) db;
             (r2, db2) = scheduleCommit flt m (InsertIntent it now reason) db1 in
     (case (r1, r2) of (Inr a, Inr b) \<Rightarrow> dr_Action a = ''created'' \<and> dr_Action b = ''created'' \<and> dr_ID a \<noteq> dr_ID b
        | _ \<Rightarrow> False) \<and> \<not> one_active (arows (dreams db2))"
  using nf by (auto simp: scheduleCommit_def insertIntent_def ainsert_def Let_def ResultFromIntent_def one_active_def
      active_def row_peer_def)

text \<open>
  A manual dream without new conclusions forgets the watermark: its intent records conclusion 0
  as the last one consolidated, so once it completes (after every other dream) every processed
  conclusion of the peer counts as new again.
\<close>

theorem manual_dream_forgets_watermark:
  assumes wf: "awf (dreams db)" and c: "normalizeScheduleConfig cfg = c"
    and el: "el = readEligibility db (dc_WorkspaceID c) (dc_ObserverPeerID c) (trim_space (dp_Peer p)) (dc_IdleTimeout c) (dc_Cooldown c)"
    and none: "el_newConclusions el = 0"
    and s: "Schedule (\<lambda>_. False) cfg p db = (Inr res, db1)" "dr_Action res = ''created''"
    and late: "\<forall>(i, r) \<in> set (arows (dreams db)). (case dw_CompletedAt r of None \<Rightarrow> dw_UpdatedAt r | Some t \<Rightarrow> t) \<le> tc"
  shows "let el' = readEligibility ((update_rows (completed_row (dr_ID res) tc) db1)\<lparr>conclusions := conclusions db\<rparr>)
      (dc_WorkspaceID c) (dc_ObserverPeerID c) (trim_space (dp_Peer p)) (dc_IdleTimeout c) (dc_Cooldown c) in
    el_lastConclusionID el' = 0 \<and> el_newConclusions el' =
      int (length (newConclusionRows db (dc_WorkspaceID c) (dc_ObserverPeerID c) (trim_space (dp_Peer p)) 0))"
proof -
  from created_decided [OF s] obtain it now reason where d:
    "scheduleDecide (\<lambda>_. False) cfg p db = Inr (InsertIntent it now reason)" by blast
  note i = scheduleDecide_intent [OF d, unfolded c Let_def, folded el]
  have "in_LastConclusionID it = 0"
    using i none unfolding el by (auto simp: readEligibility_def Let_def)
  with completed_is_latest [OF wf d late refl s(1), of "conclusions db" "dc_Cooldown c"] i
  show ?thesis by (simp add: readEligibility_def Let_def newConclusionRows_def)
qed

section \<open>A sample scheduler\<close>

definition demo_cfg :: ScheduleConfig where
  "demo_cfg = \<lparr>dc_WorkspaceID = '' w'', dc_ObserverPeerID = ''o'', dc_DreamEnabled = True, dc_IdleTimeout = 0,
     dc_MinConclusions = 1, dc_Cooldown = 0\<rparr>"

definition demo_dp :: "bool \<Rightarrow> int \<Rightarrow> DreamScheduleParams" where
  "demo_dp m t = \<lparr>dp_Peer = ''bob'', dp_Now = t, dp_Manual = m, dp_Reason = []\<rparr>"

definition demo_cs :: "conclusion_row atable" where
  "demo_cs = snd (ainsert \<lparr>cr_WorkspaceID = ''w'', cr_ObserverPeerID = ''o'', cr_PeerID = ''bob'', cr_Status = ''processed'',
     cr_CreatedAt = 100\<rparr> aempty)"

definition demo_dream0 :: dream_db where
  "demo_dream0 = \<lparr>dreams_present = True, dreams = aempty, conclusions = demo_cs\<rparr>"

text \<open>A dream scheduled at 10000 and completed at 20000, and one more conclusion.\<close>

definition demo_dream1 :: dream_db where
  "demo_dream1 = dream_step (EvSchedule (\<lambda>_. False) demo_cfg (demo_dp False 10000)) demo_dream0"

definition demo_dream2 :: dream_db where
  "demo_dream2 = (update_rows (completed_row 1 20000) demo_dream1)\<lparr>conclusions := snd (ainsert \<lparr>cr_WorkspaceID = ''w'',
     cr_ObserverPeerID = ''o'', cr_PeerID = ''bob'', cr_Status = ''processed'', cr_CreatedAt = 21000\<rparr> demo_cs)\<rparr>"

text \<open>A dream is scheduled, another program completes it, and a manual dream is scheduled for the same peer.\<close>

definition demo_dream_events :: "dream_event list" where
  "demo_dream_events = [EvSchedule (\<lambda>_. False) demo_cfg (demo_dp False 10000), EvExternal (completed_row 1 20000) demo_cs,
     EvSchedule (\<lambda>_. False) demo_cfg (demo_dp True 30000)]"

definition demo_dream3 :: dream_db where
  "demo_dream3 = fold dream_step demo_dream_events demo_dream0"

theorem dreams_deduplicated_witness:
  "\<exists>r. arows (dreams demo_dream3) = [hd (arows (dreams demo_dream3)), (2, r)] \<and> active r \<and>
    Schedule (\<lambda>_. False) demo_cfg (demo_dp True 30001) demo_dream3 =
      (Inr (ResultFromIntent ''reused'' ((dw_Intent r)\<lparr>in_ID := 2\<rparr>)), demo_dream3)"
proof -
  have db: "demo_dream3 = fold dream_step demo_dream_events \<lparr>dreams_present = True, dreams = aempty, conclusions = demo_cs\<rparr>"
    by (simp add: demo_dream3_def demo_dream0_def)
  have ext: "list_all reliable demo_dream_events" by (simp add: demo_dream_events_def retires_completed_row)
  have "map fst (arows (dreams demo_dream3)) = [1, 2]" "active (snd (last (arows (dreams demo_dream3))))"
    "of_peer ''w'' ''o'' ''bob'' (snd (last (arows (dreams demo_dream3))))" by code_simp+
  then obtain q r where r: "arows (dreams demo_dream3) = [(1, q), (2, r)]" "active r" "of_peer ''w'' ''o'' ''bob'' r"
    by (auto simp: map_eq_Cons_conv)
  have "''w'' = trim_space (dc_WorkspaceID demo_cfg)" "''o'' = trim_space (dc_ObserverPeerID demo_cfg)"
    "''bob'' = trim_space (dp_Peer (demo_dp True 30001))" "dc_DreamEnabled demo_cfg" "dreams_present demo_dream3"
    by code_simp+
  then show ?thesis
    using dreams_deduplicated [OF db ext, of 2 r 2 r "''w''" "''o''" "''bob''" demo_cfg "demo_dp True 30001"] r by auto
qed

theorem schedule_gates_witness:
  "\<exists>res db'. Schedule (\<lambda>_. False) demo_cfg (demo_dp False 10000) demo_dream0 = (Inr res, db') \<and> dr_Action res = ''created''"
proof -
  have p: "trim_space (dp_Peer (demo_dp False 10000)) \<noteq> []" by code_simp
  let ?c = "normalizeScheduleConfig demo_cfg"
  let ?el = "readEligibility demo_dream0 (dc_WorkspaceID ?c) (dc_ObserverPeerID ?c) (trim_space (dp_Peer (demo_dp False 10000)))
     (dc_IdleTimeout ?c) (dc_Cooldown ?c)"
  have "dc_DreamEnabled demo_cfg" "dreams_present demo_dream0" "arows (dreams demo_dream0) = []"
    "dc_MinConclusions ?c \<le> el_newConclusions ?el" "el_cooldownUntil ?el \<le> dp_Now (demo_dp False 10000)"
    "el_idleUntil ?el \<le> dp_Now (demo_dp False 10000)" by code_simp+
  with schedule_gates [OF p, of demo_cfg demo_dream0] show ?thesis by (simp add: Let_def)
qed

theorem second_dream_skips_cooldown_witness:
  "\<exists>res db1. Schedule (\<lambda>_. False) demo_cfg (demo_dp False 60000) demo_dream2 = (Inr res, db1) \<and>
     el_cooldownUntil (readEligibility ((update_rows (completed_row (dr_ID res) 70000) db1)\<lparr>conclusions := demo_cs\<rparr>)
       ''w'' ''o'' ''bob'' 3600000000000 28800000000000) \<le> 60000"
proof -
  let ?s = "Schedule (\<lambda>_. False) demo_cfg (demo_dp False 60000) demo_dream2"
  have "(case fst ?s of Inr res \<Rightarrow> dr_Action res = ''created'' | _ \<Rightarrow> False)" by code_simp
  then obtain res db1 where s: "?s = (Inr res, db1)" "dr_Action res = ''created''"
    by (cases ?s; cases "fst ?s") auto
  have a: "awf (dreams demo_dream2)" "\<forall>(i, r) \<in> set (arows (dreams demo_dream2)).
      (case dw_CompletedAt r of None \<Rightarrow> dw_UpdatedAt r | Some t \<Rightarrow> t) \<le> 70000"
    "0 < el_cooldownUntil (readEligibility demo_dream2 (dc_WorkspaceID (normalizeScheduleConfig demo_cfg))
      (dc_ObserverPeerID (normalizeScheduleConfig demo_cfg)) (trim_space (dp_Peer (demo_dp False 60000)))
      (dc_IdleTimeout (normalizeScheduleConfig demo_cfg)) (dc_Cooldown (normalizeScheduleConfig demo_cfg)))" by code_simp+
  have m: "\<not> dp_Manual (demo_dp False 60000)" by (simp add: demo_dp_def)
  have v: "dc_WorkspaceID (normalizeScheduleConfig demo_cfg) = ''w''" "dc_ObserverPeerID (normalizeScheduleConfig demo_cfg) = ''o''"
    "trim_space (dp_Peer (demo_dp False 60000)) = ''bob''" "dc_IdleTimeout (normalizeScheduleConfig demo_cfg) = 3600000000000"
    "dc_Cooldown (normalizeScheduleConfig demo_cfg) = 28800000000000" "dp_Now (demo_dp False 60000) = 60000" by code_simp+
  from second_dream_skips_cooldown [OF a(1) refl refl a(3) m s a(2), unfolded v, of demo_cs] s show ?thesis by blast
qed

theorem schedule_race_witness:
  "\<exists>it now reason. \<not> one_active (arows (dreams (snd (scheduleCommit (\<lambda>_. False) False (InsertIntent it now reason)
     (snd (scheduleCommit (\<lambda>_. False) False (InsertIntent it now reason) demo_dream0))))))"
proof -
  have "(case scheduleDecide (\<lambda>_. False) demo_cfg (demo_dp False 10000) demo_dream0 of
      Inr (InsertIntent _ _ _) \<Rightarrow> True | _ \<Rightarrow> False)" by code_simp
  then obtain it now reason where d:
    "scheduleDecide (\<lambda>_. False) demo_cfg (demo_dp False 10000) demo_dream0 = Inr (InsertIntent it now reason)"
    by (auto split: sum.splits dream_decision.splits)
  from schedule_race [OF d, of False] show ?thesis by (auto simp: case_prod_beta)
qed

theorem manual_dream_forgets_watermark_witness:
  "\<exists>res db1. Schedule (\<lambda>_. False) demo_cfg (demo_dp True 20001) (demo_dream2\<lparr>conclusions := demo_cs\<rparr>) = (Inr res, db1) \<and>
     el_newConclusions (readEligibility ((update_rows (completed_row (dr_ID res) 20002) db1)\<lparr>conclusions := demo_cs\<rparr>)
       ''w'' ''o'' ''bob'' 3600000000000 28800000000000) = 1"
proof -
  let ?db = "demo_dream2\<lparr>conclusions := demo_cs\<rparr>"
  let ?s = "Schedule (\<lambda>_. False) demo_cfg (demo_dp True 20001) ?db"
  have "(case fst ?s of Inr res \<Rightarrow> dr_Action res = ''created'' | _ \<Rightarrow> False)" by code_simp
  then obtain res db1 where s: "?s = (Inr res, db1)" "dr_Action res = ''created''"
    by (cases ?s; cases "fst ?s") auto
  have a: "awf (dreams ?db)" "\<forall>(i, r) \<in> set (arows (dreams ?db)).
      (case dw_CompletedAt r of None \<Rightarrow> dw_UpdatedAt r | Some t \<Rightarrow> t) \<le> 20002"
    "el_newConclusions (readEligibility ?db (dc_WorkspaceID (normalizeScheduleConfig demo_cfg))
      (dc_ObserverPeerID (normalizeScheduleConfig demo_cfg)) (trim_space (dp_Peer (demo_dp True 20001)))
      (dc_IdleTimeout (normalizeScheduleConfig demo_cfg)) (dc_Cooldown (normalizeScheduleConfig demo_cfg))) = 0" by code_simp+
  have v: "dc_WorkspaceID (normalizeScheduleConfig demo_cfg) = ''w''" "dc_ObserverPeerID (normalizeScheduleConfig demo_cfg) = ''o''"
    "trim_space (dp_Peer (demo_dp True 20001)) = ''bob''" "dc_IdleTimeout (normalizeScheduleConfig demo_cfg) = 3600000000000"
    "dc_Cooldown (normalizeScheduleConfig demo_cfg) = 28800000000000" by code_simp+
  have n: "int (length (newConclusionRows ?db ''w'' ''o'' ''bob'' 0)) = 1" "conclusions ?db = demo_cs" by code_simp+
  from manual_dream_forgets_watermark [OF a(1) refl refl a(3) s a(2), unfolded v n Let_def] s show ?thesis by blast
qed

end
