(* ===== verification/ServiceDb.thy ===== *)
theory ServiceDb
  imports Turns Utf8 Scope DreamScheduler
begin

text \<open>
  The tables of the memory service that sessions, conclusions, peer cards and summaries live in
  (\<open>memory/sqlite.go\<close>), with the statements on peer cards and summaries (\<open>service/sql.go\<close>) and the profile
  operations (\<open>service/service.go\<close>).
\<close>

section \<open>Tables\<close>

record conclusionRow =
  cn_WorkspaceID :: string
  cn_ProfileID :: string
  cn_ObserverPeerID :: string
  cn_PeerID :: string
  cn_SessionKey :: "string option"
  cn_Content :: string
  cn_Kind :: string
  cn_Status :: string
  cn_Source :: string
  cn_IdempotencyKey :: string
  cn_EvidenceJSON :: string
  cn_Scope :: string
  cn_CreatedAt :: int
  cn_UpdatedAt :: int

record peer_card_row =
  pc_WorkspaceID :: string
  pc_ProfileID :: string
  pc_ObserverPeerID :: string
  pc_PeerID :: string
  pc_Card :: "string list"
  pc_UpdatedAt :: int

record sessionSummaryRow =
  ss_WorkspaceID :: string
  ss_SessionKey :: string
  ss_SummaryType :: string
  ss_Content :: string
  ss_MessageID :: int
  ss_CreatedAt :: int
  ss_TokenCount :: int

record service_db =
  db_turns :: "turn_row atable"
  db_conclusions :: "conclusionRow atable"
  db_cards :: "peer_card_row list"
  db_summaries :: "sessionSummaryRow list"
  db_dreams :: "dream_row atable"
  db_dreams_present :: bool

definition empty_db :: service_db where
  "empty_db = \<lparr>db_turns = aempty, db_conclusions = aempty, db_cards = [], db_summaries = [], db_dreams = aempty,
     db_dreams_present = True\<rparr>"

text \<open>\<open>sqlutil.NullIfBlank\<close>: a blank is null, any other text is stored as it is.\<close>

definition NullIfBlank :: "string \<Rightarrow> string option" where
  "NullIfBlank s = (if trim_space s = [] then None else Some s)"

text \<open>\<open>encoding/json\<close> writes every invalid byte of a string as U+FFFD.\<close>

function json_text :: "string \<Rightarrow> string" where
  "json_text s =
     (if s = [] then []
      else if rune_len s = 0 then replacement_rune @ json_text (drop 1 s)
      else take (rune_len s) s @ json_text (drop (rune_len s) s))"
  by pat_completeness auto
termination
  by (relation "measure length") auto

declare json_text.simps [simp del]

lemma json_text_valid: "valid_utf8 s \<Longrightarrow> json_text s = s"
  by (induction s rule: json_text.induct)
    (subst json_text.simps, subst (asm) (3) valid_utf8.simps, auto split: if_splits)

section \<open>Peer cards\<close>

definition pc_key :: "peer_card_row \<Rightarrow> string \<times> string \<times> string \<times> string" where
  "pc_key r = (pc_WorkspaceID r, pc_ProfileID r, pc_ObserverPeerID r, pc_PeerID r)"

interpretation cards: replacing_table pc_key "\<lambda>_ r. r"
  by unfold_locales simp_all

datatype store_error = PeerRequired | TargetRequired | StoreDb

text \<open>The card is stored as JSON and read back, so an invalid byte becomes U+FFFD.\<close>

definition upsertPeerCard :: "bool \<Rightarrow> int \<Rightarrow> string \<Rightarrow> string \<Rightarrow> string \<Rightarrow> string \<Rightarrow> string list \<Rightarrow> service_db
    \<Rightarrow> (store_error + unit) \<times> service_db" where
  "upsertPeerCard fails now ws profileID observer peer facts db =
     (if fails then (Inl StoreDb, db)
      else (Inr (), db\<lparr>db_cards := tupsert pc_key (\<lambda>_ r. r)
        \<lparr>pc_WorkspaceID = ws, pc_ProfileID = profileID, pc_ObserverPeerID = observer, pc_PeerID = peer,
         pc_Card = map json_text facts, pc_UpdatedAt = now\<rparr> (db_cards db)\<rparr>))"

definition getPeerCard :: "bool \<Rightarrow> string \<Rightarrow> string \<Rightarrow> string \<Rightarrow> string \<Rightarrow> service_db \<Rightarrow> store_error + string list" where
  "getPeerCard fails ws profileID observer peer db =
     (if fails then Inl StoreDb
      else case tfind pc_key (ws, profileID, observer, peer) (db_cards db) of
        None \<Rightarrow> Inr []
      | Some r \<Rightarrow> Inr (pc_Card r))"

definition maxPeerCardFacts :: nat where
  "maxPeerCardFacts = 40"

definition normalizePeerCard :: "string list \<Rightarrow> string list" where
  "normalizePeerCard facts = (if maxPeerCardFacts < length facts then take maxPeerCardFacts facts else facts)"

record peerCardScope =
  ps_Observer :: string
  ps_Observed :: string
  ps_Target :: string

record memory_service =
  ms_workspaceID :: string
  ms_observer :: string
  ms_peerCardEnabled :: bool
  ms_dreamEnabled :: bool
  ms_maxMessageSize :: int
  ms_recentLimit :: int

definition defaultPeerCardScope :: "memory_service \<Rightarrow> string \<Rightarrow> store_error + peerCardScope" where
  "defaultPeerCardScope s peer =
     (if trim_space peer = [] then Inl PeerRequired
      else Inr \<lparr>ps_Observer = ms_observer s, ps_Observed = trim_space peer, ps_Target = []\<rparr>)"

definition directionalPeerCardScope :: "string \<Rightarrow> string \<Rightarrow> store_error + peerCardScope" where
  "directionalPeerCardScope peer target =
     (if trim_space peer = [] then Inl PeerRequired
      else if trim_space target = [] then Inl TargetRequired
      else Inr \<lparr>ps_Observer = trim_space peer, ps_Observed = trim_space target, ps_Target = trim_space target\<rparr>)"

definition SetProfile :: "bool \<Rightarrow> int \<Rightarrow> memory_service \<Rightarrow> string \<Rightarrow> string list \<Rightarrow> service_db \<Rightarrow> (store_error + unit) \<times> service_db" where
  "SetProfile fails now s peer facts db =
     (case defaultPeerCardScope s peer of
        Inl e \<Rightarrow> (Inl e, db)
      | Inr sc \<Rightarrow> upsertPeerCard fails now (ms_workspaceID s) [] (ps_Observer sc) (ps_Observed sc) (normalizePeerCard facts) db)"

definition SetProfileForTarget :: "bool \<Rightarrow> int \<Rightarrow> memory_service \<Rightarrow> string \<Rightarrow> string \<Rightarrow> string list \<Rightarrow> service_db
    \<Rightarrow> (store_error + unit) \<times> service_db" where
  "SetProfileForTarget fails now s peer target facts db =
     (case directionalPeerCardScope peer target of
        Inl e \<Rightarrow> (Inl e, db)
      | Inr sc \<Rightarrow> upsertPeerCard fails now (ms_workspaceID s) [] (ps_Observer sc) (ps_Observed sc) (normalizePeerCard facts) db)"

definition SetProfileInNamespace :: "bool \<Rightarrow> int \<Rightarrow> memory_service \<Rightarrow> string \<Rightarrow> string \<Rightarrow> string \<Rightarrow> string list \<Rightarrow> service_db
    \<Rightarrow> (store_error + unit) \<times> service_db" where
  "SetProfileInNamespace fails now s nsWorkspace nsProfile nsPeer facts db =
     (let sc = scopekey_Normalize (ms_workspaceID s) nsWorkspace nsProfile nsPeer in
      if Peer sc = [] then (Inl PeerRequired, db)
      else upsertPeerCard fails now (WorkspaceID sc) (ProfileID sc) (ms_observer s) (Peer sc) (normalizePeerCard facts) db)"

text \<open>The hint of an empty profile is its code.\<close>

record ProfileResult =
  pf_WorkspaceID :: string
  pf_ProfileID :: string
  pf_Peer :: string
  pf_Target :: string
  pf_ObserverPeerID :: string
  pf_ObservedPeerID :: string
  pf_Card :: "string list"
  pf_Result :: string
  pf_Hint :: "string option"

definition emptyProfileResultText :: string where
  "emptyProfileResultText = ''No profile facts available yet.''"

text \<open>The common end of \<open>profileForScope\<close> and \<open>ProfileInNamespace\<close>.\<close>

definition read_profile :: "bool \<Rightarrow> memory_service \<Rightarrow> ProfileResult \<Rightarrow> service_db \<Rightarrow> store_error + ProfileResult" where
  "read_profile fails s out db =
     (if \<not> ms_peerCardEnabled s
      then Inr (out\<lparr>pf_Result := emptyProfileResultText, pf_Hint := Some ''peer_card_disabled''\<rparr>)
      else case getPeerCard fails (pf_WorkspaceID out) (pf_ProfileID out) (pf_ObserverPeerID out) (pf_ObservedPeerID out) db of
        Inl e \<Rightarrow> Inl e
      | Inr facts \<Rightarrow>
          if facts = [] then Inr (out\<lparr>pf_Card := facts, pf_Result := emptyProfileResultText, pf_Hint := Some ''peer_card_empty_unknown''\<rparr>)
          else Inr (out\<lparr>pf_Card := facts\<rparr>))"

definition profileForScope :: "bool \<Rightarrow> memory_service \<Rightarrow> peerCardScope \<Rightarrow> service_db \<Rightarrow> store_error + ProfileResult" where
  "profileForScope fails s sc db =
     (if ps_Observer sc = [] \<or> ps_Observed sc = [] then Inl PeerRequired
      else read_profile fails s \<lparr>pf_WorkspaceID = ms_workspaceID s, pf_ProfileID = [], pf_Peer = ps_Observed sc,
        pf_Target = ps_Target sc, pf_ObserverPeerID = ps_Observer sc, pf_ObservedPeerID = ps_Observed sc, pf_Card = [],
        pf_Result = [], pf_Hint = None\<rparr> db)"

definition Profile :: "bool \<Rightarrow> memory_service \<Rightarrow> string \<Rightarrow> service_db \<Rightarrow> store_error + ProfileResult" where
  "Profile fails s peer db =
     (case defaultPeerCardScope s peer of Inl e \<Rightarrow> Inl e | Inr sc \<Rightarrow> profileForScope fails s sc db)"

definition ProfileForTarget :: "bool \<Rightarrow> memory_service \<Rightarrow> string \<Rightarrow> string \<Rightarrow> service_db \<Rightarrow> store_error + ProfileResult" where
  "ProfileForTarget fails s peer target db =
     (case directionalPeerCardScope peer target of Inl e \<Rightarrow> Inl e | Inr sc \<Rightarrow> profileForScope fails s sc db)"

definition ProfileInNamespace :: "bool \<Rightarrow> memory_service \<Rightarrow> string \<Rightarrow> string \<Rightarrow> string \<Rightarrow> service_db \<Rightarrow> store_error + ProfileResult" where
  "ProfileInNamespace fails s nsWorkspace nsProfile nsPeer db =
     (let sc = scopekey_Normalize (ms_workspaceID s) nsWorkspace nsProfile nsPeer in
      if Peer sc = [] then Inl PeerRequired
      else read_profile fails s \<lparr>pf_WorkspaceID = WorkspaceID sc, pf_ProfileID = ProfileID sc, pf_Peer = Peer sc,
        pf_Target = [], pf_ObserverPeerID = ms_observer s, pf_ObservedPeerID = Peer sc, pf_Card = [], pf_Result = [],
        pf_Hint = None\<rparr> db)"

end
