(* ===== verification/Lifecycle.thy ===== *)
theory Lifecycle
  imports ServiceDb
begin

text \<open>
  Session messages (\<open>service/lifecycle_module.go\<close> and the statements of \<open>service/sql.go\<close>): creating a batch of
  messages in a transaction that is retried while SQLite is locked, listing a session, and deleting a session
  or a workspace.  A statement fails as \<open>fails\<close> decides, either because the database is locked or otherwise.
  An error value carries no text, since no other error of these calls reads like a lock error.
\<close>

datatype db_failure = LockError | OtherError

datatype life_site = LBegin | LSequence | LMarshal nat | LInsert nat | LLastID nat | LCommit
  | LList | LMessages | LCards | LConclusions | LSummaries | LDreams

datatype life_error = WorkspaceRequired | SessionRequired | MessagePeerRequired | ContentRequired | ContentTooLong
  | LifeDb db_failure | RetryCanceled

record CreateMessage =
  ci_ProfileID :: string
  ci_Peer :: string
  ci_Role :: string
  ci_Content :: string
  ci_Metadata :: string
  ci_CreatedAt :: int

record MessageRecord =
  mr_ID :: int
  mr_WorkspaceID :: string
  mr_SessionKey :: string
  mr_ProfileID :: string
  mr_Peer :: string
  mr_Role :: string
  mr_Content :: string
  mr_Sequence :: int
  mr_CreatedAt :: int
  mr_Metadata :: string

definition Unix :: "int \<Rightarrow> int" where
  "Unix t = t div 1000000000"

section \<open>Creating messages\<close>

definition message_seq :: "turn_row \<Rightarrow> int" where
  "message_seq r = (case tu_Meta r of GonchoMeta m \<Rightarrow> lm_Sequence m | _ \<Rightarrow> 0)"

definition lastLifecycleMessageSequence :: "string \<Rightarrow> string \<Rightarrow> turn_row atable \<Rightarrow> int" where
  "lastLifecycleMessageSequence ws sessionKey t =
     (case map (\<lambda>(i, r). message_seq r)
         (filter (\<lambda>(i, r). tu_SessionID r = sessionKey \<and> tu_SyncStatus r = ''ready'' \<and> of_workspace ws r) (arows t)) of
        [] \<Rightarrow> 0
      | s # ss \<Rightarrow> fold max ss s)"

text \<open>The row and the result of one message; \<open>now\<close> is read when the message has no time.\<close>

definition message_time :: "int \<Rightarrow> CreateMessage \<Rightarrow> int" where
  "message_time now input = Unix (if ci_CreatedAt input = zero_time then now else ci_CreatedAt input)"

definition message_role :: "CreateMessage \<Rightarrow> string" where
  "message_role input = (if trim_space (ci_Role input) = [] then ''user'' else trim_space (ci_Role input))"

definition message_turn :: "string \<Rightarrow> string \<Rightarrow> int \<Rightarrow> int \<Rightarrow> CreateMessage \<Rightarrow> turn_row" where
  "message_turn ws sessionKey now sequence input =
     \<lparr>tu_SessionID = sessionKey, tu_Role = message_role input, tu_Content = trim_space (ci_Content input),
      tu_TsUnix = message_time now input, tu_ChatID = Some (trim_space (ci_Peer input)),
      tu_Meta = GonchoMeta \<lparr>lm_WorkspaceID = json_text ws, lm_ProfileID = json_text (trim_space (ci_ProfileID input)),
        lm_PeerID = json_text (trim_space (ci_Peer input)), lm_Sequence = sequence, lm_Metadata = ci_Metadata input\<rparr>,
      tu_SyncStatus = ''ready''\<rparr>"

definition message_record :: "string \<Rightarrow> string \<Rightarrow> int \<Rightarrow> int \<Rightarrow> int \<Rightarrow> CreateMessage \<Rightarrow> MessageRecord" where
  "message_record ws sessionKey now i sequence input =
     \<lparr>mr_ID = i, mr_WorkspaceID = ws, mr_SessionKey = sessionKey, mr_ProfileID = trim_space (ci_ProfileID input),
      mr_Peer = trim_space (ci_Peer input), mr_Role = message_role input, mr_Content = trim_space (ci_Content input),
      mr_Sequence = sequence, mr_CreatedAt = message_time now input, mr_Metadata = ci_Metadata input\<rparr>"

text \<open>The loop over the inputs; \<open>n\<close> is the index of the input, \<open>now n\<close> the clock.\<close>

fun create_messages_loop :: "(life_site \<Rightarrow> db_failure option) \<Rightarrow> (nat \<Rightarrow> int) \<Rightarrow> string \<Rightarrow> string \<Rightarrow> int \<Rightarrow> int \<Rightarrow> nat
    \<Rightarrow> CreateMessage list \<Rightarrow> turn_row atable \<Rightarrow> MessageRecord list \<Rightarrow> life_error + MessageRecord list \<times> turn_row atable" where
  "create_messages_loop fails now ws sessionKey maxSize lastSeq n [] t out = Inr (out, t)"
| "create_messages_loop fails now ws sessionKey maxSize lastSeq n (input # inputs) t out =
     (if trim_space (ci_Peer input) = [] then Inl MessagePeerRequired
      else if trim_space (ci_Content input) = [] then Inl ContentRequired
      else if 0 < maxSize \<and> maxSize < int (length (trim_space (ci_Content input))) then Inl ContentTooLong
      else
        let sequence = lastSeq + int n + 1 in
        case fails (LMarshal n) of Some e \<Rightarrow> Inl (LifeDb e)
      | None \<Rightarrow> (case fails (LInsert n) of Some e \<Rightarrow> Inl (LifeDb e)
      | None \<Rightarrow> (case fails (LLastID n) of Some e \<Rightarrow> Inl (LifeDb e)
      | None \<Rightarrow>
          (case ainsert (message_turn ws sessionKey (now n) sequence input) t of
             (i, t1) \<Rightarrow> create_messages_loop fails now ws sessionKey maxSize lastSeq (Suc n) inputs t1
               (out @ [message_record ws sessionKey (now n) i sequence input])))))"

definition createLifecycleMessages :: "(life_site \<Rightarrow> db_failure option) \<Rightarrow> (nat \<Rightarrow> int) \<Rightarrow> string \<Rightarrow> string \<Rightarrow> int
    \<Rightarrow> CreateMessage list \<Rightarrow> turn_row atable \<Rightarrow> life_error + MessageRecord list \<times> turn_row atable" where
  "createLifecycleMessages fails now workspaceID0 sessionKey0 maxSize inputs t =
     (let workspaceID = trim_space workspaceID0; sessionKey = trim_space sessionKey0 in
      if workspaceID = [] then Inl WorkspaceRequired
      else if sessionKey = [] then Inl SessionRequired
      else if inputs = [] then Inr ([], t)
      else case fails LSequence of Some e \<Rightarrow> Inl (LifeDb e)
      | None \<Rightarrow> create_messages_loop fails now workspaceID sessionKey maxSize
          (lastLifecycleMessageSequence workspaceID sessionKey t) 0 inputs t [])"

text \<open>A failed attempt is rolled back: the tables are those before it.\<close>

definition createMessagesOnce :: "(life_site \<Rightarrow> db_failure option) \<Rightarrow> (nat \<Rightarrow> int) \<Rightarrow> memory_service \<Rightarrow> string
    \<Rightarrow> CreateMessage list \<Rightarrow> service_db \<Rightarrow> (life_error + MessageRecord list) \<times> service_db" where
  "createMessagesOnce fails now s sessionKey inputs db =
     (case fails LBegin of Some e \<Rightarrow> (Inl (LifeDb e), db)
      | None \<Rightarrow> (case createLifecycleMessages fails now (ms_workspaceID s) sessionKey (ms_maxMessageSize s) inputs (db_turns db) of
          Inl e \<Rightarrow> (Inl e, db)
        | Inr (messages, t1) \<Rightarrow> (case fails LCommit of Some e \<Rightarrow> (Inl (LifeDb e), db)
            | None \<Rightarrow> (Inr messages, db\<lparr>db_turns := t1\<rparr>))))"

definition isTransientSQLiteLockError :: "life_error \<Rightarrow> bool" where
  "isTransientSQLiteLockError e \<longleftrightarrow> e = LifeDb LockError"

definition createMessagesLockRetryAttempts :: nat where
  "createMessagesLockRetryAttempts = 6"

definition createMessagesLockRetryDelay :: "nat \<Rightarrow> int" where
  "createMessagesLockRetryDelay attempt =
     (let delay = 20000000 * (int attempt + 1) in if 150000000 < delay then 150000000 else delay)"

text \<open>
  The attempts.  \<open>others n\<close> is what the other connections did to the database before attempt \<open>n\<close>, \<open>fails n\<close> the
  failures of attempt \<open>n\<close>, and \<open>cancelled n\<close> says that the context ended while attempt \<open>n\<close> waited to be retried.
\<close>

function create_attempts :: "(nat \<Rightarrow> service_db \<Rightarrow> service_db) \<Rightarrow> (nat \<Rightarrow> life_site \<Rightarrow> db_failure option) \<Rightarrow> (nat \<Rightarrow> bool)
    \<Rightarrow> (nat \<Rightarrow> nat \<Rightarrow> int) \<Rightarrow> memory_service \<Rightarrow> string \<Rightarrow> CreateMessage list \<Rightarrow> nat \<Rightarrow> service_db
    \<Rightarrow> (life_error + MessageRecord list) \<times> service_db" where
  "create_attempts others fails cancelled now s sessionKey inputs attempt db =
     (case createMessagesOnce (fails attempt) (now attempt) s sessionKey inputs (others attempt db) of
        (Inr messages, db1) \<Rightarrow> (Inr messages, db1)
      | (Inl e, db1) \<Rightarrow>
          if \<not> isTransientSQLiteLockError e then (Inl e, db1)
          else if createMessagesLockRetryAttempts - 1 \<le> attempt then (Inl e, db1)
          else if cancelled attempt then (Inl RetryCanceled, db1)
          else create_attempts others fails cancelled now s sessionKey inputs (Suc attempt) db1)"
  by pat_completeness auto
termination
  by (relation "measure (\<lambda>(others, fails, cancelled, now, s, sessionKey, inputs, attempt, db). createMessagesLockRetryAttempts - attempt)")
    (auto simp: createMessagesLockRetryAttempts_def)

declare create_attempts.simps [simp del]

definition CreateMessages :: "(nat \<Rightarrow> service_db \<Rightarrow> service_db) \<Rightarrow> (nat \<Rightarrow> life_site \<Rightarrow> db_failure option) \<Rightarrow> (nat \<Rightarrow> bool)
    \<Rightarrow> (nat \<Rightarrow> nat \<Rightarrow> int) \<Rightarrow> memory_service \<Rightarrow> string \<Rightarrow> CreateMessage list \<Rightarrow> service_db
    \<Rightarrow> (life_error + MessageRecord list) \<times> service_db" where
  "CreateMessages others fails cancelled now s sessionKey inputs db =
     (if trim_space sessionKey = [] then (Inl SessionRequired, db)
      else create_attempts others fails cancelled now s (trim_space sessionKey) inputs 0 db)"

section \<open>Listing a session\<close>

text \<open>
  A listing decodes the metadata that \<open>createLifecycleMessages\<close> encoded.  \<open>remap\<close> is \<open>json.Unmarshal\<close> after
  \<open>json.Marshal\<close> on a \<open>map[string]any\<close>: it gives the map that is read back for the map that was stored.
\<close>

definition listed_record :: "(string \<Rightarrow> string) \<Rightarrow> string \<Rightarrow> int \<times> turn_row \<Rightarrow> MessageRecord" where
  "listed_record remap ws = (\<lambda>(i, r).
     let chatID = (case tu_ChatID r of None \<Rightarrow> [] | Some c \<Rightarrow> c) in
     case tu_Meta r of
       GonchoMeta m \<Rightarrow> \<lparr>mr_ID = i, mr_WorkspaceID = ws, mr_SessionKey = tu_SessionID r, mr_ProfileID = trim_space (lm_ProfileID m),
         mr_Peer = (if lm_PeerID m \<noteq> [] then lm_PeerID m else chatID), mr_Role = tu_Role r, mr_Content = tu_Content r,
         mr_Sequence = lm_Sequence m, mr_CreatedAt = tu_TsUnix r, mr_Metadata = remap (lm_Metadata m)\<rparr>
     | _ \<Rightarrow> \<lparr>mr_ID = i, mr_WorkspaceID = ws, mr_SessionKey = tu_SessionID r, mr_ProfileID = [], mr_Peer = chatID, mr_Role = tu_Role r,
         mr_Content = tu_Content r, mr_Sequence = 0, mr_CreatedAt = tu_TsUnix r, mr_Metadata = []\<rparr>)"

definition session_messages :: "string \<Rightarrow> string \<Rightarrow> turn_row atable \<Rightarrow> (int \<times> turn_row) list" where
  "session_messages ws sessionKey t =
     order_asc (\<lambda>(i, r). (message_seq r, i))
       (filter (\<lambda>(i, r). tu_SessionID r = sessionKey \<and> tu_SyncStatus r = ''ready'' \<and> of_workspace ws r) (arows t))"

definition listLifecycleMessages :: "(string \<Rightarrow> string) \<Rightarrow> (life_site \<Rightarrow> db_failure option) \<Rightarrow> string \<Rightarrow> string
    \<Rightarrow> turn_row atable \<Rightarrow> life_error + MessageRecord list" where
  "listLifecycleMessages remap fails ws sessionKey t =
     (case fails LList of Some e \<Rightarrow> Inl (LifeDb e)
      | None \<Rightarrow> Inr (map (listed_record remap ws) (session_messages ws sessionKey t)))"

section \<open>Deleting a session or a workspace\<close>

record SessionDeletionResult =
  sd_WorkspaceID :: string
  sd_SessionKey :: string
  sd_MessagesDeleted :: nat
  sd_ConclusionsDeleted :: nat
  sd_SummariesDeleted :: nat

record WorkspaceDeletionResult =
  wd_WorkspaceID :: string
  wd_MessagesDeleted :: nat
  wd_PeerCardsDeleted :: nat
  wd_ConclusionsDeleted :: nat
  wd_SummariesDeleted :: nat
  wd_DreamsDeleted :: nat

text \<open>A \<open>DELETE\<close> of an AUTOINCREMENT table, and how many rows it affects.\<close>

definition adelete :: "('r \<Rightarrow> bool) \<Rightarrow> 'r atable \<Rightarrow> 'r atable" where
  "adelete p t = t\<lparr>arows := tdelete (\<lambda>(i, r). p r) (arows t)\<rparr>"

definition acount :: "('r \<Rightarrow> bool) \<Rightarrow> 'r atable \<Rightarrow> nat" where
  "acount p t = length (filter (\<lambda>(i, r). p r) (arows t))"

definition count_rows :: "('r \<Rightarrow> bool) \<Rightarrow> 'r list \<Rightarrow> nat" where
  "count_rows p t = length (filter p t)"

fun first_failure :: "(life_site \<Rightarrow> db_failure option) \<Rightarrow> life_site list \<Rightarrow> db_failure option" where
  "first_failure fails [] = None"
| "first_failure fails (x # xs) = (case fails x of Some e \<Rightarrow> Some e | None \<Rightarrow> first_failure fails xs)"

definition DeleteSession :: "(life_site \<Rightarrow> db_failure option) \<Rightarrow> memory_service \<Rightarrow> string \<Rightarrow> service_db
    \<Rightarrow> (life_error + SessionDeletionResult) \<times> service_db" where
  "DeleteSession fails s sessionKey0 db =
     (let sessionKey = trim_space sessionKey0; ws = ms_workspaceID s;
          of_session = (\<lambda>r. tu_SessionID r = sessionKey \<and> of_workspace ws r);
          of_key = (\<lambda>r. cn_WorkspaceID r = ws \<and> cn_SessionKey r = Some sessionKey);
          of_summary = (\<lambda>r. ss_WorkspaceID r = ws \<and> ss_SessionKey r = sessionKey) in
      if sessionKey = [] then (Inl SessionRequired, db)
      else case first_failure fails [LBegin, LMessages, LConclusions, LSummaries, LCommit] of
        Some e \<Rightarrow> (Inl (LifeDb e), db)
      | None \<Rightarrow>
          (Inr \<lparr>sd_WorkspaceID = ws, sd_SessionKey = sessionKey, sd_MessagesDeleted = acount of_session (db_turns db),
             sd_ConclusionsDeleted = acount of_key (db_conclusions db), sd_SummariesDeleted = count_rows of_summary (db_summaries db)\<rparr>,
           db\<lparr>db_turns := adelete of_session (db_turns db), db_conclusions := adelete of_key (db_conclusions db),
             db_summaries := tdelete of_summary (db_summaries db)\<rparr>))"

definition DeleteWorkspace :: "(life_site \<Rightarrow> db_failure option) \<Rightarrow> memory_service \<Rightarrow> service_db
    \<Rightarrow> (life_error + WorkspaceDeletionResult) \<times> service_db" where
  "DeleteWorkspace fails s db =
     (let ws = ms_workspaceID s; of_turn = of_workspace ws; of_card = (\<lambda>r. pc_WorkspaceID r = ws);
          of_conclusion = (\<lambda>r. cn_WorkspaceID r = ws); of_summary = (\<lambda>r. ss_WorkspaceID r = ws);
          of_dream = (\<lambda>r. in_WorkspaceID (dw_Intent r) = ws) in
      case first_failure fails [LBegin, LMessages, LCards, LConclusions, LSummaries, LDreams, LCommit] of
        Some e \<Rightarrow> (Inl (LifeDb e), db)
      | None \<Rightarrow>
          (Inr \<lparr>wd_WorkspaceID = ws, wd_MessagesDeleted = acount of_turn (db_turns db),
             wd_PeerCardsDeleted = count_rows of_card (db_cards db), wd_ConclusionsDeleted = acount of_conclusion (db_conclusions db),
             wd_SummariesDeleted = count_rows of_summary (db_summaries db), wd_DreamsDeleted = acount of_dream (db_dreams db)\<rparr>,
           db\<lparr>db_turns := adelete of_turn (db_turns db), db_cards := tdelete of_card (db_cards db),
             db_conclusions := adelete of_conclusion (db_conclusions db), db_summaries := tdelete of_summary (db_summaries db),
             db_dreams := adelete of_dream (db_dreams db)\<rparr>))"

text \<open>The turn of an assistant's reply (\<open>insertAssistantChatTurn\<close>), which carries no \<open>goncho\<close> metadata.\<close>

definition insertAssistantChatTurn :: "bool \<Rightarrow> int \<Rightarrow> string \<Rightarrow> string \<Rightarrow> string \<Rightarrow> bool \<Rightarrow> service_db \<Rightarrow> (life_error + unit) \<times> service_db" where
  "insertAssistantChatTurn failed now sessionID0 peer0 content hasMeta db =
     (if trim_space sessionID0 = [] \<or> trim_space peer0 = [] \<or> trim_space content = [] then (Inr (), db)
      else if failed then (Inl (LifeDb OtherError), db)
      else (Inr (), db\<lparr>db_turns := snd (ainsert
        \<lparr>tu_SessionID = trim_space sessionID0, tu_Role = ''assistant'', tu_Content = content, tu_TsUnix = Unix now,
         tu_ChatID = Some (trim_space peer0), tu_Meta = (if hasMeta then OtherMeta else NoMeta), tu_SyncStatus = ''ready''\<rparr>
        (db_turns db))\<rparr>))"

section \<open>What a batch adds\<close>

fun new_turns :: "string \<Rightarrow> string \<Rightarrow> (nat \<Rightarrow> int) \<Rightarrow> int \<Rightarrow> nat \<Rightarrow> int \<Rightarrow> CreateMessage list \<Rightarrow> (int \<times> turn_row) list" where
  "new_turns ws sk now lastSeq n i [] = []"
| "new_turns ws sk now lastSeq n i (input # inputs) =
     (i + 1, message_turn ws sk (now n) (lastSeq + int n + 1) input) # new_turns ws sk now lastSeq (Suc n) (i + 1) inputs"

fun new_records :: "string \<Rightarrow> string \<Rightarrow> (nat \<Rightarrow> int) \<Rightarrow> int \<Rightarrow> nat \<Rightarrow> int \<Rightarrow> CreateMessage list \<Rightarrow> MessageRecord list" where
  "new_records ws sk now lastSeq n i [] = []"
| "new_records ws sk now lastSeq n i (input # inputs) =
     message_record ws sk (now n) (i + 1) (lastSeq + int n + 1) input # new_records ws sk now lastSeq (Suc n) (i + 1) inputs"

text \<open>The checks an input passes.\<close>

definition valid_message :: "int \<Rightarrow> CreateMessage \<Rightarrow> bool" where
  "valid_message maxSize input \<longleftrightarrow> trim_space (ci_Peer input) \<noteq> [] \<and> trim_space (ci_Content input) \<noteq> []
     \<and> (0 < maxSize \<longrightarrow> int (length (trim_space (ci_Content input))) \<le> maxSize)"

lemma create_messages_loop_ok:
  assumes "create_messages_loop fails now ws sk maxSize lastSeq n inputs t out = Inr (out', t')"
  shows "out' = out @ new_records ws sk now lastSeq n (aseq t) inputs
    \<and> t' = \<lparr>arows = arows t @ new_turns ws sk now lastSeq n (aseq t) inputs, aseq = aseq t + int (length inputs)\<rparr>
    \<and> list_all (valid_message maxSize) inputs"
  using assms
proof (induction inputs arbitrary: n t out)
  case Nil
  then show ?case by simp
next
  case (Cons input inputs)
  define t1 where "t1 = snd (ainsert (message_turn ws sk (now n) (lastSeq + int n + 1) input) t)"
  have t1: "arows t1 = arows t @ [(aseq t + 1, message_turn ws sk (now n) (lastSeq + int n + 1) input)]" "aseq t1 = aseq t + 1"
    by (simp_all add: t1_def fst_ainsert)
  have v: "valid_message maxSize input" using Cons.prems by (auto simp: valid_message_def Let_def split: if_splits option.splits)
  have "create_messages_loop fails now ws sk maxSize lastSeq (Suc n) inputs t1
      (out @ [message_record ws sk (now n) (aseq t + 1) (lastSeq + int n + 1) input]) = Inr (out', t')"
    using Cons.prems by (simp add: Let_def t1_def ainsert_def split: if_splits option.splits)
  from Cons.IH [OF this] v show ?case by (simp add: t1)
qed

lemma new_turns_in:
  assumes "(j, r) \<in> set (new_turns ws sk now lastSeq n i inputs)"
  shows "i < j \<and> j \<le> i + int (length inputs) \<and> message_seq r = lastSeq + int n + (j - i)
    \<and> tu_SessionID r = sk \<and> tu_SyncStatus r = ''ready''
    \<and> (\<exists>m. tu_Meta r = GonchoMeta m \<and> lm_WorkspaceID m = json_text ws)"
  using assms by (induction inputs arbitrary: n i) (fastforce simp: message_turn_def message_seq_def)+

lemma new_turns_ids: "map fst (new_turns ws sk now lastSeq n i inputs) = map (\<lambda>k. i + 1 + int k) [0..<length inputs]"
proof (induction inputs arbitrary: n i)
  case (Cons input inputs)
  have "map (\<lambda>k. i + 1 + 1 + int k) [0..<length inputs] = map (\<lambda>k. i + 1 + int k) (map Suc [0..<length inputs])" by simp
  with Cons.IH [of "Suc n" "i + 1"] show ?case by (simp add: map_Suc_upt upt_conv_Cons del: upt_Suc)
qed simp

text \<open>The effect of \<open>createMessagesOnce\<close>: nothing, or the whole batch at the end of the table.\<close>

lemma createMessagesOnce_cases:
  assumes "trim_space sk = sk"
  obtains (failed) e where "createMessagesOnce fails now s sk inputs db = (Inl e, db)"
  | (stored) "createMessagesOnce fails now s sk inputs db
      = (Inr (new_records (trim_space (ms_workspaceID s)) sk now (lastLifecycleMessageSequence (trim_space (ms_workspaceID s)) sk (db_turns db)) 0
            (aseq (db_turns db)) inputs),
         db\<lparr>db_turns := \<lparr>arows = arows (db_turns db) @ new_turns (trim_space (ms_workspaceID s)) sk now
              (lastLifecycleMessageSequence (trim_space (ms_workspaceID s)) sk (db_turns db)) 0 (aseq (db_turns db)) inputs,
            aseq = aseq (db_turns db) + int (length inputs)\<rparr>\<rparr>)"
      "trim_space (ms_workspaceID s) \<noteq> []" "list_all (valid_message (ms_maxMessageSize s)) inputs"
proof (cases "fails LBegin")
  case (Some e)
  with failed show ?thesis by (simp add: createMessagesOnce_def)
next
  case started: None
  let ?c = "createLifecycleMessages fails now (ms_workspaceID s) sk (ms_maxMessageSize s) inputs (db_turns db)"
  show ?thesis
  proof (cases ?c)
    case (Inl e)
    with started failed show ?thesis by (simp add: createMessagesOnce_def)
  next
    case (Inr x)
    obtain out t1 where x: "x = (out, t1)" by (cases x)
    have ne: "trim_space (ms_workspaceID s) \<noteq> []" using Inr by (auto simp: createLifecycleMessages_def Let_def)
    have "out = new_records (trim_space (ms_workspaceID s)) sk now (lastLifecycleMessageSequence (trim_space (ms_workspaceID s)) sk (db_turns db)) 0
          (aseq (db_turns db)) inputs
        \<and> t1 = \<lparr>arows = arows (db_turns db) @ new_turns (trim_space (ms_workspaceID s)) sk now
              (lastLifecycleMessageSequence (trim_space (ms_workspaceID s)) sk (db_turns db)) 0 (aseq (db_turns db)) inputs,
            aseq = aseq (db_turns db) + int (length inputs)\<rparr> \<and> list_all (valid_message (ms_maxMessageSize s)) inputs"
    proof (cases "inputs = []")
      case True
      with Inr x show ?thesis by (auto simp: createLifecycleMessages_def Let_def split: if_splits)
    next
      case False
      with Inr x assms create_messages_loop_ok [of fails now "trim_space (ms_workspaceID s)" sk] show ?thesis
        by (fastforce simp: createLifecycleMessages_def Let_def split: if_splits option.splits)
    qed
    with started Inr x ne failed stored show ?thesis by (cases "fails LCommit") (auto simp: createMessagesOnce_def)
  qed
qed

section \<open>Sequences\<close>

text \<open>
  The messages of a session are numbered in the order in which they were stored: later ids have greater
  sequence numbers, and the numbers start at 1.
\<close>

definition same_session :: "turn_row \<Rightarrow> turn_row \<Rightarrow> bool" where
  "same_session r q \<longleftrightarrow> tu_SessionID r = tu_SessionID q \<and>
     (case tu_Meta r of GonchoMeta m \<Rightarrow> (case tu_Meta q of GonchoMeta k \<Rightarrow> lm_WorkspaceID m = lm_WorkspaceID k | _ \<Rightarrow> False) | _ \<Rightarrow> False)"

definition numbered :: "turn_row atable \<Rightarrow> bool" where
  "numbered t \<longleftrightarrow> awf t
     \<and> (\<forall>(i, r) \<in> set (arows t). \<forall>(j, q) \<in> set (arows t). same_session r q \<and> i < j \<longrightarrow> message_seq r < message_seq q)
     \<and> (\<forall>(i, r) \<in> set (arows t). \<forall>m. tu_Meta r = GonchoMeta m \<longrightarrow> 1 \<le> lm_Sequence m \<and> tu_SyncStatus r = ''ready'')"

lemma last_sequence_ge:
  assumes "(i, r) \<in> set (arows t)" "tu_SessionID r = sk" "tu_SyncStatus r = ''ready''" "of_workspace ws r"
  shows "message_seq r \<le> lastLifecycleMessageSequence ws sk t"
proof -
  let ?xs = "map (\<lambda>(i, r). message_seq r) (filter (\<lambda>(i, r). tu_SessionID r = sk \<and> tu_SyncStatus r = ''ready'' \<and> of_workspace ws r) (arows t))"
  have "message_seq r \<in> set ?xs" using assms by force
  then obtain y ys where xs: "?xs = y # ys" by (cases ?xs) auto
  then have "lastLifecycleMessageSequence ws sk t = Max (set (y # ys))"
    unfolding lastLifecycleMessageSequence_def by (simp only: Max.set_eq_fold list.case)
  with \<open>message_seq r \<in> set ?xs\<close> xs show ?thesis by simp
qed

lemma last_sequence_nonneg: "numbered t \<Longrightarrow> ws \<noteq> [] \<Longrightarrow> 0 \<le> lastLifecycleMessageSequence ws sk t"
proof -
  assume n: "numbered t" and ws: "ws \<noteq> []"
  let ?rs = "filter (\<lambda>(i, r). tu_SessionID r = sk \<and> tu_SyncStatus r = ''ready'' \<and> of_workspace ws r) (arows t)"
  show ?thesis
  proof (cases ?rs)
    case Nil
    then show ?thesis by (simp add: lastLifecycleMessageSequence_def)
  next
    case (Cons x xs)
    obtain i r where x: "x = (i, r)" by (cases x)
    with Cons have r: "(i, r) \<in> set (arows t)" "tu_SessionID r = sk" "tu_SyncStatus r = ''ready''" "of_workspace ws r"
      by (auto simp: filter_eq_Cons_iff)
    from r(4) ws obtain m where "tu_Meta r = GonchoMeta m" by (rule of_workspace_tagged)
    with n r(1) have "1 \<le> message_seq r" by (auto simp: numbered_def message_seq_def)
    with last_sequence_ge [OF r] show ?thesis by simp
  qed
qed

lemma numbered_append:
  assumes "numbered t" "json_text ws = ws" "ws \<noteq> []"
  shows "numbered \<lparr>arows = arows t @ new_turns ws sk now (lastLifecycleMessageSequence ws sk t) 0 (aseq t) inputs,
    aseq = aseq t + int (length inputs)\<rparr>"
proof -
  let ?new = "new_turns ws sk now (lastLifecycleMessageSequence ws sk t) 0 (aseq t) inputs"
  note new = new_turns_in [of _ _ ws sk now "lastLifecycleMessageSequence ws sk t" 0 "aseq t" inputs]
  have old: "i \<le> aseq t \<and> 0 < i" if "(i, r) \<in> set (arows t)" for i r using assms(1) that by (auto simp: numbered_def awf_def)
  have d: "distinct (map fst (arows t @ ?new))"
    using assms(1) by (fastforce simp: numbered_def awf_def new_turns_ids distinct_map inj_on_def)
  have "awf \<lparr>arows = arows t @ ?new, aseq = aseq t + int (length inputs)\<rparr>"
    using d assms(1) old new by (fastforce simp: awf_def numbered_def)
  moreover have "message_seq r < message_seq q"
    if "(i, r) \<in> set (arows t @ ?new)" "(j, q) \<in> set (arows t @ ?new)" "same_session r q" "i < j" for i j r q
  proof (cases "(j, q) \<in> set ?new")
    case True
    note q = new [OF True]
    show ?thesis
    proof (cases "(i, r) \<in> set ?new")
      case True
      with new [OF True] q that(4) show ?thesis by simp
    next
      case False
      with that have r: "(i, r) \<in> set (arows t)" by simp
      from that(3) q obtain m where m: "tu_Meta r = GonchoMeta m" "lm_WorkspaceID m = json_text ws" "tu_SessionID r = sk"
        by (auto simp: same_session_def split: turn_meta.splits)
      with r assms have "tu_SyncStatus r = ''ready''" "of_workspace ws r" by (auto simp: numbered_def of_workspace_def)
      with last_sequence_ge [OF r m(3)] have "message_seq r \<le> lastLifecycleMessageSequence ws sk t" by blast
      with q show ?thesis by simp
    qed
  next
    case False
    with that have j: "(j, q) \<in> set (arows t)" by simp
    with that old new have "(i, r) \<in> set (arows t)" by fastforce
    with j that assms(1) show ?thesis by (fastforce simp: numbered_def)
  qed
  moreover have "1 \<le> lm_Sequence m \<and> tu_SyncStatus r = ''ready''" if "(i, r) \<in> set (arows t @ ?new)" "tu_Meta r = GonchoMeta m" for i r m
    using that new [of i r] last_sequence_nonneg [OF assms(1,3), of sk] assms(1) by (auto simp: numbered_def message_seq_def)
  ultimately show ?thesis unfolding numbered_def by (auto simp del: set_append)
qed

lemma numbered_adelete: "numbered t \<Longrightarrow> numbered (adelete p t)"
  by (auto simp: numbered_def adelete_def tdelete_def awf_def distinct_map_filter)

lemma numbered_untagged:
  assumes "numbered t" "\<And>m. tu_Meta r \<noteq> GonchoMeta m"
  shows "numbered (snd (ainsert r t))"
proof -
  have "\<not> same_session r q" "\<not> same_session q r" for q
    using assms(2) by (auto simp: same_session_def split: turn_meta.splits)
  with assms show ?thesis by (auto simp: numbered_def)
qed

section \<open>Retries\<close>

lemma createMessagesOnce_error: "createMessagesOnce fails now s sk inputs db = (Inl e, db') \<Longrightarrow> db' = db"
  by (auto simp: createMessagesOnce_def split: option.splits sum.splits)

text \<open>The database that attempt \<open>k\<close> finds, when the attempts before it were rolled back.\<close>

abbreviation found_by :: "(nat \<Rightarrow> service_db \<Rightarrow> service_db) \<Rightarrow> nat \<Rightarrow> nat \<Rightarrow> service_db \<Rightarrow> service_db" where
  "found_by others a k db \<equiv> fold others [a..<Suc k] db"

lemma create_attempts_cases:
  assumes "attempt < createMessagesLockRetryAttempts"
    and "create_attempts others fails cancelled now s sk inputs attempt db = (res, db')"
  shows "\<exists>k. attempt \<le> k \<and> k < createMessagesLockRetryAttempts
    \<and> (\<forall>j \<in> {attempt..<k}. fst (createMessagesOnce (fails j) (now j) s sk inputs (found_by others attempt j db)) = Inl (LifeDb LockError))
    \<and> (case res of Inl _ \<Rightarrow> db' = found_by others attempt k db
        | Inr ms \<Rightarrow> createMessagesOnce (fails k) (now k) s sk inputs (found_by others attempt k db) = (Inr ms, db'))"
  using assms
proof (induction others fails cancelled now s sk inputs attempt db rule: create_attempts.induct)
  case (1 others fails cancelled now s sk inputs attempt db)
  let ?once = "createMessagesOnce (fails attempt) (now attempt) s sk inputs (others attempt db)"
  note step = "1.prems"(2) [unfolded create_attempts.simps [of others fails cancelled now s sk inputs attempt db]]
  obtain r db1 where once: "?once = (r, db1)" by (cases ?once)
  show ?case
  proof (cases r)
    case (Inr ms)
    with once step have "res = Inr ms" "db' = db1" by simp_all
    with once Inr "1.prems"(1) show ?thesis by (intro exI [of _ attempt]) simp
  next
    case (Inl e)
    with once createMessagesOnce_error have db1: "db1 = others attempt db" by blast
    show ?thesis
    proof (cases "isTransientSQLiteLockError e \<and> \<not> createMessagesLockRetryAttempts - 1 \<le> attempt \<and> \<not> cancelled attempt")
      case False
      with step once Inl db1 have "db' = others attempt db \<and> (\<exists>e. res = Inl e)" by (auto split: if_splits)
      with "1.prems"(1) show ?thesis by (intro exI [of _ attempt]) auto
    next
      case True
      with step once Inl have rec: "create_attempts others fails cancelled now s sk inputs (Suc attempt) db1 = (res, db')" by simp
      have lt: "Suc attempt < createMessagesLockRetryAttempts" using True by (simp add: createMessagesLockRetryAttempts_def)
      from "1.IH" [OF once [symmetric] Inl _ _ _ lt rec] True obtain k where k: "Suc attempt \<le> k" "k < createMessagesLockRetryAttempts"
        "\<forall>j \<in> {Suc attempt..<k}. fst (createMessagesOnce (fails j) (now j) s sk inputs (found_by others (Suc attempt) j db1)) = Inl (LifeDb LockError)"
        "case res of Inl _ \<Rightarrow> db' = found_by others (Suc attempt) k db1
          | Inr ms \<Rightarrow> createMessagesOnce (fails k) (now k) s sk inputs (found_by others (Suc attempt) k db1) = (Inr ms, db')"
        by blast
      have f: "found_by others attempt j db = found_by others (Suc attempt) j db1" if "attempt < j" for j
        using that db1 by (simp add: upt_conv_Cons)
      have "fst (createMessagesOnce (fails j) (now j) s sk inputs (found_by others attempt j db)) = Inl (LifeDb LockError)"
        if "j \<in> {attempt..<k}" for j
      proof (cases "j = attempt")
        case True
        with \<open>isTransientSQLiteLockError e \<and> _ \<and> _\<close> once Inl show ?thesis by (simp add: isTransientSQLiteLockError_def)
      next
        case False
        with that k(3) f [of j] show ?thesis by simp
      qed
      with k f [of k] show ?thesis by (intro exI [of _ k]) (auto split: sum.splits)
    qed
  qed
qed

text \<open>
  C12. Creating messages is all or nothing under retries: whatever other connections do before each attempt and
  whichever statements fail, there is an attempt among the first six such that all attempts before it met a lock;
  on error the database is what the others left, and on success exactly the given messages were appended to what
  the others left, in order, with new ids and with the sequence numbers that follow the last one of the session,
  and every message passed the checks.
\<close>

theorem create_messages_atomic:
  "case CreateMessages others fails cancelled now s key inputs db of (res, db') \<Rightarrow>
     if trim_space key = [] then res = Inl SessionRequired \<and> db' = db
     else \<exists>k < 6.
       (\<forall>j < k. fst (createMessagesOnce (fails j) (now j) s (trim_space key) inputs (fold others [0..<Suc j] db)) = Inl (LifeDb LockError))
       \<and> (let base = fold others [0..<Suc k] db; ws = trim_space (ms_workspaceID s); t = db_turns base;
              lastSeq = lastLifecycleMessageSequence ws (trim_space key) t in
          case res of
            Inl _ \<Rightarrow> db' = base
          | Inr ms \<Rightarrow>
              ms = new_records ws (trim_space key) (now k) lastSeq 0 (aseq t) inputs
              \<and> db' = base\<lparr>db_turns := \<lparr>arows = arows t @ new_turns ws (trim_space key) (now k) lastSeq 0 (aseq t) inputs,
                  aseq = aseq t + int (length inputs)\<rparr>\<rparr>
              \<and> list_all (valid_message (ms_maxMessageSize s)) inputs)"
proof (cases "trim_space key = []")
  case True
  then show ?thesis by (simp add: CreateMessages_def)
next
  case False
  obtain res db' where r: "CreateMessages others fails cancelled now s key inputs db = (res, db')"
    by (cases "CreateMessages others fails cancelled now s key inputs db")
  with False have a: "create_attempts others fails cancelled now s (trim_space key) inputs 0 db = (res, db')"
    by (simp add: CreateMessages_def)
  from create_attempts_cases [OF _ a] obtain k where k: "k < 6"
      "\<forall>j < k. fst (createMessagesOnce (fails j) (now j) s (trim_space key) inputs (fold others [0..<Suc j] db)) = Inl (LifeDb LockError)"
      "case res of Inl _ \<Rightarrow> db' = fold others [0..<Suc k] db
        | Inr ms \<Rightarrow> createMessagesOnce (fails k) (now k) s (trim_space key) inputs (fold others [0..<Suc k] db) = (Inr ms, db')"
    by (auto simp: createMessagesLockRetryAttempts_def)
  have "case res of Inl _ \<Rightarrow> True | Inr ms \<Rightarrow> (let t = db_turns (fold others [0..<Suc k] db); ws = trim_space (ms_workspaceID s);
      lastSeq = lastLifecycleMessageSequence ws (trim_space key) t in
        ms = new_records ws (trim_space key) (now k) lastSeq 0 (aseq t) inputs
        \<and> db' = (fold others [0..<Suc k] db)\<lparr>db_turns := \<lparr>arows = arows t @ new_turns ws (trim_space key) (now k) lastSeq 0 (aseq t) inputs,
            aseq = aseq t + int (length inputs)\<rparr>\<rparr>
        \<and> list_all (valid_message (ms_maxMessageSize s)) inputs)"
  proof (cases res)
    case (Inr ms)
    with k(3) have once: "createMessagesOnce (fails k) (now k) s (trim_space key) inputs (fold others [0..<Suc k] db) = (Inr ms, db')"
      by simp
    show ?thesis
      by (rule createMessagesOnce_cases [OF trim_space_idem [of key], of "fails k" "now k" s inputs "fold others [0..<Suc k] db"])
        (use once Inr in \<open>simp_all add: Let_def\<close>)
  qed simp
  with r False k show ?thesis by (cases res) (auto simp: Let_def)
qed

text \<open>
  A message that meets a lock at its commit; before the second attempt another connection stores a message in the
  same session.
\<close>

definition mw_service :: "string \<Rightarrow> memory_service" where
  "mw_service ws = \<lparr>ms_workspaceID = ws, ms_observer = ''o'', ms_peerCardEnabled = True, ms_dreamEnabled = True,
     ms_maxMessageSize = 10, ms_recentLimit = 4\<rparr>"

definition mw_input :: "string \<Rightarrow> CreateMessage" where
  "mw_input content = \<lparr>ci_ProfileID = ''f'', ci_Peer = ''p'', ci_Role = [], ci_Content = content, ci_Metadata = [], ci_CreatedAt = zero_time\<rparr>"

definition mw_locked :: "life_site \<Rightarrow> db_failure option" where
  "mw_locked site = (if site = LCommit then Some LockError else None)"

definition mw_fails :: "nat \<Rightarrow> life_site \<Rightarrow> db_failure option" where
  "mw_fails j = (if j = 0 then mw_locked else (\<lambda>_. None))"

definition mw_connections :: "nat \<Rightarrow> service_db \<Rightarrow> service_db" where
  "mw_connections j db = (if j = 0 then db
     else snd (createMessagesOnce (\<lambda>_. None) (\<lambda>_. 5000000000) (mw_service ''w'') ''k'' [mw_input ''one''] db))"

definition mw_created :: "(life_error + MessageRecord list) \<times> service_db" where
  "mw_created = CreateMessages mw_connections mw_fails (\<lambda>_. False) (\<lambda>_ _. 6000000000) (mw_service ''w'') '' k'' [mw_input ''two''] empty_db"

lemma mw_created_ok: "case fst mw_created of Inl _ \<Rightarrow> False | Inr ms \<Rightarrow> map mr_Sequence ms = [2]"
  by code_simp

theorem create_messages_atomic_witness:
  "\<exists>k < 6. (\<forall>j < k. fst (createMessagesOnce (mw_fails j) (\<lambda>_. 6000000000) (mw_service ''w'') ''k'' [mw_input ''two'']
        (fold mw_connections [0..<Suc j] empty_db)) = Inl (LifeDb LockError))
     \<and> length (arows (db_turns (snd mw_created))) = Suc (length (arows (db_turns (fold mw_connections [0..<Suc k] empty_db))))
     \<and> length (arows (db_turns (snd mw_created))) = 2"
proof -
  have k: "trim_space '' k'' = ''k''" by code_simp
  have n: "length (arows (db_turns (snd mw_created))) = 2" by code_simp
  obtain ms where ms: "mw_created = (Inr ms, snd mw_created)" using mw_created_ok by (auto simp: prod_eq_iff split: sum.splits)
  from create_messages_atomic [where others = mw_connections and fails = mw_fails and cancelled = "\<lambda>_. False" and now = "\<lambda>_ _. 6000000000"
      and s = "mw_service ''w''" and key = "'' k''" and inputs = "[mw_input ''two'']" and db = empty_db]
    n ms k
  show ?thesis by (auto simp: mw_created_def Let_def split: sum.splits prod.splits)
qed

end
