(* ===== verification/Conclusions.thy ===== *)
theory Conclusions
  imports ServiceDb
begin

text \<open>
  Conclusions (\<open>service/conclusion_module.go\<close> and their statements in \<open>service/sql.go\<close>): a conclusion is
  stored once per workspace, profile, observer, peer and idempotency key, and a new one makes the pending
  dreams about its peer stale.  The fact annotations of a conclusion are rows of a table that nothing here
  reads; storing them may fail (\<open>CAnnotate\<close>).  \<open>sha\<close> is SHA-256 in hexadecimal.
\<close>

datatype conclusion_site = CDelete | CAffected | CUpsert | CLookup | CAnnotate | CDream dream_site

datatype conclude_error = ConcludePeerRequired | ConclusionRequired | ConclusionNotFound int | ConcludeDb conclusion_site

definition cn_key :: "conclusionRow \<Rightarrow> string \<times> string \<times> string \<times> string \<times> string" where
  "cn_key r = (cn_WorkspaceID r, cn_ProfileID r, cn_ObserverPeerID r, cn_PeerID r, cn_IdempotencyKey r)"

definition find_conclusion :: "string \<times> string \<times> string \<times> string \<times> string \<Rightarrow> conclusionRow atable \<Rightarrow> (int \<times> conclusionRow) option" where
  "find_conclusion k t = tfind (cn_key \<circ> snd) k (arows t)"

definition touch_row :: "string \<times> string \<times> string \<times> string \<times> string \<Rightarrow> int \<Rightarrow> conclusionRow \<Rightarrow> conclusionRow" where
  "touch_row k now r = (if cn_key r = k then r\<lparr>cn_UpdatedAt := now\<rparr> else r)"

definition touch :: "string \<times> string \<times> string \<times> string \<times> string \<Rightarrow> int \<Rightarrow> conclusionRow atable \<Rightarrow> conclusionRow atable" where
  "touch k now t = t\<lparr>arows := map (map_prod (\<lambda>i. i) (touch_row k now)) (arows t)\<rparr>"

text \<open>The values that the \<open>INSERT\<close> binds.\<close>

definition stored_conclusion :: "int \<Rightarrow> string \<Rightarrow> conclusionRow \<Rightarrow> conclusionRow" where
  "stored_conclusion now sessionKey row = row\<lparr>cn_SessionKey := NullIfBlank sessionKey, cn_CreatedAt := now, cn_UpdatedAt := now,
     cn_Scope := (if cn_Scope row = [] then ''workspace'' else cn_Scope row)\<rparr>"

text \<open>\<open>gap\<close>: on a conflict SQLite may or may not keep the number it drew for the row.\<close>

definition upsertConclusion :: "(conclusion_site \<Rightarrow> bool) \<Rightarrow> int \<Rightarrow> bool \<Rightarrow> string \<Rightarrow> conclusionRow \<Rightarrow> conclusionRow atable
    \<Rightarrow> (conclude_error + int \<times> string) \<times> conclusionRow atable" where
  "upsertConclusion flt now gap sessionKey row t =
     (if flt CUpsert then (Inl (ConcludeDb CUpsert), t)
      else
        let stored = stored_conclusion now sessionKey row;
            t1 = (case find_conclusion (cn_key stored) t of
                None \<Rightarrow> snd (ainsert stored t)
              | Some _ \<Rightarrow> (touch (cn_key stored) now t)\<lparr>aseq := aseq t + (if gap then 1 else 0)\<rparr>) in
        if flt CLookup then (Inl (ConcludeDb CLookup), t1)
        else case find_conclusion (cn_key stored) t1 of
          None \<Rightarrow> (Inl (ConcludeDb CLookup), t1)
        | Some (i, r) \<Rightarrow> (Inr (i, cn_Status r), t1))"

definition deleteConclusion :: "(conclusion_site \<Rightarrow> bool) \<Rightarrow> string \<Rightarrow> string \<Rightarrow> string \<Rightarrow> string \<Rightarrow> int \<Rightarrow> conclusionRow atable
    \<Rightarrow> (conclude_error + bool) \<times> conclusionRow atable" where
  "deleteConclusion flt ws profileID observer peer n t =
     (if flt CDelete then (Inl (ConcludeDb CDelete), t)
      else
        let hit = (\<lambda>(i, r). i = n \<and> cn_WorkspaceID r = ws \<and> cn_ProfileID r = profileID \<and> cn_ObserverPeerID r = observer
              \<and> cn_PeerID r = peer);
            t1 = t\<lparr>arows := tdelete hit (arows t)\<rparr> in
        if flt CAffected then (Inl (ConcludeDb CAffected), t1)
        else (Inr (list_ex hit (arows t)), t1))"

record ConcludeParams =
  cp_ProfileID :: string
  cp_Peer :: string
  cp_Conclusion :: string
  cp_DeleteID :: int
  cp_SessionKey :: string
  cp_Scope :: string

record ConcludeResult =
  co_WorkspaceID :: string
  co_ProfileID :: string
  co_Peer :: string
  co_ID :: int
  co_Status :: string
  co_Deleted :: bool

definition makeIdempotencyKey :: "(string \<Rightarrow> string) \<Rightarrow> (string \<Rightarrow> string) \<Rightarrow> string \<Rightarrow> string \<Rightarrow> string \<Rightarrow> string \<Rightarrow> string \<Rightarrow> string
    \<Rightarrow> string" where
  "makeIdempotencyKey sha ulow ws profileID observer peer sessionKey conclusion =
     sha (join_with [char_of (31 :: nat)] [ws, profileID, observer, peer, trim_space sessionKey, Lower ulow conclusion])"

definition dream_view :: "service_db \<Rightarrow> dream_db" where
  "dream_view db = \<lparr>dreams_present = db_dreams_present db, dreams = db_dreams db,
     conclusions = \<lparr>arows = map (\<lambda>(i, r). (i, \<lparr>cr_WorkspaceID = cn_WorkspaceID r, cr_ObserverPeerID = cn_ObserverPeerID r,
       cr_PeerID = cn_PeerID r, cr_Status = cn_Status r, cr_CreatedAt = cn_CreatedAt r\<rparr>)) (arows (db_conclusions db)),
       aseq = aseq (db_conclusions db)\<rparr>\<rparr>"

definition cancel_dreams :: "(conclusion_site \<Rightarrow> bool) \<Rightarrow> string \<Rightarrow> string \<Rightarrow> int \<Rightarrow> service_db \<Rightarrow> (conclude_error + unit) \<times> service_db" where
  "cancel_dreams flt ws peer now db =
     (case CancelPendingForObserved (\<lambda>s. flt (CDream s)) ws peer now ''new_activity'' (dream_view db) of
        (Inl (DreamDb s), _) \<Rightarrow> (Inl (ConcludeDb (CDream s)), db)
      | (Inl DreamPeerRequired, _) \<Rightarrow> (Inl (ConcludeDb (CDream DreamTable)), db)
      | (Inr _, dd) \<Rightarrow> (Inr (), db\<lparr>db_dreams := dreams dd\<rparr>))"

lemma cancel_dreams_tables [simp]:
  "db_conclusions (snd (cancel_dreams flt ws peer now db)) = db_conclusions db"
  "db_turns (snd (cancel_dreams flt ws peer now db)) = db_turns db"
  "db_cards (snd (cancel_dreams flt ws peer now db)) = db_cards db"
  "db_summaries (snd (cancel_dreams flt ws peer now db)) = db_summaries db"
  "db_dreams_present (snd (cancel_dreams flt ws peer now db)) = db_dreams_present db"
  by (simp_all add: cancel_dreams_def split: prod.split sum.split dream_error.split)

lemma cancel_dreams_frame: "cancel_dreams flt ws peer now db = (r, db')
  \<Longrightarrow> db_conclusions db' = db_conclusions db \<and> db_turns db' = db_turns db \<and> db_cards db' = db_cards db \<and> db_summaries db' = db_summaries db"
  using cancel_dreams_tables [of flt ws peer now db] by simp

definition Conclude :: "(string \<Rightarrow> string) \<Rightarrow> (string \<Rightarrow> string) \<Rightarrow> (conclusion_site \<Rightarrow> bool) \<Rightarrow> int \<Rightarrow> int \<Rightarrow> bool \<Rightarrow> memory_service
    \<Rightarrow> ConcludeParams \<Rightarrow> service_db \<Rightarrow> (conclude_error + ConcludeResult) \<times> service_db" where
  "Conclude sha ulow flt now1 now2 gap c p db =
     (let peer = trim_space (cp_Peer p); profileID = trim_space (cp_ProfileID p);
          memoryScope = memoryscope_Normalize ulow (cp_Scope p) profileID in
      if peer = [] then (Inl ConcludePeerRequired, db)
      else if 0 < cp_DeleteID p then
        (case deleteConclusion flt (ms_workspaceID c) profileID (ms_observer c) peer (cp_DeleteID p) (db_conclusions db) of
           (Inl e, t1) \<Rightarrow> (Inl e, db\<lparr>db_conclusions := t1\<rparr>)
         | (Inr deleted, t1) \<Rightarrow>
             if \<not> deleted then (Inl (ConclusionNotFound (cp_DeleteID p)), db\<lparr>db_conclusions := t1\<rparr>)
             else (Inr \<lparr>co_WorkspaceID = ms_workspaceID c, co_ProfileID = profileID, co_Peer = peer, co_ID = cp_DeleteID p,
               co_Status = ''processed'', co_Deleted = True\<rparr>, db\<lparr>db_conclusions := t1\<rparr>))
      else
        let conclusion = trim_space (cp_Conclusion p) in
        if conclusion = [] then (Inl ConclusionRequired, db)
        else
          let idempotencyKey = makeIdempotencyKey sha ulow (ms_workspaceID c) profileID (ms_observer c) peer (cp_SessionKey p) conclusion in
          case upsertConclusion flt now1 gap (cp_SessionKey p)
              \<lparr>cn_WorkspaceID = ms_workspaceID c, cn_ProfileID = profileID, cn_ObserverPeerID = ms_observer c, cn_PeerID = peer,
               cn_SessionKey = None, cn_Content = conclusion, cn_Kind = ''manual'', cn_Status = ''processed'', cn_Source = ''manual'',
               cn_IdempotencyKey = idempotencyKey, cn_EvidenceJSON = ''[]'', cn_Scope = memoryScope, cn_CreatedAt = 0, cn_UpdatedAt = 0\<rparr>
              (db_conclusions db) of
            (Inl e, t1) \<Rightarrow> (Inl e, db\<lparr>db_conclusions := t1\<rparr>)
          | (Inr (i, status), t1) \<Rightarrow>
              let db1 = db\<lparr>db_conclusions := t1\<rparr>;
                  res = \<lparr>co_WorkspaceID = ms_workspaceID c, co_ProfileID = profileID, co_Peer = peer, co_ID = i, co_Status = status,
                    co_Deleted = False\<rparr> in
              if flt CAnnotate then (Inl (ConcludeDb CAnnotate), db1)
              else if ms_dreamEnabled c then
                (case cancel_dreams flt (ms_workspaceID c) peer now2 db1 of
                   (Inl e, db2) \<Rightarrow> (Inl e, db2)
                 | (Inr _, db2) \<Rightarrow> (Inr res, db2))
              else (Inr res, db1))"

text \<open>\<open>PreviewRetention\<close> archives: the status column of a stored conclusion may change behind a conclusion's back.\<close>

definition set_status :: "int \<Rightarrow> string \<Rightarrow> service_db \<Rightarrow> service_db" where
  "set_status n status db = db\<lparr>db_conclusions := (db_conclusions db)\<lparr>arows :=
     map (\<lambda>(i, r). (i, if i = n then r\<lparr>cn_Status := status\<rparr> else r)) (arows (db_conclusions db))\<rparr>\<rparr>"

datatype conclusion_event =
    EvConclude "conclusion_site \<Rightarrow> bool" int int bool memory_service ConcludeParams
  | EvSetStatus int string

fun conclusion_step :: "(string \<Rightarrow> string) \<Rightarrow> (string \<Rightarrow> string) \<Rightarrow> conclusion_event \<Rightarrow> service_db \<Rightarrow> service_db" where
  "conclusion_step sha ulow (EvConclude flt now1 now2 gap c p) db = snd (Conclude sha ulow flt now1 now2 gap c p db)"
| "conclusion_step sha ulow (EvSetStatus n status) db = set_status n status db"

section \<open>Invariant and frame\<close>

definition conclusion_hit :: "string \<Rightarrow> string \<Rightarrow> string \<Rightarrow> string \<Rightarrow> int \<Rightarrow> int \<times> conclusionRow \<Rightarrow> bool" where
  "conclusion_hit ws profileID observer peer n = (\<lambda>(i, r). i = n \<and> cn_WorkspaceID r = ws \<and> cn_ProfileID r = profileID
     \<and> cn_ObserverPeerID r = observer \<and> cn_PeerID r = peer)"

definition table_ok :: "conclusionRow atable \<Rightarrow> bool" where
  "table_ok t \<longleftrightarrow> awf t \<and> unique_keys (cn_key \<circ> snd) (arows t)"

lemma touch_row_key [simp]: "cn_key (touch_row k now r) = cn_key r"
  by (simp add: touch_row_def cn_key_def)

lemma stored_key [simp]: "cn_key (stored_conclusion now sk row) = cn_key row"
  by (simp add: stored_conclusion_def cn_key_def)

lemma stored_content [simp]: "cn_Content (stored_conclusion now sk row) = cn_Content row"
  by (simp add: stored_conclusion_def)

lemma awf_gap: "awf t \<Longrightarrow> 0 \<le> n \<Longrightarrow> awf (t\<lparr>aseq := aseq t + n\<rparr>)"
  by (auto simp: awf_def intro: order_trans)

lemma table_ok_touch: "table_ok t \<Longrightarrow> table_ok ((touch k now t)\<lparr>aseq := aseq t + (if gap then 1 else 0)\<rparr>)"
proof -
  assume ok: "table_ok t"
  from ok have w: "awf t" and u: "unique_keys (cn_key \<circ> snd) (arows t)" by (simp_all add: table_ok_def)
  have "awf (touch k now t)" unfolding touch_def by (rule awf_update [OF _ w]) simp
  moreover have "aseq (touch k now t) = aseq t" by (simp add: touch_def)
  ultimately have "awf ((touch k now t)\<lparr>aseq := aseq t + (if gap then 1 else 0)\<rparr>)" using awf_gap [of "touch k now t"] by simp
  moreover have "unique_keys (cn_key \<circ> snd) (arows (touch k now t))"
    using u by (simp add: touch_def unique_keys_map)
  ultimately show ?thesis by (simp add: table_ok_def)
qed

lemma table_ok_insert: "table_ok t \<Longrightarrow> find_conclusion (cn_key r) t = None \<Longrightarrow> table_ok (snd (ainsert r t))"
  by (auto simp: table_ok_def find_conclusion_def tfind_None unique_keys_def)

lemma table_ok_delete: "table_ok t \<Longrightarrow> table_ok (t\<lparr>arows := tdelete p (arows t)\<rparr>)"
  by (auto simp: table_ok_def awf_def tdelete_def distinct_map_filter unique_keys_def)

lemma snd_lookup: "snd (case y of None \<Rightarrow> (Inl e, t) | Some (i, r) \<Rightarrow> (Inr (i, cn_Status r), t)) = t"
  by (cases y) auto

lemma upsert_table:
  obtains (same) "snd (upsertConclusion flt now gap sk row t) = t"
  | (insert) stored where "cn_key stored = cn_key row" "find_conclusion (cn_key row) t = None"
      "snd (upsertConclusion flt now gap sk row t) = snd (ainsert stored t)"
  | (touch) "snd (upsertConclusion flt now gap sk row t) = (touch (cn_key row) now t)\<lparr>aseq := aseq t + (if gap then 1 else 0)\<rparr>"
proof -
  let ?st = "stored_conclusion now sk row"
  show ?thesis
  proof (cases "flt CUpsert")
    case True
    with same show ?thesis by (simp add: upsertConclusion_def)
  next
    case False
    then have u: "snd (upsertConclusion flt now gap sk row t) = (case find_conclusion (cn_key row) t of
        None \<Rightarrow> snd (ainsert ?st t)
      | Some _ \<Rightarrow> (touch (cn_key row) now t)\<lparr>aseq := aseq t + (if gap then 1 else 0)\<rparr>)"
      by (cases "find_conclusion (cn_key row) t") (simp_all add: upsertConclusion_def Let_def snd_lookup)
    show ?thesis
    proof (cases "find_conclusion (cn_key row) t")
      case None
      with u show ?thesis by (intro insert [of ?st]) simp_all
    next
      case (Some x)
      with u show ?thesis by (intro touch) simp
    qed
  qed
qed

lemma delete_table: "snd (deleteConclusion flt ws profileID observer peer n t) = t
    \<or> snd (deleteConclusion flt ws profileID observer peer n t) = t\<lparr>arows := tdelete (conclusion_hit ws profileID observer peer n) (arows t)\<rparr>"
  by (simp add: deleteConclusion_def Let_def conclusion_hit_def)

lemma upsert_ok: "table_ok t \<Longrightarrow> table_ok (snd (upsertConclusion flt now gap sk row t))"
  by (cases rule: upsert_table [of flt now gap sk row t]) (auto simp: table_ok_touch table_ok_insert)

lemma delete_ok: "table_ok t \<Longrightarrow> table_ok (snd (deleteConclusion flt ws profileID observer peer n t))"
  using delete_table [of flt ws profileID observer peer n t] by (auto simp: table_ok_delete)

text \<open>The row a call of \<open>Conclude\<close> asks to store.\<close>

definition conclude_row :: "(string \<Rightarrow> string) \<Rightarrow> (string \<Rightarrow> string) \<Rightarrow> memory_service \<Rightarrow> ConcludeParams \<Rightarrow> conclusionRow" where
  "conclude_row sha ulow c p =
     \<lparr>cn_WorkspaceID = ms_workspaceID c, cn_ProfileID = trim_space (cp_ProfileID p), cn_ObserverPeerID = ms_observer c,
      cn_PeerID = trim_space (cp_Peer p), cn_SessionKey = None, cn_Content = trim_space (cp_Conclusion p), cn_Kind = ''manual'',
      cn_Status = ''processed'', cn_Source = ''manual'',
      cn_IdempotencyKey = makeIdempotencyKey sha ulow (ms_workspaceID c) (trim_space (cp_ProfileID p)) (ms_observer c)
        (trim_space (cp_Peer p)) (cp_SessionKey p) (trim_space (cp_Conclusion p)),
      cn_EvidenceJSON = ''[]'', cn_Scope = memoryscope_Normalize ulow (cp_Scope p) (trim_space (cp_ProfileID p)),
      cn_CreatedAt = 0, cn_UpdatedAt = 0\<rparr>"

lemma Conclude_table:
  obtains (same) "db_conclusions (snd (Conclude sha ulow flt n1 n2 gap c p db)) = db_conclusions db"
  | (delete) "0 < cp_DeleteID p" "db_conclusions (snd (Conclude sha ulow flt n1 n2 gap c p db))
      = snd (deleteConclusion flt (ms_workspaceID c) (trim_space (cp_ProfileID p)) (ms_observer c) (trim_space (cp_Peer p))
          (cp_DeleteID p) (db_conclusions db))"
  | (upsert) "\<not> 0 < cp_DeleteID p" "db_conclusions (snd (Conclude sha ulow flt n1 n2 gap c p db))
      = snd (upsertConclusion flt n1 gap (cp_SessionKey p) (conclude_row sha ulow c p) (db_conclusions db))"
proof (cases "0 < cp_DeleteID p")
  case True
  with same delete show ?thesis
    by (cases "trim_space (cp_Peer p) = []") (simp_all add: Conclude_def Let_def split: prod.split sum.split)
next
  case False
  note [simp] = conclude_row_def [symmetric]
  show ?thesis
  proof (cases "trim_space (cp_Peer p) = [] \<or> trim_space (cp_Conclusion p) = []")
    case True
    with False same show ?thesis by (auto simp: Conclude_def Let_def)
  next
    case ok: False
    obtain ur t1 where u: "upsertConclusion flt n1 gap (cp_SessionKey p) (conclude_row sha ulow c p) (db_conclusions db) = (ur, t1)"
      by (cases "upsertConclusion flt n1 gap (cp_SessionKey p) (conclude_row sha ulow c p) (db_conclusions db)")
    with False ok have "db_conclusions (snd (Conclude sha ulow flt n1 n2 gap c p db)) = t1"
      by (auto simp: Conclude_def Let_def split: prod.split sum.split dest!: cancel_dreams_frame)
    with u False upsert show ?thesis by simp
  qed
qed

section \<open>Idempotency\<close>

lemma tfind_tdelete_kept: "tfind key k t = Some x \<Longrightarrow> \<not> p x \<Longrightarrow> tfind key k (tdelete p t) = Some x"
  by (induction t) (auto simp: tdelete_def)

lemma find_touch: "find_conclusion k (touch k' now t) = map_option (map_prod (\<lambda>i. i) (touch_row k' now)) (find_conclusion k t)"
  unfolding find_conclusion_def touch_def by (simp add: tfind_map)

lemma find_aseq [simp]: "find_conclusion k (t\<lparr>aseq := n\<rparr>) = find_conclusion k t"
  by (simp add: find_conclusion_def)

lemma find_insert: "find_conclusion (cn_key r) t = None \<Longrightarrow> find_conclusion k (snd (ainsert r t))
    = (if k = cn_key r then Some (fst (ainsert r t), r) else find_conclusion k t)"
  by (auto simp: find_conclusion_def tfind_append split: option.split)

lemma touch_row_content [simp]: "cn_Content (touch_row k now r) = cn_Content r" "cn_Status (touch_row k now r) = cn_Status r"
  by (simp_all add: touch_row_def)

lemma length_touch: "length (arows (touch k now t)) = length (arows t)"
  by (simp add: touch_def)

text \<open>The row under a key has this id and content.\<close>

definition row_is :: "string \<times> string \<times> string \<times> string \<times> string \<Rightarrow> int \<Rightarrow> string \<Rightarrow> conclusionRow atable \<Rightarrow> bool" where
  "row_is k i content t \<longleftrightarrow> (\<exists>r. find_conclusion k t = Some (i, r) \<and> cn_Content r = content)"

lemma row_is_upsert: "row_is k i content t \<Longrightarrow> row_is k i content (snd (upsertConclusion flt now gap sk row t))"
  by (cases rule: upsert_table [of flt now gap sk row t]) (auto simp: row_is_def find_touch find_insert)

lemma row_is_delete:
  assumes "row_is k i content t" "n \<noteq> i"
  shows "row_is k i content (snd (deleteConclusion flt ws profileID observer peer n t))"
proof -
  from assms obtain r where r: "tfind (cn_key \<circ> snd) k (arows t) = Some (i, r)" "cn_Content r = content"
    by (auto simp: row_is_def find_conclusion_def)
  then have "tfind (cn_key \<circ> snd) k (tdelete (conclusion_hit ws profileID observer peer n) (arows t)) = Some (i, r)"
    using assms(2) by (intro tfind_tdelete_kept) (simp_all add: conclusion_hit_def)
  with r delete_table [of flt ws profileID observer peer n t] assms(1) show ?thesis
    by (auto simp: row_is_def find_conclusion_def)
qed

lemma row_is_status: "row_is k i content (db_conclusions db) \<Longrightarrow> row_is k i content (db_conclusions (set_status n status db))"
proof -
  let ?f = "\<lambda>(i, r). (i, if i = n then r\<lparr>cn_Status := status\<rparr> else r)"
  have "tfind (cn_key \<circ> snd) k (map ?f (arows t)) = map_option ?f (tfind (cn_key \<circ> snd) k (arows t))" for t :: "conclusionRow atable"
    by (rule tfind_map) (simp add: cn_key_def split: prod.split)
  moreover assume "row_is k i content (db_conclusions db)"
  ultimately show ?thesis by (cases "i = n") (auto simp: row_is_def set_status_def find_conclusion_def)
qed

text \<open>The events that do not ask to delete the conclusion \<open>i\<close>.\<close>

fun keeps_conclusion :: "int \<Rightarrow> conclusion_event \<Rightarrow> bool" where
  "keeps_conclusion i (EvConclude flt now1 now2 gap c p) \<longleftrightarrow> cp_DeleteID p \<noteq> i"
| "keeps_conclusion i (EvSetStatus n status) \<longleftrightarrow> True"

lemma row_is_step:
  assumes "row_is k i content (db_conclusions db)" "keeps_conclusion i e"
  shows "row_is k i content (db_conclusions (conclusion_step sha ulow e db))"
proof (cases e)
  case (EvConclude flt n1 n2 gap c p)
  with assms show ?thesis
    by (cases rule: Conclude_table [of sha ulow flt n1 n2 gap c p db]) (auto simp: row_is_upsert row_is_delete)
next
  case (EvSetStatus n status)
  with assms row_is_status show ?thesis by simp
qed

lemma row_is_run:
  "row_is k i content (db_conclusions db) \<Longrightarrow> list_all (keeps_conclusion i) es
    \<Longrightarrow> row_is k i content (db_conclusions (fold (conclusion_step sha ulow) es db))"
  by (induction es arbitrary: db) (auto simp: row_is_step)

lemma table_ok_status: "table_ok (db_conclusions db) \<Longrightarrow> table_ok (db_conclusions (set_status n status db))"
proof -
  let ?f = "\<lambda>(i, r). (i, if i = n then r\<lparr>cn_Status := status\<rparr> else r)"
  assume ok: "table_ok (db_conclusions db)"
  then have "awf ((db_conclusions db)\<lparr>arows := map ?f (arows (db_conclusions db))\<rparr>)"
    by (intro awf_update) (simp_all add: table_ok_def split: prod.split)
  moreover have "unique_keys (cn_key \<circ> snd) (map ?f (arows (db_conclusions db)))
      = unique_keys (cn_key \<circ> snd) (arows (db_conclusions db))"
    by (rule unique_keys_map) (simp add: cn_key_def split: prod.split)
  ultimately show ?thesis using ok by (simp add: table_ok_def set_status_def)
qed

interpretation conclusions: machine "conclusion_step sha ulow" "\<lambda>db :: service_db. table_ok (db_conclusions db)" for sha ulow
proof
  fix db :: service_db and e
  assume ok: "table_ok (db_conclusions db)"
  show "table_ok (db_conclusions (conclusion_step sha ulow e db))"
  proof (cases e)
    case (EvConclude flt n1 n2 gap c p)
    with ok show ?thesis
      by (cases rule: Conclude_table [of sha ulow flt n1 n2 gap c p db]) (auto simp: upsert_ok delete_ok)
  next
    case (EvSetStatus n status)
    with ok table_ok_status show ?thesis by simp
  qed
qed

lemma table_ok_empty: "table_ok (db_conclusions empty_db)"
  by (simp add: table_ok_def empty_db_def aempty_def awf_def unique_keys_def)

text \<open>What a call that stores a conclusion returns.\<close>

lemma Conclude_stored:
  assumes "Conclude sha ulow flt n1 n2 gap c p db = (Inr r, db')" "\<not> 0 < cp_DeleteID p"
  shows "\<exists>status t1. upsertConclusion flt n1 gap (cp_SessionKey p) (conclude_row sha ulow c p) (db_conclusions db) = (Inr (co_ID r, status), t1)
    \<and> db_conclusions db' = t1 \<and> co_Status r = status"
  using assms unfolding Conclude_def conclude_row_def Let_def
  by (auto split: if_splits prod.splits sum.splits dest!: cancel_dreams_frame)

lemma upsert_found:
  assumes "upsertConclusion flt now gap sk row t = (Inr (i, status), t1)"
  shows "\<exists>r. find_conclusion (cn_key row) t1 = Some (i, r) \<and> status = cn_Status r"
    and "find_conclusion (cn_key row) t = None \<Longrightarrow> row_is (cn_key row) i (cn_Content row) t1"
    and "find_conclusion (cn_key row) t = Some (j, r0) \<Longrightarrow> i = j \<and> length (arows t1) = length (arows t)"
proof -
  from assms show f: "\<exists>r. find_conclusion (cn_key row) t1 = Some (i, r) \<and> status = cn_Status r"
    by (auto simp: upsertConclusion_def Let_def split: if_splits option.splits)
  have n: "\<not> flt CUpsert" using assms by (auto simp: upsertConclusion_def)
  show "row_is (cn_key row) i (cn_Content row) t1" if "find_conclusion (cn_key row) t = None"
  proof -
    from assms that n have "t1 = snd (ainsert (stored_conclusion now sk row) t)"
      by (auto simp: upsertConclusion_def Let_def split: if_splits option.splits)
    with f that show ?thesis by (auto simp: row_is_def find_insert)
  qed
  show "i = j \<and> length (arows t1) = length (arows t)" if "find_conclusion (cn_key row) t = Some (j, r0)"
  proof -
    from assms that n have "t1 = (touch (cn_key row) now t)\<lparr>aseq := aseq t + (if gap then 1 else 0)\<rparr>"
      by (auto simp: upsertConclusion_def Let_def split: if_splits option.splits)
    with f that show ?thesis by (auto simp: find_touch length_touch)
  qed
qed

text \<open>Two calls name the same conclusion: the same text up to case and blanks about the same peer in the same session.\<close>

definition same_conclusion :: "(string \<Rightarrow> string) \<Rightarrow> ConcludeParams \<Rightarrow> ConcludeParams \<Rightarrow> bool" where
  "same_conclusion ulow p q \<longleftrightarrow> trim_space (cp_ProfileID p) = trim_space (cp_ProfileID q)
     \<and> trim_space (cp_Peer p) = trim_space (cp_Peer q) \<and> trim_space (cp_SessionKey p) = trim_space (cp_SessionKey q)
     \<and> Lower ulow (trim_space (cp_Conclusion p)) = Lower ulow (trim_space (cp_Conclusion q))"

lemma same_conclusion_key:
  "same_conclusion ulow p q \<Longrightarrow> cn_key (conclude_row sha ulow c p) = cn_key (conclude_row sha ulow c q)"
  by (simp add: same_conclusion_def cn_key_def conclude_row_def makeIdempotencyKey_def)

lemma Conclude_row_is:
  assumes "Conclude sha ulow flt n1 n2 gap c p db = (Inr r, db')" "\<not> 0 < cp_DeleteID p"
  shows "\<exists>content. row_is (cn_key (conclude_row sha ulow c p)) (co_ID r) content (db_conclusions db')"
  using Conclude_stored [OF assms] upsert_found(1) by (force simp: row_is_def)

lemma length_unique_key: "unique_keys key t \<Longrightarrow> tfind key k t = Some x \<Longrightarrow> filter (\<lambda>y. key y = k) t = [x]"
  by (induction t) (auto simp: unique_keys_def filter_empty_conv rev_image_eqI split: if_splits)

text \<open>
  C13. Concluding is idempotent: after any history of conclusions, deletions and status changes, a conclusion
  that was stored keeps its id and its first wording as long as nobody deletes it, and concluding the same text
  again, in any case and with any blanks around it, returns that id, adds no row and leaves exactly one row for
  this workspace, profile, observer, peer and key.
\<close>

theorem conclude_idempotent:
  assumes "Conclude sha ulow flt n1 n2 gap c p (fold (conclusion_step sha ulow) es0 empty_db) = (Inr r, db1)"
    and "\<not> 0 < cp_DeleteID p" "list_all (keeps_conclusion (co_ID r)) es" "same_conclusion ulow p q" "\<not> 0 < cp_DeleteID q"
    and "Conclude sha ulow flt' n1' n2' gap' c q (fold (conclusion_step sha ulow) es db1) = (Inr r', db2)"
  shows "co_ID r' = co_ID r \<and> co_Deleted r' = False
    \<and> length (arows (db_conclusions db2)) = length (arows (db_conclusions (fold (conclusion_step sha ulow) es db1)))
    \<and> (\<exists>row0 row. (co_ID r, row0) \<in> set (arows (db_conclusions db1)) \<and> cn_Content row = cn_Content row0
        \<and> filter (\<lambda>(i, x). cn_key x = cn_key (conclude_row sha ulow c p)) (arows (db_conclusions db2)) = [(co_ID r, row)])"
proof -
  let ?k = "cn_key (conclude_row sha ulow c p)" and ?mid = "fold (conclusion_step sha ulow) es db1"
  obtain content where first: "row_is ?k (co_ID r) content (db_conclusions db1)" using Conclude_row_is [OF assms(1,2)] by blast
  with row_is_run assms(3) have mid: "row_is ?k (co_ID r) content (db_conclusions ?mid)" by blast
  have q: "cn_key (conclude_row sha ulow c q) = ?k" using same_conclusion_key [OF assms(4)] by simp
  obtain status t1 where u: "upsertConclusion flt' n1' gap' (cp_SessionKey q) (conclude_row sha ulow c q) (db_conclusions ?mid)
      = (Inr (co_ID r', status), t1)" "db_conclusions db2 = t1" using Conclude_stored [OF assms(6,5)] by blast
  from mid obtain row1 where "find_conclusion ?k (db_conclusions ?mid) = Some (co_ID r, row1)" by (auto simp: row_is_def)
  with upsert_found(3) [OF u(1)] q u(2) have same: "co_ID r' = co_ID r"
      "length (arows (db_conclusions db2)) = length (arows (db_conclusions ?mid))" by auto
  have "row_is ?k (co_ID r) content (db_conclusions db2)"
    using row_is_upsert [OF mid, of flt' n1' gap' "cp_SessionKey q" "conclude_row sha ulow c q"] u by simp
  moreover have "table_ok (db_conclusions db2)"
    using conclusions.run_inv [OF table_ok_empty, of sha ulow "es0 @ EvConclude flt n1 n2 gap c p # es @ [EvConclude flt' n1' n2' gap' c q]"]
      assms(1,6) by simp
  ultimately obtain row where row: "cn_Content row = content" "filter (\<lambda>y. (cn_key \<circ> snd) y = ?k) (arows (db_conclusions db2)) = [(co_ID r, row)]"
    using length_unique_key by (fastforce simp: row_is_def find_conclusion_def table_ok_def)
  from first obtain row0 where "(co_ID r, row0) \<in> set (arows (db_conclusions db1))" "cn_Content row0 = content"
    by (auto simp: row_is_def find_conclusion_def dest: tfind_Some)
  with row same assms(5,6) show ?thesis
    by (auto simp: comp_def split_def Conclude_def Let_def split: if_splits prod.splits sum.splits dream_error.splits)
qed

text \<open>A conclusion, archived by retention, then concluded again in other letters.\<close>

definition cw_service :: memory_service where
  "cw_service = \<lparr>ms_workspaceID = ''w'', ms_observer = ''o'', ms_peerCardEnabled = True, ms_dreamEnabled = True,
     ms_maxMessageSize = 0, ms_recentLimit = 4\<rparr>"

definition cw_params :: "string \<Rightarrow> ConcludeParams" where
  "cw_params t = \<lparr>cp_ProfileID = [], cp_Peer = ''p'', cp_Conclusion = t, cp_DeleteID = 0, cp_SessionKey = [], cp_Scope = []\<rparr>"

definition cw_first :: "(conclude_error + ConcludeResult) \<times> service_db" where
  "cw_first = Conclude (\<lambda>s. s) (\<lambda>s. s) (\<lambda>_. False) 1 1 False cw_service (cw_params ''Tea'') empty_db"

definition cw_second :: "(conclude_error + ConcludeResult) \<times> service_db" where
  "cw_second = Conclude (\<lambda>s. s) (\<lambda>s. s) (\<lambda>_. False) 2 2 True cw_service (cw_params '' tEA'')
     (conclusion_step (\<lambda>s. s) (\<lambda>s. s) (EvSetStatus 1 ''archived'') (snd cw_first))"

lemma cw_ok: "is_ok (fst cw_first)" "is_ok (fst cw_second)"
  by code_simp+

theorem conclude_idempotent_witness:
  "\<exists>r r'. fst cw_first = Inr r \<and> fst cw_second = Inr r' \<and> co_ID r' = co_ID r
    \<and> length (arows (db_conclusions (snd cw_second))) = 1"
proof -
  obtain r r' where r: "fst cw_first = Inr r" "fst cw_second = Inr r'" using cw_ok unfolding is_ok_iff by blast
  have s: "same_conclusion (\<lambda>s. s) (cw_params ''Tea'') (cw_params '' tEA'')" by code_simp
  have "length (arows (db_conclusions (snd cw_second))) = 1" by code_simp
  with r conclude_idempotent [where sha = "\<lambda>s. s" and ulow = "\<lambda>s. s" and p = "cw_params ''Tea''" and ?es0.0 = "[]"
      and es = "[EvSetStatus 1 ''archived'']" and q = "cw_params '' tEA''" and r = r and r' = r' and c = cw_service
      and ?db1.0 = "snd cw_first" and ?db2.0 = "snd cw_second" and ?n1.0 = 1 and ?n2.0 = 1 and flt = "\<lambda>_. False"
      and gap = False and ?n1'.0 = 2 and ?n2'.0 = 2 and flt' = "\<lambda>_. False" and gap' = True] s
  show ?thesis by (auto simp: cw_first_def cw_second_def cw_params_def prod_eq_iff)
qed

section \<open>Effect on dreams\<close>

text \<open>After a new conclusion no dream about the peer is pending.\<close>

lemma conclude_cancels_pending:
  assumes "Conclude sha ulow flt n1 n2 gap c p db = (Inr r, db')" "\<not> 0 < cp_DeleteID p" "ms_dreamEnabled c"
    and "db_dreams_present db" "(i, d) \<in> set (arows (db_dreams db'))"
    and "in_WorkspaceID (dw_Intent d) = ms_workspaceID c" "in_ObservedPeerID (dw_Intent d) = trim_space (cp_Peer p)"
  shows "in_Status (dw_Intent d) \<noteq> ''pending''"
  using assms unfolding Conclude_def Let_def
  by (auto simp: cancel_dreams_def CancelPendingForObserved_def update_rows_def stale_row_def dream_view_def Let_def
      split: if_splits prod.splits sum.splits dream_error.splits)

end
