(* ===== verification/MemorySystem.thy ===== *)
theory MemorySystem
  imports Lifecycle Conclusions
begin

text \<open>
  The session, conclusion, profile and deletion calls of all services that share one database, as one machine.
  A call of \<open>CreateMessages\<close> appears as its attempts, which are transactions, so attempts of different calls
  interleave with everything else.
\<close>

datatype memory_event =
    EvAttempt "life_site \<Rightarrow> db_failure option" "nat \<Rightarrow> int" memory_service string "CreateMessage list"
  | EvDeleteSession "life_site \<Rightarrow> db_failure option" memory_service string
  | EvDeleteWorkspace "life_site \<Rightarrow> db_failure option" memory_service
  | EvAssistantTurn bool int string string string bool
  | EvConclusion conclusion_event
  | EvSetProfile bool int memory_service string "string list"
  | EvSetTarget bool int memory_service string string "string list"
  | EvSetNamespace bool int memory_service string string string "string list"

fun memory_step :: "(string \<Rightarrow> string) \<Rightarrow> (string \<Rightarrow> string) \<Rightarrow> memory_event \<Rightarrow> service_db \<Rightarrow> service_db" where
  "memory_step sha ulow (EvAttempt fails now s key inputs) db = snd (createMessagesOnce fails now s (trim_space key) inputs db)"
| "memory_step sha ulow (EvDeleteSession fails s key) db = snd (DeleteSession fails s key db)"
| "memory_step sha ulow (EvDeleteWorkspace fails s) db = snd (DeleteWorkspace fails s db)"
| "memory_step sha ulow (EvAssistantTurn failed now sid peer content hasMeta) db = snd (insertAssistantChatTurn failed now sid peer content hasMeta db)"
| "memory_step sha ulow (EvConclusion e) db = conclusion_step sha ulow e db"
| "memory_step sha ulow (EvSetProfile failed now s peer facts) db = snd (SetProfile failed now s peer facts db)"
| "memory_step sha ulow (EvSetTarget failed now s peer target facts) db = snd (SetProfileForTarget failed now s peer target facts db)"
| "memory_step sha ulow (EvSetNamespace failed now s w p peer facts) db = snd (SetProfileInNamespace failed now s w p peer facts db)"

text \<open>A workspace name as a service uses it: trimmed, not empty and valid UTF-8.\<close>

definition sound_workspace :: "string \<Rightarrow> bool" where
  "sound_workspace ws \<longleftrightarrow> trim_space ws = ws \<and> ws \<noteq> [] \<and> valid_utf8 ws"

fun sound_event :: "memory_event \<Rightarrow> bool" where
  "sound_event (EvAttempt fails now s key inputs) \<longleftrightarrow> sound_workspace (ms_workspaceID s)"
| "sound_event _ \<longleftrightarrow> True"

section \<open>Message order\<close>

lemma untouched_turns:
  "db_turns (conclusion_step sha ulow e db) = db_turns db"
  "db_turns (snd (SetProfile failed now s peer facts db)) = db_turns db"
  "db_turns (snd (SetProfileForTarget failed now s peer target facts db)) = db_turns db"
  "db_turns (snd (SetProfileInNamespace failed now s w p peer facts db)) = db_turns db"
proof -
  show "db_turns (conclusion_step sha ulow e db) = db_turns db"
  proof (cases e)
    case (EvConclude flt n1 n2 gap c p)
    then show ?thesis by (auto simp: Conclude_def Let_def split: prod.split sum.split dest!: cancel_dreams_frame)
  qed (simp add: set_status_def)
qed (auto simp: SetProfile_def SetProfileForTarget_def SetProfileInNamespace_def upsertPeerCard_def Let_def split: sum.split)

lemma numbered_attempt:
  assumes "sound_workspace (ms_workspaceID s)" "numbered (db_turns db)"
  shows "numbered (db_turns (snd (createMessagesOnce fails now s (trim_space key) inputs db)))"
  by (rule createMessagesOnce_cases [OF trim_space_idem [of key], of fails now s inputs db])
    (use assms numbered_append json_text_valid in \<open>simp_all add: sound_workspace_def\<close>)

interpretation memory_order: guarded_machine "memory_step sha ulow" "\<lambda>db. numbered (db_turns db)" sound_event for sha ulow
proof
  fix e :: memory_event and db :: service_db
  assume e: "sound_event e" and n: "numbered (db_turns db)"
  show "numbered (db_turns (memory_step sha ulow e db))"
  proof (cases e)
    case (EvAttempt fails now s key inputs)
    with e n show ?thesis by (simp add: numbered_attempt)
  next
    case (EvDeleteSession fails s key)
    with n show ?thesis by (simp add: DeleteSession_def Let_def numbered_adelete split: option.split)
  next
    case (EvDeleteWorkspace fails s)
    with n show ?thesis by (simp add: DeleteWorkspace_def Let_def numbered_adelete split: option.split)
  next
    case (EvAssistantTurn failed now sid peer content hasMeta)
    with n show ?thesis by (simp add: insertAssistantChatTurn_def numbered_untagged)
  qed (use n untouched_turns in simp_all)
qed

lemma numbered_empty: "numbered (db_turns empty_db)"
  by (simp add: numbered_def empty_db_def aempty_def awf_def)

lemma session_rows:
  assumes "numbered t" "ws \<noteq> []" "x \<in> set (session_messages ws sk t)"
  shows "x \<in> set (arows t)" "\<exists>m. tu_Meta (snd x) = GonchoMeta m \<and> lm_WorkspaceID m = ws" "tu_SessionID (snd x) = sk"
proof -
  from assms(3) have "of_workspace ws (snd x)" and x: "x \<in> set (arows t)" "tu_SessionID (snd x) = sk"
    by (auto simp: session_messages_def)
  then show "x \<in> set (arows t)" "\<exists>m. tu_Meta (snd x) = GonchoMeta m \<and> lm_WorkspaceID m = ws" "tu_SessionID (snd x) = sk"
    using assms(2) by (auto elim: of_workspace_tagged)
qed

lemma session_messages_increasing:
  assumes "numbered t" "ws \<noteq> []"
  shows "sorted_wrt (\<lambda>x y. fst x < fst y \<and> message_seq (snd x) < message_seq (snd y)) (session_messages ws sk t)"
proof -
  let ?L = "session_messages ws sk t" and ?k = "\<lambda>(i, r). (message_seq r, i)"
  have s: "sorted (map ?k ?L)" by (simp only: session_messages_def sorted_order_asc)
  have "distinct (map fst ?L)"
    using assms(1) by (simp add: numbered_def awf_def session_messages_def distinct_map_filter)
  then have d: "a < b \<Longrightarrow> b < length ?L \<Longrightarrow> fst (?L ! a) \<noteq> fst (?L ! b)" for a b
    using nth_eq_iff_index_eq [of "map fst ?L" a b] by simp
  have "fst (?L ! a) < fst (?L ! b) \<and> message_seq (snd (?L ! a)) < message_seq (snd (?L ! b))" if "a < b" "b < length ?L" for a b
  proof -
    let ?x = "?L ! a" and ?y = "?L ! b"
    have k: "?k ?x \<le> ?k ?y" using sorted_nth_mono [OF s, of a b] that by simp
    from session_rows [OF assms, of ?x sk] session_rows [OF assms, of ?y sk] that
    have rows: "?x \<in> set (arows t)" "?y \<in> set (arows t)" and same: "same_session (snd ?x) (snd ?y)" "same_session (snd ?y) (snd ?x)"
      by (auto simp: same_session_def)
    from assms(1) rows same have "fst ?x < fst ?y \<Longrightarrow> message_seq (snd ?x) < message_seq (snd ?y)"
        "fst ?y < fst ?x \<Longrightarrow> message_seq (snd ?y) < message_seq (snd ?x)"
      by (auto simp: numbered_def split_beta)
    with k d [OF that] show ?thesis by (cases "?x"; cases "?y") (auto simp: neq_iff)
  qed
  then show ?thesis by (simp add: sorted_wrt_iff_nth_less)
qed

text \<open>
  C9. Message numbers follow the order of storage: after any interleaving of message batches, deletions, replies,
  conclusions and profile updates of any services on one database, with any failures, the messages of a session
  are listed in the order in which they were stored, with strictly increasing ids and strictly increasing
  sequence numbers, so no number occurs twice.
\<close>

theorem messages_in_order:
  assumes "list_all sound_event es" "ws \<noteq> []"
  shows "case listLifecycleMessages remap fails ws key (db_turns (fold (memory_step sha ulow) es empty_db)) of
      Inl _ \<Rightarrow> True
    | Inr ms \<Rightarrow> sorted_wrt (<) (map mr_ID ms) \<and> sorted_wrt (<) (map mr_Sequence ms)"
proof -
  let ?t = "db_turns (fold (memory_step sha ulow) es empty_db)"
  have n: "numbered ?t" using memory_order.guarded_run [OF assms(1) numbered_empty] .
  have r: "mr_ID (listed_record remap ws x) = fst x \<and> mr_Sequence (listed_record remap ws x) = message_seq (snd x)"
    if "x \<in> set (session_messages ws key ?t)" for x
    using session_rows(2) [OF n assms(2) that] by (auto simp: listed_record_def message_seq_def Let_def split: prod.split)
  have "sorted_wrt (\<lambda>x y. mr_ID (listed_record remap ws x) < mr_ID (listed_record remap ws y)
      \<and> mr_Sequence (listed_record remap ws x) < mr_Sequence (listed_record remap ws y)) (session_messages ws key ?t)"
    using session_messages_increasing [OF n assms(2), of key] r by (auto intro: sorted_wrt_mono_rel [rotated])
  then show ?thesis
    by (auto simp: listLifecycleMessages_def sorted_wrt_map comp_def split: option.split intro: sorted_wrt_mono_rel [rotated])
qed

text \<open>
  Two services on one database: a batch, a reply, an attempt that meets a lock, a conclusion and a deletion of the
  other workspace, and a last message.
\<close>

definition mw_params :: ConcludeParams where
  "mw_params = \<lparr>cp_ProfileID = [], cp_Peer = ''p'', cp_Conclusion = ''Tea'', cp_DeleteID = 0, cp_SessionKey = [], cp_Scope = []\<rparr>"

definition mw_events :: "memory_event list" where
  "mw_events =
     [EvAttempt (\<lambda>_. None) (\<lambda>n. 5000000000) (mw_service ''w'') '' k'' [mw_input ''one'', mw_input ''two''],
      EvAssistantTurn False 6000000000 ''k'' ''p'' ''sure'' False,
      EvAttempt mw_locked (\<lambda>n. 7000000000) (mw_service ''w'') ''k'' [mw_input ''three''],
      EvConclusion (EvConclude (\<lambda>_. False) 1 1 False (mw_service ''v'') mw_params),
      EvDeleteWorkspace (\<lambda>_. None) (mw_service ''v''),
      EvAttempt (\<lambda>_. None) (\<lambda>n. 8000000000) (mw_service ''w'') ''k'' [mw_input ''three'']]"

definition mw_db :: service_db where
  "mw_db = fold (memory_step (\<lambda>s. s) (\<lambda>s. s)) mw_events empty_db"

lemma mw_sound: "list_all sound_event mw_events" "sound_workspace (ms_workspaceID (mw_service ''w''))"
  by code_simp+

text \<open>What JSON does to the metadata of the example: a number is read back as a float.\<close>

definition mw_remap :: "string \<Rightarrow> string" where
  "mw_remap v = (if v = ''n: int 1'' then ''n: float64 1'' else v)"

lemma mw_listed: "case listLifecycleMessages mw_remap (\<lambda>_. None) ''w'' ''k'' (db_turns mw_db) of
      Inl _ \<Rightarrow> False
    | Inr ms \<Rightarrow> map mr_Content ms = [''one'', ''two'', ''three''] \<and> map mr_ID ms = [1, 2, 4] \<and> map mr_Sequence ms = [1, 2, 3]"
  by code_simp

theorem messages_in_order_witness:
  "case listLifecycleMessages mw_remap (\<lambda>_. None) ''w'' ''k'' (db_turns mw_db) of
      Inl _ \<Rightarrow> False
    | Inr ms \<Rightarrow> map mr_Sequence ms = [1, 2, 3] \<and> sorted_wrt (<) (map mr_ID ms)"
  using messages_in_order [OF mw_sound(1), of "''w''" mw_remap "\<lambda>_. None" "''k''" "\<lambda>s. s" "\<lambda>s. s"] mw_listed
  unfolding mw_db_def by (simp split: sum.splits)

section \<open>What is created is listed\<close>

lemma filter_new_turns:
  assumes "json_text ws = ws"
  shows "filter (\<lambda>(i, r). tu_SessionID r = sk \<and> tu_SyncStatus r = ''ready'' \<and> of_workspace ws r) (new_turns ws sk now lastSeq n i inputs)
    = new_turns ws sk now lastSeq n i inputs"
  using assms by (induction inputs arbitrary: n i) (simp_all add: message_turn_def of_workspace_def)

lemma sorted_new_turns: "sorted (map (\<lambda>(i, r). (message_seq r, i)) (new_turns ws sk now lastSeq n i inputs))"
proof (induction inputs arbitrary: n i)
  case (Cons input inputs)
  have "message_seq (message_turn ws sk (now n) (lastSeq + int n + 1) input) = lastSeq + int n + 1"
    by (simp add: message_turn_def message_seq_def)
  with Cons show ?case by (fastforce dest: new_turns_in)
qed simp

lemma session_messages_append:
  assumes "numbered t" "json_text ws = ws" "ws \<noteq> []"
  shows "session_messages ws sk \<lparr>arows = arows t @ new_turns ws sk now (lastLifecycleMessageSequence ws sk t) 0 (aseq t) inputs, aseq = n\<rparr>
    = session_messages ws sk t @ new_turns ws sk now (lastLifecycleMessageSequence ws sk t) 0 (aseq t) inputs"
proof -
  let ?k = "\<lambda>(i, r). (message_seq r, i)"
  let ?old = "filter (\<lambda>(i, r). tu_SessionID r = sk \<and> tu_SyncStatus r = ''ready'' \<and> of_workspace ws r) (arows t)"
  let ?new = "new_turns ws sk now (lastLifecycleMessageSequence ws sk t) 0 (aseq t) inputs"
  have "?k x \<le> ?k y" if "x \<in> set ?old" "y \<in> set ?new" for x y
  proof -
    obtain i r j q where x: "x = (i, r)" and y: "y = (j, q)" by (cases x, cases y)
    with that(1) have "message_seq r \<le> lastLifecycleMessageSequence ws sk t" by (auto intro: last_sequence_ge)
    moreover have "lastLifecycleMessageSequence ws sk t < message_seq q" using new_turns_in that(2) y by fastforce
    ultimately show ?thesis using x y by simp
  qed
  then have "order_asc ?k (?old @ ?new) = order_asc ?k ?old @ order_asc ?k ?new" by (rule order_asc_append)
  then show ?thesis using assms(2) by (simp add: session_messages_def filter_new_turns order_asc_id [OF sorted_new_turns])
qed

text \<open>A record as a listing gives it back: the metadata went through JSON.\<close>

definition read_back :: "(string \<Rightarrow> string) \<Rightarrow> MessageRecord \<Rightarrow> MessageRecord" where
  "read_back remap m = m\<lparr>mr_Metadata := remap (mr_Metadata m)\<rparr>"

lemma listed_new_turns:
  assumes "list_all (\<lambda>input. valid_utf8 (trim_space (ci_ProfileID input)) \<and> valid_utf8 (trim_space (ci_Peer input))) inputs"
    and "list_all (valid_message maxSize) inputs"
  shows "map (listed_record remap ws) (new_turns ws sk now lastSeq n i inputs)
    = map (read_back remap) (new_records ws sk now lastSeq n i inputs)"
  using assms by (induction inputs arbitrary: n i)
    (simp_all add: listed_record_def read_back_def message_turn_def message_record_def json_text_valid valid_message_def Let_def)

text \<open>
  C17. Messages round-trip: after any history, when a batch is stored, listing its session returns what it returned
  before followed by exactly the records that the call returned, in their order, provided the identifiers are
  valid UTF-8.  Every field is the one that the call returned except the metadata map, which is what decoding its
  JSON encoding gives (\<open>remap\<close>): the call returns a copy of the caller's map, the listing returns the map read back.
\<close>

theorem created_messages_listed:
  assumes "list_all sound_event es" "sound_workspace (ms_workspaceID s)"
    and "createMessagesOnce fails now s (trim_space key) inputs (fold (memory_step sha ulow) es empty_db) = (Inr ms, db')"
    and "list_all (\<lambda>input. valid_utf8 (trim_space (ci_ProfileID input)) \<and> valid_utf8 (trim_space (ci_Peer input))) inputs"
    and "listLifecycleMessages remap (\<lambda>_. None) (ms_workspaceID s) (trim_space key) (db_turns (fold (memory_step sha ulow) es empty_db)) = Inr before"
  shows "listLifecycleMessages remap (\<lambda>_. None) (ms_workspaceID s) (trim_space key) (db_turns db') = Inr (before @ map (read_back remap) ms)"
proof -
  let ?db = "fold (memory_step sha ulow) es empty_db" and ?ws = "ms_workspaceID s"
  have n: "numbered (db_turns ?db)" using memory_order.guarded_run [OF assms(1) numbered_empty] .
  have w: "trim_space ?ws = ?ws" "json_text ?ws = ?ws" "?ws \<noteq> []"
    using assms(2) json_text_valid by (auto simp: sound_workspace_def)
  show ?thesis
  proof (rule createMessagesOnce_cases [OF trim_space_idem [of key], of fails now s inputs ?db])
    assume "createMessagesOnce fails now s (trim_space key) inputs ?db = (Inr (new_records (trim_space ?ws) (trim_space key) now
        (lastLifecycleMessageSequence (trim_space ?ws) (trim_space key) (db_turns ?db)) 0 (aseq (db_turns ?db)) inputs),
      ?db\<lparr>db_turns := \<lparr>arows = arows (db_turns ?db) @ new_turns (trim_space ?ws) (trim_space key) now
          (lastLifecycleMessageSequence (trim_space ?ws) (trim_space key) (db_turns ?db)) 0 (aseq (db_turns ?db)) inputs,
        aseq = aseq (db_turns ?db) + int (length inputs)\<rparr>\<rparr>)" "list_all (valid_message (ms_maxMessageSize s)) inputs"
    with assms(3-5) w n show ?thesis
      by (auto simp: listLifecycleMessages_def session_messages_append listed_new_turns simp del: map_map)
  qed (use assms(3) in auto)
qed

definition mw_numbered :: CreateMessage where
  "mw_numbered = (mw_input ''five'')\<lparr>ci_Metadata := ''n: int 1''\<rparr>"

definition mw_batch :: "(life_error + MessageRecord list) \<times> service_db" where
  "mw_batch = createMessagesOnce (\<lambda>_. None) (\<lambda>n. 9000000000) (mw_service ''w'') ''k'' [mw_input ''four'', mw_numbered] mw_db"

lemma mw_batch_ok: "case fst mw_batch of Inl _ \<Rightarrow> False
    | Inr ms \<Rightarrow> map mr_Sequence ms = [4, 5] \<and> map mr_Metadata ms = [[], ''n: int 1'']"
  by code_simp

theorem created_messages_listed_witness:
  "case (fst mw_batch, listLifecycleMessages mw_remap (\<lambda>_. None) ''w'' ''k'' (db_turns (snd mw_batch))) of
     (Inr ms, Inr all) \<Rightarrow> map mr_Sequence ms = [4, 5] \<and> map mr_Sequence all = [1, 2, 3, 4, 5]
       \<and> drop 3 all = map (read_back mw_remap) ms \<and> map mr_Metadata (drop 3 all) = [[], ''n: float64 1'']
   | _ \<Rightarrow> False"
proof -
  obtain ms where ms: "fst mw_batch = Inr ms" "map mr_Sequence ms = [4, 5]" "map mr_Metadata ms = [[], ''n: int 1'']"
    using mw_batch_ok by (auto split: sum.splits)
  obtain before where b: "listLifecycleMessages mw_remap (\<lambda>_. None) ''w'' ''k'' (db_turns mw_db) = Inr before" "map mr_Sequence before = [1, 2, 3]"
    using mw_listed by (auto split: sum.splits)
  have valid: "list_all (\<lambda>input. valid_utf8 (trim_space (ci_ProfileID input)) \<and> valid_utf8 (trim_space (ci_Peer input)))
      [mw_input ''four'', mw_numbered]" by code_simp
  have k: "trim_space ''k'' = ''k''" "ms_workspaceID (mw_service ''w'') = ''w''" by code_simp+
  have "createMessagesOnce (\<lambda>_. None) (\<lambda>n. 9000000000) (mw_service ''w'') (trim_space ''k'') [mw_input ''four'', mw_numbered]
      (fold (memory_step (\<lambda>s. s) (\<lambda>s. s)) mw_events empty_db) = (Inr ms, snd mw_batch)"
    using ms(1) k by (simp add: mw_batch_def mw_db_def prod_eq_iff)
  from created_messages_listed [OF mw_sound this valid, where remap = mw_remap] b(1) k
  have "listLifecycleMessages mw_remap (\<lambda>_. None) ''w'' ''k'' (db_turns (snd mw_batch)) = Inr (before @ map (read_back mw_remap) ms)"
    by (simp add: mw_db_def)
  moreover have "length before = 3" using arg_cong [OF b(2), of length] by simp
  moreover have "map mr_Sequence (map (read_back mw_remap) ms) = map mr_Sequence ms"
      "map mr_Metadata (map (read_back mw_remap) ms) = map mw_remap (map mr_Metadata ms)"
    by (simp_all add: read_back_def)
  moreover have "map mw_remap [[], ''n: int 1''] = [[], ''n: float64 1'']" by (simp add: mw_remap_def)
  ultimately show ?thesis using ms b(2) by (simp del: map_map)
qed

section \<open>Isolation of workspaces\<close>

text \<open>
  What the five tables of the model hold for a workspace: its messages (the turns tagged with it), conclusions, peer
  cards, session summaries and dreams.
\<close>

definition view :: "string \<Rightarrow> service_db \<Rightarrow> (int \<times> turn_row) list \<times> (int \<times> conclusionRow) list \<times> peer_card_row list
    \<times> sessionSummaryRow list \<times> (int \<times> dream_row) list" where
  "view ws db =
     (filter (\<lambda>(i, r). of_workspace ws r) (arows (db_turns db)),
      filter (\<lambda>(i, r). cn_WorkspaceID r = ws) (arows (db_conclusions db)),
      filter (\<lambda>r. pc_WorkspaceID r = ws) (db_cards db),
      filter (\<lambda>r. ss_WorkspaceID r = ws) (db_summaries db),
      filter (\<lambda>(i, r). in_WorkspaceID (dw_Intent r) = ws) (arows (db_dreams db)))"

text \<open>
  A call is addressed to the workspace of its service, except \<open>SetProfileInNamespace\<close>, which is addressed to the
  workspace of its namespace key.  An assistant reply is tagged with no workspace.  A change of status by another
  program may concern any workspace.
\<close>

fun touches :: "string \<Rightarrow> memory_event \<Rightarrow> bool" where
  "touches ws (EvAttempt fails now s key inputs) \<longleftrightarrow> ms_workspaceID s = ws"
| "touches ws (EvDeleteSession fails s key) \<longleftrightarrow> ms_workspaceID s = ws"
| "touches ws (EvDeleteWorkspace fails s) \<longleftrightarrow> ms_workspaceID s = ws"
| "touches ws (EvAssistantTurn failed now sid peer content hasMeta) \<longleftrightarrow> False"
| "touches ws (EvConclusion (EvConclude flt n1 n2 gap c p)) \<longleftrightarrow> ms_workspaceID c = ws"
| "touches ws (EvConclusion (EvSetStatus n status)) \<longleftrightarrow> True"
| "touches ws (EvSetProfile failed now s peer facts) \<longleftrightarrow> ms_workspaceID s = ws"
| "touches ws (EvSetTarget failed now s peer target facts) \<longleftrightarrow> ms_workspaceID s = ws"
| "touches ws (EvSetNamespace failed now s w p peer facts) \<longleftrightarrow> scopekey_Workspace (ms_workspaceID s) w False = ws"

lemma filter_map_untouched:
  "(\<And>x. x \<in> set xs \<Longrightarrow> P (f x) = P x \<and> (P x \<longrightarrow> f x = x)) \<Longrightarrow> filter P (map f xs) = filter P xs"
  by (induction xs) auto

lemma filter_tdelete_other: "(\<And>x. P x \<Longrightarrow> \<not> q x) \<Longrightarrow> filter P (tdelete q xs) = filter P xs"
  by (induction xs) (auto simp: tdelete_def)

lemma view_tupsert_other:
  "\<not> P r \<Longrightarrow> (\<And>x. key x = key r \<Longrightarrow> \<not> P x) \<Longrightarrow> filter P (tupsert key (\<lambda>_ r. r) r xs) = filter P xs"
  by (induction xs) auto

lemma view_upsert:
  assumes "cn_WorkspaceID row \<noteq> ws"
  shows "filter (\<lambda>(i, r). cn_WorkspaceID r = ws) (arows (snd (upsertConclusion flt now gap sk row t)))
    = filter (\<lambda>(i, r). cn_WorkspaceID r = ws) (arows t)"
proof (cases rule: upsert_table [of flt now gap sk row t])
  case (insert stored)
  then have "cn_WorkspaceID stored \<noteq> ws" using assms by (simp add: cn_key_def)
  with insert show ?thesis by simp
next
  case touch
  have "filter (\<lambda>(i, r). cn_WorkspaceID r = ws) (map (map_prod (\<lambda>i. i) (touch_row (cn_key row) now)) (arows t))
      = filter (\<lambda>(i, r). cn_WorkspaceID r = ws) (arows t)"
    by (rule filter_map_untouched) (use assms in \<open>auto simp: touch_row_def cn_key_def\<close>)
  with touch show ?thesis by (simp add: touch_def)
qed simp

lemma view_delete_conclusion:
  assumes "w \<noteq> ws"
  shows "filter (\<lambda>(i, r). cn_WorkspaceID r = ws) (arows (snd (deleteConclusion flt w profileID observer peer n t)))
    = filter (\<lambda>(i, r). cn_WorkspaceID r = ws) (arows t)"
  using delete_table [of flt w profileID observer peer n t]
    filter_tdelete_other [of "\<lambda>(i, r). cn_WorkspaceID r = ws" "conclusion_hit w profileID observer peer n" "arows t"] assms
  by (auto simp: conclusion_hit_def)

lemma filter_adelete_other:
  "(\<And>r. P r \<Longrightarrow> \<not> q r) \<Longrightarrow> filter (\<lambda>(i, r). P r) (arows (adelete q t)) = filter (\<lambda>(i, r). P r) (arows t)"
  unfolding adelete_def by (simp, rule filter_tdelete_other) auto

definition dreams_of :: "string \<Rightarrow> service_db \<Rightarrow> (int \<times> dream_row) list" where
  "dreams_of ws db = filter (\<lambda>(i, r). in_WorkspaceID (dw_Intent r) = ws) (arows (db_dreams db))"

lemma dreams_of_conclusions [simp]: "dreams_of ws (db\<lparr>db_conclusions := t\<rparr>) = dreams_of ws db"
  by (simp add: dreams_of_def)

lemma dreams_of_cancel:
  assumes "cancel_dreams flt w peer now db = (r, db')" "w \<noteq> ws"
  shows "dreams_of ws db' = dreams_of ws db"
proof -
  have "filter (\<lambda>(i, r). in_WorkspaceID (dw_Intent r) = ws) (map (\<lambda>(i, r). (i, stale_row w peer now why r)) xs)
      = filter (\<lambda>(i, r). in_WorkspaceID (dw_Intent r) = ws) xs" for why and xs :: "(int \<times> dream_row) list"
    by (rule filter_map_untouched) (use assms(2) in \<open>auto simp: stale_row_def\<close>)
  with assms(1) show ?thesis
    by (auto simp: dreams_of_def cancel_dreams_def CancelPendingForObserved_def update_rows_def dream_view_def Let_def split: if_splits)
qed

lemma Conclude_dreams:
  assumes "ms_workspaceID c \<noteq> ws"
  shows "dreams_of ws (snd (Conclude sha ulow flt n1 n2 gap c p db)) = dreams_of ws db"
  using assms unfolding Conclude_def Let_def by (auto split: prod.split sum.split dest!: dreams_of_cancel)

lemma Conclude_other_tables:
  "db_turns (snd (Conclude sha ulow flt n1 n2 gap c p db)) = db_turns db"
  "db_cards (snd (Conclude sha ulow flt n1 n2 gap c p db)) = db_cards db"
  "db_summaries (snd (Conclude sha ulow flt n1 n2 gap c p db)) = db_summaries db"
  unfolding Conclude_def Let_def by (auto split: prod.split sum.split dest!: cancel_dreams_frame)

lemma view_Conclude:
  assumes "ms_workspaceID c \<noteq> ws"
  shows "view ws (snd (Conclude sha ulow flt n1 n2 gap c p db)) = view ws db"
proof -
  have "filter (\<lambda>(i, r). cn_WorkspaceID r = ws) (arows (db_conclusions (snd (Conclude sha ulow flt n1 n2 gap c p db))))
      = filter (\<lambda>(i, r). cn_WorkspaceID r = ws) (arows (db_conclusions db))"
    by (cases rule: Conclude_table [of sha ulow flt n1 n2 gap c p db])
      (use assms in \<open>simp_all add: view_upsert view_delete_conclusion conclude_row_def\<close>)
  with Conclude_dreams [OF assms, of sha ulow flt n1 n2 gap p db] show ?thesis
    by (simp add: view_def dreams_of_def Conclude_other_tables)
qed

lemma view_card:
  assumes "w \<noteq> ws"
  shows "view ws (snd (upsertPeerCard failed now w profileID observer peer facts db)) = view ws db"
proof -
  have "filter (\<lambda>r. pc_WorkspaceID r = ws) (tupsert pc_key (\<lambda>_ r. r) row xs) = filter (\<lambda>r. pc_WorkspaceID r = ws) xs"
    if "pc_WorkspaceID row = w" for row xs
    by (rule view_tupsert_other) (use assms that in \<open>auto simp: pc_key_def\<close>)
  then show ?thesis by (simp add: upsertPeerCard_def view_def)
qed

lemma view_attempt:
  assumes "sound_workspace (ms_workspaceID s)" "ms_workspaceID s \<noteq> ws" "ws \<noteq> []"
  shows "view ws (snd (createMessagesOnce fails now s (trim_space key) inputs db)) = view ws db"
proof -
  have other: "filter (\<lambda>(i, r). of_workspace ws r) (new_turns (ms_workspaceID s) sk now lastSeq n i inputs) = []" for sk lastSeq n i
  proof -
    have "\<not> of_workspace ws r" if "(j, r) \<in> set (new_turns (ms_workspaceID s) sk now lastSeq n i inputs)" for j r
      using new_turns_in [OF that] assms json_text_valid [of "ms_workspaceID s"] by (auto simp: of_workspace_def sound_workspace_def)
    then show ?thesis by (auto simp: filter_empty_conv)
  qed
  show ?thesis
    by (rule createMessagesOnce_cases [OF trim_space_idem [of key], of fails now s inputs db])
      (use assms(1) other in \<open>simp_all add: view_def sound_workspace_def\<close>)
qed

lemma view_delete:
  assumes "ms_workspaceID s \<noteq> ws" "ws \<noteq> []"
  shows "view ws (snd (DeleteSession fails s key db)) = view ws db" "view ws (snd (DeleteWorkspace fails s db)) = view ws db"
proof -
  have t: "of_workspace ws r \<Longrightarrow> \<not> of_workspace (ms_workspaceID s) r" for r
    using assms by (cases "tu_Meta r") (auto simp: of_workspace_def)
  have c: "filter (\<lambda>(i, r). cn_WorkspaceID r = ws) (arows (adelete (\<lambda>r. cn_WorkspaceID r = ms_workspaceID s \<and> Q r) t))
      = filter (\<lambda>(i, r). cn_WorkspaceID r = ws) (arows t)" for Q t
    by (rule filter_adelete_other) (use assms(1) in simp)
  have u: "filter (\<lambda>r. ss_WorkspaceID r = ws) (tdelete (\<lambda>r. ss_WorkspaceID r = ms_workspaceID s \<and> Q r) rs)
      = filter (\<lambda>r. ss_WorkspaceID r = ws) rs" for Q rs
    by (rule filter_tdelete_other) (use assms(1) in simp)
  show "view ws (snd (DeleteSession fails s key db)) = view ws db"
    using assms(1) t by (cases "first_failure fails [LBegin, LMessages, LConclusions, LSummaries, LCommit]")
      (simp_all add: view_def DeleteSession_def filter_adelete_other c u Let_def del: first_failure.simps)
  show "view ws (snd (DeleteWorkspace fails s db)) = view ws db"
    using assms(1) t by (cases "first_failure fails [LBegin, LMessages, LCards, LConclusions, LSummaries, LDreams, LCommit]")
      (simp_all add: view_def DeleteWorkspace_def filter_adelete_other filter_tdelete_other Let_def del: first_failure.simps)
qed

lemma view_step:
  assumes "sound_event e \<and> \<not> touches ws e" "ws \<noteq> []"
  shows "view ws (memory_step sha ulow e db) = view ws db"
proof (cases e)
  case (EvAssistantTurn failed now sid peer content hasMeta)
  with assms(2) show ?thesis by (simp add: insertAssistantChatTurn_def view_def of_workspace_def)
next
  case (EvConclusion c)
  with assms view_Conclude show ?thesis by (cases c) auto
next
  case (EvSetProfile failed now s peer facts)
  with assms view_card show ?thesis by (simp add: SetProfile_def split: sum.split)
next
  case (EvSetTarget failed now s peer target facts)
  with assms view_card show ?thesis by (simp add: SetProfileForTarget_def split: sum.split)
next
  case (EvSetNamespace failed now s w p peer facts)
  with assms view_card show ?thesis by (simp add: SetProfileInNamespace_def Let_def scopekey_Normalize_def)
qed (use assms view_attempt view_delete in simp_all)

interpretation memory_views: guarded_machine "memory_step sha ulow" "\<lambda>db. view ws db = v" "\<lambda>e. ws \<noteq> [] \<and> sound_event e \<and> \<not> touches ws e"
  for sha ulow ws v
  by unfold_locales (simp add: view_step)

text \<open>
  C8. Workspaces are isolated: whatever calls that are addressed to other workspaces arrive on the shared database,
  message batches, session and workspace deletions, conclusions, profile updates, in any order and with any failures,
  and whatever assistant replies are stored, the messages, conclusions, peer cards, summaries and dreams of a
  workspace stay exactly as they are.  A call is addressed to the workspace of its service, a
  \<open>SetProfileInNamespace\<close> to the workspace that its namespace names, so a service of another workspace that names
  this one in a namespace is not among these calls, nor is a change of a conclusion's status by another program.
  The services that store messages have a name that is trimmed, not empty and valid UTF-8 (\<open>sound_event\<close>), since
  the name is stored in JSON.
\<close>

theorem workspace_isolated:
  assumes "ws \<noteq> []" "list_all (\<lambda>e. sound_event e \<and> \<not> touches ws e) es"
  shows "view ws (fold (memory_step sha ulow) es db) = view ws db"
  using memory_views.guarded_run [of ws es] assms by simp

definition mw_other_events :: "memory_event list" where
  "mw_other_events =
     [EvAttempt (\<lambda>_. None) (\<lambda>n. 5000000000) (mw_service ''v'') ''k'' [mw_input ''other''],
      EvConclusion (EvConclude (\<lambda>_. False) 1 1 False (mw_service ''v'') mw_params),
      EvSetProfile False 3 (mw_service ''v'') ''p'' [''likes tea''],
      EvDeleteSession (\<lambda>_. None) (mw_service ''v'') ''k'',
      EvDeleteWorkspace (\<lambda>_. None) (mw_service ''v'')]"

lemma mw_others: "list_all (\<lambda>e. sound_event e \<and> \<not> touches ''w'' e) mw_other_events"
  by code_simp

lemma mw_view: "length (fst (view ''w'' mw_db)) = 3"
  by code_simp

theorem workspace_isolated_witness:
  "view ''w'' (fold (memory_step (\<lambda>s. s) (\<lambda>s. s)) mw_other_events mw_db) = view ''w'' mw_db \<and> length (fst (view ''w'' mw_db)) = 3"
  using workspace_isolated [OF _ mw_others, of "\<lambda>s. s" "\<lambda>s. s" mw_db] mw_view by simp

section \<open>Deletion\<close>

lemma empty_view_lists_nothing:
  assumes "fst (view ws db) = []"
  shows "session_messages ws key (db_turns db) = []" "lastLifecycleMessageSequence ws key (db_turns db) = 0"
proof -
  have "\<not> of_workspace ws r" if "(i, r) \<in> set (arows (db_turns db))" for i r
    using assms that by (auto simp: view_def filter_empty_conv)
  then have "filter (\<lambda>(i, r). tu_SessionID r = key \<and> tu_SyncStatus r = ''ready'' \<and> of_workspace ws r) (arows (db_turns db)) = []"
    by (auto simp: filter_empty_conv)
  then show "session_messages ws key (db_turns db) = []" "lastLifecycleMessageSequence ws key (db_turns db) = 0"
    by (simp_all add: session_messages_def lastLifecycleMessageSequence_def order_asc_def)
qed

lemma DeleteWorkspace_tables:
  assumes "DeleteWorkspace fails s db = (Inr r, db')"
  shows "arows (db_turns db') = filter (\<lambda>(i, t). \<not> of_workspace (ms_workspaceID s) t) (arows (db_turns db))"
    and "arows (db_conclusions db') = filter (\<lambda>(i, c). cn_WorkspaceID c \<noteq> ms_workspaceID s) (arows (db_conclusions db))"
    and "db_cards db' = filter (\<lambda>c. pc_WorkspaceID c \<noteq> ms_workspaceID s) (db_cards db)"
    and "db_summaries db' = filter (\<lambda>x. ss_WorkspaceID x \<noteq> ms_workspaceID s) (db_summaries db)"
    and "arows (db_dreams db') = filter (\<lambda>(i, d). in_WorkspaceID (dw_Intent d) \<noteq> ms_workspaceID s) (arows (db_dreams db))"
    and "case view (ms_workspaceID s) db of (ts, cs, ps, ss, ds) \<Rightarrow>
      wd_MessagesDeleted r = length ts \<and> wd_ConclusionsDeleted r = length cs \<and> wd_PeerCardsDeleted r = length ps
      \<and> wd_SummariesDeleted r = length ss \<and> wd_DreamsDeleted r = length ds"
  using assms by (auto simp: DeleteWorkspace_def view_def adelete_def acount_def count_rows_def tdelete_def Let_def comp_def
      split_def split: option.splits)

lemma DeleteWorkspace_view:
  assumes "DeleteWorkspace fails s db = (Inr r, db')"
  shows "view (ms_workspaceID s) db' = ([], [], [], [], [])"
  unfolding view_def DeleteWorkspace_tables [OF assms] by (simp add: filter_empty_conv split_beta)

lemma DeleteWorkspace_error: "DeleteWorkspace fails s db = (Inl e, db') \<Longrightarrow> db' = db"
  by (auto simp: DeleteWorkspace_def Let_def split: option.splits)

text \<open>
  C18. Deleting a workspace empties it and takes nothing else.  On error nothing changes.  On success what remains of
  each of the five tables is exactly the rows of other workspaces (among the turns also those tagged with none, such as
  assistant replies and imported chunks), in their order and unchanged; the reported counts are the numbers of
  rows that the workspace held.  The workspace then stays empty and every listing of one of its sessions is empty and its
  message numbers begin again at one, whatever calls addressed to other workspaces follow.  Tables outside these
  five that carry a workspace column are not touched by the call.
\<close>

theorem workspace_deletion_exact:
  assumes "ms_workspaceID s \<noteq> []" "list_all (\<lambda>e. sound_event e \<and> \<not> touches (ms_workspaceID s) e) es"
  shows "case DeleteWorkspace fails s db of (res, db') \<Rightarrow>
     (case res of
        Inl _ \<Rightarrow> db' = db
      | Inr r \<Rightarrow>
          arows (db_turns db') = filter (\<lambda>(i, t). \<not> of_workspace (ms_workspaceID s) t) (arows (db_turns db))
          \<and> arows (db_conclusions db') = filter (\<lambda>(i, c). cn_WorkspaceID c \<noteq> ms_workspaceID s) (arows (db_conclusions db))
          \<and> db_cards db' = filter (\<lambda>c. pc_WorkspaceID c \<noteq> ms_workspaceID s) (db_cards db)
          \<and> db_summaries db' = filter (\<lambda>x. ss_WorkspaceID x \<noteq> ms_workspaceID s) (db_summaries db)
          \<and> arows (db_dreams db') = filter (\<lambda>(i, d). in_WorkspaceID (dw_Intent d) \<noteq> ms_workspaceID s) (arows (db_dreams db))
          \<and> (case view (ms_workspaceID s) db of (ts, cs, ps, ss, ds) \<Rightarrow>
              wd_MessagesDeleted r = length ts \<and> wd_ConclusionsDeleted r = length cs \<and> wd_PeerCardsDeleted r = length ps
              \<and> wd_SummariesDeleted r = length ss \<and> wd_DreamsDeleted r = length ds)
          \<and> (let later = fold (memory_step sha ulow) es db' in
              view (ms_workspaceID s) later = ([], [], [], [], [])
              \<and> listLifecycleMessages remap (\<lambda>_. None) (ms_workspaceID s) key (db_turns later) = Inr []
              \<and> lastLifecycleMessageSequence (ms_workspaceID s) key (db_turns later) = 0))"
proof (cases "DeleteWorkspace fails s db")
  case (Pair res db')
  show ?thesis
  proof (cases res)
    case (Inl e)
    with Pair DeleteWorkspace_error show ?thesis by fastforce
  next
    case (Inr r)
    with Pair have d: "DeleteWorkspace fails s db = (Inr r, db')" by simp
    have v: "view (ms_workspaceID s) (fold (memory_step sha ulow) es db') = ([], [], [], [], [])"
      using memory_views.guarded_run [of "ms_workspaceID s" es] assms DeleteWorkspace_view [OF d] by simp
    from empty_view_lists_nothing [of "ms_workspaceID s" "fold (memory_step sha ulow) es db'" key] v
    show ?thesis unfolding d prod.case sum.case Let_def
      by (intro conjI DeleteWorkspace_tables [OF d] v) (simp_all add: listLifecycleMessages_def)
  qed
qed

text \<open>The workspace \<open>w\<close> of the run above is deleted, then the other workspace is at work.\<close>

lemma mw_deleted: "case fst (DeleteWorkspace (\<lambda>_. None) (mw_service ''w'') mw_db) of
    Inl _ \<Rightarrow> False | Inr r \<Rightarrow> wd_MessagesDeleted r = 3"
  by code_simp

theorem workspace_deletion_exact_witness:
  "case DeleteWorkspace (\<lambda>_. None) (mw_service ''w'') mw_db of (res, db') \<Rightarrow>
     (case res of
        Inl _ \<Rightarrow> False
      | Inr r \<Rightarrow> wd_MessagesDeleted r = 3
          \<and> view ''w'' (fold (memory_step (\<lambda>s. s) (\<lambda>s. s)) mw_other_events db') = ([], [], [], [], []))"
proof -
  have w: "ms_workspaceID (mw_service ''w'') = ''w''" by (simp add: mw_service_def)
  show ?thesis
    using workspace_deletion_exact [of "mw_service ''w''" mw_other_events, where fails = "\<lambda>_. None" and db = mw_db
        and sha = "\<lambda>s. s" and ulow = "\<lambda>s. s"]
      mw_others mw_deleted
    by (auto simp: w Let_def split: prod.splits sum.splits)
qed

text \<open>A reply that was stored in a session is still there after the session was deleted.\<close>

lemma reply_survives_deletion:
  assumes "insertAssistantChatTurn False now key peer content hasMeta db = (Inr (), db1)"
    and "trim_space key \<noteq> []" "trim_space peer \<noteq> []" "trim_space content \<noteq> []" "ms_workspaceID s \<noteq> []"
    and "DeleteSession fails s key db1 = (Inr r, db2)"
  shows "\<exists>i t. (i, t) \<in> set (arows (db_turns db2)) \<and> tu_SessionID t = trim_space key \<and> tu_Content t = content"
proof -
  let ?t = "\<lparr>tu_SessionID = trim_space key, tu_Role = ''assistant'', tu_Content = content, tu_TsUnix = Unix now,
    tu_ChatID = Some (trim_space peer), tu_Meta = (if hasMeta then OtherMeta else NoMeta), tu_SyncStatus = ''ready''\<rparr>"
  have db1: "db1 = db\<lparr>db_turns := snd (ainsert ?t (db_turns db))\<rparr>" using assms(1-4) by (simp add: insertAssistantChatTurn_def)
  have "\<not> of_workspace (ms_workspaceID s) ?t" using assms(5) by (simp add: of_workspace_def)
  then have "(fst (ainsert ?t (db_turns db)), ?t) \<in> set (arows (db_turns db2))"
    using assms(2,6) unfolding db1 by (simp add: DeleteSession_def adelete_def Let_def split: option.splits if_splits) auto
  then show ?thesis by (intro exI [of _ "fst (ainsert ?t (db_turns db))"] exI [of _ ?t]) simp
qed

end
