(* ===== verification/Float64.thy ===== *)
theory Float64
  imports Text "HOL-Library.Log_Nat" Complex_Main
begin

text \<open>
  Go's \<open>float64\<close>: IEEE 754 binary64 with rounding to nearest, ties to even.  A finite non-zero value is
  the rational number it denotes, a zero carries its sign, and the payload of a NaN is not kept.  The
  operations are those of a target without fused multiply-add (amd64 at its default level).  Then
  \<open>math.Round\<close>, the conversion from integers and \<open>fmt.Sprintf("%.6f", x)\<close>.
\<close>

section \<open>Values and rounding\<close>

text \<open>The Boolean of an infinity or a zero is its sign bit.\<close>

datatype float64 = FNaN | FInf bool | FZero bool | FNum rat

definition pow2z :: "int \<Rightarrow> rat" where
  "pow2z e = (if 0 \<le> e then 2 ^ nat e else 1 / 2 ^ nat (- e))"

text \<open>The exponent of a positive rational: the largest \<open>e\<close> with \<open>2 ^ e\<close> at most \<open>q\<close>.\<close>

definition ilog2 :: "rat \<Rightarrow> int" where
  "ilog2 q = (case quotient_of q of (a, b) \<Rightarrow>
     let k = bitlen a - bitlen b in if pow2z k \<le> q then k else k - 1)"

definition round_even :: "rat \<Rightarrow> int" where
  "round_even x =
     (let n = \<lfloor>x\<rfloor>; d = x - of_int n in
      if d < 1 / 2 then n else if 1 / 2 < d then n + 1 else if even n then n else n + 1)"

text \<open>The spacing of the doubles around \<open>q\<close>: 53 significant bits, and \<open>2 ^ -1074\<close> for subnormal values.\<close>

definition ulp :: "rat \<Rightarrow> rat" where
  "ulp q = pow2z (max (ilog2 \<bar>q\<bar> - 52) (- 1074))"

definition fl :: "rat \<Rightarrow> rat" where
  "fl q = (if q = 0 then 0 else of_int (round_even (q / ulp q)) * ulp q)"

definition fround :: "bool \<Rightarrow> rat \<Rightarrow> float64" where
  "fround neg q =
     (let r = fl q in
      if q = 0 then FZero neg
      else if r = 0 then FZero (q < 0)
      else if 2 ^ 1024 \<le> \<bar>r\<bar> then FInf (q < 0)
      else FNum r)"

section \<open>Operations\<close>

fun fneg :: "float64 \<Rightarrow> float64" where
  "fneg FNaN = FNaN"
| "fneg (FInf s) = FInf (\<not> s)"
| "fneg (FZero s) = FZero (\<not> s)"
| "fneg (FNum q) = FNum (- q)"

fun is_nan :: "float64 \<Rightarrow> bool" where
  "is_nan FNaN = True"
| "is_nan _ = False"

text \<open>The value of a finite number; infinities and NaN have none and are kept apart below.\<close>

fun fval :: "float64 \<Rightarrow> rat" where
  "fval (FNum q) = q"
| "fval _ = 0"

fun fsign :: "float64 \<Rightarrow> bool" where
  "fsign FNaN = False"
| "fsign (FInf s) = s"
| "fsign (FZero s) = s"
| "fsign (FNum q) = (q < 0)"

fun is_inf :: "float64 \<Rightarrow> bool" where
  "is_inf (FInf _) = True"
| "is_inf _ = False"

fun is_zero :: "float64 \<Rightarrow> bool" where
  "is_zero (FZero _) = True"
| "is_zero _ = False"

definition fadd :: "float64 \<Rightarrow> float64 \<Rightarrow> float64" where
  "fadd x y =
     (if is_nan x \<or> is_nan y then FNaN
      else if is_inf x then (if is_inf y \<and> fsign x \<noteq> fsign y then FNaN else x)
      else if is_inf y then y
      else fround (is_zero x \<and> is_zero y \<and> fsign x \<and> fsign y) (fval x + fval y))"

definition fsub :: "float64 \<Rightarrow> float64 \<Rightarrow> float64" where
  "fsub x y = fadd x (fneg y)"

definition fmul :: "float64 \<Rightarrow> float64 \<Rightarrow> float64" where
  "fmul x y =
     (let s = (fsign x \<noteq> fsign y) in
      if is_nan x \<or> is_nan y then FNaN
      else if is_inf x \<or> is_inf y then (if is_zero x \<or> is_zero y then FNaN else FInf s)
      else fround s (fval x * fval y))"

definition fdiv :: "float64 \<Rightarrow> float64 \<Rightarrow> float64" where
  "fdiv x y =
     (let s = (fsign x \<noteq> fsign y) in
      if is_nan x \<or> is_nan y then FNaN
      else if is_inf x then (if is_inf y then FNaN else FInf s)
      else if is_inf y then FZero s
      else if is_zero y then (if is_zero x then FNaN else FInf s)
      else fround s (fval x / fval y))"

text \<open>Comparisons: the two zeros are equal and a NaN is in no relation to anything.\<close>

fun fkey :: "float64 \<Rightarrow> int \<times> rat" where
  "fkey (FInf s) = (if s then - 1 else 1, 0)"
| "fkey x = (0, fval x)"

definition fless :: "float64 \<Rightarrow> float64 \<Rightarrow> bool" where
  "fless x y \<longleftrightarrow> \<not> is_nan x \<and> \<not> is_nan y
     \<and> (fst (fkey x) < fst (fkey y) \<or> fst (fkey x) = fst (fkey y) \<and> snd (fkey x) < snd (fkey y))"

definition feq :: "float64 \<Rightarrow> float64 \<Rightarrow> bool" where
  "feq x y \<longleftrightarrow> \<not> is_nan x \<and> \<not> is_nan y \<and> fkey x = fkey y"

definition fle :: "float64 \<Rightarrow> float64 \<Rightarrow> bool" where
  "fle x y \<longleftrightarrow> fless x y \<or> feq x y"

text \<open>A literal of the source, \<open>float64(n)\<close> and \<open>math.Round\<close> (half away from zero, exact).\<close>

definition flit :: "rat \<Rightarrow> float64" where
  "flit q = fround False q"

definition of_int64 :: "int \<Rightarrow> float64" where
  "of_int64 n = fround False (of_int n)"

definition round_away :: "rat \<Rightarrow> int" where
  "round_away q = (if 0 \<le> q then \<lfloor>q + 1 / 2\<rfloor> else - \<lfloor>- q + 1 / 2\<rfloor>)"

fun math_Round :: "float64 \<Rightarrow> float64" where
  "math_Round (FNum q) = (let n = round_away q in if n = 0 then FZero (q < 0) else FNum (of_int n))"
| "math_Round x = x"

section \<open>Printing\<close>

text \<open>\<open>%.6f\<close>: the exact value rounded to six decimals, ties to even.\<close>

definition pad6 :: "nat \<Rightarrow> string" where
  "pad6 n = (let d = digits n in replicate (6 - length d) (CHR ''0'') @ d)"

definition fixed6 :: "bool \<Rightarrow> rat \<Rightarrow> string" where
  "fixed6 neg q =
     (let n = nat (round_even (\<bar>q\<bar> * 1000000)) in
      (if neg then ''-'' else []) @ digits (n div 1000000) @ ''.'' @ pad6 (n mod 1000000))"

fun Sprintf6f :: "float64 \<Rightarrow> string" where
  "Sprintf6f FNaN = ''NaN''"
| "Sprintf6f (FInf s) = (if s then ''-Inf'' else ''+Inf'')"
| "Sprintf6f (FZero s) = fixed6 s 0"
| "Sprintf6f (FNum q) = fixed6 (q < 0) q"

section \<open>Rounding is monotone and exact on integers\<close>

lemma pow2z_powi: "pow2z e = 2 powi e"
  unfolding pow2z_def power_int_def by (simp only: inverse_eq_divide power_one_over)

lemma pow2z_pos [simp]: "0 < pow2z e"
  by (simp add: pow2z_def)

lemma pow2z_add: "pow2z (i + j) = pow2z i * pow2z j"
  by (simp add: pow2z_powi power_int_add)

lemma pow2z_mono: "i \<le> j \<Longrightarrow> pow2z i \<le> pow2z j"
  by (simp add: pow2z_powi power_int_increasing)

lemma ilog2_bounds:
  assumes "0 < q"
  shows "pow2z (ilog2 q) \<le> q \<and> q < pow2z (ilog2 q + 1)"
proof -
  obtain a b where ab: "quotient_of q = (a, b)" by fastforce
  then have b: "0 < b" and q: "q = of_int a / of_int b"
    using quotient_of_denom_pos quotient_of_div by blast+
  with assms have a: "0 < a" by (simp add: zero_less_divide_iff)
  have bnd: "pow2z (bitlen x - 1) \<le> of_int x \<and> of_int x < pow2z (bitlen x)" if "0 < x" for x
  proof -
    have "2 ^ nat (bitlen x - 1) \<le> x" "x < 2 ^ nat (bitlen x)" using bitlen_bounds [OF that] by auto
    then have "(of_int (2 ^ nat (bitlen x - 1)) :: rat) \<le> of_int x" "(of_int x :: rat) < of_int (2 ^ nat (bitlen x))"
      by (simp_all only: of_int_le_iff of_int_less_iff)
    moreover have "0 < bitlen x"
      using that bitlen_nonneg [of x] bitlen_eq_zero_iff [of x] by linarith
    ultimately show ?thesis by (simp add: pow2z_def)
  qed
  let ?k = "bitlen a - bitlen b"
  have "pow2z (?k - 1) * of_int b \<le> pow2z (?k - 1) * pow2z (bitlen b)"
    using bnd [OF b] by (simp add: mult_le_cancel_left_pos)
  also have "\<dots> = pow2z (bitlen a - 1)" by (simp flip: pow2z_add)
  finally have lo: "pow2z (?k - 1) \<le> q"
    using bnd [OF a] b by (simp add: q pos_le_divide_eq)
  have "of_int a < pow2z (?k + 1) * pow2z (bitlen b - 1)"
    using bnd [OF a] by (simp flip: pow2z_add)
  also have "\<dots> \<le> pow2z (?k + 1) * of_int b"
    using bnd [OF b] by (simp add: mult_le_cancel_left_pos)
  finally have hi: "q < pow2z (?k + 1)"
    using b by (simp add: q pos_divide_less_eq)
  show ?thesis
    using lo hi by (simp add: ilog2_def ab Let_def)
qed

lemma ilog2_mono: "0 < x \<Longrightarrow> x \<le> y \<Longrightarrow> ilog2 x \<le> ilog2 y"
proof (rule ccontr)
  assume *: "0 < x" "x \<le> y" "\<not> ilog2 x \<le> ilog2 y"
  then have "pow2z (ilog2 y + 1) \<le> pow2z (ilog2 x)" by (intro pow2z_mono) simp
  with * ilog2_bounds [of x] ilog2_bounds [of y] show False by linarith
qed

lemma ulp_pos [simp]: "0 < ulp q"
  by (simp add: ulp_def)

lemma round_even_near: "\<bar>of_int (round_even x) - x\<bar> \<le> 1 / 2"
  using floor_correct [of x] by (simp add: round_even_def Let_def; linarith)

lemma ulp_nonneg [simp]: "0 \<le> ulp q"
  using ulp_pos [of q] by linarith

lemma fl_near: "q \<noteq> 0 \<Longrightarrow> \<bar>fl q - q\<bar> \<le> ulp q / 2"
proof -
  assume "q \<noteq> 0"
  have "q = q / ulp q * ulp q" using ulp_pos [of q] by (simp add: less_imp_neq [symmetric])
  then have "fl q - q = (of_int (round_even (q / ulp q)) - q / ulp q) * ulp q"
    using \<open>q \<noteq> 0\<close> by (simp add: fl_def left_diff_distrib)
  then have "\<bar>fl q - q\<bar> = \<bar>of_int (round_even (q / ulp q)) - q / ulp q\<bar> * ulp q"
    by (simp only: abs_mult abs_of_nonneg [OF ulp_nonneg])
  also have "\<dots> \<le> 1 / 2 * ulp q" by (intro mult_right_mono round_even_near) simp
  finally show ?thesis by simp
qed

lemma round_even_of_int [simp]: "round_even (of_int n) = n"
  by (simp add: round_even_def)

lemma round_even_mono:
  assumes "x \<le> y"
  shows "round_even x \<le> round_even y"
proof (cases "\<lfloor>x\<rfloor> = \<lfloor>y\<rfloor>")
  case True
  with assms show ?thesis by (auto simp: round_even_def Let_def)
next
  case False
  then have "\<lfloor>x\<rfloor> + 1 \<le> \<lfloor>y\<rfloor>" using floor_mono [OF assms] by simp
  moreover have "round_even x \<le> \<lfloor>x\<rfloor> + 1" "\<lfloor>y\<rfloor> \<le> round_even y" by (simp_all add: round_even_def Let_def)
  ultimately show ?thesis by linarith
qed

lemma round_even_minus: "round_even (- x) = - round_even x"
proof (cases "x = of_int \<lfloor>x\<rfloor>")
  case True
  then show ?thesis by (metis of_int_minus round_even_of_int)
next
  case False
  then have "\<lfloor>- x\<rfloor> = - \<lfloor>x\<rfloor> - 1"
    using floor_correct [of x] by (intro floor_unique) (auto, linarith+)
  then show ?thesis by (auto simp: round_even_def Let_def)
qed

lemma fl_zero [simp]: "fl 0 = 0"
  by (simp add: fl_def)

lemma fl_minus: "fl (- q) = - fl q"
  by (simp add: fl_def ulp_def round_even_minus)

lemma fl_nonneg: "0 \<le> q \<Longrightarrow> 0 \<le> fl q"
  using round_even_mono [of 0 "q / ulp q"] round_even_of_int [of 0]
  by (auto simp: fl_def intro!: mult_nonneg_nonneg)

text \<open>A multiple of the spacing at \<open>x\<close> is not crossed by rounding.\<close>

lemma fl_below:
  assumes "p / ulp x = of_int n" "x \<le> p"
  shows "fl x \<le> p"
proof -
  have p: "p = of_int n * ulp x"
    using assms(1) ulp_pos [of x] by (simp add: divide_eq_eq less_imp_neq [symmetric])
  have "round_even (x / ulp x) \<le> n"
    using round_even_mono [of "x / ulp x" "p / ulp x"] divide_right_mono [OF assms(2), of "ulp x"] assms(1) by simp
  then have "of_int (round_even (x / ulp x)) * ulp x \<le> p"
    unfolding p by (intro mult_right_mono) simp_all
  with assms show ?thesis by (simp add: fl_def)
qed

lemma fl_above:
  assumes "p / ulp x = of_int n" "p \<le> x"
  shows "p \<le> fl x"
  using fl_below [of "- p" "- x" "- n"] assms by (simp add: fl_minus ulp_def)

lemma pow2z_grid: "d \<le> k \<Longrightarrow> pow2z k / pow2z d = of_int (2 ^ nat (k - d))"
proof -
  assume d: "d \<le> k"
  have "pow2z k = pow2z (k - d) * pow2z d" by (simp flip: pow2z_add)
  then have "pow2z k / pow2z d = pow2z (k - d)"
    using pow2z_pos [of d] by (simp add: less_imp_neq [symmetric])
  with d show ?thesis by (simp add: pow2z_def)
qed

lemma fl_mono_pos:
  assumes "0 < x" "x \<le> y"
  shows "fl x \<le> fl y"
proof (cases "ulp x = ulp y")
  case True
  have "round_even (x / ulp y) \<le> round_even (y / ulp y)"
    using assms by (intro round_even_mono divide_right_mono) simp_all
  with assms True show ?thesis by (simp add: fl_def mult_right_mono)
next
  case False
  let ?e = "\<lambda>q. max (ilog2 q - 52) (- 1074)"
  have e: "ulp x = pow2z (?e x)" "ulp y = pow2z (?e y)" using assms by (simp_all add: ulp_def)
  have "?e x \<le> ?e y" using ilog2_mono [OF assms] by simp
  then have "?e x < ?e y" using False e by (metis le_less)
  then have lt: "ilog2 x < ilog2 y" "?e x \<le> ilog2 y" "?e y \<le> ilog2 y" by (auto simp: max_def split: if_splits)
  have "x < pow2z (ilog2 x + 1)" using ilog2_bounds assms by simp
  also have "\<dots> \<le> pow2z (ilog2 y)" using lt by (intro pow2z_mono) simp
  finally have "fl x \<le> pow2z (ilog2 y)"
    using fl_below [of "pow2z (ilog2 y)" x] pow2z_grid [OF lt(2)] e by simp
  also have "\<dots> \<le> fl y"
    using fl_above [of "pow2z (ilog2 y)" y] pow2z_grid [OF lt(3)] e ilog2_bounds [of y] assms by simp
  finally show ?thesis .
qed

lemma fl_mono: "x \<le> y \<Longrightarrow> fl x \<le> fl y"
proof -
  assume xy: "x \<le> y"
  consider "0 < x" | "x \<le> 0" "0 \<le> y" | "y < 0" by linarith
  then show ?thesis
  proof cases
    case 1 then show ?thesis using fl_mono_pos xy by simp
  next
    case 2 then show ?thesis using fl_nonneg [of y] fl_nonneg [of "- x"] by (simp add: fl_minus)
  next
    case 3 then show ?thesis using fl_mono_pos [of "- y" "- x"] xy by (simp add: fl_minus)
  qed
qed

lemma pow53: "pow2z 53 = of_int (2 ^ 53)"
  by (simp add: pow2z_def)

lemma fl_of_int:
  assumes "\<bar>n\<bar> < 2 ^ 53"
  shows "fl (of_int n) = of_int n"
proof -
  have pos: "fl (of_int m) = of_int m" if "0 < m" "m < 2 ^ 53" for m
  proof -
    have "(of_int m :: rat) < of_int (2 ^ 53)" using that by (simp only: of_int_less_iff)
    then have "pow2z (ilog2 (of_int m)) < pow2z 53"
      using ilog2_bounds [of "of_int m"] that unfolding pow53 by simp
    then have "ilog2 (of_int m) < 53" using pow2z_mono [of 53 "ilog2 (of_int m)"] by linarith
    then obtain k where k: "k = - max (ilog2 (of_int m) - 52) (- 1074)" "0 \<le> k" by simp
    then have u: "ulp (of_int m) = pow2z (- k)" using that by (simp add: ulp_def)
    have scale: "pow2z k * pow2z (- k) = 1" by (simp flip: pow2z_add add: pow2z_def)
    then have "of_int m / pow2z (- k) = of_int m * pow2z k"
      using pow2z_pos [of "- k"] by (simp add: divide_eq_eq less_imp_neq [symmetric] mult.assoc)
    also have "\<dots> = of_int (m * 2 ^ nat k)" using k by (simp add: pow2z_def)
    finally have "round_even (of_int m / pow2z (- k)) = m * 2 ^ nat k" by (simp only: round_even_of_int)
    then show ?thesis
      using that k scale by (simp add: fl_def u pow2z_def mult.assoc)
  qed
  show ?thesis
    using pos [of n] pos [of "- n"] assms fl_minus [of "of_int n"] by (cases n "0 :: int" rule: linorder_cases) auto
qed

lemma fl_large: "1 \<le> q \<Longrightarrow> 1 \<le> fl q \<and> fl q \<le> 2 * q"
proof -
  assume q: "1 \<le> q"
  have "0 \<le> ilog2 q" using ilog2_mono [of 1 q] q by (simp add: ilog2_def pow2z_def bitlen_def floorlog_def)
  then have "ulp q \<le> pow2z (ilog2 q)" using q unfolding ulp_def by (intro pow2z_mono) simp
  then have "ulp q \<le> q" using ilog2_bounds [of q] q by simp
  moreover have "\<bar>fl q - q\<bar> \<le> ulp q / 2" using fl_near q by simp
  moreover have "1 \<le> fl q" using fl_mono [OF q] fl_of_int [of 1] by simp
  ultimately show ?thesis using q by linarith
qed

section \<open>Ranges\<close>

fun between :: "rat \<Rightarrow> rat \<Rightarrow> float64 \<Rightarrow> bool" where
  "between lo hi (FNum q) \<longleftrightarrow> lo \<le> q \<and> q \<le> hi"
| "between lo hi (FZero s) \<longleftrightarrow> lo \<le> 0 \<and> 0 \<le> hi"
| "between lo hi _ \<longleftrightarrow> False"

lemma between_fval: "between lo hi x \<longleftrightarrow> \<not> is_nan x \<and> \<not> is_inf x \<and> lo \<le> fval x \<and> fval x \<le> hi"
  by (cases x) auto

lemma between_weaken: "between a b x \<Longrightarrow> lo \<le> a \<Longrightarrow> b \<le> hi \<Longrightarrow> between lo hi x"
  by (cases x) auto

lemma fround_between:
  assumes "of_int lo \<le> q" "q \<le> of_int hi" "\<bar>lo\<bar> < 2 ^ 53" "\<bar>hi\<bar> < 2 ^ 53"
  shows "between (of_int lo) (of_int hi) (fround s q)"
proof -
  have "of_int lo \<le> fl q" "fl q \<le> of_int hi"
    using fl_mono [OF assms(1)] fl_mono [OF assms(2)] fl_of_int assms(3,4) by simp_all
  moreover from this have "\<bar>fl q\<bar> \<le> of_int (max \<bar>lo\<bar> \<bar>hi\<bar>)" by (simp add: abs_le_iff max_def) linarith
  moreover have "(of_int (max \<bar>lo\<bar> \<bar>hi\<bar>) :: rat) < of_int (2 ^ 53)" using assms(3,4) by (simp only: of_int_less_iff)
  ultimately show ?thesis
    using assms(1,2) by (auto simp: fround_def Let_def)
qed

lemma fround_of_int: "n \<noteq> 0 \<Longrightarrow> \<bar>n\<bar> < 2 ^ 53 \<Longrightarrow> fround s (of_int n) = FNum (of_int n)"
proof -
  assume n: "n \<noteq> 0" "\<bar>n\<bar> < 2 ^ 53"
  have "\<bar>of_int n :: rat\<bar> < of_int (2 ^ 53)" using n by (simp only: of_int_less_iff flip: of_int_abs)
  then have "\<bar>of_int n :: rat\<bar> < 2 ^ 1024" by simp
  then show ?thesis using n fl_of_int [OF n(2)] by (simp add: fround_def Let_def)
qed

lemma fmul_between:
  assumes "between 0 1 x" "0 < n" "n < 2 ^ 53"
  shows "between 0 (of_int n) (fmul x (FNum (of_int n)))"
  using assms fround_between [of 0 "fval x * of_int n" n] mult_right_mono [of "fval x" 1 "of_int n"]
  by (auto simp: between_fval fmul_def Let_def)

lemma fdiv_between:
  assumes "between 0 (of_int n) x" "0 < n"
  shows "between 0 1 (fdiv x (FNum (of_int n)))"
  using assms fround_between [of 0 "fval x / of_int n" 1]
  by (auto simp: between_fval fdiv_def Let_def)

lemma round_away_mono: "x \<le> y \<Longrightarrow> round_away x \<le> round_away y"
  unfolding round_away_def by (auto intro!: floor_mono) linarith+

lemma round_away_of_int [simp]: "round_away (of_int n) = n"
  by (auto simp: round_away_def floor_unique)

lemma Round_between:
  assumes "between (of_int lo) (of_int hi) x"
  shows "between (of_int lo) (of_int hi) (math_Round x)"
  using assms round_away_mono [of "of_int lo" "fval x"] round_away_mono [of "fval x" "of_int hi"]
  by (cases x) (auto simp: Let_def)

section \<open>Order\<close>

lemma fless_irrefl [simp]: "\<not> fless x x"
  by (simp add: fless_def)

lemma fless_trans: "fless x y \<Longrightarrow> fless y z \<Longrightarrow> fless x z"
  by (auto simp: fless_def)

lemma feq_refl [simp]: "feq x x \<longleftrightarrow> \<not> is_nan x"
  by (simp add: feq_def)

lemma feq_sym: "feq x y \<Longrightarrow> feq y x"
  by (simp add: feq_def)

lemma feq_trans: "feq x y \<Longrightarrow> feq y z \<Longrightarrow> feq x z"
  by (simp add: feq_def)

lemma fless_feq: "fless x y \<Longrightarrow> feq y z \<Longrightarrow> fless x z" "feq x y \<Longrightarrow> fless y z \<Longrightarrow> fless x z"
  by (auto simp: fless_def feq_def)

lemma fless_linear: "\<not> is_nan x \<Longrightarrow> \<not> is_nan y \<Longrightarrow> fless x y \<or> feq x y \<or> fless y x"
  by (auto simp: fless_def feq_def prod_eq_iff)

lemma fless_not_feq: "fless x y \<Longrightarrow> \<not> feq x y"
  by (auto simp: fless_def feq_def)
end
