(* ===== verification/RecallScore.thy ===== *)
theory RecallScore
  imports Float64 "HOL-Library.Sublist"
begin

text \<open>
  The signals of recall: \<open>service/internal/texttokens\<close> and \<open>service/internal/recallscore\<close>.  Tokens
  are the maximal runs of ASCII letters and digits of the lower-cased text; the keyword score is one
  when the tokens of the query occur in the content in a row, and otherwise the share of the query's
  distinct tokens that occur.  \<open>exp2\<close> is \<open>math.Exp2\<close>, of which only the clamped value is used.
\<close>

section \<open>Tokens\<close>

text \<open>The maximal runs of bytes in \<open>P\<close>, as \<open>FindAllString\<close> of a class and \<open>FieldsFunc\<close> find them.\<close>

fun runs :: "(char \<Rightarrow> bool) \<Rightarrow> string \<Rightarrow> string \<Rightarrow> string list" where
  "runs P cur [] = (if cur = [] then [] else [rev cur])"
| "runs P cur (c # s) =
     (if P c then runs P (c # cur) s else (if cur = [] then [] else [rev cur]) @ runs P [] s)"

definition lower_alnum :: "char \<Rightarrow> bool" where
  "lower_alnum c \<longleftrightarrow> 97 \<le> byte c \<and> byte c \<le> 122 \<or> 48 \<le> byte c \<and> byte c \<le> 57"

definition LowerAlnum :: "(string \<Rightarrow> string) \<Rightarrow> string \<Rightarrow> string list" where
  "LowerAlnum ulow text = runs lower_alnum [] (to_lower ulow text)"

lemma runs_in: "t \<in> set (runs P cur s) \<Longrightarrow> list_all P cur \<Longrightarrow> t \<noteq> [] \<and> list_all P t"
  by (induction P cur s rule: runs.induct) (auto split: if_splits)

section \<open>Scores\<close>

definition tokenSequenceContains :: "string list \<Rightarrow> string list \<Rightarrow> bool" where
  "tokenSequenceContains contentTokens queryTokens \<longleftrightarrow>
     (if queryTokens = [] \<or> length contentTokens < length queryTokens then False
      else list_ex (\<lambda>start. take (length queryTokens) (drop start contentTokens) = queryTokens)
        [0..<length contentTokens - length queryTokens + 1])"

definition Clamp :: "float64 \<Rightarrow> float64" where
  "Clamp x = (if fless x (FZero False) then FZero False else if fless (flit 1) x then flit 1 else x)"

definition Round :: "float64 \<Rightarrow> float64" where
  "Round x = fdiv (math_Round (fmul x (flit 1000000))) (flit 1000000)"

definition Keyword :: "(string \<Rightarrow> string) \<Rightarrow> string \<Rightarrow> string \<Rightarrow> float64" where
  "Keyword ulow content query =
     (let query' = Lower ulow query in
      if query' = [] then FZero False
      else
        let contentTokensList = LowerAlnum ulow content; queryTokenSequence = LowerAlnum ulow query' in
        if tokenSequenceContains contentTokensList queryTokenSequence then flit 1
        else
          let queryTokens = UniqueTrimmed queryTokenSequence False in
          if queryTokens = [] then FZero False
          else
            let hits = length (filter (\<lambda>token. token \<in> set contentTokensList) queryTokens) in
            Clamp (fdiv (of_int64 (int hits)) (of_int64 (int (length queryTokens)))))"

text \<open>\<open>t.Sub(u)\<close> saturates at the ends of the 64-bit durations.\<close>

definition time_Sub :: "int \<Rightarrow> int \<Rightarrow> int" where
  "time_Sub t u = (if t - u < min_int64 then min_int64 else if max_int64 < t - u then max_int64 else t - u)"

definition Recency :: "(float64 \<Rightarrow> float64) \<Rightarrow> int \<Rightarrow> int \<Rightarrow> int \<Rightarrow> float64" where
  "Recency exp2 createdAt now halfLife =
     (if createdAt = zero_time \<or> now = zero_time \<or> halfLife \<le> 0 then FZero False
      else
        let age = time_Sub now createdAt in
        if age \<le> 0 then flit 1
        else
          let halfLives = fdiv (of_int64 age) (of_int64 halfLife) in
          Clamp (exp2 (fneg halfLives)))"

text \<open>Thirty days in nanoseconds.\<close>

definition DefaultDecayHalfLife :: int where
  "DefaultDecayHalfLife = 30 * 24 * 3600000000000"

section \<open>Ranges\<close>

abbreviation unit_score :: "float64 \<Rightarrow> bool" where
  "unit_score x \<equiv> between 0 1 x"

lemma flit_one [simp]: "flit 1 = FNum 1"
  using fround_of_int [of 1] by (simp add: flit_def)

lemma flit_million: "flit 1000000 = FNum 1000000"
  using fround_of_int [of 1000000] by (simp add: flit_def)

lemma Clamp_unit: "\<not> is_nan x \<Longrightarrow> unit_score (Clamp x)"
  by (cases x) (auto simp: Clamp_def fless_def split: if_splits)

lemma Clamp_nan [simp]: "Clamp FNaN = FNaN"
  by (simp add: Clamp_def fless_def)

lemma Clamp_id: "unit_score x \<Longrightarrow> Clamp x = x"
  by (cases x) (auto simp: Clamp_def fless_def)

lemma Round_unit: "unit_score x \<Longrightarrow> unit_score (Round x)"
proof -
  assume "unit_score x"
  then have "between 0 (of_int 1000000) (fmul x (FNum (of_int 1000000)))" by (rule fmul_between) simp_all
  then have "between 0 (of_int 1000000) (math_Round (fmul x (FNum (of_int 1000000))))"
    using Round_between [of 0 1000000] by simp
  then have "unit_score (fdiv (math_Round (fmul x (FNum (of_int 1000000)))) (FNum (of_int 1000000)))"
    by (rule fdiv_between) simp
  then show ?thesis by (simp add: Round_def flit_million)
qed

lemma Round_nan [simp]: "Round FNaN = FNaN"
  by (simp add: Round_def fmul_def fdiv_def)

lemma of_int64_zero [simp]: "of_int64 0 = FZero False"
  by (simp add: of_int64_def fround_def)

lemma of_int64_pos:
  assumes "0 < n" "n \<le> max_int64"
  shows "of_int64 n = FNum (fl (of_int n)) \<and> 1 \<le> fl (of_int n)"
proof -
  have "(1 :: rat) \<le> of_int n" using assms(1) by simp
  then have 1: "1 \<le> fl (of_int n)" "fl (of_int n) \<le> 2 * of_int n" using fl_large by blast+
  have "(2 * of_int n :: rat) = of_int (2 * n)" by simp
  also have "\<dots> < of_int (2 ^ 1024)" using assms(2) by (simp only: of_int_less_iff) (simp add: max_int64_def)
  finally have "(2 * of_int n :: rat) < of_int (2 ^ 1024)" .
  then have "fl (of_int n) < 2 ^ 1024" using 1 by simp
  then show ?thesis using 1 assms(1) by (simp add: of_int64_def fround_def Let_def)
qed

lemma share_unit:
  assumes "h \<le> n" "0 < n" "int n \<le> max_int64"
  shows "unit_score (fdiv (of_int64 (int h)) (of_int64 (int n)))"
proof (cases "h = 0")
  case True
  then show ?thesis
    using of_int64_pos [of "int n"] assms by (simp add: fdiv_def Let_def fround_def)
next
  case False
  then have "of_int64 (int h) = FNum (fl (of_nat h))" "1 \<le> fl (of_nat h)"
    using of_int64_pos [of "int h"] assms by simp_all
  moreover have "of_int64 (int n) = FNum (fl (of_nat n))" "1 \<le> fl (of_nat n)"
    using of_int64_pos [of "int n"] assms by simp_all
  moreover have "fl (of_nat h) \<le> fl (of_nat n)" using assms by (intro fl_mono) simp
  ultimately show ?thesis
    using fround_between [of 0 "fl (of_nat h) / fl (of_nat n)" 1] by (simp add: fdiv_def Let_def)
qed

lemma length_UniqueTrimmed: "length (UniqueTrimmed vs b) \<le> length vs"
proof -
  have "length (uniq (normalizedNonEmpty vs Space)) \<le> length (normalizedNonEmpty vs Space)" by (rule length_uniq_from)
  also have "\<dots> \<le> length (map Space vs)" unfolding normalizedNonEmpty_def by (rule length_filter_le)
  finally show ?thesis by (simp add: UniqueTrimmed_def Unique_def Let_def)
qed

lemma Keyword_unit:
  assumes "int (length (LowerAlnum ulow (Lower ulow query))) \<le> max_int64"
  shows "unit_score (Keyword ulow content query)"
proof -
  let ?q = "UniqueTrimmed (LowerAlnum ulow (Lower ulow query)) False"
  let ?h = "length (filter (\<lambda>token. token \<in> set (LowerAlnum ulow content)) ?q)"
  have "unit_score (fdiv (of_int64 (int ?h)) (of_int64 (int (length ?q))))" if "?q \<noteq> []"
    using that assms length_UniqueTrimmed [of "LowerAlnum ulow (Lower ulow query)" False]
    by (intro share_unit) auto
  then show ?thesis by (simp add: Keyword_def Let_def Clamp_id)
qed

text \<open>The window test is the sub-list relation.\<close>

lemma contains_sublist: "tokenSequenceContains ts qs \<longleftrightarrow> qs \<noteq> [] \<and> sublist qs ts"
proof
  assume "tokenSequenceContains ts qs"
  then have "\<exists>i. take (length qs) (drop i ts) = qs" "qs \<noteq> []"
    unfolding tokenSequenceContains_def list_ex_iff by (auto simp del: upt_Suc split: if_splits)
  then show "qs \<noteq> [] \<and> sublist qs ts"
    by (metis append_take_drop_id sublist_def)
next
  assume a: "qs \<noteq> [] \<and> sublist qs ts"
  then obtain ps ss where "ts = ps @ qs @ ss" by (auto simp: sublist_def)
  with a show "tokenSequenceContains ts qs"
    by (auto simp: tokenSequenceContains_def list_ex_iff intro!: bexI [of _ "length ps"])
qed

lemma Keyword_phrase:
  "LowerAlnum ulow (Lower ulow query) \<noteq> [] \<Longrightarrow> Lower ulow query \<noteq> []
    \<Longrightarrow> sublist (LowerAlnum ulow (Lower ulow query)) (LowerAlnum ulow content) \<Longrightarrow> Keyword ulow content query = FNum 1"
  by (simp add: Keyword_def contains_sublist)

lemma Recency_unit: "\<not> is_nan (exp2 (fneg (fdiv (of_int64 (time_Sub now createdAt)) (of_int64 h)))) \<Longrightarrow> unit_score (Recency exp2 createdAt now h)"
  by (simp add: Recency_def Let_def Clamp_unit)

end
