(* ===== verification/SearchFilter.thy ===== *)
theory SearchFilter
  imports Text
begin

text \<open>
  The search filters of \<open>internal/searchfilter\<close>: the grammar (\<open>grammar/parse.go\<close>) that turns a
  JSON-like map into an expression tree, the value conversions (\<open>values/values.go\<close>), and the
  compiler (\<open>compiler/compile.go\<close>) that turns the enforceable part of an expression into session and
  source sets.  A Go value of type \<open>any\<close> is \<open>any_value\<close>: nil, a scalar by the text \<open>fmt.Sprint\<close>
  gives it, a slice or array, or a map with its entries.  The meaning of an expression on a stored row
  is \<open>holds\<close>, the meaning of a compiled filter is \<open>admits\<close>.
\<close>

section \<open>Contracts\<close>

datatype Kind = KindAll | KindAnd | KindOr | KindNot | KindComparison

datatype Operator = OpEQ | OpGT | OpGTE | OpLT | OpLTE | OpNE | OpIn | OpContains | OpIContains | OpNone

datatype Expression = Expression (ex_Kind: Kind) (ex_Children: "Expression list") (ex_Field: string)
  (ex_Operator: Operator) (ex_Values: "string list")

record Compiled =
  SessionIDs :: "string list"
  Sources :: "string list"
  DenyAll :: bool

record UnsupportedFilterError =
  uf_Field :: string
  uf_Operator :: string
  uf_Reason :: string

definition NewUnsupportedFilter :: "string \<Rightarrow> string \<Rightarrow> string \<Rightarrow> UnsupportedFilterError" where
  "NewUnsupportedFilter field op reason =
     \<lparr>uf_Field = trim_chars [CHR ''.''] field, uf_Operator = op, uf_Reason = reason\<rparr>"

fun op_text :: "Operator \<Rightarrow> string" where
  "op_text OpEQ = ''eq''" | "op_text OpGT = ''gt''" | "op_text OpGTE = ''gte''" | "op_text OpLT = ''lt''"
| "op_text OpLTE = ''lte''" | "op_text OpNE = ''ne''" | "op_text OpIn = ''in''" | "op_text OpContains = ''contains''"
| "op_text OpIContains = ''icontains''" | "op_text OpNone = []"

definition supportedFilterOperators :: "Operator list" where
  "supportedFilterOperators = [OpEQ, OpGT, OpGTE, OpLT, OpLTE, OpNE, OpIn, OpContains, OpIContains]"

definition parseFilterOperator :: "string \<Rightarrow> Operator option" where
  "parseFilterOperator op = find (\<lambda>x. op_text x = op) supportedFilterOperators"

section \<open>Values\<close>

datatype any_value = VNil | VText string | VList "any_value list" | VMap "(string \<times> any_value) list"

text \<open>\<open>fmt.Sprint\<close>: lists in brackets, maps with their keys in order.\<close>

function Sprint :: "any_value \<Rightarrow> string" where
  "Sprint VNil = ''<nil>''"
| "Sprint (VText s) = s"
| "Sprint (VList xs) = ''['' @ join_with '' '' (map Sprint xs) @ '']''"
| "Sprint (VMap kvs) = ''map['' @ join_with '' '' (map (\<lambda>(k, v). k @ '':'' @ Sprint v) (sort_key fst kvs)) @ '']''"
  by pat_completeness auto
termination
proof (relation "measure size")
  fix kvs :: "(string \<times> any_value) list" and x k v
  assume "x \<in> set (sort_key fst kvs)" "(k, v) = x"
  then have "(k, v) \<in> set kvs" by simp
  then have "size v < Suc (size_list (size_prod (\<lambda>_. 0) size) kvs)" by (induction kvs) auto
  then show "(v, VMap kvs) \<in> measure size" by simp
qed (auto simp: less_Suc_eq_le size_list_estimation')

definition Scalar :: "any_value \<Rightarrow> string" where
  "Scalar v = (if v = VNil then [] else trim_space (Sprint v))"

fun Elements :: "any_value \<Rightarrow> any_value list option" where
  "Elements (VList xs) = Some xs"
| "Elements v = None"

definition FilterValues :: "any_value \<Rightarrow> Operator \<Rightarrow> string + string list" where
  "FilterValues v op =
     (if op = OpIn then (case Elements v of None \<Rightarrow> Inl ''in operator value must be a list'' | Some xs \<Rightarrow> Inr (map Scalar xs))
      else Inr [Scalar v])"

definition NormalizeEqualityValues :: "(string \<Rightarrow> string) \<Rightarrow> string list \<Rightarrow> bool \<Rightarrow> string list" where
  "NormalizeEqualityValues ulow raw lower =
     uniq (filter (\<lambda>v. v \<noteq> []) (map (\<lambda>v. let t = trim_space v in if lower then to_lower ulow t else t) raw))"

section \<open>Grammar\<close>

text \<open>A loop that stops at the first error.\<close>

fun mapM :: "('a \<Rightarrow> 'e + 'b) \<Rightarrow> 'a list \<Rightarrow> 'e + 'b list" where
  "mapM f [] = Inr []"
| "mapM f (x # xs) = (case f x of Inl e \<Rightarrow> Inl e
     | Inr y \<Rightarrow> (case mapM f xs of Inl e \<Rightarrow> Inl e | Inr ys \<Rightarrow> Inr (y # ys)))"

lemma mapM_cong [fundef_cong]:
  "xs = ys \<Longrightarrow> (\<And>x. x \<in> set ys \<Longrightarrow> f x = g x) \<Longrightarrow> mapM f xs = mapM g ys"
  by (induction ys arbitrary: xs) (auto cong: sum.case_cong)

lemma mapM_Inr: "mapM f xs = Inr ys \<longleftrightarrow> list_all2 (\<lambda>x y. f x = Inr y) xs ys"
proof (induction xs arbitrary: ys)
  case (Cons x xs)
  show ?case by (cases "f x"; cases "mapM f xs") (auto simp: list_all2_Cons1 Cons.IH [symmetric])
qed auto

definition comparison :: "string \<Rightarrow> Operator \<Rightarrow> string list \<Rightarrow> Expression" where
  "comparison field op vs = Expression KindComparison [] field op vs"

definition allExpression :: Expression where
  "allExpression = Expression KindAll [] [] OpNone []"

definition collapseImplicitAnd :: "Expression list \<Rightarrow> Expression" where
  "collapseImplicitAnd children =
     (case children of [] \<Rightarrow> allExpression | [c] \<Rightarrow> c | _ \<Rightarrow> Expression KindAnd children [] OpNone [])"

definition dotted :: "string list \<Rightarrow> string" where
  "dotted path = join_with ''.'' path"

definition parseOperatorConditions :: "string \<Rightarrow> (string \<times> any_value) list \<Rightarrow> UnsupportedFilterError + Expression" where
  "parseOperatorConditions field rawOps =
     (if rawOps = [] then Inl (NewUnsupportedFilter field [] ''operator map must not be empty'')
      else case mapM (\<lambda>(rawOp, rawValue).
          case parseFilterOperator rawOp of
            None \<Rightarrow> Inl (NewUnsupportedFilter field rawOp ''unknown filter operator'')
          | Some op \<Rightarrow> (case FilterValues rawValue op of
              Inl e \<Rightarrow> Inl (NewUnsupportedFilter field rawOp e)
            | Inr vs \<Rightarrow> Inr (comparison field op vs))) (sort_key fst rawOps) of
        Inl e \<Rightarrow> Inl e | Inr children \<Rightarrow> Inr (collapseImplicitAnd children))"

definition parseFieldCondition :: "string \<Rightarrow> any_value \<Rightarrow> UnsupportedFilterError + Expression" where
  "parseFieldCondition field v =
     (case v of
        VMap rawOps \<Rightarrow> parseOperatorConditions field rawOps
      | _ \<Rightarrow> (case FilterValues v OpEQ of
          Inl e \<Rightarrow> Inl (NewUnsupportedFilter field ''eq'' e)
        | Inr vs \<Rightarrow> Inr (comparison field OpEQ vs)))"

datatype operatorMapClassification = ClEmpty | ClValid | ClMixed string | ClFields

definition classifyOperatorMap :: "(string \<times> any_value) list \<Rightarrow> operatorMapClassification" where
  "classifyOperatorMap raw =
     (if raw = [] then ClEmpty
      else let keys = map fst (sort_key fst raw);
               known = filter (\<lambda>k. parseFilterOperator k \<noteq> None) keys;
               unknown = filter (\<lambda>k. parseFilterOperator k = None) keys in
        if length known = length raw then ClValid
        else if known \<noteq> [] then ClMixed (case filter (\<lambda>k. k \<noteq> []) unknown of [] \<Rightarrow> [] | k # _ \<Rightarrow> k)
        else ClFields)"

lemma size_entry: "(k, v) \<in> set kvs \<Longrightarrow> size v < size_list (size_prod (\<lambda>_. 0) size) kvs"
  by (induction kvs) auto

lemma size_item: "x \<in> set xs \<Longrightarrow> size x < size_list size xs"
  by (induction xs) auto

text \<open>A value that is not a map is a condition; a map is one, or a nested object of fields.\<close>

function parseMetadataMap :: "(string \<times> any_value) list \<Rightarrow> string list \<Rightarrow> UnsupportedFilterError + Expression" where
  "parseMetadataMap raw path =
     (case mapM (\<lambda>(key, v).
        let fieldPath = path @ [key] in
        (case v of
           VMap nested \<Rightarrow>
             (case classifyOperatorMap nested of
                ClEmpty \<Rightarrow> Inl (NewUnsupportedFilter (dotted fieldPath) [] ''operator map must not be empty'')
              | ClMixed u \<Rightarrow> Inl (NewUnsupportedFilter (dotted fieldPath) u ''unknown filter operator'')
              | ClFields \<Rightarrow> parseMetadataMap nested fieldPath
              | ClValid \<Rightarrow> parseFieldCondition (dotted fieldPath) v)
         | _ \<Rightarrow> parseFieldCondition (dotted fieldPath) v)) (sort_key fst raw) of
        Inl e \<Rightarrow> Inl e | Inr children \<Rightarrow> Inr (collapseImplicitAnd children))"
  by pat_completeness auto

termination
proof (relation "measure (\<lambda>(raw, path). size_list (size_prod (\<lambda>_. 0) size) raw)")
  fix raw :: "(string \<times> any_value) list" and path :: "string list" and x key v nested fieldPath
  assume a: "x \<in> set (sort_key fst raw)" "(key, v) = x" "v = VMap nested"
  then have "(key, VMap nested) \<in> set raw" by auto
  from size_entry [OF this]
  show "((nested, fieldPath), raw, path) \<in> measure (\<lambda>(raw, path). size_list (size_prod (\<lambda>_. 0) size) raw)" by simp
qed auto

declare parseMetadataMap.simps [simp del]

definition parseMetadataFilter :: "any_value \<Rightarrow> UnsupportedFilterError + Expression" where
  "parseMetadataFilter v =
     (case v of
        VMap raw \<Rightarrow> parseMetadataMap raw [''metadata'']
      | _ \<Rightarrow> Inl (NewUnsupportedFilter ''metadata'' [] ''metadata filter must be an object''))"

definition isSupportedTopLevelFilterField :: "string \<Rightarrow> bool" where
  "isSupportedTopLevelFilterField field \<longleftrightarrow>
     field \<in> {''session_id'', ''peer_id'', ''source'', ''created_at'', ''content''}"

definition logicalKind :: "string \<Rightarrow> Kind" where
  "logicalKind key = (if key = ''AND'' then KindAnd else if key = ''OR'' then KindOr else KindNot)"

text \<open>\<open>parseFilterMap\<close> with \<open>parseLogicalFilter\<close> in place.\<close>

function parseFilterMap :: "(string \<times> any_value) list \<Rightarrow> string list \<Rightarrow> UnsupportedFilterError + Expression" where
  "parseFilterMap raw path =
     (if raw = [] then Inr allExpression
      else case mapM (\<lambda>(key, v).
          if key \<in> {''AND'', ''OR'', ''NOT''} then
            (case v of
               VList items \<Rightarrow>
                 (case mapM (\<lambda>item. case item of
                      VMap m \<Rightarrow> parseFilterMap m path
                    | _ \<Rightarrow> Inl (NewUnsupportedFilter (dotted path) key ''logical filter child must be an object'')) items of
                    Inl e \<Rightarrow> Inl e
                  | Inr children \<Rightarrow> Inr (Expression (logicalKind key) children [] OpNone []))
             | _ \<Rightarrow> Inl (NewUnsupportedFilter (dotted path) key ''logical filter value must be a list''))
          else if key = ''metadata'' then parseMetadataFilter v
          else if path = [] \<and> \<not> isSupportedTopLevelFilterField key
            then Inl (NewUnsupportedFilter key [] ''unknown filter field'')
          else parseFieldCondition (dotted (path @ [key])) v) (sort_key fst raw) of
        Inl e \<Rightarrow> Inl e | Inr children \<Rightarrow> Inr (collapseImplicitAnd children))"
  by pat_completeness auto

termination
proof (relation "measure (\<lambda>(raw, path). size_list (size_prod (\<lambda>_. 0) size) raw)")
  fix raw :: "(string \<times> any_value) list" and path :: "string list" and x key v items item m
  assume a: "x \<in> set (sort_key fst raw)" "(key, v) = x" "v = VList items" "item \<in> set items" "item = VMap m"
  then have "(key, VList items) \<in> set raw" by auto
  from size_entry [OF this] size_item [OF a(4)] a(5)
  show "((m, path), raw, path) \<in> measure (\<lambda>(raw, path). size_list (size_prod (\<lambda>_. 0) size) raw)" by simp
qed auto

declare parseFilterMap.simps [simp del]

definition Parse :: "(string \<times> any_value) list \<Rightarrow> UnsupportedFilterError + Expression" where
  "Parse raw = (if raw = [] then Inr allExpression else parseFilterMap raw [])"

fun FlattenComparisons :: "Expression \<Rightarrow> Expression list" where
  "FlattenComparisons (Expression k cs f op vs) =
     (if k = KindComparison then [Expression k cs f op vs] else concat (map FlattenComparisons cs))"

section \<open>Compiler\<close>

definition peerFilterMatches :: "string list \<Rightarrow> string \<Rightarrow> bool" where
  "peerFilterMatches vs peer \<longleftrightarrow> list_ex (\<lambda>v. trim_space v = ''*'' \<or> trim_space v = trim_space peer) vs"

definition intersectFilterValues :: "string list \<Rightarrow> string list \<Rightarrow> string list \<times> bool" where
  "intersectFilterValues a b =
     (if a = [] then (b, False)
      else if b = [] then (a, False)
      else if ''*'' \<in> set a then (b, False)
      else if ''*'' \<in> set b then (a, False)
      else let out = uniq (filter (\<lambda>l. l \<in> set b) a) in (out, out = []))"

definition emptyCompiled :: Compiled where
  "emptyCompiled = \<lparr>SessionIDs = [], Sources = [], DenyAll = False\<rparr>"

definition denyCompiled :: Compiled where
  "denyCompiled = \<lparr>SessionIDs = [], Sources = [], DenyAll = True\<rparr>"

definition mergeCompiledSearchFilters :: "Compiled \<Rightarrow> Compiled \<Rightarrow> Compiled" where
  "mergeCompiledSearchFilters a b =
     (if DenyAll a \<or> DenyAll b then denyCompiled
      else case intersectFilterValues (SessionIDs a) (SessionIDs b) of (sessionIDs, denySessions) \<Rightarrow>
        (case intersectFilterValues (Sources a) (Sources b) of (sources, denySources) \<Rightarrow>
           if denySessions \<or> denySources then denyCompiled
           else \<lparr>SessionIDs = sessionIDs, Sources = sources, DenyAll = False\<rparr>))"

definition compileEqualityFilterValues :: "(string \<Rightarrow> string) \<Rightarrow> string \<Rightarrow> Operator \<Rightarrow> string list \<Rightarrow> bool
    \<Rightarrow> UnsupportedFilterError + string list" where
  "compileEqualityFilterValues ulow field op vs lower =
     (if op \<noteq> OpEQ \<and> op \<noteq> OpIn
      then Inl (NewUnsupportedFilter field (op_text op) (field @ '' only supports equality, in, and wildcard filters''))
      else Inr (NormalizeEqualityValues ulow vs lower))"

definition compileComparisonFilter :: "(string \<Rightarrow> string) \<Rightarrow> string \<Rightarrow> Operator \<Rightarrow> string list \<Rightarrow> string
    \<Rightarrow> UnsupportedFilterError + Compiled" where
  "compileComparisonFilter ulow field op vs peer =
     (if field = ''session_id'' then
        (case compileEqualityFilterValues ulow field op vs False of
           Inl e \<Rightarrow> Inl e
         | Inr vset \<Rightarrow> Inr (if vset = [] then denyCompiled else emptyCompiled\<lparr>SessionIDs := vset\<rparr>))
      else if field = ''source'' then
        (case compileEqualityFilterValues ulow field op vs True of
           Inl e \<Rightarrow> Inl e
         | Inr vset \<Rightarrow> Inr (if vset = [] then denyCompiled else emptyCompiled\<lparr>Sources := vset\<rparr>))
      else if field = ''peer_id'' then
        (case compileEqualityFilterValues ulow field op vs False of
           Inl e \<Rightarrow> Inl e
         | Inr vset \<Rightarrow> Inr (if vset = [] then denyCompiled
              else if peerFilterMatches vset peer then emptyCompiled else denyCompiled))
      else if field = ''created_at'' \<or> field = ''content'' then
        Inl (NewUnsupportedFilter field (op_text op) ''field is parsed but not enforceable by the current search index'')
      else if has_prefix field ''metadata.'' then
        Inl (NewUnsupportedFilter field (op_text op) ''metadata filters require a metadata index'')
      else Inl (NewUnsupportedFilter field (op_text op) ''unknown filter field''))"

fun Compile :: "(string \<Rightarrow> string) \<Rightarrow> Expression \<Rightarrow> string \<Rightarrow> UnsupportedFilterError + Compiled" where
  "Compile ulow (Expression k cs field op vs) peer =
     (case k of
        KindAll \<Rightarrow> Inr emptyCompiled
      | KindAnd \<Rightarrow> (case mapM (\<lambda>c. Compile ulow c peer) cs of
          Inl e \<Rightarrow> Inl e
        | Inr outs \<Rightarrow> Inr (foldl mergeCompiledSearchFilters emptyCompiled outs))
      | KindOr \<Rightarrow> Inl (NewUnsupportedFilter [] ''OR'' ''OR filters are parsed but not enforceable by the current search index'')
      | KindNot \<Rightarrow> Inl (NewUnsupportedFilter [] ''NOT'' ''NOT filters are parsed but not enforceable by the current search index'')
      | KindComparison \<Rightarrow> compileComparisonFilter ulow field op vs peer)"

definition ParseAndCompile :: "(string \<Rightarrow> string) \<Rightarrow> (string \<times> any_value) list \<Rightarrow> string \<Rightarrow> UnsupportedFilterError + Compiled" where
  "ParseAndCompile ulow raw peer = (case Parse raw of Inl e \<Rightarrow> Inl e | Inr expr \<Rightarrow> Compile ulow expr peer)"

definition MergeSources :: "(string \<Rightarrow> string) \<Rightarrow> string list \<Rightarrow> string list \<Rightarrow> string list \<times> bool" where
  "MergeSources ulow paramsSources filterSources =
     (case intersectFilterValues (NormalizeEqualityValues ulow paramsSources True) (NormalizeEqualityValues ulow filterSources True) of
        (merged, deny) \<Rightarrow> if deny then ([], True) else if ''*'' \<in> set merged then ([], False) else (merged, False))"

definition HasWildcard :: "string list \<Rightarrow> bool" where
  "HasWildcard vs \<longleftrightarrow> list_ex (\<lambda>v. trim_space v = ''*'') vs"


section \<open>Limits\<close>

definition NormalizeSearchLimit :: "int \<Rightarrow> int" where
  "NormalizeSearchLimit limit = (if limit \<le> 0 then 10 else if limit > 100 then 100 else limit)"

section \<open>What an expression means\<close>

text \<open>
  A row is given by its session id and its source; a search is made on behalf of one peer.  A list of
  values matches when one of them, trimmed (and lowered, for sources), is the wildcard or the row's value;
  blank values match nothing.
\<close>

definition matches :: "(string \<Rightarrow> string) \<Rightarrow> string list \<Rightarrow> string \<Rightarrow> bool" where
  "matches norm vs x \<longleftrightarrow> (\<exists>v\<in>set vs. norm v \<noteq> [] \<and> (norm v = ''*'' \<or> norm v = x))"

definition source_norm :: "(string \<Rightarrow> string) \<Rightarrow> string \<Rightarrow> string" where
  "source_norm ulow v = to_lower ulow (trim_space v)"

fun holds :: "(string \<Rightarrow> string) \<Rightarrow> string \<Rightarrow> string \<Rightarrow> string \<Rightarrow> Expression \<Rightarrow> bool" where
  "holds ulow peer sid src (Expression k cs field op vs) =
     (case k of
        KindAll \<Rightarrow> True
      | KindAnd \<Rightarrow> (\<forall>c\<in>set cs. holds ulow peer sid src c)
      | KindOr \<Rightarrow> (\<exists>c\<in>set cs. holds ulow peer sid src c)
      | KindNot \<Rightarrow> \<not> (\<exists>c\<in>set cs. holds ulow peer sid src c)
      | KindComparison \<Rightarrow>
          (if field = ''session_id'' then matches trim_space vs sid
           else if field = ''source'' then matches (source_norm ulow) vs src
           else if field = ''peer_id'' then matches trim_space vs (trim_space peer)
           else False))"

text \<open>The \<open>IN\<close> clause of the search query: no values and a wildcard restrict nothing.\<close>

definition vals_admit :: "string list \<Rightarrow> string \<Rightarrow> bool" where
  "vals_admit vs x \<longleftrightarrow> vs = [] \<or> ''*'' \<in> set vs \<or> x \<in> set vs"

definition admits :: "Compiled \<Rightarrow> string \<Rightarrow> string \<Rightarrow> bool" where
  "admits c sid src \<longleftrightarrow> \<not> DenyAll c \<and> vals_admit (SessionIDs c) sid \<and> vals_admit (Sources c) src"

fun enforceable :: "Expression \<Rightarrow> bool" where
  "enforceable (Expression k cs field op vs) =
     (case k of
        KindAll \<Rightarrow> True
      | KindAnd \<Rightarrow> (\<forall>c\<in>set cs. enforceable c)
      | KindComparison \<Rightarrow> field \<in> {''session_id'', ''source'', ''peer_id''} \<and> op \<in> {OpEQ, OpIn}
      | _ \<Rightarrow> False)"

lemma intersect_admits:
  assumes "intersectFilterValues a b = (out, deny)"
  shows "\<not> deny \<and> vals_admit out x \<longleftrightarrow> vals_admit a x \<and> vals_admit b x"
  using assms unfolding intersectFilterValues_def vals_admit_def Let_def
  by (auto split: if_splits simp: filter_empty_conv)

lemma merge_admits: "admits (mergeCompiledSearchFilters a b) sid src \<longleftrightarrow> admits a sid src \<and> admits b sid src"
proof -
  obtain so sd where s: "intersectFilterValues (SessionIDs a) (SessionIDs b) = (so, sd)" by force
  obtain ro rd where r: "intersectFilterValues (Sources a) (Sources b) = (ro, rd)" by force
  show ?thesis
    using intersect_admits [OF s, of sid] intersect_admits [OF r, of src] s r
    by (auto simp: mergeCompiledSearchFilters_def admits_def denyCompiled_def)
qed

lemma empty_admits [simp]: "admits emptyCompiled sid src"
  by (simp add: admits_def emptyCompiled_def vals_admit_def)

lemma deny_admits [simp]: "\<not> admits denyCompiled sid src"
  by (simp add: admits_def denyCompiled_def)

lemma fold_merge_admits:
  "admits (foldl mergeCompiledSearchFilters c cs) sid src \<longleftrightarrow> admits c sid src \<and> (\<forall>d\<in>set cs. admits d sid src)"
  by (induction cs arbitrary: c) (auto simp: merge_admits)

lemma set_NormalizeEqualityValues:
  "set (NormalizeEqualityValues ulow vs lower)
     = {t. t \<noteq> [] \<and> (\<exists>v\<in>set vs. t = (if lower then source_norm ulow v else trim_space v))}"
  by (auto simp: NormalizeEqualityValues_def source_norm_def Let_def)

lemma matches_normalized:
  "matches (if lower then source_norm ulow else trim_space) vs x
     \<longleftrightarrow> (let ns = set (NormalizeEqualityValues ulow vs lower) in ''*'' \<in> ns \<or> x \<in> ns)"
proof -
  let ?f = "if lower then source_norm ulow else trim_space"
  have n: "set (NormalizeEqualityValues ulow vs lower) = {t. t \<noteq> [] \<and> (\<exists>v\<in>set vs. t = ?f v)}"
    by (simp add: set_NormalizeEqualityValues)
  have star: "''*'' \<noteq> ([] :: string)" by simp
  show ?thesis unfolding matches_def n Let_def mem_Collect_eq using star by metis
qed

lemma normalized_admits:
  "NormalizeEqualityValues ulow vs lower \<noteq> [] \<Longrightarrow>
   vals_admit (NormalizeEqualityValues ulow vs lower) x
     \<longleftrightarrow> matches (if lower then source_norm ulow else trim_space) vs x"
  by (simp add: vals_admit_def matches_normalized Let_def)

lemma normalized_empty:
  "NormalizeEqualityValues ulow vs lower = [] \<Longrightarrow> \<not> matches (if lower then source_norm ulow else trim_space) vs x"
  by (simp add: matches_normalized)

lemma comparison_admits:
  assumes "compileComparisonFilter ulow field op vs peer = Inr c"
  shows "admits c sid src \<longleftrightarrow> holds ulow peer sid src (Expression KindComparison cs field op vs)"
proof -
  have s: "admits (emptyCompiled\<lparr>SessionIDs := ns\<rparr>) sid src \<longleftrightarrow> vals_admit ns sid" for ns
    by (simp add: admits_def emptyCompiled_def vals_admit_def)
  have r: "admits (emptyCompiled\<lparr>Sources := ns\<rparr>) sid src \<longleftrightarrow> vals_admit ns src" for ns
    by (simp add: admits_def emptyCompiled_def vals_admit_def)
  have p: "peerFilterMatches (NormalizeEqualityValues ulow vs False) peer \<longleftrightarrow> matches trim_space vs (trim_space peer)"
  proof -
    have "v \<in> set (NormalizeEqualityValues ulow vs False) \<Longrightarrow> trim_space v = v" for v
      by (auto simp: set_NormalizeEqualityValues)
    then have "peerFilterMatches (NormalizeEqualityValues ulow vs False) peer \<longleftrightarrow>
        (let ns = set (NormalizeEqualityValues ulow vs False) in ''*'' \<in> ns \<or> trim_space peer \<in> ns)"
      unfolding peerFilterMatches_def Let_def list_ex_iff by metis
    with matches_normalized [of False ulow vs "trim_space peer"] show ?thesis by simp
  qed
  show ?thesis
    using assms normalized_admits [of ulow vs False] normalized_empty [of ulow vs False]
      normalized_admits [of ulow vs True] normalized_empty [of ulow vs True]
    by (auto simp: compileComparisonFilter_def compileEqualityFilterValues_def s r p split: if_splits)
qed

lemma Compile_admits:
  "Compile ulow e peer = Inr c \<Longrightarrow> admits c sid src \<longleftrightarrow> holds ulow peer sid src e"
proof (induction ulow e peer arbitrary: c rule: Compile.induct)
  case (1 ulow k cs field op vs peer)
  show ?case
  proof (cases k)
    case KindAnd
    with "1.prems" obtain outs where m: "mapM (\<lambda>c. Compile ulow c peer) cs = Inr outs"
      and c: "c = foldl mergeCompiledSearchFilters emptyCompiled outs" by (auto split: sum.splits)
    have "list_all2 (\<lambda>e d. Compile ulow e peer = Inr d) cs outs" using m by (simp add: mapM_Inr)
    then have "list_all2 (\<lambda>e d. admits d sid src \<longleftrightarrow> holds ulow peer sid src e) cs outs"
      by (rule list.rel_mono_strong) (use "1.IH" KindAnd in blast)
    then have "(\<forall>d\<in>set outs. admits d sid src) \<longleftrightarrow> (\<forall>e\<in>set cs. holds ulow peer sid src e)"
      by (induction rule: list_all2_induct) auto
    with KindAnd c show ?thesis by (simp add: fold_merge_admits)
  next
    case KindComparison
    with "1.prems" comparison_admits [of ulow field op vs peer c sid src cs] show ?thesis by simp
  qed (use "1.prems" in auto)
qed

lemma mapM_succeeds: "(\<exists>ys. mapM f xs = Inr ys) \<longleftrightarrow> (\<forall>x\<in>set xs. \<exists>y. f x = Inr y)"
  by (induction xs) (auto split: sum.splits)

lemma Compile_succeeds: "(\<exists>c. Compile ulow e peer = Inr c) \<longleftrightarrow> enforceable e"
proof (induction ulow e peer rule: Compile.induct)
  case (1 ulow k cs field op vs peer)
  show ?case
  proof (cases k)
    case KindAnd
    then have "(\<exists>c. Compile ulow (Expression k cs field op vs) peer = Inr c)
        \<longleftrightarrow> (\<exists>outs. mapM (\<lambda>c. Compile ulow c peer) cs = Inr outs)" by (auto split: sum.splits)
    also have "\<dots> \<longleftrightarrow> (\<forall>c\<in>set cs. enforceable c)" using "1.IH" KindAnd by (simp add: mapM_succeeds)
    finally show ?thesis using KindAnd by simp
  next
    case KindComparison
    then show ?thesis
      by (simp add: compileComparisonFilter_def compileEqualityFilterValues_def)
  qed auto
qed

section \<open>What the grammar produces\<close>

definition parsed_field :: "string \<Rightarrow> bool" where
  "parsed_field f \<longleftrightarrow> isSupportedTopLevelFilterField f \<or> has_prefix f ''metadata.''"

definition parsed_comparison :: "Expression \<Rightarrow> bool" where
  "parsed_comparison e \<longleftrightarrow> ex_Kind e = KindComparison \<and> parsed_field (ex_Field e)
     \<and> ex_Operator e \<in> set supportedFilterOperators \<and> (ex_Operator e \<noteq> OpIn \<longrightarrow> length (ex_Values e) = 1)"

definition parsed_ok :: "Expression \<Rightarrow> bool" where
  "parsed_ok e \<longleftrightarrow> (\<forall>c\<in>set (FlattenComparisons e). parsed_comparison c)"

lemma parsed_ok_collapse: "parsed_ok (collapseImplicitAnd cs) \<longleftrightarrow> (\<forall>c\<in>set cs. parsed_ok c)"
proof -
  have "set (FlattenComparisons (collapseImplicitAnd cs)) = (\<Union>c\<in>set cs. set (FlattenComparisons c))"
    by (auto simp: collapseImplicitAnd_def allExpression_def split: list.splits)
  then show ?thesis by (auto simp: parsed_ok_def)
qed

lemma parsed_ok_all [simp]: "parsed_ok allExpression"
  by (simp add: parsed_ok_def allExpression_def)

lemma parsed_ok_logical: "k \<noteq> KindComparison \<Longrightarrow> parsed_ok (Expression k cs f op vs) \<longleftrightarrow> (\<forall>c\<in>set cs. parsed_ok c)"
  by (auto simp: parsed_ok_def)

lemma parsed_ok_comparison:
  "parsed_ok (comparison f op vs) \<longleftrightarrow> parsed_field f \<and> op \<in> set supportedFilterOperators \<and> (op \<noteq> OpIn \<longrightarrow> length vs = 1)"
  by (simp add: parsed_ok_def parsed_comparison_def comparison_def)

lemma FilterValues_length: "FilterValues v op = Inr vs \<Longrightarrow> op \<noteq> OpIn \<Longrightarrow> length vs = 1"
  by (auto simp: FilterValues_def)

lemma parseFilterOperator_supported: "parseFilterOperator s = Some op \<Longrightarrow> op \<in> set supportedFilterOperators"
  by (auto simp: parseFilterOperator_def find_Some_iff)

lemma mapM_all:
  assumes "mapM f xs = Inr ys" "\<And>x y. x \<in> set xs \<Longrightarrow> f x = Inr y \<Longrightarrow> P y"
  shows "\<forall>y\<in>set ys. P y"
proof -
  from assms(1) have "list_all2 (\<lambda>x y. f x = Inr y) xs ys" by (simp add: mapM_Inr)
  then have "\<forall>y\<in>set ys. \<exists>x\<in>set xs. f x = Inr y" by (induction rule: list_all2_induct) auto
  with assms(2) show ?thesis by blast
qed

lemma parseOperatorConditions_ok:
  assumes "parseOperatorConditions f ops = Inr e" "parsed_field f"
  shows "parsed_ok e"
proof -
  let ?step = "\<lambda>(rawOp, rawValue).
          case parseFilterOperator rawOp of
            None \<Rightarrow> Inl (NewUnsupportedFilter f rawOp ''unknown filter operator'')
          | Some op \<Rightarrow> (case FilterValues rawValue op of
              Inl e \<Rightarrow> Inl (NewUnsupportedFilter f rawOp e)
            | Inr vs \<Rightarrow> Inr (comparison f op vs))"
  obtain cs where m: "mapM ?step (sort_key fst ops) = Inr cs" and e: "e = collapseImplicitAnd cs"
    using assms(1) by (auto simp: parseOperatorConditions_def split: if_splits sum.splits)
  from m have "\<forall>c\<in>set cs. parsed_ok c"
    by (rule mapM_all) (use assms(2) in \<open>auto simp: parsed_ok_comparison FilterValues_length
        parseFilterOperator_supported split: option.splits sum.splits prod.splits\<close>)
  with e show ?thesis by (simp add: parsed_ok_collapse)
qed

lemma parseFieldCondition_ok:
  assumes "parseFieldCondition f v = Inr e" "parsed_field f"
  shows "parsed_ok e"
proof (cases v)
  case (VMap ops)
  then show ?thesis using assms parseOperatorConditions_ok by (simp add: parseFieldCondition_def)
qed (use assms in \<open>auto simp: parseFieldCondition_def parsed_ok_comparison FilterValues_def supportedFilterOperators_def\<close>)

lemma dotted_prefix: "has_prefix (dotted ((''metadata'' # ks) @ [k])) ''metadata.''"
  by (cases ks) (auto simp: dotted_def has_prefix_def)

lemma parseMetadataMap_ok:
  "parseMetadataMap raw (''metadata'' # ks) = Inr e \<Longrightarrow> parsed_ok e"
proof (induction raw "''metadata'' # ks" arbitrary: ks e rule: parseMetadataMap.induct)
  case (1 raw)
  let ?step = "\<lambda>(key, v).
        let fieldPath = (''metadata'' # ks) @ [key] in
        (case v of
           VMap nested \<Rightarrow>
             (case classifyOperatorMap nested of
                ClEmpty \<Rightarrow> Inl (NewUnsupportedFilter (dotted fieldPath) [] ''operator map must not be empty'')
              | ClMixed u \<Rightarrow> Inl (NewUnsupportedFilter (dotted fieldPath) u ''unknown filter operator'')
              | ClFields \<Rightarrow> parseMetadataMap nested fieldPath
              | ClValid \<Rightarrow> parseFieldCondition (dotted fieldPath) v)
         | _ \<Rightarrow> parseFieldCondition (dotted fieldPath) v)"
  obtain cs where m: "mapM ?step (sort_key fst raw) = Inr cs" and e: "e = collapseImplicitAnd cs"
    using "1.prems" by (subst (asm) parseMetadataMap.simps) (auto split: sum.splits)
  have field: "parsed_field (dotted (''metadata'' # ks @ [k]))" for k
    using dotted_prefix [of ks k] by (simp add: parsed_field_def)
  from m have "\<forall>c\<in>set cs. parsed_ok c"
  proof (rule mapM_all)
    fix x y assume x: "x \<in> set (sort_key fst raw)" and y: "?step x = Inr y"
    obtain k v where kv: "x = (k, v)" by force
    show "parsed_ok y"
    proof (cases "\<exists>nested. v = VMap nested \<and> classifyOperatorMap nested = ClFields")
      case True
      then obtain nested where n: "v = VMap nested" "classifyOperatorMap nested = ClFields" by blast
      with y kv have "parseMetadataMap nested (''metadata'' # ks @ [k]) = Inr y" by simp
      with "1.hyps" [OF x kv [symmetric] _ n, of "ks @ [k]" y] show ?thesis by simp
    next
      case False
      with y kv have "parseFieldCondition (dotted (''metadata'' # ks @ [k])) v = Inr y"
        by (cases v) (auto simp: Let_def split: operatorMapClassification.splits)
      with field show ?thesis by (blast intro: parseFieldCondition_ok)
    qed
  qed
  with e show ?case by (simp add: parsed_ok_collapse)
qed

lemma parseMetadataFilter_ok: "parseMetadataFilter v = Inr e \<Longrightarrow> parsed_ok e"
  using parseMetadataMap_ok [where ks = "[]"] by (cases v) (auto simp: parseMetadataFilter_def)

lemma parseFilterMap_ok: "parseFilterMap raw [] = Inr e \<Longrightarrow> parsed_ok e"
proof (induction raw "[] :: string list" arbitrary: e rule: parseFilterMap.induct)
  case (1 raw)
  let ?child = "\<lambda>key item. case item of
                      VMap m \<Rightarrow> parseFilterMap m []
                    | _ \<Rightarrow> Inl (NewUnsupportedFilter (dotted []) key ''logical filter child must be an object'')"
  let ?step = "\<lambda>(key, v).
          if key \<in> {''AND'', ''OR'', ''NOT''} then
            (case v of
               VList items \<Rightarrow>
                 (case mapM (?child key) items of
                    Inl e \<Rightarrow> Inl e
                  | Inr children \<Rightarrow> Inr (Expression (logicalKind key) children [] OpNone []))
             | _ \<Rightarrow> Inl (NewUnsupportedFilter (dotted []) key ''logical filter value must be a list''))
          else if key = ''metadata'' then parseMetadataFilter v
          else if [] = ([] :: string list) \<and> \<not> isSupportedTopLevelFilterField key
            then Inl (NewUnsupportedFilter key [] ''unknown filter field'')
          else parseFieldCondition (dotted ([] @ [key])) v"
  show ?case
  proof (cases "raw = []")
    case False
    obtain cs where m: "mapM ?step (sort_key fst raw) = Inr cs" and e: "e = collapseImplicitAnd cs"
      using "1.prems" False by (subst (asm) parseFilterMap.simps) (auto split: sum.splits)
    from m have "\<forall>c\<in>set cs. parsed_ok c"
    proof (rule mapM_all)
      fix x y assume x: "x \<in> set (sort_key fst raw)" and y: "?step x = Inr y"
      obtain key v where kv: "x = (key, v)" by force
      show "parsed_ok y"
      proof (cases "key \<in> {''AND'', ''OR'', ''NOT''}")
        case True
        then obtain items children where items: "v = VList items"
          and ch: "mapM (?child key) items = Inr children"
          and y': "y = Expression (logicalKind key) children [] OpNone []"
          using y kv by (cases v) (auto split: sum.splits)
        from ch have "\<forall>c\<in>set children. parsed_ok c"
        proof (rule mapM_all)
          fix item z assume i: "item \<in> set items" and z: "?child key item = Inr z"
          from z obtain m where m: "item = VMap m" "parseFilterMap m [] = Inr z" by (cases item) auto
          from "1.hyps" [OF False x kv [symmetric] True items i m(1) m(2)] show "parsed_ok z" .
        qed
        moreover have "logicalKind key \<noteq> KindComparison" by (simp add: logicalKind_def)
        ultimately show ?thesis unfolding y' by (simp add: parsed_ok_logical del: FlattenComparisons.simps)
      next
        case False
        show ?thesis
        proof (cases "key = ''metadata''")
          case True
          with False y kv show ?thesis by (auto intro: parseMetadataFilter_ok)
        next
          case nm: False
          with False y kv have "isSupportedTopLevelFilterField key" "parseFieldCondition (dotted [key]) v = Inr y"
            by (auto split: if_splits)
          then show ?thesis
            by (auto intro!: parseFieldCondition_ok [of "dotted [key]" v] simp: parsed_field_def dotted_def)
        qed
      qed
    qed
    with e show ?thesis by (simp add: parsed_ok_collapse)
  qed (use "1.prems" in \<open>auto simp: parseFilterMap.simps\<close>)
qed

lemma Parse_ok: "Parse raw = Inr e \<Longrightarrow> parsed_ok e"
  by (auto simp: Parse_def parseFilterMap_ok split: if_splits)

section \<open>Sources of the parameters and of the filter\<close>

text \<open>Blank names are dropped; no names left restrict nothing.\<close>

definition sources_allow :: "(string \<Rightarrow> string) \<Rightarrow> string list \<Rightarrow> string \<Rightarrow> bool" where
  "sources_allow ulow raw src \<longleftrightarrow> (\<forall>v\<in>set raw. source_norm ulow v = []) \<or> matches (source_norm ulow) raw src"

lemma vals_admit_sources: "vals_admit (NormalizeEqualityValues ulow raw True) src \<longleftrightarrow> sources_allow ulow raw src"
proof (cases "NormalizeEqualityValues ulow raw True = []")
  case True
  then have "\<forall>v\<in>set raw. source_norm ulow v = []"
    using set_NormalizeEqualityValues [of ulow raw True] by auto
  with True show ?thesis by (simp add: vals_admit_def sources_allow_def)
next
  case False
  then obtain t where "t \<in> set (NormalizeEqualityValues ulow raw True)" by (cases "NormalizeEqualityValues ulow raw True") auto
  then have "\<not> (\<forall>v\<in>set raw. source_norm ulow v = [])" by (auto simp: set_NormalizeEqualityValues)
  with normalized_admits [OF False, of src] show ?thesis by (auto simp: sources_allow_def)
qed

section \<open>What a filter means as the caller writes it\<close>

text \<open>
  The meaning of a filter read off the caller's map, without the parser and the expressions.  A map holds
  when every one of its entries holds: \<open>AND\<close> when every map of its list holds, a condition on the session,
  the source or the peer when every operator of it has a matching operand.  \<open>in\<close> takes a list of values,
  \<open>eq\<close> and a plain value one.  \<open>filter_ok\<close> says which filters the index can enforce.
\<close>

definition operand_values :: "string \<Rightarrow> any_value \<Rightarrow> string list" where
  "operand_values op v = (if op = ''in'' then (case v of VList xs \<Rightarrow> map Scalar xs | _ \<Rightarrow> []) else [Scalar v])"

definition condition_ok :: "any_value \<Rightarrow> bool" where
  "condition_ok v = (case v of
     VMap ops \<Rightarrow> ops \<noteq> [] \<and> list_all (\<lambda>(op, w). op = ''eq'' \<or> op = ''in'' \<and> (\<exists>xs. w = VList xs)) ops
   | _ \<Rightarrow> True)"

definition condition_holds :: "(string \<Rightarrow> string) \<Rightarrow> string \<Rightarrow> any_value \<Rightarrow> bool" where
  "condition_holds norm x v = (case v of
     VMap ops \<Rightarrow> list_all (\<lambda>(op, w). matches norm (operand_values op w) x) ops
   | _ \<Rightarrow> matches norm [Scalar v] x)"

function filter_ok :: "(string \<times> any_value) list \<Rightarrow> bool" where
  "filter_ok raw = list_all (\<lambda>(key, v).
     if key = ''AND'' then
       (case v of
          VList items \<Rightarrow> list_all (\<lambda>item. case item of VMap m \<Rightarrow> filter_ok m | _ \<Rightarrow> False) items
        | _ \<Rightarrow> False)
     else if key = ''metadata'' then v = VMap []
     else key \<in> {''session_id'', ''source'', ''peer_id''} \<and> condition_ok v) raw"
  by pat_completeness auto

function filter_holds :: "(string \<Rightarrow> string) \<Rightarrow> string \<Rightarrow> string \<Rightarrow> string \<Rightarrow> (string \<times> any_value) list \<Rightarrow> bool" where
  "filter_holds ulow peer sid src raw = list_all (\<lambda>(key, v).
     if key = ''AND'' then
       (case v of
          VList items \<Rightarrow> list_all (\<lambda>item. case item of VMap m \<Rightarrow> filter_holds ulow peer sid src m | _ \<Rightarrow> False) items
        | _ \<Rightarrow> False)
     else if key = ''session_id'' then condition_holds trim_space sid v
     else if key = ''source'' then condition_holds (source_norm ulow) src v
     else if key = ''peer_id'' then condition_holds trim_space (trim_space peer) v
     else key = ''metadata'') raw"
  by pat_completeness auto

lemma nested_filter_smaller:
  assumes "(key, VList items) \<in> set raw" "VMap m \<in> set items"
  shows "size_list (size_prod (\<lambda>_. 0) size) m < size_list (size_prod (\<lambda>_ :: string. 0) size) raw"
  using size_entry [OF assms(1)] size_item [OF assms(2)] by simp

termination filter_ok
  by (relation "measure (size_list (size_prod (\<lambda>_. 0) size))") (auto intro: nested_filter_smaller)

termination filter_holds
  by (relation "measure (\<lambda>(ulow, peer, sid, src, raw). size_list (size_prod (\<lambda>_. 0) size) raw)")
    (auto intro: nested_filter_smaller)

declare filter_ok.simps [simp del] filter_holds.simps [simp del]

text \<open>The loop and its element, for a predicate on the results and one on the elements.\<close>

lemma mapM_ball:
  assumes "mapM f xs = Inr ys" "\<And>x y. x \<in> set xs \<Longrightarrow> f x = Inr y \<Longrightarrow> P y \<longleftrightarrow> Q x"
  shows "(\<forall>y\<in>set ys. P y) \<longleftrightarrow> (\<forall>x\<in>set xs. Q x)"
proof -
  have "list_all2 (\<lambda>x y. f x = Inr y) xs ys" using assms(1) by (simp add: mapM_Inr)
  then have "list_all2 (\<lambda>x y. P y \<longleftrightarrow> Q x) xs ys"
    by (rule list.rel_mono_strong) (use assms(2) in blast)
  then show ?thesis by (induction rule: list_all2_induct) auto
qed

lemma enforceable_collapse: "enforceable (collapseImplicitAnd cs) \<longleftrightarrow> (\<forall>c\<in>set cs. enforceable c)"
  by (auto simp: collapseImplicitAnd_def allExpression_def split: list.splits)

lemma holds_collapse: "holds ulow peer sid src (collapseImplicitAnd cs) \<longleftrightarrow> (\<forall>c\<in>set cs. holds ulow peer sid src c)"
  by (auto simp: collapseImplicitAnd_def allExpression_def split: list.splits)

definition equality_field :: "string \<Rightarrow> bool" where
  "equality_field f \<longleftrightarrow> f \<in> {''session_id'', ''source'', ''peer_id''}"

definition field_holds :: "(string \<Rightarrow> string) \<Rightarrow> string \<Rightarrow> string \<Rightarrow> string \<Rightarrow> string \<Rightarrow> any_value \<Rightarrow> bool" where
  "field_holds ulow peer sid src f v =
     (if f = ''session_id'' then condition_holds trim_space sid v
      else if f = ''source'' then condition_holds (source_norm ulow) src v
      else condition_holds trim_space (trim_space peer) v)"

lemma parseFilterOperator_text: "parseFilterOperator s = Some op \<Longrightarrow> op_text op = s"
  by (auto simp: parseFilterOperator_def find_Some_iff)

lemma operator_eq_in: "parseFilterOperator s = Some op \<Longrightarrow> (op = OpEQ \<longleftrightarrow> s = ''eq'') \<and> (op = OpIn \<longleftrightarrow> s = ''in'')"
  by (drule parseFilterOperator_text) (cases op; auto)

lemma parse_eq_in [simp]: "parseFilterOperator ''eq'' = Some OpEQ" "parseFilterOperator ''in'' = Some OpIn"
  by code_simp+

text \<open>One operator of a condition, and its loop body.\<close>

definition operator_step :: "string \<Rightarrow> string \<times> any_value \<Rightarrow> UnsupportedFilterError + Expression" where
  "operator_step field = (\<lambda>(rawOp, rawValue).
          case parseFilterOperator rawOp of
            None \<Rightarrow> Inl (NewUnsupportedFilter field rawOp ''unknown filter operator'')
          | Some op \<Rightarrow> (case FilterValues rawValue op of
              Inl e \<Rightarrow> Inl (NewUnsupportedFilter field rawOp e)
            | Inr vs \<Rightarrow> Inr (comparison field op vs)))"

lemma operator_step_ok:
  assumes "operator_step f (op, w) = Inr y"
  shows "enforceable y \<longleftrightarrow> equality_field f \<and> (op = ''eq'' \<or> op = ''in'' \<and> (\<exists>xs. w = VList xs))"
proof -
  obtain k vs where k: "parseFilterOperator op = Some k" "FilterValues w k = Inr vs" "y = comparison f k vs"
    using assms by (auto simp: operator_step_def split: option.splits sum.splits)
  from k(2) have "k = OpIn \<Longrightarrow> \<exists>xs. w = VList xs" by (cases w) (auto simp: FilterValues_def)
  with operator_eq_in [OF k(1)] k(3) show ?thesis by (auto simp: comparison_def equality_field_def)
qed

lemma operator_step_succeeds:
  "op = ''eq'' \<or> op = ''in'' \<and> (\<exists>xs. w = VList xs) \<Longrightarrow> \<exists>y. operator_step f (op, w) = Inr y"
  by (auto simp: operator_step_def FilterValues_def)

lemma operator_step_holds:
  assumes "operator_step f (op, w) = Inr y" "equality_field f"
  shows "holds ulow peer sid src y \<longleftrightarrow>
    matches (if f = ''source'' then source_norm ulow else trim_space) (operand_values op w)
      (if f = ''session_id'' then sid else if f = ''source'' then src else trim_space peer)"
proof -
  obtain k vs where k: "parseFilterOperator op = Some k" "FilterValues w k = Inr vs" "y = comparison f k vs"
    using assms(1) by (auto simp: operator_step_def split: option.splits sum.splits)
  from k(2) operator_eq_in [OF k(1)] have "vs = operand_values op w"
    by (cases w) (auto simp: FilterValues_def operand_values_def split: if_splits)
  with k(3) assms(2) show ?thesis by (auto simp: comparison_def equality_field_def)
qed


text \<open>A condition, a metadata object and a map, each against its parse.\<close>

lemma parse_operators:
  assumes "parseOperatorConditions f ops = Inr e"
  shows "enforceable e \<longleftrightarrow> equality_field f \<and> condition_ok (VMap ops)"
    and "equality_field f \<Longrightarrow> holds ulow peer sid src e \<longleftrightarrow> field_holds ulow peer sid src f (VMap ops)"
proof -
  obtain cs where ne: "ops \<noteq> []" and m: "mapM (operator_step f) (sort_key fst ops) = Inr cs" and e: "e = collapseImplicitAnd cs"
    using assms by (auto simp: parseOperatorConditions_def operator_step_def split: if_splits sum.splits)
  have "(\<forall>c\<in>set cs. enforceable c) \<longleftrightarrow>
      (\<forall>x\<in>set ops. equality_field f \<and> (fst x = ''eq'' \<or> fst x = ''in'' \<and> (\<exists>xs. snd x = VList xs)))"
    unfolding set_sort [of fst ops, symmetric] by (rule mapM_ball [OF m]) (metis operator_step_ok prod.collapse)
  moreover obtain x where "x \<in> set ops" using ne by (cases ops) auto
  ultimately show "enforceable e \<longleftrightarrow> equality_field f \<and> condition_ok (VMap ops)"
    using ne by (auto simp: e enforceable_collapse condition_ok_def list_all_iff split_beta)
  assume f: "equality_field f"
  have "(\<forall>c\<in>set cs. holds ulow peer sid src c) \<longleftrightarrow> (\<forall>x\<in>set ops.
      matches (if f = ''source'' then source_norm ulow else trim_space) (operand_values (fst x) (snd x))
      (if f = ''session_id'' then sid else if f = ''source'' then src else trim_space peer))"
    unfolding set_sort [of fst ops, symmetric] by (rule mapM_ball [OF m]) (metis operator_step_holds [OF _ f] prod.collapse)
  with f show "holds ulow peer sid src e \<longleftrightarrow> field_holds ulow peer sid src f (VMap ops)"
    by (auto simp: e holds_collapse field_holds_def condition_holds_def list_all_iff equality_field_def split_beta)
qed

lemma parse_condition:
  assumes "parseFieldCondition f v = Inr e"
  shows "enforceable e \<longleftrightarrow> equality_field f \<and> condition_ok v"
    and "equality_field f \<Longrightarrow> holds ulow peer sid src e \<longleftrightarrow> field_holds ulow peer sid src f v"
proof -
  have "(enforceable e \<longleftrightarrow> equality_field f \<and> condition_ok v)
      \<and> (equality_field f \<longrightarrow> (holds ulow peer sid src e \<longleftrightarrow> field_holds ulow peer sid src f v))"
  proof (cases "\<exists>ops. v = VMap ops")
    case True
    then show ?thesis using assms parse_operators by (auto simp: parseFieldCondition_def)
  next
    case False
    with assms have "e = comparison f OpEQ [Scalar v]"
      by (cases v) (auto simp: parseFieldCondition_def FilterValues_def)
    with False show ?thesis
      by (cases v) (auto simp: comparison_def equality_field_def condition_ok_def field_holds_def condition_holds_def)
  qed
  then show "enforceable e \<longleftrightarrow> equality_field f \<and> condition_ok v"
    and "equality_field f \<Longrightarrow> holds ulow peer sid src e \<longleftrightarrow> field_holds ulow peer sid src f v" by blast+
qed

lemma parse_condition_succeeds:
  assumes "condition_ok v"
  shows "\<exists>e. parseFieldCondition f v = Inr e"
proof (cases "\<exists>ops. v = VMap ops")
  case True
  then obtain ops where v: "v = VMap ops" by blast
  have "\<forall>x\<in>set (sort_key fst ops). \<exists>y. operator_step f x = Inr y"
    using assms operator_step_succeeds [where f = f] by (fastforce simp: v condition_ok_def list_all_iff)
  then obtain cs where "mapM (operator_step f) (sort_key fst ops) = Inr cs" using mapM_succeeds by metis
  then show ?thesis using assms
    by (auto simp: v parseFieldCondition_def parseOperatorConditions_def operator_step_def condition_ok_def)
next
  case False
  then show ?thesis by (cases v) (auto simp: parseFieldCondition_def FilterValues_def)
qed

lemma metadata_not_equality: "\<not> equality_field (dotted ((''metadata'' # ks) @ [k]))"
  using dotted_prefix [of ks k] by (auto simp: equality_field_def has_prefix_def)

lemma mapM_none: 
  assumes "mapM f xs = Inr ys" "xs \<noteq> []" "\<And>x y. x \<in> set xs \<Longrightarrow> f x = Inr y \<Longrightarrow> \<not> P y"
  shows "\<exists>y\<in>set ys. \<not> P y"
proof -
  obtain x where x: "x \<in> set xs" using assms(2) by (cases xs) auto
  then obtain i where i: "i < length xs" "x = xs ! i" by (auto simp: in_set_conv_nth)
  have a: "list_all2 (\<lambda>x y. f x = Inr y) xs ys" using assms(1) by (simp add: mapM_Inr)
  from list_all2_nthD [OF a i(1)] i(2) have "f x = Inr (ys ! i)" by simp
  moreover have "ys ! i \<in> set ys" using list_all2_lengthD [OF a] i(1) by simp
  ultimately obtain y where "y \<in> set ys" "f x = Inr y" by blast
  with assms(3) x show ?thesis by blast
qed

lemma metadata_not_enforceable:
  "parseMetadataMap raw (''metadata'' # ks) = Inr e \<Longrightarrow> raw \<noteq> [] \<Longrightarrow> \<not> enforceable e"
proof (induction raw "''metadata'' # ks" arbitrary: ks e rule: parseMetadataMap.induct)
  case (1 raw)
  let ?step = "\<lambda>(key, v).
        let fieldPath = (''metadata'' # ks) @ [key] in
        (case v of
           VMap nested \<Rightarrow>
             (case classifyOperatorMap nested of
                ClEmpty \<Rightarrow> Inl (NewUnsupportedFilter (dotted fieldPath) [] ''operator map must not be empty'')
              | ClMixed u \<Rightarrow> Inl (NewUnsupportedFilter (dotted fieldPath) u ''unknown filter operator'')
              | ClFields \<Rightarrow> parseMetadataMap nested fieldPath
              | ClValid \<Rightarrow> parseFieldCondition (dotted fieldPath) v)
         | _ \<Rightarrow> parseFieldCondition (dotted fieldPath) v)"
  obtain cs where m: "mapM ?step (sort_key fst raw) = Inr cs" and e: "e = collapseImplicitAnd cs"
    using "1.prems"(1) by (subst (asm) parseMetadataMap.simps) (auto split: sum.splits)
  have "\<exists>c\<in>set cs. \<not> enforceable c"
  proof (rule mapM_none [OF m])
    show "sort_key fst raw \<noteq> []" using "1.prems"(2) by (metis length_0_conv length_sort)
    fix x y assume x: "x \<in> set (sort_key fst raw)" and y: "?step x = Inr y"
    obtain k v where kv: "x = (k, v)" by force
    show "\<not> enforceable y"
    proof (cases "\<exists>nested. v = VMap nested \<and> classifyOperatorMap nested = ClFields")
      case True
      then obtain nested where n: "v = VMap nested" "classifyOperatorMap nested = ClFields" by blast
      with y kv have p: "parseMetadataMap nested (''metadata'' # ks @ [k]) = Inr y" by simp
      have "nested \<noteq> []" using n(2) by (auto simp: classifyOperatorMap_def)
      with "1.hyps" [OF x kv [symmetric] _ n, of "ks @ [k]" y] p show ?thesis by simp
    next
      case False
      with y kv have "parseFieldCondition (dotted (''metadata'' # ks @ [k])) v = Inr y"
        by (cases v) (auto simp: Let_def split: operatorMapClassification.splits)
      with metadata_not_equality [of ks k] show ?thesis by (simp add: parse_condition)
    qed
  qed
  then show ?case by (auto simp: e enforceable_collapse)
qed

lemma parse_metadata:
  assumes "parseMetadataFilter v = Inr e"
  shows "enforceable e \<longleftrightarrow> v = VMap []" and "v = VMap [] \<Longrightarrow> holds ulow peer sid src e"
proof -
  obtain raw where v: "v = VMap raw" and p: "parseMetadataMap raw [''metadata''] = Inr e"
    using assms by (cases v) (auto simp: parseMetadataFilter_def)
  have e: "e = allExpression" if "raw = []"
    using p that by (subst (asm) parseMetadataMap.simps) (simp add: collapseImplicitAnd_def)
  with metadata_not_enforceable [OF p] v show "enforceable e \<longleftrightarrow> v = VMap []"
    by (cases "raw = []") (auto simp: allExpression_def)
  assume "v = VMap []"
  with e v show "holds ulow peer sid src e" by (simp add: allExpression_def)
qed


text \<open>One entry of a filter at the top, and what it means.\<close>

definition entry_step :: "string \<times> any_value \<Rightarrow> UnsupportedFilterError + Expression" where
  "entry_step = (\<lambda>(key, v).
          if key \<in> {''AND'', ''OR'', ''NOT''} then
            (case v of
               VList items \<Rightarrow>
                 (case mapM (\<lambda>item. case item of
                      VMap m \<Rightarrow> parseFilterMap m []
                    | _ \<Rightarrow> Inl (NewUnsupportedFilter (dotted []) key ''logical filter child must be an object'')) items of
                    Inl e \<Rightarrow> Inl e
                  | Inr children \<Rightarrow> Inr (Expression (logicalKind key) children [] OpNone []))
             | _ \<Rightarrow> Inl (NewUnsupportedFilter (dotted []) key ''logical filter value must be a list''))
          else if key = ''metadata'' then parseMetadataFilter v
          else if [] = ([] :: string list) \<and> \<not> isSupportedTopLevelFilterField key
            then Inl (NewUnsupportedFilter key [] ''unknown filter field'')
          else parseFieldCondition (dotted ([] @ [key])) v)"

definition child_step :: "string \<Rightarrow> any_value \<Rightarrow> UnsupportedFilterError + Expression" where
  "child_step key item = (case item of
      VMap m \<Rightarrow> parseFilterMap m []
    | _ \<Rightarrow> Inl (NewUnsupportedFilter (dotted []) key ''logical filter child must be an object''))"

definition entry_ok :: "string \<times> any_value \<Rightarrow> bool" where
  "entry_ok = (\<lambda>(key, v).
     if key = ''AND'' then
       (case v of
          VList items \<Rightarrow> list_all (\<lambda>item. case item of VMap m \<Rightarrow> filter_ok m | _ \<Rightarrow> False) items
        | _ \<Rightarrow> False)
     else if key = ''metadata'' then v = VMap []
     else key \<in> {''session_id'', ''source'', ''peer_id''} \<and> condition_ok v)"

definition entry_holds :: "(string \<Rightarrow> string) \<Rightarrow> string \<Rightarrow> string \<Rightarrow> string \<Rightarrow> string \<times> any_value \<Rightarrow> bool" where
  "entry_holds ulow peer sid src = (\<lambda>(key, v).
     if key = ''AND'' then
       (case v of
          VList items \<Rightarrow> list_all (\<lambda>item. case item of VMap m \<Rightarrow> filter_holds ulow peer sid src m | _ \<Rightarrow> False) items
        | _ \<Rightarrow> False)
     else if key = ''session_id'' then condition_holds trim_space sid v
     else if key = ''source'' then condition_holds (source_norm ulow) src v
     else if key = ''peer_id'' then condition_holds trim_space (trim_space peer) v
     else key = ''metadata'')"

lemma filter_ok_entries: "filter_ok raw \<longleftrightarrow> (\<forall>x\<in>set raw. entry_ok x)"
  unfolding list_all_iff [of entry_ok, symmetric] by (subst filter_ok.simps) (simp only: entry_ok_def)

lemma filter_holds_entries: "filter_holds ulow peer sid src raw \<longleftrightarrow> (\<forall>x\<in>set raw. entry_holds ulow peer sid src x)"
  unfolding list_all_iff [of "entry_holds ulow peer sid src", symmetric] by (subst filter_holds.simps) (simp only: entry_holds_def)

lemma parseFilterMap_entries:
  "parseFilterMap raw [] = (if raw = [] then Inr allExpression
     else case mapM entry_step (sort_key fst raw) of Inl e \<Rightarrow> Inl e | Inr cs \<Rightarrow> Inr (collapseImplicitAnd cs))"
  by (subst parseFilterMap.simps) (simp only: entry_step_def)

lemma entry_step_and:
  "entry_step (''AND'', v) = Inr y \<longleftrightarrow>
     (\<exists>items cs. v = VList items \<and> mapM (child_step ''AND'') items = Inr cs \<and> y = Expression KindAnd cs [] OpNone [])"
  by (cases v) (auto simp: entry_step_def logicalKind_def child_step_def [abs_def] split: sum.splits)

lemma entry_step_or_not:
  "key \<in> {''OR'', ''NOT''} \<Longrightarrow> entry_step (key, v) = Inr y \<Longrightarrow> \<not> enforceable y"
  by (cases v) (auto simp: entry_step_def logicalKind_def split: sum.splits)

lemma entry_step_field:
  "key \<notin> {''AND'', ''OR'', ''NOT'', ''metadata''} \<Longrightarrow>
    entry_step (key, v) = (if isSupportedTopLevelFilterField key then parseFieldCondition key v
      else Inl (NewUnsupportedFilter key [] ''unknown filter field''))"
  by (simp add: entry_step_def dotted_def)

lemma entry_step_metadata: "entry_step (''metadata'', v) = parseMetadataFilter v"
  by (simp add: entry_step_def)

lemma child_step_Inr: "child_step key item = Inr y \<longleftrightarrow> (\<exists>m. item = VMap m \<and> parseFilterMap m [] = Inr y)"
  by (cases item) (auto simp: child_step_def)

text \<open>An entry whose nested maps are parsed as they mean is parsed as it means.\<close>

lemma entry_exact:
  assumes y: "entry_step x = Inr y"
    and nested: "\<And>items m e. x = (''AND'', VList items) \<Longrightarrow> VMap m \<in> set items \<Longrightarrow> parseFilterMap m [] = Inr e \<Longrightarrow>
      (enforceable e \<longleftrightarrow> filter_ok m) \<and> (filter_ok m \<longrightarrow> (holds ulow peer sid src e \<longleftrightarrow> filter_holds ulow peer sid src m))"
  shows "(enforceable y \<longleftrightarrow> entry_ok x) \<and> (entry_ok x \<longrightarrow> (holds ulow peer sid src y \<longleftrightarrow> entry_holds ulow peer sid src x))"
proof -
  obtain key v where kv: "x = (key, v)" by force
  consider "key = ''AND''" | "key \<in> {''OR'', ''NOT''}" | "key = ''metadata''" | "key \<notin> {''AND'', ''OR'', ''NOT'', ''metadata''}" by blast
  then show ?thesis
  proof cases
    case 1
    with y kv obtain items cs where v: "v = VList items" and m: "mapM (child_step ''AND'') items = Inr cs"
      and y': "y = Expression KindAnd cs [] OpNone []" by (auto simp: entry_step_and)
    have ok: "(\<forall>c\<in>set cs. enforceable c) \<longleftrightarrow> (\<forall>i\<in>set items. case i of VMap m \<Rightarrow> filter_ok m | _ \<Rightarrow> False)"
      by (rule mapM_ball [OF m]) (use nested 1 kv v in \<open>auto simp: child_step_Inr\<close>)
    have "(\<forall>c\<in>set cs. enforceable c \<longrightarrow> holds ulow peer sid src c)
        \<longleftrightarrow> (\<forall>i\<in>set items. (case i of VMap m \<Rightarrow> filter_ok m | _ \<Rightarrow> False) \<longrightarrow> (case i of VMap m \<Rightarrow> filter_holds ulow peer sid src m | _ \<Rightarrow> False))"
      by (rule mapM_ball [OF m]) (use nested 1 kv v in \<open>auto simp: child_step_Inr\<close>)
    with ok 1 kv v y' show ?thesis by (auto simp: entry_ok_def entry_holds_def list_all_iff)
  next
    case 2
    with y kv have "\<not> enforceable y" by (metis entry_step_or_not)
    with 2 kv show ?thesis by (auto simp: entry_ok_def)
  next
    case 3
    with y kv have "parseMetadataFilter v = Inr y" by (simp add: entry_step_metadata)
    with 3 kv show ?thesis by (auto simp: entry_ok_def entry_holds_def parse_metadata)
  next
    case 4
    with y kv have p: "isSupportedTopLevelFilterField key" "parseFieldCondition key v = Inr y"
      by (auto simp: entry_step_field split: if_splits)
    with 4 kv parse_condition(1) [OF p(2)] parse_condition(2) [OF p(2), of ulow peer sid src] show ?thesis
      by (auto simp: entry_ok_def entry_holds_def equality_field_def field_holds_def)
  qed
qed

lemma filter_exact:
  "parseFilterMap raw [] = Inr e \<Longrightarrow>
    (enforceable e \<longleftrightarrow> filter_ok raw) \<and> (filter_ok raw \<longrightarrow> (holds ulow peer sid src e \<longleftrightarrow> filter_holds ulow peer sid src raw))"
proof (induction raw arbitrary: e rule: measure_induct_rule [where f = "size_list (size_prod (\<lambda>_ :: string. 0) size)"])
  case (less raw)
  show ?case
  proof (cases "raw = []")
    case True
    with less.prems show ?thesis by (auto simp: parseFilterMap_entries allExpression_def filter_ok_entries filter_holds_entries)
  next
    case False
    then obtain cs where m: "mapM entry_step (sort_key fst raw) = Inr cs" and e: "e = collapseImplicitAnd cs"
      using less.prems by (auto simp: parseFilterMap_entries split: sum.splits)
    have entry: "(enforceable y \<longleftrightarrow> entry_ok x) \<and> (entry_ok x \<longrightarrow> (holds ulow peer sid src y \<longleftrightarrow> entry_holds ulow peer sid src x))"
      if x: "x \<in> set (sort_key fst raw)" and y: "entry_step x = Inr y" for x y
      using y by (rule entry_exact) (use x in \<open>auto intro!: less.IH nested_filter_smaller\<close>)
    have ok: "(\<forall>c\<in>set cs. enforceable c) \<longleftrightarrow> (\<forall>x\<in>set raw. entry_ok x)"
      unfolding set_sort [of fst raw, symmetric] by (rule mapM_ball [OF m]) (use entry in blast)
    have "(\<forall>c\<in>set cs. enforceable c \<longrightarrow> holds ulow peer sid src c)
        \<longleftrightarrow> (\<forall>x\<in>set raw. entry_ok x \<longrightarrow> entry_holds ulow peer sid src x)"
      unfolding set_sort [of fst raw, symmetric] by (rule mapM_ball [OF m]) (use entry in blast)
    with ok show ?thesis
      by (auto simp: e enforceable_collapse holds_collapse filter_ok_entries filter_holds_entries)
  qed
qed

lemma filter_ok_parses: "filter_ok raw \<Longrightarrow> \<exists>e. parseFilterMap raw [] = Inr e"
proof (induction raw rule: measure_induct_rule [where f = "size_list (size_prod (\<lambda>_ :: string. 0) size)"])
  case (less raw)
  have "\<exists>y. entry_step x = Inr y" if x: "x \<in> set raw" for x
  proof -
    obtain key v where kv: "x = (key, v)" by force
    have ok: "entry_ok (key, v)" using less.prems x kv by (simp add: filter_ok_entries)
    consider "key = ''AND''" | "key = ''metadata''" | "key \<noteq> ''AND''" "key \<noteq> ''metadata''" by blast
    then show ?thesis
    proof cases
      case 1
      with ok obtain items where v: "v = VList items" and it: "list_all (\<lambda>i. case i of VMap m \<Rightarrow> filter_ok m | _ \<Rightarrow> False) items"
        by (cases v) (auto simp: entry_ok_def)
      have "\<forall>i\<in>set items. \<exists>y. child_step ''AND'' i = Inr y"
      proof
        fix i assume i: "i \<in> set items"
        with it obtain m where m: "i = VMap m" "filter_ok m" by (cases i) (auto simp: list_all_iff)
        have "(key, VList items) \<in> set raw" using x kv v by simp
        from less.IH [OF nested_filter_smaller [OF this] m(2)] i m(1) show "\<exists>y. child_step ''AND'' i = Inr y"
          by (simp add: child_step_Inr)
      qed
      then obtain cs where "mapM (child_step ''AND'') items = Inr cs" using mapM_succeeds by metis
      with 1 kv v show ?thesis by (simp add: entry_step_and)
    next
      case 2
      with ok kv show ?thesis
        by (auto simp: entry_ok_def entry_step_metadata parseMetadataFilter_def parseMetadataMap.simps)
    next
      case 3
      with ok have "key \<in> {''session_id'', ''source'', ''peer_id''}" "condition_ok v" by (auto simp: entry_ok_def)
      with parse_condition_succeeds [of v key] kv show ?thesis
        by (auto simp: entry_step_field isSupportedTopLevelFilterField_def)
    qed
  qed
  then obtain cs where "mapM entry_step (sort_key fst raw) = Inr cs" using mapM_succeeds [of entry_step "sort_key fst raw"] by auto
  then show ?case by (simp add: parseFilterMap_entries)
qed

lemma Parse_map: "Parse raw = parseFilterMap raw []"
  by (simp add: Parse_def parseFilterMap_entries)

lemma ParseAndCompile_iff: "(\<exists>c. ParseAndCompile ulow raw peer = Inr c) \<longleftrightarrow> filter_ok raw"
proof (cases "parseFilterMap raw []")
  case (Inl e)
  with filter_ok_parses [of raw] show ?thesis by (auto simp: ParseAndCompile_def Parse_map)
next
  case (Inr e)
  with filter_exact [OF Inr] Compile_succeeds [of ulow e peer] show ?thesis by (auto simp: ParseAndCompile_def Parse_map)
qed

lemma ParseAndCompile_meaning:
  assumes "ParseAndCompile ulow raw peer = Inr c"
  shows "admits c sid src \<longleftrightarrow> filter_holds ulow peer sid src raw"
proof -
  obtain e where p: "parseFilterMap raw [] = Inr e" and c: "Compile ulow e peer = Inr c"
    using assms by (auto simp: ParseAndCompile_def Parse_map split: sum.splits)
  have "filter_ok raw" using ParseAndCompile_iff assms by blast
  with filter_exact [OF p, of ulow peer sid src] Compile_admits [OF c, of sid src] show ?thesis by blast
qed

section \<open>Properties\<close>

text \<open>
  C11. A filter is enforced exactly or refused.  The meaning is read off the map the caller wrote
  (\<open>filter_holds\<close>, which knows neither the parser nor the compiler): every key of a map has to hold, an
  \<open>AND\<close> is the conjunction of its maps, and each operator of a session, source or peer condition needs a
  matching operand, with the wildcard, trimming and lower case of the sources.  A filter is accepted if and only if
  it consists of those (and of empty metadata objects, which restrict nothing); and the sets that
  \<open>ParseAndCompile\<close> then hands to the search admit precisely the rows that the filter means, so no
  condition is dropped on the way, be it by the parser or by the compiler.
\<close>

theorem search_filter_exact:
  "((\<exists>c. ParseAndCompile ulow raw peer = Inr c) \<longleftrightarrow> filter_ok raw)
   \<and> (\<forall>c sid src. ParseAndCompile ulow raw peer = Inr c \<longrightarrow>
        (admits c sid src \<longleftrightarrow> filter_holds ulow peer sid src raw))"
  by (simp add: ParseAndCompile_iff ParseAndCompile_meaning)

lemma search_filter_exact_witness:
  "admits \<lparr>SessionIDs = [''b''], Sources = [''web''], DenyAll = False\<rparr> ''b'' ''web'' \<and>
   filter_holds (\<lambda>s. s) ''p'' ''b'' ''web''
     [(''AND'', VList [VMap [(''session_id'', VMap [(''in'', VList [VText ''a'', VText '' b''])])],
                       VMap [(''session_id'', VText ''b''), (''source'', VText ''Web'')]])]"
proof -
  let ?raw = "[(''AND'', VList [VMap [(''session_id'', VMap [(''in'', VList [VText ''a'', VText '' b''])])],
                       VMap [(''session_id'', VText ''b''), (''source'', VText ''Web'')]])]"
  have "ParseAndCompile (\<lambda>s. s) ?raw ''p'' = Inr \<lparr>SessionIDs = [''b''], Sources = [''web''], DenyAll = False\<rparr>" by code_simp
  with search_filter_exact [of "\<lambda>s. s" ?raw "''p''"]
  have "admits \<lparr>SessionIDs = [''b''], Sources = [''web''], DenyAll = False\<rparr> ''b'' ''web'' \<longleftrightarrow>
      filter_holds (\<lambda>s. s) ''p'' ''b'' ''web'' ?raw" by blast
  moreover have "admits \<lparr>SessionIDs = [''b''], Sources = [''web''], DenyAll = False\<rparr> ''b'' ''web''" by code_simp
  ultimately show ?thesis by blast
qed

text \<open>
  What the grammar accepts is well formed: every comparison in the tree is on a field the grammar
  knows or on a metadata path, has an operator of the operator table, and has exactly one value unless
  the operator is \<open>in\<close>.
\<close>

theorem parse_well_formed:
  assumes "Parse raw = Inr e" "x \<in> set (FlattenComparisons e)"
  shows "parsed_comparison x"
  using Parse_ok [OF assms(1)] assms(2) by (simp add: parsed_ok_def)

lemma parse_well_formed_witness:
  "parsed_comparison (Expression KindComparison [] ''metadata.score'' OpGT [''0.8''])"
  by (rule parse_well_formed [of "[(''metadata'', VMap [(''score'', VMap [(''gt'', VText ''0.8'')])])]"
        "Expression KindComparison [] ''metadata.score'' OpGT [''0.8'']"]) code_simp+

text \<open>
  The sources of the search parameters and of the filter are combined by intersection: a row is
  searched exactly when both lists allow its source, where a list without a name and a list with a
  wildcard allow every source; an empty intersection denies the search instead of lifting the restriction.
\<close>

theorem merge_sources_exact:
  assumes "MergeSources ulow ps fs = (sources, deny)"
  shows "\<not> deny \<and> (sources = [] \<or> src \<in> set sources) \<longleftrightarrow> sources_allow ulow ps src \<and> sources_allow ulow fs src"
proof -
  obtain m d where i: "intersectFilterValues (NormalizeEqualityValues ulow ps True) (NormalizeEqualityValues ulow fs True) = (m, d)"
    by force
  have "\<not> deny \<and> (sources = [] \<or> src \<in> set sources) \<longleftrightarrow> \<not> d \<and> vals_admit m src"
    using assms i by (auto simp: MergeSources_def vals_admit_def split: if_splits)
  with intersect_admits [OF i, of src] show ?thesis by (simp add: vals_admit_sources)
qed

lemma merge_sources_exact_witness:
  "\<not> False \<and> ([''web''] = [] \<or> ''web'' \<in> set [''web'']) \<longleftrightarrow>
     sources_allow (\<lambda>s. s) [''Web'', '' ''] ''web'' \<and> sources_allow (\<lambda>s. s) [''slack'', ''web''] ''web''"
  by (rule merge_sources_exact) code_simp

end
