(* ===== verification/TurnSearch.thy ===== *)
theory TurnSearch
  imports Turns Utf8 RecallScore SearchFilter
begin

text \<open>
  Searching the rows of \<open>turns\<close>: the tokens of a query (\<open>service/internal/searchtokens\<close>), the full-text
  pattern (\<open>sqlutil\<close>), the query over sessions and chats (\<open>service/internal/sessionquery\<close>) and \<open>findTurns\<close>
  of \<open>service/sql.go\<close>, which looks at one session key.  The operators of SQLite are parameters: \<open>fts\<close> is
  \<open>turns_fts MATCH\<close> and \<open>like\<close> is \<open>LIKE\<close>, each of a pattern and a content.
\<close>

section \<open>Query plans\<close>

definition has_suffix :: "string \<Rightarrow> string \<Rightarrow> bool" where
  "has_suffix s p \<longleftrightarrow> length p \<le> length s \<and> drop (length s - length p) s = p"

definition Stem :: "string \<Rightarrow> string" where
  "Stem token =
     (case find (\<lambda>sfx. length sfx + 3 < length token \<and> has_suffix token sfx) [''ing'', ''edly'', ''edly'', ''ed'', ''es'', ''s''] of
        Some sfx \<Rightarrow> take (length token - length sfx) token
      | None \<Rightarrow> token)"

definition Stopword :: "string \<Rightarrow> bool" where
  "Stopword token \<longleftrightarrow> token \<in> set
     [''the'', ''and'', ''for'', ''who'', ''what'', ''when'', ''where'', ''which'', ''should'', ''not'', ''did'', ''does'', ''with'',
      ''that'', ''this'', ''from'', ''are'', ''was'', ''were'', ''has'', ''have'', ''had'', ''you'', ''your'', ''about'', ''can'',
      ''could'', ''would'', ''there'', ''their'', ''they'', ''them'', ''then'', ''than'']"

definition Tokens :: "(string \<Rightarrow> string) \<Rightarrow> string \<Rightarrow> string list" where
  "Tokens ulow text = filter (\<lambda>token. \<not> (length token < 3 \<or> Stopword token)) (map Stem (LowerAlnum ulow text))"

record turnContentSearchPlan =
  tp_TrimmedQuery :: string
  tp_Tokens :: "string list"
  tp_ExactPhrase :: bool

definition planTurnContentSearch :: "(string \<Rightarrow> string) \<Rightarrow> string \<Rightarrow> turnContentSearchPlan" where
  "planTurnContentSearch ulow query =
     (let trimmed = trim_space query in
      if trimmed = [] then \<lparr>tp_TrimmedQuery = [], tp_Tokens = [], tp_ExactPhrase = False\<rparr>
      else let tokens = UniqueTrimmed (Tokens ulow trimmed) False in
        \<lparr>tp_TrimmedQuery = trimmed, tp_Tokens = tokens, tp_ExactPhrase = (tokens = [])\<rparr>)"

definition percent :: "string \<Rightarrow> string" where
  "percent s = ''%'' @ s @ ''%''"

text \<open>SQLite's \<open>lower\<close> changes ASCII letters only.\<close>

definition content_predicate :: "(string \<Rightarrow> string \<Rightarrow> bool) \<Rightarrow> turnContentSearchPlan \<Rightarrow> string \<Rightarrow> bool" where
  "content_predicate like p content \<longleftrightarrow>
     (if tp_TrimmedQuery p = [] then True
      else if tp_ExactPhrase p then like (percent (tp_TrimmedQuery p)) content
      else list_all (\<lambda>token. like (percent token) (map ascii_lower content)) (tp_Tokens p))"

text \<open>The bytes of the class \<open>[\\w\\s*+"]\<close>; every other rune, and every invalid byte, becomes a blank.\<close>

definition fts_safe :: "char \<Rightarrow> bool" where
  "fts_safe c \<longleftrightarrow> (let b = byte c in
     48 \<le> b \<and> b \<le> 57 \<or> 65 \<le> b \<and> b \<le> 90 \<or> b = 95 \<or> 97 \<le> b \<and> b \<le> 122
     \<or> b = 9 \<or> b = 10 \<or> b = 12 \<or> b = 13 \<or> b = 32 \<or> b = 42 \<or> b = 43 \<or> b = 34)"

function replace_unsafe :: "string \<Rightarrow> string" where
  "replace_unsafe s =
     (if s = [] then []
      else if fts_safe (hd s) then hd s # replace_unsafe (tl s)
      else CHR '' '' # replace_unsafe (drop (max 1 (rune_len s)) s))"
  by pat_completeness auto
termination
  by (relation "measure length") auto

declare replace_unsafe.simps [simp del]

definition SanitizeFTS5Pattern :: "string \<Rightarrow> string" where
  "SanitizeFTS5Pattern raw = trim_space (replace_unsafe raw)"

record turnQueryPlan =
  qp_RawQuery :: string
  qp_FTSPattern :: string

definition planTurnQuery :: "string \<Rightarrow> turnQueryPlan" where
  "planTurnQuery rawQuery =
     (let trimmed = trim_space rawQuery in
      if trimmed = [] then \<lparr>qp_RawQuery = [], qp_FTSPattern = []\<rparr>
      else \<lparr>qp_RawQuery = trimmed, qp_FTSPattern = SanitizeFTS5Pattern trimmed\<rparr>)"

section \<open>The statement over sessions and chats\<close>

record TurnSearchScope =
  ts_SessionIDs :: "string list"
  ts_ChatKeys :: "string list"

definition newTurnSearchScope :: "string list \<Rightarrow> string list \<Rightarrow> TurnSearchScope" where
  "newTurnSearchScope sessionIDs chatKeys =
     \<lparr>ts_SessionIDs = UniqueTrimmed sessionIDs False, ts_ChatKeys = UniqueTrimmed chatKeys False\<rparr>"

text \<open>An \<open>IN\<close> of a null is not true.\<close>

definition scope_predicate :: "TurnSearchScope \<Rightarrow> turn_row \<Rightarrow> bool" where
  "scope_predicate sc r \<longleftrightarrow>
     (if ts_SessionIDs sc = [] \<and> ts_ChatKeys sc = [] then False
      else tu_SessionID r \<in> set (ts_SessionIDs sc)
        \<or> (case tu_ChatID r of None \<Rightarrow> False | Some c \<Rightarrow> c \<in> set (ts_ChatKeys sc)))"

definition normalizeRoles :: "(string \<Rightarrow> string) \<Rightarrow> string list \<Rightarrow> string list" where
  "normalizeRoles ulow roles = Unique roles (Lower ulow) False"

text \<open>\<open>ORDER BY ts_unix DESC, id DESC LIMIT ?\<close>; a negative limit is none.\<close>

definition latest_first :: "int \<Rightarrow> (int \<times> turn_row) list \<Rightarrow> (int \<times> turn_row) list" where
  "latest_first limit rs = (let os = order_desc (\<lambda>(i, r). (tu_TsUnix r, i)) rs in if limit < 0 then os else take (nat limit) os)"

lemma latest_first_in: "x \<in> set (latest_first limit rs) \<Longrightarrow> x \<in> set rs"
  by (auto simp: latest_first_def Let_def dest: in_set_takeD split: if_splits)

definition BuildTurnSearchQuery :: "(string \<Rightarrow> string) \<Rightarrow> (string \<Rightarrow> string \<Rightarrow> bool) \<Rightarrow> (string \<Rightarrow> string \<Rightarrow> bool) \<Rightarrow> string
    \<Rightarrow> string list \<Rightarrow> string list \<Rightarrow> string list \<Rightarrow> int \<Rightarrow> turn_row atable \<Rightarrow> (int \<times> turn_row) list" where
  "BuildTurnSearchQuery ulow fts like rawQuery sessionIDs chatKeys roles limit t =
     (let sc = newTurnSearchScope sessionIDs chatKeys; query = planTurnQuery rawQuery; normalizedRoles = normalizeRoles ulow roles in
      latest_first limit
        (filter (\<lambda>(i, r).
            (if qp_FTSPattern query \<noteq> [] then fts (qp_FTSPattern query) (tu_Content r)
             else if qp_RawQuery query \<noteq> [] then like (percent (qp_RawQuery query)) (tu_Content r) else True)
            \<and> scope_predicate sc r
            \<and> tu_SyncStatus r = ''ready''
            \<and> (normalizedRoles = [] \<or> tu_Role r \<in> set normalizedRoles))
          (arows t)))"

section \<open>Source filters (service/internal/sourcefilter, textutil/trimmed)\<close>

definition equal_fold :: "(string \<Rightarrow> string \<Rightarrow> bool) \<Rightarrow> string \<Rightarrow> string \<Rightarrow> bool" where
  "equal_fold ufold a b \<longleftrightarrow>
     (if list_all is_ascii a \<and> list_all is_ascii b then map ascii_lower a = map ascii_lower b else ufold a b)"

definition EqualFold :: "(string \<Rightarrow> string \<Rightarrow> bool) \<Rightarrow> string \<Rightarrow> string \<Rightarrow> bool" where
  "EqualFold ufold a b \<longleftrightarrow> equal_fold ufold (Space a) (Space b)"

definition hasWildcard :: "string list \<Rightarrow> bool" where
  "hasWildcard vs \<longleftrightarrow> list_ex (\<lambda>v. Space v = []) vs \<or> list_ex (\<lambda>v. Space v = ''*'') vs"

definition Allows :: "(string \<Rightarrow> string \<Rightarrow> bool) \<Rightarrow> string list \<Rightarrow> string \<Rightarrow> bool \<Rightarrow> bool" where
  "Allows ufold sources sourceType emptySourceAllowed \<longleftrightarrow>
     (if sources = [] \<or> hasWildcard sources then True
      else if Space sourceType = [] then emptySourceAllowed
      else list_ex (\<lambda>v. EqualFold ufold v sourceType) sources)"

definition AllowsKindOrOrigin :: "(string \<Rightarrow> string \<Rightarrow> bool) \<Rightarrow> string list \<Rightarrow> string \<Rightarrow> string \<Rightarrow> bool \<Rightarrow> bool" where
  "AllowsKindOrOrigin ufold sources kind origin emptySourceAllowed \<longleftrightarrow>
     (if sources = [] \<or> hasWildcard sources then True
      else if Allows ufold sources kind emptySourceAllowed then True
      else Allows ufold sources origin emptySourceAllowed)"

section \<open>The turns of one session key\<close>

definition strings_Cut :: "string \<Rightarrow> char \<Rightarrow> string \<times> string \<times> bool" where
  "strings_Cut s c = (if c \<in> set s then (takeWhile (\<lambda>x. x \<noteq> c) s, tl (dropWhile (\<lambda>x. x \<noteq> c) s), True) else (s, [], False))"

definition OriginSourceFromChatKey :: "string \<Rightarrow> string" where
  "OriginSourceFromChatKey chatKey =
     (case strings_Cut (trim_space chatKey) (CHR '':'') of (source, _, found) \<Rightarrow> if found then source else [])"

record SearchLineage =
  li_ParentSessionID :: string
  li_LineageKind :: string
  li_ChildSessionIDs :: "string list"
  li_Status :: string

definition unavailable_lineage :: SearchLineage where
  "unavailable_lineage = \<lparr>li_ParentSessionID = [], li_LineageKind = [], li_ChildSessionIDs = [], li_Status = ''unavailable''\<rparr>"

record SearchHit =
  sh_Source :: string
  sh_OriginSource :: string
  sh_Content :: string
  sh_SessionKey :: string
  sh_Lineage :: "SearchLineage option"

definition turn_hit :: "string \<Rightarrow> turn_row \<Rightarrow> SearchHit" where
  "turn_hit sessionKey r =
     (let chatID = (case tu_ChatID r of None \<Rightarrow> [] | Some c \<Rightarrow> c) in
      \<lparr>sh_Source = ''turn'', sh_OriginSource = OriginSourceFromChatKey (FirstNonBlank [chatID, sessionKey]),
       sh_Content = tu_Content r, sh_SessionKey = FirstNonBlank [tu_SessionID r, sessionKey], sh_Lineage = None\<rparr>)"

definition attachUnavailableLineageToTurnHits :: "SearchHit list \<Rightarrow> SearchHit list" where
  "attachUnavailableLineageToTurnHits hits =
     map (\<lambda>h. if sh_Source h \<noteq> ''turn'' \<or> sh_Lineage h \<noteq> None then h else h\<lparr>sh_Lineage := Some unavailable_lineage\<rparr>) hits"

definition SessionKeyMatchesSources :: "(string \<Rightarrow> string) \<Rightarrow> (string \<Rightarrow> string \<Rightarrow> bool) \<Rightarrow> string \<Rightarrow> string list \<Rightarrow> bool" where
  "SessionKeyMatchesSources ulow ufold sessionKey sources \<longleftrightarrow>
     (if sources = [] \<or> HasWildcard sources then True
      else case strings_Cut (trim_space sessionKey) (CHR '':'') of
        (source, _, found) \<Rightarrow>
          if \<not> found then AllowsKindOrOrigin ufold sources ''turn'' [] False
          else AllowsKindOrOrigin ufold sources ''turn'' (Lower ulow source) False)"

datatype turn_error = TurnsDb | ScanTurn

datatype turn_site = TurnQuery | TurnRow nat

text \<open>The rows that \<open>findTurns\<close> selects; the session key is compared as it was given.\<close>

definition findTurns_rows :: "(string \<Rightarrow> string) \<Rightarrow> (string \<Rightarrow> string \<Rightarrow> bool) \<Rightarrow> string \<Rightarrow> string \<Rightarrow> Compiled \<Rightarrow> int \<Rightarrow> turn_row atable
    \<Rightarrow> (int \<times> turn_row) list" where
  "findTurns_rows ulow like query sessionKey f limit t =
     latest_first limit
       (filter (\<lambda>(i, r).
           (tu_ChatID r = Some sessionKey \<or> tu_SessionID r = sessionKey)
           \<and> tu_SyncStatus r = ''ready''
           \<and> (if SessionIDs f \<noteq> [] \<and> \<not> HasWildcard (SessionIDs f) then tu_SessionID r \<in> set (SessionIDs f) else True)
           \<and> content_predicate like (planTurnContentSearch ulow query) (tu_Content r))
         (arows t))"

definition findTurns :: "(string \<Rightarrow> string) \<Rightarrow> (string \<Rightarrow> string \<Rightarrow> bool) \<Rightarrow> (string \<Rightarrow> string \<Rightarrow> bool) \<Rightarrow> (turn_site \<Rightarrow> bool) \<Rightarrow> string
    \<Rightarrow> string \<Rightarrow> Compiled \<Rightarrow> int \<Rightarrow> turn_row atable \<Rightarrow> turn_error + SearchHit list" where
  "findTurns ulow ufold like flt query sessionKey f limit t =
     (if trim_space sessionKey = [] then Inr []
      else if \<not> SessionKeyMatchesSources ulow ufold sessionKey (Sources f) then Inr []
      else if flt TurnQuery then Inl TurnsDb
      else
        let rows = findTurns_rows ulow like query sessionKey f limit t in
        if list_ex (\<lambda>n. flt (TurnRow n)) [0..<Suc (length rows)] then Inl TurnsDb
        else Inr (map (\<lambda>(i, r). turn_hit sessionKey r) rows))"

lemma findTurns_hit:
  assumes "findTurns ulow ufold like flt query sessionKey f limit t = Inr hits" "h \<in> set (attachUnavailableLineageToTurnHits hits)"
  shows "\<exists>i r. (i, r) \<in> set (arows t) \<and> tu_SyncStatus r = ''ready'' \<and> sh_Content h = tu_Content r
    \<and> (tu_ChatID r = Some sessionKey \<or> tu_SessionID r = sessionKey)"
  using assms
  by (fastforce simp: findTurns_def findTurns_rows_def attachUnavailableLineageToTurnHits_def turn_hit_def Let_def
      split: if_splits dest: latest_first_in)

end
