(* ===== verification/SessionContext.thy ===== *)
theory SessionContext
  imports MemorySystem TurnSearch
begin

text \<open>
  What a session contributes to the context of a prompt (\<open>retrievalModule.Context\<close> and the session statements of
  \<open>service/sql.go\<close>): the two deterministic summaries of a session, which are refreshed before they are read, the
  split of the token budget between summary and messages (\<open>service/internal/contexttokens\<close>), and the recent
  messages after the summary.
\<close>

section \<open>Token budgets\<close>

definition EffectiveContextLimit :: "int \<Rightarrow> int \<Rightarrow> int" where
  "EffectiveContextLimit tokens maxTokens = (if 0 < tokens then tokens else maxTokens)"

definition EffectiveSearchLimit :: "int \<Rightarrow> int \<Rightarrow> int" where
  "EffectiveSearchLimit tokens maxTokens = (if 0 < maxTokens then maxTokens else tokens)"

text \<open>\<open>int(x)\<close> truncates; out of range the value is the one of amd64.\<close>

fun float_int :: "float64 \<Rightarrow> int" where
  "float_int (FNum q) = (let n = (if 0 \<le> q then \<lfloor>q\<rfloor> else - \<lfloor>- q\<rfloor>) in if - (2 ^ 63) \<le> n \<and> n < 2 ^ 63 then n else - (2 ^ 63))"
| "float_int (FZero s) = 0"
| "float_int _ = - (2 ^ 63)"

definition SplitSummaryMessageBudget :: "int \<Rightarrow> int \<times> int" where
  "SplitSummaryMessageBudget tokenLimit =
     (if tokenLimit \<le> 0 then (0, 0)
      else let summaryBudget = float_int (fmul (of_int64 tokenLimit) (flit (2 / 5))) in (summaryBudget, tokenLimit - summaryBudget))"

section \<open>Statements\<close>

datatype context_site = XCount | XPosition string | XGet string | XUpsert string | XSummaries | XRecent

datatype context_error = ContextDb context_site

record SessionSummary =
  su_Content :: string
  su_MessageID :: int
  su_SummaryType :: string
  su_CreatedAt :: int
  su_TokenCount :: int

record MessageSlice =
  sl_Role :: string
  sl_Content :: string

definition ss_key :: "sessionSummaryRow \<Rightarrow> string \<times> string \<times> string" where
  "ss_key r = (ss_WorkspaceID r, ss_SessionKey r, ss_SummaryType r)"

definition replace_summary :: "sessionSummaryRow \<Rightarrow> sessionSummaryRow \<Rightarrow> sessionSummaryRow" where
  "replace_summary x r = x\<lparr>ss_Content := ss_Content r, ss_MessageID := ss_MessageID r, ss_CreatedAt := ss_CreatedAt r,
     ss_TokenCount := ss_TokenCount r\<rparr>"

interpretation summaries: replacing_table ss_key replace_summary
  by unfold_locales (simp_all add: ss_key_def replace_summary_def)

definition upsertSessionSummary :: "(context_site \<Rightarrow> bool) \<Rightarrow> int \<Rightarrow> sessionSummaryRow \<Rightarrow> sessionSummaryRow list
    \<Rightarrow> (context_error + unit) \<times> sessionSummaryRow list" where
  "upsertSessionSummary flt now row t =
     (let createdAt = (if ss_CreatedAt row \<le> 0 then now else ss_CreatedAt row) in
      if flt (XUpsert (ss_SummaryType row)) then (Inl (ContextDb (XUpsert (ss_SummaryType row))), t)
      else (Inr (), tupsert ss_key replace_summary (row\<lparr>ss_CreatedAt := createdAt\<rparr>) t))"

definition summary_of :: "sessionSummaryRow \<Rightarrow> SessionSummary" where
  "summary_of r = \<lparr>su_Content = ss_Content r, su_MessageID = ss_MessageID r, su_SummaryType = ss_SummaryType r,
     su_CreatedAt = ss_CreatedAt r, su_TokenCount = ss_TokenCount r\<rparr>"

definition getSessionSummary :: "(context_site \<Rightarrow> bool) \<Rightarrow> string \<Rightarrow> string \<Rightarrow> string \<Rightarrow> sessionSummaryRow list
    \<Rightarrow> context_error + SessionSummary option" where
  "getSessionSummary flt ws sessionKey summaryType t =
     (if flt (XGet summaryType) then Inl (ContextDb (XGet summaryType))
      else Inr (map_option summary_of (tfind ss_key (ws, sessionKey, summaryType) t)))"

text \<open>The loop over the rows keeps the last row of each type; the primary key admits one.\<close>

definition getSessionSummaries :: "(context_site \<Rightarrow> bool) \<Rightarrow> string \<Rightarrow> string \<Rightarrow> sessionSummaryRow list
    \<Rightarrow> context_error + SessionSummary option \<times> SessionSummary option" where
  "getSessionSummaries flt ws sessionKey t =
     (if flt XSummaries then Inl (ContextDb XSummaries)
      else Inr (fold (\<lambda>r (short, long).
          if ss_SummaryType r = ''short'' then (Some (summary_of r), long)
          else if ss_SummaryType r = ''long'' then (short, Some (summary_of r)) else (short, long))
        (filter (\<lambda>r. ss_WorkspaceID r = ws \<and> ss_SessionKey r = sessionKey) t) (None, None)))"

text \<open>The condition of the four statements on the turns of a session; it does not name the workspace.\<close>

definition session_turn :: "string \<Rightarrow> turn_row \<Rightarrow> bool" where
  "session_turn sessionKey r \<longleftrightarrow> (tu_ChatID r = Some sessionKey \<or> tu_SessionID r = sessionKey) \<and> tu_SyncStatus r = ''ready''"

definition countReadySessionTurns :: "(context_site \<Rightarrow> bool) \<Rightarrow> string \<Rightarrow> turn_row atable \<Rightarrow> context_error + int" where
  "countReadySessionTurns flt sessionKey t =
     (if flt XCount then Inl (ContextDb XCount) else Inr (int (length (filter (\<lambda>(i, r). session_turn sessionKey r) (arows t)))))"

definition by_time :: "int \<times> turn_row \<Rightarrow> int \<times> int" where
  "by_time = (\<lambda>(i, r). (tu_TsUnix r, i))"

definition readySessionTurnIDAtPosition :: "(context_site \<Rightarrow> bool) \<Rightarrow> string \<Rightarrow> string \<Rightarrow> int \<Rightarrow> turn_row atable \<Rightarrow> context_error + int" where
  "readySessionTurnIDAtPosition flt summaryType sessionKey position t =
     (if position \<le> 0 then Inr 0
      else if flt (XPosition summaryType) then Inl (ContextDb (XPosition summaryType))
      else Inr (case drop (nat (position - 1)) (order_asc by_time (filter (\<lambda>(i, r). session_turn sessionKey r) (arows t))) of
          [] \<Rightarrow> 0 | (i, r) # _ \<Rightarrow> i))"

definition slice_of :: "int \<times> turn_row \<Rightarrow> MessageSlice" where
  "slice_of = (\<lambda>(i, r). \<lparr>sl_Role = tu_Role r, sl_Content = tu_Content r\<rparr>)"

definition turns_after :: "string \<Rightarrow> int \<Rightarrow> turn_row atable \<Rightarrow> (int \<times> turn_row) list" where
  "turns_after sessionKey afterID t = filter (\<lambda>(i, r). session_turn sessionKey r \<and> afterID < i) (arows t)"

definition recentTurnsAfter :: "(context_site \<Rightarrow> bool) \<Rightarrow> string \<Rightarrow> int \<Rightarrow> int \<Rightarrow> turn_row atable \<Rightarrow> context_error + MessageSlice list" where
  "recentTurnsAfter flt sessionKey afterID limit t =
     (if flt XRecent then Inl (ContextDb XRecent)
      else Inr (rev (map slice_of (latest_first limit (turns_after sessionKey afterID t)))))"

text \<open>The loop over the rows, which stops at the first message that does not fit.\<close>

fun budget_loop :: "int \<Rightarrow> int \<Rightarrow> MessageSlice list \<Rightarrow> MessageSlice list" where
  "budget_loop tokenBudget used [] = []"
| "budget_loop tokenBudget used (msg # msgs) =
     (if \<not> FitsTokenBudget used (ApproxTokens (sl_Content msg)) tokenBudget False then []
      else msg # budget_loop tokenBudget (used + ApproxTokens (sl_Content msg)) msgs)"

definition recentTurnsByTokenBudget :: "(context_site \<Rightarrow> bool) \<Rightarrow> string \<Rightarrow> int \<Rightarrow> int \<Rightarrow> turn_row atable \<Rightarrow> context_error + MessageSlice list" where
  "recentTurnsByTokenBudget flt sessionKey afterID tokenBudget t =
     (if tokenBudget \<le> 0 then Inr []
      else if flt XRecent then Inl (ContextDb XRecent)
      else Inr (rev (budget_loop tokenBudget 0 (map slice_of (latest_first (- 1) (turns_after sessionKey afterID t))))))"

section \<open>Summaries\<close>

definition defaultShortSummaryCadence :: int where
  "defaultShortSummaryCadence = 20"

definition defaultLongSummaryCadence :: int where
  "defaultLongSummaryCadence = 60"

definition deterministicSummaryContent :: "string \<Rightarrow> string \<Rightarrow> int \<Rightarrow> int \<Rightarrow> string" where
  "deterministicSummaryContent sessionKey summaryType coveredCount messageID =
     (if summaryType = ''long'' then ''long comprehensive summary for session '' @ sessionKey @ '' covers '' @ Decimal coveredCount
        @ '' messages through message '' @ Decimal messageID @ ''.''
      else ''short summary for session '' @ sessionKey @ '' covers '' @ Decimal coveredCount @ '' messages through message ''
        @ Decimal messageID @ ''.'')"

definition refreshSessionSummarySlot :: "(context_site \<Rightarrow> bool) \<Rightarrow> int \<Rightarrow> string \<Rightarrow> string \<Rightarrow> string \<Rightarrow> int \<Rightarrow> int \<Rightarrow> service_db
    \<Rightarrow> (context_error + unit) \<times> service_db" where
  "refreshSessionSummarySlot flt now ws sessionKey summaryType cadence turnCount db =
     (if cadence \<le> 0 \<or> turnCount < cadence then (Inr (), db)
      else
        let coveredCount = turnCount div cadence * cadence in
        case readySessionTurnIDAtPosition flt summaryType sessionKey coveredCount (db_turns db) of
          Inl e \<Rightarrow> (Inl e, db)
        | Inr messageID \<Rightarrow>
            if messageID = 0 then (Inr (), db)
            else (case getSessionSummary flt ws sessionKey summaryType (db_summaries db) of
                Inl e \<Rightarrow> (Inl e, db)
              | Inr existing \<Rightarrow>
                  if (case existing of None \<Rightarrow> False | Some s \<Rightarrow> messageID \<le> su_MessageID s) then (Inr (), db)
                  else
                    let content = deterministicSummaryContent sessionKey summaryType coveredCount messageID in
                    case upsertSessionSummary flt now \<lparr>ss_WorkspaceID = ws, ss_SessionKey = sessionKey, ss_SummaryType = summaryType,
                        ss_Content = content, ss_MessageID = messageID, ss_CreatedAt = 0, ss_TokenCount = ApproxTokens content\<rparr>
                        (db_summaries db) of
                      (res, t1) \<Rightarrow> (res, db\<lparr>db_summaries := t1\<rparr>)))"

text \<open>\<open>now\<close> gives the clock reading of each slot.\<close>

definition refreshSessionSummaries :: "(context_site \<Rightarrow> bool) \<Rightarrow> (string \<Rightarrow> int) \<Rightarrow> string \<Rightarrow> string \<Rightarrow> service_db
    \<Rightarrow> (context_error + int) \<times> service_db" where
  "refreshSessionSummaries flt now ws sessionKey db =
     (case countReadySessionTurns flt sessionKey (db_turns db) of
        Inl e \<Rightarrow> (Inl e, db)
      | Inr count \<Rightarrow>
          (case refreshSessionSummarySlot flt (now ''short'') ws sessionKey ''short'' defaultShortSummaryCadence count db of
             (Inl e, db1) \<Rightarrow> (Inl e, db1)
           | (Inr _, db1) \<Rightarrow>
               (case refreshSessionSummarySlot flt (now ''long'') ws sessionKey ''long'' defaultLongSummaryCadence count db1 of
                  (Inl e, db2) \<Rightarrow> (Inl e, db2)
                | (Inr _, db2) \<Rightarrow> (Inr count, db2))))"

definition first_fitting :: "int \<Rightarrow> SessionSummary option \<Rightarrow> SessionSummary option \<Rightarrow> SessionSummary option \<times> string" where
  "first_fitting summaryBudget short long =
     (if (case long of None \<Rightarrow> False | Some s \<Rightarrow> su_TokenCount s \<le> summaryBudget) then (long, [])
      else if (case short of None \<Rightarrow> False | Some s \<Rightarrow> su_TokenCount s \<le> summaryBudget) then (short, [])
      else (None, ''session summaries exceed the '' @ Decimal summaryBudget @ ''-token summary budget''))"

definition selectSessionContextSummary :: "(context_site \<Rightarrow> bool) \<Rightarrow> string \<Rightarrow> string \<Rightarrow> int \<Rightarrow> sessionSummaryRow list
    \<Rightarrow> context_error + SessionSummary option \<times> string" where
  "selectSessionContextSummary flt ws sessionKey tokenLimit t =
     (case getSessionSummaries flt ws sessionKey t of
        Inl e \<Rightarrow> Inl e
      | Inr (short, long) \<Rightarrow>
          if short = None \<and> long = None then Inr (None, ''no session summary is available yet'')
          else if tokenLimit \<le> 0 then Inr (if long \<noteq> None then long else short, [])
          else Inr (first_fitting (fst (SplitSummaryMessageBudget tokenLimit)) short long))"

section \<open>The session part of a context\<close>

record ContextUnavailableEvidence =
  cu_Field :: string
  cu_Capability :: string
  cu_Reason :: string

definition summaryAbsentEvidence :: "string \<Rightarrow> ContextUnavailableEvidence" where
  "summaryAbsentEvidence reason = \<lparr>cu_Field = ''summary_absent'', cu_Capability = ''session_summary'',
     cu_Reason = (if trim_space reason = [] then ''no session summary could fit in the requested token budget'' else reason)\<rparr>"

record session_part =
  sp_Summary :: "SessionSummary option"
  sp_RecentMessages :: "MessageSlice list"
  sp_Unavailable :: "ContextUnavailableEvidence list"

definition recent_messages :: "(context_site \<Rightarrow> bool) \<Rightarrow> memory_service \<Rightarrow> string \<Rightarrow> int \<Rightarrow> int \<Rightarrow> int \<Rightarrow> turn_row atable
    \<Rightarrow> context_error + MessageSlice list" where
  "recent_messages flt s sessionKey messageStartID tokenLimit messageBudget t =
     (if 0 < tokenLimit then recentTurnsByTokenBudget flt sessionKey messageStartID messageBudget t
      else recentTurnsAfter flt sessionKey messageStartID (ms_recentLimit s) t)"

text \<open>Where the recent messages start and what they may cost.\<close>

definition start_after :: "SessionSummary option \<Rightarrow> int" where
  "start_after summary = (case summary of None \<Rightarrow> 0 | Some x \<Rightarrow> su_MessageID x)"

definition message_budget :: "SessionSummary option \<Rightarrow> int \<Rightarrow> int" where
  "message_budget summary tokenLimit =
     (if summary \<noteq> None \<and> 0 < tokenLimit then snd (SplitSummaryMessageBudget tokenLimit) else tokenLimit)"

definition with_recent :: "(context_site \<Rightarrow> bool) \<Rightarrow> memory_service \<Rightarrow> string \<Rightarrow> int \<Rightarrow> SessionSummary option
    \<Rightarrow> ContextUnavailableEvidence list \<Rightarrow> turn_row atable \<Rightarrow> context_error + session_part" where
  "with_recent flt s sessionKey tokenLimit summary unavailable t =
     (case recent_messages flt s sessionKey (start_after summary) tokenLimit (message_budget summary tokenLimit) t of
        Inl e \<Rightarrow> Inl e
      | Inr msgs \<Rightarrow> Inr \<lparr>sp_Summary = summary, sp_RecentMessages = msgs, sp_Unavailable = unavailable\<rparr>)"

text \<open>\<open>Context\<close> from the empty \<open>recentMessages\<close> on, for a trimmed session key.\<close>

definition context_session :: "(context_site \<Rightarrow> bool) \<Rightarrow> (string \<Rightarrow> int) \<Rightarrow> memory_service \<Rightarrow> string \<Rightarrow> bool \<Rightarrow> int \<Rightarrow> service_db
    \<Rightarrow> (context_error + session_part) \<times> service_db" where
  "context_session flt now s sessionKey includeSummary tokenLimit db =
     (if sessionKey = [] then (Inr \<lparr>sp_Summary = None, sp_RecentMessages = [], sp_Unavailable = []\<rparr>, db)
      else case refreshSessionSummaries flt now (ms_workspaceID s) sessionKey db of
        (Inl e, db1) \<Rightarrow> (Inl e, db1)
      | (Inr turnCount, db1) \<Rightarrow>
          (if \<not> includeSummary then (with_recent flt s sessionKey tokenLimit None [] (db_turns db1), db1)
           else case selectSessionContextSummary flt (ms_workspaceID s) sessionKey tokenLimit (db_summaries db1) of
             Inl e \<Rightarrow> (Inl e, db1)
           | Inr (summary, reason) \<Rightarrow>
               (with_recent flt s sessionKey tokenLimit summary
                  (if summary = None \<and> 0 < tokenLimit \<and> 0 < turnCount then [summaryAbsentEvidence reason] else []) (db_turns db1), db1)))"

section \<open>The budget\<close>

lemma fmul_commute: "fmul x y = fmul y x"
  by (cases x; cases y) (auto simp: fmul_def mult.commute intro!: arg_cong2 [where f = fround])

lemma summary_budget_bounds:
  assumes "0 < n" "n < 2 ^ 53"
  shows "0 \<le> fst (SplitSummaryMessageBudget n)" "fst (SplitSummaryMessageBudget n) \<le> n"
    "snd (SplitSummaryMessageBudget n) = n - fst (SplitSummaryMessageBudget n)"
proof -
  have n: "of_int64 n = FNum (of_int n)" using fround_of_int [of n False] assms by (simp add: of_int64_def)
  have "between 0 1 (flit (2 / 5))" by code_simp
  from fmul_between [OF this assms] have b: "between 0 (of_int n) (fmul (of_int64 n) (flit (2 / 5)))"
    unfolding n by (simp only: fmul_commute)
  have "0 \<le> float_int (fmul (of_int64 n) (flit (2 / 5))) \<and> float_int (fmul (of_int64 n) (flit (2 / 5))) \<le> n"
  proof (cases "fmul (of_int64 n) (flit (2 / 5))")
    case (FNum q)
    with b have q: "0 \<le> q" "q \<le> of_int n" by simp_all
    then have "0 \<le> \<lfloor>q\<rfloor>" "\<lfloor>q\<rfloor> \<le> n" using floor_mono [of q "of_int n"] by simp_all
    with FNum q assms show ?thesis by (simp add: Let_def)
  qed (use b assms in auto)
  with assms show "0 \<le> fst (SplitSummaryMessageBudget n)" "fst (SplitSummaryMessageBudget n) \<le> n"
    "snd (SplitSummaryMessageBudget n) = n - fst (SplitSummaryMessageBudget n)"
    by (simp_all add: SplitSummaryMessageBudget_def Let_def)
qed

definition slice_tokens :: "MessageSlice list \<Rightarrow> int" where
  "slice_tokens ms = sum_list (map (\<lambda>m. ApproxTokens (sl_Content m)) ms)"

lemma slice_tokens_simps [simp]:
  "slice_tokens [] = 0" "slice_tokens (m # ms) = ApproxTokens (sl_Content m) + slice_tokens ms"
  "slice_tokens (xs @ ys) = slice_tokens xs + slice_tokens ys" "slice_tokens (rev xs) = slice_tokens xs"
  by (simp_all add: slice_tokens_def sum_list_rev flip: rev_map)

lemma budget_loop_take:
  assumes "0 < b" "used \<le> b"
  obtains k where "budget_loop b used ms = take k ms" "used + slice_tokens (take k ms) \<le> b" "k \<le> length ms"
    "k < length ms \<Longrightarrow> b < used + slice_tokens (take (Suc k) ms)"
proof -
  have "\<exists>k. budget_loop b used ms = take k ms \<and> used + slice_tokens (take k ms) \<le> b \<and> k \<le> length ms
      \<and> (k < length ms \<longrightarrow> b < used + slice_tokens (take (Suc k) ms))"
    using assms(2)
  proof (induction ms arbitrary: used)
    case (Cons m ms)
    show ?case
    proof (cases "used + ApproxTokens (sl_Content m) \<le> b")
      case True
      from Cons.IH [OF this] obtain k where "budget_loop b (used + ApproxTokens (sl_Content m)) ms = take k ms"
          "used + ApproxTokens (sl_Content m) + slice_tokens (take k ms) \<le> b" "k \<le> length ms"
          "k < length ms \<longrightarrow> b < used + ApproxTokens (sl_Content m) + slice_tokens (take (Suc k) ms)" by blast
      with True assms(1) show ?thesis by (intro exI [of _ "Suc k"]) (auto simp: FitsTokenBudget_def Let_def)
    next
      case False
      with Cons.prems assms(1) show ?thesis by (intro exI [of _ 0]) (simp add: FitsTokenBudget_def Let_def)
    qed
  qed simp
  with that show ?thesis by blast
qed

lemma latest_first_rev: "rev (map f (latest_first (- 1) rs)) = map f (order_asc by_time rs)"
  by (simp add: latest_first_def order_desc_def order_asc_def by_time_def rev_map)

lemma latest_first_limit: "0 \<le> l \<Longrightarrow> rev (map f (latest_first l rs)) = drop (length rs - nat l) (map f (order_asc by_time rs))"
  by (simp add: latest_first_def order_desc_def order_asc_def by_time_def rev_map Let_def take_rev flip: drop_map)

lemma drop_last: "0 < length xs \<Longrightarrow> drop (length xs - 1) xs = [last xs]"
  by (cases xs rule: rev_cases) simp_all

lemma last_over_budget: "0 < length xs \<Longrightarrow> b \<le> 0 \<Longrightarrow> b < slice_tokens (drop (length xs - 1) xs)"
  using ApproxTokens_pos [of "sl_Content (last xs)"] by (subst drop_last) simp_all

text \<open>The recent messages within a budget: the longest run of last messages that fits.\<close>

lemma recent_by_budget:
  assumes "recentTurnsByTokenBudget flt sk start b t = Inr ms"
  obtains k where "ms = drop k (map slice_of (order_asc by_time (turns_after sk start t)))" "slice_tokens ms \<le> max b 0"
    "k \<le> length (turns_after sk start t)"
    "0 < k \<Longrightarrow> b < slice_tokens (drop (k - 1) (map slice_of (order_asc by_time (turns_after sk start t))))"
proof (cases "b \<le> 0")
  case True
  let ?all = "map slice_of (order_asc by_time (turns_after sk start t))"
  have more: "b < slice_tokens (drop (length ?all - 1) ?all)" if "0 < length ?all"
    using last_over_budget [OF that True] .
  from True assms have "ms = []" by (simp add: recentTurnsByTokenBudget_def)
  with more show ?thesis by (intro that [of "length ?all"]) auto
next
  case False
  let ?all = "map slice_of (order_asc by_time (turns_after sk start t))"
  have r: "map slice_of (latest_first (- 1) (turns_after sk start t)) = rev ?all"
    using latest_first_rev [of slice_of "turns_after sk start t"] by (metis rev_rev_ident)
  from False have b: "0 < b" "0 \<le> b" by simp_all
  obtain k where k: "budget_loop b 0 (rev ?all) = take k (rev ?all)" "0 + slice_tokens (take k (rev ?all)) \<le> b" "k \<le> length (rev ?all)"
      "k < length (rev ?all) \<Longrightarrow> b < 0 + slice_tokens (take (Suc k) (rev ?all))"
    using budget_loop_take [OF b, of "rev ?all"] by blast
  let ?n = "length ?all - k"
  have ms: "ms = drop ?n ?all" using assms False k(1) by (simp add: recentTurnsByTokenBudget_def r take_rev split: if_splits)
  have tk: "slice_tokens (take j (rev ?all)) = slice_tokens (drop (length ?all - j) ?all)" for j
    by (simp only: take_rev slice_tokens_simps length_rev)
  show ?thesis
  proof (rule that [of ?n, OF ms])
    show "slice_tokens ms \<le> max b 0" using k(2) tk [of k] ms by simp
    assume "0 < ?n"
    then show "b < slice_tokens (drop (?n - 1) ?all)" using k(4) tk [of "Suc k"] by simp
  qed simp
qed

section \<open>Histories\<close>

text \<open>Contexts refresh the summaries between the calls of the memory system.\<close>

datatype session_event =
    EvMemory memory_event
  | EvContext "context_site \<Rightarrow> bool" "string \<Rightarrow> int" memory_service string bool int

fun session_step :: "(string \<Rightarrow> string) \<Rightarrow> (string \<Rightarrow> string) \<Rightarrow> session_event \<Rightarrow> service_db \<Rightarrow> service_db" where
  "session_step sha ulow (EvMemory e) db = memory_step sha ulow e db"
| "session_step sha ulow (EvContext flt now s key inc limit) db = snd (context_session flt now s (trim_space key) inc limit db)"

definition summary_ok :: "sessionSummaryRow \<Rightarrow> bool" where
  "summary_ok r \<longleftrightarrow> ss_TokenCount r = ApproxTokens (ss_Content r) \<and> ss_SummaryType r \<in> {''short'', ''long''}
     \<and> (\<exists>n. ss_Content r = deterministicSummaryContent (ss_SessionKey r) (ss_SummaryType r) n (ss_MessageID r))"

definition summaries_ok :: "service_db \<Rightarrow> bool" where
  "summaries_ok db \<longleftrightarrow> unique_keys ss_key (db_summaries db) \<and> list_all summary_ok (db_summaries db)"

lemma tdelete_nothing: "tdelete (\<lambda>_. False) t = t"
  by (simp add: tdelete_def)

lemma memory_step_summaries: "\<exists>p. db_summaries (memory_step sha ulow e db) = tdelete p (db_summaries db)"
proof -
  have same: "db_summaries db' = db_summaries db \<Longrightarrow> \<exists>p. db_summaries db' = tdelete p (db_summaries db)" for db'
    by (intro exI [of _ "\<lambda>_. False"]) (simp add: tdelete_nothing)
  show ?thesis
  proof (cases e)
    case (EvAttempt fails now s key inputs)
    show ?thesis unfolding EvAttempt
      by (rule same, rule createMessagesOnce_cases [OF trim_space_idem [of key], of fails now s inputs db]) simp_all
  next
    case (EvDeleteSession fails s key)
    then show ?thesis by (auto simp: DeleteSession_def Let_def intro: same split: option.split)
  next
    case (EvDeleteWorkspace fails s)
    then show ?thesis by (auto simp: DeleteWorkspace_def Let_def intro: same split: option.split)
  next
    case (EvAssistantTurn failed now sid peer content hasMeta)
    show ?thesis unfolding EvAssistantTurn by (rule same) (simp add: insertAssistantChatTurn_def)
  next
    case (EvConclusion c)
    show ?thesis unfolding EvConclusion
      by (rule same, cases c) (simp_all add: Conclude_other_tables set_status_def)
  qed (auto intro!: same simp: SetProfile_def SetProfileForTarget_def SetProfileInNamespace_def upsertPeerCard_def Let_def split: sum.split)
qed

lemma upsert_summary_ok:
  assumes "summary_ok row" "summaries_ok db"
  shows "summaries_ok (db\<lparr>db_summaries := tupsert ss_key replace_summary row (db_summaries db)\<rparr>)"
proof -
  have "summary_ok x" if "x \<in> set (tupsert ss_key replace_summary row (db_summaries db))" for x
    using summaries.upsert_rows [of row "db_summaries db"] that assms by (auto simp: summaries_ok_def list_all_iff)
  then show ?thesis using assms(2) by (simp add: summaries_ok_def list_all_iff)
qed

lemma slot_ok:
  assumes "summaries_ok db" "summaryType \<in> {''short'', ''long''}"
  shows "summaries_ok (snd (refreshSessionSummarySlot flt now ws sk summaryType c n db))"
proof -
  have "summary_ok (row\<lparr>ss_CreatedAt := x\<rparr>) = summary_ok row" for row x by (simp add: summary_ok_def)
  then show ?thesis using assms
    by (auto simp: refreshSessionSummarySlot_def Let_def upsertSessionSummary_def summary_ok_def intro!: upsert_summary_ok split: sum.split)
qed

lemma refresh_ok: "summaries_ok db \<Longrightarrow> summaries_ok (snd (refreshSessionSummaries flt now ws sk db))"
  using slot_ok [of db "''short''"] slot_ok [of _ "''long''"]
  by (auto simp: refreshSessionSummaries_def split: sum.split prod.split) (metis snd_conv)+

lemma context_db: "snd (context_session flt now s sk inc limit db) = (if sk = [] then db else snd (refreshSessionSummaries flt now (ms_workspaceID s) sk db))"
  by (auto simp: context_session_def Let_def split: sum.split prod.split)

interpretation contexts: machine "session_step sha ulow" summaries_ok for sha ulow
proof
  fix e :: session_event and db :: service_db
  assume ok: "summaries_ok db"
  show "summaries_ok (session_step sha ulow e db)"
  proof (cases e)
    case (EvMemory m)
    obtain p where "db_summaries (memory_step sha ulow m db) = tdelete p (db_summaries db)" using memory_step_summaries by blast
    with ok EvMemory show ?thesis by (auto simp: summaries_ok_def list_all_iff)
  next
    case (EvContext flt now s key inc limit)
    with ok refresh_ok show ?thesis by (simp add: context_db)
  qed
qed

lemma summaries_ok_empty: "summaries_ok empty_db"
  by (simp add: summaries_ok_def empty_db_def)

section \<open>What a context holds\<close>

definition stored_summary :: "string \<Rightarrow> string \<Rightarrow> service_db \<Rightarrow> SessionSummary \<Rightarrow> bool" where
  "stored_summary ws sk db x \<longleftrightarrow> (\<exists>r \<in> set (db_summaries db). x = summary_of r \<and> ss_WorkspaceID r = ws \<and> ss_SessionKey r = sk)"

lemma fold_kept: "(\<And>x s. P s \<Longrightarrow> x \<in> set xs \<Longrightarrow> P (f x s)) \<Longrightarrow> P s \<Longrightarrow> P (fold f xs s)"
  by (induction xs arbitrary: s) auto

lemma getSessionSummaries_stored:
  assumes "getSessionSummaries flt ws sk (db_summaries db) = Inr (short, long)"
  shows "\<forall>x. short = Some x \<or> long = Some x \<longrightarrow> stored_summary ws sk db x"
proof -
  let ?f = "\<lambda>r (short, long). if ss_SummaryType r = ''short'' then (Some (summary_of r), long)
      else if ss_SummaryType r = ''long'' then (short, Some (summary_of r)) else (short, long)"
  let ?P = "\<lambda>(short, long). \<forall>x. short = Some x \<or> long = Some x \<longrightarrow> stored_summary ws sk db x"
  have "?P (fold ?f (filter (\<lambda>r. ss_WorkspaceID r = ws \<and> ss_SessionKey r = sk) (db_summaries db)) (None, None))"
    by (rule fold_kept) (auto simp: stored_summary_def split: if_splits)
  with assms show ?thesis by (simp add: getSessionSummaries_def split: if_splits)
qed

lemma select_stored:
  assumes "selectSessionContextSummary flt ws sk limit (db_summaries db) = Inr (Some x, reason)"
  shows "stored_summary ws sk db x" "0 < limit \<Longrightarrow> su_TokenCount x \<le> fst (SplitSummaryMessageBudget limit)"
proof -
  obtain short long where g: "getSessionSummaries flt ws sk (db_summaries db) = Inr (short, long)"
    using assms by (auto simp: selectSessionContextSummary_def split: sum.splits)
  from assms g have "short = Some x \<or> long = Some x"
    by (auto simp: selectSessionContextSummary_def first_fitting_def split: if_splits)
  with getSessionSummaries_stored [OF g] show "stored_summary ws sk db x" by blast
  show "su_TokenCount x \<le> fst (SplitSummaryMessageBudget limit)" if "0 < limit"
    using assms g that by (auto simp: selectSessionContextSummary_def first_fitting_def split: if_splits option.splits)
qed

lemma refresh_turns: "db_turns (snd (refreshSessionSummaries flt now ws sk db)) = db_turns db"
proof -
  have slot: "db_turns (snd (refreshSessionSummarySlot flt now ws sk ty c n db)) = db_turns db" for now ty c n db
    by (simp add: refreshSessionSummarySlot_def Let_def split: sum.split prod.split)
  then have "refreshSessionSummarySlot flt now ws sk ty c n db = (res, db') \<Longrightarrow> db_turns db' = db_turns db" for now ty c n db res db'
    by (metis snd_conv)
  then show ?thesis by (auto simp: refreshSessionSummaries_def split: sum.split prod.split)
qed

text \<open>A successful context: its summary is stored, and its messages are read with these bounds.\<close>

lemma context_session_cases:
  assumes "context_session flt now s sk inc limit db = (Inr r, db')" "sk \<noteq> []"
  shows "db_turns db' = db_turns db"
    "sp_Summary r = Some x \<Longrightarrow> stored_summary (ms_workspaceID s) sk db' x \<and> (0 < limit \<longrightarrow> su_TokenCount x \<le> fst (SplitSummaryMessageBudget limit))"
    "recent_messages flt s sk (start_after (sp_Summary r)) limit (message_budget (sp_Summary r) limit) (db_turns db) = Inr (sp_RecentMessages r)"
proof -
  obtain count where ref: "refreshSessionSummaries flt now (ms_workspaceID s) sk db = (Inr count, db')"
    using assms by (auto simp: context_session_def split: sum.splits prod.splits if_splits)
  then show turns: "db_turns db' = db_turns db" using refresh_turns by (metis snd_conv)
  from assms ref obtain unavailable where w: "with_recent flt s sk limit (sp_Summary r) unavailable (db_turns db') = Inr r"
    by (auto simp: context_session_def with_recent_def split: sum.splits if_splits)
  then show "recent_messages flt s sk (start_after (sp_Summary r)) limit (message_budget (sp_Summary r) limit) (db_turns db) = Inr (sp_RecentMessages r)"
    by (cases r) (auto simp: with_recent_def turns split: sum.splits)
  assume "sp_Summary r = Some x"
  with assms ref obtain reason where "selectSessionContextSummary flt (ms_workspaceID s) sk limit (db_summaries db') = Inr (Some x, reason)"
    by (auto simp: context_session_def with_recent_def split: sum.splits if_splits prod.splits)
  with select_stored show "stored_summary (ms_workspaceID s) sk db' x \<and> (0 < limit \<longrightarrow> su_TokenCount x \<le> fst (SplitSummaryMessageBudget limit))"
    by blast
qed

text \<open>
  C14. A context keeps within its token budget: after any history of calls and failures, the summary and the recent
  messages of a successful context cost together no more than the requested limit, with the cost counted on the
  texts that are returned.
\<close>

theorem context_within_budget:
  assumes "context_session flt now s (trim_space key) inc limit (fold (session_step sha ulow) es empty_db) = (Inr r, db')"
    and "0 < limit" "limit < 2 ^ 53"
  shows "(case sp_Summary r of None \<Rightarrow> 0 | Some x \<Rightarrow> ApproxTokens (su_Content x)) + slice_tokens (sp_RecentMessages r) \<le> limit"
proof (cases "trim_space key = []")
  case True
  with assms show ?thesis by (auto simp: context_session_def)
next
  case False
  have ok: "summaries_ok db'"
    using contexts.run_inv [OF summaries_ok_empty, of sha ulow "es @ [EvContext flt now s key inc limit]"] assms(1) by simp
  note c = context_session_cases [OF assms(1) False]
  have "slice_tokens (sp_RecentMessages r) \<le> max (message_budget (sp_Summary r) limit) 0"
    using c(3) assms(2) by (auto simp: recent_messages_def elim: recent_by_budget)
  moreover have "ApproxTokens (su_Content x) \<le> fst (SplitSummaryMessageBudget limit)" if "sp_Summary r = Some x" for x
    using c(2) [OF that] assms(2) ok by (auto simp: stored_summary_def summaries_ok_def list_all_iff summary_ok_def summary_of_def)
  ultimately show ?thesis
    using summary_budget_bounds [OF assms(2,3)] assms(2) by (fastforce simp: message_budget_def split: option.split)
qed

text \<open>
  C19. Nothing recent is left out without need: the recent messages of a successful context are the last ones, in the
  order of their times, among the turns of the session that follow the summary (all turns when there is none); an
  older one is left out only when it would exceed the budget or, without a budget, the configured number.
\<close>

theorem context_keeps_recent:
  assumes "context_session flt now s sk inc limit db = (Inr r, db')" "sk \<noteq> []" "0 \<le> ms_recentLimit s"
    and "turns = order_asc by_time (turns_after sk (start_after (sp_Summary r)) (db_turns db))"
  shows "\<exists>k \<le> length turns. sp_RecentMessages r = map slice_of (drop k turns)
    \<and> (0 < k \<longrightarrow> (if 0 < limit then message_budget (sp_Summary r) limit < slice_tokens (map slice_of (drop (k - 1) turns))
        else int (length (sp_RecentMessages r)) = ms_recentLimit s))"
proof (cases "0 < limit")
  case True
  with context_session_cases(3) [OF assms(1,2)]
  have read: "recentTurnsByTokenBudget flt sk (start_after (sp_Summary r)) (message_budget (sp_Summary r) limit) (db_turns db) = Inr (sp_RecentMessages r)"
    by (simp add: recent_messages_def)
  show ?thesis by (rule recent_by_budget [OF read]) (use True in \<open>auto simp: assms(4) drop_map\<close>)
next
  case False
  let ?k = "length turns - nat (ms_recentLimit s)"
  have "sp_RecentMessages r = map slice_of (drop ?k turns)"
    using context_session_cases(3) [OF assms(1,2)] False assms(3)
    by (simp add: recent_messages_def recentTurnsAfter_def latest_first_limit assms(4) drop_map split: if_splits)
  with False assms(3) show ?thesis by (intro exI [of _ ?k]) auto
qed

section \<open>Fresh summaries\<close>

text \<open>The times of the turns of a session follow their ids.\<close>

definition time_ordered :: "string \<Rightarrow> turn_row atable \<Rightarrow> bool" where
  "time_ordered sk t \<longleftrightarrow> list_all (\<lambda>(i, r). list_all (\<lambda>(j, q).
      i < j \<longrightarrow> session_turn sk r \<longrightarrow> session_turn sk q \<longrightarrow> tu_TsUnix r \<le> tu_TsUnix q) (arows t)) (arows t)"

lemma filter_index:
  assumes "sorted_wrt (<) (map fst xs)" "n < length xs"
  shows "filter (\<lambda>x. fst x \<le> (fst (xs ! n) :: int)) xs = take (Suc n) xs"
  using assms
proof (induction xs arbitrary: n)
  case (Cons x xs)
  show ?case
  proof (cases n)
    case 0
    with Cons.prems(1) show ?thesis by (auto simp: filter_empty_conv)
  next
    case (Suc m)
    with Cons.prems have "fst x \<le> fst (xs ! m)" by (auto intro: less_imp_le)
    with Suc Cons show ?thesis by simp
  qed
qed simp

lemma session_order:
  assumes "awf t" "time_ordered sk t"
  shows "sorted_wrt (<) (map fst (order_asc by_time (filter (\<lambda>(i, r). session_turn sk r) (arows t))))"
proof -
  let ?L = "order_asc by_time (filter (\<lambda>(i, r). session_turn sk r) (arows t))"
  have d: "distinct (map fst ?L)" using assms(1) by (simp add: awf_def distinct_map_filter)
  have mem: "?L ! c \<in> set (arows t) \<and> session_turn sk (snd (?L ! c))" if "c < length ?L" for c
    using nth_mem [OF that] by auto
  have timely: "tu_TsUnix (snd x) \<le> tu_TsUnix (snd y)"
    if "x \<in> set (arows t) \<and> session_turn sk (snd x)" "y \<in> set (arows t) \<and> session_turn sk (snd y)" "fst x < fst y" for x y
    using assms(2) that by (cases x; cases y) (fastforce simp: time_ordered_def list_all_iff)
  have "fst (?L ! a) < fst (?L ! b)" if "a < b" "b < length ?L" for a b
  proof -
    have k: "by_time (?L ! a) \<le> by_time (?L ! b)" using sorted_nth_mono [OF sorted_order_asc, of a b by_time] that by simp
    have "fst (?L ! a) \<noteq> fst (?L ! b)" using d that nth_eq_iff_index_eq [of "map fst ?L" a b] by simp
    moreover have "\<not> fst (?L ! b) < fst (?L ! a)"
      using timely [OF mem [OF that(2)] mem [of a]] that k by (auto simp: by_time_def split_beta less_eq_prod_def)
    ultimately show ?thesis by simp
  qed
  then show ?thesis by (simp add: sorted_wrt_iff_nth_less)
qed

definition turns_through :: "string \<Rightarrow> int \<Rightarrow> turn_row atable \<Rightarrow> (int \<times> turn_row) list" where
  "turns_through sk n t = filter (\<lambda>(i, r). session_turn sk r \<and> i \<le> n) (arows t)"

lemma session_split:
  "length (turns_through sk n t) + length (turns_after sk n t) = length (filter (\<lambda>(i, r). session_turn sk r) (arows t))"
proof -
  let ?X = "filter (\<lambda>(i, r). session_turn sk r) (arows t)"
  have "length (filter (\<lambda>x. fst x \<le> n) ?X) + length (filter (\<lambda>x. \<not> fst x \<le> n) ?X) = length ?X"
    by (rule sum_length_filter_compl)
  moreover have "filter (\<lambda>x. fst x \<le> n) ?X = turns_through sk n t" "filter (\<lambda>x. \<not> fst x \<le> n) ?X = turns_after sk n t"
    unfolding turns_through_def turns_after_def filter_filter by (rule filter_cong, auto)+
  ultimately show ?thesis by simp
qed

lemma position_through:
  assumes "awf t" "time_ordered sk t" "0 < p" "p \<le> int (length (filter (\<lambda>(i, r). session_turn sk r) (arows t)))"
    and "readySessionTurnIDAtPosition flt ty sk p t = Inr n"
  shows "int (length (turns_through sk n t)) = p" "0 < n"
proof -
  let ?X = "filter (\<lambda>(i, r). session_turn sk r) (arows t)"
  let ?L = "order_asc by_time ?X" and ?m = "nat (p - 1)"
  have m: "?m < length ?L" using assms(3,4) by simp
  then have "drop ?m ?L = ?L ! ?m # drop (Suc ?m) ?L" by (rule Cons_nth_drop_Suc [symmetric])
  with assms(3,5) have n: "n = fst (?L ! ?m)" by (auto simp: readySessionTurnIDAtPosition_def split: if_splits prod.splits)
  have "filter (\<lambda>x. fst x \<le> n) ?L = take (Suc ?m) ?L" using filter_index [OF session_order [OF assms(1,2)] m] n by simp
  moreover have "filter (\<lambda>x. fst x \<le> n) ?L = order_asc by_time (filter (\<lambda>x. fst x \<le> n) ?X)"
    by (simp only: order_asc_def filter_sort)
  moreover have "filter (\<lambda>x. fst x \<le> n) ?X = turns_through sk n t"
    unfolding turns_through_def filter_filter by (rule filter_cong) auto
  ultimately have "length (turns_through sk n t) = length (take (Suc ?m) ?L)" by (metis length_order_asc)
  with m assms(3) show "int (length (turns_through sk n t)) = p" by simp
  have "?L ! ?m \<in> set ?X" using m nth_mem [of ?m ?L] by simp
  with assms(1) n show "0 < n" by (auto simp: awf_def)
qed

lemma turns_after_mono: "m \<le> n \<Longrightarrow> length (turns_after sk n t) \<le> length (turns_after sk m t)"
proof -
  assume "m \<le> n"
  then have "length (filter (\<lambda>(i, r). session_turn sk r \<and> n < i) xs) \<le> length (filter (\<lambda>(i, r). session_turn sk r \<and> m < i) xs)" for xs
    by (induction xs) auto
  then show ?thesis by (simp add: turns_after_def)
qed

definition fresh_summary :: "string \<Rightarrow> string \<Rightarrow> string \<Rightarrow> int \<Rightarrow> service_db \<Rightarrow> service_db \<Rightarrow> bool" where
  "fresh_summary ws sk summaryType cadence db db' \<longleftrightarrow>
     (\<exists>r. tfind ss_key (ws, sk, summaryType) (db_summaries db') = Some r
        \<and> int (length (turns_after sk (ss_MessageID r) (db_turns db))) < cadence
        \<and> (tfind ss_key (ws, sk, summaryType) (db_summaries db) = Some r
          \<or> ss_Content r = deterministicSummaryContent sk summaryType (int (length (turns_through sk (ss_MessageID r) (db_turns db)))) (ss_MessageID r)))"

lemma slot_fresh:
  assumes "refreshSessionSummarySlot flt now ws sk ty c n db = (Inr u, db')" "awf (db_turns db)" "time_ordered sk (db_turns db)"
    and "n = int (length (filter (\<lambda>(i, r). session_turn sk r) (arows (db_turns db))))" "0 < c" "c \<le> n"
  shows "fresh_summary ws sk ty c db db'"
proof -
  let ?p = "n div c * c" and ?t = "db_turns db" and ?k = "(ws, sk, ty)"
  have "?p + n mod c = n" "0 \<le> n mod c" "n mod c < c" using assms(5) by simp_all
  then have p: "0 < ?p" "?p \<le> n" "n - ?p < c" using assms(5,6) by (linarith | simp add: pos_imp_zdiv_pos_iff)+
  obtain mid where mid: "readySessionTurnIDAtPosition flt ty sk ?p ?t = Inr mid"
    using assms(1,5,6) by (auto simp: refreshSessionSummarySlot_def Let_def split: sum.splits)
  have t: "int (length (turns_through sk mid ?t)) = ?p" "0 < mid"
    using position_through [OF assms(2,3) p(1) _ mid] p(2) assms(4) by simp_all
  have after: "int (length (turns_after sk mid ?t)) < c"
    using session_split [of sk mid ?t] t(1) p(3) assms(4) by linarith
  show ?thesis
  proof (cases "tfind ss_key ?k (db_summaries db)")
    case None
    with assms(1,5,6) mid t after show ?thesis
      by (auto simp: refreshSessionSummarySlot_def Let_def getSessionSummary_def upsertSessionSummary_def fresh_summary_def
          summaries.find_upsert ss_key_def split: if_splits)
  next
    case (Some r)
    show ?thesis
    proof (cases "mid \<le> ss_MessageID r")
      case True
      with Some assms(1,5,6) mid t have "db' = db"
        by (auto simp: refreshSessionSummarySlot_def Let_def getSessionSummary_def summary_of_def split: if_splits)
      with Some after turns_after_mono [OF True, of sk ?t] show ?thesis by (auto simp: fresh_summary_def)
    next
      case False
      with Some assms(1,5,6) mid t after show ?thesis
        by (auto simp: refreshSessionSummarySlot_def Let_def getSessionSummary_def upsertSessionSummary_def fresh_summary_def
            summaries.find_upsert summary_of_def replace_summary_def ss_key_def split: if_splits)
    qed
  qed
qed

lemma slot_other:
  assumes "refreshSessionSummarySlot flt now ws sk ty c n db = (res, db')" "ty' \<noteq> ty"
  shows "tfind ss_key (ws, sk, ty') (db_summaries db') = tfind ss_key (ws, sk, ty') (db_summaries db)" "db_turns db' = db_turns db"
  using assms by (auto simp: refreshSessionSummarySlot_def Let_def upsertSessionSummary_def ss_key_def summaries.find_upsert
      split: if_splits sum.splits)

text \<open>
  C20. Summaries are fresh: after a successful refresh of a session whose turn times follow their ids, the short
  summary leaves fewer than 20 turns behind it and the long one fewer than 60 (once the session has so many), and a
  summary that was written covers exactly as many turns as its text says.
\<close>

theorem summaries_fresh:
  assumes "refreshSessionSummaries flt now ws sk db = (Inr count, db')" "awf (db_turns db)" "time_ordered sk (db_turns db)"
  shows "(20 \<le> count \<longrightarrow> fresh_summary ws sk ''short'' 20 db db') \<and> (60 \<le> count \<longrightarrow> fresh_summary ws sk ''long'' 60 db db')"
proof -
  have count: "count = int (length (filter (\<lambda>(i, r). session_turn sk r) (arows (db_turns db))))"
    using assms(1) by (auto simp: refreshSessionSummaries_def countReadySessionTurns_def split: sum.splits prod.splits if_splits)
  obtain db1 u v where short: "refreshSessionSummarySlot flt (now ''short'') ws sk ''short'' 20 count db = (Inr u, db1)"
      and long: "refreshSessionSummarySlot flt (now ''long'') ws sk ''long'' 60 count db1 = (Inr v, db')"
    using assms(1) by (auto simp: refreshSessionSummaries_def defaultShortSummaryCadence_def defaultLongSummaryCadence_def
        split: sum.splits prod.splits)
  note other = slot_other [OF short, of "''long''"] slot_other [OF long, of "''short''"]
  have "20 \<le> count \<Longrightarrow> fresh_summary ws sk ''short'' 20 db db1" using slot_fresh [OF short assms(2,3) count] by simp
  moreover have "60 \<le> count \<Longrightarrow> fresh_summary ws sk ''long'' 60 db1 db'"
    using slot_fresh [OF long] assms(2,3) count other(2) by simp
  ultimately show ?thesis using other by (simp add: fresh_summary_def)
qed

section \<open>Concrete sessions\<close>

definition xw_session :: "int \<Rightarrow> service_db" where
  "xw_session t0 = fold (session_step (\<lambda>s. s) (\<lambda>s. s))
     (map (\<lambda>n. EvMemory (EvAssistantTurn False n ''k'' ''p'' ''more'' False)) (t0 # map (\<lambda>n. n * 1000000000) [5..24])) empty_db"

definition xw_context :: "int \<Rightarrow> bool \<Rightarrow> int \<Rightarrow> (context_error + session_part) \<times> service_db" where
  "xw_context t0 inc limit = context_session (\<lambda>_. False) (\<lambda>_. 9) (mw_service ''w'') (trim_space ''k'') inc limit (xw_session t0)"

lemma xw_eq: "fst (xw_context t0 inc limit) = Inr r \<Longrightarrow>
    context_session (\<lambda>_. False) (\<lambda>_. 9) (mw_service ''w'') (trim_space ''k'') inc limit (xw_session t0) = (Inr r, snd (xw_context t0 inc limit))"
  by (simp add: xw_context_def prod_eq_iff)

lemma xw_budget: "case fst (xw_context 1 False 3) of Inl _ \<Rightarrow> False | Inr r \<Rightarrow> length (sp_RecentMessages r) = 3"
  by code_simp

theorem context_within_budget_witness:
  "case fst (xw_context 1 False 3) of Inl _ \<Rightarrow> False
   | Inr r \<Rightarrow> length (sp_RecentMessages r) = 3 \<and> slice_tokens (sp_RecentMessages r) \<le> 3"
proof -
  obtain r where r: "fst (xw_context 1 False 3) = Inr r" "length (sp_RecentMessages r) = 3" using xw_budget by (auto split: sum.splits)
  have pos: "0 \<le> (case x of None \<Rightarrow> 0 | Some x \<Rightarrow> ApproxTokens (su_Content x))" for x
    using order_trans [OF zero_le_one ApproxTokens_pos] by (simp split: option.split)
  from context_within_budget [OF xw_eq [OF r(1), unfolded xw_session_def]] pos [of "sp_Summary r"] r show ?thesis by simp
qed

lemma xw_summary: "case fst (xw_context 1 True 0) of Inl _ \<Rightarrow> False
    | Inr r \<Rightarrow> length (sp_RecentMessages r) = 1 \<and> (case sp_Summary r of None \<Rightarrow> False | Some x \<Rightarrow> su_MessageID x = 20)"
  by code_simp

theorem context_keeps_recent_witness:
  "case fst (xw_context 1 True 0) of Inl _ \<Rightarrow> False
   | Inr r \<Rightarrow> length (sp_RecentMessages r) = 1
       \<and> (\<exists>k. sp_RecentMessages r = map slice_of (drop k (order_asc by_time (turns_after ''k'' 20 (db_turns (xw_session 1))))))"
proof -
  obtain r where r: "fst (xw_context 1 True 0) = Inr r" "length (sp_RecentMessages r) = 1" "start_after (sp_Summary r) = 20"
    using xw_summary by (auto simp: start_after_def split: sum.splits option.splits)
  have k: "trim_space ''k'' = ''k''" "0 \<le> ms_recentLimit (mw_service ''w'')" by code_simp+
  from context_keeps_recent [OF xw_eq [OF r(1), unfolded k(1)] _ k(2) refl] r show ?thesis by auto
qed

lemma xw_timely: "time_ordered ''k'' (db_turns (xw_session 1))"
  by code_simp

lemma xw_awf: "awf (db_turns (xw_session 1))"
  by code_simp

lemma xw_refreshed: "case fst (refreshSessionSummaries (\<lambda>_. False) (\<lambda>_. 9) ''w'' ''k'' (xw_session 1)) of Inl _ \<Rightarrow> False | Inr n \<Rightarrow> n = 21"
  by code_simp

theorem summaries_fresh_witness:
  "fresh_summary ''w'' ''k'' ''short'' 20 (xw_session 1) (snd (refreshSessionSummaries (\<lambda>_. False) (\<lambda>_. 9) ''w'' ''k'' (xw_session 1)))"
proof -
  have "refreshSessionSummaries (\<lambda>_. False) (\<lambda>_. 9) ''w'' ''k'' (xw_session 1)
      = (Inr 21, snd (refreshSessionSummaries (\<lambda>_. False) (\<lambda>_. 9) ''w'' ''k'' (xw_session 1)))"
    using xw_refreshed by (auto simp: prod_eq_iff split: sum.splits)
  from summaries_fresh [OF this xw_awf xw_timely] show ?thesis by simp
qed

text \<open>
  A turn whose time is later than those of the turns stored after it is lost from the context: the summary counts the
  20 turns before it in time and names the last stored one, so the recent messages, which are those with a greater id,
  are empty.
\<close>

lemma late_turn_lost:
  "(case fst (xw_context 1000000000000 True 0) of Inl _ \<Rightarrow> False
    | Inr r \<Rightarrow> sp_RecentMessages r = []
        \<and> (case sp_Summary r of None \<Rightarrow> False | Some x \<Rightarrow> su_Content x = deterministicSummaryContent ''k'' ''short'' 20 21))
   \<and> map fst (drop 20 (order_asc by_time (arows (db_turns (xw_session 1000000000000))))) = [1]"
  by code_simp

text \<open>The turns of a session are not restricted to the workspace of the service that asks.\<close>

definition xw_foreign :: service_db where
  "xw_foreign = snd (createMessagesOnce (\<lambda>_. None) (\<lambda>_. 5000000000) (mw_service ''w'') ''k'' [mw_input ''secret''] empty_db)"

lemma context_shows_other_workspace:
  "case fst (context_session (\<lambda>_. False) (\<lambda>_. 9) (mw_service ''v'') ''k'' True 0 xw_foreign) of Inl _ \<Rightarrow> False
   | Inr r \<Rightarrow> map sl_Content (sp_RecentMessages r) = [''secret'']"
  by code_simp

end
