(* ===== verification/DynamicAgents.thy ===== *)
theory DynamicAgents
  imports Text Tables
begin

text \<open>
  The dynamic agent registry of \<open>internal/dynamicagents/registry.go\<close>: agents spawned at run time,
  whose id is derived from their name, and the bindings from a channel tuple to an agent id.  The
  clock reading \<open>now\<close> is in nanoseconds, the table keeps seconds.  \<open>flt\<close> is the failure of the one
  SQL statement a call issues.
\<close>

section \<open>Values and tables\<close>

record AgentRecord =
  ar_ID :: string
  ar_Name :: string
  ar_Persona :: string
  ar_CreatedAt :: int

record CreateAgentOptions =
  co_Name :: string
  co_Persona :: string
  co_ReservedIDs :: "string list"

record BindingMatch =
  bm_Channel :: string
  bm_PeerKind :: string
  bm_PeerID :: string
  bm_ThreadID :: string

record binding_row =
  br_Match :: BindingMatch
  br_AgentID :: string
  br_BoundAt :: int

text \<open>\<open>created_at\<close> of a stored agent is in seconds.\<close>

record agent_db =
  agents :: "AgentRecord list"
  bindings :: "binding_row list"

datatype agent_error = AgentNameRequired | ErrAgentIDInvalid string | ErrAgentIDReserved string
  | AgentIDRequired | BindingChannelRequired | BindingPeerKindRequired | BindingPeerIDRequired | AgentDb

section \<open>Agent ids\<close>

definition lower_or_digit :: "char \<Rightarrow> bool" where
  "lower_or_digit c \<longleftrightarrow> 97 \<le> byte c \<and> byte c \<le> 122 \<or> 48 \<le> byte c \<and> byte c \<le> 57"

text \<open>\<open>strings.ReplaceAll(out, "--", "-")\<close> and the loop around it.\<close>

fun replace_dashes :: "string \<Rightarrow> string" where
  "replace_dashes (a # b # s) = (if a = CHR ''-'' \<and> b = CHR ''-'' then CHR ''-'' # replace_dashes s
     else a # replace_dashes (b # s))"
| "replace_dashes s = s"

fun has_dashes :: "string \<Rightarrow> bool" where
  "has_dashes (a # b # s) \<longleftrightarrow> a = CHR ''-'' \<and> b = CHR ''-'' \<or> has_dashes (b # s)"
| "has_dashes s \<longleftrightarrow> False"

lemma length_replace_dashes: "length (replace_dashes s) \<le> length s"
  by (induction s rule: replace_dashes.induct) auto

lemma replace_dashes_shorter: "has_dashes s \<Longrightarrow> length (replace_dashes s) < length s"
proof (induction s rule: replace_dashes.induct)
  case (1 a b s)
  then show ?case using length_replace_dashes [of s] by auto
qed auto

function collapse_dashes :: "string \<Rightarrow> string" where
  "collapse_dashes s = (if has_dashes s then collapse_dashes (replace_dashes s) else s)"
  by pat_completeness auto
termination
  by (relation "measure length") (auto intro: replace_dashes_shorter)

declare collapse_dashes.simps [simp del]

definition normalizeDynamicAgentID :: "(string \<Rightarrow> string) \<Rightarrow> string \<Rightarrow> string" where
  "normalizeDynamicAgentID ulow raw0 =
     (let raw = to_lower ulow (trim_space raw0);
          kept = List.map_filter (\<lambda>r. if lower_or_digit r then Some r
                   else if r = CHR ''_'' \<or> r = CHR ''-'' \<or> r = CHR '' '' then Some (CHR ''-'') else None) raw;
          out = trim_chars [CHR ''-''] (collapse_dashes kept) in
      if length out > 64 then trim_chars [CHR ''-''] (take 64 out) else out)"

text \<open>\<open>^[a-z][a-z0-9_-]{0,63}$\<close>.\<close>

definition dynamicAgentIDPattern :: "string \<Rightarrow> bool" where
  "dynamicAgentIDPattern s = (case s of
     [] \<Rightarrow> False
   | c # t \<Rightarrow> 97 \<le> byte c \<and> byte c \<le> 122 \<and> length t \<le> 63
       \<and> list_all (\<lambda>x. lower_or_digit x \<or> x = CHR ''_'' \<or> x = CHR ''-'') t)"

section \<open>Operations\<close>

definition Create :: "bool \<Rightarrow> (string \<Rightarrow> string) \<Rightarrow> int \<Rightarrow> CreateAgentOptions \<Rightarrow> agent_db
    \<Rightarrow> (agent_error + AgentRecord) \<times> agent_db" where
  "Create flt ulow now opts db =
     (let name = trim_space (co_Name opts) in
      if name = [] then (Inl AgentNameRequired, db)
      else
        let i = normalizeDynamicAgentID ulow name in
        if \<not> dynamicAgentIDPattern i then (Inl (ErrAgentIDInvalid name), db)
        else if i \<in> set (co_ReservedIDs opts) then (Inl (ErrAgentIDReserved i), db)
        else if flt \<or> tfind ar_ID i (agents db) \<noteq> None then (Inl AgentDb, db)
        else
          let a = \<lparr>ar_ID = i, ar_Name = name, ar_Persona = trim_space (co_Persona opts), ar_CreatedAt = now\<rparr> in
          (Inr a, db\<lparr>agents := agents db @ [a\<lparr>ar_CreatedAt := now div 1000000000\<rparr>]\<rparr>))"

definition stored_agent :: "AgentRecord \<Rightarrow> AgentRecord" where
  "stored_agent a = a\<lparr>ar_CreatedAt := ar_CreatedAt a * 1000000000\<rparr>"

definition List_agents :: "bool \<Rightarrow> agent_db \<Rightarrow> agent_error + AgentRecord list" where
  "List_agents flt db = (if flt then Inl AgentDb
     else Inr (map stored_agent (order_asc (\<lambda>a. (ar_CreatedAt a, ar_ID a)) (agents db))))"

definition Get :: "bool \<Rightarrow> string \<Rightarrow> agent_db \<Rightarrow> agent_error + AgentRecord option" where
  "Get flt i0 db = (let i = trim_space i0 in
     if i = [] then Inr None else if flt then Inl AgentDb
     else Inr (map_option stored_agent (tfind ar_ID i (agents db))))"

definition normalizeBindingMatch :: "(string \<Rightarrow> string) \<Rightarrow> BindingMatch \<Rightarrow> BindingMatch" where
  "normalizeBindingMatch ulow m =
     \<lparr>bm_Channel = to_lower ulow (trim_space (bm_Channel m)), bm_PeerKind = to_lower ulow (trim_space (bm_PeerKind m)),
      bm_PeerID = trim_space (bm_PeerID m), bm_ThreadID = trim_space (bm_ThreadID m)\<rparr>"

definition validateBindingMatch :: "BindingMatch \<Rightarrow> agent_error option" where
  "validateBindingMatch m =
     (if bm_Channel m = [] then Some BindingChannelRequired
      else if bm_PeerKind m = [] then Some BindingPeerKindRequired
      else if bm_PeerID m = [] then Some BindingPeerIDRequired else None)"

definition set_binding :: "binding_row \<Rightarrow> binding_row \<Rightarrow> binding_row" where
  "set_binding old new = old\<lparr>br_AgentID := br_AgentID new, br_BoundAt := br_BoundAt new\<rparr>"

definition Bind :: "bool \<Rightarrow> (string \<Rightarrow> string) \<Rightarrow> int \<Rightarrow> string \<Rightarrow> BindingMatch \<Rightarrow> agent_db
    \<Rightarrow> agent_error option \<times> agent_db" where
  "Bind flt ulow now agentID0 match0 db =
     (let agentID = trim_space agentID0 in
      if agentID = [] then (Some AgentIDRequired, db)
      else
        let m = normalizeBindingMatch ulow match0 in
        case validateBindingMatch m of
          Some e \<Rightarrow> (Some e, db)
        | None \<Rightarrow>
            if flt then (Some AgentDb, db)
            else (None, db\<lparr>bindings := tupsert br_Match set_binding
                   \<lparr>br_Match = m, br_AgentID = agentID, br_BoundAt = now div 1000000000\<rparr> (bindings db)\<rparr>))"

definition Unbind :: "bool \<Rightarrow> (string \<Rightarrow> string) \<Rightarrow> BindingMatch \<Rightarrow> agent_db \<Rightarrow> agent_error option \<times> agent_db" where
  "Unbind flt ulow match0 db =
     (let m = normalizeBindingMatch ulow match0 in
      case validateBindingMatch m of
        Some e \<Rightarrow> (Some e, db)
      | None \<Rightarrow> if flt then (Some AgentDb, db) else (None, db\<lparr>bindings := tdelete (\<lambda>r. br_Match r = m) (bindings db)\<rparr>))"

definition Resolve :: "bool \<Rightarrow> (string \<Rightarrow> string) \<Rightarrow> BindingMatch \<Rightarrow> agent_db \<Rightarrow> agent_error + string option" where
  "Resolve flt ulow match0 db =
     (let m = normalizeBindingMatch ulow match0 in
      case validateBindingMatch m of
        Some e \<Rightarrow> Inl e
      | None \<Rightarrow> if flt then Inl AgentDb else Inr (map_option br_AgentID (tfind br_Match m (bindings db))))"

interpretation binding_rows: replacing_table br_Match set_binding
  by unfold_locales (simp_all add: set_binding_def)

section \<open>The shape of an id\<close>

definition dash_or_alnum :: "char \<Rightarrow> bool" where
  "dash_or_alnum c \<longleftrightarrow> lower_or_digit c \<or> c = CHR ''-''"

lemma set_replace_dashes: "set (replace_dashes s) \<subseteq> set s"
  by (induction s rule: replace_dashes.induct) auto

lemma set_collapse_dashes: "set (collapse_dashes s) \<subseteq> set s"
proof (induction s rule: collapse_dashes.induct)
  case (1 s)
  then show ?case using set_replace_dashes [of s] by (subst collapse_dashes.simps) auto
qed

lemma no_dashes_collapse: "\<not> has_dashes (collapse_dashes s)"
proof (induction s rule: collapse_dashes.induct)
  case (1 s)
  then show ?case by (subst collapse_dashes.simps) auto
qed

lemma has_dashes_append1: "has_dashes y \<Longrightarrow> has_dashes (y @ z)"
  by (induction y rule: has_dashes.induct) auto

lemma has_dashes_Cons: "has_dashes l \<Longrightarrow> has_dashes (a # l)"
  by (cases l) auto

lemma has_dashes_append2: "has_dashes y \<Longrightarrow> has_dashes (x @ y)"
  by (induction x) (auto intro: has_dashes_Cons)

lemma has_dashes_infix: "has_dashes y \<Longrightarrow> s = x @ y @ z \<Longrightarrow> has_dashes s"
  by (simp add: has_dashes_append1 has_dashes_append2)

lemma trim_chars_infix: "\<exists>p q. s = p @ trim_chars cs s @ q"
proof -
  let ?d = "dropWhile (\<lambda>c. c \<in> set cs)"
  have "s = takeWhile (\<lambda>c. c \<in> set cs) s @ ?d s" by simp
  moreover have "rev (?d s) = takeWhile (\<lambda>c. c \<in> set cs) (rev (?d s)) @ ?d (rev (?d s))" by simp
  then have "?d s = rev (?d (rev (?d s))) @ rev (takeWhile (\<lambda>c. c \<in> set cs) (rev (?d s)))"
    by (metis rev_append rev_rev_ident)
  ultimately show ?thesis unfolding trim_chars_def by metis
qed

lemma kept_chars: "c \<in> set (List.map_filter (\<lambda>r. if lower_or_digit r then Some r
      else if r = CHR ''_'' \<or> r = CHR ''-'' \<or> r = CHR '' '' then Some (CHR ''-'') else None) raw) \<Longrightarrow> dash_or_alnum c"
  by (induction raw) (auto simp: List.map_filter_def dash_or_alnum_def split: if_splits)

text \<open>A normalised id is short, over \<open>[a-z0-9-]\<close>, without double or edge dashes.\<close>

definition id_shape :: "string \<Rightarrow> bool" where
  "id_shape s \<longleftrightarrow> length s \<le> 64 \<and> list_all dash_or_alnum s \<and> \<not> has_dashes s
     \<and> (s \<noteq> [] \<longrightarrow> lower_or_digit (hd s) \<and> lower_or_digit (last s))"

lemma id_shape_trim:
  assumes "list_all dash_or_alnum s" "\<not> has_dashes s"
  shows "list_all dash_or_alnum (trim_chars [CHR ''-''] s) \<and> \<not> has_dashes (trim_chars [CHR ''-''] s)
    \<and> (trim_chars [CHR ''-''] s \<noteq> [] \<longrightarrow> lower_or_digit (hd (trim_chars [CHR ''-''] s))
         \<and> lower_or_digit (last (trim_chars [CHR ''-''] s)))
    \<and> length (trim_chars [CHR ''-''] s) \<le> length s"
proof -
  let ?t = "trim_chars [CHR ''-''] s"
  obtain p q where s: "s = p @ ?t @ q" using trim_chars_infix by blast
  have all: "list_all dash_or_alnum ?t" using assms(1) by (subst (asm) s) simp
  have "\<not> has_dashes ?t" using assms(2) has_dashes_infix [OF _ s] by blast
  moreover have "length ?t \<le> length s" by (subst (2) s) simp
  moreover have "lower_or_digit (hd ?t) \<and> lower_or_digit (last ?t)" if ne: "?t \<noteq> []"
  proof -
    have "hd ?t \<in> set ?t" "last ?t \<in> set ?t" using ne by simp_all
    with all trim_chars_ends [OF ne] show ?thesis by (auto simp: list_all_iff dash_or_alnum_def)
  qed
  ultimately show ?thesis using all by blast
qed

lemma id_shape_trim_le:
  assumes "list_all dash_or_alnum s" "\<not> has_dashes s" "length s \<le> 64"
  shows "id_shape (trim_chars [CHR ''-''] s)"
  using id_shape_trim [OF assms(1,2)] assms(3) by (auto simp: id_shape_def)

lemma id_shape_normalized: "id_shape (normalizeDynamicAgentID ulow raw)"
proof -
  define k where "k = List.map_filter (\<lambda>r. if lower_or_digit r then Some r
      else if r = CHR ''_'' \<or> r = CHR ''-'' \<or> r = CHR '' '' then Some (CHR ''-'') else None) (to_lower ulow (trim_space raw))"
  define c where "c = collapse_dashes k"
  define out where "out = trim_chars [CHR ''-''] c"
  have c: "list_all dash_or_alnum c" "\<not> has_dashes c"
    using kept_chars set_collapse_dashes [of k] no_dashes_collapse by (auto simp: list_all_iff c_def k_def)
  have o1: "list_all dash_or_alnum out" "\<not> has_dashes out"
    using id_shape_trim [OF c] by (simp_all add: out_def)
  have "list_all dash_or_alnum (take 64 out)" using o1(1) by (metis append_take_drop_id list_all_append)
  moreover have "\<not> has_dashes (take 64 out)" using o1(2) has_dashes_append1 [of "take 64 out" "drop 64 out"] by auto
  ultimately have long: "id_shape (trim_chars [CHR ''-''] (take 64 out))" by (rule id_shape_trim_le) simp
  have short: "id_shape out" if "length out \<le> 64"
    using id_shape_trim [OF c] that by (simp add: id_shape_def out_def)
  have "normalizeDynamicAgentID ulow raw = (if length out > 64 then trim_chars [CHR ''-''] (take 64 out) else out)"
    by (simp only: normalizeDynamicAgentID_def Let_def out_def c_def k_def)
  then show ?thesis using long short by simp
qed

section \<open>Invariant and specification of the bindings\<close>

definition agent_inv :: "agent_db \<Rightarrow> bool" where
  "agent_inv db \<longleftrightarrow> unique_keys ar_ID (agents db) \<and> unique_keys br_Match (bindings db)
     \<and> (\<forall>a \<in> set (agents db). dynamicAgentIDPattern (ar_ID a))"

datatype agent_event =
    EvCreate bool int CreateAgentOptions
  | EvBind bool int string BindingMatch
  | EvUnbind bool BindingMatch

fun agent_step :: "(string \<Rightarrow> string) \<Rightarrow> agent_event \<Rightarrow> agent_db \<Rightarrow> agent_db" where
  "agent_step ulow (EvCreate flt now opts) db = snd (Create flt ulow now opts db)"
| "agent_step ulow (EvBind flt now a m) db = snd (Bind flt ulow now a m db)"
| "agent_step ulow (EvUnbind flt m) db = snd (Unbind flt ulow m db)"

text \<open>The contract: a partial map from normalised tuples to agent ids, the last binding wins.\<close>

definition binding_abs :: "agent_db \<Rightarrow> BindingMatch \<Rightarrow> string option" where
  "binding_abs db m = map_option br_AgentID (tfind br_Match m (bindings db))"

fun spec_bindings :: "(string \<Rightarrow> string) \<Rightarrow> agent_event \<Rightarrow> (BindingMatch \<Rightarrow> string option) \<Rightarrow> BindingMatch \<Rightarrow> string option" where
  "spec_bindings ulow (EvCreate flt now opts) f = f"
| "spec_bindings ulow (EvBind flt now a m) f =
     (if flt \<or> trim_space a = [] \<or> validateBindingMatch (normalizeBindingMatch ulow m) \<noteq> None then f
      else f(normalizeBindingMatch ulow m \<mapsto> trim_space a))"
| "spec_bindings ulow (EvUnbind flt m) f =
     (if flt \<or> validateBindingMatch (normalizeBindingMatch ulow m) \<noteq> None then f
      else f(normalizeBindingMatch ulow m := None))"

lemma Create_ok:
  assumes "Create flt ulow now opts db = (Inr a, db')"
  shows "ar_ID a = normalizeDynamicAgentID ulow (trim_space (co_Name opts)) \<and> dynamicAgentIDPattern (ar_ID a)
    \<and> ar_ID a \<notin> set (co_ReservedIDs opts) \<and> tfind ar_ID (ar_ID a) (agents db) = None
    \<and> ar_Name a = trim_space (co_Name opts) \<and> ar_Persona a = trim_space (co_Persona opts) \<and> ar_CreatedAt a = now
    \<and> db' = db\<lparr>agents := agents db @ [a\<lparr>ar_CreatedAt := now div 1000000000\<rparr>]\<rparr>"
  using assms by (auto simp: Create_def Let_def split: if_splits)

lemma Create_err: "Create flt ulow now opts db = (Inl e, db') \<Longrightarrow> db' = db"
  by (auto simp: Create_def Let_def split: if_splits)

lemma agent_step_inv: "agent_inv db \<Longrightarrow> agent_inv (agent_step ulow e db)"
proof (cases e)
  case (EvCreate flt now opts)
  assume i: "agent_inv db"
  show ?thesis
  proof (cases "Create flt ulow now opts db")
    case (Pair r db')
    show ?thesis
    proof (cases r)
      case (Inl x)
      with Pair EvCreate i Create_err [of flt ulow now opts db x db'] show ?thesis by simp
    next
      case (Inr a)
      with Pair EvCreate i Create_ok [of flt ulow now opts db a db'] show ?thesis
        by (auto simp: agent_inv_def unique_keys_def tfind_None)
    qed
  qed
next
  case (EvBind flt now a m)
  then show "agent_inv db \<Longrightarrow> ?thesis"
    by (auto simp: Bind_def Let_def agent_inv_def split: option.split)
next
  case (EvUnbind flt m)
  then show "agent_inv db \<Longrightarrow> ?thesis"
    by (auto simp: Unbind_def Let_def agent_inv_def split: option.split)
qed

lemma agent_step_abs: "binding_abs (agent_step ulow e db) = spec_bindings ulow e (binding_abs db)"
proof (cases e)
  case (EvCreate flt now opts)
  have "bindings (snd (Create flt ulow now opts db)) = bindings db"
    by (simp add: Create_def Let_def)
  with EvCreate show ?thesis by (simp add: binding_abs_def fun_eq_iff)
next
  case (EvBind flt now a m)
  then show ?thesis
    by (auto simp: Bind_def Let_def binding_abs_def fun_eq_iff binding_rows.find_upsert set_binding_def split: option.split)
next
  case (EvUnbind flt m)
  then show ?thesis
    by (auto simp: Unbind_def Let_def binding_abs_def fun_eq_iff tfind_tdelete_key split: option.split)
qed

interpretation agent_machine: simulation "agent_step ulow" agent_inv binding_abs "spec_bindings ulow" for ulow
  by unfold_locales (simp_all add: agent_step_inv agent_step_abs)

section \<open>Correctness of the registry\<close>

lemma agents_append_only: "\<exists>as. agents (agent_step ulow e db) = agents db @ as"
proof (cases e)
  case (EvCreate flt now opts)
  then show ?thesis by (simp add: Create_def Let_def)
next
  case (EvBind flt now a m)
  then show ?thesis by (simp add: Bind_def Let_def split: option.split)
next
  case (EvUnbind flt m)
  then show ?thesis by (simp add: Unbind_def Let_def split: option.split)
qed

lemma agents_append_run: "\<exists>as. agents (fold (agent_step ulow) es db) = agents db @ as"
proof (induction es arbitrary: db)
  case (Cons e es)
  then show ?case using agents_append_only [of ulow e db] by (metis append.assoc fold_simps(2))
qed simp

text \<open>
  A created agent is usable: its id is derived from the trimmed name, matches the configuration
  pattern, is at most 64 bytes of lower-case letters, digits and single inner dashes, is not
  reserved and was free; after any further calls \<open>Get\<close> of that id returns the record, with the
  creation time cut to seconds.
\<close>

theorem created_agent_found:
  assumes i: "agent_inv db" and c: "Create flt ulow now opts db = (Inr a, db')"
  shows "dynamicAgentIDPattern (ar_ID a) \<and> id_shape (ar_ID a) \<and> ar_ID a \<notin> set (co_ReservedIDs opts)
    \<and> ar_ID a \<notin> ar_ID ` set (agents db)
    \<and> Get False (ar_ID a) (fold (agent_step ulow) es db')
        = Inr (Some (a\<lparr>ar_CreatedAt := now div 1000000000 * 1000000000\<rparr>))"
proof -
  note ok = Create_ok [OF c]
  let ?s = "a\<lparr>ar_CreatedAt := now div 1000000000\<rparr>"
  obtain as where as: "agents (fold (agent_step ulow) es db') = agents db' @ as" using agents_append_run by blast
  have f: "tfind ar_ID (ar_ID a) (agents db') = Some ?s"
  proof -
    have "agents db' = agents db @ [?s]" and n: "tfind ar_ID (ar_ID a) (agents db) = None" using ok by force+
    then show ?thesis by (simp only: tfind_append n) simp
  qed
  have ne: "ar_ID a \<noteq> []" using ok by (auto simp: dynamicAgentIDPattern_def)
  have solid: "byte x < 128 \<and> \<not> space1 x" if "x \<in> set (ar_ID a)" for x
    using id_shape_normalized [of ulow "trim_space (co_Name opts)"] ok that
    by (auto simp: id_shape_def list_all_iff dash_or_alnum_def lower_or_digit_def space1_def byte_def dest!: bspec)
  have "trim_space (ar_ID a) = ar_ID a" by (rule trim_space_solid [OF ne solid])
  then have "Get False (ar_ID a) (fold (agent_step ulow) es db') = Inr (Some (stored_agent ?s))"
    using ne as f by (simp add: Get_def tfind_append)
  moreover have "stored_agent ?s = a\<lparr>ar_CreatedAt := now div 1000000000 * 1000000000\<rparr>"
    by (simp add: stored_agent_def)
  moreover have "id_shape (ar_ID a)" using ok id_shape_normalized by simp
  moreover have "ar_ID a \<notin> ar_ID ` set (agents db)" using ok tfind_None [of ar_ID "ar_ID a" "agents db"] by blast
  ultimately show ?thesis using ok by metis
qed

text \<open>
  C36. Resolution follows the bindings: after any sequence of creations, bindings and unbindings
  from an empty registry, with any failures, \<open>Resolve\<close> of a valid tuple returns what the last
  successful binding or unbinding of the same normalised tuple left, and nothing else decides it.
\<close>

theorem resolve_follows_bindings:
  assumes "validateBindingMatch (normalizeBindingMatch ulow m) = None"
  shows "Resolve False ulow m (fold (agent_step ulow) es \<lparr>agents = [], bindings = []\<rparr>)
    = Inr (fold (spec_bindings ulow) es (\<lambda>_. None) (normalizeBindingMatch ulow m))"
proof -
  have "agent_inv \<lparr>agents = [], bindings = []\<rparr>" by (simp add: agent_inv_def)
  note run = agent_machine.run_abs [OF this, of ulow es]
  have "binding_abs \<lparr>agents = [], bindings = []\<rparr> = (\<lambda>_. None)" by (rule ext) (simp add: binding_abs_def)
  with run have "binding_abs (fold (agent_step ulow) es \<lparr>agents = [], bindings = []\<rparr>) = fold (spec_bindings ulow) es (\<lambda>_. None)"
    by simp
  with assms show ?thesis by (simp add: Resolve_def Let_def binding_abs_def [symmetric])
qed

text \<open>
  When a name is refused as invalid: exactly when its id is empty or starts with a digit.  So a
  name made of digits only, which the normaliser's comment says yields a valid id, is refused.
\<close>

theorem create_invalid_iff:
  assumes "trim_space (co_Name opts) \<noteq> []"
  shows "let i = normalizeDynamicAgentID ulow (trim_space (co_Name opts)) in
    (fst (Create flt ulow now opts db) = Inl (ErrAgentIDInvalid (trim_space (co_Name opts))))
      \<longleftrightarrow> i = [] \<or> 48 \<le> byte (hd i) \<and> byte (hd i) \<le> 57"
proof -
  let ?i = "normalizeDynamicAgentID ulow (trim_space (co_Name opts))"
  have s: "id_shape ?i" by (rule id_shape_normalized)
  have "dynamicAgentIDPattern ?i \<longleftrightarrow> \<not> (?i = [] \<or> 48 \<le> byte (hd ?i) \<and> byte (hd ?i) \<le> 57)"
  proof (cases ?i)
    case Nil
    then show ?thesis by (simp add: dynamicAgentIDPattern_def)
  next
    case (Cons c t)
    then have "length t \<le> 63" "list_all (\<lambda>x. lower_or_digit x \<or> x = CHR ''_'' \<or> x = CHR ''-'') t" "lower_or_digit c"
      using s by (auto simp: id_shape_def list_all_iff dash_or_alnum_def)
    with Cons show ?thesis by (auto simp: dynamicAgentIDPattern_def lower_or_digit_def)
  qed
  then show ?thesis using assms by (auto simp: Create_def Let_def)
qed

section \<open>A sample registry\<close>

definition demo_opts :: "string \<Rightarrow> CreateAgentOptions" where
  "demo_opts n = \<lparr>co_Name = n, co_Persona = [], co_ReservedIDs = [''main'']\<rparr>"

definition demo_match :: BindingMatch where
  "demo_match = \<lparr>bm_Channel = '' Telegram'', bm_PeerKind = ''group'', bm_PeerID = ''7'', bm_ThreadID = []\<rparr>"

theorem created_agent_found_witness:
  "\<exists>a. Get False (ar_ID a) (fold (agent_step (\<lambda>s. s)) [EvBind False 6 ''x'' demo_match]
     (snd (Create False (\<lambda>s. s) 5000000001 (demo_opts '' My--Bot '') \<lparr>agents = [], bindings = []\<rparr>)))
     = Inr (Some a) \<and> ar_ID a = ''my-bot''"
proof -
  let ?c = "Create False (\<lambda>s. s) 5000000001 (demo_opts '' My--Bot '') \<lparr>agents = [], bindings = []\<rparr>"
  have i: "agent_inv \<lparr>agents = [], bindings = []\<rparr>" by (simp add: agent_inv_def)
  have "(case fst ?c of Inr a \<Rightarrow> ar_ID a = ''my-bot'' | _ \<Rightarrow> False)" by code_simp
  then obtain a db' where c: "?c = (Inr a, db')" "ar_ID a = ''my-bot''" by (cases ?c; cases "fst ?c") auto
  from created_agent_found [OF i c(1), of "[EvBind False 6 ''x'' demo_match]"] c
  show ?thesis by (intro exI [of _ "a\<lparr>ar_CreatedAt := 5000000001 div 1000000000 * 1000000000\<rparr>"]) simp
qed

theorem resolve_follows_bindings_witness:
  "Resolve False (\<lambda>s. s) demo_match (fold (agent_step (\<lambda>s. s)) [EvBind False 6 ''a'' demo_match, EvBind False 7 '' b'' demo_match]
     \<lparr>agents = [], bindings = []\<rparr>) = Inr (Some ''b'')"
proof -
  have v: "validateBindingMatch (normalizeBindingMatch (\<lambda>s. s) demo_match) = None" by code_simp
  have "fold (spec_bindings (\<lambda>s. s)) [EvBind False 6 ''a'' demo_match, EvBind False 7 '' b'' demo_match] (\<lambda>_. None)
      (normalizeBindingMatch (\<lambda>s. s) demo_match) = Some ''b''" by code_simp
  with resolve_follows_bindings [OF v, of "[EvBind False 6 ''a'' demo_match, EvBind False 7 '' b'' demo_match]"]
  show ?thesis by simp
qed

theorem create_invalid_iff_witness:
  "fst (Create False (\<lambda>s. s) 5 (demo_opts ''123'') \<lparr>agents = [], bindings = []\<rparr>) = Inl (ErrAgentIDInvalid ''123'')"
proof -
  have t: "trim_space (co_Name (demo_opts ''123'')) \<noteq> []" "trim_space (co_Name (demo_opts ''123'')) = ''123''"
    "normalizeDynamicAgentID (\<lambda>s. s) ''123'' = ''123''" "48 \<le> byte (hd ''123'') \<and> byte (hd ''123'') \<le> 57" by code_simp+
  from create_invalid_iff [OF t(1), of "\<lambda>s. s" False 5 "\<lparr>agents = [], bindings = []\<rparr>"] t show ?thesis by (simp add: Let_def)
qed

end
