(* ===== verification/UnixTime.thy ===== *)
theory UnixTime
  imports Prelude "HOL-Library.Word"
begin

text \<open>
  A time is its offset from the Unix epoch in nanoseconds; \<open>UnixNano\<close> is the 64-bit value that
  \<open>time.Time.UnixNano\<close> returns for it and that the columns hold.
\<close>

definition UnixNano :: "int \<Rightarrow> int" where
  "UnixNano t = sint (word_of_int t :: 64 word)"

lemma UnixNano_range: "in_int64 (UnixNano t)"
  using sint_lt [of "word_of_int t :: 64 word"] sint_ge [of "word_of_int t :: 64 word"]
  by (simp add: UnixNano_def in_int64_def min_int64_def max_int64_def)

end
