(* ===== verification/WebhookEndpoints.thy ===== *)
theory WebhookEndpoints
  imports Text Tables UnixTime
begin

text \<open>
  The registered webhook endpoints of \<open>internal/webhooks/endpoints\<close>, the URL policy of
  \<open>internal/webhooks/urlpolicy\<close> and the workspace rule of \<open>internal/webhooks/workspace\<close>.  Go's
  \<open>net/url\<close> and \<open>net\<close> parsers are the argument \<open>urls\<close>: what \<open>url.Parse\<close> makes of a string and
  which host names \<open>net.ParseIP\<close> reads as private, loopback, link-local or unspecified addresses.
  The random id is an argument of the call.
\<close>

record parsed_url =
  pu_Scheme :: string
  pu_Host :: string
  pu_Hostname :: string
  pu_String :: string
  pu_Redacted :: string

record url_lib =
  url_Parse :: "string \<Rightarrow> parsed_url option"
  privateHost :: "string \<Rightarrow> bool"

record Endpoint =
  ep_ID :: string
  ep_WorkspaceID :: string
  ep_URL :: string
  ep_CreatedAt :: int

record CreateParams =
  cp_WorkspaceID :: string
  cp_URL :: string
  cp_Limit :: int
  cp_Now :: int

record CreateResult =
  cr_Endpoint :: Endpoint
  cr_Created :: bool

datatype endpoint_site = EpEnsure | EpBegin | EpFind | EpCount | EpInsert | EpCommit | EpList | EpDelete

datatype endpoint_error = ErrWorkspaceRequired | ErrInvalidURL | ErrLimitReached | ErrNotFound | EpDb endpoint_site

section \<open>Workspace and URL policy\<close>

definition workspace_Resolve :: "string \<Rightarrow> string \<Rightarrow> string" where
  "workspace_Resolve workspaceID fallback =
     (let t = trim_space workspaceID in if t \<noteq> [] then t else trim_space fallback)"

definition NormalizeEndpoint :: "url_lib \<Rightarrow> string \<Rightarrow> int \<Rightarrow> string option" where
  "NormalizeEndpoint urls raw0 maxLength =
     (let raw = trim_space raw0 in
      if raw = [] \<or> int (length raw) > maxLength then None
      else case url_Parse urls raw of
        None \<Rightarrow> None
      | Some parsed \<Rightarrow>
          if pu_Scheme parsed = [] \<or> pu_Host parsed = [] then None
          else if pu_Scheme parsed \<noteq> ''http'' \<and> pu_Scheme parsed \<noteq> ''https'' then None
          else if pu_Hostname parsed = [] \<or> privateHost urls (pu_Hostname parsed) then None
          else Some (pu_String parsed))"

text \<open>\<open>pu_Redacted\<close> is \<open>String()\<close> of the parsed URL with the user, query and fragment replaced.\<close>

definition RedactEndpoint :: "url_lib \<Rightarrow> string \<Rightarrow> string" where
  "RedactEndpoint urls raw =
     (if trim_space raw = [] then []
      else case url_Parse urls raw of
        None \<Rightarrow> ''<redacted>''
      | Some parsed \<Rightarrow> if pu_Scheme parsed = [] \<or> pu_Host parsed = [] then ''<redacted>'' else pu_Redacted parsed)"

definition NormalizeURL :: "url_lib \<Rightarrow> string \<Rightarrow> endpoint_error + string" where
  "NormalizeURL urls raw = (case NormalizeEndpoint urls raw 2048 of None \<Rightarrow> Inl ErrInvalidURL | Some u \<Rightarrow> Inr u)"

section \<open>Operations\<close>

definition findByURL :: "Endpoint list \<Rightarrow> string \<Rightarrow> string \<Rightarrow> Endpoint option" where
  "findByURL t ws url = find (\<lambda>e. ep_WorkspaceID e = ws \<and> ep_URL e = url) t"

definition of_workspace :: "string \<Rightarrow> Endpoint list \<Rightarrow> Endpoint list" where
  "of_workspace ws t = filter (\<lambda>e. ep_WorkspaceID e = ws) t"

definition scanned :: "Endpoint \<Rightarrow> Endpoint" where
  "scanned e = e\<lparr>ep_CreatedAt := ep_CreatedAt e * 1000000000\<rparr>"

text \<open>
  SQLite's \<open>length\<close> of a text: characters up to the first NUL, where the continuation bytes after a byte of 192
  or more belong to its character.
\<close>

fun text_length :: "bool \<Rightarrow> string \<Rightarrow> nat" where
  "text_length open_char [] = 0"
| "text_length open_char (c # s) =
     (if byte c = 0 then 0
      else if open_char \<and> 128 \<le> byte c \<and> byte c < 192 then text_length True s
      else Suc (text_length (192 \<le> byte c) s))"

text \<open>A call that names no time takes the clock.\<close>

definition create_time :: "int \<Rightarrow> CreateParams \<Rightarrow> int" where
  "create_time clock params = (if cp_Now params = zero_time then clock else cp_Now params)"

text \<open>
  The insert fails on a statement fault, on the primary key, on the unique pair and on the length
  check; the transaction is then rolled back.
\<close>

definition GetOrCreate :: "(endpoint_site \<Rightarrow> bool) \<Rightarrow> url_lib \<Rightarrow> string \<Rightarrow> int \<Rightarrow> string \<Rightarrow> CreateParams \<Rightarrow> Endpoint list
    \<Rightarrow> (endpoint_error + CreateResult) \<times> Endpoint list" where
  "GetOrCreate flt urls newID clock defaultWorkspaceID params t =
     (let workspaceID = workspace_Resolve (cp_WorkspaceID params) defaultWorkspaceID in
      case NormalizeURL urls (cp_URL params) of
        Inl e \<Rightarrow> (Inl e, t)
      | Inr endpointURL \<Rightarrow>
          let limit = LimitDefault (cp_Limit params) 10; now = create_time clock params in
          if flt EpEnsure then (Inl (EpDb EpEnsure), t)
          else if flt EpBegin then (Inl (EpDb EpBegin), t)
          else if flt EpFind then (Inl (EpDb EpFind), t)
          else case findByURL t workspaceID endpointURL of
            Some existing \<Rightarrow> (Inr \<lparr>cr_Endpoint = scanned existing, cr_Created = False\<rparr>, t)
          | None \<Rightarrow>
              if flt EpCount then (Inl (EpDb EpCount), t)
              else if int (length (of_workspace workspaceID t)) \<ge> limit then (Inl ErrLimitReached, t)
              else
                let e = \<lparr>ep_ID = newID, ep_WorkspaceID = workspaceID, ep_URL = endpointURL, ep_CreatedAt = now\<rparr> in
                if flt EpInsert \<or> newID \<in> ep_ID ` set t \<or> text_length False endpointURL > 2048 then (Inl (EpDb EpInsert), t)
                else if flt EpCommit then (Inl (EpDb EpCommit), t)
                else (Inr \<lparr>cr_Endpoint = e, cr_Created = True\<rparr>, t @ [e\<lparr>ep_CreatedAt := now div 1000000000\<rparr>]))"

definition ListEndpoints :: "(endpoint_site \<Rightarrow> bool) \<Rightarrow> string \<Rightarrow> string \<Rightarrow> Endpoint list \<Rightarrow> endpoint_error + Endpoint list" where
  "ListEndpoints flt defaultWorkspaceID ws t =
     (let workspaceID = workspace_Resolve ws defaultWorkspaceID in
      if workspaceID = [] then Inl ErrWorkspaceRequired
      else if flt EpEnsure then Inl (EpDb EpEnsure)
      else if flt EpList then Inl (EpDb EpList)
      else Inr (map scanned (order_asc (\<lambda>e. (ep_CreatedAt e, ep_ID e)) (of_workspace workspaceID t))))"

definition Delete :: "(endpoint_site \<Rightarrow> bool) \<Rightarrow> string \<Rightarrow> string \<Rightarrow> string \<Rightarrow> Endpoint list
    \<Rightarrow> endpoint_error option \<times> Endpoint list" where
  "Delete flt defaultWorkspaceID ws endpointID0 t =
     (let workspaceID = workspace_Resolve ws defaultWorkspaceID; endpointID = trim_space endpointID0;
          hit = (\<lambda>e. ep_WorkspaceID e = workspaceID \<and> ep_ID e = endpointID) in
      if workspaceID = [] then (Some ErrWorkspaceRequired, t)
      else if endpointID = [] then (Some ErrNotFound, t)
      else if flt EpEnsure then (Some (EpDb EpEnsure), t)
      else if flt EpDelete then (Some (EpDb EpDelete), t)
      else if list_ex hit t then (None, tdelete hit t) else (Some ErrNotFound, t))"

section \<open>Invariant\<close>

datatype endpoint_event =
    EvGetOrCreate "endpoint_site \<Rightarrow> bool" string int string CreateParams
  | EvDelete "endpoint_site \<Rightarrow> bool" string string string

fun endpoint_step :: "url_lib \<Rightarrow> endpoint_event \<Rightarrow> Endpoint list \<Rightarrow> Endpoint list" where
  "endpoint_step urls (EvGetOrCreate flt i clk dw p) t = snd (GetOrCreate flt urls i clk dw p t)"
| "endpoint_step urls (EvDelete flt dw ws i) t = snd (Delete flt dw ws i t)"

text \<open>Ids are unique, a workspace has a URL once, and every URL came through the policy.\<close>

definition endpoint_inv :: "url_lib \<Rightarrow> Endpoint list \<Rightarrow> bool" where
  "endpoint_inv urls t \<longleftrightarrow> unique_keys ep_ID t \<and> unique_keys (\<lambda>e. (ep_WorkspaceID e, ep_URL e)) t
     \<and> (\<forall>e \<in> set t. \<exists>raw. NormalizeURL urls raw = Inr (ep_URL e))"

text \<open>What a call changes: nothing, or one new row at the end.\<close>

lemma GetOrCreate_cases:
  assumes "GetOrCreate flt urls i clk dw p t = (r, t')"
  shows "(\<exists>e. r = Inl e) \<and> t' = t
   \<or> (\<exists>u x. NormalizeURL urls (cp_URL p) = Inr u \<and> findByURL t (workspace_Resolve (cp_WorkspaceID p) dw) u = Some x
        \<and> r = Inr \<lparr>cr_Endpoint = scanned x, cr_Created = False\<rparr> \<and> t' = t)
   \<or> (\<exists>u. NormalizeURL urls (cp_URL p) = Inr u \<and> findByURL t (workspace_Resolve (cp_WorkspaceID p) dw) u = None
        \<and> int (length (of_workspace (workspace_Resolve (cp_WorkspaceID p) dw) t)) < LimitDefault (cp_Limit p) 10
        \<and> i \<notin> ep_ID ` set t
        \<and> r = Inr \<lparr>cr_Endpoint = \<lparr>ep_ID = i, ep_WorkspaceID = workspace_Resolve (cp_WorkspaceID p) dw, ep_URL = u,
             ep_CreatedAt = create_time clk p\<rparr>, cr_Created = True\<rparr>
        \<and> t' = t @ [\<lparr>ep_ID = i, ep_WorkspaceID = workspace_Resolve (cp_WorkspaceID p) dw, ep_URL = u,
             ep_CreatedAt = create_time clk p div 1000000000\<rparr>])"
proof (cases "NormalizeURL urls (cp_URL p)")
  case (Inl e)
  with assms show ?thesis by (auto simp: GetOrCreate_def Let_def)
next
  case (Inr u)
  show ?thesis
  proof (cases "findByURL t (workspace_Resolve (cp_WorkspaceID p) dw) u")
    case None
    with assms Inr show ?thesis by (simp add: GetOrCreate_def Let_def split: if_splits) auto
  next
    case (Some x)
    with assms Inr show ?thesis by (simp add: GetOrCreate_def Let_def split: if_splits) auto
  qed
qed

lemma findByURL_None: "findByURL t ws u = None \<longleftrightarrow> (ws, u) \<notin> (\<lambda>e. (ep_WorkspaceID e, ep_URL e)) ` set t"
  by (auto simp: findByURL_def find_None_iff)

lemma findByURL_Some: "findByURL t ws u = Some x \<Longrightarrow> x \<in> set t \<and> ep_WorkspaceID x = ws \<and> ep_URL x = u"
  by (auto simp: findByURL_def find_Some_iff)

lemma unique_keys_snoc: "unique_keys key (t @ [r]) \<longleftrightarrow> unique_keys key t \<and> key r \<notin> key ` set t"
  by (auto simp: unique_keys_def)

lemma endpoint_step_inv: "endpoint_inv urls t \<Longrightarrow> endpoint_inv urls (endpoint_step urls e t)"
proof (cases e)
  case (EvGetOrCreate flt i clk dw p)
  obtain r t' where c: "GetOrCreate flt urls i clk dw p t = (r, t')" by fastforce
  assume inv: "endpoint_inv urls t"
  from GetOrCreate_cases [OF c] have "endpoint_inv urls t'"
  proof (elim disjE exE conjE)
    fix u
    assume "NormalizeURL urls (cp_URL p) = Inr u" "findByURL t (workspace_Resolve (cp_WorkspaceID p) dw) u = None"
      "i \<notin> ep_ID ` set t"
      "t' = t @ [\<lparr>ep_ID = i, ep_WorkspaceID = workspace_Resolve (cp_WorkspaceID p) dw, ep_URL = u,
             ep_CreatedAt = create_time clk p div 1000000000\<rparr>]"
    with inv show ?thesis by (auto simp: endpoint_inv_def unique_keys_snoc findByURL_None)
  qed (use inv in simp_all)
  with EvGetOrCreate c show ?thesis by simp
next
  case (EvDelete flt dw ws i)
  then show "endpoint_inv urls t \<Longrightarrow> ?thesis"
    by (auto simp: Delete_def Let_def endpoint_inv_def)
qed

interpretation endpoint_machine: machine "endpoint_step urls" "endpoint_inv urls" for urls
  by unfold_locales (rule endpoint_step_inv)

section \<open>Correctness of the endpoints\<close>

text \<open>
  C29. Registration is idempotent and bounded: after any sequence of calls from an empty table, a
  successful registration leaves exactly one row of its workspace and URL, repeating it (with any
  new id, limit and time) returns the same id as not created and changes nothing, and a new row is
  only added while the workspace is below the limit of the call.
\<close>

theorem get_or_create_idempotent:
  assumes t: "t = fold (endpoint_step urls) es []" and c: "GetOrCreate flt urls i clk dw p t = (Inr r, t')"
    and p': "cp_URL p' = cp_URL p" "cp_WorkspaceID p' = cp_WorkspaceID p"
  shows "length (filter (\<lambda>e. ep_WorkspaceID e = ep_WorkspaceID (cr_Endpoint r) \<and> ep_URL e = ep_URL (cr_Endpoint r)) t') = 1
    \<and> (\<exists>x. GetOrCreate (\<lambda>_. False) urls j clk' dw p' t' = (Inr \<lparr>cr_Endpoint = x, cr_Created = False\<rparr>, t')
         \<and> ep_ID x = ep_ID (cr_Endpoint r))
    \<and> (cr_Created r \<longrightarrow> int (length (of_workspace (ep_WorkspaceID (cr_Endpoint r)) t')) \<le> LimitDefault (cp_Limit p) 10)"
proof -
  have inv: "endpoint_inv urls t" unfolding t by (rule endpoint_machine.run_inv) (simp add: endpoint_inv_def)
  then have inv': "endpoint_inv urls t'" using endpoint_step_inv [OF inv, of "EvGetOrCreate flt i clk dw p"] c by simp
  let ?ws = "workspace_Resolve (cp_WorkspaceID p) dw"
  obtain u x where u: "NormalizeURL urls (cp_URL p) = Inr u" and x: "x \<in> set t'" "ep_WorkspaceID x = ?ws" "ep_URL x = u"
      "ep_ID x = ep_ID (cr_Endpoint r)" "ep_WorkspaceID (cr_Endpoint r) = ?ws" "ep_URL (cr_Endpoint r) = u"
    and lim: "cr_Created r \<longrightarrow> int (length (of_workspace ?ws t')) \<le> LimitDefault (cp_Limit p) 10"
    using GetOrCreate_cases [OF c]
  proof (elim disjE exE conjE)
    fix u x
    assume a: "NormalizeURL urls (cp_URL p) = Inr u" "findByURL t ?ws u = Some x"
      "Inr r = Inr \<lparr>cr_Endpoint = scanned x, cr_Created = False\<rparr>" "t' = t"
    from a findByURL_Some [OF a(2)] show thesis by (intro that [of u x]) (auto simp: scanned_def)
  next
    fix u
    assume a: "NormalizeURL urls (cp_URL p) = Inr u" "int (length (of_workspace ?ws t)) < LimitDefault (cp_Limit p) 10"
      "Inr r = Inr \<lparr>cr_Endpoint = \<lparr>ep_ID = i, ep_WorkspaceID = ?ws, ep_URL = u, ep_CreatedAt = create_time clk p\<rparr>, cr_Created = True\<rparr>"
      "t' = t @ [\<lparr>ep_ID = i, ep_WorkspaceID = ?ws, ep_URL = u, ep_CreatedAt = create_time clk p div 1000000000\<rparr>]"
    from a show thesis by (intro that [of u "last t'"]) (auto simp: of_workspace_def)
  qed auto
  have uk: "unique_keys (\<lambda>e. (ep_WorkspaceID e, ep_URL e)) t'" using inv' by (simp add: endpoint_inv_def)
  have only: "y = x" if "y \<in> set t'" "ep_WorkspaceID y = ?ws" "ep_URL y = u" for y
    using unique_keys_eq [OF uk that(1) x(1)] that x by simp
  have "findByURL t' ?ws u = Some x"
  proof (cases "findByURL t' ?ws u")
    case None
    have "(?ws, u) \<in> (\<lambda>e. (ep_WorkspaceID e, ep_URL e)) ` set t'"
      by (rule rev_image_eqI [OF x(1)]) (simp add: x(2,3))
    with findByURL_None [THEN iffD1, OF None] show ?thesis by blast
  next
    case (Some y)
    with only findByURL_Some [OF Some] show ?thesis by simp
  qed
  then have rep: "GetOrCreate (\<lambda>_. False) urls j clk' dw p' t' = (Inr \<lparr>cr_Endpoint = scanned x, cr_Created = False\<rparr>, t')"
    using u p' by (simp add: GetOrCreate_def Let_def)
  have "distinct (filter (\<lambda>e. ep_WorkspaceID e = ?ws \<and> ep_URL e = u) t')"
    using inv' by (simp add: endpoint_inv_def unique_keys_def distinct_map)
  moreover have "set (filter (\<lambda>e. ep_WorkspaceID e = ?ws \<and> ep_URL e = u) t') = {x}"
  proof (rule set_eqI)
    fix y
    show "y \<in> set (filter (\<lambda>e. ep_WorkspaceID e = ?ws \<and> ep_URL e = u) t') \<longleftrightarrow> y \<in> {x}"
      unfolding set_filter using only [of y] x(1-3) by blast
  qed
  ultimately have "length (filter (\<lambda>e. ep_WorkspaceID e = ?ws \<and> ep_URL e = u) t') = 1" by (rule distinct_singleton)
  moreover have "ep_ID (scanned x) = ep_ID (cr_Endpoint r)" using x(4) by (simp add: scanned_def)
  ultimately show ?thesis unfolding x(5,6) using rep lim by blast
qed

text \<open>
  Every stored endpoint passed the URL policy: after any sequence of calls from an empty table,
  each stored URL is the normal form of a trimmed, non-empty text of at most 2048 bytes that parses
  as an http or https URL whose host is neither empty nor private.
\<close>

theorem stored_urls_public:
  assumes e: "e \<in> set (fold (endpoint_step urls) es [])"
  shows "\<exists>raw q. url_Parse urls raw = Some q \<and> trim_space raw = raw \<and> raw \<noteq> [] \<and> length raw \<le> 2048
    \<and> pu_Scheme q \<in> {''http'', ''https''} \<and> pu_Hostname q \<noteq> [] \<and> \<not> privateHost urls (pu_Hostname q)
    \<and> ep_URL e = pu_String q"
proof -
  have "endpoint_inv urls (fold (endpoint_step urls) es [])"
    by (rule endpoint_machine.run_inv) (simp add: endpoint_inv_def)
  with e obtain raw where "NormalizeURL urls raw = Inr (ep_URL e)" by (auto simp: endpoint_inv_def)
  then show ?thesis
    by (intro exI [of _ "trim_space raw"])
      (auto simp: NormalizeURL_def NormalizeEndpoint_def Let_def split: option.splits if_splits)
qed

text \<open>
  A registration without any workspace is accepted and unreachable: when neither the call nor
  the service names a workspace, \<open>GetOrCreate\<close> stores the endpoint under the empty workspace, while
  \<open>List\<close> and \<open>Delete\<close> of that workspace refuse to run.
\<close>

theorem blank_workspace_endpoint_unreachable:
  assumes blank: "trim_space (cp_WorkspaceID p) = []" "trim_space dw = []" "trim_space ws = []"
    and u: "NormalizeURL urls (cp_URL p) = Inr u" "text_length False u \<le> 2048"
    and room: "of_workspace [] t = []" "i \<notin> ep_ID ` set t"
  shows "\<exists>r t'. GetOrCreate (\<lambda>_. False) urls i clk dw p t = (Inr r, t') \<and> cr_Created r \<and> length t' = Suc (length t)
    \<and> ListEndpoints flt dw ws t' = Inl ErrWorkspaceRequired
    \<and> Delete flt dw ws i t' = (Some ErrWorkspaceRequired, t')"
proof -
  have "findByURL t [] u = None" using room(1) by (auto simp: findByURL_None of_workspace_def filter_empty_conv)
  then show ?thesis
    using assms by (simp add: GetOrCreate_def ListEndpoints_def Delete_def workspace_Resolve_def LimitDefault_def Let_def)
qed

section \<open>A sample table\<close>

definition demo_urls :: url_lib where
  "demo_urls = \<lparr>url_Parse = (\<lambda>s. if s = ''https://h/x'' then Some \<lparr>pu_Scheme = ''https'', pu_Host = ''h'', pu_Hostname = ''h'',
     pu_String = s, pu_Redacted = s\<rparr> else None), privateHost = (\<lambda>h. h = ''127.0.0.1'')\<rparr>"

definition demo_cp :: "string \<Rightarrow> CreateParams" where
  "demo_cp ws = \<lparr>cp_WorkspaceID = ws, cp_URL = '' https://h/x'', cp_Limit = 0, cp_Now = 5000000000\<rparr>"

definition demo_endpoints :: "Endpoint list" where
  "demo_endpoints = fold (endpoint_step demo_urls) [EvGetOrCreate (\<lambda>_. False) ''we_1'' 9 ''w'' (demo_cp [])] []"

theorem get_or_create_idempotent_witness:
  "\<exists>x. GetOrCreate (\<lambda>_. False) demo_urls ''we_3'' 9 ''w'' (demo_cp []) demo_endpoints
     = (Inr \<lparr>cr_Endpoint = x, cr_Created = False\<rparr>, demo_endpoints)"
proof -
  let ?c = "GetOrCreate (\<lambda>_. False) demo_urls ''we_2'' 9 ''w'' (demo_cp []) demo_endpoints"
  have "is_ok (fst ?c)" "snd ?c = demo_endpoints" by code_simp+
  then obtain r where c: "?c = (Inr r, demo_endpoints)" by (cases ?c) (auto simp: is_ok_iff)
  from get_or_create_idempotent [OF demo_endpoints_def c refl refl, of "''we_3''"] show ?thesis by blast
qed

theorem stored_urls_public_witness:
  "\<exists>q :: parsed_url. pu_String q = ''https://h/x'' \<and> \<not> privateHost demo_urls (pu_Hostname q) \<and> pu_Hostname q \<noteq> []"
proof -
  have e: "hd demo_endpoints \<in> set (fold (endpoint_step demo_urls) [EvGetOrCreate (\<lambda>_. False) ''we_1'' 9 ''w'' (demo_cp [])] [])"
    "ep_URL (hd demo_endpoints) = ''https://h/x''" by code_simp+
  from stored_urls_public [OF e(1)] obtain q :: parsed_url where q: "pu_Hostname q \<noteq> []" "\<not> privateHost demo_urls (pu_Hostname q)"
    "ep_URL (hd demo_endpoints) = pu_String q" by blast
  from q(3) e(2) have "pu_String q = ''https://h/x''" by (simp only:)
  with q(1,2) show ?thesis by blast
qed

theorem blank_workspace_endpoint_unreachable_witness:
  "\<exists>r t'. GetOrCreate (\<lambda>_. False) demo_urls ''we_1'' 9 [] (demo_cp []) [] = (Inr r, t') \<and> length t' = 1"
proof -
  have "trim_space (cp_WorkspaceID (demo_cp [])) = []" "trim_space [] = []"
    "NormalizeURL demo_urls (cp_URL (demo_cp [])) = Inr ''https://h/x''" "text_length False ''https://h/x'' \<le> 2048"
    "of_workspace [] [] = []" "''we_1'' \<notin> ep_ID ` set []" by code_simp+
  from blank_workspace_endpoint_unreachable [OF this(1,2,2,3-6), where clk = 9 and flt = "\<lambda>_. False"] show ?thesis by auto
qed

end
