(* ===== verification/WebhookDelivery.thy ===== *)
theory WebhookDelivery
  imports WebhookEndpoints "HOL-Library.Word"
begin

text \<open>
  The delivery worker of \<open>internal/webhooks/delivery\<close> with the event envelopes of
  \<open>internal/webhooks/events\<close> and the signing rule of \<open>internal/webhooks/signing\<close>.  The store, the
  HTTP client and the clock are interfaces: \<open>env\<close> holds what they answer, for the n-th endpoint of
  the list where they are called per endpoint (each is called at most once there), and the calls made
  are returned as a list of effects in the order they happen.  \<open>crypto/hmac\<close> and \<open>encoding/json\<close> are
  the arguments \<open>hmac\<close> and \<open>encode\<close> of the library record.  A \<open>time.Duration\<close> is a 64-bit word.
\<close>

section \<open>Events\<close>

datatype event_type = QueueEmpty | Test | OtherEvent string

fun type_text :: "event_type \<Rightarrow> string" where
  "type_text QueueEmpty = ''queue.empty''"
| "type_text Test = ''test.event''"
| "type_text (OtherEvent s) = s"

text \<open>The data is a Go map, nil or with entries; a text stands for the value of an entry.\<close>

record Event =
  ev_Type :: event_type
  ev_WorkspaceID :: string
  ev_Data :: "(string \<times> string) list option"

record QueueEmptyParams =
  qe_WorkspaceID :: string
  qe_QueueType :: string
  qe_SessionID :: string
  qe_Observer :: string
  qe_Observed :: string

datatype delivery_error = DlvWorkspaceRequired | DlvTypeRequired | DlvEncode string | DlvStoreMissing | DlvClientMissing
  | DlvList string | DlvRecord string | DlvDisable string | ErrSecretMissing

definition NewTest :: "string \<Rightarrow> delivery_error + Event" where
  "NewTest ws0 = (let ws = trim_space ws0 in
     if ws = [] then Inl DlvWorkspaceRequired
     else Inr \<lparr>ev_Type = Test, ev_WorkspaceID = ws, ev_Data = Some [(''workspace_id'', ws)]\<rparr>)"

definition optional_entry :: "string \<Rightarrow> string \<Rightarrow> (string \<times> string) list" where
  "optional_entry k v = (if trim_space v \<noteq> [] then [(k, trim_space v)] else [])"

definition NewQueueEmpty :: "QueueEmptyParams \<Rightarrow> delivery_error + Event" where
  "NewQueueEmpty p = (let ws = trim_space (qe_WorkspaceID p); qt = trim_space (qe_QueueType p) in
     if ws = [] then Inl DlvWorkspaceRequired
     else Inr \<lparr>ev_Type = QueueEmpty, ev_WorkspaceID = ws,
       ev_Data = Some ([(''workspace_id'', ws), (''queue_type'', if qt = [] then ''default'' else qt)]
         @ optional_entry ''session_id'' (qe_SessionID p) @ optional_entry ''observer'' (qe_Observer p)
         @ optional_entry ''observed'' (qe_Observed p))\<rparr>)"

record delivery_lib =
  lib_urls :: url_lib
  encode :: "string \<Rightarrow> (string \<times> string) list option \<Rightarrow> int \<Rightarrow> string + string"
  hmac :: "string \<Rightarrow> string \<Rightarrow> string"

text \<open>
  The test \<open>payload["data"] == nil\<close> compares an interface that holds a typed map, so it is false for a nil map too:
  the default data is never supplied, and the encoder gets a nil map, which it writes as null.
\<close>

definition Payload :: "delivery_lib \<Rightarrow> Event \<Rightarrow> int \<Rightarrow> delivery_error + string" where
  "Payload lib e now =
     (if trim_space (ev_WorkspaceID e) = [] then Inl DlvWorkspaceRequired
      else if type_text (ev_Type e) = [] then Inl DlvTypeRequired
      else case encode lib (type_text (ev_Type e)) (ev_Data e) now of
        Inl x \<Rightarrow> Inl (DlvEncode x) | Inr b \<Rightarrow> Inr b)"

definition SignPayload :: "delivery_lib \<Rightarrow> string \<Rightarrow> string \<Rightarrow> delivery_error + string" where
  "SignPayload lib payload secret = (if trim_space secret = [] then Inl ErrSecretMissing else Inr (hmac lib secret payload))"

text \<open>An event without data is sent with null data, not with the data of a test event.\<close>

lemma no_default_data:
  assumes "trim_space (ev_WorkspaceID e) \<noteq> []" "type_text (ev_Type e) \<noteq> []" "ev_Data e = None"
  shows "Payload lib e now = (case encode lib (type_text (ev_Type e)) None now of Inl x \<Rightarrow> Inl (DlvEncode x) | Inr b \<Rightarrow> Inr b)"
  using assms by (simp add: Payload_def)

section \<open>Worker\<close>

datatype delivery_status = Delivered | Retryable | Failed | EndpointDisabled | Skipped

datatype ErrorClass = ErrorNone | ErrorHTTPStatus | ErrorNetwork | ErrorSigning | ErrorStore | ErrorDisabled

record DeliveryEndpoint =
  dn_ID :: string
  dn_WorkspaceID :: string
  dn_URL :: string
  dn_Disabled :: bool
  dn_DisabledReason :: string

record Worker =
  wk_Secret :: string
  wk_MaxAttempts :: int
  wk_Backoff :: "(int \<Rightarrow> int) option"

record Request =
  rq_WorkspaceID :: string
  rq_Event :: Event
  rq_Attempt :: int

record HTTPRequest =
  hr_URL :: string
  hr_Body :: string
  hr_Headers :: "(string \<times> string) list"

text \<open>\<open>Evidence\<close> repeats the fields of the result it belongs to, with the redacted URL.\<close>

record Result =
  re_EndpointID :: string
  re_WorkspaceID :: string
  re_EventType :: event_type
  re_Attempt :: int
  re_Status :: delivery_status
  re_StatusCode :: int
  re_ErrorClass :: ErrorClass
  re_Error :: string
  re_Retry :: bool
  re_NextRetryAt :: "int option"
  re_EndpointURL :: string

record delivery_env =
  en_StoreSet :: bool
  en_ClientSet :: bool
  en_Now :: int
  en_List :: "string + DeliveryEndpoint list"
  en_Post :: "nat \<Rightarrow> string + int"
  en_Record :: "nat \<Rightarrow> string option"
  en_Disable :: "nat \<Rightarrow> string option"

datatype effect = Posted HTTPRequest | Recorded Result int | Disabled DeliveryEndpoint string int

text \<open>\<open>for i := 1; i < attempt; i++ { delay *= 2 }\<close> on \<open>int64\<close>.\<close>

definition DefaultBackoff :: "64 word" where
  "DefaultBackoff = 30000000000"

definition backoff :: "Worker \<Rightarrow> int \<Rightarrow> int" where
  "backoff w attempt0 =
     (case wk_Backoff w of
        Some f \<Rightarrow> f attempt0
      | None \<Rightarrow>
          let attempt = (if attempt0 \<le> 0 then 1 else attempt0) in
          sint (((\<lambda>delay. delay * 2) ^^ nat (attempt - 1)) DefaultBackoff))"

definition mk_result :: "delivery_lib \<Rightarrow> DeliveryEndpoint \<Rightarrow> event_type \<Rightarrow> int \<Rightarrow> delivery_status \<Rightarrow> int \<Rightarrow> ErrorClass
    \<Rightarrow> string \<Rightarrow> bool \<Rightarrow> int option \<Rightarrow> Result" where
  "mk_result lib e ty attempt status code cls msg retry next =
     \<lparr>re_EndpointID = dn_ID e, re_WorkspaceID = dn_WorkspaceID e, re_EventType = ty, re_Attempt = attempt,
      re_Status = status, re_StatusCode = code, re_ErrorClass = cls, re_Error = msg, re_Retry = retry,
      re_NextRetryAt = next, re_EndpointURL = RedactEndpoint (lib_urls lib) (dn_URL e)\<rparr>"

definition RetryableStatus :: "int \<Rightarrow> bool" where
  "RetryableStatus code \<longleftrightarrow> code = 408 \<or> code = 429 \<or> code \<ge> 500"

definition failureOrRetry :: "delivery_lib \<Rightarrow> Worker \<Rightarrow> DeliveryEndpoint \<Rightarrow> event_type \<Rightarrow> int \<Rightarrow> int \<Rightarrow> int \<Rightarrow> ErrorClass
    \<Rightarrow> string \<Rightarrow> int \<Rightarrow> Result" where
  "failureOrRetry lib w e ty attempt maxAttempts code cls msg now =
     (if attempt \<ge> maxAttempts then mk_result lib e ty attempt Failed code cls msg False None
      else mk_result lib e ty attempt Retryable code cls msg True (Some (now + backoff w attempt)))"

definition status_text :: "int \<Rightarrow> string" where
  "status_text code = ''status '' @ Decimal code"

definition classify :: "delivery_lib \<Rightarrow> Worker \<Rightarrow> DeliveryEndpoint \<Rightarrow> event_type \<Rightarrow> int \<Rightarrow> int \<Rightarrow> string + int \<Rightarrow> int \<Rightarrow> Result" where
  "classify lib w e ty attempt maxAttempts answer now =
     (case answer of
        Inl err \<Rightarrow> failureOrRetry lib w e ty attempt maxAttempts 0 ErrorNetwork err now
      | Inr code \<Rightarrow>
          if code \<ge> 200 \<and> code < 300 then mk_result lib e ty attempt Delivered code ErrorNone [] False None
          else if RetryableStatus code
            then failureOrRetry lib w e ty attempt maxAttempts code ErrorHTTPStatus (status_text code) now
          else mk_result lib e ty attempt Failed code ErrorHTTPStatus (status_text code) False None)"

definition FailureDisableReason :: "Result \<Rightarrow> string" where
  "FailureDisableReason r =
     (if re_Attempt r > 0 \<and> re_ErrorClass r = ErrorNetwork then ''max_attempts_exhausted''
      else if RetryableStatus (re_StatusCode r) then ''max_attempts_exhausted'' else ''permanent_failure'')"

definition webhookRequest :: "DeliveryEndpoint \<Rightarrow> string \<Rightarrow> string \<Rightarrow> HTTPRequest" where
  "webhookRequest e body signature = \<lparr>hr_URL = dn_URL e, hr_Body = body,
     hr_Headers = [(''Content-Type'', ''application/json''), (''X-Honcho-Signature'', signature)]\<rparr>"

text \<open>The endpoint loop: \<open>n\<close> counts the endpoints handled; results and effects in order.\<close>

fun deliverLoop :: "delivery_lib \<Rightarrow> Worker \<Rightarrow> delivery_env \<Rightarrow> string \<Rightarrow> event_type \<Rightarrow> int \<Rightarrow> int \<Rightarrow> string \<Rightarrow> string
    \<Rightarrow> nat \<Rightarrow> DeliveryEndpoint list \<Rightarrow> Result list \<times> delivery_error option \<times> effect list" where
  "deliverLoop lib w env ws ty attempt maxAttempts body sig n [] = ([], None, [])"
| "deliverLoop lib w env ws ty attempt maxAttempts body sig n (e0 # es) =
     (let e = (if dn_WorkspaceID e0 = [] then e0\<lparr>dn_WorkspaceID := ws\<rparr> else e0); now = en_Now env in
      if dn_Disabled e then
        (let r = mk_result lib e ty attempt EndpointDisabled 0 ErrorDisabled (dn_DisabledReason e) False None in
         case en_Record env n of
           Some x \<Rightarrow> ([r], Some (DlvRecord x), [Recorded r now])
         | None \<Rightarrow> (case deliverLoop lib w env ws ty attempt maxAttempts body sig (Suc n) es of
             (rs, err, fx) \<Rightarrow> (r # rs, err, Recorded r now # fx)))
      else
        (let post = Posted (webhookRequest e body sig);
             r = classify lib w e ty attempt maxAttempts (en_Post env n) now in
         case en_Record env n of
           Some x \<Rightarrow> ([r], Some (DlvRecord x), [post, Recorded r now])
         | None \<Rightarrow>
             (let disable = (if re_Status r = Failed then [Disabled e (FailureDisableReason r) now] else []) in
              case (if re_Status r = Failed then en_Disable env n else None) of
                Some x \<Rightarrow> ([r], Some (DlvDisable x), post # Recorded r now # disable)
              | None \<Rightarrow> (case deliverLoop lib w env ws ty attempt maxAttempts body sig (Suc n) es of
                  (rs, err, fx) \<Rightarrow> (r # rs, err, post # Recorded r now # disable @ fx)))))"

definition recordSingle :: "delivery_env \<Rightarrow> Result \<Rightarrow> Result list \<times> delivery_error option \<times> effect list" where
  "recordSingle env r = ([r], (case en_Record env 0 of Some x \<Rightarrow> Some (DlvRecord x) | None \<Rightarrow> None), [Recorded r (en_Now env)])"

definition no_endpoint :: "string \<Rightarrow> DeliveryEndpoint" where
  "no_endpoint ws = \<lparr>dn_ID = [], dn_WorkspaceID = ws, dn_URL = [], dn_Disabled = False, dn_DisabledReason = []\<rparr>"

definition Deliver :: "delivery_lib \<Rightarrow> Worker \<Rightarrow> delivery_env \<Rightarrow> Request
    \<Rightarrow> Result list \<times> delivery_error option \<times> effect list" where
  "Deliver lib w env req =
     (let ws = workspace_Resolve (rq_WorkspaceID req) (ev_WorkspaceID (rq_Event req));
          ty = ev_Type (rq_Event req); now = en_Now env;
          attempt = (if rq_Attempt req \<le> 0 then 1 else rq_Attempt req);
          maxAttempts = (if wk_MaxAttempts w \<le> 0 then 3 else wk_MaxAttempts w) in
      if ws = [] then ([], Some DlvWorkspaceRequired, [])
      else if \<not> en_StoreSet env then ([], Some DlvStoreMissing, [])
      else if \<not> en_ClientSet env then ([], Some DlvClientMissing, [])
      else case en_List env of
        Inl x \<Rightarrow> ([], Some (DlvList x), [])
      | Inr endpoints \<Rightarrow>
          if endpoints = [] then
            recordSingle env (mk_result lib (no_endpoint ws) ty attempt Skipped 0 ErrorNone ''no webhook endpoints'' False None)
          else (case Payload lib (rq_Event req) now of
            Inl e \<Rightarrow> ([], Some e, [])
          | Inr body \<Rightarrow>
              (case SignPayload lib body (wk_Secret w) of
                 Inl e \<Rightarrow> recordSingle env (mk_result lib (no_endpoint ws) ty attempt Failed 0 ErrorSigning
                            ''goncho: webhook secret is required'' False None)
               | Inr sig \<Rightarrow> deliverLoop lib w env ws ty attempt maxAttempts body sig 0 endpoints)))"

section \<open>Correctness of the worker\<close>


fun posted :: "effect \<Rightarrow> HTTPRequest option" where
  "posted (Posted q) = Some q" | "posted f = None"

fun disabled :: "effect \<Rightarrow> string option" where
  "disabled (Disabled e r t) = Some (dn_ID e)" | "disabled f = None"




text \<open>
  Nothing is sent unsigned: without a secret no request is posted and no endpoint is disabled,
  whatever the interfaces answer, and a call that reaches a non-empty endpoint list with a payload
  records one failure of class signing.
\<close>

theorem no_unsigned_delivery:
  assumes "trim_space (wk_Secret w) = []" and "Deliver lib w env req = (rs, err, fx)"
  shows "List.map_filter posted fx = [] \<and> List.map_filter disabled fx = []
    \<and> (is_ok (Payload lib (rq_Event req) (en_Now env)) \<and> en_StoreSet env \<and> en_ClientSet env
        \<and> (\<exists>e es. en_List env = Inr (e # es)) \<longrightarrow>
        (\<exists>r. rs = [r] \<and> re_Status r = Failed \<and> re_ErrorClass r = ErrorSigning \<and> fx = [Recorded r (en_Now env)]))"
proof -
  have w: "workspace_Resolve (rq_WorkspaceID req) (ev_WorkspaceID (rq_Event req)) \<noteq> []"
    if "is_ok (Payload lib (rq_Event req) (en_Now env))"
    using that by (auto simp: Payload_def workspace_Resolve_def Let_def split: if_splits)
  from assms w show ?thesis
    by (cases "Payload lib (rq_Event req) (en_Now env)")
      (auto simp: Deliver_def SignPayload_def recordSingle_def mk_result_def Let_def List.map_filter_simps
        split: sum.splits if_splits)
qed

text \<open>
  The outcome of an attempt: delivered exactly for a 2xx status; retried, at the clock reading
  plus the backoff, exactly when the transport failed or the status is 408, 429 or at least 500 and
  attempts remain; failed otherwise, with the reason \<open>max_attempts_exhausted\<close> exactly when it would
  have been retried.
\<close>

theorem classify_outcome:
  assumes "1 \<le> a"
  shows "let r = classify lib w e ty a m answer now;
      temporary = (case answer of Inl _ \<Rightarrow> True | Inr code \<Rightarrow> RetryableStatus code) in
    (re_Status r = Delivered \<longleftrightarrow> (\<exists>code. answer = Inr code \<and> 200 \<le> code \<and> code < 300))
    \<and> (re_Retry r \<longleftrightarrow> temporary \<and> a < m)
    \<and> (re_Retry r \<longrightarrow> re_Status r = Retryable \<and> re_NextRetryAt r = Some (now + backoff w a))
    \<and> (\<not> re_Retry r \<longrightarrow> re_NextRetryAt r = None \<and> re_Status r \<in> {Delivered, Failed})
    \<and> (re_Status r = Failed \<longrightarrow> FailureDisableReason r =
         (if temporary then ''max_attempts_exhausted'' else ''permanent_failure''))"
  using assms by (cases answer)
    (auto simp: classify_def failureOrRetry_def mk_result_def FailureDisableReason_def RetryableStatus_def Let_def)

text \<open>
  The default backoff doubles from 30 seconds and is exact up to attempt 29; at attempt 30 the
  64-bit duration overflows and is negative, so that the next retry lies in the past.
\<close>

theorem backoff_doubles_until_overflow:
  assumes "wk_Backoff w = None"
  shows "(\<forall>n \<in> {1..29}. backoff w n = 30000000000 * 2 ^ nat (n - 1)) \<and> backoff w 30 < 0"
proof -
  have all: "list_all (\<lambda>k. sint (((\<lambda>delay. delay * 2) ^^ k) DefaultBackoff) = 30000000000 * 2 ^ k) [0..<29]"
    by code_simp
  have ov: "sint (((\<lambda>delay. delay * 2) ^^ 29) DefaultBackoff) < 0" by code_simp
  have "backoff w n = 30000000000 * 2 ^ nat (n - 1)" if "n \<in> {1..29}" for n
  proof -
    have "nat (n - 1) \<in> set [0..<29]" using that by auto
    with all have "sint (((\<lambda>delay. delay * 2) ^^ nat (n - 1)) DefaultBackoff) = 30000000000 * 2 ^ nat (n - 1)"
      unfolding list_all_iff by blast
    with assms that show ?thesis by (simp add: backoff_def Let_def)
  qed
  moreover have "backoff w 30 < 0" using ov assms by (simp add: backoff_def Let_def)
  ultimately show ?thesis by blast
qed

section \<open>A sample delivery\<close>

definition demo_lib :: delivery_lib where
  "demo_lib = \<lparr>lib_urls = demo_urls, encode = (\<lambda>ty d t. Inr (ty @ (case d of None \<Rightarrow> '' null'' | Some kvs \<Rightarrow> concat (map (\<lambda>(k, v). '' '' @ k @ '':'' @ v) kvs)))), hmac = (\<lambda>k p. k @ p)\<rparr>"

definition demo_worker :: "string \<Rightarrow> Worker" where
  "demo_worker secret = \<lparr>wk_Secret = secret, wk_MaxAttempts = 0, wk_Backoff = None\<rparr>"

definition demo_dn :: "string \<Rightarrow> bool \<Rightarrow> DeliveryEndpoint" where
  "demo_dn i b = \<lparr>dn_ID = i, dn_WorkspaceID = [], dn_URL = ''https://h/x'', dn_Disabled = b, dn_DisabledReason = []\<rparr>"

definition demo_env :: delivery_env where
  "demo_env = \<lparr>en_StoreSet = True, en_ClientSet = True, en_Now = 7, en_List = Inr [demo_dn ''1'' False, demo_dn ''2'' True, demo_dn ''3'' False],
     en_Post = (\<lambda>n. if n = 0 then Inr 204 else Inr 404), en_Record = (\<lambda>_. None), en_Disable = (\<lambda>_. None)\<rparr>"

definition demo_req :: Request where
  "demo_req = \<lparr>rq_WorkspaceID = [], rq_Event = \<lparr>ev_Type = Test, ev_WorkspaceID = ''w'', ev_Data = Some [(''workspace_id'', ''w'')]\<rparr>, rq_Attempt = 0\<rparr>"


theorem no_unsigned_delivery_witness:
  "List.map_filter posted (snd (snd (Deliver demo_lib (demo_worker '' '') demo_env demo_req))) = []"
proof -
  have s: "trim_space (wk_Secret (demo_worker '' '')) = []" by code_simp
  obtain rs err fx where "Deliver demo_lib (demo_worker '' '') demo_env demo_req = (rs, err, fx)"
    by (cases "Deliver demo_lib (demo_worker '' '') demo_env demo_req") auto
  from no_unsigned_delivery [OF s this] this show ?thesis by simp
qed

theorem classify_outcome_witness:
  "re_NextRetryAt (classify demo_lib (demo_worker ''k'') (demo_dn ''1'' False) Test 1 3 (Inr 503) 7)
     = Some (7 + backoff (demo_worker ''k'') 1)"
  using classify_outcome [of 1 demo_lib "demo_worker ''k''" "demo_dn ''1'' False" Test 3 "Inr 503" 7]
  by (simp add: Let_def RetryableStatus_def)

theorem backoff_doubles_until_overflow_witness:
  "backoff (demo_worker ''k'') 2 = 60000000000 \<and> backoff (demo_worker ''k'') 30 < 0"
proof -
  have n: "wk_Backoff (demo_worker ''k'') = None" by (simp add: demo_worker_def)
  from backoff_doubles_until_overflow [OF n] show ?thesis by (auto dest: bspec [of _ _ 2])
qed

end
