(* ===== verification/ReviewLog.thy ===== *)
theory ReviewLog
  imports Scope Tables UnixTime
begin

text \<open>
  The review log of \<open>internal/reviewlog/log.go\<close>: memory claims that need adjudication are opened as
  review items, listed, and resolved once.  A time is its offset from the Unix epoch in nanoseconds;
  \<open>UnixNano\<close> is the 64-bit column it is stored in.  Every call gets a fault oracle \<open>flt\<close>; \<open>now\<close> is the
  clock reading.  \<open>ujson\<close> is what a text with non-ASCII bytes becomes when it is written to JSON and read
  back (invalid UTF-8 is replaced); an ASCII text is unchanged.
\<close>

unbundle bit_operations_syntax

section \<open>Items\<close>

datatype ReviewKind = ReviewKindConflict | ReviewKindStale

datatype ReviewStatus = ReviewStatusOpen | ReviewStatusResolved

datatype ReviewResolution = ReviewResolutionAccepted | ReviewResolutionRejected | ReviewResolutionSuperseded
  | ReviewResolutionVerified

fun kind_name :: "ReviewKind \<Rightarrow> string" where
  "kind_name ReviewKindConflict = ''conflict''" | "kind_name ReviewKindStale = ''stale''"

fun status_name :: "ReviewStatus \<Rightarrow> string" where
  "status_name ReviewStatusOpen = ''open''" | "status_name ReviewStatusResolved = ''resolved''"

fun resolution_name :: "ReviewResolution \<Rightarrow> string" where
  "resolution_name ReviewResolutionAccepted = ''accepted''" | "resolution_name ReviewResolutionRejected = ''rejected''"
| "resolution_name ReviewResolutionSuperseded = ''superseded''" | "resolution_name ReviewResolutionVerified = ''verified''"

definition review_kind :: "string \<Rightarrow> ReviewKind option" where
  "review_kind s = find (\<lambda>k. kind_name k = s) [ReviewKindConflict, ReviewKindStale]"

definition validReviewResolution :: "string \<Rightarrow> ReviewResolution option" where
  "validReviewResolution s = find (\<lambda>r. resolution_name r = s)
     [ReviewResolutionAccepted, ReviewResolutionRejected, ReviewResolutionSuperseded, ReviewResolutionVerified]"

record ReviewItemCreateParams =
  rc_Kind :: string
  rc_WorkspaceID :: string
  rc_PeerID :: string
  rc_SessionKey :: string
  rc_SubjectID :: string
  rc_RelatedID :: string
  rc_Reason :: string
  rc_EvidenceIDs :: "string list"
  rc_CreatedAt :: int

record ReviewItem =
  rv_ID :: string
  rv_Kind :: ReviewKind
  rv_Status :: ReviewStatus
  rv_WorkspaceID :: string
  rv_PeerID :: string
  rv_SessionKey :: string
  rv_SubjectID :: string
  rv_RelatedID :: string
  rv_Reason :: string
  rv_EvidenceIDs :: "string list"
  rv_CreatedAt :: int
  rv_Resolution :: "ReviewResolution option"
  rv_ResolvedBy :: string
  rv_ResolutionReason :: string
  rv_ResolvedAt :: "int option"

record ReviewResolutionParams =
  rs_ID :: string
  rs_Resolution :: string
  rs_ResolvedBy :: string
  rs_ResolutionReason :: string
  rs_ResolvedAt :: int

record ReviewQuery =
  ry_WorkspaceID :: string
  ry_PeerID :: string
  ry_SessionKey :: string
  ry_SubjectID :: string
  ry_RelatedID :: string
  ry_Kind :: string
  ry_Status :: string
  ry_Limit :: int

datatype review_site = RvContext | RvNilDB | RvEnsure | RvInsert | RvUpdate | RvGet | RvList

datatype review_error = RvSite review_site | RvBadKind string | RvMissing | RvDuplicateID string | RvNoID
  | RvBadResolution | RvNoResolver | RvNoReason | RvNotOpen string | RvQueryKind | RvQueryStatus

section \<open>Times, hashes and identifiers\<close>

definition json_text :: "(string \<Rightarrow> string) \<Rightarrow> string \<Rightarrow> string" where
  "json_text ujson s = (if list_all is_ascii s then s else ujson s)"

text \<open>\<open>hash/fnv\<close>: FNV-1a on 64 bits.\<close>

definition fnv_offset :: "64 word" where
  "fnv_offset = 14695981039346656037"

definition fnv_write :: "string \<Rightarrow> 64 word \<Rightarrow> 64 word" where
  "fnv_write s h = foldl (\<lambda>h c. (h XOR word_of_nat (byte c)) * 1099511628211) h s"

text \<open>\<open>%016x\<close>: the sixteen nibbles, highest first.\<close>

definition hex16 :: "64 word \<Rightarrow> string" where
  "hex16 h = map (\<lambda>i. hex_digit (unat (drop_bit (4 * i) h AND 15))) (rev [0..<16])"

definition reviewItemID :: "int \<Rightarrow> string list \<Rightarrow> string list \<Rightarrow> string" where
  "reviewItemID createdAt parts evidence =
     (let nul = char_of (0 :: nat);
          h = foldl (\<lambda>h s. fnv_write (s @ [nul]) h) fnv_offset (parts @ evidence) in
      ''review_'' @ Decimal (UnixNano createdAt) @ ''_'' @ hex16 h)"

definition normalizeReviewItem :: "int \<Rightarrow> ReviewItemCreateParams \<Rightarrow> review_error + ReviewItem" where
  "normalizeReviewItem now p =
     (case review_kind (trim_space (rc_Kind p)) of
        None \<Rightarrow> Inl (RvBadKind (rc_Kind p))
      | Some kind \<Rightarrow>
          let workspaceID = trim_space (rc_WorkspaceID p); subjectID = trim_space (rc_SubjectID p);
              reason = trim_space (rc_Reason p) in
          if workspaceID = [] \<or> subjectID = [] \<or> reason = [] then Inl RvMissing
          else
            let createdAt = (if rc_CreatedAt p = zero_time then now else rc_CreatedAt p);
                evidence = filter (\<lambda>i. i \<noteq> []) (map trim_space (rc_EvidenceIDs p));
                peerID = trim_space (rc_PeerID p); sessionKey = trim_space (rc_SessionKey p);
                relatedID = trim_space (rc_RelatedID p) in
            Inr \<lparr>rv_ID = reviewItemID createdAt [kind_name kind, workspaceID, peerID, sessionKey, subjectID, relatedID, reason] evidence,
                 rv_Kind = kind, rv_Status = ReviewStatusOpen, rv_WorkspaceID = workspaceID, rv_PeerID = peerID,
                 rv_SessionKey = sessionKey, rv_SubjectID = subjectID, rv_RelatedID = relatedID, rv_Reason = reason,
                 rv_EvidenceIDs = evidence, rv_CreatedAt = createdAt, rv_Resolution = None, rv_ResolvedBy = [],
                 rv_ResolutionReason = [], rv_ResolvedAt = None\<rparr>)"

section \<open>Operations\<close>

text \<open>A stored row holds the \<open>UnixNano\<close> columns; \<open>scanReviewItem\<close> reads the evidence back from JSON.\<close>

definition stored_item :: "ReviewItem \<Rightarrow> ReviewItem" where
  "stored_item item = item\<lparr>rv_CreatedAt := UnixNano (rv_CreatedAt item)\<rparr>"

definition scanReviewItem :: "(string \<Rightarrow> string) \<Rightarrow> ReviewItem \<Rightarrow> ReviewItem" where
  "scanReviewItem ujson row = row\<lparr>rv_EvidenceIDs := map (json_text ujson) (rv_EvidenceIDs row)\<rparr>"

definition review_entry :: "(review_site \<Rightarrow> bool) \<Rightarrow> review_error option" where
  "review_entry flt = map_option RvSite (find flt [RvContext, RvNilDB, RvEnsure])"

definition CreateReviewItem :: "(review_site \<Rightarrow> bool) \<Rightarrow> int \<Rightarrow> ReviewItemCreateParams \<Rightarrow> ReviewItem list
    \<Rightarrow> (review_error + ReviewItem) \<times> ReviewItem list" where
  "CreateReviewItem flt now p t =
     (case review_entry flt of
        Some e \<Rightarrow> (Inl e, t)
      | None \<Rightarrow>
     (case normalizeReviewItem now p of
        Inl e \<Rightarrow> (Inl e, t)
      | Inr item \<Rightarrow>
          if flt RvInsert then (Inl (RvSite RvInsert), t)
          else if rv_ID item \<in> rv_ID ` set t then (Inl (RvDuplicateID (rv_ID item)), t)
          else (Inr item, t @ [stored_item item])))"

definition getReviewItem :: "(string \<Rightarrow> string) \<Rightarrow> string \<Rightarrow> ReviewItem list \<Rightarrow> ReviewItem option" where
  "getReviewItem ujson i t = map_option (scanReviewItem ujson) (tfind rv_ID i t)"

definition resolve_row :: "string \<Rightarrow> ReviewResolution \<Rightarrow> string \<Rightarrow> string \<Rightarrow> int \<Rightarrow> ReviewItem \<Rightarrow> ReviewItem" where
  "resolve_row i resolution actor reason t row =
     (if rv_ID row = i \<and> rv_Status row = ReviewStatusOpen
      then row\<lparr>rv_Status := ReviewStatusResolved, rv_Resolution := Some resolution, rv_ResolvedBy := actor,
               rv_ResolutionReason := reason, rv_ResolvedAt := Some t\<rparr>
      else row)"

definition ResolveReviewItem :: "(review_site \<Rightarrow> bool) \<Rightarrow> (string \<Rightarrow> string) \<Rightarrow> int \<Rightarrow> ReviewResolutionParams \<Rightarrow> ReviewItem list
    \<Rightarrow> (review_error + ReviewItem) \<times> ReviewItem list" where
  "ResolveReviewItem flt ujson now p t =
     (case review_entry flt of
        Some e \<Rightarrow> (Inl e, t)
      | None \<Rightarrow>
          let i = trim_space (rs_ID p); resolvedBy = trim_space (rs_ResolvedBy p);
              resolutionReason = trim_space (rs_ResolutionReason p) in
          if i = [] then (Inl RvNoID, t)
          else case validReviewResolution (trim_space (rs_Resolution p)) of
            None \<Rightarrow> (Inl RvBadResolution, t)
          | Some resolution \<Rightarrow>
              if resolvedBy = [] then (Inl RvNoResolver, t)
              else if resolutionReason = [] then (Inl RvNoReason, t)
              else
                let resolvedAt = (if rs_ResolvedAt p = zero_time then now else rs_ResolvedAt p) in
                if flt RvUpdate then (Inl (RvSite RvUpdate), t)
                else if \<not> list_ex (\<lambda>row. rv_ID row = i \<and> rv_Status row = ReviewStatusOpen) t then (Inl (RvNotOpen i), t)
                else
                  let t' = map (resolve_row i resolution resolvedBy resolutionReason (UnixNano resolvedAt)) t in
                  if flt RvGet then (Inl (RvSite RvGet), t')
                  else case getReviewItem ujson i t' of
                    None \<Rightarrow> (Inl (RvSite RvGet), t') | Some item \<Rightarrow> (Inr item, t'))"

text \<open>\<open>appendFilter\<close>: an empty value adds no condition.\<close>

definition review_filter :: "string \<Rightarrow> string \<Rightarrow> bool" where
  "review_filter wanted column \<longleftrightarrow> trim_space wanted = [] \<or> column = trim_space wanted"

definition review_matches :: "ReviewQuery \<Rightarrow> ReviewItem \<Rightarrow> bool" where
  "review_matches q row \<longleftrightarrow> review_filter (ry_WorkspaceID q) (rv_WorkspaceID row) \<and> review_filter (ry_PeerID q) (rv_PeerID row)
     \<and> review_filter (ry_SessionKey q) (rv_SessionKey row) \<and> review_filter (ry_SubjectID q) (rv_SubjectID row)
     \<and> review_filter (ry_RelatedID q) (rv_RelatedID row) \<and> review_filter (ry_Kind q) (kind_name (rv_Kind row))
     \<and> review_filter (ry_Status q) (status_name (rv_Status row))"

definition ListReviewItems :: "(review_site \<Rightarrow> bool) \<Rightarrow> (string \<Rightarrow> string) \<Rightarrow> ReviewQuery \<Rightarrow> ReviewItem list
    \<Rightarrow> review_error + ReviewItem list" where
  "ListReviewItems flt ujson q t =
     (case review_entry flt of
        Some e \<Rightarrow> Inl e
      | None \<Rightarrow>
          let limit = (if ry_Limit q \<le> 0 \<or> ry_Limit q > 500 then 50 else ry_Limit q) in
          if trim_space (ry_Kind q) \<notin> {[], ''conflict'', ''stale''} then Inl RvQueryKind
          else if trim_space (ry_Status q) \<notin> {[], ''open'', ''resolved''} then Inl RvQueryStatus
          else if flt RvList then Inl (RvSite RvList)
          else Inr (map (scanReviewItem ujson)
                 (take (nat limit) (order_desc (\<lambda>r. (rv_CreatedAt r, rv_ID r)) (filter (review_matches q) t)))))"

section \<open>Context evidence\<close>

text \<open>The evidence of open reviews that accompanies a context: counts, sessions, identifiers, chains.\<close>

record ReviewEvidence =
  re_Field :: string
  re_Capability :: string
  re_Reason :: string

definition ReviewItemsForContextSession :: "ReviewItem list \<Rightarrow> string \<Rightarrow> ReviewItem list" where
  "ReviewItemsForContextSession items sessionKey =
     (let sessionKey' = trim_space sessionKey in
      if sessionKey' = [] then items
      else filter (\<lambda>item. trim_space (rv_SessionKey item) = [] \<or> trim_space (rv_SessionKey item) = sessionKey') items)"

text \<open>\<open>reviewItemSessionKeys\<close> stops at the limit; the count goes through every item.\<close>

definition session_keys :: "ReviewItem list \<Rightarrow> string list" where
  "session_keys items = uniq (filter (\<lambda>s. s \<noteq> []) (map (trim_space \<circ> rv_SessionKey) items))"

definition reviewItemSessionKeys :: "ReviewItem list \<Rightarrow> nat \<Rightarrow> string list" where
  "reviewItemSessionKeys items limit = take limit (session_keys items)"

definition reviewItemSessionKeyCount :: "ReviewItem list \<Rightarrow> nat" where
  "reviewItemSessionKeyCount items = length (session_keys items)"

definition reviewItemIDs :: "ReviewItem list \<Rightarrow> nat \<Rightarrow> string list" where
  "reviewItemIDs items limit = take limit (filter (\<lambda>s. s \<noteq> []) (map (trim_space \<circ> rv_ID) items))"

definition review_chain :: "ReviewItem \<Rightarrow> string" where
  "review_chain item = (let related = trim_space (rv_RelatedID item) in
     trim_space (rv_SubjectID item) @ (if related = [] then [] else ''->'' @ related))"

definition reviewItemChainEvidence :: "ReviewItem list \<Rightarrow> nat \<Rightarrow> string list" where
  "reviewItemChainEvidence items limit =
     take limit (map review_chain (filter (\<lambda>item. trim_space (rv_SubjectID item) \<noteq> []) items))"

definition evidence_ids :: "ReviewItem list \<Rightarrow> string list" where
  "evidence_ids items = uniq (filter (\<lambda>s. s \<noteq> []) (map trim_space (concat (map rv_EvidenceIDs items))))"

definition reviewItemEvidenceIDs :: "ReviewItem list \<Rightarrow> nat \<Rightarrow> string list" where
  "reviewItemEvidenceIDs items limit = take limit (evidence_ids items)"

definition reviewItemEvidenceIDCount :: "ReviewItem list \<Rightarrow> nat" where
  "reviewItemEvidenceIDCount items = length (evidence_ids items)"

definition omitted :: "string \<Rightarrow> int \<Rightarrow> string" where
  "omitted label n = (if n > 0 then ''; '' @ label @ ''='' @ Decimal n else [])"

definition listed :: "string \<Rightarrow> string list \<Rightarrow> string" where
  "listed label xs = (if xs = [] then [] else ''; '' @ label @ ''='' @ join_with '' '' xs)"

definition kind_count :: "ReviewItem list \<Rightarrow> ReviewKind \<Rightarrow> nat" where
  "kind_count items k = length (filter (\<lambda>item. rv_Kind item = k) items)"

definition ReviewRequiredUnavailableEvidence :: "ReviewItem list \<Rightarrow> string list \<Rightarrow> ReviewEvidence list" where
  "ReviewRequiredUnavailableEvidence items sessionKeys =
     (if items = [] then []
      else
        let sessionKey = FirstNonBlank sessionKeys;
            detailLimit = (3 :: nat);
            parts = map (\<lambda>k. kind_name k @ ''='' @ Decimal (int (kind_count items k)))
                      (filter (\<lambda>k. kind_count items k > 0) [ReviewKindConflict, ReviewKindStale]);
            words = (if length items = 1 then '' open review item requires'' else '' open review items require'');
            keys = reviewItemSessionKeys items detailLimit;
            evidence = reviewItemEvidenceIDs items detailLimit in
        [\<lparr>re_Field = ''review'', re_Capability = ''review_required'',
          re_Reason = Decimal (int (length items)) @ words @ '' adjudication: '' @ join_with '' '' parts
            @ (if sessionKey \<noteq> [] then ''; session_key='' @ sessionKey
               else if keys = [] then []
               else listed ''session_keys'' keys
                 @ omitted ''session_keys_omitted'' (int (reviewItemSessionKeyCount items) - int (length keys)))
            @ listed ''items'' (reviewItemIDs items detailLimit)
            @ listed ''chains'' (reviewItemChainEvidence items detailLimit)
            @ (if evidence = [] then []
               else listed ''evidence'' evidence
                 @ omitted ''evidence_omitted'' (int (reviewItemEvidenceIDCount items) - int (length evidence)))
            @ omitted ''item_details_omitted'' (int (length items) - int detailLimit)\<rparr>])"

section \<open>The service's entry points (\<open>service/review.go\<close>)\<close>

definition ServiceCreateReviewItem :: "string \<Rightarrow> (review_site \<Rightarrow> bool) \<Rightarrow> int \<Rightarrow> ReviewItemCreateParams \<Rightarrow> ReviewItem list
    \<Rightarrow> (review_error + ReviewItem) \<times> ReviewItem list" where
  "ServiceCreateReviewItem ws flt now p t =
     CreateReviewItem flt now (if trim_space (rc_WorkspaceID p) = [] then p\<lparr>rc_WorkspaceID := ws\<rparr> else p) t"


definition ServiceListReviewItems :: "string \<Rightarrow> (review_site \<Rightarrow> bool) \<Rightarrow> (string \<Rightarrow> string) \<Rightarrow> ReviewQuery \<Rightarrow> ReviewItem list
    \<Rightarrow> review_error + ReviewItem list" where
  "ServiceListReviewItems ws flt ujson q t =
     ListReviewItems flt ujson (q\<lparr>ry_WorkspaceID := scopekey_Workspace ws (ry_WorkspaceID q) True\<rparr>) t"

text \<open>\<open>retrievalModule.reviewContextUnavailableEvidence\<close>: the open items of a peer, at the default limit.\<close>

definition open_query :: "string \<Rightarrow> string \<Rightarrow> ReviewQuery" where
  "open_query ws peer =
     \<lparr>ry_WorkspaceID = ws, ry_PeerID = peer, ry_SessionKey = [], ry_SubjectID = [], ry_RelatedID = [],
      ry_Kind = [], ry_Status = ''open'', ry_Limit = 0\<rparr>"

definition reviewContextUnavailableEvidence :: "string \<Rightarrow> (review_site \<Rightarrow> bool) \<Rightarrow> (string \<Rightarrow> string) \<Rightarrow> string \<Rightarrow> string
    \<Rightarrow> ReviewItem list \<Rightarrow> review_error + ReviewEvidence list" where
  "reviewContextUnavailableEvidence ws flt ujson peer sessionKey t =
     (case ListReviewItems flt ujson (open_query ws peer) t of
        Inl e \<Rightarrow> Inl e
      | Inr items \<Rightarrow> Inr (ReviewRequiredUnavailableEvidence (ReviewItemsForContextSession items sessionKey) [sessionKey]))"

section \<open>The life of an item\<close>

text \<open>
  A log row is well formed when its required columns are filled and the resolution columns agree
  with the status.  The steps of the log as a relation: an item is opened under a new key, an open
  item is resolved, nothing else happens.
\<close>

definition review_ok :: "ReviewItem \<Rightarrow> bool" where
  "review_ok r \<longleftrightarrow> rv_WorkspaceID r \<noteq> [] \<and> rv_SubjectID r \<noteq> [] \<and> rv_Reason r \<noteq> [] \<and> in_int64 (rv_CreatedAt r)
     \<and> (case rv_Status r of
          ReviewStatusOpen \<Rightarrow> rv_Resolution r = None \<and> rv_ResolvedBy r = [] \<and> rv_ResolutionReason r = [] \<and> rv_ResolvedAt r = None
        | ReviewStatusResolved \<Rightarrow> rv_Resolution r \<noteq> None \<and> rv_ResolvedBy r \<noteq> [] \<and> rv_ResolutionReason r \<noteq> []
            \<and> rv_ResolvedAt r \<noteq> None)"

definition review_inv :: "ReviewItem list \<Rightarrow> bool" where
  "review_inv t \<longleftrightarrow> unique_keys rv_ID t \<and> list_all review_ok t"

inductive review_move :: "ReviewItem list \<Rightarrow> ReviewItem list \<Rightarrow> bool" where
  stays: "review_move t t"
| opens: "rv_ID r \<notin> rv_ID ` set t \<Longrightarrow> rv_Status r = ReviewStatusOpen \<Longrightarrow> review_ok r \<Longrightarrow> review_move t (t @ [r])"
| resolves: "i \<in> rv_ID ` {r \<in> set t. rv_Status r = ReviewStatusOpen} \<Longrightarrow> actor \<noteq> [] \<Longrightarrow> reason \<noteq> [] \<Longrightarrow>
    review_move t (map (resolve_row i res actor reason at) t)"

text \<open>Two states of one claim: what was recorded when it was opened is the same.\<close>

definition same_claim :: "ReviewItem \<Rightarrow> ReviewItem \<Rightarrow> bool" where
  "same_claim r s \<longleftrightarrow> rv_ID s = rv_ID r \<and> rv_Kind s = rv_Kind r \<and> rv_WorkspaceID s = rv_WorkspaceID r
     \<and> rv_PeerID s = rv_PeerID r \<and> rv_SessionKey s = rv_SessionKey r \<and> rv_SubjectID s = rv_SubjectID r
     \<and> rv_RelatedID s = rv_RelatedID r \<and> rv_Reason s = rv_Reason r \<and> rv_EvidenceIDs s = rv_EvidenceIDs r
     \<and> rv_CreatedAt s = rv_CreatedAt r"

definition later :: "ReviewItem \<Rightarrow> ReviewItem \<Rightarrow> bool" where
  "later r s \<longleftrightarrow> same_claim r s \<and> (rv_Status r = ReviewStatusResolved \<longrightarrow> s = r)"

lemma later_refl [simp]: "later r r"
  by (simp add: later_def same_claim_def)

lemma later_trans: "later r s \<Longrightarrow> later s u \<Longrightarrow> later r u"
  by (auto simp: later_def same_claim_def)

lemma later_resolve_row [simp]: "later r (resolve_row i res actor reason at r)"
  by (simp add: later_def same_claim_def resolve_row_def)

lemma resolve_row_ID [simp]: "rv_ID (resolve_row i res actor reason at r) = rv_ID r"
  by (simp add: resolve_row_def)

lemma resolve_row_ok: "review_ok r \<Longrightarrow> actor \<noteq> [] \<Longrightarrow> reason \<noteq> [] \<Longrightarrow> review_ok (resolve_row i res actor reason at r)"
  by (simp add: resolve_row_def review_ok_def)

lemma review_move_inv: "review_move t u \<Longrightarrow> review_inv t \<Longrightarrow> review_inv u"
proof (induction rule: review_move.induct)
  case (resolves i t actor reason res at)
  then show ?case by (auto simp: review_inv_def unique_keys_def list_all_iff resolve_row_ok comp_def)
qed (auto simp: review_inv_def unique_keys_def)

text \<open>No step removes a row or moves it: the log only grows, and each row only gets later.\<close>

definition grows :: "ReviewItem list \<Rightarrow> ReviewItem list \<Rightarrow> bool" where
  "grows t u \<longleftrightarrow> list_all2 later t (take (length t) u)"

lemma grows_refl [simp]: "grows t t"
  by (simp add: grows_def list_all2_same)

lemma grows_trans: "grows t u \<Longrightarrow> grows u v \<Longrightarrow> grows t v"
proof -
  assume a: "grows t u" "grows u v"
  then have l: "length t \<le> length u" "length u \<le> length v"
    by (auto simp: grows_def dest!: list_all2_lengthD)
  from list_all2_takeI [OF a(2) [unfolded grows_def], of "length t"]
  have "list_all2 later (take (length t) u) (take (length t) v)" using l by (simp add: min_def)
  from list_all2_trans [OF _ a(1) [unfolded grows_def] this] later_trans show "grows t v"
    unfolding grows_def by blast
qed

lemma review_move_grows: "review_move t u \<Longrightarrow> grows t u"
proof (induction rule: review_move.induct)
  case (resolves i t actor reason res at)
  then show ?case by (simp add: grows_def list_all2_conv_all_nth)
qed (simp_all add: grows_def list_all2_same)

lemma grows_row: "grows t u \<Longrightarrow> r \<in> set t \<Longrightarrow> \<exists>s \<in> set u. later r s"
  unfolding grows_def by (metis in_set_conv_nth in_set_takeD list_all2_conv_all_nth nth_mem)


section \<open>Every operation is a step of the log\<close>

datatype review_event =
    CreateEvent "review_site \<Rightarrow> bool" int ReviewItemCreateParams
  | ResolveEvent "review_site \<Rightarrow> bool" "string \<Rightarrow> string" int ReviewResolutionParams

fun review_step :: "review_event \<Rightarrow> ReviewItem list \<Rightarrow> ReviewItem list" where
  "review_step (CreateEvent flt now p) t = snd (CreateReviewItem flt now p t)"
| "review_step (ResolveEvent flt ujson now p) t = snd (ResolveReviewItem flt ujson now p t)"

lemma normalizeReviewItem_ok:
  "normalizeReviewItem now p = Inr item \<Longrightarrow>
     rv_Status item = ReviewStatusOpen \<and> review_ok (stored_item item)"
  by (auto simp: normalizeReviewItem_def Let_def review_ok_def stored_item_def UnixNano_range
      split: option.splits if_splits)

text \<open>What a creation does: an error changes nothing, a success appends the item it returns.\<close>

lemma CreateReviewItem_cases:
  "(\<exists>e. CreateReviewItem flt now p t = (Inl e, t))
   \<or> (\<exists>item. CreateReviewItem flt now p t = (Inr item, t @ [stored_item item])
        \<and> normalizeReviewItem now p = Inr item \<and> rv_ID item \<notin> rv_ID ` set t)"
  by (auto simp: CreateReviewItem_def split: option.splits sum.splits)

lemma ResolveReviewItem_cases:
  "(\<exists>e. ResolveReviewItem flt ujson now p t = (Inl e, t))
   \<or> (\<exists>res out at r. validReviewResolution (trim_space (rs_Resolution p)) = Some res
        \<and> r \<in> set t \<and> rv_ID r = trim_space (rs_ID p) \<and> rv_Status r = ReviewStatusOpen
        \<and> trim_space (rs_ResolvedBy p) \<noteq> [] \<and> trim_space (rs_ResolutionReason p) \<noteq> []
        \<and> at = UnixNano (if rs_ResolvedAt p = zero_time then now else rs_ResolvedAt p)
        \<and> ResolveReviewItem flt ujson now p t =
            (out, map (resolve_row (trim_space (rs_ID p)) res (trim_space (rs_ResolvedBy p)) (trim_space (rs_ResolutionReason p)) at) t)
        \<and> (\<forall>item. out = Inr item \<longrightarrow>
             getReviewItem ujson (trim_space (rs_ID p)) (snd (ResolveReviewItem flt ujson now p t)) = Some item))"
proof -
  let ?i = "trim_space (rs_ID p)"
  let ?f = "\<lambda>res. map (resolve_row ?i res (trim_space (rs_ResolvedBy p)) (trim_space (rs_ResolutionReason p))
              (UnixNano (if rs_ResolvedAt p = zero_time then now else rs_ResolvedAt p))) t"
  let ?open = "list_ex (\<lambda>row. rv_ID row = ?i \<and> rv_Status row = ReviewStatusOpen) t"
  let ?ok = "\<lambda>res. review_entry flt = None \<and> ?i \<noteq> [] \<and> validReviewResolution (trim_space (rs_Resolution p)) = Some res
      \<and> trim_space (rs_ResolvedBy p) \<noteq> [] \<and> trim_space (rs_ResolutionReason p) \<noteq> [] \<and> \<not> flt RvUpdate \<and> ?open"
  have "(\<exists>e. ResolveReviewItem flt ujson now p t = (Inl e, t)) \<or> (\<exists>res. ?ok res)"
    by (cases "review_entry flt"; cases "validReviewResolution (trim_space (rs_Resolution p))"; cases "?i = []";
        cases "trim_space (rs_ResolvedBy p) = []"; cases "trim_space (rs_ResolutionReason p) = []"; cases "flt RvUpdate";
        cases ?open) (simp_all add: ResolveReviewItem_def Let_def)
  then consider "\<exists>e. ResolveReviewItem flt ujson now p t = (Inl e, t)" | res where "?ok res" by blast
  then show ?thesis
  proof cases
    case (2 res)
    then obtain r where r: "r \<in> set t" "rv_ID r = ?i" "rv_Status r = ReviewStatusOpen" by (auto simp: list_ex_iff)
    from 2 have "ResolveReviewItem flt ujson now p t =
        (if flt RvGet then (Inl (RvSite RvGet), ?f res)
         else case getReviewItem ujson ?i (?f res) of
           None \<Rightarrow> (Inl (RvSite RvGet), ?f res) | Some item \<Rightarrow> (Inr item, ?f res))"
      unfolding ResolveReviewItem_def Let_def by simp
    then obtain out where out: "ResolveReviewItem flt ujson now p t = (out, ?f res)"
      "\<forall>item. out = Inr item \<longrightarrow> getReviewItem ujson ?i (?f res) = Some item"
      by (auto split: option.splits if_splits)
    show ?thesis
      by (rule disjI2, rule exI [of _ res], rule exI [of _ out],
          rule exI [of _ "UnixNano (if rs_ResolvedAt p = zero_time then now else rs_ResolvedAt p)"], rule exI [of _ r])
        (use 2 r out in simp)
  qed simp
qed

lemma review_step_move: "review_move t (review_step e t)"
proof (cases e)
  case (CreateEvent flt now p)
  from CreateReviewItem_cases [of flt now p t] show ?thesis
  proof (elim disjE exE conjE)
    fix item assume a: "CreateReviewItem flt now p t = (Inr item, t @ [stored_item item])"
      "normalizeReviewItem now p = Inr item" "rv_ID item \<notin> rv_ID ` set t"
    from normalizeReviewItem_ok [OF a(2)] a show ?thesis
      by (auto simp: CreateEvent stored_item_def intro!: review_move.opens)
  qed (simp add: CreateEvent review_move.stays)
next
  case (ResolveEvent flt ujson now p)
  from ResolveReviewItem_cases [of flt ujson now p t] show ?thesis
  proof (elim disjE exE conjE)
    fix res out at r
    assume "r \<in> set t" "rv_ID r = trim_space (rs_ID p)" "rv_Status r = ReviewStatusOpen"
      "trim_space (rs_ResolvedBy p) \<noteq> []" "trim_space (rs_ResolutionReason p) \<noteq> []"
      "ResolveReviewItem flt ujson now p t =
            (out, map (resolve_row (trim_space (rs_ID p)) res (trim_space (rs_ResolvedBy p)) (trim_space (rs_ResolutionReason p)) at) t)"
    moreover from this have "trim_space (rs_ID p) \<in> rv_ID ` {r \<in> set t. rv_Status r = ReviewStatusOpen}"
      by (intro image_eqI [of _ _ r]) simp_all
    ultimately show ?thesis by (simp add: ResolveEvent review_move.resolves)
  qed (simp add: ResolveEvent review_move.stays)
qed

interpretation review: machine review_step review_inv
  by unfold_locales (rule review_move_inv [OF review_step_move])

lemma run_grows: "grows t (fold review_step es t)"
proof (induction es arbitrary: t)
  case (Cons e es)
  from grows_trans [OF review_move_grows [OF review_step_move] Cons.IH] show ?case by simp
qed simp


lemma grows_resolved: "grows t u \<Longrightarrow> r \<in> set t \<Longrightarrow> rv_Status r = ReviewStatusResolved \<Longrightarrow> r \<in> set u"
  by (metis grows_row later_def)

text \<open>Once a key is resolved no row under it is open, so another resolution finds nothing to update.\<close>

lemma resolved_refused:
  assumes "review_inv t" "r \<in> set t" "rv_ID r = trim_space (rs_ID p)" "rv_Status r = ReviewStatusResolved"
  shows "\<exists>e. ResolveReviewItem flt ujson now p t = (Inl e, t)"
  using ResolveReviewItem_cases [of flt ujson now p t]
proof (elim disjE exE conjE)
  fix s assume s: "s \<in> set t" "rv_ID s = trim_space (rs_ID p)" "rv_Status s = ReviewStatusOpen"
  with unique_keys_eq [of rv_ID t r s] assms have "r = s" by (simp add: review_inv_def)
  with s assms show ?thesis by simp
qed blast

lemma resolve_stored:
  assumes "ResolveReviewItem flt ujson now p t = (Inr item, u)"
  shows "\<exists>r \<in> set u. rv_ID r = trim_space (rs_ID p) \<and> rv_Status r = ReviewStatusResolved \<and> item = scanReviewItem ujson r"
proof -
  let ?i = "trim_space (rs_ID p)"
  obtain res at where u: "u = map (resolve_row ?i res (trim_space (rs_ResolvedBy p)) (trim_space (rs_ResolutionReason p)) at) t"
    and g: "getReviewItem ujson ?i u = Some item"
    and o: "\<exists>r \<in> set t. rv_ID r = ?i \<and> rv_Status r = ReviewStatusOpen"
    using ResolveReviewItem_cases [of flt ujson now p t] assms by auto
  from g obtain r where r: "tfind rv_ID ?i u = Some r" "item = scanReviewItem ujson r" by (auto simp: getReviewItem_def)
  have "rv_Status r = ReviewStatusResolved"
    using tfind_Some [OF r(1)] u
    by (cases "rv_Status r") (auto simp: resolve_row_def split: if_splits)
  with r tfind_Some [OF r(1)] show ?thesis by auto
qed

lemma resolve_run: "ResolveReviewItem flt ujson now p t = (out, u) \<Longrightarrow> u = review_step (ResolveEvent flt ujson now p) t"
  by simp

lemma trim_open [simp]: "trim_space ''open'' = ''open''"
  by code_simp

section \<open>Properties\<close>

text \<open>
  C28. From a well-formed review log any sequence of creations and resolutions, failed ones
  included, keeps the log well formed (unique keys; an open item carries no resolution, a resolved
  one has a resolution, an author, a reason and a time) and removes or rewrites nothing: every item
  is still there with the same claim, and an item that was resolved is unchanged.
\<close>

theorem review_history_kept:
  assumes "review_inv t"
  shows "review_inv (fold review_step es t)
    \<and> (\<forall>r \<in> set t. \<exists>s \<in> set (fold review_step es t). same_claim r s \<and> (rv_Status r = ReviewStatusResolved \<longrightarrow> s = r))"
  using review.run_inv [OF assms] grows_row [OF run_grows] by (auto simp: later_def)

text \<open>
  An item is resolved at most once: after a successful resolution, and any further events, a
  second resolution of the same item is an error that leaves the log as it is.
\<close>

theorem review_resolved_once:
  assumes "review_inv t" "ResolveReviewItem flt ujson now p t = (Inr item, u)"
    "trim_space (rs_ID p') = trim_space (rs_ID p)"
  shows "\<exists>e. ResolveReviewItem flt' ujson' now' p' (fold review_step es u) = (Inl e, fold review_step es u)"
proof -
  from resolve_stored [OF assms(2)] obtain r where r: "r \<in> set u" "rv_ID r = trim_space (rs_ID p')"
    "rv_Status r = ReviewStatusResolved" using assms(3) by auto
  have "review_inv (fold review_step es u)"
    unfolding resolve_run [OF assms(2)] by (rule review.run_inv [OF review.step_inv [OF assms(1)]])
  from resolved_refused [OF this grows_resolved [OF run_grows r(1,3)] r(2,3)] show ?thesis .
qed


text \<open>
  A listing returns exactly the rows of the log that match every given filter, newest first (by
  creation time, then by key), cut at the limit, which is 50 unless it lies between 1 and 500:
  every row that was cut is older than every row returned.
\<close>

theorem review_list_exact:
  assumes "review_inv t" "ListReviewItems flt ujson q t = Inr out"
  shows "\<exists>rows. out = map (scanReviewItem ujson) rows
    \<and> newest (\<lambda>r. (rv_CreatedAt r, rv_ID r)) (nat (if ry_Limit q \<in> {1..500} then ry_Limit q else 50))
        (filter (review_matches q) t) rows"
proof -
  have "distinct (filter (review_matches q) t)"
    using assms(1) by (simp add: review_inv_def unique_keys_def distinct_map)
  moreover from assms(2) have "out = map (scanReviewItem ujson) (take (nat (if ry_Limit q \<in> {1..500} then ry_Limit q else 50))
      (order_desc (\<lambda>r. (rv_CreatedAt r, rv_ID r)) (filter (review_matches q) t)))"
    by (auto simp: ListReviewItems_def Let_def not_le not_less split: option.splits if_splits)
  ultimately show ?thesis by (blast intro: newest_order_desc)
qed

text \<open>
  The evidence of a context is computed from the newest 50 open items of the peer and only then
  restricted to the session: when 50 open items of other sessions are newer, the open items of the
  session itself are not reported at all.
\<close>

theorem review_context_misses_session:
  assumes "review_inv t" "\<And>s. \<not> flt s" "trim_space key \<noteq> []"
    and "others = filter (\<lambda>r. review_matches (open_query ws peer) r
           \<and> trim_space (rv_SessionKey r) \<notin> {[], trim_space key}) t"
    and "50 \<le> length others"
    and "\<forall>r \<in> set t. review_matches (open_query ws peer) r \<and> trim_space (rv_SessionKey r) \<in> {[], trim_space key}
           \<longrightarrow> (\<forall>s \<in> set others. rv_CreatedAt r < rv_CreatedAt s)"
  shows "reviewContextUnavailableEvidence ws flt ujson peer key t = Inr []"
proof -
  let ?q = "open_query ws peer" and ?k = "\<lambda>r. (rv_CreatedAt r, rv_ID r)"
  let ?m = "filter (review_matches ?q) t"
  let ?A = "{r \<in> set ?m. trim_space (rv_SessionKey r) \<in> {[], trim_space key}}"
  have d: "distinct t" using assms(1) by (simp add: review_inv_def unique_keys_def distinct_map)
  have "ListReviewItems flt ujson ?q t = Inr (map (scanReviewItem ujson) (take 50 (order_desc ?k ?m)))"
    using assms(2) by (simp add: ListReviewItems_def review_entry_def open_query_def)
  moreover have "set (take 50 (order_desc ?k ?m)) \<inter> ?A = {}"
  proof (rule newest_full [where B = "set others"])
    show "newest ?k 50 ?m (take 50 (order_desc ?k ?m))" using d by (simp add: newest_order_desc)
    have "distinct others" using d by (simp add: assms(4))
    then show "50 \<le> card (set others)" using assms(5) by (simp add: distinct_card)
  qed (use assms d in \<open>auto\<close>)
  ultimately show ?thesis
    using assms(3) set_take_subset [of 50 "order_desc ?k ?m"]
    by (auto simp: reviewContextUnavailableEvidence_def ReviewItemsForContextSession_def Let_def
        ReviewRequiredUnavailableEvidence_def scanReviewItem_def filter_empty_conv)
qed


section \<open>Witnesses\<close>

definition sample_item :: "int \<Rightarrow> string \<Rightarrow> ReviewItem" where
  "sample_item n session =
     \<lparr>rv_ID = Prefixed ''r'' n, rv_Kind = ReviewKindStale, rv_Status = ReviewStatusOpen, rv_WorkspaceID = ''w'', rv_PeerID = ''p'',
      rv_SessionKey = session, rv_SubjectID = ''m1'', rv_RelatedID = [], rv_Reason = ''old'', rv_EvidenceIDs = [''e1''],
      rv_CreatedAt = n, rv_Resolution = None, rv_ResolvedBy = [], rv_ResolutionReason = [], rv_ResolvedAt = None\<rparr>"

definition sample_resolution :: ReviewResolutionParams where
  "sample_resolution = \<lparr>rs_ID = '' r1 '', rs_Resolution = ''accepted'', rs_ResolvedBy = ''bob'', rs_ResolutionReason = ''seen'', rs_ResolvedAt = 7\<rparr>"

theorem review_history_kept_witness:
  "\<exists>s \<in> set (fold review_step [ResolveEvent (\<lambda>_. False) (\<lambda>s. s) 9 sample_resolution] [sample_item 1 ''s'']).
     same_claim (sample_item 1 ''s'') s"
proof -
  have i: "review_inv [sample_item 1 ''s'']" by code_simp
  show ?thesis
    using review_history_kept [OF i, where es = "[ResolveEvent (\<lambda>_. False) (\<lambda>s. s) 9 sample_resolution]"]
    by (meson list.set_intros(1))
qed

theorem review_resolved_once_witness:
  "\<exists>e u. ResolveReviewItem (\<lambda>_. False) (\<lambda>s. s) 10 sample_resolution u = (Inl e, u)"
proof -
  have i: "review_inv [sample_item 1 ''s'']" by code_simp
  have "is_ok (fst (ResolveReviewItem (\<lambda>_. False) (\<lambda>s. s) 9 sample_resolution [sample_item 1 ''s'']))" by code_simp
  then obtain item u where r: "ResolveReviewItem (\<lambda>_. False) (\<lambda>s. s) 9 sample_resolution [sample_item 1 ''s''] = (Inr item, u)"
    by (metis is_ok_iff prod.collapse)
  show ?thesis using review_resolved_once [OF i r refl, where es = "[]"] by blast
qed

theorem review_list_exact_witness:
  "\<exists>rows. newest (\<lambda>r. (rv_CreatedAt r, rv_ID r)) 50 (filter (review_matches (open_query ''w'' ''p'')) [sample_item 1 ''s'']) rows"
proof -
  have i: "review_inv [sample_item 1 ''s'']" by code_simp
  have "is_ok (ListReviewItems (\<lambda>_. False) (\<lambda>s. s) (open_query ''w'' ''p'') [sample_item 1 ''s''])" by code_simp
  then obtain out where "ListReviewItems (\<lambda>_. False) (\<lambda>s. s) (open_query ''w'' ''p'') [sample_item 1 ''s''] = Inr out"
    by (auto simp: is_ok_iff)
  from review_list_exact [OF i this] show ?thesis by (auto simp: open_query_def)
qed

definition crowded_log :: "ReviewItem list" where
  "crowded_log = sample_item 0 ''mine'' # map (\<lambda>n. sample_item (int n) ''theirs'') [1..<51]"

lemma sample_matches: "review_matches (open_query ''w'' ''p'') (sample_item n s)"
proof -
  have "trim_space ''w'' = ''w''" "trim_space ''p'' = ''p''" by code_simp+
  then show ?thesis by (simp add: review_matches_def review_filter_def open_query_def sample_item_def)
qed

lemma crowded_inv: "review_inv crowded_log"
proof -
  have k: "rv_ID (sample_item n s) = Prefixed ''r'' n" for n s by (simp add: sample_item_def)
  have n: "map rv_ID crowded_log = map (\<lambda>n. Prefixed ''r'' (int n)) [0..<51]"
    by (simp add: crowded_log_def k comp_def upt_conv_Cons)
  have "inj_on (\<lambda>n. Prefixed ''r'' (int n)) {0..<51}"
    by (rule inj_onI) (simp add: Prefixed_def Decimal_inject in_int64_def min_int64_def max_int64_def)
  then have "unique_keys rv_ID crowded_log" by (simp add: unique_keys_def n distinct_map)
  moreover have "list_all review_ok crowded_log"
    by (auto simp: crowded_log_def list_all_iff review_ok_def sample_item_def in_int64_def min_int64_def max_int64_def)
  ultimately show ?thesis by (simp add: review_inv_def)
qed

theorem review_context_misses_session_witness:
  "reviewContextUnavailableEvidence ''w'' (\<lambda>_. False) (\<lambda>s. s) ''p'' ''mine'' crowded_log = Inr []"
proof (rule review_context_misses_session [OF crowded_inv _ _ refl])
  have t: "trim_space ''mine'' = ''mine''" "trim_space ''theirs'' = ''theirs''" by code_simp+
  have f: "filter (\<lambda>r. review_matches (open_query ''w'' ''p'') r
           \<and> trim_space (rv_SessionKey r) \<notin> {[], trim_space ''mine''}) crowded_log
      = map (\<lambda>n. sample_item (int n) ''theirs'') [1..<51]"
    unfolding crowded_log_def
    by (subst filter.simps(2)) (simp add: sample_matches filter_map comp_def, simp add: sample_item_def t)
  show "50 \<le> length (filter (\<lambda>r. review_matches (open_query ''w'' ''p'') r
           \<and> trim_space (rv_SessionKey r) \<notin> {[], trim_space ''mine''}) crowded_log)" unfolding f by simp
  show "\<forall>r \<in> set crowded_log. review_matches (open_query ''w'' ''p'') r \<and> trim_space (rv_SessionKey r) \<in> {[], trim_space ''mine''}
     \<longrightarrow> (\<forall>s \<in> set (filter (\<lambda>r. review_matches (open_query ''w'' ''p'') r
           \<and> trim_space (rv_SessionKey r) \<notin> {[], trim_space ''mine''}) crowded_log). rv_CreatedAt r < rv_CreatedAt s)"
    unfolding f crowded_log_def by (auto simp: sample_item_def t)
  show "trim_space ''mine'' \<noteq> []" by (simp add: t)
qed simp

end
