(* ===== verification/PluginWrites.thy ===== *)
theory PluginWrites
  imports Complex_Main Text Tables "HOL-Library.Multiset" "HOL-Library.Sublist"
begin

text \<open>
  The write path of the host plugin (\<open>internal/pluginruntime\<close>): the write frequency
  (\<open>writefrequency\<close>), the asynchronous writer (\<open>asyncwrite\<close>), the evidence lists (\<open>evidence\<close>) and the
  router that decides for each saved session whether it is flushed, queued, cached or deferred
  (\<open>writerouter\<close>).  The host's flusher is a parameter: a function from the sessions it was called
  with before and the session to whether it succeeds; \<open>None\<close> is a nil flusher.  The iteration order
  of the cache, a Go map, is the parameter \<open>ord\<close>, a permutation.  \<open>FlushAll\<close> holds the lock while it
  takes the pending sessions and while it puts the failed ones back, not in between, so it is three
  operations that others interleave with.
\<close>

section \<open>Sessions and evidence\<close>

record PluginMessage =
  pm_Role :: string
  pm_Content :: string
  pm_Synced :: bool

record MemorySession =
  ms_Key :: string
  ms_UserPeerID :: string
  ms_AssistantPeerID :: string
  ms_HonchoSessionID :: string
  ms_Messages :: "PluginMessage list"

type_synonym flusher = "MemorySession list \<Rightarrow> MemorySession \<Rightarrow> bool"

datatype async_code = AsyncEnqueued | AsyncFlushed | AsyncRetry | AsyncFlushFailed | AsyncShutdown | AsyncClosed

definition AppendEvidence :: "'c list \<Rightarrow> 'c \<Rightarrow> 'c list" where
  "AppendEvidence items code = (if code \<in> set items then items else items @ [code])"

lemma AppendEvidence_set [simp]: "set (AppendEvidence items c) = insert c (set items)"
  by (auto simp: AppendEvidence_def)

lemma AppendEvidence_distinct: "distinct items \<Longrightarrow> distinct (AppendEvidence items c)"
  by (simp add: AppendEvidence_def)

section \<open>Write frequency\<close>

text \<open>
  A configuration value as \<open>Parse\<close> tells them apart.  A finite \<open>float64\<close> is its rational value; the
  conversion to \<open>int\<close> of a value outside the int64 range is implementation-defined and taken not to
  give the value back.
\<close>

datatype raw_value = RawNil | RawInt int | RawInt64 int | RawFloat rat | RawString string | RawOther

datatype FrequencyMode = ModeInvalid | ModeAsync | ModeTurn | ModeSession | ModeEvery

record Frequency =
  fq_Mode :: FrequencyMode
  fq_Every :: int
  fq_Raw :: string

definition frequency_every :: "int \<Rightarrow> string \<Rightarrow> Frequency" where
  "frequency_every n raw = \<lparr>fq_Mode = ModeEvery, fq_Every = n, fq_Raw = raw\<rparr>"

definition frequency_mode :: "FrequencyMode \<Rightarrow> string \<Rightarrow> Frequency" where
  "frequency_mode m raw = \<lparr>fq_Mode = m, fq_Every = 0, fq_Raw = raw\<rparr>"

definition parsePositiveInt :: "string \<Rightarrow> int option" where
  "parsePositiveInt value = (case ParseInt value of Inl _ \<Rightarrow> None | Inr n \<Rightarrow> if n \<le> 0 then None else Some n)"

definition ParseFrequency :: "(string \<Rightarrow> string) \<Rightarrow> raw_value \<Rightarrow> Frequency" where
  "ParseFrequency ulow raw =
     (let invalid = frequency_mode ModeInvalid [] in
      case raw of
        RawNil \<Rightarrow> frequency_mode ModeAsync ''async''
      | RawInt v \<Rightarrow> if v > 0 then frequency_every v (Decimal v) else invalid
      | RawInt64 v \<Rightarrow> if v > 0 then frequency_every v (Decimal v) else invalid
      | RawFloat v \<Rightarrow>
          if v = of_int \<lfloor>v\<rfloor> \<and> v > 0 \<and> in_int64 \<lfloor>v\<rfloor> then frequency_every \<lfloor>v\<rfloor> (Decimal \<lfloor>v\<rfloor>) else invalid
      | RawString v \<Rightarrow>
          let trimmed = to_lower ulow (trim_space v) in
          if trimmed = [] \<or> trimmed = ''async'' then frequency_mode ModeAsync ''async''
          else if trimmed = ''turn'' then frequency_mode ModeTurn ''turn''
          else if trimmed = ''session'' then frequency_mode ModeSession ''session''
          else case parsePositiveInt trimmed of Some n \<Rightarrow> frequency_every n trimmed | None \<Rightarrow> invalid
      | RawOther \<Rightarrow> invalid)"

section \<open>The asynchronous writer\<close>

record writer =
  aw_queue :: "MemorySession list"
  aw_cache :: "MemorySession list"
  aw_closed :: bool

record async_result =
  as_Code :: async_code
  as_Flushed :: int
  as_Pending :: int
  as_Evidence :: "async_code list"

definition NewWriter :: writer where
  "NewWriter = \<lparr>aw_queue = [], aw_cache = [], aw_closed = False\<rparr>"

definition pending :: "writer \<Rightarrow> int" where
  "pending w = int (length (aw_queue w) + length (aw_cache w))"

definition plain_result :: "async_code \<Rightarrow> int \<Rightarrow> async_result" where
  "plain_result code n = \<lparr>as_Code = code, as_Flushed = 0, as_Pending = n, as_Evidence = []\<rparr>"

definition Enqueue :: "MemorySession \<Rightarrow> writer \<Rightarrow> async_result \<times> writer" where
  "Enqueue s w =
     (if aw_closed w then (plain_result AsyncClosed (pending w), w)
      else let w' = w\<lparr>aw_queue := aw_queue w @ [s]\<rparr> in (plain_result AsyncEnqueued (pending w'), w'))"

text \<open>\<open>w.cache[item.Key] = item\<close>.\<close>

abbreviation cache_put :: "MemorySession \<Rightarrow> MemorySession list \<Rightarrow> MemorySession list" where
  "cache_put \<equiv> tupsert ms_Key (\<lambda>_ r. r)"

interpretation session_cache: replacing_table ms_Key "\<lambda>_ r. r"
  by unfold_locales simp_all

definition Cache :: "MemorySession \<Rightarrow> writer \<Rightarrow> writer" where
  "Cache item w = w\<lparr>aw_cache := cache_put item (aw_cache w)\<rparr>"

text \<open>
  A flush in flight: the items still to flush, each with whether it comes from the queue (the code's
  test on its index), whether the flusher has already refused the first of them once, the keys the
  flush took from the cache, what failed, and what to report.
\<close>

record flight =
  fl_todo :: "(bool \<times> MemorySession) list"
  fl_retry :: bool
  fl_cacheKeys :: "string list"
  fl_failedQueue :: "MemorySession list"
  fl_failedCache :: "MemorySession list"
  fl_Flushed :: int
  fl_Evidence :: "async_code list"

text \<open>The first critical section of \<open>FlushAll\<close>: the queue is taken, the cache is copied.\<close>

definition flushSnapshot :: "(MemorySession list \<Rightarrow> MemorySession list) \<Rightarrow> writer \<Rightarrow> flight \<times> writer" where
  "flushSnapshot ord w =
     (\<lparr>fl_todo = map (Pair True) (aw_queue w) @ map (Pair False) (ord (aw_cache w)), fl_retry = False,
       fl_cacheKeys = map ms_Key (ord (aw_cache w)), fl_failedQueue = [], fl_failedCache = [],
       fl_Flushed = 0, fl_Evidence = []\<rparr>, w\<lparr>aw_queue := []\<rparr>)"

text \<open>\<open>flushWithRetry\<close>: one retry; the list is the sessions the flusher was called with.\<close>

definition flushWithRetry :: "flusher option \<Rightarrow> MemorySession \<Rightarrow> MemorySession list \<Rightarrow> async_code list
    \<Rightarrow> bool \<times> async_code list \<times> MemorySession list" where
  "flushWithRetry flusher s calls evidence =
     (case flusher of
        None \<Rightarrow> (False, evidence, calls)
      | Some f \<Rightarrow>
          if f calls s then (True, evidence, calls @ [s])
          else (f (calls @ [s]) s, AppendEvidence evidence AsyncRetry, calls @ [s, s]))"

text \<open>What one iteration of the loop outside the lock does with the answer for its item.\<close>

fun flushSettle :: "bool \<Rightarrow> flight \<Rightarrow> flight" where
  "flushSettle ok fl =
     (case fl_todo fl of
        [] \<Rightarrow> fl
      | (queued, s) # rest \<Rightarrow>
          let fl' = fl\<lparr>fl_todo := rest, fl_retry := False\<rparr> in
          if ok then fl'\<lparr>fl_Flushed := fl_Flushed fl + 1\<rparr>
          else if queued then fl'\<lparr>fl_failedQueue := fl_failedQueue fl @ [s]\<rparr>
          else fl'\<lparr>fl_failedCache := cache_put s (fl_failedCache fl)\<rparr>)"

text \<open>One iteration of the loop.\<close>

definition flushItem :: "flusher option \<Rightarrow> flight \<times> MemorySession list \<Rightarrow> flight \<times> MemorySession list" where
  "flushItem flusher st =
     (let (fl, calls) = st in
      case fl_todo fl of
        [] \<Rightarrow> (fl, calls)
      | (queued, s) # rest \<Rightarrow>
          let (ok, evidence, calls') = flushWithRetry flusher s calls (fl_Evidence fl) in
          (flushSettle ok (fl\<lparr>fl_Evidence := evidence\<rparr>), calls'))"

text \<open>
  The part of an iteration up to its next call of the flusher: nothing locks the writer between the
  two calls of a retry, so another flush can call the flusher between them.
\<close>

definition flushCall :: "flusher option \<Rightarrow> flight \<times> MemorySession list \<Rightarrow> flight \<times> MemorySession list" where
  "flushCall flusher st =
     (let (fl, calls) = st in
      case fl_todo fl of
        [] \<Rightarrow> (fl, calls)
      | (queued, s) # rest \<Rightarrow>
          (case flusher of
             None \<Rightarrow> (flushSettle False fl, calls)
           | Some f \<Rightarrow>
               if f calls s \<or> fl_retry fl then (flushSettle (f calls s) fl, calls @ [s])
               else (fl\<lparr>fl_retry := True, fl_Evidence := AppendEvidence (fl_Evidence fl) AsyncRetry\<rparr>, calls @ [s])))"

text \<open>An iteration nothing interrupts is its one or two calls, one after the other.\<close>

lemma flushItem_calls:
  assumes "\<not> fl_retry fl"
  shows "flushItem f (fl, calls) =
    (let (fl1, calls1) = flushCall f (fl, calls) in if fl_retry fl1 then flushCall f (fl1, calls1) else (fl1, calls1))"
  using assms
  by (auto simp: flushItem_def flushCall_def flushWithRetry_def Let_def split: list.splits option.splits prod.splits)

definition flushItems :: "flusher option \<Rightarrow> flight \<times> MemorySession list \<Rightarrow> flight \<times> MemorySession list" where
  "flushItems flusher st = (flushItem flusher ^^ length (fl_todo (fst st))) st"

text \<open>The second critical section: failed sessions go back, taken cache keys are deleted first.\<close>

definition flushCommit :: "flight \<Rightarrow> writer \<Rightarrow> async_result \<times> writer" where
  "flushCommit fl w =
     (let w' = w\<lparr>aw_queue := fl_failedQueue fl @ aw_queue w,
                 aw_cache := fold cache_put (fl_failedCache fl)
                   (tdelete (\<lambda>r. ms_Key r \<in> set (fl_cacheKeys fl)) (aw_cache w))\<rparr>;
          n = pending w' in
      (if n > 0 then \<lparr>as_Code = AsyncFlushFailed, as_Flushed = fl_Flushed fl, as_Pending = n,
                      as_Evidence = AppendEvidence (fl_Evidence fl) AsyncFlushFailed\<rparr>
       else \<lparr>as_Code = AsyncFlushed, as_Flushed = fl_Flushed fl, as_Pending = n, as_Evidence = fl_Evidence fl\<rparr>, w'))"

definition FlushAll :: "flusher option \<Rightarrow> (MemorySession list \<Rightarrow> MemorySession list) \<Rightarrow> writer \<times> MemorySession list
    \<Rightarrow> async_result \<times> writer \<times> MemorySession list" where
  "FlushAll flusher ord st =
     (let (w, calls) = st; (fl0, w0) = flushSnapshot ord w; (fl, calls') = flushItems flusher (fl0, calls);
          (r, w') = flushCommit fl w0 in (r, w', calls'))"

definition ShutdownClose :: "writer \<Rightarrow> writer" where
  "ShutdownClose w = w\<lparr>aw_closed := True\<rparr>"

definition Shutdown :: "flusher option \<Rightarrow> (MemorySession list \<Rightarrow> MemorySession list) \<Rightarrow> writer \<times> MemorySession list
    \<Rightarrow> async_result \<times> writer \<times> MemorySession list" where
  "Shutdown flusher ord st =
     (let (r, w, calls) = FlushAll flusher ord st; w' = ShutdownClose w in
      (r\<lparr>as_Code := AsyncShutdown, as_Pending := pending w'\<rparr>, w', calls))"

section \<open>The router\<close>

datatype route_code = RouteFlushed | RouteDeferred | RouteQueued | RouteFlushFailed

record route_result =
  rr_Code :: route_code
  rr_Evidence :: "route_code list"
  rr_Async :: "async_code list"

text \<open>The router with the asynchronous writer it shares; \<open>rt_async = None\<close> is a nil writer.\<close>

record Router =
  rt_frequency :: Frequency
  rt_flusher :: "flusher option"
  rt_async :: "writer option"
  rt_turn :: int
  rt_calls :: "MemorySession list"

definition NewRouter :: "Frequency \<Rightarrow> flusher option \<Rightarrow> writer option \<Rightarrow> Router" where
  "NewRouter f flusher w =
     \<lparr>rt_frequency = (if fq_Mode f = ModeInvalid then frequency_mode ModeAsync ''async'' else f),
      rt_flusher = flusher, rt_async = w, rt_turn = 0, rt_calls = []\<rparr>"

definition routed :: "route_code \<Rightarrow> route_result" where
  "routed c = \<lparr>rr_Code = c, rr_Evidence = [], rr_Async = []\<rparr>"

definition route_flush :: "MemorySession \<Rightarrow> Router \<Rightarrow> route_result \<times> Router" where
  "route_flush s r =
     (case rt_flusher r of
        None \<Rightarrow> (routed RouteFlushFailed, r)
      | Some f \<Rightarrow>
          let r' = r\<lparr>rt_calls := rt_calls r @ [s]\<rparr> in
          if f (rt_calls r) s then (routed RouteFlushed, r')
          else (\<lparr>rr_Code = RouteFlushFailed, rr_Evidence = [RouteFlushFailed], rr_Async = []\<rparr>, r'))"

text \<open>\<open>r.turn\<close> is a Go \<open>int\<close> that does not reach its bound in a process' life; a nil router is \<open>None\<close>.\<close>

definition Save :: "MemorySession \<Rightarrow> Router \<Rightarrow> route_result \<times> Router" where
  "Save s r0 =
     (let r = r0\<lparr>rt_turn := rt_turn r0 + 1\<rparr> in
      case fq_Mode (rt_frequency r) of
        ModeAsync \<Rightarrow>
          (case rt_async r of
             None \<Rightarrow> (routed RouteDeferred, r)
           | Some w \<Rightarrow>
               let (res, w') = Enqueue s w; r' = r\<lparr>rt_async := Some w'\<rparr> in
               if as_Code res = AsyncEnqueued then (routed RouteQueued, r')
               else (\<lparr>rr_Code = RouteFlushFailed, rr_Evidence = [], rr_Async = [as_Code res]\<rparr>, r'))
      | ModeTurn \<Rightarrow> route_flush s r
      | ModeSession \<Rightarrow> (routed RouteDeferred, r\<lparr>rt_async := map_option (Cache s) (rt_async r)\<rparr>)
      | ModeEvery \<Rightarrow>
          if fq_Every (rt_frequency r) > 0 \<and> rt_turn r mod fq_Every (rt_frequency r) = 0 then route_flush s r
          else (routed RouteDeferred, r)
      | ModeInvalid \<Rightarrow> (routed RouteDeferred, r))"

definition SaveRouter :: "MemorySession \<Rightarrow> Router option \<Rightarrow> route_result \<times> Router option" where
  "SaveRouter s ro = (case ro of None \<Rightarrow> (routed RouteDeferred, None) | Some r \<Rightarrow> map_prod (\<lambda>x. x) Some (Save s r))"

section \<open>Interleaved flushes\<close>

text \<open>
  The writer with its flushes in flight.  \<open>asy_accepted\<close> records the sessions whose \<open>Enqueue\<close> was
  answered with \<open>Enqueued\<close>; a flush loop advances one call of the flusher at a time.
\<close>

record async_system =
  asy_writer :: writer
  asy_flights :: "flight list"
  asy_calls :: "MemorySession list"
  asy_accepted :: "MemorySession list"

datatype async_event = EvEnqueue MemorySession | EvCache MemorySession
  | EvSnapshot "MemorySession list \<Rightarrow> MemorySession list" | EvFlushCall nat | EvCommit nat | EvClose

definition remove_nth :: "nat \<Rightarrow> 'a list \<Rightarrow> 'a list" where
  "remove_nth i xs = take i xs @ drop (Suc i) xs"

fun async_step :: "flusher option \<Rightarrow> async_event \<Rightarrow> async_system \<Rightarrow> async_system" where
  "async_step f (EvEnqueue s) y =
     (let (r, w) = Enqueue s (asy_writer y) in
      y\<lparr>asy_writer := w, asy_accepted := (if as_Code r = AsyncEnqueued then asy_accepted y @ [s] else asy_accepted y)\<rparr>)"
| "async_step f (EvCache s) y = y\<lparr>asy_writer := Cache s (asy_writer y)\<rparr>"
| "async_step f (EvSnapshot ord) y =
     (let (fl, w) = flushSnapshot ord (asy_writer y) in y\<lparr>asy_writer := w, asy_flights := asy_flights y @ [fl]\<rparr>)"
| "async_step f (EvFlushCall i) y =
     (if i < length (asy_flights y)
      then let (fl, calls) = flushCall f (asy_flights y ! i, asy_calls y) in
        y\<lparr>asy_flights := (asy_flights y)[i := fl], asy_calls := calls\<rparr>
      else y)"
| "async_step f (EvCommit i) y =
     (if i < length (asy_flights y) \<and> fl_todo (asy_flights y ! i) = []
      then y\<lparr>asy_writer := snd (flushCommit (asy_flights y ! i) (asy_writer y)), asy_flights := remove_nth i (asy_flights y)\<rparr>
      else y)"
| "async_step f EvClose y = y\<lparr>asy_writer := ShutdownClose (asy_writer y)\<rparr>"

definition new_system :: async_system where
  "new_system = \<lparr>asy_writer = NewWriter, asy_flights = [], asy_calls = [], asy_accepted = []\<rparr>"

text \<open>The sessions of a list of flusher calls that were persisted, in order.\<close>

definition delivered :: "flusher \<Rightarrow> MemorySession list \<Rightarrow> MemorySession list" where
  "delivered f calls = concat (map (\<lambda>i. if f (take i calls) (calls ! i) then [calls ! i] else []) [0..<length calls])"

lemma delivered_Nil [simp]: "delivered f [] = []"
  by (simp add: delivered_def)

lemma delivered_snoc [simp]: "delivered f (calls @ [s]) = delivered f calls @ (if f calls s then [s] else [])"
  unfolding delivered_def by (simp, intro arg_cong [where f = concat] map_cong) (auto simp: nth_append)

lemma delivered_snoc2: "delivered f (calls @ [s, t]) =
    delivered f calls @ (if f calls s then [s] else []) @ (if f (calls @ [s]) t then [t] else [])"
  using delivered_snoc [of f "calls @ [s]" t] by simp

text \<open>What a flight holds: items not yet tried, and items that failed.\<close>

definition flight_queue :: "flight \<Rightarrow> MemorySession multiset" where
  "flight_queue fl = mset (map snd (filter fst (fl_todo fl))) + mset (fl_failedQueue fl)"

definition deliveries :: "flusher option \<Rightarrow> MemorySession list \<Rightarrow> MemorySession list" where
  "deliveries f calls = (case f of None \<Rightarrow> [] | Some g \<Rightarrow> delivered g calls)"

lemma flushItem_cases:
  assumes "fl_todo fl = (q, s) # rest"
  obtains (flushed) ev calls' where
      "flushItem f (fl, calls) = (fl\<lparr>fl_todo := rest, fl_retry := False, fl_Evidence := ev, fl_Flushed := fl_Flushed fl + 1\<rparr>, calls')"
      "deliveries f calls' = deliveries f calls @ [s]" "length calls' \<le> length calls + 2"
    | (failed) ev calls' where
      "flushItem f (fl, calls) = ((if q then fl\<lparr>fl_todo := rest, fl_retry := False, fl_Evidence := ev, fl_failedQueue := fl_failedQueue fl @ [s]\<rparr>
          else fl\<lparr>fl_todo := rest, fl_retry := False, fl_Evidence := ev, fl_failedCache := cache_put s (fl_failedCache fl)\<rparr>), calls')"
      "deliveries f calls' = deliveries f calls" "length calls' \<le> length calls + 2"
proof (cases f)
  case None
  with assms show ?thesis
    by (intro failed [of "fl_Evidence fl" calls]) (auto simp: flushItem_def flushWithRetry_def)
next
  case (Some g)
  let ?retry = "AppendEvidence (fl_Evidence fl) AsyncRetry"
  consider "g calls s" | "\<not> g calls s" "g (calls @ [s]) s" | "\<not> g calls s" "\<not> g (calls @ [s]) s" by blast
  then show ?thesis
  proof cases
    case 1
    with Some assms show ?thesis
      by (intro flushed [of "fl_Evidence fl" "calls @ [s]"]) (auto simp: flushItem_def flushWithRetry_def deliveries_def)
  next
    case 2
    with Some assms show ?thesis
      by (intro flushed [of ?retry "calls @ [s, s]"])
        (auto simp: flushItem_def flushWithRetry_def deliveries_def delivered_snoc2)
  next
    case 3
    with Some assms show ?thesis
      by (intro failed [of ?retry "calls @ [s, s]"])
        (auto simp: flushItem_def flushWithRetry_def deliveries_def delivered_snoc2)
  qed
qed

lemma flushCall_cases:
  assumes "fl_todo fl = (q, s) # rest"
  obtains (flushed) ev where
      "flushCall f (fl, calls) = (fl\<lparr>fl_todo := rest, fl_retry := False, fl_Evidence := ev, fl_Flushed := fl_Flushed fl + 1\<rparr>, calls @ [s])"
      "deliveries f (calls @ [s]) = deliveries f calls @ [s]"
    | (failed) ev calls' where
      "flushCall f (fl, calls) = ((if q then fl\<lparr>fl_todo := rest, fl_retry := False, fl_Evidence := ev, fl_failedQueue := fl_failedQueue fl @ [s]\<rparr>
          else fl\<lparr>fl_todo := rest, fl_retry := False, fl_Evidence := ev, fl_failedCache := cache_put s (fl_failedCache fl)\<rparr>), calls')"
      "deliveries f calls' = deliveries f calls"
    | (again) ev where "flushCall f (fl, calls) = (fl\<lparr>fl_retry := True, fl_Evidence := ev\<rparr>, calls @ [s])"
      "deliveries f (calls @ [s]) = deliveries f calls"
proof (cases f)
  case None
  with assms show ?thesis by (intro failed [of "fl_Evidence fl" calls]) (auto simp: flushCall_def)
next
  case (Some g)
  consider "g calls s" | "\<not> g calls s" "fl_retry fl" | "\<not> g calls s" "\<not> fl_retry fl" by blast
  then show ?thesis
  proof cases
    case 1
    with Some assms show ?thesis by (intro flushed [of "fl_Evidence fl"]) (auto simp: flushCall_def deliveries_def)
  next
    case 2
    with Some assms show ?thesis by (intro failed [of "fl_Evidence fl" "calls @ [s]"]) (auto simp: flushCall_def deliveries_def)
  next
    case 3
    with Some assms show ?thesis
      by (intro again [of "AppendEvidence (fl_Evidence fl) AsyncRetry"]) (auto simp: flushCall_def deliveries_def)
  qed
qed

text \<open>Nothing that came from the queue disappears in one call: it is still held or delivered.\<close>

lemma flushCall_queue:
  "\<exists>D. mset (deliveries f (snd (flushCall f (fl, calls)))) = mset (deliveries f calls) + D
     \<and> flight_queue fl \<subseteq># flight_queue (fst (flushCall f (fl, calls))) + D"
proof (cases "fl_todo fl")
  case Nil
  then show ?thesis by (simp add: flushCall_def)
next
  case (Cons x rest)
  obtain q s where x: "x = (q, s)" by fastforce
  from flushCall_cases [OF Cons [unfolded x], of f calls] show ?thesis
  proof cases
    case (1 ev)
    then show ?thesis by (intro exI [of _ "{#s#}"]) (auto simp: flight_queue_def Cons x)
  next
    case (2 ev calls')
    then show ?thesis by (intro exI [of _ "{#}"]) (auto simp: flight_queue_def Cons x)
  next
    case (3 ev)
    then show ?thesis by (intro exI [of _ "{#}"]) (auto simp: flight_queue_def Cons x)
  qed
qed

definition in_flight :: "async_system \<Rightarrow> MemorySession multiset" where
  "in_flight y = sum_mset (image_mset flight_queue (mset (asy_flights y)))"

definition async_inv :: "flusher option \<Rightarrow> async_system \<Rightarrow> bool" where
  "async_inv f y \<longleftrightarrow> mset (asy_accepted y)
     \<subseteq># mset (aw_queue (asy_writer y)) + in_flight y + mset (deliveries f (asy_calls y))"

lemma remove_nth_mset: "i < length xs \<Longrightarrow> mset xs = add_mset (xs ! i) (mset (remove_nth i xs))"
  unfolding remove_nth_def by (subst id_take_nth_drop [of i xs]) simp_all

lemma in_flight_update: "i < length fs \<Longrightarrow>
   sum_mset (image_mset h (mset (fs[i := x]))) + h (fs ! i) = sum_mset (image_mset h (mset fs)) + (h x :: 'a multiset)"
  by (simp add: mset_update) (metis add.commute image_mset_add_mset insert_DiffM nth_mem_mset sum_mset.insert)

lemma mset_exchange:
  assumes "a' + x = a + z" "x \<subseteq># z + D"
  shows "a \<subseteq># a' + (D :: 'a multiset)"
proof (rule mset_subset_eqI)
  fix c
  from arg_cong [OF assms(1), of "\<lambda>m. count m c"] mset_subset_eq_count [OF assms(2), of c]
  show "count a c \<le> count (a' + D) c" by simp
qed

lemma mset_widen:
  assumes "a \<subseteq># q + i + d" "i \<subseteq># (x :: 'a multiset)"
  shows "a \<subseteq># q + x + d"
proof (rule mset_subset_eqI)
  fix c
  from mset_subset_eq_count [OF assms(1), of c] mset_subset_eq_count [OF assms(2), of c]
  show "count a c \<le> count (q + x + d) c" by simp
qed

lemma snapshot_queue: "flight_queue (fst (flushSnapshot ord w)) = mset (aw_queue w)"
  by (simp add: flight_queue_def flushSnapshot_def filter_map comp_def)

lemma async_step_inv:
  assumes "async_inv f y"
  shows "async_inv f (async_step f e y)"
proof (cases e)
  case (EvEnqueue s)
  with assms show ?thesis
    by (auto simp: async_inv_def Enqueue_def plain_result_def in_flight_def Let_def add.assoc split: prod.split)
next
  case (EvCache s)
  with assms show ?thesis by (simp add: async_inv_def Cache_def in_flight_def)
next
  case (EvSnapshot ord)
  obtain fl w where f: "flushSnapshot ord (asy_writer y) = (fl, w)" by fastforce
  then have "flight_queue fl = mset (aw_queue (asy_writer y))" "aw_queue w = []"
    using snapshot_queue [of ord "asy_writer y"] by (auto simp: flushSnapshot_def)
  with EvSnapshot f assms show ?thesis by (simp add: async_inv_def in_flight_def ac_simps)
next
  case (EvFlushCall i)
  show ?thesis
  proof (cases "i < length (asy_flights y)")
    case True
    obtain fl calls where f: "flushCall f (asy_flights y ! i, asy_calls y) = (fl, calls)" by fastforce
    from flushCall_queue [of f "asy_flights y ! i" "asy_calls y"] f obtain D where
      D: "mset (deliveries f calls) = mset (deliveries f (asy_calls y)) + D"
      "flight_queue (asy_flights y ! i) \<subseteq># flight_queue fl + D" by auto
    from mset_exchange [OF in_flight_update [OF True, of flight_queue fl] D(2)]
    have "in_flight y \<subseteq># sum_mset (image_mset flight_queue (mset ((asy_flights y)[i := fl]))) + D"
      unfolding in_flight_def .
    with assms [unfolded async_inv_def] have "mset (asy_accepted y) \<subseteq># mset (aw_queue (asy_writer y))
        + (sum_mset (image_mset flight_queue (mset ((asy_flights y)[i := fl]))) + D) + mset (deliveries f (asy_calls y))"
      by (rule mset_widen)
    with True f D(1) EvFlushCall show ?thesis by (simp add: async_inv_def in_flight_def ac_simps)
  qed (use EvFlushCall assms in simp)
next
  case (EvCommit i)
  show ?thesis
  proof (cases "i < length (asy_flights y) \<and> fl_todo (asy_flights y ! i) = []")
    case True
    then have "in_flight y = flight_queue (asy_flights y ! i) + sum_mset (image_mset flight_queue (mset (remove_nth i (asy_flights y))))"
      unfolding in_flight_def using remove_nth_mset [of i "asy_flights y"] by simp
    with True EvCommit assms show ?thesis
      by (simp add: async_inv_def in_flight_def flight_queue_def flushCommit_def Let_def ac_simps)
  qed (use EvCommit assms in auto)
next
  case EvClose
  with assms show ?thesis by (simp add: async_inv_def ShutdownClose_def in_flight_def)
qed

interpretation async_writer: machine "async_step f" "async_inv f"
  by unfold_locales (rule async_step_inv)


section \<open>A flush without interference\<close>

definition from_queue :: "(bool \<times> MemorySession) list \<Rightarrow> MemorySession list" where
  "from_queue items = map snd (filter fst items)"

definition from_cache :: "(bool \<times> MemorySession) list \<Rightarrow> MemorySession list" where
  "from_cache items = map snd (filter (Not \<circ> fst) items)"

lemma flushItems_loop:
  assumes "distinct (map ms_Key (fl_failedCache fl @ from_cache (fl_todo fl)))"
    and "flushItems f (fl, calls) = (fl', calls')"
  shows "\<exists>D Q C. deliveries f calls' = deliveries f calls @ D \<and> fl_Flushed fl' = fl_Flushed fl + int (length D)
    \<and> fl_failedQueue fl' = fl_failedQueue fl @ Q \<and> fl_failedCache fl' = fl_failedCache fl @ C
    \<and> subseq Q (from_queue (fl_todo fl)) \<and> subseq C (from_cache (fl_todo fl))
    \<and> mset D + mset Q + mset C = mset (map snd (fl_todo fl))
    \<and> fl_todo fl' = [] \<and> fl_cacheKeys fl' = fl_cacheKeys fl \<and> length calls' \<le> length calls + 2 * length (fl_todo fl)"
  using assms
proof (induction "fl_todo fl" arbitrary: fl calls)
  case Nil
  then show ?case by (auto simp: flushItems_def)
next
  case (Cons x rest)
  obtain q s where x: "x = (q, s)" by fastforce
  note t = Cons.hyps(2) [symmetric, unfolded x]
  obtain fl1 calls1 where st: "flushItem f (fl, calls) = (fl1, calls1)" by fastforce
  from flushItem_cases [OF t, of f calls] have todo: "fl_todo fl1 = rest" "fl_cacheKeys fl1 = fl_cacheKeys fl"
    by (cases, use st in \<open>auto split: if_splits\<close>)+
  have nxt: "flushItems f (fl1, calls1) = (fl', calls')"
    using Cons.prems(2) t todo st by (simp add: flushItems_def funpow_swap1)
  have key: "ms_Key s \<notin> ms_Key ` set (fl_failedCache fl)" if "\<not> q"
    using Cons.prems(1) that by (auto simp: t from_cache_def)
  have d: "distinct (map ms_Key (fl_failedCache fl1 @ from_cache (fl_todo fl1)))"
    using flushItem_cases [OF t, of f calls] key
    by cases (use st Cons.prems(1) todo(1) in \<open>auto simp: t from_cache_def tupsert_absent split: if_splits\<close>)
  from Cons.hyps(1) [OF todo(1) [symmetric] d nxt] obtain D Q C where ih:
    "deliveries f calls' = deliveries f calls1 @ D" "fl_Flushed fl' = fl_Flushed fl1 + int (length D)"
    "fl_failedQueue fl' = fl_failedQueue fl1 @ Q" "fl_failedCache fl' = fl_failedCache fl1 @ C"
    "subseq Q (from_queue rest)" "subseq C (from_cache rest)" "mset D + mset Q + mset C = mset (map snd rest)"
    "fl_todo fl' = []" "fl_cacheKeys fl' = fl_cacheKeys fl" "length calls' \<le> length calls1 + 2 * length rest"
    using todo by auto
  from flushItem_cases [OF t, of f calls] show ?case
  proof cases
    case (1 ev c)
    with st ih t show ?thesis
      by (intro exI [of _ "s # D"] exI [of _ Q] exI [of _ C]) (auto simp: from_queue_def from_cache_def)
  next
    case (2 ev c)
    show ?thesis
    proof (cases q)
      case True
      with 2 st ih t show ?thesis
        by (intro exI [of _ D] exI [of _ "s # Q"] exI [of _ C]) (auto simp: from_queue_def from_cache_def)
    next
      case False
      with 2 st ih t key show ?thesis
        by (intro exI [of _ D] exI [of _ Q] exI [of _ "s # C"]) (auto simp: from_queue_def from_cache_def tupsert_absent)
    qed
  qed
qed

lemma subseq_distinct: "subseq xs ys \<Longrightarrow> set xs \<subseteq> set ys \<and> (distinct ys \<longrightarrow> distinct xs)"
  by (induction rule: list_emb.induct) auto

lemma fold_cache_put_fresh:
  "distinct (map ms_Key (xs @ ys)) \<Longrightarrow> fold cache_put ys xs = xs @ ys"
  by (induction ys arbitrary: xs) (auto simp: tupsert_absent)


lemma new_system_inv: "async_inv f new_system"
  by (simp add: async_inv_def new_system_def)

text \<open>The turn counter and the flushed turns of a router that flushes every \<open>n\<close> turns.\<close>

lemma every_run:
  assumes "0 < n"
  shows "let r = fold (\<lambda>s r. snd (Save s r)) xs (NewRouter (frequency_every (int n) raw) (Some f) w) in
    rt_turn r = int (length xs) \<and> rt_frequency r = frequency_every (int n) raw \<and> rt_flusher r = Some f
    \<and> rt_calls r = map (\<lambda>j. xs ! (j * n - 1)) [1..<length xs div n + 1]"
proof (induction xs rule: rev_induct)
  case Nil
  then show ?case by (simp add: NewRouter_def frequency_every_def)
next
  case (snoc x xs)
  let ?r = "fold (\<lambda>s r. snd (Save s r)) xs (NewRouter (frequency_every (int n) raw) (Some f) w)"
  let ?m = "length xs"
  have ih: "rt_turn ?r = int ?m" "rt_frequency ?r = frequency_every (int n) raw" "rt_flusher ?r = Some f"
    "rt_calls ?r = map (\<lambda>j. xs ! (j * n - 1)) [1..<?m div n + 1]"
    using snoc.IH by (simp_all add: Let_def)
  have mod: "(rt_turn ?r + 1) mod int n = 0 \<longleftrightarrow> Suc ?m mod n = 0"
    using ih(1) by (metis of_nat_Suc of_nat_eq_0_iff zmod_int add.commute)
  have pre: "map (\<lambda>j. (xs @ [x]) ! (j * n - 1)) [1..<?m div n + 1] = map (\<lambda>j. xs ! (j * n - 1)) [1..<?m div n + 1]"
  proof (rule map_cong [OF refl])
    fix j assume "j \<in> set [1..<?m div n + 1]"
    then have j: "j \<le> ?m div n" "1 \<le> j" by auto
    then have "j * n \<le> ?m" by (metis assms less_eq_div_iff_mult_less_eq)
    moreover have "j * n \<noteq> 0" using j(2) assms by simp
    ultimately have "j * n - 1 < ?m" by (cases "j * n") auto
    then show "(xs @ [x]) ! (j * n - 1) = xs ! (j * n - 1)" by (simp add: nth_append)
  qed
  show ?case
  proof (cases "Suc ?m mod n = 0")
    case True
    then have d1: "Suc ?m div n = Suc (?m div n)" by (simp add: div_Suc)
    have d2: "Suc (?m div n) * n = Suc ?m"
      using div_mult_mod_eq [of "Suc ?m" n] unfolding True d1 by simp
    have last: "(xs @ [x]) ! (Suc (?m div n) * n - 1) = x" unfolding d2 by simp
    show ?thesis using True mod ih assms pre last
      by (simp add: Save_def route_flush_def Let_def frequency_every_def d1)
  next
    case False
    then have "Suc ?m div n = ?m div n" by (simp add: div_Suc)
    then show ?thesis using False mod ih assms pre by (simp add: Save_def Let_def frequency_every_def)
  qed
qed


lemma parsePositiveInt_solid:
  assumes "parsePositiveInt s = Some n"
  shows "s \<noteq> [] \<and> (\<forall>c \<in> set s. is_digit c \<or> c = CHR ''+'')"
proof -
  from assms have r: "ParseInt s = Inr n" "0 < n" by (auto simp: parsePositiveInt_def split: sum.splits if_splits)
  then obtain c t where s: "s = c # t" by (cases s) (auto simp: ParseInt_def)
  have c: "c \<noteq> CHR ''-''"
    using r by (auto simp: ParseInt_def parse_digits_def Let_def s split: if_splits)
  with r s show ?thesis by (auto simp: ParseInt_def parse_digits_def Let_def list_all_iff split: if_splits)
qed

lemma digit_plus_lower: "is_digit c \<or> c = CHR ''+'' \<Longrightarrow> is_ascii c \<and> ascii_lower c = c \<and> byte c < 128 \<and> \<not> space1 c"
  by (auto simp: is_digit_def is_ascii_def ascii_lower_def space1_def byte_def)

lemma number_stable:
  assumes "s \<noteq> []" "\<forall>c \<in> set s. is_digit c \<or> c = CHR ''+''"
  shows "to_lower ulow (trim_space s) = s"
proof -
  have h: "\<forall>c \<in> set s. is_ascii c \<and> ascii_lower c = c \<and> byte c < 128 \<and> \<not> space1 c"
    using assms(2) digit_plus_lower by blast
  with assms(1) have "trim_space s = s" by (intro trim_space_solid) auto
  moreover from h have "list_all is_ascii s" "map ascii_lower s = s" by (simp_all add: list_all_iff map_idI)
  ultimately show ?thesis by (simp add: to_lower_def)
qed

lemma number_no_mode: "\<forall>c \<in> set s. is_digit c \<or> c = CHR ''+'' \<Longrightarrow> s \<notin> {''async'', ''turn'', ''session''}"
  by (auto simp: is_digit_def byte_def)

lemma parse_number:
  assumes "parsePositiveInt s = Some n"
  shows "ParseFrequency ulow (RawString s) = frequency_every n s"
proof -
  note d = parsePositiveInt_solid [OF assms]
  from d number_stable [of s ulow] number_no_mode [of s] assms show ?thesis by (simp add: ParseFrequency_def Let_def)
qed

lemma parsePositiveInt_Decimal: "0 < n \<Longrightarrow> in_int64 n \<Longrightarrow> parsePositiveInt (Decimal n) = Some n"
  by (simp add: parsePositiveInt_def ParseInt_Decimal)

fun raw_in_range :: "raw_value \<Rightarrow> bool" where
  "raw_in_range (RawInt v) = in_int64 v"
| "raw_in_range (RawInt64 v) = in_int64 v"
| "raw_in_range _ = True"

lemma parse_modes:
  "ParseFrequency ulow (RawString ''async'') = frequency_mode ModeAsync ''async''"
  "ParseFrequency ulow (RawString ''turn'') = frequency_mode ModeTurn ''turn''"
  "ParseFrequency ulow (RawString ''session'') = frequency_mode ModeSession ''session''"
proof -
  have t: "trim_space ''async'' = ''async''" "trim_space ''turn'' = ''turn''" "trim_space ''session'' = ''session''"
    by code_simp+
  have "to_lower ulow ''async'' = ''async''" "to_lower ulow ''turn'' = ''turn''" "to_lower ulow ''session'' = ''session''"
    by (simp_all add: to_lower_def is_ascii_def ascii_lower_def byte_def)
  then show "ParseFrequency ulow (RawString ''async'') = frequency_mode ModeAsync ''async''"
    "ParseFrequency ulow (RawString ''turn'') = frequency_mode ModeTurn ''turn''"
    "ParseFrequency ulow (RawString ''session'') = frequency_mode ModeSession ''session''"
    by (simp_all add: ParseFrequency_def Let_def t)
qed

lemma parse_values:
  assumes "fq_Mode (ParseFrequency ulow x) \<noteq> ModeInvalid" "raw_in_range x"
  shows "(\<exists>v. x = RawString v) \<or> ParseFrequency ulow x = frequency_mode ModeAsync ''async''
    \<or> (\<exists>v. 0 < v \<and> in_int64 v \<and> ParseFrequency ulow x = frequency_every v (Decimal v))"
proof (cases x)
  case (RawFloat v)
  with assms have v: "v = of_int \<lfloor>v\<rfloor>" "0 < v" "in_int64 \<lfloor>v\<rfloor>"
    by (auto simp: ParseFrequency_def Let_def frequency_mode_def split: if_splits)
  then have "0 < \<lfloor>v\<rfloor>" by (metis of_int_0_less_iff)
  then show ?thesis using v
    by (intro disjI2 exI [of _ "\<lfloor>v\<rfloor>"]) (simp add: ParseFrequency_def RawFloat)
qed (use assms in \<open>auto simp: ParseFrequency_def Let_def frequency_mode_def split: if_splits\<close>)

section \<open>Properties\<close>

text \<open>
  C32. No queued session is lost: whatever the flusher answers and however enqueues, cache writes,
  flushes that overlap each other, their single calls of the flusher and the shutdown are interleaved, the sessions
  whose \<open>Enqueue\<close> was accepted are, with their multiplicity, among those in the queue, held by a
  flush in flight, or persisted by the flusher; once no flush is in flight, queued or persisted.
\<close>

theorem queued_sessions_kept:
  "mset (asy_accepted (fold (async_step f) es new_system))
     \<subseteq># mset (aw_queue (asy_writer (fold (async_step f) es new_system))) + in_flight (fold (async_step f) es new_system)
        + mset (deliveries f (asy_calls (fold (async_step f) es new_system)))"
  using async_writer.run_inv [OF new_system_inv, of f es] by (simp add: async_inv_def)

text \<open>
  A flush that nothing overlaps accounts for every pending session: each queued or cached session
  is either persisted or pending again, exactly once; what is queued again keeps its order; the
  reported number is the number persisted, the code is \<open>Flushed\<close> exactly when nothing is pending, and
  the flusher is called at most twice per session.
\<close>

theorem flush_all_accounts:
  assumes "unique_keys ms_Key (aw_cache w)" "mset (ord (aw_cache w)) = mset (aw_cache w)"
    and "FlushAll f ord (w, calls) = (r, w', calls')"
  shows "\<exists>D. deliveries f calls' = deliveries f calls @ D \<and> as_Flushed r = int (length D)
    \<and> mset D + mset (aw_queue w') + mset (aw_cache w') = mset (aw_queue w) + mset (aw_cache w)
    \<and> subseq (aw_queue w') (aw_queue w) \<and> as_Pending r = pending w'
    \<and> (as_Code r = AsyncFlushed \<longleftrightarrow> pending w' = 0) \<and> length calls' \<le> length calls + 2 * nat (pending w)"
proof -
  let ?s = "flushSnapshot ord w"
  obtain fl c where l: "flushItems f (fst ?s, calls) = (fl, c)" by fastforce
  have todo: "fl_todo (fst ?s) = map (Pair True) (aw_queue w) @ map (Pair False) (ord (aw_cache w))"
    "fl_failedCache (fst ?s) = []" "fl_failedQueue (fst ?s) = []" "fl_Flushed (fst ?s) = 0"
    "fl_cacheKeys (fst ?s) = map ms_Key (ord (aw_cache w))" by (simp_all add: flushSnapshot_def)
  have q: "from_queue (fl_todo (fst ?s)) = aw_queue w" "from_cache (fl_todo (fst ?s)) = ord (aw_cache w)"
    by (simp_all add: todo from_queue_def from_cache_def filter_map comp_def)
  have keys: "distinct (map ms_Key (ord (aw_cache w)))"
    using assms(1,2) by (metis mset_eq_imp_distinct_iff mset_map unique_keys_def)
  from flushItems_loop [of "fst ?s", OF _ l] keys todo q obtain D Q C where d:
    "deliveries f c = deliveries f calls @ D" "fl_Flushed fl = int (length D)" "fl_failedQueue fl = Q" "fl_failedCache fl = C"
    "subseq Q (aw_queue w)" "subseq C (ord (aw_cache w))" "fl_cacheKeys fl = map ms_Key (ord (aw_cache w))"
    "mset D + mset Q + mset C = mset (aw_queue w) + mset (aw_cache w)" "length c \<le> length calls + 2 * nat (pending w)"
    by (auto simp: assms(2) comp_def pending_def nat_add_distrib mset_eq_length [OF assms(2)])
  have gone: "tdelete (\<lambda>r. ms_Key r \<in> set (map ms_Key (ord (aw_cache w)))) (aw_cache w) = []"
    using mset_eq_setD [OF assms(2)] by (auto simp: tdelete_def filter_empty_conv)
  have C: "fold cache_put C [] = C"
    using fold_cache_put_fresh [of "[]" C] subseq_map [OF d(6), of ms_Key] keys by (auto dest: subseq_distinct)
  from assms(3) have "w' = snd (flushCommit fl (snd ?s))" "r = fst (flushCommit fl (snd ?s))" "calls' = c"
    by (simp_all add: FlushAll_def Let_def split_beta l)
  moreover have "aw_queue (snd ?s) = []" "aw_cache (snd ?s) = aw_cache w" by (simp_all add: flushSnapshot_def)
  ultimately have "aw_queue w' = Q" "aw_cache w' = C" "as_Flushed r = int (length D)" "as_Pending r = pending w'"
    "as_Code r = AsyncFlushed \<longleftrightarrow> pending w' = 0" "calls' = c"
    using d C gone by (auto simp: flushCommit_def Let_def pending_def)
  with d show ?thesis by (intro exI [of _ D]) simp
qed

text \<open>
  A session cached while a flush of an older session with the same key is in flight is lost: when
  the flusher persists the older one the newer is deleted with it, when the flusher fails it is
  overwritten by the older one; either way the newer session is neither pending nor persisted.
\<close>

theorem cached_during_flush_lost:
  assumes "ms_Key old = ms_Key new" "old \<noteq> new"
    and "y = fold (async_step (Some (\<lambda>_ _. ok))) ([EvCache old, EvSnapshot (\<lambda>c. c), EvCache new, EvFlushCall 0] @ (if ok then [] else [EvFlushCall 0]) @ [EvCommit 0]) new_system"
  shows "new \<notin> set (aw_queue (asy_writer y)) \<and> new \<notin> set (aw_cache (asy_writer y)) \<and> asy_flights y = []
    \<and> new \<notin> set (delivered (\<lambda>_ _. ok) (asy_calls y))"
proof -
  have "asy_flights y = [] \<and> aw_queue (asy_writer y) = [] \<and> aw_cache (asy_writer y) = (if ok then [] else [old])
      \<and> set (asy_calls y) \<subseteq> {old}"
    using assms by (cases ok) (simp_all add: new_system_def NewWriter_def Cache_def flushSnapshot_def flushCall_def
      flushCommit_def remove_nth_def tdelete_def Let_def)
  moreover have "set (delivered (\<lambda>_ _. ok) (asy_calls y)) \<subseteq> set (asy_calls y)" by (auto simp: delivered_def split: if_splits)
  ultimately show ?thesis using assms(2) by (auto split: if_splits)
qed

text \<open>
  A router with the frequency \<open>n\<close> hands to the flusher exactly every \<open>n\<close>-th saved session, in
  order: the sessions at the turns \<open>n\<close>, \<open>2n\<close> and so on, whatever the flusher answers.
\<close>

theorem every_nth_flushed:
  assumes "0 < n"
  shows "rt_calls (fold (\<lambda>s r. snd (Save s r)) xs (NewRouter (frequency_every (int n) raw) (Some f) w))
    = map (\<lambda>j. xs ! (j * n - 1)) [1..<length xs div n + 1]"
  using every_run [OF assms, of xs raw f w] by (simp add: Let_def)

text \<open>
  The canonical text of a valid write frequency parses back to the same frequency: \<open>Parse\<close> of
  \<open>Raw\<close> is the identity on what \<open>Parse\<close> accepted, for numbers of every kind and for every spelling.
\<close>

theorem frequency_roundtrip:
  assumes "fq_Mode (ParseFrequency ulow x) \<noteq> ModeInvalid" "raw_in_range x"
  shows "ParseFrequency ulow (RawString (fq_Raw (ParseFrequency ulow x))) = ParseFrequency ulow x"
proof -
  have n: "ParseFrequency ulow (RawString (Decimal v)) = frequency_every v (Decimal v)" if "0 < v" "in_int64 v" for v
    using that by (simp add: parse_number parsePositiveInt_Decimal)
  have f: "fq_Raw (frequency_every v t) = t" "fq_Raw (frequency_mode m t) = t"
    "fq_Mode (frequency_mode m t) = m" for v t m by (simp_all add: frequency_every_def frequency_mode_def)
  show ?thesis
  proof (cases x)
    case (RawString v)
    let ?t = "to_lower ulow (trim_space v)"
    consider "?t \<in> {[], ''async'', ''turn'', ''session''}" | m where "parsePositiveInt ?t = Some m"
      "?t \<notin> {[], ''async'', ''turn'', ''session''}"
      using assms(1) by (cases "parsePositiveInt ?t") (auto simp: ParseFrequency_def RawString Let_def f split: if_splits)
    then show ?thesis
    proof cases
      case 1
      then have "ParseFrequency ulow x \<in> {frequency_mode ModeAsync ''async'', frequency_mode ModeTurn ''turn'',
          frequency_mode ModeSession ''session''}"
        by (auto simp: ParseFrequency_def RawString Let_def)
      then show ?thesis using parse_modes [of ulow] by (auto simp: f)
    next
      case (2 m)
      then have "ParseFrequency ulow x = frequency_every m ?t" by (simp add: ParseFrequency_def RawString Let_def)
      with parse_number [OF 2(1)] show ?thesis by (simp add: f)
    qed
  qed (use parse_values [OF assms] n parse_modes [of ulow] f in auto)
qed


section \<open>Witnesses\<close>

definition sample_session :: "string \<Rightarrow> MemorySession" where
  "sample_session user = \<lparr>ms_Key = ''k'', ms_UserPeerID = user, ms_AssistantPeerID = ''a'', ms_HonchoSessionID = ''h'', ms_Messages = []\<rparr>"

definition sample_writer :: writer where
  "sample_writer = \<lparr>aw_queue = [sample_session ''u'', sample_session ''v''], aw_cache = [sample_session ''w''], aw_closed = False\<rparr>"

theorem flush_all_accounts_witness:
  "\<exists>D. mset D + mset (aw_queue (fst (snd (FlushAll (Some (\<lambda>c s. length c > 1)) (\<lambda>c. c) (sample_writer, [])))))
     + mset (aw_cache (fst (snd (FlushAll (Some (\<lambda>c s. length c > 1)) (\<lambda>c. c) (sample_writer, [])))))
     = mset (aw_queue sample_writer) + mset (aw_cache sample_writer)"
proof -
  obtain r w c where e: "FlushAll (Some (\<lambda>c s. length c > 1)) (\<lambda>c. c) (sample_writer, []) = (r, w, c)"
    by (metis prod.exhaust)
  have "unique_keys ms_Key (aw_cache sample_writer)" by code_simp
  from flush_all_accounts [OF this refl e] e show ?thesis by auto
qed

theorem cached_during_flush_lost_witness:
  "sample_session ''v'' \<notin> set (aw_cache (asy_writer (fold (async_step (Some (\<lambda>_ _. True))) [EvCache (sample_session ''u''), EvSnapshot (\<lambda>c. c),
      EvCache (sample_session ''v''), EvFlushCall 0, EvCommit 0] new_system)))"
proof -
  have "ms_Key (sample_session ''u'') = ms_Key (sample_session ''v'')" "sample_session ''u'' \<noteq> sample_session ''v''"
    by (simp_all add: sample_session_def)
  from cached_during_flush_lost [OF this refl, of True] show ?thesis by simp
qed

theorem every_nth_flushed_witness:
  "rt_calls (fold (\<lambda>s r. snd (Save s r)) (map sample_session [''a'', ''b'', ''c'', ''d'', ''e''])
     (NewRouter (frequency_every (int 2) ''2'') (Some (\<lambda>_ _. False)) None)) = [sample_session ''b'', sample_session ''d'']"
  by (subst every_nth_flushed) (simp, code_simp)

theorem frequency_roundtrip_witness:
  "ParseFrequency (\<lambda>s. s) (RawString (fq_Raw (ParseFrequency (\<lambda>s. s) (RawString '' +012 '')))) = ParseFrequency (\<lambda>s. s) (RawString '' +012 '')"
proof (rule frequency_roundtrip)
  show "fq_Mode (ParseFrequency (\<lambda>s. s) (RawString '' +012 '')) \<noteq> ModeInvalid" by code_simp
qed simp

end
