(* ===== verification/PluginConfig.thy ===== *)
theory PluginConfig
  imports PluginWrites Scope
begin

text \<open>
  The configuration of the host plugin (\<open>internal/pluginruntime/config.go\<close>) and its identifiers
  (\<open>internal/pluginruntime/ids\<close>).  A configuration value is what decoding JSON or YAML leaves in an
  \<open>any\<close>: \<open>cfg_value\<close>, with the values the code's type switches tell apart; an object is a list of
  pairs with different keys.  \<open>hostOf\<close> is \<open>url.Parse\<close> (\<open>None\<close> an error, else the host part), \<open>ulow\<close>
  the Unicode part of \<open>strings.ToLower\<close>, \<open>sha\<close> the SHA-256 function.
\<close>

section \<open>Identifiers (\<open>ids.go\<close>)\<close>

definition safe_char :: "char \<Rightarrow> bool" where
  "safe_char c \<longleftrightarrow> (97 \<le> byte c \<and> byte c \<le> 122) \<or> (65 \<le> byte c \<and> byte c \<le> 90) \<or> is_digit c \<or> c = CHR ''_'' \<or> c = CHR ''-''"

text \<open>
  \<open>unsafe.ReplaceAllString(value, "-")\<close>: each maximal run of unsafe runes becomes one hyphen.  Every
  byte of a multi-byte rune is unsafe, so the runs are those of bytes.
\<close>

fun replace_unsafe :: "bool \<Rightarrow> string \<Rightarrow> string" where
  "replace_unsafe run [] = []"
| "replace_unsafe run (c # s) =
     (if safe_char c then c # replace_unsafe False s
      else if run then replace_unsafe True s else CHR ''-'' # replace_unsafe True s)"

definition Sanitize :: "string \<Rightarrow> string" where
  "Sanitize raw =
     (let value = trim_space raw in
      if value = [] then [] else trim_chars ''-'' (replace_unsafe False value))"

definition trim_right :: "char list \<Rightarrow> string \<Rightarrow> string" where
  "trim_right cs s = rev (dropWhile (\<lambda>c. c \<in> set cs) (rev s))"

definition EnforceLimit :: "(string \<Rightarrow> string) \<Rightarrow> string \<Rightarrow> string \<Rightarrow> int \<Rightarrow> string" where
  "EnforceLimit sha sanitized original maxLen =
     (let hashLen = 12 in
      if maxLen \<le> hashLen + 1 \<or> int (length sanitized) \<le> maxLen then sanitized
      else let digest = take (nat hashLen) (hex_bytes (sha original)); prefixLen = maxLen - hashLen - 1 in
        trim_right ''-'' (take (nat prefixLen) sanitized) @ ''-'' @ digest)"

section \<open>Configuration values\<close>

datatype cfg_value = CNull | CBool bool | CStr string | CStringer string | CInt int | CInt64 int | CFloat rat
  | CMap "(string \<times> cfg_value) list" | COther

type_synonym cfg_map = "(string \<times> cfg_value) list"

text \<open>The value under a key of a Go map: a missing key gives nil.\<close>

definition cfg_get :: "cfg_map \<Rightarrow> string \<Rightarrow> cfg_value" where
  "cfg_get m k = (case map_of m k of None \<Rightarrow> CNull | Some v \<Rightarrow> v)"

definition to_raw :: "cfg_value \<Rightarrow> raw_value" where
  "to_raw v = (case v of CNull \<Rightarrow> RawNil | CStr s \<Rightarrow> RawString s | CInt n \<Rightarrow> RawInt n | CInt64 n \<Rightarrow> RawInt64 n
     | CFloat q \<Rightarrow> RawFloat q | _ \<Rightarrow> RawOther)"

definition pluginHostBlock :: "cfg_map \<Rightarrow> string \<Rightarrow> cfg_map option" where
  "pluginHostBlock raw host =
     (case cfg_get raw ''hosts'' of
        CMap hosts \<Rightarrow> (case cfg_get hosts host of CMap block \<Rightarrow> Some block | _ \<Rightarrow> None)
      | _ \<Rightarrow> None)"

definition firstConfigAny :: "cfg_map option \<Rightarrow> cfg_map \<Rightarrow> string \<Rightarrow> cfg_value \<Rightarrow> cfg_value" where
  "firstConfigAny hostCfg raw key fallback =
     (case (case hostCfg of None \<Rightarrow> None | Some h \<Rightarrow> map_of h key) of
        Some value \<Rightarrow> value
      | None \<Rightarrow> (case map_of raw key of Some value \<Rightarrow> value | None \<Rightarrow> fallback))"

definition configString :: "cfg_value \<Rightarrow> string option" where
  "configString v = (case v of CStr s \<Rightarrow> Some (trim_space s) | CStringer s \<Rightarrow> Some (trim_space s) | _ \<Rightarrow> None)"

definition configBool :: "(string \<Rightarrow> string) \<Rightarrow> cfg_value \<Rightarrow> bool option" where
  "configBool ulow v =
     (case v of
        CBool b \<Rightarrow> Some b
      | CStr s \<Rightarrow>
          let t = to_lower ulow (trim_space s) in
          if t \<in> {''true'', ''1'', ''yes'', ''on''} then Some True
          else if t \<in> {''false'', ''0'', ''no'', ''off''} then Some False
          else None
      | _ \<Rightarrow> None)"

definition firstConfigString :: "cfg_map option \<Rightarrow> cfg_map \<Rightarrow> string \<Rightarrow> string \<Rightarrow> string" where
  "firstConfigString hostCfg raw key fallback =
     (case configString (firstConfigAny hostCfg raw key (CStr fallback)) of Some s \<Rightarrow> s | None \<Rightarrow> fallback)"

text \<open>A nonempty string under a key, as the source-tracking lookups test it.\<close>

definition config_nonempty :: "cfg_map \<Rightarrow> string \<Rightarrow> string option" where
  "config_nonempty m key =
     (case configString (cfg_get m key) of Some v \<Rightarrow> if v \<noteq> [] then Some v else None | None \<Rightarrow> None)"

fun config_first :: "cfg_map \<Rightarrow> string list \<Rightarrow> string option" where
  "config_first m [] = None"
| "config_first m (k # ks) = (case config_nonempty m k of Some v \<Rightarrow> Some v | None \<Rightarrow> config_first m ks)"

definition env_get :: "(string \<times> string) list \<Rightarrow> string \<Rightarrow> string" where
  "env_get env k = (case map_of env k of None \<Rightarrow> [] | Some v \<Rightarrow> v)"

definition firstConfigStringWithSource2 :: "cfg_map option \<Rightarrow> cfg_map \<Rightarrow> (string \<times> string) list \<Rightarrow> string list \<Rightarrow> string
    \<Rightarrow> string \<times> string" where
  "firstConfigStringWithSource2 hostCfg raw env keys envKey =
     (case (case hostCfg of None \<Rightarrow> None | Some h \<Rightarrow> config_first h keys) of
        Some v \<Rightarrow> (v, ''host'')
      | None \<Rightarrow>
     (case config_first raw keys of
        Some v \<Rightarrow> (v, ''root'')
      | None \<Rightarrow> let v = trim_space (env_get env envKey) in if v \<noteq> [] then (v, ''env'') else ([], [])))"

definition firstConfigStringWithSource :: "cfg_map option \<Rightarrow> cfg_map \<Rightarrow> (string \<times> string) list \<Rightarrow> string \<Rightarrow> string
    \<Rightarrow> string \<times> string" where
  "firstConfigStringWithSource hostCfg raw env key envKey =
     (case (case hostCfg of None \<Rightarrow> None | Some h \<Rightarrow> config_nonempty h key) of
        Some v \<Rightarrow> (v, ''host'')
      | None \<Rightarrow>
     (case config_nonempty raw key of
        Some v \<Rightarrow> (v, ''root'')
      | None \<Rightarrow> let v = trim_space (env_get env envKey) in if v \<noteq> [] then (v, ''env'') else ([], [])))"

definition firstConfigBool :: "(string \<Rightarrow> string) \<Rightarrow> cfg_map option \<Rightarrow> cfg_map \<Rightarrow> string \<Rightarrow> bool \<Rightarrow> bool" where
  "firstConfigBool ulow hostCfg raw key fallback =
     (case (case hostCfg of None \<Rightarrow> None | Some h \<Rightarrow> configBool ulow (cfg_get h key)) of
        Some b \<Rightarrow> b
      | None \<Rightarrow> (case configBool ulow (cfg_get raw key) of Some b \<Rightarrow> b | None \<Rightarrow> fallback))"

definition rawStringMap :: "cfg_value \<Rightarrow> (string \<times> string) list" where
  "rawStringMap value =
     (case value of
        CMap raw \<Rightarrow> concat (map (\<lambda>(k, v). case configString v of Some s \<Rightarrow> if s \<noteq> [] then [(k, s)] else [] | None \<Rightarrow> []) raw)
      | _ \<Rightarrow> [])"

text \<open>The entries of the host block go over those of the root; an empty map stands for nil.\<close>

definition pluginSessionsMap :: "cfg_map option \<Rightarrow> cfg_map \<Rightarrow> (string \<times> string) list" where
  "pluginSessionsMap hostCfg raw =
     (case hostCfg of None \<Rightarrow> [] | Some h \<Rightarrow> rawStringMap (cfg_get h ''sessions'')) @ rawStringMap (cfg_get raw ''sessions'')"

definition contains_char :: "char \<Rightarrow> string \<Rightarrow> bool" where
  "contains_char c s \<longleftrightarrow> c \<in> set s"

definition plausibleHonchoBaseURL :: "(string \<Rightarrow> string) \<Rightarrow> (string \<Rightarrow> string option) \<Rightarrow> string \<Rightarrow> bool" where
  "plausibleHonchoBaseURL ulow hostOf raw =
     (let value = trim_space raw; lower = to_lower ulow value in
      if value = [] then False
      else if lower \<in> {''true'', ''false'', ''null'', ''localhost''} then False
      else if is_ok (ParseInt value) then False
      else if has_prefix lower ''file:'' \<or> has_prefix lower ''ftp:'' \<or> has_prefix lower ''ws:'' then False
      else if has_prefix lower ''http://'' \<or> has_prefix lower ''https://''
        then (case hostOf value of None \<Rightarrow> False | Some host \<Rightarrow> host \<noteq> [])
      else contains_char (CHR ''.'') value \<or> contains_char (CHR '':'') value)"

section \<open>The resolved configuration\<close>

datatype config_code = ConfigBaseURLInvalid | ConfigLocalBaseURL

record PluginConfigInput =
  pi_Host :: string
  pi_Raw :: cfg_map
  pi_Env :: "(string \<times> string) list"

record PluginConfig =
  pc_Host :: string
  pc_WorkspaceID :: string
  pc_APIKey :: string
  pc_APIKeySource :: string
  pc_Environment :: string
  pc_BaseURL :: string
  pc_PeerName :: string
  pc_AIPeer :: string
  pc_PinPeerName :: bool
  pc_Enabled :: bool
  pc_SaveMessages :: bool
  pc_WriteFrequency :: Frequency
  pc_SessionStrategy :: string
  pc_SessionPeerPrefix :: bool
  pc_Sessions :: "(string \<times> string) list"
  pc_Raw :: cfg_map
  pc_Evidence :: "config_code list"

definition ResolvePluginConfig :: "(string \<Rightarrow> string) \<Rightarrow> (string \<Rightarrow> string option) \<Rightarrow> PluginConfigInput \<Rightarrow> PluginConfig" where
  "ResolvePluginConfig ulow hostOf input =
     (let host = (if trim_space (pi_Host input) = [] then ''hermes'' else trim_space (pi_Host input));
          raw = pi_Raw input; env = pi_Env input; hostCfg = pluginHostBlock raw host;
          (key, source) = firstConfigStringWithSource hostCfg raw env ''apiKey'' ''HONCHO_API_KEY'';
          (baseURL, _) = firstConfigStringWithSource2 hostCfg raw env [''baseUrl'', ''base_url''] ''HONCHO_BASE_URL'';
          onlyURL = (key = [] \<and> trim_space baseURL \<noteq> []);
          plausible = plausibleHonchoBaseURL ulow hostOf baseURL;
          baseURLInvalid = (onlyURL \<and> \<not> plausible);
          apiKey = (if onlyURL \<and> plausible then ''local'' else key);
          enabled = firstConfigBool ulow hostCfg raw ''enabled'' (apiKey \<noteq> [] \<or> baseURL \<noteq> []) in
      \<lparr>pc_Host = host,
       pc_WorkspaceID = firstConfigString hostCfg raw ''workspace'' host,
       pc_APIKey = apiKey,
       pc_APIKeySource = (if onlyURL \<and> plausible then ''base_url'' else source),
       pc_Environment = firstConfigString hostCfg raw ''environment'' ''production'',
       pc_BaseURL = baseURL,
       pc_PeerName = firstConfigString hostCfg raw ''peerName'' [],
       pc_AIPeer = firstConfigString hostCfg raw ''aiPeer'' host,
       pc_PinPeerName = firstConfigBool ulow hostCfg raw ''pinPeerName'' False,
       pc_Enabled = (enabled \<and> \<not> (baseURLInvalid \<and> apiKey = [])),
       pc_SaveMessages = firstConfigBool ulow hostCfg raw ''saveMessages'' True,
       pc_WriteFrequency = ParseFrequency ulow (to_raw (firstConfigAny hostCfg raw ''writeFrequency'' (CStr ''async''))),
       pc_SessionStrategy = firstConfigString hostCfg raw ''sessionStrategy'' ''per-directory'',
       pc_SessionPeerPrefix = firstConfigBool ulow hostCfg raw ''sessionPeerPrefix'' False,
       pc_Sessions = pluginSessionsMap hostCfg raw,
       pc_Raw = raw,
       pc_Evidence = (if onlyURL then [if plausible then ConfigLocalBaseURL else ConfigBaseURLInvalid] else [])\<rparr>)"

section \<open>Session and peer names\<close>

record SessionNameInput =
  si_CWD :: string
  si_Title :: string
  si_SessionID :: string
  si_GatewaySessionKey :: string

definition withPluginPeerPrefix :: "PluginConfig \<Rightarrow> string \<Rightarrow> string" where
  "withPluginPeerPrefix cfg value0 =
     (let value = trim_space value0 in
      if value = [] then []
      else if pc_SessionPeerPrefix cfg \<and> trim_space (pc_PeerName cfg) \<noteq> [] then Sanitize (pc_PeerName cfg) @ ''-'' @ value
      else value)"

definition enforcePluginSessionIDLimit :: "(string \<Rightarrow> string) \<Rightarrow> string \<Rightarrow> string \<Rightarrow> string" where
  "enforcePluginSessionIDLimit sha sanitized original = EnforceLimit sha sanitized original 120"

text \<open>\<open>filepath.Base\<close> on a Unix path.\<close>

definition base_name :: "string \<Rightarrow> string" where
  "base_name path =
     (let p = trim_right ''/'' path in
      if path = [] then ''.'' else if p = [] then ''/'' else rev (takeWhile (\<lambda>c. c \<noteq> CHR ''/'') (rev p)))"

definition ResolvePluginSessionName :: "(string \<Rightarrow> string) \<Rightarrow> PluginConfig \<Rightarrow> SessionNameInput \<Rightarrow> string" where
  "ResolvePluginSessionName sha cfg input =
     (let cwd = (if trim_space (si_CWD input) = [] then ''.'' else trim_space (si_CWD input));
          manual = trim_space (env_get (pc_Sessions cfg) cwd);
          title = Sanitize (si_Title input); key = Sanitize (si_GatewaySessionKey input);
          strategy = (if trim_space (pc_SessionStrategy cfg) = [] then ''per-directory'' else trim_space (pc_SessionStrategy cfg)) in
      if manual \<noteq> [] then manual
      else if title \<noteq> [] then withPluginPeerPrefix cfg title
      else if key \<noteq> [] then enforcePluginSessionIDLimit sha key (si_GatewaySessionKey input)
      else if strategy = ''per-session'' \<and> trim_space (si_SessionID input) \<noteq> []
        then withPluginPeerPrefix cfg (trim_space (si_SessionID input))
      else if strategy = ''global''
        then (let workspace = Sanitize (pc_WorkspaceID cfg) in if workspace \<noteq> [] then workspace else ''gormes'')
      else withPluginPeerPrefix cfg (Sanitize (base_name cwd)))"

record PluginPeerInput =
  pp_Config :: PluginConfig
  pp_RuntimeUserPeerName :: string
  pp_SessionKey :: string

record PluginPeerResolution =
  pr_UserPeerID :: string
  pr_AssistantPeerID :: string

text \<open>\<open>strings.SplitN(key, ":", 2)\<close>: channel and chat, when there is a colon.\<close>

definition split_channel :: "string \<Rightarrow> string \<times> string" where
  "split_channel key =
     (if contains_char (CHR '':'') key
      then (takeWhile (\<lambda>c. c \<noteq> CHR '':'') key, drop (Suc (length (takeWhile (\<lambda>c. c \<noteq> CHR '':'') key))) key)
      else (''default'', key))"

definition ResolvePluginPeerNames :: "PluginPeerInput \<Rightarrow> PluginPeerResolution" where
  "ResolvePluginPeerNames input =
     (let cfg = pp_Config input;
          pinPeerName = (pc_PinPeerName cfg \<and> trim_space (pc_PeerName cfg) \<noteq> []);
          user = (if trim_space (pp_RuntimeUserPeerName input) \<noteq> [] \<and> \<not> pinPeerName then pp_RuntimeUserPeerName input
                  else if trim_space (pc_PeerName cfg) \<noteq> [] then pc_PeerName cfg
                  else let (channel, chat) = split_channel (pp_SessionKey input) in ''user-'' @ channel @ ''-'' @ chat);
          assistant = (if trim_space (pc_AIPeer cfg) = [] then ''hermes-assistant'' else trim_space (pc_AIPeer cfg)) in
      \<lparr>pr_UserPeerID = Sanitize user, pr_AssistantPeerID = Sanitize assistant\<rparr>)"

section \<open>Lemmas\<close>

lemma safe_char_solid: "safe_char c \<Longrightarrow> byte c < 128 \<and> \<not> space1 c"
  by (auto simp: safe_char_def is_digit_def space1_def byte_def)

lemma safe_hyphen [simp]: "safe_char (CHR ''-'')"
  by (simp add: safe_char_def)

lemma replace_unsafe_safe: "list_all safe_char (replace_unsafe run s)"
  by (induction run s rule: replace_unsafe.induct) auto

lemma replace_unsafe_stable: "list_all safe_char s \<Longrightarrow> replace_unsafe run s = s"
  by (induction s arbitrary: run) auto

text \<open>Only hyphens are added, and every safe character is kept.\<close>

lemma replace_unsafe_set:
  "set (replace_unsafe run s) \<subseteq> insert (CHR ''-'') (set s) \<and> {c \<in> set s. safe_char c} \<subseteq> set (replace_unsafe run s)"
  by (induction run s rule: replace_unsafe.induct) auto

lemma Sanitize_safe: "list_all safe_char (Sanitize raw)"
  using replace_unsafe_safe [of False "trim_space raw"] set_trim_chars [of "''-''" "replace_unsafe False (trim_space raw)"]
  by (auto simp: Sanitize_def Let_def list_all_iff)

lemma Sanitize_ends: "Sanitize raw = [] \<or> (hd (Sanitize raw) \<noteq> CHR ''-'' \<and> last (Sanitize raw) \<noteq> CHR ''-'')"
  using trim_chars_ends [of "''-''" "replace_unsafe False (trim_space raw)"] by (auto simp: Sanitize_def Let_def)

lemma safe_trim: "list_all safe_char s \<Longrightarrow> trim_space s = s"
  by (cases "s = []") (auto intro!: trim_space_solid simp: list_all_iff dest: safe_char_solid)

lemma Sanitize_stable:
  assumes "list_all safe_char s" "s = [] \<or> (hd s \<noteq> CHR ''-'' \<and> last s \<noteq> CHR ''-'')"
  shows "Sanitize s = s"
  using trim_chars_stable [of s "''-''"] assms
  by (simp add: Sanitize_def Let_def safe_trim replace_unsafe_stable)

lemma length_trim_right: "length (trim_right cs s) \<le> length s"
  by (simp add: trim_right_def) (metis length_dropWhile_le length_rev)

lemma set_trim_right: "set (trim_right cs s) \<subseteq> set s"
  by (auto simp: trim_right_def dest: set_dropWhileD)

lemma safe_hex_digit: "n < 16 \<Longrightarrow> safe_char (hex_digit n)"
  by (auto simp: safe_char_def hex_digit_def is_digit_def byte_char_of)

lemma hex_bytes_safe: "list_all safe_char (hex_bytes s)"
  by (induction s) (simp_all add: hex_bytes_def safe_hex_digit byte_def of_char_def)

lemma EnforceLimit_le:
  assumes "13 < maxLen"
  shows "int (length (EnforceLimit sha s original maxLen)) \<le> maxLen"
proof -
  have "length (trim_right ''-'' (take (nat (maxLen - 13)) s)) \<le> nat (maxLen - 13)"
    using length_trim_right [of "''-''" "take (nat (maxLen - 13)) s"] by simp
  moreover have "length (take 12 (hex_bytes (sha original))) \<le> 12" by simp
  ultimately show ?thesis using assms by (simp add: EnforceLimit_def Let_def) linarith
qed

lemma EnforceLimit_safe: "list_all safe_char s \<Longrightarrow> list_all safe_char (EnforceLimit sha s original maxLen)"
  using hex_bytes_safe [of "sha original"] set_trim_right [of "''-''" "take (nat (maxLen - 13)) s"]
  by (auto simp: EnforceLimit_def Let_def list_all_iff dest: in_set_takeD)

lemma Sanitize_empty:
  "Sanitize raw = [] \<longleftrightarrow> (\<forall>c \<in> set (trim_space raw). safe_char c \<longrightarrow> c = CHR ''-'')"
proof -
  have "set (replace_unsafe False (trim_space raw)) \<subseteq> {CHR ''-''}
      \<longleftrightarrow> (\<forall>c \<in> set (trim_space raw). safe_char c \<longrightarrow> c = CHR ''-'')"
    using replace_unsafe_set [of False "trim_space raw"] replace_unsafe_safe [of False "trim_space raw"]
    by (fastforce simp: list_all_iff)
  then show ?thesis by (simp add: Sanitize_def Let_def trim_chars_empty)
qed

lemma withPluginPeerPrefix_safe:
  "list_all safe_char v \<Longrightarrow> list_all safe_char (withPluginPeerPrefix cfg v)"
  by (simp add: withPluginPeerPrefix_def Let_def safe_trim Sanitize_safe)

section \<open>Properties\<close>

text \<open>
  A sanitised identifier has only letters, digits, underscores and hyphens, neither starts nor ends
  with a hyphen, and is stable under sanitising again; it is empty exactly for a label without a letter,
  a digit or an underscore, so all such labels share the empty identifier.
\<close>

theorem sanitize_canonical:
  "list_all safe_char (Sanitize raw) \<and> Sanitize (Sanitize raw) = Sanitize raw
   \<and> (Sanitize raw = [] \<or> hd (Sanitize raw) \<noteq> CHR ''-'' \<and> last (Sanitize raw) \<noteq> CHR ''-'')
   \<and> (Sanitize raw = [] \<longleftrightarrow> (\<forall>c \<in> set (trim_space raw). safe_char c \<longrightarrow> c = CHR ''-''))"
  using Sanitize_safe [of raw] Sanitize_ends [of raw] Sanitize_stable [OF Sanitize_safe Sanitize_ends] Sanitize_empty [of raw]
  by blast

text \<open>
  Session names: a configured name for the working directory is used as it is; the name made from a
  title, a gateway key, the workspace or the directory has only safe characters, and the one made from a
  gateway key has at most 120 of them and is the sanitised key when that is short enough; only a
  per-session identifier is passed on unsanitised.
\<close>

theorem session_name_safe:
  assumes "name = ResolvePluginSessionName sha cfg input"
    and "manual = trim_space (env_get (pc_Sessions cfg) (if trim_space (si_CWD input) = [] then ''.'' else trim_space (si_CWD input)))"
  shows "(manual \<noteq> [] \<longrightarrow> name = manual)
    \<and> (manual = [] \<and> (trim_space (pc_SessionStrategy cfg) \<noteq> ''per-session'' \<or> trim_space (si_SessionID input) = []
         \<or> Sanitize (si_Title input) \<noteq> [] \<or> Sanitize (si_GatewaySessionKey input) \<noteq> []) \<longrightarrow> list_all safe_char name)
    \<and> (manual = [] \<and> Sanitize (si_Title input) = [] \<and> Sanitize (si_GatewaySessionKey input) \<noteq> [] \<longrightarrow> length name \<le> 120
         \<and> (length (Sanitize (si_GatewaySessionKey input)) \<le> 120 \<longrightarrow> name = Sanitize (si_GatewaySessionKey input)))"
proof -
  have g: "list_all safe_char ''gormes''" by (simp add: safe_char_def byte_def)
  have p: "list_all safe_char (withPluginPeerPrefix cfg (Sanitize x))" for x
    by (rule withPluginPeerPrefix_safe [OF Sanitize_safe])
  have "int (length (EnforceLimit sha (Sanitize k) k 120)) \<le> 120" for k by (rule EnforceLimit_le) simp
  then have l: "length (EnforceLimit sha (Sanitize k) k 120) \<le> 120" for k by (metis of_nat_le_iff of_nat_numeral)
  have s: "length (Sanitize k) \<le> 120 \<Longrightarrow> EnforceLimit sha (Sanitize k) k 120 = Sanitize k" for k
    by (simp add: EnforceLimit_def)
  show ?thesis
    unfolding assms ResolvePluginSessionName_def enforcePluginSessionIDLimit_def Let_def
    using g p l s Sanitize_safe EnforceLimit_safe [OF Sanitize_safe] by auto
qed

text \<open>
  Credentials: the API key is the one configured for the host, else at the root, else in the
  environment; without one, a plausible base URL stands for a local server and gives the sentinel key,
  and an implausible one gives no key, evidence of the error and a disabled plugin, whatever
  \<open>enabled\<close> says.  The evidence is recorded in exactly these two cases.
\<close>

theorem plugin_credentials:
  assumes "c = ResolvePluginConfig ulow hostOf input"
    and "key = fst (firstConfigStringWithSource (pluginHostBlock (pi_Raw input) (pc_Host c)) (pi_Raw input) (pi_Env input) ''apiKey'' ''HONCHO_API_KEY'')"
  shows "(key \<noteq> [] \<longrightarrow> pc_APIKey c = key \<and> pc_Evidence c = [])
    \<and> (key = [] \<and> pc_BaseURL c = [] \<longrightarrow> pc_APIKey c = [] \<and> pc_Evidence c = [])
    \<and> (key = [] \<and> pc_BaseURL c \<noteq> [] \<longrightarrow>
         (if plausibleHonchoBaseURL ulow hostOf (pc_BaseURL c)
          then pc_APIKey c = ''local'' \<and> pc_APIKeySource c = ''base_url'' \<and> pc_Evidence c = [ConfigLocalBaseURL]
          else pc_APIKey c = [] \<and> pc_Evidence c = [ConfigBaseURLInvalid] \<and> \<not> pc_Enabled c))"
proof -
  have t: "trim_space (fst (firstConfigStringWithSource2 h raw env ks e)) = fst (firstConfigStringWithSource2 h raw env ks e)" for h raw env ks e
  proof -
    have "config_first m ks = Some v \<Longrightarrow> trim_space v = v" for m v
      by (induction ks) (auto simp: config_nonempty_def configString_def split: option.splits cfg_value.splits if_splits)
    then show ?thesis by (auto simp: firstConfigStringWithSource2_def Let_def split: option.splits)
  qed
  have h: "pc_Host c = (if trim_space (pi_Host input) = [] then ''hermes'' else trim_space (pi_Host input))"
    unfolding assms(1) ResolvePluginConfig_def Let_def by (simp split: prod.split)
  obtain k src where k: "firstConfigStringWithSource (pluginHostBlock (pi_Raw input) (pc_Host c)) (pi_Raw input) (pi_Env input)
      ''apiKey'' ''HONCHO_API_KEY'' = (k, src)" by fastforce
  obtain u usrc where u: "firstConfigStringWithSource2 (pluginHostBlock (pi_Raw input) (pc_Host c)) (pi_Raw input) (pi_Env input)
      [''baseUrl'', ''base_url''] ''HONCHO_BASE_URL'' = (u, usrc)" by fastforce
  have tu: "trim_space u = u" using t u by (metis fst_conv)
  have f: "pc_BaseURL c = u" "pc_APIKey c = (if k = [] \<and> u \<noteq> [] \<and> plausibleHonchoBaseURL ulow hostOf u then ''local'' else k)"
    "pc_Evidence c = (if k = [] \<and> u \<noteq> [] then [if plausibleHonchoBaseURL ulow hostOf u then ConfigLocalBaseURL else ConfigBaseURLInvalid] else [])"
    "pc_APIKeySource c = (if k = [] \<and> u \<noteq> [] \<and> plausibleHonchoBaseURL ulow hostOf u then ''base_url'' else src)"
    "k = [] \<and> u \<noteq> [] \<and> \<not> plausibleHonchoBaseURL ulow hostOf u \<Longrightarrow> \<not> pc_Enabled c"
    using k u unfolding h unfolding assms(1) ResolvePluginConfig_def Let_def by (simp_all add: tu)
  have "key = k" using assms(2) k by simp
  with f show ?thesis by (auto split: if_splits)
qed


section \<open>Witnesses\<close>

theorem sanitize_canonical_witness:
  "Sanitize (Sanitize '' -a b- '') = ''a-b'' \<and> Sanitize ''!?'' = []"
proof -
  have "Sanitize '' -a b- '' = ''a-b''" "Sanitize ''!?'' = []" by code_simp+
  then show ?thesis using sanitize_canonical [of "'' -a b- ''"] by simp
qed

definition sample_config :: PluginConfig where
  "sample_config = ResolvePluginConfig (\<lambda>s. s) (\<lambda>_. None)
     \<lparr>pi_Host = ''h'', pi_Raw = [(''enabled'', CBool True), (''baseUrl'', CStr ''ftp:x.y''), (''sessionPeerPrefix'', CBool True),
        (''peerName'', CStr ''al'')], pi_Env = []\<rparr>"

theorem session_name_safe_witness:
  "list_all safe_char (ResolvePluginSessionName (\<lambda>s. s) sample_config
     \<lparr>si_CWD = ''/tmp/a b/'', si_Title = [], si_SessionID = ''s'', si_GatewaySessionKey = []\<rparr>)"
proof -
  let ?input = "\<lparr>si_CWD = ''/tmp/a b/'', si_Title = [], si_SessionID = ''s'', si_GatewaySessionKey = []\<rparr>"
  have "trim_space (env_get (pc_Sessions sample_config) (if trim_space (si_CWD ?input) = [] then ''.'' else trim_space (si_CWD ?input))) = []"
    "trim_space (pc_SessionStrategy sample_config) \<noteq> ''per-session''" by code_simp+
  then show ?thesis using session_name_safe [where sha = "\<lambda>s. s" and cfg = sample_config and input = ?input, OF refl refl] by blast
qed

theorem plugin_credentials_witness:
  "pc_Evidence sample_config = [ConfigBaseURLInvalid] \<and> \<not> pc_Enabled sample_config"
proof -
  let ?input = "\<lparr>pi_Host = ''h'', pi_Raw = [(''enabled'', CBool True), (''baseUrl'', CStr ''ftp:x.y''), (''sessionPeerPrefix'', CBool True),
        (''peerName'', CStr ''al'')], pi_Env = []\<rparr>"
  have s: "sample_config = ResolvePluginConfig (\<lambda>s. s) (\<lambda>_. None) ?input" by (rule sample_config_def)
  have "fst (firstConfigStringWithSource (pluginHostBlock (pi_Raw ?input) (pc_Host sample_config)) (pi_Raw ?input) (pi_Env ?input)
      ''apiKey'' ''HONCHO_API_KEY'') = []" "pc_BaseURL sample_config \<noteq> []"
    "\<not> plausibleHonchoBaseURL (\<lambda>s. s) (\<lambda>_. None) (pc_BaseURL sample_config)" by code_simp+
  with plugin_credentials [OF s refl] show ?thesis by simp
qed

end
