(* ===== verification/RecallEvidence.thy ===== *)
theory RecallEvidence
  imports RecallScore
begin

text \<open>
  What \<open>service/recall_pipeline.go\<close> reads out of the evidence of a recall candidate and out of the
  query: whether the evidence says that a fact is current or superseded, who is speaking, and whether the
  query asks for the current truth or for a speaker.  \<open>strings.Map\<close> keeps ASCII letters and digits and
  replaces every other rune by one space; here it replaces every byte, and the words are the same.
\<close>

section \<open>Candidates (service/recall_ir.go)\<close>

record EvidenceItem =
  ei_Kind :: string
  ei_Source :: string
  ei_ID :: string
  ei_Note :: string
  ei_Score :: float64
  ei_Metadata :: "(string \<times> string) list"

record RecallCandidate =
  rc_MemoryID :: string
  rc_SourceType :: string
  rc_Content :: string
  rc_SessionID :: string
  rc_AgentID :: string
  rc_ScopeID :: string
  rc_CreatedAt :: int
  rc_Importance :: float64
  rc_Provenance :: "EvidenceItem list"

section \<open>The fields of a note\<close>

definition recallEvidenceNoteFieldSeparator :: "char \<Rightarrow> bool" where
  "recallEvidenceNoteFieldSeparator c \<longleftrightarrow> c \<in> set [CHR '' '', CHR 0x09, CHR 0x0A, CHR 0x0D, CHR '','', CHR '';'']"

definition recallNormalizeEvidenceNoteField :: "string \<Rightarrow> string" where
  "recallNormalizeEvidenceNoteField field = trim_chars '' .:()[]{}'' (trim_space field)"

definition recallTemporalEvidenceNoteFields :: "(string \<Rightarrow> string) \<Rightarrow> string \<Rightarrow> string list" where
  "recallTemporalEvidenceNoteFields ulow note =
     (let note' = Lower ulow note in
      if note' = [] then []
      else filter (\<lambda>f. f \<noteq> []) (map recallNormalizeEvidenceNoteField
        (runs (\<lambda>c. \<not> recallEvidenceNoteFieldSeparator c) [] note')))"

text \<open>\<open>strings.Cut(s, "=")\<close>, and the first result of a loop that returns early.\<close>

definition cut_eq :: "string \<Rightarrow> (string \<times> string) option" where
  "cut_eq s = (if CHR ''='' \<in> set s
     then Some (takeWhile (\<lambda>c. c \<noteq> CHR ''='') s, tl (dropWhile (\<lambda>c. c \<noteq> CHR ''='') s)) else None)"

fun first_some :: "('a \<Rightarrow> 'b option) \<Rightarrow> 'a list \<Rightarrow> 'b option" where
  "first_some f [] = None"
| "first_some f (x # xs) = (case f x of Some y \<Rightarrow> Some y | None \<Rightarrow> first_some f xs)"

section \<open>Temporal evidence\<close>

datatype temporal_state = TemporalUnknown | TemporalCurrent | TemporalSuperseded

definition recallTemporalNegatesNextField :: "string \<Rightarrow> bool" where
  "recallTemporalNegatesNextField field \<longleftrightarrow> field \<in> set [''not'', ''non'', ''never'']"

definition recallTemporalSupersededByField :: "string \<Rightarrow> bool" where
  "recallTemporalSupersededByField field \<longleftrightarrow>
     has_prefix ''superseded_by='' field \<and> trim_space (drop (length ''superseded_by='') field) \<noteq> []"

definition recallTemporalSupersededByAssignment :: "string list \<Rightarrow> nat \<Rightarrow> bool" where
  "recallTemporalSupersededByAssignment flds idx \<longleftrightarrow>
     (if length flds \<le> idx then False
      else case cut_eq (flds ! idx) of
        Some (key, val) \<Rightarrow> key = ''superseded_by'' \<and> trim_space val \<noteq> []
      | None \<Rightarrow> flds ! idx = ''superseded_by'' \<and> idx + 2 < length flds
          \<and> flds ! (idx + 1) = ''='' \<and> trim_space (flds ! (idx + 2)) \<noteq> [])"

definition recallTemporalSupersededField :: "string list \<Rightarrow> nat \<Rightarrow> bool" where
  "recallTemporalSupersededField flds idx \<longleftrightarrow> \<not> (length flds \<le> idx \<or> flds ! idx \<noteq> ''superseded'')"

definition recallTemporalFieldMarksSuperseded :: "string list \<Rightarrow> nat \<Rightarrow> bool" where
  "recallTemporalFieldMarksSuperseded flds idx \<longleftrightarrow>
     (if length flds \<le> idx then False
      else if 0 < idx \<and> recallTemporalNegatesNextField (flds ! (idx - 1)) then False
      else recallTemporalSupersededByAssignment flds idx \<or> recallTemporalSupersededByField (flds ! idx)
        \<or> recallTemporalSupersededField flds idx)"

fun note_state :: "string list \<Rightarrow> nat list \<Rightarrow> temporal_state \<Rightarrow> temporal_state" where
  "note_state flds [] state = state"
| "note_state flds (i # is) state =
     (if recallTemporalFieldMarksSuperseded flds i then TemporalSuperseded
      else note_state flds is
        (if flds ! i = ''current_fact'' \<or> flds ! i = ''valid_now'' then TemporalCurrent else state))"

definition recallTemporalEvidenceNoteState :: "(string \<Rightarrow> string) \<Rightarrow> string \<Rightarrow> temporal_state" where
  "recallTemporalEvidenceNoteState ulow note =
     (let flds = recallTemporalEvidenceNoteFields ulow note in
      note_state flds [0..<length flds] TemporalUnknown)"

fun temporal_loop :: "(string \<Rightarrow> string) \<Rightarrow> EvidenceItem list \<Rightarrow> temporal_state \<Rightarrow> temporal_state" where
  "temporal_loop ulow [] state = state"
| "temporal_loop ulow (e # es) state =
     (if ei_Kind e \<noteq> ''temporal'' then temporal_loop ulow es state
      else case recallTemporalEvidenceNoteState ulow (ei_Note e) of
        TemporalSuperseded \<Rightarrow> TemporalSuperseded
      | TemporalCurrent \<Rightarrow> temporal_loop ulow es TemporalCurrent
      | TemporalUnknown \<Rightarrow> temporal_loop ulow es state)"

definition recallTemporalState :: "(string \<Rightarrow> string) \<Rightarrow> EvidenceItem list \<Rightarrow> temporal_state" where
  "recallTemporalState ulow es = temporal_loop ulow es TemporalUnknown"

section \<open>Tokens of the query\<close>

definition recallIntentTokens :: "string \<Rightarrow> string list" where
  "recallIntentTokens query =
     Words (map (\<lambda>c. if lower_alnum c then c
       else if 65 \<le> byte c \<and> byte c \<le> 90 then char_of (byte c + 32) else CHR '' '') query)"

definition recallQueryTokens :: "(string \<Rightarrow> string) \<Rightarrow> string \<Rightarrow> string list" where
  "recallQueryTokens ulow query = Words (map (\<lambda>c. if lower_alnum c then c else CHR '' '') (to_lower ulow query))"

definition recallQueryHasAnyToken :: "string \<Rightarrow> string list \<Rightarrow> bool" where
  "recallQueryHasAnyToken query targets \<longleftrightarrow> list_ex (\<lambda>token. token \<in> set targets) (recallIntentTokens query)"

definition recallQueryAsksCurrentTruth :: "string \<Rightarrow> bool" where
  "recallQueryAsksCurrentTruth query =
     recallQueryHasAnyToken query [''now'', ''current'', ''currently'', ''latest'', ''today'']"

section \<open>The speaker of a candidate\<close>

definition recallEvidenceFieldStartsAssignment :: "string list \<Rightarrow> nat \<Rightarrow> bool" where
  "recallEvidenceFieldStartsAssignment flds idx \<longleftrightarrow>
     (if length flds \<le> idx then False
      else if flds ! idx = ''='' \<or> has_prefix ''='' (flds ! idx) then True
      else case cut_eq (flds ! idx) of
        Some (key, _) \<Rightarrow> recallNormalizeEvidenceNoteField key \<noteq> [] | None \<Rightarrow> False)"

definition recallEvidenceScalarSpanBoundaryField :: "string list \<Rightarrow> nat \<Rightarrow> bool" where
  "recallEvidenceScalarSpanBoundaryField flds idx \<longleftrightarrow>
     (if idx = 0 \<or> length flds \<le> idx then False
      else flds ! idx \<in> set [''observed'', ''captured'', ''recorded'', ''source'', ''from'', ''via''])"

definition recallEvidenceScalarSpanStopsAtField :: "string list \<Rightarrow> nat \<Rightarrow> bool" where
  "recallEvidenceScalarSpanStopsAtField flds idx \<longleftrightarrow>
     recallEvidenceFieldStartsAssignment flds idx \<or> recallEvidenceScalarSpanBoundaryField flds idx"

fun span_parts :: "string list \<Rightarrow> nat list \<Rightarrow> string list" where
  "span_parts flds [] = []"
| "span_parts flds (i # is) =
     (if recallEvidenceScalarSpanStopsAtField flds i then []
      else let field = recallNormalizeEvidenceNoteField (flds ! i) in
        if field = [] then span_parts flds is else field # span_parts flds is)"

definition recallEvidenceScalarSpanValue :: "string list \<Rightarrow> nat \<Rightarrow> string \<Rightarrow> string option" where
  "recallEvidenceScalarSpanValue flds start first =
     (let first' = recallNormalizeEvidenceNoteField first;
          parts = (if first' \<noteq> [] then [first'] else []) @ span_parts flds [start..<length flds] in
      if parts = [] then None else Some (join_with '' '' parts))"

definition recallEvidenceLeadingEqualsValue :: "string \<Rightarrow> string option" where
  "recallEvidenceLeadingEqualsValue field =
     (if \<not> has_prefix ''='' field then None
      else let val = recallNormalizeEvidenceNoteField (drop 1 field) in if val = [] then None else Some val)"

definition recallEvidenceInlineScalarValue :: "string list \<Rightarrow> nat \<Rightarrow> string \<Rightarrow> string \<Rightarrow> string option" where
  "recallEvidenceInlineScalarValue flds idx field key =
     (case cut_eq field of
        None \<Rightarrow> None
      | Some (assignmentKey, val) \<Rightarrow>
          if recallNormalizeEvidenceNoteField assignmentKey \<noteq> key then None
          else let val' = recallNormalizeEvidenceNoteField val in
            if val' \<noteq> [] then recallEvidenceScalarSpanValue flds (idx + 1) val'
            else if length flds \<le> idx + 1 then None
            else case recallEvidenceLeadingEqualsValue (flds ! (idx + 1)) of
              Some v \<Rightarrow> recallEvidenceScalarSpanValue flds (idx + 2) v
            | None \<Rightarrow> if recallEvidenceFieldStartsAssignment flds (idx + 1) then None
                else recallEvidenceScalarSpanValue flds (idx + 1) [])"

definition recallEvidenceSpacedScalarValue :: "string list \<Rightarrow> nat \<Rightarrow> string \<Rightarrow> string \<Rightarrow> string option" where
  "recallEvidenceSpacedScalarValue flds idx field key =
     (if field \<noteq> key \<or> length flds \<le> idx + 1 then None
      else if flds ! (idx + 1) = ''='' \<and> idx + 2 < length flds then recallEvidenceScalarSpanValue flds (idx + 2) []
      else case recallEvidenceLeadingEqualsValue (flds ! (idx + 1)) of
        Some v \<Rightarrow> recallEvidenceScalarSpanValue flds (idx + 2) v | None \<Rightarrow> None)"

definition recallEvidenceNoteScalarValue :: "(string \<Rightarrow> string) \<Rightarrow> string \<Rightarrow> string \<Rightarrow> string option" where
  "recallEvidenceNoteScalarValue ulow note key =
     (let key' = Lower ulow key in
      if key' = [] then None
      else
        let flds = recallTemporalEvidenceNoteFields ulow note in
        first_some (\<lambda>i. case recallEvidenceInlineScalarValue flds i (flds ! i) key' of
            Some v \<Rightarrow> Some v | None \<Rightarrow> recallEvidenceSpacedScalarValue flds i (flds ! i) key')
          [0..<length flds])"

definition recallSpeakerIdentityFromNote :: "(string \<Rightarrow> string) \<Rightarrow> string \<Rightarrow> string" where
  "recallSpeakerIdentityFromNote ulow note =
     (case recallEvidenceNoteScalarValue ulow note ''speaker'' of None \<Rightarrow> [] | Some v \<Rightarrow> v)"

definition recallSpeakerEvidenceIdentity :: "(string \<Rightarrow> string) \<Rightarrow> EvidenceItem \<Rightarrow> string" where
  "recallSpeakerEvidenceIdentity ulow e =
     (let speaker = recallSpeakerIdentityFromNote ulow (ei_Note e) in
      if speaker \<noteq> [] then speaker else Lower ulow (ei_Source e))"

definition recallCandidateSpeaker :: "(string \<Rightarrow> string) \<Rightarrow> RecallCandidate \<Rightarrow> string" where
  "recallCandidateSpeaker ulow c =
     (case first_some (\<lambda>e. if ei_Kind e \<noteq> ''speaker'' then None
          else let speaker = recallSpeakerEvidenceIdentity ulow e in if speaker \<noteq> [] then Some speaker else None)
        (rc_Provenance c) of
      Some speaker \<Rightarrow> speaker | None \<Rightarrow> Lower ulow (rc_AgentID c))"

section \<open>The speaker a query asks for\<close>

text \<open>The first \<open>endToken\<close> at or after \<open>start\<close> closes the name.\<close>

definition recallSpeakerTargetBetween :: "string list \<Rightarrow> nat \<Rightarrow> string \<Rightarrow> string option" where
  "recallSpeakerTargetBetween tokens start endToken =
     (if length tokens \<le> start then None
      else case List.find (\<lambda>e. tokens ! e = endToken) [start..<length tokens] of
        None \<Rightarrow> None
      | Some e \<Rightarrow> if e = start then None else Some (join_with '' '' (take (e - start) (drop start tokens))))"

definition recallQuerySpeakerTargets :: "(string \<Rightarrow> string) \<Rightarrow> string \<Rightarrow> string list" where
  "recallQuerySpeakerTargets ulow query =
     (let tokens = recallQueryTokens ulow query in
      case first_some (\<lambda>i. if tokens ! i = ''did'' then recallSpeakerTargetBetween tokens (i + 1) ''say''
          else if tokens ! i = ''has'' then recallSpeakerTargetBetween tokens (i + 1) ''said''
          else None) [0..<length tokens] of
        Some target \<Rightarrow> [target] | None \<Rightarrow> [])"

definition recallSpeakerTargetMatchesSpeaker :: "(string \<Rightarrow> string) \<Rightarrow> string \<Rightarrow> string \<Rightarrow> bool" where
  "recallSpeakerTargetMatchesSpeaker ulow target speaker \<longleftrightarrow>
     (let targetTokens = recallQueryTokens ulow target; speakerTokens = recallQueryTokens ulow speaker in
      if targetTokens = [] \<or> speakerTokens = [] \<or> length speakerTokens < length targetTokens then False
      else list_all (\<lambda>i. targetTokens ! i = speakerTokens ! i) [0..<length targetTokens])"

definition recallQueryMentionsSpeaker :: "(string \<Rightarrow> string) \<Rightarrow> string \<Rightarrow> string \<Rightarrow> bool" where
  "recallQueryMentionsSpeaker ulow query speaker \<longleftrightarrow>
     (let queryTokens = recallQueryTokens ulow query; speakerTokens = recallQueryTokens ulow speaker in
      if queryTokens = [] \<or> speakerTokens = [] \<or> length queryTokens < length speakerTokens then False
      else list_ex (\<lambda>i. list_all (\<lambda>j. queryTokens ! (i + j) = speakerTokens ! j) [0..<length speakerTokens])
        [0..<length queryTokens - length speakerTokens + 1])"

definition recallQueryMatchesSpeaker :: "(string \<Rightarrow> string) \<Rightarrow> string \<Rightarrow> string \<Rightarrow> bool" where
  "recallQueryMatchesSpeaker ulow query speaker \<longleftrightarrow>
     (let targets = recallQuerySpeakerTargets ulow query in
      if targets \<noteq> [] then list_ex (\<lambda>target. recallSpeakerTargetMatchesSpeaker ulow target speaker) targets
      else recallQueryMentionsSpeaker ulow query speaker)"

section \<open>What the loops compute\<close>

lemma note_state_superseded:
  "note_state flds is st = TemporalSuperseded \<longleftrightarrow> st = TemporalSuperseded \<and> (\<forall>i \<in> set is. \<not> (flds ! i = ''current_fact'' \<or> flds ! i = ''valid_now''))
     \<or> (\<exists>i \<in> set is. recallTemporalFieldMarksSuperseded flds i)"
  by (induction "is" arbitrary: st) auto

text \<open>The state of a candidate does not depend on the order of its evidence: superseded wins.\<close>

lemma temporal_state_spec:
  "recallTemporalState ulow es =
     (if \<exists>e \<in> set es. ei_Kind e = ''temporal'' \<and> recallTemporalEvidenceNoteState ulow (ei_Note e) = TemporalSuperseded
      then TemporalSuperseded
      else if \<exists>e \<in> set es. ei_Kind e = ''temporal'' \<and> recallTemporalEvidenceNoteState ulow (ei_Note e) = TemporalCurrent
      then TemporalCurrent else TemporalUnknown)"
proof -
  have "temporal_loop ulow es st =
     (if \<exists>e \<in> set es. ei_Kind e = ''temporal'' \<and> recallTemporalEvidenceNoteState ulow (ei_Note e) = TemporalSuperseded
      then TemporalSuperseded
      else if \<exists>e \<in> set es. ei_Kind e = ''temporal'' \<and> recallTemporalEvidenceNoteState ulow (ei_Note e) = TemporalCurrent
      then TemporalCurrent else st)" for st
    by (induction es arbitrary: st) (auto split: temporal_state.splits)
  then show ?thesis by (simp add: recallTemporalState_def)
qed

lemma list_all_nth_take:
  assumes "k + length ys \<le> length xs"
  shows "list_all (\<lambda>j. xs ! (k + j) = ys ! j) [0..<length ys] \<longleftrightarrow> take (length ys) (drop k xs) = ys"
proof -
  have "list_all (\<lambda>j. xs ! (k + j) = ys ! j) [0..<length ys] \<longleftrightarrow> (\<forall>j < length ys. take (length ys) (drop k xs) ! j = ys ! j)"
    using assms by (simp add: list_all_iff Ball_def)
  also have "\<dots> \<longleftrightarrow> take (length ys) (drop k xs) = ys"
    using assms by (simp add: list_eq_iff_nth_eq)
  finally show ?thesis .
qed

lemma prefix_take: "prefix ys xs \<longleftrightarrow> length ys \<le> length xs \<and> take (length ys) xs = ys"
  by (metis append_eq_conv_conj append_take_drop_id length_append le_add1 prefix_def)

lemma list_all_nth_prefix:
  "length ys \<le> length xs \<Longrightarrow> list_all (\<lambda>j. ys ! j = xs ! j) [0..<length ys] \<longleftrightarrow> prefix ys xs"
proof -
  assume len: "length ys \<le> length xs"
  have "(\<lambda>j. ys ! j = xs ! j) = (\<lambda>j. xs ! (0 + j) = ys ! j)" by (auto simp: fun_eq_iff)
  then show ?thesis using list_all_nth_take [of 0 ys xs] len by (simp only: prefix_take) simp
qed

lemma speaker_target_prefix:
  "recallSpeakerTargetMatchesSpeaker ulow target speaker \<longleftrightarrow>
     recallQueryTokens ulow target \<noteq> [] \<and> prefix (recallQueryTokens ulow target) (recallQueryTokens ulow speaker)"
proof (cases "length (recallQueryTokens ulow target) \<le> length (recallQueryTokens ulow speaker)")
  case True
  then show ?thesis
    unfolding recallSpeakerTargetMatchesSpeaker_def Let_def list_all_nth_prefix [OF True] by auto
next
  case False
  then show ?thesis
    by (auto simp: recallSpeakerTargetMatchesSpeaker_def Let_def dest: prefix_length_le)
qed

lemma query_mentions_sublist:
  "recallQueryMentionsSpeaker ulow query speaker \<longleftrightarrow>
     recallQueryTokens ulow speaker \<noteq> [] \<and> sublist (recallQueryTokens ulow speaker) (recallQueryTokens ulow query)"
proof -
  let ?q = "recallQueryTokens ulow query" and ?s = "recallQueryTokens ulow speaker"
  have "list_ex (\<lambda>i. list_all (\<lambda>j. ?q ! (i + j) = ?s ! j) [0..<length ?s]) [0..<length ?q - length ?s + 1]
      = list_ex (\<lambda>i. take (length ?s) (drop i ?q) = ?s) [0..<length ?q - length ?s + 1]" if "length ?s \<le> length ?q"
    by (rule list_ex_cong) (use that in \<open>auto intro!: list_all_nth_take simp del: upt_Suc\<close>)
  then have "recallQueryMentionsSpeaker ulow query speaker \<longleftrightarrow> tokenSequenceContains ?q ?s"
    unfolding recallQueryMentionsSpeaker_def tokenSequenceContains_def Let_def by (cases "?s = []") (auto simp del: upt_Suc)
  then show ?thesis by (simp add: contains_sublist)
qed

end
