(* ===== verification/GoSort.thy ===== *)
theory GoSort
  imports Main "HOL-Library.Multiset"
begin

text \<open>
  \<open>sort.SliceStable\<close> as the insertion sort it runs on short slices: each element moves left past the
  elements it is less than.  Where \<open>lt\<close> is a strict weak order the stable sorted permutation is unique,
  so this is also what the merging of longer slices returns.  The locale is the contract of a comparison
  whose ties have equal keys; under it the result depends only on the multiset of elements.
\<close>

fun insert_back :: "('a \<Rightarrow> 'a \<Rightarrow> bool) \<Rightarrow> 'a \<Rightarrow> 'a list \<Rightarrow> 'a list" where
  "insert_back lt x [] = [x]"
| "insert_back lt x (y # ys) = (if lt x y then y # insert_back lt x ys else x # y # ys)"

definition SliceStable :: "('a \<Rightarrow> 'a \<Rightarrow> bool) \<Rightarrow> 'a list \<Rightarrow> 'a list" where
  "SliceStable lt xs = rev (fold (insert_back lt) xs [])"

lemma mset_insert_back [simp]: "mset (insert_back lt x ys) = add_mset x (mset ys)"
  by (induction ys) auto

lemma mset_fold_insert: "mset (fold (insert_back lt) xs acc) = mset xs + mset acc"
  by (induction xs arbitrary: acc) auto

lemma mset_SliceStable [simp]: "mset (SliceStable lt xs) = mset xs"
  by (simp add: SliceStable_def mset_fold_insert)

lemma set_SliceStable [simp]: "set (SliceStable lt xs) = set xs"
  using mset_SliceStable by (metis set_mset_mset)

lemma length_SliceStable [simp]: "length (SliceStable lt xs) = length xs"
  using mset_SliceStable by (metis size_mset)

lemma SliceStable_Nil [simp]: "SliceStable lt [] = []"
  by (simp add: SliceStable_def)

text \<open>Sorting images: only the comparisons of elements matter.\<close>

lemma map_insert_back:
  "(\<And>y. y \<in> set ys \<Longrightarrow> lt' (f x) (f y) = lt x y) \<Longrightarrow> map f (insert_back lt x ys) = insert_back lt' (f x) (map f ys)"
  by (induction ys) auto

lemma set_insert_back: "set (insert_back lt x ys) = insert x (set ys)"
  by (metis mset_insert_back set_mset_add_mset_insert set_mset_mset)

lemma map_SliceStable:
  assumes "\<And>x y. x \<in> set xs \<Longrightarrow> y \<in> set xs \<Longrightarrow> lt' (f x) (f y) = lt x y"
  shows "map f (SliceStable lt xs) = SliceStable lt' (map f xs)"
proof -
  have "map f (fold (insert_back lt) ys acc) = fold (insert_back lt') (map f ys) (map f acc)"
    if "set ys \<subseteq> set xs" "set acc \<subseteq> set xs" for ys acc
    using that
  proof (induction ys arbitrary: acc)
    case (Cons y ys)
    then have "map f (insert_back lt y acc) = insert_back lt' (f y) (map f acc)"
      by (intro map_insert_back) (use assms in auto)
    with Cons show ?case by (simp add: set_insert_back)
  qed simp
  then show ?thesis by (simp add: SliceStable_def flip: rev_map)
qed

locale keyed_order =
  fixes carrier :: "'a set"
    and lt :: "'a \<Rightarrow> 'a \<Rightarrow> bool"
    and key :: "'a \<Rightarrow> 'k"
  assumes irrefl: "x \<in> carrier \<Longrightarrow> \<not> lt x x"
    and trans: "x \<in> carrier \<Longrightarrow> y \<in> carrier \<Longrightarrow> z \<in> carrier \<Longrightarrow> lt x y \<Longrightarrow> lt y z \<Longrightarrow> lt x z"
    and tie: "x \<in> carrier \<Longrightarrow> y \<in> carrier \<Longrightarrow> \<not> lt x y \<Longrightarrow> \<not> lt y x \<Longrightarrow> key x = key y"
begin

text \<open>Strictly descending lists (the accumulator is reversed) have one representative per multiset.\<close>

definition descending :: "'a list \<Rightarrow> bool" where
  "descending xs \<longleftrightarrow> sorted_wrt (\<lambda>x y. lt y x) xs"

lemma descending_insert:
  "set (x # ys) \<subseteq> carrier \<Longrightarrow> key x \<notin> key ` set ys \<Longrightarrow> descending ys \<Longrightarrow> descending (insert_back lt x ys)"
proof (induction ys)
  case (Cons y ys)
  show ?case
  proof (cases "lt x y")
    case True
    with Cons show ?thesis by (auto simp: descending_def set_insert_back)
  next
    case False
    then have yx: "lt y x" using Cons.prems tie [of x y] by auto
    then have "lt z x" if "z \<in> set ys" for z
      using that Cons.prems trans [of z y x] by (auto simp: descending_def)
    with False yx Cons.prems show ?thesis by (auto simp: descending_def)
  qed
qed (simp add: descending_def)

lemma distinct_keys_mset: "mset xs = mset ys \<Longrightarrow> distinct (map key xs) = distinct (map key ys)"
  by (metis mset_eq_imp_distinct_iff mset_map)

lemma descending_fold:
  "set xs \<union> set acc \<subseteq> carrier \<Longrightarrow> distinct (map key (xs @ acc)) \<Longrightarrow> descending acc
    \<Longrightarrow> descending (fold (insert_back lt) xs acc)"
proof (induction xs arbitrary: acc)
  case (Cons x xs)
  then have "descending (insert_back lt x acc)" by (intro descending_insert) auto
  moreover have "distinct (map key (xs @ insert_back lt x acc))"
    using Cons.prems(2) distinct_keys_mset [of "xs @ insert_back lt x acc" "(x # xs) @ acc"] by simp
  ultimately show ?case using Cons by (simp add: set_insert_back)
qed simp

lemma descending_unique:
  "descending xs \<Longrightarrow> descending ys \<Longrightarrow> set xs \<subseteq> carrier \<Longrightarrow> mset xs = mset ys \<Longrightarrow> xs = ys"
proof (induction xs arbitrary: ys)
  case (Cons x xs)
  then obtain y ys' where ys: "ys = y # ys'" by (cases ys) auto
  have sets: "insert x (set xs) = insert y (set ys')"
    using Cons.prems(4) ys by (metis list.simps(15) set_mset_mset)
  have "x = y"
  proof (rule ccontr)
    assume "x \<noteq> y"
    then have xy: "x \<in> set ys'" "y \<in> set xs" using sets by auto
    then have "lt x y" "lt y x" using Cons.prems(1,2) ys by (auto simp: descending_def)
    then show False using irrefl [of x] trans [of x y x] xy Cons.prems(3) by auto
  qed
  then show ?case using Cons ys by (simp add: descending_def)
qed simp

lemma descending_sort:
  "set xs \<subseteq> carrier \<Longrightarrow> distinct (map key xs) \<Longrightarrow> descending (rev (SliceStable lt xs))"
  using descending_fold [of xs "[]"] by (simp add: SliceStable_def descending_def)

lemma sort_sorted:
  "set xs \<subseteq> carrier \<Longrightarrow> distinct (map key xs) \<Longrightarrow> sorted_wrt lt (SliceStable lt xs)"
  using descending_sort [of xs] by (simp add: descending_def sorted_wrt_rev)

theorem sort_perm:
  assumes "mset xs = mset ys" "set xs \<subseteq> carrier" "distinct (map key xs)"
  shows "SliceStable lt xs = SliceStable lt ys"
proof -
  have "set ys \<subseteq> carrier" "distinct (map key ys)"
    using assms distinct_keys_mset [of xs ys] by (auto dest: mset_eq_setD)
  then have "rev (SliceStable lt xs) = rev (SliceStable lt ys)"
    using assms descending_sort [of xs] descending_sort [of ys] by (intro descending_unique) auto
  then show ?thesis by simp
qed

end

end
