(* ===== verification/RecallPipeline.thy ===== *)
theory RecallPipeline
  imports RecallEvidence GoSort "HOL-Library.List_Lexorder" "HOL-Library.Char_ord"
begin

text \<open>
  The recall pipeline (\<open>service/recall_pipeline.go\<close>): the candidates of a generator are scored by seven
  signals, ranked by reciprocal rank fusion, sorted, and selected greedily under a limit and a token budget;
  what is not selected is rejected with its reason.  The generator and its warnings, the two readings of
  the clock, \<open>math.Exp2\<close> and the digest of the trace are parameters.
\<close>

section \<open>Data (service/recall_ir.go)\<close>

record RecallQuery =
  rq_WorkspaceID :: string
  rq_Peer :: string
  rq_Query :: string
  rq_SessionKey :: string
  rq_ScopeID :: string
  rq_Sources :: "string list"
  rq_Limit :: int
  rq_MaxTokens :: int
  rq_AgentID :: string
  rq_AgentScopeMode :: string

record RecallScore =
  sc_Keyword :: float64
  sc_Semantic :: float64
  sc_Graph :: float64
  sc_Fact :: float64
  sc_Recency :: float64
  sc_Importance :: float64
  sc_Scope :: float64
  sc_RRF :: float64
  sc_Diversity :: float64
  sc_Final :: float64
  sc_Why :: "string list"

record Scored =
  s_Candidate :: RecallCandidate
  s_Score :: RecallScore

record Rejected =
  r_Candidate :: RecallCandidate
  r_Score :: RecallScore
  r_Reason :: string
  r_Why :: "string list"

record RecallScoringConfig =
  cf_Version :: string
  cf_Weights :: "(string \<times> float64) list"
  cf_RRFK :: int
  cf_MMRLambda :: float64
  cf_DiversityKeys :: "string list"
  cf_TokenBudget :: int

record RecallWarning =
  w_Code :: string
  w_Stage :: string
  w_Severity :: string
  w_Message :: string
  w_Evidence :: "(string \<times> string) list"

record RecallVoiceDiagnostic =
  vd_Name :: string
  vd_Enabled :: bool
  vd_Weight :: float64
  vd_CandidatesWith :: nat
  vd_Max :: float64
  vd_Min :: float64
  vd_Avg :: float64
  vd_SelectedCount :: nat

record RecallTrace =
  tr_TraceID :: string
  tr_PipelineVersion :: string
  tr_CreatedAt :: int
  tr_Query :: RecallQuery
  tr_ScoringConfig :: RecallScoringConfig
  tr_Voices :: "RecallVoiceDiagnostic list"
  tr_Candidates :: "Scored list"
  tr_Selected :: "Scored list"
  tr_Rejected :: "Rejected list"
  tr_Warnings :: "RecallWarning list"

datatype 'e recall_error = NilGenerator | ContextErr | GenerateErr 'e

section \<open>Configuration\<close>

definition defaultRecallWeights :: "(string \<times> float64) list" where
  "defaultRecallWeights =
     [(''keyword'', flit (25 / 100)), (''semantic'', flit (25 / 100)), (''graph'', flit (20 / 100)), (''fact'', flit (15 / 100)),
      (''recency'', flit (7 / 100)), (''importance'', flit (5 / 100)), (''scope'', flit (3 / 100))]"

definition normalizeRecallScoringConfig :: "RecallScoringConfig \<Rightarrow> RecallScoringConfig" where
  "normalizeRecallScoringConfig c =
     (let c = (if cf_Version c = [] then c\<lparr>cf_Version := ''default-v1''\<rparr> else c);
          c = (if cf_Weights c = [] then c\<lparr>cf_Weights := defaultRecallWeights\<rparr> else c);
          c = (if cf_RRFK c \<le> 0 then c\<lparr>cf_RRFK := 60\<rparr> else c) in
      if fle (cf_MMRLambda c) (FZero False) \<or> fless (flit 1) (cf_MMRLambda c) then c\<lparr>cf_MMRLambda := flit (7 / 10)\<rparr> else c)"

text \<open>A missing weight reads as zero.\<close>

definition weight_of :: "RecallScoringConfig \<Rightarrow> string \<Rightarrow> float64" where
  "weight_of c nm = (case map_of (cf_Weights c) nm of Some w \<Rightarrow> w | None \<Rightarrow> FZero False)"

definition recallScoreSignals :: "(string \<times> (RecallScore \<Rightarrow> float64)) list" where
  "recallScoreSignals =
     [(''keyword'', sc_Keyword), (''semantic'', sc_Semantic), (''graph'', sc_Graph), (''fact'', sc_Fact),
      (''recency'', sc_Recency), (''importance'', sc_Importance), (''scope'', sc_Scope)]"

section \<open>Scores\<close>

definition maxEvidenceScore :: "EvidenceItem list \<Rightarrow> string \<Rightarrow> float64 \<Rightarrow> float64" where
  "maxEvidenceScore es kind fallback =
     Clamp (fold (\<lambda>e score. if ei_Kind e \<noteq> kind then score else if fless score (ei_Score e) then ei_Score e else score) es fallback)"

definition recallScopeMismatch :: "RecallQuery \<Rightarrow> RecallCandidate \<Rightarrow> bool" where
  "recallScopeMismatch q c \<longleftrightarrow>
     (let queryScope = trim_space (rq_ScopeID q); candidateScope = trim_space (rc_ScopeID c) in
      queryScope \<noteq> [] \<and> candidateScope \<noteq> [] \<and> candidateScope \<noteq> queryScope)"

definition scopeRecallScore :: "RecallQuery \<Rightarrow> RecallCandidate \<Rightarrow> float64" where
  "scopeRecallScore q c =
     (let queryScope = trim_space (rq_ScopeID q); candidateScope = trim_space (rc_ScopeID c) in
      if queryScope = [] then (if candidateScope = [] then flit (1 / 2) else flit 1)
      else if candidateScope = queryScope then flit 1
      else if candidateScope = [] then flit (1 / 2)
      else FZero False)"

definition weightedRecallScore :: "RecallScore \<Rightarrow> RecallScoringConfig \<Rightarrow> float64" where
  "weightedRecallScore score c =
     Clamp (fold (\<lambda>(nm, get) total. fadd total (fmul (weight_of c nm) (get score))) recallScoreSignals (FZero False))"

definition candidate_score :: "(string \<Rightarrow> string) \<Rightarrow> (float64 \<Rightarrow> float64) \<Rightarrow> int \<Rightarrow> RecallScoringConfig \<Rightarrow> RecallQuery
    \<Rightarrow> RecallCandidate \<Rightarrow> RecallScore" where
  "candidate_score ulow exp2 now c q cand =
     (let score = \<lparr>sc_Keyword = Round (maxEvidenceScore (rc_Provenance cand) ''keyword'' (Keyword ulow (rc_Content cand) (rq_Query q))),
            sc_Semantic = Round (maxEvidenceScore (rc_Provenance cand) ''semantic'' (FZero False)),
            sc_Graph = Round (maxEvidenceScore (rc_Provenance cand) ''graph'' (FZero False)),
            sc_Fact = Round (maxEvidenceScore (rc_Provenance cand) ''fact'' (FZero False)),
            sc_Recency = Round (Recency exp2 (rc_CreatedAt cand) now DefaultDecayHalfLife),
            sc_Importance = Round (Clamp (rc_Importance cand)),
            sc_Scope = Round (scopeRecallScore q cand),
            sc_RRF = Round (FZero False), sc_Diversity = FZero False, sc_Final = FZero False, sc_Why = []\<rparr> in
      score\<lparr>sc_Final := Round (weightedRecallScore score c)\<rparr>)"

section \<open>Reciprocal rank fusion\<close>

definition signal_less :: "(RecallScore \<Rightarrow> float64) \<Rightarrow> Scored \<Rightarrow> Scored \<Rightarrow> bool" where
  "signal_less get l r \<longleftrightarrow>
     (if \<not> feq (get (s_Score l)) (get (s_Score r)) then fless (get (s_Score r)) (get (s_Score l))
      else rc_MemoryID (s_Candidate l) < rc_MemoryID (s_Candidate r))"

definition rankedRecallSignalIndexes :: "Scored list \<Rightarrow> (RecallScore \<Rightarrow> float64) \<Rightarrow> nat list" where
  "rankedRecallSignalIndexes items get =
     SliceStable (\<lambda>i j. signal_less get (items ! i) (items ! j))
       (filter (\<lambda>i. \<not> fle (get (s_Score (items ! i))) (FZero False)) [0..<length items])"

text \<open>\<open>int\<close> addition wraps.\<close>

definition wrap64 :: "int \<Rightarrow> int" where
  "wrap64 n = (n + 2 ^ 63) mod 2 ^ 64 - 2 ^ 63"

definition add_rrf :: "float64 \<Rightarrow> Scored \<Rightarrow> Scored" where
  "add_rrf x it = it\<lparr>s_Score := (s_Score it)\<lparr>sc_RRF := fadd (sc_RRF (s_Score it)) x\<rparr>\<rparr>"

definition rrf_signal :: "RecallScoringConfig \<Rightarrow> string \<times> (RecallScore \<Rightarrow> float64) \<Rightarrow> Scored list \<Rightarrow> Scored list" where
  "rrf_signal c sg items =
     (let w = weight_of c (fst sg) in
      if feq w (FZero False) then items
      else fold (\<lambda>(rank, idx) its. its[idx := add_rrf (fdiv w (of_int64 (wrap64 (cf_RRFK c + int rank + 1)))) (its ! idx)])
        (List.enumerate 0 (rankedRecallSignalIndexes items (snd sg))) items)"

definition addRecallRRF :: "RecallScoringConfig \<Rightarrow> Scored list \<Rightarrow> Scored list" where
  "addRecallRRF c items =
     (if items = [] then []
      else map (\<lambda>it. it\<lparr>s_Score := (s_Score it)\<lparr>sc_RRF := Round (sc_RRF (s_Score it))\<rparr>\<rparr>) (fold (rrf_signal c) recallScoreSignals items))"

section \<open>Order\<close>

definition compareScoredRecall :: "Scored \<Rightarrow> Scored \<Rightarrow> int" where
  "compareScoredRecall l r =
     (if \<not> feq (sc_Final (s_Score l)) (sc_Final (s_Score r))
      then (if fless (sc_Final (s_Score r)) (sc_Final (s_Score l)) then - 1 else 1)
      else if \<not> feq (sc_RRF (s_Score l)) (sc_RRF (s_Score r))
      then (if fless (sc_RRF (s_Score r)) (sc_RRF (s_Score l)) then - 1 else 1)
      else if rc_MemoryID (s_Candidate l) < rc_MemoryID (s_Candidate r) then - 1
      else if rc_MemoryID (s_Candidate r) < rc_MemoryID (s_Candidate l) then 1
      else 0)"

definition sortScoredRecall :: "Scored list \<Rightarrow> Scored list" where
  "sortScoredRecall items = SliceStable (\<lambda>l r. compareScoredRecall l r < 0) items"

definition finish_score :: "RecallScoringConfig \<Rightarrow> Scored \<Rightarrow> Scored" where
  "finish_score c it =
     (let sc = s_Score it; final = Round (fadd (sc_Final sc) (sc_RRF sc)) in
      it\<lparr>s_Score := sc\<lparr>sc_Final := final,
        sc_Why := [''final_score='' @ Sprintf6f final, ''scoring_config='' @ cf_Version c]
          @ (if fless (FZero False) (sc_Fact sc) then [''fact_score='' @ Sprintf6f (sc_Fact sc)] else [])\<rparr>\<rparr>)"

definition score :: "(string \<Rightarrow> string) \<Rightarrow> (float64 \<Rightarrow> float64) \<Rightarrow> int \<Rightarrow> RecallScoringConfig \<Rightarrow> RecallQuery
    \<Rightarrow> RecallCandidate list \<Rightarrow> Scored list" where
  "score ulow exp2 now c q candidates =
     sortScoredRecall (map (finish_score c) (addRecallRRF c
       (map (\<lambda>cand. \<lparr>s_Candidate = cand, s_Score = candidate_score ulow exp2 now c q cand\<rparr>) candidates)))"

section \<open>Adjustments\<close>

definition recallTemporalAdjustment :: "(string \<Rightarrow> string) \<Rightarrow> Scored \<Rightarrow> string \<Rightarrow> float64" where
  "recallTemporalAdjustment ulow it query =
     (if \<not> recallQueryAsksCurrentTruth query then FZero False
      else case recallTemporalState ulow (rc_Provenance (s_Candidate it)) of
        TemporalSuperseded \<Rightarrow> flit (- (20 / 100))
      | TemporalCurrent \<Rightarrow> flit (8 / 100)
      | TemporalUnknown \<Rightarrow> FZero False)"

definition recallSpeakerAdjustment :: "(string \<Rightarrow> string) \<Rightarrow> Scored \<Rightarrow> string \<Rightarrow> float64" where
  "recallSpeakerAdjustment ulow it query =
     (let query' = Lower ulow query in
      if query' = [] then FZero False
      else let speaker = recallCandidateSpeaker ulow (s_Candidate it) in
        if speaker = [] then FZero False
        else if recallQueryMatchesSpeaker ulow query' speaker then flit (12 / 100) else FZero False)"

definition recallGraphEvidenceLinksSelectedMemory :: "EvidenceItem \<Rightarrow> string \<Rightarrow> bool" where
  "recallGraphEvidenceLinksSelectedMemory e selectedMemoryID \<longleftrightarrow>
     (let m = trim_space selectedMemoryID in
      if m = [] then False
      else if trim_space (ei_Source e) = m then True
      else has_prefix (m @ '' -> '') (trim_space (ei_Note e)))"

definition recallCoverageBonus :: "Scored \<Rightarrow> Scored list \<Rightarrow> float64" where
  "recallCoverageBonus it selected =
     (if selected = [] then FZero False
      else if list_ex (\<lambda>e. ei_Kind e = ''graph'' \<and> list_ex (\<lambda>s.
          rc_MemoryID (s_Candidate s) \<noteq> [] \<and> rc_MemoryID (s_Candidate s) \<noteq> rc_MemoryID (s_Candidate it)
          \<and> recallGraphEvidenceLinksSelectedMemory e (rc_MemoryID (s_Candidate s))) selected) (rc_Provenance (s_Candidate it))
      then flit (5 / 100) else FZero False)"

definition recallDiversityValue :: "(string \<Rightarrow> string) \<Rightarrow> RecallCandidate \<Rightarrow> string \<Rightarrow> string" where
  "recallDiversityValue ulow cand key =
     (let k = Lower ulow key in
      if k = ''memory_id'' then rc_MemoryID cand
      else if k = ''session_id'' then rc_SessionID cand
      else if k = ''source_type'' then rc_SourceType cand
      else if k = ''agent_id'' then rc_AgentID cand
      else if k = ''scope_id'' then rc_ScopeID cand
      else [])"

definition recallDiversityPenalty :: "(string \<Rightarrow> string) \<Rightarrow> Scored \<Rightarrow> Scored list \<Rightarrow> RecallScoringConfig \<Rightarrow> float64" where
  "recallDiversityPenalty ulow it selected c =
     (if selected = [] \<or> cf_DiversityKeys c = [] then FZero False
      else
        let collisions = length (filter (\<lambda>key. let v = recallDiversityValue ulow (s_Candidate it) key in
              v \<noteq> [] \<and> list_ex (\<lambda>s. v = recallDiversityValue ulow (s_Candidate s) key) selected) (cf_DiversityKeys c)) in
        if collisions = 0 then FZero False
        else Clamp (fmul (of_int64 (int collisions)) (fsub (flit 1) (cf_MMRLambda c))))"

record Adjustment =
  ad_Diversity :: float64
  ad_Coverage :: float64
  ad_Temporal :: float64
  ad_Speaker :: float64
  ad_Effective :: float64

definition recallSelectionAdjustmentFor :: "(string \<Rightarrow> string) \<Rightarrow> Scored \<Rightarrow> Scored list \<Rightarrow> string \<Rightarrow> RecallScoringConfig \<Rightarrow> Adjustment" where
  "recallSelectionAdjustmentFor ulow it selected query c =
     (let d = recallDiversityPenalty ulow it selected c; b = recallCoverageBonus it selected;
          t = recallTemporalAdjustment ulow it query; s = recallSpeakerAdjustment ulow it query in
      \<lparr>ad_Diversity = d, ad_Coverage = b, ad_Temporal = t, ad_Speaker = s,
       ad_Effective = fadd (fadd (fadd (fsub (sc_Final (s_Score it)) d) b) t) s\<rparr>)"

definition recallRejectedSelectionAdjustmentFor :: "(string \<Rightarrow> string) \<Rightarrow> Scored \<Rightarrow> Scored list \<Rightarrow> RecallScoringConfig \<Rightarrow> Adjustment" where
  "recallRejectedSelectionAdjustmentFor ulow it selected c =
     (let d = recallDiversityPenalty ulow it selected c in
      \<lparr>ad_Diversity = d, ad_Coverage = FZero False, ad_Temporal = FZero False, ad_Speaker = FZero False,
       ad_Effective = fsub (sc_Final (s_Score it)) d\<rparr>)"

text \<open>The first reason that reports a final score is replaced, otherwise one is put in front.\<close>

fun replace_first :: "('a \<Rightarrow> bool) \<Rightarrow> 'a \<Rightarrow> 'a list \<Rightarrow> 'a list option" where
  "replace_first P y [] = None"
| "replace_first P y (x # xs) = (if P x then Some (y # xs) else map_option (Cons x) (replace_first P y xs))"

definition recallWhySelectedWithFinalScore :: "string list \<Rightarrow> float64 \<Rightarrow> string list" where
  "recallWhySelectedWithFinalScore reasons final =
     (let updated = ''final_score='' @ Sprintf6f final in
      case replace_first (has_prefix ''final_score='') updated reasons of
        Some out \<Rightarrow> out | None \<Rightarrow> updated # reasons)"

definition applyRecallSelectionAdjustment :: "Scored \<Rightarrow> Adjustment \<Rightarrow> bool \<Rightarrow> Scored" where
  "applyRecallSelectionAdjustment it a includeAdjustmentReasons =
     (let sc = s_Score it; d = Round (ad_Diversity a);
          final = Round (fadd (fadd (fadd (fsub (sc_Final sc) d) (ad_Coverage a)) (ad_Temporal a)) (ad_Speaker a));
          why = recallWhySelectedWithFinalScore (sc_Why sc) final in
      it\<lparr>s_Score := sc\<lparr>sc_Diversity := d, sc_Final := final,
        sc_Why := why @ (if \<not> includeAdjustmentReasons then []
          else [''diversity_penalty='' @ Sprintf6f d]
            @ (if fless (FZero False) (ad_Coverage a) then [''coverage_bonus='' @ Sprintf6f (ad_Coverage a)] else [])
            @ (if \<not> feq (ad_Temporal a) (FZero False) then [''temporal_adjustment='' @ Sprintf6f (ad_Temporal a)] else [])
            @ (if fless (FZero False) (ad_Speaker a) then [''speaker_adjustment='' @ Sprintf6f (ad_Speaker a)] else []))\<rparr>\<rparr>)"

section \<open>Warnings\<close>

text \<open>An evidence map is an association list with distinct keys.\<close>

definition recallWarningEvidenceKey :: "(string \<times> string) list \<Rightarrow> string" where
  "recallWarningEvidenceKey evidence =
     concat (map (\<lambda>k. k @ ''='' @ (case map_of evidence k of Some v \<Rightarrow> v | None \<Rightarrow> []) @ [CHR 0x00]) (sort (map fst evidence)))"

definition recallWarningDedupKey :: "RecallWarning \<Rightarrow> string" where
  "recallWarningDedupKey w =
     join_with [CHR 0x00] [w_Stage w, w_Code w, w_Severity w, w_Message w, recallWarningEvidenceKey (w_Evidence w)]"

fun dedup_warnings :: "string list \<Rightarrow> RecallWarning list \<Rightarrow> RecallWarning list" where
  "dedup_warnings seen [] = []"
| "dedup_warnings seen (w # ws) =
     (if w_Code w = [] \<or> recallWarningDedupKey w \<in> set seen then dedup_warnings seen ws
      else w # dedup_warnings (recallWarningDedupKey w # seen) ws)"

definition warning_less :: "RecallWarning \<Rightarrow> RecallWarning \<Rightarrow> bool" where
  "warning_less v w \<longleftrightarrow> (if w_Stage v \<noteq> w_Stage w then w_Stage v < w_Stage w else w_Code v < w_Code w)"

definition appendRecallWarnings :: "RecallWarning list \<Rightarrow> RecallWarning list \<Rightarrow> RecallWarning list" where
  "appendRecallWarnings existing warnings = SliceStable warning_less (dedup_warnings [] (existing @ warnings))"

section \<open>Selection\<close>

record recallSelectionPolicy =
  po_Limit :: int
  po_TokenBudget :: int

definition recallSelectionPolicyFor :: "RecallQuery \<Rightarrow> RecallScoringConfig \<Rightarrow> recallSelectionPolicy" where
  "recallSelectionPolicyFor q c =
     \<lparr>po_Limit = LimitDefault (rq_Limit q) 5,
      po_TokenBudget = (if 0 < rq_MaxTokens q then rq_MaxTokens q else cf_TokenBudget c)\<rparr>"

definition policy_FitsTokenBudget :: "recallSelectionPolicy \<Rightarrow> int \<Rightarrow> int \<Rightarrow> bool" where
  "policy_FitsTokenBudget p usedTokens candidateTokens \<longleftrightarrow>
     po_TokenBudget p \<le> 0 \<or> usedTokens + candidateTokens \<le> po_TokenBudget p"

definition TokenBudgetRejectionReasons :: "recallSelectionPolicy \<Rightarrow> int \<Rightarrow> int \<Rightarrow> string list" where
  "TokenBudgetRejectionReasons p usedTokens candidateTokens =
     [''used_tokens='' @ Decimal usedTokens, ''candidate_tokens='' @ Decimal candidateTokens,
      ''token_budget='' @ Decimal (po_TokenBudget p)]"

definition TokenBudgetWarning :: "recallSelectionPolicy \<Rightarrow> RecallWarning" where
  "TokenBudgetWarning p =
     \<lparr>w_Code = ''token_budget_truncated'', w_Stage = ''select'', w_Severity = ''degraded'',
      w_Message = ''token budget truncated selected recall context'', w_Evidence = [(''token_budget'', Decimal (po_TokenBudget p))]\<rparr>"

definition estimateRecallTokens :: "string \<Rightarrow> int" where
  "estimateRecallTokens content =
     (let n = WordCount content in if n = 0 \<and> trim_space content \<noteq> [] then 1 else n)"

definition recallRejectedCandidate :: "Scored \<Rightarrow> string \<Rightarrow> string list \<Rightarrow> Rejected" where
  "recallRejectedCandidate it reason why =
     \<lparr>r_Candidate = s_Candidate it, r_Score = s_Score it, r_Reason = reason, r_Why = why\<rparr>"

definition recallScopeSelectionInputs :: "RecallQuery \<Rightarrow> Scored list \<Rightarrow> Scored list \<times> Rejected list \<times> RecallWarning list" where
  "recallScopeSelectionInputs q scored =
     (let eligible = filter (\<lambda>it. \<not> recallScopeMismatch q (s_Candidate it)) scored;
          rejected = map (\<lambda>it. recallRejectedCandidate it ''scope_mismatch''
              [''candidate_scope='' @ rc_ScopeID (s_Candidate it), ''query_scope='' @ rq_ScopeID q])
            (filter (\<lambda>it. recallScopeMismatch q (s_Candidate it)) scored) in
      (eligible, rejected,
       if scored \<noteq> [] \<and> eligible = [] \<and> length rejected = length scored
       then [\<lparr>w_Code = ''scope_excluded_all_candidates'', w_Stage = ''select'', w_Severity = ''degraded'',
              w_Message = ''scope filter excluded every recall candidate'', w_Evidence = [(''scope_id'', rq_ScopeID q)]\<rparr>]
       else []))"

definition recallHasSupersededEvidence :: "(string \<Rightarrow> string) \<Rightarrow> Scored list \<Rightarrow> bool" where
  "recallHasSupersededEvidence ulow its \<longleftrightarrow>
     list_ex (\<lambda>it. recallTemporalState ulow (rc_Provenance (s_Candidate it)) = TemporalSuperseded) its"

text \<open>The loop over the remaining candidates; the best score starts at minus infinity.\<close>

fun best_loop :: "(Scored \<Rightarrow> float64) \<Rightarrow> Scored list \<Rightarrow> nat list \<Rightarrow> nat \<Rightarrow> float64 \<Rightarrow> nat" where
  "best_loop eff remaining [] bestIdx bestScore = bestIdx"
| "best_loop eff remaining (i # is) bestIdx bestScore =
     (let e = eff (remaining ! i) in
      if fless bestScore e \<or> feq e bestScore \<and> compareScoredRecall (remaining ! i) (remaining ! bestIdx) < 0
      then best_loop eff remaining is i e
      else best_loop eff remaining is bestIdx bestScore)"

definition recallBestSelectionIndex :: "(string \<Rightarrow> string) \<Rightarrow> Scored list \<Rightarrow> Scored list \<Rightarrow> string \<Rightarrow> RecallScoringConfig \<Rightarrow> nat" where
  "recallBestSelectionIndex ulow remaining selected query c =
     best_loop (\<lambda>it. ad_Effective (recallSelectionAdjustmentFor ulow it selected query c)) remaining
       [0..<length remaining] 0 (FInf True)"

record recallSelectionFlow =
  fl_remaining :: "Scored list"
  fl_selected :: "Scored list"
  fl_rejected :: "Rejected list"
  fl_warnings :: "RecallWarning list"
  fl_usedTokens :: int

definition drop_idx :: "nat \<Rightarrow> 'a list \<Rightarrow> 'a list" where
  "drop_idx i xs = take i xs @ drop (i + 1) xs"

definition selectNextCandidate :: "(string \<Rightarrow> string) \<Rightarrow> RecallQuery \<Rightarrow> RecallScoringConfig \<Rightarrow> recallSelectionPolicy
    \<Rightarrow> recallSelectionFlow \<Rightarrow> recallSelectionFlow" where
  "selectNextCandidate ulow q c p f =
     (let bestIdx = recallBestSelectionIndex ulow (fl_remaining f) (fl_selected f) (rq_Query q) c;
          best = fl_remaining f ! bestIdx;
          chosen = applyRecallSelectionAdjustment best (recallSelectionAdjustmentFor ulow best (fl_selected f) (rq_Query q) c) True;
          tokenCost = estimateRecallTokens (rc_Content (s_Candidate chosen)) in
      if \<not> policy_FitsTokenBudget p (fl_usedTokens f) tokenCost then
        f\<lparr>fl_rejected := fl_rejected f @ [recallRejectedCandidate chosen ''token_budget''
              (TokenBudgetRejectionReasons p (fl_usedTokens f) tokenCost)],
          fl_warnings := appendRecallWarnings (fl_warnings f) [TokenBudgetWarning p],
          fl_remaining := drop_idx bestIdx (fl_remaining f)\<rparr>
      else
        f\<lparr>fl_usedTokens := fl_usedTokens f + tokenCost,
          fl_selected := fl_selected f @ [chosen],
          fl_remaining := drop_idx bestIdx (fl_remaining f)\<rparr>)"

lemma best_loop_range: "set is \<subseteq> {..<n} \<Longrightarrow> b < n \<Longrightarrow> best_loop eff rs is b s < n"
  by (induction eff rs "is" b s rule: best_loop.induct) (auto simp: Let_def)

lemma best_index_range: "rs \<noteq> [] \<Longrightarrow> recallBestSelectionIndex ulow rs sel query c < length rs"
  unfolding recallBestSelectionIndex_def by (rule best_loop_range) auto

lemma remaining_shrinks:
  "fl_remaining f \<noteq> [] \<Longrightarrow> length (fl_remaining (selectNextCandidate ulow q c p f)) < length (fl_remaining f)"
  using best_index_range [of "fl_remaining f" ulow "fl_selected f" "rq_Query q" c]
  by (simp add: selectNextCandidate_def Let_def drop_idx_def)

function select_loop :: "(string \<Rightarrow> string) \<Rightarrow> RecallQuery \<Rightarrow> RecallScoringConfig \<Rightarrow> recallSelectionPolicy
    \<Rightarrow> recallSelectionFlow \<Rightarrow> recallSelectionFlow" where
  "select_loop ulow q c p f =
     (if int (length (fl_selected f)) < po_Limit p \<and> 0 < length (fl_remaining f)
      then select_loop ulow q c p (selectNextCandidate ulow q c p f) else f)"
  by pat_completeness auto
termination
  by (relation "measure (\<lambda>(ulow, q, c, p, f). length (fl_remaining f))") (auto simp: remaining_shrinks)

declare select_loop.simps [simp del]

definition rejectUnselectedRemainder :: "(string \<Rightarrow> string) \<Rightarrow> RecallScoringConfig \<Rightarrow> recallSelectionPolicy \<Rightarrow> recallSelectionFlow
    \<Rightarrow> recallSelectionFlow" where
  "rejectUnselectedRemainder ulow c p f =
     f\<lparr>fl_rejected := fl_rejected f @ map (\<lambda>it. recallRejectedCandidate
         (applyRecallSelectionAdjustment it (recallRejectedSelectionAdjustmentFor ulow it (fl_selected f) c) False)
         ''not_selected'' [''limit='' @ Decimal (po_Limit p)]) (fl_remaining f)\<rparr>"

definition newRecallSelectionFlow :: "RecallQuery \<Rightarrow> Scored list \<Rightarrow> recallSelectionFlow" where
  "newRecallSelectionFlow q scored =
     (case recallScopeSelectionInputs q scored of (eligible, rejected, warnings) \<Rightarrow>
       \<lparr>fl_remaining = eligible, fl_selected = [], fl_rejected = rejected, fl_warnings = warnings, fl_usedTokens = 0\<rparr>)"

definition addTemporalWarnings :: "(string \<Rightarrow> string) \<Rightarrow> RecallQuery \<Rightarrow> recallSelectionFlow \<Rightarrow> recallSelectionFlow" where
  "addTemporalWarnings ulow q f =
     (if recallQueryAsksCurrentTruth (rq_Query q) \<and> recallHasSupersededEvidence ulow (fl_remaining f)
      then f\<lparr>fl_warnings := appendRecallWarnings (fl_warnings f)
        [\<lparr>w_Code = ''superseded_evidence_observed'', w_Stage = ''select'', w_Severity = ''info'',
          w_Message = ''recall candidates include superseded evidence; current-truth routing adjusted selection'', w_Evidence = []\<rparr>]\<rparr>
      else f)"

definition selectCandidates :: "(string \<Rightarrow> string) \<Rightarrow> RecallScoringConfig \<Rightarrow> RecallQuery \<Rightarrow> Scored list
    \<Rightarrow> Scored list \<times> Rejected list \<times> RecallWarning list" where
  "selectCandidates ulow c q scored =
     (let p = recallSelectionPolicyFor q c;
          f = rejectUnselectedRemainder ulow c p (select_loop ulow q c p (addTemporalWarnings ulow q (newRecallSelectionFlow q scored))) in
      (fl_selected f, fl_rejected f, fl_warnings f))"

section \<open>Diagnostics and the trace\<close>

fun voice_range :: "(RecallScore \<Rightarrow> float64) \<Rightarrow> Scored list \<Rightarrow> float64 \<times> float64 \<times> float64 \<Rightarrow> float64 \<times> float64 \<times> float64" where
  "voice_range get [] acc = acc"
| "voice_range get (it # its) (mx, mn, sm) =
     (let s = get (s_Score it) in
      voice_range get its
        (if fless mx s then s else mx, if fless mn (FZero False) \<or> fless s mn then s else mn, fadd sm s))"

definition buildRecallVoiceDiagnostics :: "Scored list \<Rightarrow> Scored list \<Rightarrow> RecallScoringConfig \<Rightarrow> RecallVoiceDiagnostic list" where
  "buildRecallVoiceDiagnostics scored selected c =
     map (\<lambda>(nm, get).
       (case voice_range get scored (FZero False, flit (- 1), FZero False) of (mx, mn, sm) \<Rightarrow>
         let avg = (if scored \<noteq> [] then fdiv sm (of_int64 (int (length scored))) else FZero False);
             mn' = (if fless mn (FZero False) then FZero False else mn) in
         \<lparr>vd_Name = nm, vd_Enabled = fless (FZero False) (weight_of c nm), vd_Weight = weight_of c nm,
          vd_CandidatesWith = length (filter (\<lambda>it. fless (FZero False) (get (s_Score it))) scored),
          vd_Max = Round mx, vd_Min = Round mn', vd_Avg = Round avg,
          vd_SelectedCount = length (filter (\<lambda>it. fless (FZero False) (get (s_Score it))) selected)\<rparr>))
       recallScoreSignals"

text \<open>What the digest covers.\<close>

record trace_view =
  tv_Query :: RecallQuery
  tv_CandidateIDs :: "string list"
  tv_ScoringVersion :: string
  tv_PipelineVersion :: string
  tv_Weights :: "(string \<times> float64) list"
  tv_DiversityKeys :: "string list"
  tv_RRFK :: int
  tv_MMRLambda :: float64
  tv_TokenBudget :: int

definition recallTraceID :: "(trace_view \<Rightarrow> string) \<Rightarrow> RecallTrace \<Rightarrow> string" where
  "recallTraceID digest t =
     digest \<lparr>tv_Query = tr_Query t, tv_CandidateIDs = map (rc_MemoryID \<circ> s_Candidate) (tr_Candidates t),
       tv_ScoringVersion = cf_Version (tr_ScoringConfig t), tv_PipelineVersion = tr_PipelineVersion t,
       tv_Weights = cf_Weights (tr_ScoringConfig t), tv_DiversityKeys = cf_DiversityKeys (tr_ScoringConfig t),
       tv_RRFK = cf_RRFK (tr_ScoringConfig t), tv_MMRLambda = cf_MMRLambda (tr_ScoringConfig t),
       tv_TokenBudget = cf_TokenBudget (tr_ScoringConfig t)\<rparr>"

record recall_engine =
  en_pipelineVersion :: string
  en_scoringConfig :: RecallScoringConfig

definition newRecallPipelineEngine :: "string \<Rightarrow> RecallScoringConfig \<Rightarrow> recall_engine" where
  "newRecallPipelineEngine pipelineVersion c =
     \<lparr>en_pipelineVersion = (if pipelineVersion = [] then ''goncho-recall-v1'' else pipelineVersion),
      en_scoringConfig = normalizeRecallScoringConfig c\<rparr>"

text \<open>
  \<open>gen\<close> is \<open>None\<close> for a nil generator; \<open>reporter\<close> are the warnings of a generator that reports some.
\<close>

definition Run :: "(string \<Rightarrow> string) \<Rightarrow> (float64 \<Rightarrow> float64) \<Rightarrow> (trace_view \<Rightarrow> string) \<Rightarrow> int \<Rightarrow> int \<Rightarrow> recall_engine
    \<Rightarrow> (RecallQuery \<Rightarrow> 'e + RecallCandidate list) option \<Rightarrow> RecallWarning list option \<Rightarrow> bool \<Rightarrow> RecallQuery
    \<Rightarrow> 'e recall_error + RecallTrace" where
  "Run ulow exp2 digest now1 now2 e gen reporter cancelled q =
     (case gen of
        None \<Rightarrow> Inl NilGenerator
      | Some generate \<Rightarrow>
          if cancelled then Inl ContextErr
          else case generate q of
            Inl err \<Rightarrow> Inl (GenerateErr err)
          | Inr candidates \<Rightarrow>
              let c = en_scoringConfig e;
                  scored = score ulow exp2 now1 c q candidates in
              case selectCandidates ulow c q scored of (selected, rejected, selectWarnings) \<Rightarrow>
              let trace = \<lparr>tr_TraceID = [], tr_PipelineVersion = en_pipelineVersion e, tr_CreatedAt = now2,
                    tr_Query = q, tr_ScoringConfig = c,
                    tr_Voices = buildRecallVoiceDiagnostics scored selected c,
                    tr_Candidates = scored, tr_Selected = selected, tr_Rejected = rejected,
                    tr_Warnings = appendRecallWarnings (case reporter of None \<Rightarrow> [] | Some ws \<Rightarrow> ws) selectWarnings\<rparr> in
              Inr (trace\<lparr>tr_TraceID := recallTraceID digest trace\<rparr>))"

section \<open>What selection keeps\<close>

definition tokens_of :: "Scored list \<Rightarrow> int" where
  "tokens_of its = sum_list (map (\<lambda>it. estimateRecallTokens (rc_Content (s_Candidate it))) its)"

lemma tokens_nonneg: "0 \<le> estimateRecallTokens s"
  by (simp add: estimateRecallTokens_def Let_def WordCount_def)

lemma tokens_append [simp]: "tokens_of (xs @ ys) = tokens_of xs + tokens_of ys"
  by (simp add: tokens_of_def)

lemma tokens_single [simp]: "tokens_of [it] = estimateRecallTokens (rc_Content (s_Candidate it))"
  by (simp add: tokens_of_def)

lemma candidate_apply [simp]: "s_Candidate (applyRecallSelectionAdjustment it a b) = s_Candidate it"
  by (simp add: applyRecallSelectionAdjustment_def Let_def)

lemma candidate_reject [simp]: "r_Candidate (recallRejectedCandidate it reason why) = s_Candidate it"
  "r_Reason (recallRejectedCandidate it reason why) = reason"
  by (simp_all add: recallRejectedCandidate_def)

lemma mset_drop_idx: "i < length xs \<Longrightarrow> mset xs = add_mset (xs ! i) (mset (drop_idx i xs))"
  by (metis id_take_nth_drop mset_append mset.simps(2) union_mset_add_mset_right drop_idx_def Suc_eq_plus1)

lemma set_drop_idx: "set (drop_idx i xs) \<subseteq> set xs"
  by (auto simp: drop_idx_def dest: in_set_takeD in_set_dropD)

definition rejected_ok :: "RecallQuery \<Rightarrow> recallSelectionPolicy \<Rightarrow> int \<Rightarrow> Rejected \<Rightarrow> bool" where
  "rejected_ok q p used r \<longleftrightarrow>
     (if recallScopeMismatch q (r_Candidate r) then r_Reason r = ''scope_mismatch''
      else r_Reason r = ''token_budget'' \<and> 0 < po_TokenBudget p
        \<and> po_TokenBudget p < used + estimateRecallTokens (rc_Content (r_Candidate r)))"

definition flow_inv :: "RecallQuery \<Rightarrow> recallSelectionPolicy \<Rightarrow> RecallCandidate multiset \<Rightarrow> recallSelectionFlow \<Rightarrow> bool" where
  "flow_inv q p all f \<longleftrightarrow>
     image_mset s_Candidate (mset (fl_remaining f)) + image_mset s_Candidate (mset (fl_selected f))
       + image_mset r_Candidate (mset (fl_rejected f)) = all
     \<and> (\<forall>it \<in> set (fl_remaining f) \<union> set (fl_selected f). \<not> recallScopeMismatch q (s_Candidate it))
     \<and> (\<forall>r \<in> set (fl_rejected f). rejected_ok q p (fl_usedTokens f) r)
     \<and> fl_usedTokens f = tokens_of (fl_selected f)
     \<and> (0 < po_TokenBudget p \<longrightarrow> fl_usedTokens f \<le> po_TokenBudget p)
     \<and> int (length (fl_selected f)) \<le> po_Limit p"

lemma select_next_inv:
  assumes inv: "flow_inv q p all f" and more: "int (length (fl_selected f)) < po_Limit p" "fl_remaining f \<noteq> []"
  shows "flow_inv q p all (selectNextCandidate ulow q c p f)"
proof -
  let ?i = "recallBestSelectionIndex ulow (fl_remaining f) (fl_selected f) (rq_Query q) c"
  let ?b = "fl_remaining f ! ?i"
  have i: "?i < length (fl_remaining f)" using more by (intro best_index_range)
  then have b: "?b \<in> set (fl_remaining f)" by simp
  have m: "mset (fl_remaining f) = add_mset ?b (mset (drop_idx ?i (fl_remaining f)))" by (rule mset_drop_idx [OF i])
  have sub: "set (drop_idx ?i (fl_remaining f)) \<subseteq> set (fl_remaining f)" by (rule set_drop_idx)
  show ?thesis
    using inv more b sub tokens_nonneg [of "rc_Content (s_Candidate ?b)"]
    unfolding flow_inv_def selectNextCandidate_def Let_def m
    by (auto simp: policy_FitsTokenBudget_def rejected_ok_def ac_simps)
qed

lemma select_loop_inv:
  "flow_inv q p all f \<Longrightarrow> flow_inv q p all (select_loop ulow q c p f)
     \<and> (fl_remaining (select_loop ulow q c p f) \<noteq> [] \<longrightarrow> int (length (fl_selected (select_loop ulow q c p f))) = po_Limit p)"
proof (induction ulow q c p f rule: select_loop.induct)
  case (1 ulow q c p f)
  show ?case
  proof (cases "int (length (fl_selected f)) < po_Limit p \<and> 0 < length (fl_remaining f)")
    case True
    then show ?thesis
      using "1.IH" [OF True select_next_inv [OF "1.prems"]] by (simp add: select_loop.simps [of ulow q c p f])
  next
    case False
    then show ?thesis
      using "1.prems" by (auto simp: select_loop.simps [of ulow q c p f] flow_inv_def)
  qed
qed

lemma candidates_updates:
  "map s_Candidate (fold (\<lambda>(rank, idx) its. its[idx := add_rrf (g rank) (its ! idx)]) ps its) = map s_Candidate its"
proof (induction ps arbitrary: its)
  case (Cons x ps)
  have "map s_Candidate (its[i := add_rrf y (its ! i)]) = map s_Candidate its" for i y
    by (cases "i < length its") (simp_all add: map_update add_rrf_def list_update_same_conv list_update_beyond)
  with Cons show ?case by (simp add: case_prod_beta)
qed simp

lemma candidates_rrf: "map s_Candidate (addRecallRRF c items) = map s_Candidate items"
proof -
  have "map s_Candidate (rrf_signal c sg its) = map s_Candidate its" for sg its
    by (simp add: rrf_signal_def Let_def candidates_updates)
  then have "map s_Candidate (fold (rrf_signal c) sgs its) = map s_Candidate its" for sgs its
    by (induction sgs arbitrary: its) auto
  then show ?thesis by (simp add: addRecallRRF_def comp_def)
qed

lemma candidate_finish [simp]: "s_Candidate (finish_score c it) = s_Candidate it"
  by (simp add: finish_score_def Let_def)

lemma candidates_score: "image_mset s_Candidate (mset (score ulow exp2 now c q cands)) = mset cands"
proof -
  let ?base = "map (\<lambda>cand. \<lparr>s_Candidate = cand, s_Score = candidate_score ulow exp2 now c q cand\<rparr>) cands"
  have "image_mset s_Candidate (mset (score ulow exp2 now c q cands)) = image_mset s_Candidate (mset (addRecallRRF c ?base))"
    by (simp add: score_def sortScoredRecall_def multiset.map_comp comp_def)
  also have "\<dots> = mset (map s_Candidate ?base)" by (metis candidates_rrf mset_map)
  finally show ?thesis by (simp add: comp_def)
qed

lemma flow_inv_warnings [simp]: "flow_inv q p all (f\<lparr>fl_warnings := ws\<rparr>) = flow_inv q p all f"
  by (simp add: flow_inv_def)

lemma filter_split: "image_mset g {#x \<in># M. \<not> P x#} + image_mset g {#x \<in># M. P x#} = image_mset g M"
  by (metis image_mset_union multiset_partition union_commute)

lemma start_inv:
  "flow_inv q (recallSelectionPolicyFor q c) (image_mset s_Candidate (mset scored)) (addTemporalWarnings ulow q (newRecallSelectionFlow q scored))"
proof -
  have "flow_inv q (recallSelectionPolicyFor q c) (image_mset s_Candidate (mset scored)) (newRecallSelectionFlow q scored)"
    using filter_split [of s_Candidate "\<lambda>it. recallScopeMismatch q (s_Candidate it)" "mset scored"]
    by (auto simp: newRecallSelectionFlow_def recallScopeSelectionInputs_def Let_def flow_inv_def rejected_ok_def tokens_of_def
        recallSelectionPolicyFor_def LimitDefault_def multiset.map_comp comp_def)
  then show ?thesis by (simp add: addTemporalWarnings_def)
qed

definition reject_reason :: "RecallQuery \<Rightarrow> recallSelectionPolicy \<Rightarrow> Scored list \<Rightarrow> Rejected \<Rightarrow> bool" where
  "reject_reason q p selected r \<longleftrightarrow>
     (if recallScopeMismatch q (r_Candidate r) then r_Reason r = ''scope_mismatch''
      else if r_Reason r = ''token_budget''
      then 0 < po_TokenBudget p \<and> po_TokenBudget p < tokens_of selected + estimateRecallTokens (rc_Content (r_Candidate r))
      else r_Reason r = ''not_selected'' \<and> int (length selected) = po_Limit p)"

lemma select_sound:
  assumes "selectCandidates ulow c q scored = (sel, rej, ws)" "p = recallSelectionPolicyFor q c"
  shows "image_mset s_Candidate (mset sel) + image_mset r_Candidate (mset rej) = image_mset s_Candidate (mset scored)
    \<and> int (length sel) \<le> po_Limit p \<and> (0 < po_TokenBudget p \<longrightarrow> tokens_of sel \<le> po_TokenBudget p)
    \<and> (\<forall>it \<in> set sel. \<not> recallScopeMismatch q (s_Candidate it)) \<and> (\<forall>r \<in> set rej. reject_reason q p sel r)"
proof -
  let ?f = "select_loop ulow q c p (addTemporalWarnings ulow q (newRecallSelectionFlow q scored))"
  have inv: "flow_inv q p (image_mset s_Candidate (mset scored)) ?f"
    and full: "fl_remaining ?f \<noteq> [] \<longrightarrow> int (length (fl_selected ?f)) = po_Limit p"
    using select_loop_inv [OF start_inv] unfolding assms(2) by blast+
  have "sel = fl_selected ?f" and rej: "rej = fl_rejected (rejectUnselectedRemainder ulow c p ?f)"
    using assms by (auto simp: selectCandidates_def rejectUnselectedRemainder_def Let_def)
  then show ?thesis
    using inv full
    by (auto simp: flow_inv_def rejectUnselectedRemainder_def reject_reason_def rejected_ok_def multiset.map_comp comp_def ac_simps)
qed

text \<open>
  C2. A successful recall run loses and invents nothing: the candidates of the trace are those of the
  generator, and each of them is either selected or rejected, once.  At most the limit is selected, and
  with a positive budget the selected contents stay within it; nothing outside the scope of the query is
  selected.  Every rejection has its reason: the scope differs, or the content would have exceeded the
  budget on top of what was selected, or the limit was reached.
\<close>

theorem recall_partition:
  assumes run: "Run ulow exp2 digest now1 now2 e (Some gen) reporter cancelled q = Inr t"
    and gen: "gen q = Inr cands" and p: "p = recallSelectionPolicyFor q (en_scoringConfig e)"
  shows "image_mset s_Candidate (mset (tr_Candidates t)) = mset cands
    \<and> image_mset s_Candidate (mset (tr_Selected t)) + image_mset r_Candidate (mset (tr_Rejected t)) = mset cands
    \<and> int (length (tr_Selected t)) \<le> po_Limit p \<and> (0 < po_TokenBudget p \<longrightarrow> tokens_of (tr_Selected t) \<le> po_TokenBudget p)
    \<and> (\<forall>it \<in> set (tr_Selected t). \<not> recallScopeMismatch q (s_Candidate it))
    \<and> (\<forall>r \<in> set (tr_Rejected t). reject_reason q p (tr_Selected t) r)"
proof -
  obtain sel rej ws where s: "selectCandidates ulow (en_scoringConfig e) q (score ulow exp2 now1 (en_scoringConfig e) q cands) = (sel, rej, ws)"
    by (metis prod_cases3)
  then have "tr_Candidates t = score ulow exp2 now1 (en_scoringConfig e) q cands" "tr_Selected t = sel" "tr_Rejected t = rej"
    using run gen by (auto simp: Run_def Let_def split: if_splits)
  with select_sound [OF s p] show ?thesis by (simp only: candidates_score) simp
qed

abbreviation sample_candidate :: "string \<Rightarrow> RecallCandidate" where
  "sample_candidate m \<equiv> \<lparr>rc_MemoryID = m, rc_SourceType = [], rc_Content = ''tea'', rc_SessionID = [], rc_AgentID = [],
    rc_ScopeID = [], rc_CreatedAt = 0, rc_Importance = FNum 1, rc_Provenance = []\<rparr>"

abbreviation sample_query :: RecallQuery where
  "sample_query \<equiv> \<lparr>rq_WorkspaceID = [], rq_Peer = [], rq_Query = [], rq_SessionKey = [], rq_ScopeID = [], rq_Sources = [],
    rq_Limit = 1, rq_MaxTokens = 0, rq_AgentID = [], rq_AgentScopeMode = []\<rparr>"

abbreviation sample_engine :: recall_engine where
  "sample_engine \<equiv> newRecallPipelineEngine [] \<lparr>cf_Version = ''v'', cf_Weights = [(''recency'', FNum 1)], cf_RRFK = 60,
    cf_MMRLambda = FNum 1, cf_DiversityKeys = [], cf_TokenBudget = 3\<rparr>"

abbreviation sample_scored :: "string \<Rightarrow> float64 \<Rightarrow> Scored" where
  "sample_scored m final \<equiv> \<lparr>s_Candidate = sample_candidate m, s_Score = \<lparr>sc_Keyword = FNum 1, sc_Semantic = FNum 1, sc_Graph = FNum 1,
    sc_Fact = FNum 1, sc_Recency = FNum 1, sc_Importance = FNum 1, sc_Scope = FNum 1, sc_RRF = FNum 1, sc_Diversity = FNum 1,
    sc_Final = final, sc_Why = []\<rparr>\<rparr>"

lemma Run_returns: "gen q = Inr cands \<Longrightarrow> \<exists>t. Run ulow exp2 digest now1 now2 e (Some gen) reporter False q = Inr t"
  by (simp add: Run_def Let_def split: prod.split)

theorem recall_partition_witness:
  "\<exists>t. Run (\<lambda>s. s) (\<lambda>x. x) (\<lambda>_. ''d'') 5 6 sample_engine (Some (\<lambda>_. Inr [sample_candidate ''a'', sample_candidate ''b''] :: unit + _)) None False sample_query = Inr t
    \<and> image_mset s_Candidate (mset (tr_Selected t)) + image_mset r_Candidate (mset (tr_Rejected t)) = {#sample_candidate ''a'', sample_candidate ''b''#}
    \<and> length (tr_Selected t) \<le> 1"
proof -
  have "\<exists>t. Run (\<lambda>s. s) (\<lambda>x. x) (\<lambda>_. ''d'') 5 6 sample_engine (Some (\<lambda>_. Inr [sample_candidate ''a'', sample_candidate ''b''] :: unit + _)) None False sample_query = Inr t"
    by (rule Run_returns) simp
  then obtain t where t: "Run (\<lambda>s. s) (\<lambda>x. x) (\<lambda>_. ''d'') 5 6 sample_engine (Some (\<lambda>_. Inr [sample_candidate ''a'', sample_candidate ''b''] :: unit + _)) None False sample_query = Inr t" ..
  from recall_partition [OF t refl refl] t show ?thesis
    by (auto simp: recallSelectionPolicyFor_def LimitDefault_def add_mset_commute)
qed

section \<open>The order of scored candidates\<close>

definition comparable :: "Scored set" where
  "comparable = {it. \<not> is_nan (sc_Final (s_Score it)) \<and> \<not> is_nan (sc_RRF (s_Score it))}"

definition scored_less :: "Scored \<Rightarrow> Scored \<Rightarrow> bool" where
  "scored_less l r \<longleftrightarrow> compareScoredRecall l r < 0"

lemma scored_less_iff:
  "l \<in> comparable \<Longrightarrow> r \<in> comparable \<Longrightarrow> scored_less l r \<longleftrightarrow>
     fless (sc_Final (s_Score r)) (sc_Final (s_Score l))
     \<or> feq (sc_Final (s_Score l)) (sc_Final (s_Score r)) \<and>
        (fless (sc_RRF (s_Score r)) (sc_RRF (s_Score l))
         \<or> feq (sc_RRF (s_Score l)) (sc_RRF (s_Score r)) \<and> rc_MemoryID (s_Candidate l) < rc_MemoryID (s_Candidate r))"
  by (auto simp: scored_less_def compareScoredRecall_def comparable_def dest: fless_not_feq feq_sym)

lemma lex_trans:
  "fless b a \<or> feq a b \<and> P \<Longrightarrow> fless c b \<or> feq b c \<and> Q \<Longrightarrow> (P \<Longrightarrow> Q \<Longrightarrow> feq a b \<Longrightarrow> feq b c \<Longrightarrow> R) \<Longrightarrow> fless c a \<or> feq a c \<and> R"
  by (meson feq_sym feq_trans fless_feq fless_trans)

interpretation scored_order: keyed_order comparable scored_less "\<lambda>it. rc_MemoryID (s_Candidate it)"
proof
  fix x y z
  assume xy: "x \<in> comparable" "y \<in> comparable"
  show "\<not> scored_less x x" if "x \<in> comparable" for x
    using that by (auto simp: scored_less_iff)
  show "rc_MemoryID (s_Candidate x) = rc_MemoryID (s_Candidate y)" if "\<not> scored_less x y" "\<not> scored_less y x"
    using that xy fless_linear by (auto simp: scored_less_iff comparable_def)
  assume z: "z \<in> comparable" and l: "scored_less x y" "scored_less y z"
  show "scored_less x z"
    unfolding scored_less_iff [OF xy(1) z]
    by (rule lex_trans [OF l [unfolded scored_less_iff [OF xy] scored_less_iff [OF xy(2) z]]])
      (erule (1) lex_trans, rule less_trans)
qed

lemma sort_scored: "sortScoredRecall = SliceStable scored_less"
  by (simp add: fun_eq_iff sortScoredRecall_def scored_less_def [abs_def])

section \<open>The greedy choice\<close>

definition better :: "(Scored \<Rightarrow> float64) \<Rightarrow> Scored \<Rightarrow> Scored \<Rightarrow> bool" where
  "better eff x y \<longleftrightarrow> fless (eff y) (eff x) \<or> feq (eff x) (eff y) \<and> scored_less x y"

lemma better_trans: "x \<in> comparable \<Longrightarrow> y \<in> comparable \<Longrightarrow> z \<in> comparable \<Longrightarrow> better eff x y \<Longrightarrow> better eff y z \<Longrightarrow> better eff x z"
  unfolding better_def by (erule lex_trans, assumption) (rule scored_order.trans)


lemma better_irrefl: "x \<in> comparable \<Longrightarrow> \<not> better eff x x"
  by (simp add: better_def scored_order.irrefl)

lemma best_loop_optimal:
  assumes "set rs \<subseteq> comparable"
  shows "set is \<subseteq> {..<length rs} \<Longrightarrow> b < length rs \<Longrightarrow> seen \<subseteq> {..<length rs} \<Longrightarrow> (\<And>j. j \<in> seen \<Longrightarrow> \<not> better eff (rs ! j) (rs ! b))
    \<Longrightarrow> j \<in> seen \<union> set is \<Longrightarrow> \<not> better eff (rs ! j) (rs ! best_loop eff rs is b (eff (rs ! b)))"
proof (induction "is" arbitrary: b seen)
  case (Cons i "is")
  have comp: "k < length rs \<Longrightarrow> rs ! k \<in> comparable" for k using assms by auto
  have i: "i < length rs" using Cons.prems by simp
  show ?case
  proof (cases "better eff (rs ! i) (rs ! b)")
    case True
    have "\<not> better eff (rs ! k) (rs ! i)" if "k \<in> insert i seen" for k
      using that Cons.prems(2-4) i True better_trans [of "rs ! k" "rs ! i" "rs ! b" eff] comp better_irrefl by auto
    then have "\<not> better eff (rs ! j) (rs ! best_loop eff rs is i (eff (rs ! i)))"
      using Cons.prems i by (intro Cons.IH [of i "insert i seen"]) auto
    with True show ?thesis by (simp add: better_def scored_less_def Let_def)
  next
    case False
    then have "\<not> better eff (rs ! j) (rs ! best_loop eff rs is b (eff (rs ! b)))"
      using Cons.prems i by (intro Cons.IH [of b "insert i seen"]) auto
    with False show ?thesis unfolding better_def scored_less_def by (auto simp: Let_def)
  qed
qed simp

lemma best_loop_start:
  assumes "rs \<noteq> []" "\<not> is_nan (eff (rs ! 0))" "rs ! 0 \<in> comparable"
  shows "best_loop eff rs [0..<length rs] 0 (FInf True) = best_loop eff rs [1..<length rs] 0 (eff (rs ! 0))"
proof -
  have "compareScoredRecall (rs ! 0) (rs ! 0) \<ge> 0"
    using scored_order.irrefl [OF assms(3)] by (simp add: scored_less_def)
  moreover have "fless (FInf True) (eff (rs ! 0)) \<or> eff (rs ! 0) = FInf True"
    using assms(2) by (cases "eff (rs ! 0)") (auto simp: fless_def split: if_splits)
  ultimately show ?thesis
    using assms(1) by (auto simp: upt_conv_Cons Let_def)
qed

text \<open>
  C25. Selection is greedy and deterministic: among the remaining candidates the index chosen is one than
  which no other has a higher effective score, nor an equal one with a better place in the order by final
  score, fusion score and memory id, as long as no score involved is NaN.
\<close>

theorem greedy_choice_best:
  assumes "remaining \<noteq> []"
    and "\<forall>it \<in> set remaining. \<not> is_nan (sc_Final (s_Score it)) \<and> \<not> is_nan (sc_RRF (s_Score it)) \<and> \<not> is_nan (eff it)"
    and "eff = (\<lambda>it. ad_Effective (recallSelectionAdjustmentFor ulow it selected query c))"
    and "it \<in> set remaining"
  shows "\<not> better eff it (remaining ! recallBestSelectionIndex ulow remaining selected query c)"
proof -
  obtain j where j: "j < length remaining" "it = remaining ! j" using assms(4) by (auto simp: in_set_conv_nth)
  have comp: "set remaining \<subseteq> comparable" using assms(2) by (auto simp: comparable_def)
  have 0: "remaining ! 0 \<in> comparable" "\<not> is_nan (eff (remaining ! 0))" using comp assms(1,2) by auto
  have "\<not> better eff (remaining ! j) (remaining ! best_loop eff remaining [1..<length remaining] 0 (eff (remaining ! 0)))"
    using assms(1) j 0 by (intro best_loop_optimal [OF comp, where seen = "{0}"]) (auto simp: better_irrefl)
  then show ?thesis
    using best_loop_start [where eff = eff, OF assms(1) 0(2,1)] by (simp add: recallBestSelectionIndex_def j(2) flip: assms(3))
qed

theorem greedy_choice_best_witness:
  "\<not> better (\<lambda>it. ad_Effective (recallSelectionAdjustmentFor (\<lambda>s. s) it [] [] (en_scoringConfig sample_engine))) (sample_scored ''b'' (FInf False))
     ([sample_scored ''a'' (FInf True), sample_scored ''b'' (FInf False)]
       ! recallBestSelectionIndex (\<lambda>s. s) [sample_scored ''a'' (FInf True), sample_scored ''b'' (FInf False)] [] [] (en_scoringConfig sample_engine))"
  by (rule greedy_choice_best [OF _ _ refl])
    (simp_all add: recallSelectionAdjustmentFor_def Let_def recallDiversityPenalty_def recallCoverageBonus_def recallTemporalAdjustment_def
      recallSpeakerAdjustment_def recallQueryAsksCurrentTruth_def recallQueryHasAnyToken_def recallIntentTokens_def Words_def
      fields_from.simps Lower_def Space_def to_lower_def fadd_def fsub_def)

end
