(* ===== verification/RecallRanking.thy ===== *)
theory RecallRanking
  imports RecallPipeline
begin

text \<open>
  The ranking of the recall pipeline: fusion computed item by item, the ranges of all scores, and the
  independence of a recall from the order in which its candidates were generated.
\<close>

section \<open>Fusion item by item\<close>

definition pos_in :: "'a list \<Rightarrow> 'a \<Rightarrow> nat" where
  "pos_in xs x = length (takeWhile (\<lambda>y. y \<noteq> x) xs)"

lemma pos_in_le: "x \<in> set xs \<Longrightarrow> pos_in xs x < length xs"
  unfolding pos_in_def by (induction xs) auto

lemma pos_in_map: "inj_on f (insert x (set xs)) \<Longrightarrow> pos_in (map f xs) (f x) = pos_in xs x"
  unfolding pos_in_def by (induction xs) (auto simp: inj_on_def)

lemma length_fold_updates: "length (fold (\<lambda>(rank, idx) its. its[idx := f rank idx its]) ps its) = length its"
  by (induction ps arbitrary: its) auto

lemma fold_updates_nth:
  "distinct ixs \<Longrightarrow> set ixs \<subseteq> {..<length its} \<Longrightarrow> i < length its \<Longrightarrow>
    fold (\<lambda>(rank, idx) its. its[idx := f rank (its ! idx)]) (List.enumerate n ixs) its ! i
      = (if i \<in> set ixs then f (n + pos_in ixs i) (its ! i) else its ! i)"
proof (induction ixs arbitrary: n its)
  case (Cons k ixs)
  have "fold (\<lambda>(rank, idx) its. its[idx := f rank (its ! idx)]) (List.enumerate (Suc n) ixs) (its[k := f n (its ! k)]) ! i
      = (if i \<in> set ixs then f (Suc n + pos_in ixs i) (its[k := f n (its ! k)] ! i) else its[k := f n (its ! k)] ! i)"
    using Cons.prems by (intro Cons.IH) auto
  with Cons.prems show ?case by (auto simp: pos_in_def nth_list_update)
qed simp

lemma fold_updates_map:
  assumes "distinct its" "distinct ixs" "set ixs \<subseteq> {..<length its}"
  shows "fold (\<lambda>(rank, idx) its. its[idx := f rank (its ! idx)]) (List.enumerate 0 ixs) its
    = map (\<lambda>it. if it \<in> set (map ((!) its) ixs) then f (pos_in (map ((!) its) ixs) it) it else it) its"
proof (rule nth_equalityI)
  fix i assume "i < length (fold (\<lambda>(rank, idx) its. its[idx := f rank (its ! idx)]) (List.enumerate 0 ixs) its)"
  then have i: "i < length its" by (simp add: length_fold_updates)
  have inj: "inj_on ((!) its) {..<length its}" using assms(1) by (simp add: inj_on_def nth_eq_iff_index_eq)
  then have "its ! i \<in> set (map ((!) its) ixs) \<longleftrightarrow> i \<in> set ixs"
    using i assms(3) by (auto dest!: inj_onD)
  moreover have "pos_in (map ((!) its) ixs) (its ! i) = pos_in ixs i"
    using i assms(3) by (intro pos_in_map inj_on_subset [OF inj]) auto
  ultimately show "fold (\<lambda>(rank, idx) its. its[idx := f rank (its ! idx)]) (List.enumerate 0 ixs) its ! i
    = map (\<lambda>it. if it \<in> set (map ((!) its) ixs) then f (pos_in (map ((!) its) ixs) it) it else it) its ! i"
    using fold_updates_nth [OF assms(2,3) i, of f 0] i by simp
qed (simp add: length_fold_updates)

lemma signal_less_iff:
  "\<not> is_nan (get (s_Score l)) \<Longrightarrow> \<not> is_nan (get (s_Score r)) \<Longrightarrow> signal_less get l r \<longleftrightarrow>
     fless (get (s_Score r)) (get (s_Score l))
     \<or> feq (get (s_Score l)) (get (s_Score r)) \<and> rc_MemoryID (s_Candidate l) < rc_MemoryID (s_Candidate r)"
  by (auto simp: signal_less_def dest: fless_not_feq feq_sym)

interpretation signal_order: keyed_order "{it :: Scored. \<not> is_nan (get (s_Score it))}" "signal_less get" "\<lambda>it. rc_MemoryID (s_Candidate it)" for get
proof
  fix x y z :: Scored
  assume xy: "x \<in> {it. \<not> is_nan (get (s_Score it))}" "y \<in> {it. \<not> is_nan (get (s_Score it))}"
  show "\<not> signal_less get x x" if "x \<in> {it. \<not> is_nan (get (s_Score it))}" for x :: Scored
    using that by (auto simp: signal_less_iff)
  show "rc_MemoryID (s_Candidate x) = rc_MemoryID (s_Candidate y)" if "\<not> signal_less get x y" "\<not> signal_less get y x"
    using that xy fless_linear [of "get (s_Score x)" "get (s_Score y)"] by (auto simp: signal_less_iff dest: feq_sym)
  assume z: "z \<in> {it. \<not> is_nan (get (s_Score it))}" and l: "signal_less get x y" "signal_less get y z"
  show "signal_less get x z"
    using lex_trans [of "get (s_Score y)" "get (s_Score x)" "rc_MemoryID (s_Candidate x) < rc_MemoryID (s_Candidate y)"
        "get (s_Score z)" "rc_MemoryID (s_Candidate y) < rc_MemoryID (s_Candidate z)"
        "rc_MemoryID (s_Candidate x) < rc_MemoryID (s_Candidate z)"] l xy z
    by (simp add: signal_less_iff)
qed

text \<open>The ranking of a signal, and what it adds to an item.\<close>

definition signal_ranking :: "(RecallScore \<Rightarrow> float64) \<Rightarrow> Scored list \<Rightarrow> Scored list" where
  "signal_ranking get items = SliceStable (signal_less get) (filter (\<lambda>it. \<not> fle (get (s_Score it)) (FZero False)) items)"

definition rrf_item :: "RecallScoringConfig \<Rightarrow> string \<times> (RecallScore \<Rightarrow> float64) \<Rightarrow> Scored list \<Rightarrow> Scored \<Rightarrow> Scored" where
  "rrf_item c sg ranking it =
     (if feq (weight_of c (fst sg)) (FZero False) \<or> it \<notin> set ranking then it
      else add_rrf (fdiv (weight_of c (fst sg)) (of_int64 (wrap64 (cf_RRFK c + int (pos_in ranking it) + 1)))) it)"

lemma ranked_indexes:
  "map ((!) items) (rankedRecallSignalIndexes items get) = signal_ranking get items"
  "distinct (rankedRecallSignalIndexes items get)" "set (rankedRecallSignalIndexes items get) \<subseteq> {..<length items}"
proof -
  let ?P = "\<lambda>it. \<not> fle (get (s_Score it)) (FZero False)"
  have "map ((!) items) (filter (\<lambda>i. ?P (items ! i)) [0..<length items]) = filter ?P (map ((!) items) [0..<length items])"
    by (simp add: filter_map comp_def)
  also have "\<dots> = filter ?P items" by (simp only: map_nth)
  finally show "map ((!) items) (rankedRecallSignalIndexes items get) = signal_ranking get items"
    unfolding rankedRecallSignalIndexes_def signal_ranking_def
    by (subst map_SliceStable [where lt' = "signal_less get"]) simp_all
  show "distinct (rankedRecallSignalIndexes items get)"
    unfolding rankedRecallSignalIndexes_def
    by (metis (no_types, lifting) distinct_filter distinct_upt mset_SliceStable mset_eq_imp_distinct_iff)
  show "set (rankedRecallSignalIndexes items get) \<subseteq> {..<length items}"
    by (auto simp: rankedRecallSignalIndexes_def)
qed

lemma rrf_signal_map:
  assumes "distinct items"
  shows "rrf_signal c sg items = map (rrf_item c sg (signal_ranking (snd sg) items)) items"
proof (cases "feq (weight_of c (fst sg)) (FZero False)")
  case True
  then show ?thesis by (simp add: rrf_signal_def rrf_item_def map_idI)
next
  case False
  then show ?thesis
    using fold_updates_map [OF assms ranked_indexes(2,3), of "\<lambda>rank. add_rrf (fdiv (weight_of c (fst sg)) (of_int64 (wrap64 (cf_RRFK c + int rank + 1))))" "snd sg"]
    by (auto simp: rrf_signal_def rrf_item_def Let_def ranked_indexes(1))
qed

definition rankable :: "Scored list \<Rightarrow> bool" where
  "rankable its \<longleftrightarrow> distinct (map (\<lambda>it. rc_MemoryID (s_Candidate it)) its)
     \<and> (\<forall>it \<in> set its. \<forall>sg \<in> set recallScoreSignals. \<not> is_nan (snd sg (s_Score it)))"

lemma rrf_item_keeps:
  "s_Candidate (rrf_item c sg r it) = s_Candidate it"
  "sg' \<in> set recallScoreSignals \<Longrightarrow> snd sg' (s_Score (rrf_item c sg r it)) = snd sg' (s_Score it)"
  "sc_Final (s_Score (rrf_item c sg r it)) = sc_Final (s_Score it)"
  by (auto simp: rrf_item_def add_rrf_def recallScoreSignals_def)

lemma rankable_distinct: "rankable its \<Longrightarrow> distinct its"
  by (simp add: rankable_def distinct_map)

lemma rankable_perm: "mset xs = mset ys \<Longrightarrow> rankable xs \<longleftrightarrow> rankable ys"
  unfolding rankable_def by (metis mset_eq_imp_distinct_iff mset_eq_setD mset_map)

lemma ranking_perm:
  assumes "mset xs = mset ys" "rankable xs" "sg \<in> set recallScoreSignals"
  shows "signal_ranking (snd sg) xs = signal_ranking (snd sg) ys"
  unfolding signal_ranking_def
proof (rule signal_order.sort_perm)
  show "mset (filter (\<lambda>it. \<not> fle (snd sg (s_Score it)) (FZero False)) xs) = mset (filter (\<lambda>it. \<not> fle (snd sg (s_Score it)) (FZero False)) ys)"
    using assms(1) by (simp add: mset_filter)
  show "set (filter (\<lambda>it. \<not> fle (snd sg (s_Score it)) (FZero False)) xs) \<subseteq> {it. \<not> is_nan (snd sg (s_Score it))}"
    using assms(2,3) by (auto simp: rankable_def)
  show "distinct (map (\<lambda>it. rc_MemoryID (s_Candidate it)) (filter (\<lambda>it. \<not> fle (snd sg (s_Score it)) (FZero False)) xs))"
    using assms(2) by (simp add: rankable_def distinct_map_filter)
qed

lemma rrf_signal_rankable: "rankable its \<Longrightarrow> sg \<in> set recallScoreSignals \<Longrightarrow> rankable (rrf_signal c sg its)"
  by (simp add: rrf_signal_map rankable_distinct) (auto simp: rankable_def rrf_item_keeps comp_def)

lemma rrf_signal_perm:
  "mset xs = mset ys \<Longrightarrow> rankable xs \<Longrightarrow> sg \<in> set recallScoreSignals \<Longrightarrow> mset (rrf_signal c sg xs) = mset (rrf_signal c sg ys)"
  using ranking_perm [of xs ys sg] rankable_perm [of xs ys]
  by (simp add: rrf_signal_map rankable_distinct)

lemma rrf_perm:
  assumes "mset xs = mset ys" "rankable xs"
  shows "mset (addRecallRRF c xs) = mset (addRecallRRF c ys)"
proof -
  have "mset (fold (rrf_signal c) sgs xs) = mset (fold (rrf_signal c) sgs ys)" if "set sgs \<subseteq> set recallScoreSignals" for sgs
    using that assms
  proof (induction sgs arbitrary: xs ys)
    case (Cons sg sgs)
    show ?case
      using Cons.IH [OF _ rrf_signal_perm [OF Cons.prems(2,3)] rrf_signal_rankable [OF Cons.prems(3)]] Cons.prems by simp
  qed simp
  from this [of recallScoreSignals] show ?thesis
    using assms(1) by (auto simp: addRecallRRF_def)
qed

section \<open>Score ranges\<close>

lemma fadd_between:
  assumes "between (of_int a) (of_int b) x" "between (of_int c) (of_int d) y" "\<bar>a + c\<bar> < 2 ^ 53" "\<bar>b + d\<bar> < 2 ^ 53"
  shows "between (of_int (a + c)) (of_int (b + d)) (fadd x y)"
  using assms fround_between [of "a + c" "fval x + fval y" "b + d"]
  by (auto simp: between_fval fadd_def)

lemma fmul_unit: "unit_score x \<Longrightarrow> unit_score y \<Longrightarrow> unit_score (fmul x y)"
  using fround_between [of 0 "fval x * fval y" 1] mult_mono [of "fval x" 1 "fval y" 1]
  by (auto simp: between_fval fmul_def Let_def)

lemma fdiv_unit: "unit_score x \<Longrightarrow> 1 \<le> y \<Longrightarrow> unit_score (fdiv x (FNum y))"
  using fround_between [of 0 "fval x / y" 1]
  by (auto simp: between_fval fdiv_def Let_def divide_le_eq)

lemma Round_range:
  assumes "between 0 (of_int m) x" "0 \<le> m" "m < 1000"
  shows "between 0 (of_int m) (Round x)"
proof -
  have "0 \<le> fval x * 1000000" "fval x * 1000000 \<le> of_int (m * 1000000)"
    using assms(1) by (auto simp: between_fval)
  then have "between (of_int 0) (of_int (m * 1000000)) (fmul x (flit 1000000))"
    using assms fround_between [of 0 "fval x * 1000000" "m * 1000000"]
    by (auto simp: between_fval fmul_def Let_def flit_million)
  then have r: "between (of_int 0) (of_int (m * 1000000)) (math_Round (fmul x (flit 1000000)))"
    by (rule Round_between)
  then have "0 \<le> fval (math_Round (fmul x (flit 1000000))) / 1000000" "fval (math_Round (fmul x (flit 1000000))) / 1000000 \<le> of_int m"
    by (auto simp: between_fval)
  then show ?thesis
    using r assms(2,3) fround_between [of 0 "fval (math_Round (fmul x (flit 1000000))) / 1000000" m]
    by (auto simp: between_fval Round_def flit_million fdiv_def Let_def)
qed

lemma maxEvidence_unit: "\<not> is_nan fallback \<Longrightarrow> unit_score (maxEvidenceScore es kind fallback)"
proof -
  assume "\<not> is_nan fallback"
  then have "\<not> is_nan (fold (\<lambda>e score. if ei_Kind e \<noteq> kind then score else if fless score (ei_Score e) then ei_Score e else score) es fallback)"
  proof (induction es arbitrary: fallback)
    case (Cons e es)
    then show ?case by (auto simp: fless_def)
  qed simp
  then show ?thesis by (simp add: maxEvidenceScore_def Clamp_unit)
qed

lemma wrap64_id: "in_int64 n \<Longrightarrow> wrap64 n = n"
  by (simp add: wrap64_def in_int64_def min_int64_def max_int64_def)

lemma weight_unit: "\<forall>(nm, w) \<in> set (cf_Weights c). unit_score w \<Longrightarrow> unit_score (weight_of c nm)"
  by (auto simp: weight_of_def split: option.split dest: map_of_SomeD)

text \<open>What the float ranges rest on: weights in the unit interval, a rank constant that does not overflow, no NaN.\<close>

definition recall_inputs_ok :: "(string \<Rightarrow> string) \<Rightarrow> RecallScoringConfig \<Rightarrow> RecallQuery \<Rightarrow> RecallCandidate list \<Rightarrow> bool" where
  "recall_inputs_ok ulow c q cands \<longleftrightarrow>
     (\<forall>(nm, w) \<in> set (cf_Weights c). unit_score w) \<and> 0 < cf_RRFK c \<and> cf_RRFK c + int (length cands) \<le> max_int64
     \<and> (\<forall>cand \<in> set cands. \<not> is_nan (rc_Importance cand))
     \<and> int (length (LowerAlnum ulow (Lower ulow (rq_Query q)))) \<le> max_int64"

definition signals_ok :: "int \<Rightarrow> Scored \<Rightarrow> bool" where
  "signals_ok k it \<longleftrightarrow> (\<forall>sg \<in> set recallScoreSignals. unit_score (snd sg (s_Score it)))
     \<and> unit_score (sc_Final (s_Score it)) \<and> between 0 (of_int k) (sc_RRF (s_Score it))"

lemma weighted_unit:
  assumes "\<forall>(nm, w) \<in> set (cf_Weights c). unit_score w" "\<forall>sg \<in> set recallScoreSignals. unit_score (snd sg sc)"
  shows "unit_score (weightedRecallScore sc c)"
proof -
  have "between 0 (of_int (k + int (length sgs))) (fold (\<lambda>(nm, get) total. fadd total (fmul (weight_of c nm) (get sc))) sgs t)"
    if "between 0 (of_int k) t" "0 \<le> k" "k + int (length sgs) < 1000" "set sgs \<subseteq> set recallScoreSignals" for k sgs t
    using that
  proof (induction sgs arbitrary: k t)
    case (Cons sg sgs)
    obtain nm get where sg: "sg = (nm, get)" by fastforce
    have "unit_score (fmul (weight_of c nm) (get sc))"
      using assms(2) Cons.prems(4) sg by (intro fmul_unit weight_unit [OF assms(1)]) auto
    then have "between 0 (of_int (k + 1)) (fadd t (fmul (weight_of c nm) (get sc)))"
      using fadd_between [of 0 k t 0 1 "fmul (weight_of c nm) (get sc)"] Cons.prems by simp
    then show ?case using Cons.IH [of "k + 1"] Cons.prems sg by (simp add: ac_simps)
  qed simp
  from this [of 0 "FZero False" recallScoreSignals] show ?thesis
    unfolding weightedRecallScore_def by (intro Clamp_unit) (auto simp: between_fval recallScoreSignals_def)
qed

lemma scope_unit: "unit_score (scopeRecallScore q cand)"
proof -
  have "unit_score (flit (1 / 2))"
    using fround_between [of 0 "1 / 2" 1 False] by (simp add: flit_def)
  then show ?thesis by (simp add: scopeRecallScore_def Let_def)
qed

lemma candidate_score_ok:
  assumes ok: "recall_inputs_ok ulow c q cands" and cand: "cand \<in> set cands" and exp2: "\<And>x. \<not> is_nan x \<Longrightarrow> \<not> is_nan (exp2 x)"
  shows "signals_ok 0 \<lparr>s_Candidate = cand, s_Score = candidate_score ulow exp2 now c q cand\<rparr>"
proof -
  have kw: "\<not> is_nan (Keyword ulow (rc_Content cand) (rq_Query q))"
    using ok Keyword_unit by (auto simp: recall_inputs_ok_def between_fval)
  have rec: "unit_score (Recency exp2 (rc_CreatedAt cand) now DefaultDecayHalfLife)"
  proof (cases "time_Sub now (rc_CreatedAt cand) \<le> 0")
    case False
    have "time_Sub now (rc_CreatedAt cand) \<le> max_int64" by (simp add: time_Sub_def max_int64_def min_int64_def)
    with False of_int64_pos [of "time_Sub now (rc_CreatedAt cand)"] of_int64_pos [of DefaultDecayHalfLife]
    have "\<not> is_nan (fneg (fdiv (of_int64 (time_Sub now (rc_CreatedAt cand))) (of_int64 DefaultDecayHalfLife)))"
      by (auto simp: fdiv_def Let_def DefaultDecayHalfLife_def max_int64_def fround_def)
    then show ?thesis by (intro Recency_unit exp2)
  qed (simp add: Recency_def)
  have imp: "unit_score (Clamp (rc_Importance cand))"
    using ok cand by (intro Clamp_unit) (simp add: recall_inputs_ok_def)
  have ev: "unit_score (Round (maxEvidenceScore es kind fb))" if "\<not> is_nan fb" for es kind fb
    using that by (intro Round_unit maxEvidence_unit)
  let ?s = "candidate_score ulow exp2 now c q cand"
  have sig: "\<forall>sg \<in> set recallScoreSignals. unit_score (snd sg ?s)"
    using ev kw rec imp scope_unit [of q cand]
    by (simp add: recallScoreSignals_def candidate_score_def Let_def Round_unit)
  moreover have "unit_score (sc_Final ?s)"
  proof -
    have "sc_Final ?s = Round (weightedRecallScore ?s c)"
      by (simp add: candidate_score_def Let_def weightedRecallScore_def recallScoreSignals_def)
    then show ?thesis using ok sig by (simp add: Round_unit weighted_unit recall_inputs_ok_def)
  qed
  moreover have "between 0 (of_int 0) (sc_RRF ?s)"
    using Round_range [of 0 "FZero False"] by (simp add: candidate_score_def Let_def)
  ultimately show ?thesis by (simp add: signals_ok_def)
qed


lemma rrf_signal_item:
  assumes "it' \<in> set (rrf_signal c sg items)"
  shows "\<exists>it \<in> set items. it' = it \<or> (\<exists>rank < length items.
    it' = add_rrf (fdiv (weight_of c (fst sg)) (of_int64 (wrap64 (cf_RRFK c + int rank + 1)))) it)"
proof (cases "feq (weight_of c (fst sg)) (FZero False)")
  case True
  with assms show ?thesis by (auto simp: rrf_signal_def)
next
  case False
  let ?ixs = "rankedRecallSignalIndexes items (snd sg)"
  let ?f = "\<lambda>rank. add_rrf (fdiv (weight_of c (fst sg)) (of_int64 (wrap64 (cf_RRFK c + int rank + 1))))"
  have sig: "rrf_signal c sg items = fold (\<lambda>(rank, idx) its. its[idx := ?f rank (its ! idx)]) (List.enumerate 0 ?ixs) items"
    using False by (simp add: rrf_signal_def Let_def)
  then obtain i where i: "i < length items" "it' = rrf_signal c sg items ! i"
    using assms by (auto simp: in_set_conv_nth length_fold_updates)
  have "pos_in ?ixs i < length items" if "i \<in> set ?ixs"
  proof -
    have "pos_in ?ixs i < length ?ixs" using that by (rule pos_in_le)
    also have "\<dots> \<le> length items"
      unfolding rankedRecallSignalIndexes_def length_SliceStable by (metis length_filter_le length_upt minus_nat.diff_0)
    finally show ?thesis .
  qed
  then show ?thesis
    using i fold_updates_nth [OF ranked_indexes(2,3) i(1), of ?f 0 "snd sg"] unfolding sig
    by (auto intro!: bexI [of _ "items ! i"])
qed

lemma add_rrf_ok: "signals_ok k it \<Longrightarrow> unit_score x \<Longrightarrow> 0 \<le> k \<Longrightarrow> k < 1000 \<Longrightarrow> signals_ok (k + 1) (add_rrf x it)"
  using fadd_between [of 0 k "sc_RRF (s_Score it)" 0 1 x]
  by (auto simp: signals_ok_def add_rrf_def recallScoreSignals_def)

lemma signals_ok_mono: "signals_ok k it \<Longrightarrow> k \<le> m \<Longrightarrow> signals_ok m it"
  by (auto simp: signals_ok_def elim!: between_weaken)

lemma rrf_share_unit:
  "unit_score w \<Longrightarrow> 0 < k \<Longrightarrow> k + int n \<le> max_int64 \<Longrightarrow> rank < n \<Longrightarrow> unit_score (fdiv w (of_int64 (wrap64 (k + int rank + 1))))"
proof -
  assume a: "unit_score w" "0 < k" "k + int n \<le> max_int64" "rank < n"
  then have "wrap64 (k + int rank + 1) = k + int rank + 1"
    by (intro wrap64_id) (auto simp: in_int64_def min_int64_def)
  then show ?thesis
    using of_int64_pos [of "k + int rank + 1"] a by (simp add: fdiv_unit)
qed

lemma rrf_ok:
  assumes c: "\<forall>(nm, w) \<in> set (cf_Weights c). unit_score w" "0 < cf_RRFK c" "cf_RRFK c + int (length items) \<le> max_int64"
    and items: "\<forall>it \<in> set items. signals_ok 0 it"
  shows "\<forall>it \<in> set (addRecallRRF c items). signals_ok 7 it"
proof -
  have "\<forall>it \<in> set (fold (rrf_signal c) sgs its). signals_ok (k + int (length sgs)) it"
    if "\<forall>it \<in> set its. signals_ok k it" "0 \<le> k" "k + int (length sgs) < 1000" "length its = length items" for sgs its k
    using that
  proof (induction sgs arbitrary: its k)
    case (Cons sg sgs)
    have "length (rrf_signal c sg its) = length items"
      using Cons.prems(4) by (simp add: rrf_signal_def Let_def length_fold_updates)
    moreover have "\<forall>it \<in> set (rrf_signal c sg its). signals_ok (k + 1) it"
    proof
      fix it' assume "it' \<in> set (rrf_signal c sg its)"
      then obtain it where it: "it \<in> set its" and
        "it' = it \<or> (\<exists>rank < length its. it' = add_rrf (fdiv (weight_of c (fst sg)) (of_int64 (wrap64 (cf_RRFK c + int rank + 1)))) it)"
        using rrf_signal_item by blast
      then show "signals_ok (k + 1) it'"
        using Cons.prems it add_rrf_ok rrf_share_unit [OF weight_unit [OF c(1)] c(2,3)] signals_ok_mono [of k it "k + 1"] by auto
    qed
    ultimately show ?case using Cons.IH [of "rrf_signal c sg its" "k + 1"] Cons.prems by (simp add: ac_simps)
  qed simp
  from this [of items 0 recallScoreSignals] have "\<forall>it \<in> set (fold (rrf_signal c) recallScoreSignals items). signals_ok 7 it"
    using items by (simp add: recallScoreSignals_def)
  then show ?thesis
    using Round_range [of 7] by (auto simp: addRecallRRF_def signals_ok_def recallScoreSignals_def)
qed

lemma scores_bounded:
  assumes ok: "recall_inputs_ok ulow c q cands" and exp2: "\<And>x. \<not> is_nan x \<Longrightarrow> \<not> is_nan (exp2 x)"
    and it: "it \<in> set (score ulow exp2 now c q cands)"
  shows "(\<forall>sg \<in> set recallScoreSignals. unit_score (snd sg (s_Score it)))
    \<and> between 0 7 (sc_RRF (s_Score it)) \<and> between 0 8 (sc_Final (s_Score it))"
proof -
  let ?base = "map (\<lambda>cand. \<lparr>s_Candidate = cand, s_Score = candidate_score ulow exp2 now c q cand\<rparr>) cands"
  obtain b where b: "b \<in> set (addRecallRRF c ?base)" "it = finish_score c b"
    using it by (auto simp: score_def sortScoredRecall_def)
  have "\<forall>x \<in> set (addRecallRRF c ?base). signals_ok 7 x"
    using ok candidate_score_ok [OF ok _ exp2] by (intro rrf_ok) (auto simp: recall_inputs_ok_def)
  with b have s: "signals_ok 7 b" by blast
  then have "between 0 (of_int 8) (fadd (sc_Final (s_Score b)) (sc_RRF (s_Score b)))"
    using fadd_between [of 0 1 "sc_Final (s_Score b)" 0 7 "sc_RRF (s_Score b)"] by (simp add: signals_ok_def)
  then have "between 0 (of_int 8) (Round (fadd (sc_Final (s_Score b)) (sc_RRF (s_Score b))))"
    by (rule Round_range) simp_all
  with s b(2) show ?thesis
    by (auto simp: signals_ok_def finish_score_def Let_def recallScoreSignals_def)
qed

section \<open>Independence of the order of generation\<close>

lemma default_weights_unit: "\<forall>(nm, w) \<in> set defaultRecallWeights. unit_score w"
proof -
  have "unit_score (flit x)" if "0 \<le> x" "x \<le> 1" for x
    using fround_between [of 0 x 1 False] that by (simp add: flit_def)
  then show ?thesis by (simp add: defaultRecallWeights_def)
qed

lemma score_perm:
  assumes perm: "mset cands = mset cands'" and ids: "distinct (map rc_MemoryID cands)"
    and ok: "recall_inputs_ok ulow c q cands" and exp2: "\<And>x. \<not> is_nan x \<Longrightarrow> \<not> is_nan (exp2 x)"
  shows "score ulow exp2 now c q cands = score ulow exp2 now c q cands'"
proof -
  let ?base = "map (\<lambda>cand. \<lparr>s_Candidate = cand, s_Score = candidate_score ulow exp2 now c q cand\<rparr>)"
  have "rankable (?base cands)"
    using ids candidate_score_ok [OF ok _ exp2]
    by (auto simp: rankable_def comp_def signals_ok_def between_fval)
  moreover have "mset (?base cands) = mset (?base cands')" using perm by simp
  ultimately have "mset (addRecallRRF c (?base cands)) = mset (addRecallRRF c (?base cands'))" by (intro rrf_perm)
  then have m: "mset (map (finish_score c) (addRecallRRF c (?base cands))) = mset (map (finish_score c) (addRecallRRF c (?base cands')))"
    by simp
  have "set (map (finish_score c) (addRecallRRF c (?base cands))) \<subseteq> comparable"
  proof
    fix it assume "it \<in> set (map (finish_score c) (addRecallRRF c (?base cands)))"
    then have "it \<in> set (score ulow exp2 now c q cands)" by (simp add: score_def sort_scored)
    from scores_bounded [OF ok exp2 this] show "it \<in> comparable" by (auto simp: comparable_def between_fval)
  qed
  moreover have "map (\<lambda>it. rc_MemoryID (s_Candidate it)) (map (finish_score c) (addRecallRRF c (?base cands))) = map rc_MemoryID cands"
  proof -
    have "map rc_MemoryID (map s_Candidate (addRecallRRF c (?base cands))) = map rc_MemoryID (map s_Candidate (?base cands))"
      by (simp only: candidates_rrf)
    then show ?thesis by (simp add: comp_def)
  qed
  ultimately show ?thesis
    unfolding score_def sort_scored using ids by (intro scored_order.sort_perm [OF m]) simp_all
qed

text \<open>
  C6. The trace of a recall does not depend on the order in which the generator produced the candidates:
  with distinct memory ids, weights between zero and one, a rank constant that does not overflow and no
  NaN importance, any permutation of the candidates gives the same scores, the same order, the same
  selection and rejections, and the same trace id.
\<close>

theorem recall_order_independent:
  assumes "mset cands = mset cands'" "distinct (map rc_MemoryID cands)"
    and "recall_inputs_ok ulow (en_scoringConfig e) q cands" "\<forall>x. \<not> is_nan x \<longrightarrow> \<not> is_nan (exp2 x)"
    and "gen q = Inr cands" "gen' q = Inr cands'"
  shows "Run ulow exp2 digest now1 now2 e (Some gen) reporter cancelled q
    = Run ulow exp2 digest now1 now2 e (Some gen') reporter cancelled q"
  using score_perm [of cands cands' ulow "en_scoringConfig e" q exp2 now1] assms by (simp add: Run_def)

lemma sample_inputs: "recall_inputs_ok (\<lambda>s. s) (en_scoringConfig sample_engine) sample_query [sample_candidate ''a'', sample_candidate ''b'']"
  by (simp add: recall_inputs_ok_def newRecallPipelineEngine_def normalizeRecallScoringConfig_def Let_def max_int64_def
      fle_def fless_def feq_def Lower_def Space_def to_lower_def LowerAlnum_def)

theorem recall_order_independent_witness:
  "Run (\<lambda>s. s) (\<lambda>x. x) (\<lambda>_. ''d'') 5 6 sample_engine (Some (\<lambda>_. Inr [sample_candidate ''a'', sample_candidate ''b''] :: unit + _)) None False sample_query
    = Run (\<lambda>s. s) (\<lambda>x. x) (\<lambda>_. ''d'') 5 6 sample_engine (Some (\<lambda>_. Inr [sample_candidate ''b'', sample_candidate ''a''])) None False sample_query"
  by (rule recall_order_independent [OF _ _ sample_inputs]) simp_all

text \<open>
  C22. Every score of a recall stays in range: each of the seven signals of a scored candidate lies in the
  unit interval, the fusion score between zero and seven and the final score between zero and eight, for
  any evidence, timestamps and scopes, as long as the weights lie in the unit interval, the rank constant
  does not overflow and no importance is NaN.
\<close>

theorem recall_scores_in_range:
  assumes "recall_inputs_ok ulow c q cands" "\<forall>x. \<not> is_nan x \<longrightarrow> \<not> is_nan (exp2 x)" "it \<in> set (score ulow exp2 now c q cands)"
  shows "(\<forall>sg \<in> set recallScoreSignals. between 0 1 (snd sg (s_Score it)))
    \<and> between 0 7 (sc_RRF (s_Score it)) \<and> between 0 8 (sc_Final (s_Score it))"
  using scores_bounded [OF assms(1) _ assms(3)] assms(2) by blast

theorem recall_scores_in_range_witness:
  "\<exists>it. it \<in> set (score (\<lambda>s. s) (\<lambda>x. x) 5 (en_scoringConfig sample_engine) sample_query [sample_candidate ''a'', sample_candidate ''b''])
     \<and> between 0 8 (sc_Final (s_Score it))"
proof -
  have "score (\<lambda>s. s) (\<lambda>x. x) 5 (en_scoringConfig sample_engine) sample_query [sample_candidate ''a'', sample_candidate ''b''] \<noteq> []"
    using candidates_score [of "\<lambda>s. s" "\<lambda>x. x" 5 "en_scoringConfig sample_engine" sample_query "[sample_candidate ''a'', sample_candidate ''b'']"] by auto
  then obtain it where "it \<in> set (score (\<lambda>s. s) (\<lambda>x. x) 5 (en_scoringConfig sample_engine) sample_query [sample_candidate ''a'', sample_candidate ''b''])"
    by (meson last_in_set)
  with recall_scores_in_range [OF sample_inputs _ this] show ?thesis by blast
qed

end
