(* ===== verification/CrossChat.thy ===== *)
theory CrossChat
  imports TurnSearch
begin

text \<open>
  User-scoped recall across chats (\<open>service/memory.go\<close>): which sessions a user may search from the current
  chat, the evidence that explains the decision, the lineage of a matched session, and the search itself.
  \<open>ufold\<close> is \<open>strings.EqualFold\<close> where a string is not ASCII; \<open>matches\<close> is the full-text or \<open>LIKE\<close> match of
  the query in a content; \<open>uquote\<close> is \<open>%q\<close>.
\<close>

record SessionMetadata =
  md_SessionID :: string
  md_Source :: string
  md_ChatID :: string
  md_UserID :: string
  md_Title :: string
  md_ParentSessionID :: string
  md_LineageKind :: string
  md_CreatedAt :: int
  md_UpdatedAt :: int

record SearchFilter =
  xf_UserID :: string
  xf_Sources :: "string list"
  xf_SessionIDs :: "string list"
  xf_Query :: string
  xf_Roles :: "string list"
  xf_CurrentSessionID :: string
  xf_CurrentChatKey :: string

record CrossChatSessionEvidence =
  se_SessionID :: string
  se_Source :: string
  se_ChatID :: string
  se_ChatKey :: string
  se_Current :: bool

record CrossChatRecallEvidence =
  ce_Decision :: string
  ce_Scope :: string
  ce_FallbackScope :: string
  ce_Reason :: string
  ce_UserID :: string
  ce_CurrentSessionID :: string
  ce_CurrentChatKey :: string
  ce_CurrentBinding :: "CrossChatSessionEvidence option"
  ce_SourceAllowlist :: "string list"
  ce_SessionsConsidered :: nat
  ce_WidenedSessionsConsidered :: nat
  ce_Sessions :: "CrossChatSessionEvidence list"

section \<open>The scope decision\<close>

definition canonicalChatKey :: "SessionMetadata \<Rightarrow> string" where
  "canonicalChatKey m =
     (let source = trim_space (md_Source m); chatID = trim_space (md_ChatID m) in
      if source = [] \<or> chatID = [] then [] else source @ '':'' @ chatID)"

definition sameChatKey :: "(string \<Rightarrow> string \<Rightarrow> bool) \<Rightarrow> string \<Rightarrow> string \<Rightarrow> bool" where
  "sameChatKey ufold a b \<longleftrightarrow> EqualFold ufold a b"

definition metadataMatchesCurrent :: "(string \<Rightarrow> string \<Rightarrow> bool) \<Rightarrow> SessionMetadata \<Rightarrow> string \<Rightarrow> string \<Rightarrow> bool" where
  "metadataMatchesCurrent ufold m currentSessionID currentChatKey \<longleftrightarrow>
     (if currentSessionID \<noteq> [] \<and> trim_space (md_SessionID m) = currentSessionID then True
      else currentChatKey \<noteq> [] \<and> sameChatKey ufold (canonicalChatKey m) currentChatKey)"

definition crossChatSessionEvidence :: "SessionMetadata \<Rightarrow> bool \<Rightarrow> CrossChatSessionEvidence" where
  "crossChatSessionEvidence m current =
     \<lparr>se_SessionID = trim_space (md_SessionID m), se_Source = trim_space (md_Source m), se_ChatID = trim_space (md_ChatID m),
      se_ChatKey = canonicalChatKey m, se_Current = current\<rparr>"

definition normalizeSources :: "(string \<Rightarrow> string) \<Rightarrow> string list \<Rightarrow> string list" where
  "normalizeSources ulow sources = Unique sources (Lower ulow) False"

definition normalizeSessionIDs :: "string list \<Rightarrow> string list" where
  "normalizeSessionIDs sessionIDs = (let out = UniqueTrimmed sessionIDs False in if ''*'' \<in> set out then [] else out)"

definition deniedCrossChatEvidence :: "CrossChatRecallEvidence \<Rightarrow> string \<Rightarrow> CrossChatRecallEvidence" where
  "deniedCrossChatEvidence e reason =
     e\<lparr>ce_Decision := ''denied'', ce_FallbackScope := ''same-chat'', ce_Reason := reason, ce_Sessions := [],
       ce_SessionsConsidered := 0, ce_WidenedSessionsConsidered := 0\<rparr>"

text \<open>The first loop: the current binding, or the refusal it leads to.\<close>

fun binding_loop :: "(string \<Rightarrow> string) \<Rightarrow> (string \<Rightarrow> string \<Rightarrow> bool) \<Rightarrow> SessionMetadata list \<Rightarrow> CrossChatRecallEvidence \<Rightarrow> bool
    \<Rightarrow> CrossChatRecallEvidence + CrossChatRecallEvidence \<times> bool" where
  "binding_loop uquote ufold [] e matched = Inr (e, matched)"
| "binding_loop uquote ufold (m # ms) e matched =
     (if \<not> metadataMatchesCurrent ufold m (ce_CurrentSessionID e) (ce_CurrentChatKey e) then binding_loop uquote ufold ms e matched
      else
        let e1 = e\<lparr>ce_CurrentBinding := Some (crossChatSessionEvidence m True)\<rparr>; metaUserID = trim_space (md_UserID m) in
        if metaUserID = [] then Inl (deniedCrossChatEvidence e1
          ''unresolved current binding: current chat/session has no user_id; same-chat fallback scope used'')
        else if metaUserID \<noteq> ce_UserID e then Inl (deniedCrossChatEvidence e1
          (''conflicting current binding: current binding belongs to '' @ uquote metaUserID @ ''; same-chat fallback scope used''))
        else binding_loop uquote ufold ms e1 True)"

text \<open>The tests that both loops over the sessions of the user apply.\<close>

definition session_in_scope :: "(string \<Rightarrow> string) \<Rightarrow> (string \<Rightarrow> string \<Rightarrow> bool) \<Rightarrow> SearchFilter \<Rightarrow> string \<Rightarrow> SessionMetadata \<Rightarrow> bool" where
  "session_in_scope ulow ufold f userID m \<longleftrightarrow>
     (let allowedSources = normalizeSources ulow (xf_Sources f); allowedSessions = normalizeSessionIDs (xf_SessionIDs f) in
      \<not> (trim_space (md_UserID m) \<noteq> userID)
      \<and> \<not> (allowedSources \<noteq> [] \<and> \<not> AllowsKindOrOrigin ufold allowedSources ''turn'' (md_Source m) False)
      \<and> \<not> (allowedSessions \<noteq> [] \<and> trim_space (md_SessionID m) \<notin> set allowedSessions))"

definition start_evidence :: "(string \<Rightarrow> string) \<Rightarrow> SearchFilter \<Rightarrow> CrossChatRecallEvidence" where
  "start_evidence ulow f =
     \<lparr>ce_Decision = [], ce_Scope = ''user'', ce_FallbackScope = [], ce_Reason = [], ce_UserID = trim_space (xf_UserID f),
      ce_CurrentSessionID = trim_space (xf_CurrentSessionID f), ce_CurrentChatKey = trim_space (xf_CurrentChatKey f),
      ce_CurrentBinding = None, ce_SourceAllowlist = normalizeSources ulow (xf_Sources f), ce_SessionsConsidered = 0,
      ce_WidenedSessionsConsidered = 0, ce_Sessions = []\<rparr>"

definition ExplainCrossChatRecall :: "(string \<Rightarrow> string) \<Rightarrow> (string \<Rightarrow> string) \<Rightarrow> (string \<Rightarrow> string \<Rightarrow> bool) \<Rightarrow> SessionMetadata list
    \<Rightarrow> SearchFilter \<Rightarrow> CrossChatRecallEvidence" where
  "ExplainCrossChatRecall ulow uquote ufold metas f =
     (let e = start_evidence ulow f in
      if ce_UserID e = [] then deniedCrossChatEvidence e ''unresolved user_id; same-chat fallback scope used''
      else
        let requireCurrentBinding = (ce_CurrentSessionID e \<noteq> [] \<or> ce_CurrentChatKey e \<noteq> []) in
        case binding_loop uquote ufold metas e (\<not> requireCurrentBinding) of
          Inl denied \<Rightarrow> denied
        | Inr (e1, matched) \<Rightarrow>
            if \<not> matched then deniedCrossChatEvidence e1
              ''unknown current binding: current chat/session is not bound to the requested user_id; same-chat fallback scope used''
            else
              let items = map (\<lambda>m. crossChatSessionEvidence m (metadataMatchesCurrent ufold m (ce_CurrentSessionID e) (ce_CurrentChatKey e)))
                    (filter (session_in_scope ulow ufold f (ce_UserID e)) metas);
                  e2 = e1\<lparr>ce_Sessions := items, ce_WidenedSessionsConsidered := length (filter (\<lambda>i. \<not> se_Current i) items)\<rparr> in
              if items = [] then deniedCrossChatEvidence e2 (''unresolved user binding: no sessions matched user_id '' @ uquote (ce_UserID e)
                @ '' and source/session filters; same-chat fallback scope used'')
              else e2\<lparr>ce_Decision := ''allowed'',
                ce_Reason := ''resolved user_id and current binding; user-scope recall may widen across listed sessions'',
                ce_SessionsConsidered := length items\<rparr>)"

definition DegradedCrossChatRecallEvidence :: "(string \<Rightarrow> string) \<Rightarrow> SearchFilter \<Rightarrow> string \<Rightarrow> CrossChatRecallEvidence" where
  "DegradedCrossChatRecallEvidence ulow f reason =
     \<lparr>ce_Decision = ''degraded'', ce_Scope = ''user'', ce_FallbackScope = ''same-chat'',
      ce_Reason = (if trim_space reason = [] then ''cross-chat recall evidence unavailable; same-chat fallback scope used'' else trim_space reason),
      ce_UserID = trim_space (xf_UserID f), ce_CurrentSessionID = trim_space (xf_CurrentSessionID f),
      ce_CurrentChatKey = trim_space (xf_CurrentChatKey f), ce_CurrentBinding = None,
      ce_SourceAllowlist = normalizeSources ulow (xf_Sources f), ce_SessionsConsidered = 0, ce_WidenedSessionsConsidered = 0, ce_Sessions = []\<rparr>"

text \<open>\<open>UserScopeDenied\<close> carries the user of the conflicting binding, if any.\<close>

datatype search_error = UserScopeDenied "string option" | SearchDb | ScanHit

fun select_loop :: "(string \<Rightarrow> string) \<Rightarrow> (string \<Rightarrow> string \<Rightarrow> bool) \<Rightarrow> SearchFilter \<Rightarrow> SessionMetadata list \<Rightarrow> SessionMetadata list \<Rightarrow> bool
    \<Rightarrow> search_error + SessionMetadata list \<times> bool" where
  "select_loop ulow ufold f [] selected matched = Inr (selected, matched)"
| "select_loop ulow ufold f (m # ms) selected matched =
     (let userID = trim_space (xf_UserID f);
          current = metadataMatchesCurrent ufold m (trim_space (xf_CurrentSessionID f)) (trim_space (xf_CurrentChatKey f)) in
      if current \<and> trim_space (md_UserID m) \<noteq> userID then Inl (UserScopeDenied (Some (trim_space (md_UserID m))))
      else select_loop ulow ufold f ms (if session_in_scope ulow ufold f userID m then selected @ [m] else selected) (matched \<or> current))"

definition selectMetadata :: "(string \<Rightarrow> string) \<Rightarrow> (string \<Rightarrow> string \<Rightarrow> bool) \<Rightarrow> SessionMetadata list \<Rightarrow> SearchFilter
    \<Rightarrow> search_error + SessionMetadata list" where
  "selectMetadata ulow ufold metas f =
     (if trim_space (xf_UserID f) = [] then Inr []
      else
        let requireCurrentBinding = (trim_space (xf_CurrentSessionID f) \<noteq> [] \<or> trim_space (xf_CurrentChatKey f) \<noteq> []) in
        case select_loop ulow ufold f metas [] (\<not> requireCurrentBinding) of
          Inl e \<Rightarrow> Inl e
        | Inr (selected, matched) \<Rightarrow> if \<not> matched then Inl (UserScopeDenied None) else Inr selected)"

section \<open>Lineage\<close>

definition normalizeSearchLineageMetadata :: "(string \<Rightarrow> string) \<Rightarrow> SessionMetadata \<Rightarrow> SessionMetadata" where
  "normalizeSearchLineageMetadata ulow m =
     m\<lparr>md_SessionID := trim_space (md_SessionID m), md_ParentSessionID := trim_space (md_ParentSessionID m),
       md_LineageKind := Lower ulow (md_LineageKind m)\<rparr>"

text \<open>The index keeps the last metadata of a session id; children are computed from its rows.\<close>

definition buildSearchLineageIndex :: "(string \<Rightarrow> string) \<Rightarrow> SessionMetadata list \<Rightarrow> SessionMetadata list" where
  "buildSearchLineageIndex ulow metas =
     fold (\<lambda>meta idx. let m = normalizeSearchLineageMetadata ulow meta in
         if md_SessionID m = [] then idx else tupsert md_SessionID (\<lambda>_ new. new) m idx) metas []"

definition lineage_children :: "SessionMetadata list \<Rightarrow> string \<Rightarrow> string list" where
  "lineage_children idx parentID =
     sort (map md_SessionID (filter (\<lambda>m. md_ParentSessionID m \<noteq> [] \<and> md_ParentSessionID m = parentID) idx))"

definition searchLineageKind :: "SessionMetadata \<Rightarrow> string" where
  "searchLineageKind m = (if md_LineageKind m = [] then ''primary'' else md_LineageKind m)"

function walk_parents :: "SessionMetadata list \<Rightarrow> string list \<Rightarrow> string \<Rightarrow> string" where
  "walk_parents idx seen current =
     (if current = [] then ''ok''
      else if current \<in> set seen then ''loop''
      else if tfind md_SessionID current idx = None then ''orphan''
      else walk_parents idx (current # seen) (md_ParentSessionID (the (tfind md_SessionID current idx))))"
  by pat_completeness auto
termination
proof (relation "measure (\<lambda>(idx, seen, current). card (md_SessionID ` set idx - set seen))", simp, goal_cases)
  case (1 idx seen current)
  then have "current \<in> md_SessionID ` set idx - set seen" by (metis DiffI tfind_None)
  then have "md_SessionID ` set idx - insert current (set seen) \<subset> md_SessionID ` set idx - set seen" by blast
  then show ?case by (simp add: psubset_card_mono)
qed

declare walk_parents.simps [simp del]

definition statusFor :: "SessionMetadata list \<Rightarrow> string \<Rightarrow> string" where
  "statusFor idx sessionID =
     (case tfind md_SessionID sessionID idx of
        None \<Rightarrow> ''unavailable''
      | Some m \<Rightarrow> walk_parents idx [sessionID] (md_ParentSessionID m))"

definition contextFor :: "SessionMetadata list \<Rightarrow> string \<Rightarrow> SearchLineage" where
  "contextFor idx sessionID =
     (case tfind md_SessionID (trim_space sessionID) idx of
        None \<Rightarrow> unavailable_lineage
      | Some m \<Rightarrow> \<lparr>li_ParentSessionID = md_ParentSessionID m, li_LineageKind = searchLineageKind m,
          li_ChildSessionIDs = lineage_children idx (trim_space sessionID), li_Status = statusFor idx (trim_space sessionID)\<rparr>)"

section \<open>The search over the sessions of a user\<close>

definition metadataIndexes :: "SessionMetadata list
    \<Rightarrow> string list \<times> string list \<times> (string \<rightharpoonup> SessionMetadata) \<times> (string \<rightharpoonup> SessionMetadata)" where
  "metadataIndexes metas =
     (filter (\<lambda>s. s \<noteq> []) (map (\<lambda>m. trim_space (md_SessionID m)) metas),
      filter (\<lambda>k. k \<noteq> []) (map canonicalChatKey metas),
      fold (\<lambda>m mp. if trim_space (md_SessionID m) \<noteq> [] then mp(trim_space (md_SessionID m) \<mapsto> m) else mp) metas Map.empty,
      fold (\<lambda>m mp. if canonicalChatKey m \<noteq> [] then mp(canonicalChatKey m \<mapsto> m) else mp) metas Map.empty)"

record MessageSearchHit =
  mh_SessionID :: string
  mh_ChatID :: string
  mh_Source :: string
  mh_Role :: string
  mh_Content :: string
  mh_TSUnix :: int
  mh_Lineage :: SearchLineage

text \<open>\<open>rows.Next\<close> may fail before every row; \<open>chat_id\<close> is scanned into a string, so a null is an error.\<close>

fun scan_hits :: "(turn_site \<Rightarrow> bool) \<Rightarrow> (turn_row \<Rightarrow> string \<Rightarrow> MessageSearchHit) \<Rightarrow> nat \<Rightarrow> (int \<times> turn_row) list
    \<Rightarrow> search_error + MessageSearchHit list" where
  "scan_hits flt mk n [] = (if flt (TurnRow n) then Inl SearchDb else Inr [])"
| "scan_hits flt mk n ((i, r) # rs) =
     (if flt (TurnRow n) then Inl SearchDb
      else case tu_ChatID r of
        None \<Rightarrow> Inl ScanHit
      | Some c \<Rightarrow> (case scan_hits flt mk (Suc n) rs of Inl e \<Rightarrow> Inl e | Inr hs \<Rightarrow> Inr (mk r c # hs)))"

definition message_hit :: "SessionMetadata list \<Rightarrow> SessionMetadata list \<Rightarrow> turn_row \<Rightarrow> string \<Rightarrow> MessageSearchHit" where
  "message_hit selected lineage r chatID =
     (case metadataIndexes selected of (_, _, metaBySession, metaByChat) \<Rightarrow>
        \<lparr>mh_SessionID = tu_SessionID r, mh_ChatID = chatID,
         mh_Source = (case metaBySession (tu_SessionID r) of
             Some m \<Rightarrow> md_Source m
           | None \<Rightarrow> (case metaByChat chatID of Some m \<Rightarrow> md_Source m | None \<Rightarrow> [])),
         mh_Role = tu_Role r, mh_Content = tu_Content r, mh_TSUnix = tu_TsUnix r, mh_Lineage = contextFor lineage (tu_SessionID r)\<rparr>)"

definition SearchMessages :: "(string \<Rightarrow> string) \<Rightarrow> (string \<Rightarrow> string \<Rightarrow> bool) \<Rightarrow> (string \<Rightarrow> string \<Rightarrow> bool) \<Rightarrow> (string \<Rightarrow> string \<Rightarrow> bool)
    \<Rightarrow> (turn_site \<Rightarrow> bool) \<Rightarrow> turn_row atable \<Rightarrow> SessionMetadata list \<Rightarrow> SearchFilter \<Rightarrow> int
    \<Rightarrow> search_error + MessageSearchHit list" where
  "SearchMessages ulow ufold fts like flt t metas f limit =
     (case selectMetadata ulow ufold metas f of
        Inl e \<Rightarrow> Inl e
      | Inr selected \<Rightarrow>
          if selected = [] \<or> limit = 0 then Inr []
          else
            (case metadataIndexes selected of (sessionIDs, chatKeys, _, _) \<Rightarrow>
               if flt TurnQuery then Inl SearchDb
               else scan_hits flt (message_hit selected (buildSearchLineageIndex ulow selected)) 0
                 (BuildTurnSearchQuery ulow fts like (xf_Query f) sessionIDs chatKeys (xf_Roles f) limit t)))"

section \<open>The fallback of a search to turns (service/retrieval_module.go)\<close>

record SearchParams =
  sp_ProfileID :: string
  sp_Peer :: string
  sp_Query :: string
  sp_MaxTokens :: int
  sp_SessionKey :: string
  sp_Scope :: string
  sp_Sources :: "string list"
  sp_Filters :: "(string \<times> any_value) list"
  sp_Limit :: int

text \<open>
  The session directory, an interface that the host implements: the sessions of a user, and, where it is a
  \<open>userBindingResolver\<close>, the user of a chat.
\<close>

record session_directory =
  dir_ListMetadataByUserID :: "string \<Rightarrow> SessionMetadata list option"
  dir_ResolveUserID :: "(string \<Rightarrow> string \<Rightarrow> (string \<times> bool) option) option"

record turnFallbackResult =
  tf_Results :: "SearchHit list"
  tf_ScopeEvidence :: "CrossChatRecallEvidence option"

datatype fallback_error = DirectoryError | TurnsError turn_error | MessagesError search_error

definition splitChatKey :: "string \<Rightarrow> string \<times> string \<times> bool" where
  "splitChatKey key =
     (case strings_Cut (trim_space key) (CHR '':'') of (source, chatID, ok) \<Rightarrow>
        (trim_space source, trim_space chatID, ok \<and> trim_space source \<noteq> [] \<and> trim_space chatID \<noteq> []))"

definition searchLineageFromMemory :: "SearchLineage \<Rightarrow> SearchLineage option" where
  "searchLineageFromMemory l =
     (let status = trim_space (li_Status l) in
      if status = [] \<and> trim_space (li_ParentSessionID l) = [] \<and> trim_space (li_LineageKind l) = [] \<and> li_ChildSessionIDs l = []
      then None
      else Some \<lparr>li_ParentSessionID = trim_space (li_ParentSessionID l), li_LineageKind = trim_space (li_LineageKind l),
        li_ChildSessionIDs = li_ChildSessionIDs l, li_Status = (if status = [] then ''unavailable'' else status)\<rparr>)"

definition bound_metadata :: "string \<Rightarrow> string \<Rightarrow> string \<Rightarrow> string \<Rightarrow> SessionMetadata" where
  "bound_metadata currentKey source chatID boundUserID =
     \<lparr>md_SessionID = trim_space currentKey, md_Source = source, md_ChatID = chatID, md_UserID = boundUserID, md_Title = [],
      md_ParentSessionID = [], md_LineageKind = [], md_CreatedAt = 0, md_UpdatedAt = 0\<rparr>"

definition crossChatEvidenceMetadata :: "session_directory \<Rightarrow> string \<Rightarrow> string \<Rightarrow> SessionMetadata list
    \<Rightarrow> fallback_error + SessionMetadata list" where
  "crossChatEvidenceMetadata dir userID currentKey metas =
     (case dir_ResolveUserID dir of
        None \<Rightarrow> Inr metas
      | Some resolve \<Rightarrow>
          (case splitChatKey currentKey of (source, chatID, ok) \<Rightarrow>
             if \<not> ok then Inr metas
             else case resolve source chatID of
               None \<Rightarrow> Inl DirectoryError
             | Some (boundUserID, found) \<Rightarrow>
                 if \<not> found \<or> trim_space boundUserID = [] \<or> trim_space boundUserID = userID then Inr metas
                 else Inr (metas @ [bound_metadata currentKey source chatID boundUserID])))"

definition fallback_hit :: "MessageSearchHit \<Rightarrow> SearchHit" where
  "fallback_hit h =
     \<lparr>sh_Source = ''turn'', sh_OriginSource = mh_Source h, sh_Content = mh_Content h, sh_SessionKey = mh_SessionID h,
      sh_Lineage = searchLineageFromMemory (mh_Lineage h)\<rparr>"

text \<open>The statements that every refusal of the user scope runs: the turns of the session key alone.\<close>

definition same_chat :: "(string \<Rightarrow> string) \<Rightarrow> (string \<Rightarrow> string \<Rightarrow> bool) \<Rightarrow> (string \<Rightarrow> string \<Rightarrow> bool) \<Rightarrow> (turn_site \<Rightarrow> bool)
    \<Rightarrow> turn_row atable \<Rightarrow> SearchParams \<Rightarrow> Compiled \<Rightarrow> int \<Rightarrow> CrossChatRecallEvidence option
    \<Rightarrow> fallback_error + turnFallbackResult" where
  "same_chat ulow ufold like flt t params compiled limit evidence =
     (case findTurns ulow ufold like flt (sp_Query params) (sp_SessionKey params) compiled limit t of
        Inl e \<Rightarrow> Inl (TurnsError e)
      | Inr fallback \<Rightarrow> Inr \<lparr>tf_Results = attachUnavailableLineageToTurnHits fallback, tf_ScopeEvidence = evidence\<rparr>)"

definition user_filter :: "SearchParams \<Rightarrow> Compiled \<Rightarrow> SearchFilter" where
  "user_filter params compiled =
     \<lparr>xf_UserID = trim_space (sp_Peer params), xf_Sources = Sources compiled, xf_SessionIDs = SessionIDs compiled,
      xf_Query = sp_Query params, xf_Roles = [], xf_CurrentSessionID = sp_SessionKey params, xf_CurrentChatKey = sp_SessionKey params\<rparr>"

text \<open>\<open>flt\<close> decides the failures of the first statement, \<open>flt'\<close> those of the second, after a refusal.\<close>

definition searchTurnFallback :: "(string \<Rightarrow> string) \<Rightarrow> (string \<Rightarrow> string) \<Rightarrow> (string \<Rightarrow> string \<Rightarrow> bool) \<Rightarrow> (string \<Rightarrow> string \<Rightarrow> bool)
    \<Rightarrow> (string \<Rightarrow> string \<Rightarrow> bool) \<Rightarrow> (turn_site \<Rightarrow> bool) \<Rightarrow> (turn_site \<Rightarrow> bool) \<Rightarrow> session_directory option \<Rightarrow> turn_row atable
    \<Rightarrow> SearchParams \<Rightarrow> Compiled \<Rightarrow> int \<Rightarrow> fallback_error + turnFallbackResult" where
  "searchTurnFallback ulow uquote ufold fts like flt flt' sessions t params compiled limit =
     (if EqualFold ufold (sp_Scope params) ''user'' then
        let userID = trim_space (sp_Peer params); f = user_filter params compiled in
        case sessions of
          None \<Rightarrow> same_chat ulow ufold like flt t params compiled limit
            (Some (DegradedCrossChatRecallEvidence ulow f ''session directory unavailable; same-chat fallback scope used''))
        | Some dir \<Rightarrow>
            (case dir_ListMetadataByUserID dir userID of
               None \<Rightarrow> Inl DirectoryError
             | Some metas \<Rightarrow>
                 (case crossChatEvidenceMetadata dir userID (sp_SessionKey params) metas of
                    Inl e \<Rightarrow> Inl e
                  | Inr evidenceMetas \<Rightarrow>
                      let evidence = ExplainCrossChatRecall ulow uquote ufold evidenceMetas f in
                      if ce_Decision evidence \<noteq> ''allowed'' then same_chat ulow ufold like flt t params compiled limit (Some evidence)
                      else case SearchMessages ulow ufold fts like flt t metas f limit of
                        Inl (UserScopeDenied u) \<Rightarrow> same_chat ulow ufold like flt' t params compiled limit (Some evidence)
                      | Inl e \<Rightarrow> Inl (MessagesError e)
                      | Inr hits \<Rightarrow> Inr \<lparr>tf_Results = map fallback_hit hits, tf_ScopeEvidence = Some evidence\<rparr>))
      else if trim_space (sp_SessionKey params) = [] then Inr \<lparr>tf_Results = [], tf_ScopeEvidence = None\<rparr>
      else same_chat ulow ufold like flt t params compiled limit None)"

section \<open>The explanation is the decision\<close>

definition is_current :: "(string \<Rightarrow> string \<Rightarrow> bool) \<Rightarrow> string \<Rightarrow> string \<Rightarrow> SessionMetadata \<Rightarrow> bool" where
  "is_current ufold s k m \<longleftrightarrow> metadataMatchesCurrent ufold m s k"

text \<open>A binding of the current chat to anybody but the user.\<close>

definition foreign_binding :: "(string \<Rightarrow> string \<Rightarrow> bool) \<Rightarrow> string \<Rightarrow> string \<Rightarrow> string \<Rightarrow> SessionMetadata \<Rightarrow> bool" where
  "foreign_binding ufold s k u m \<longleftrightarrow> metadataMatchesCurrent ufold m s k \<and> trim_space (md_UserID m) \<noteq> u"

lemma binding_loop_foreign:
  assumes "list_ex (foreign_binding ufold (ce_CurrentSessionID e) (ce_CurrentChatKey e) (ce_UserID e)) ms"
  shows "\<exists>d r. binding_loop uquote ufold ms e b = Inl (deniedCrossChatEvidence d r)"
  using assms by (induction ms arbitrary: e b) (auto simp: Let_def foreign_binding_def)

lemma binding_loop_own:
  assumes "\<not> list_ex (foreign_binding ufold (ce_CurrentSessionID e) (ce_CurrentChatKey e) (ce_UserID e)) ms" "ce_UserID e \<noteq> []"
  shows "\<exists>c. binding_loop uquote ufold ms e b
    = Inr (e\<lparr>ce_CurrentBinding := c\<rparr>, b \<or> list_ex (is_current ufold (ce_CurrentSessionID e) (ce_CurrentChatKey e)) ms)"
  using assms
proof (induction ms arbitrary: e b)
  case Nil
  show ?case by (rule exI [of _ "ce_CurrentBinding e"]) simp
next
  case (Cons m ms)
  show ?case
  proof (cases "metadataMatchesCurrent ufold m (ce_CurrentSessionID e) (ce_CurrentChatKey e)")
    case False
    with Cons show ?thesis by (simp add: foreign_binding_def is_current_def)
  next
    case True
    with Cons.prems Cons.IH [of "e\<lparr>ce_CurrentBinding := Some (crossChatSessionEvidence m True)\<rparr>" True]
    show ?thesis by (simp add: foreign_binding_def is_current_def)
  qed
qed

lemma select_loop_foreign:
  assumes "list_ex (foreign_binding ufold (trim_space (xf_CurrentSessionID f)) (trim_space (xf_CurrentChatKey f))
      (trim_space (xf_UserID f))) ms"
  shows "\<exists>u. select_loop ulow ufold f ms sel b = Inl (UserScopeDenied (Some u))"
  using assms by (induction ms arbitrary: sel b) (auto simp: Let_def foreign_binding_def)

lemma select_loop_own:
  assumes "\<not> list_ex (foreign_binding ufold (trim_space (xf_CurrentSessionID f)) (trim_space (xf_CurrentChatKey f))
      (trim_space (xf_UserID f))) ms"
  shows "select_loop ulow ufold f ms sel b
    = Inr (sel @ filter (session_in_scope ulow ufold f (trim_space (xf_UserID f))) ms,
        b \<or> list_ex (is_current ufold (trim_space (xf_CurrentSessionID f)) (trim_space (xf_CurrentChatKey f))) ms)"
  using assms by (induction ms arbitrary: sel b) (auto simp: Let_def foreign_binding_def is_current_def)

lemma select_own:
  assumes "trim_space (xf_UserID f) \<noteq> []"
    and "\<not> list_ex (foreign_binding ufold (trim_space (xf_CurrentSessionID f)) (trim_space (xf_CurrentChatKey f))
      (trim_space (xf_UserID f))) ms"
  shows "selectMetadata ulow ufold ms f =
    (if trim_space (xf_CurrentSessionID f) = [] \<and> trim_space (xf_CurrentChatKey f) = []
        \<or> list_ex (is_current ufold (trim_space (xf_CurrentSessionID f)) (trim_space (xf_CurrentChatKey f))) ms
     then Inr (filter (session_in_scope ulow ufold f (trim_space (xf_UserID f))) ms) else Inl (UserScopeDenied None))"
  using assms by (auto simp: selectMetadata_def select_loop_own Let_def)

lemma select_member:
  assumes "selectMetadata ulow ufold ms f = Inr sel" "m \<in> set sel"
  shows "m \<in> set ms \<and> trim_space (md_UserID m) = trim_space (xf_UserID f)"
proof (cases "trim_space (xf_UserID f) = []")
  case True
  with assms show ?thesis by (simp add: selectMetadata_def)
next
  case False
  show ?thesis
  proof (cases "list_ex (foreign_binding ufold (trim_space (xf_CurrentSessionID f)) (trim_space (xf_CurrentChatKey f))
      (trim_space (xf_UserID f))) ms")
    case True
    then obtain u where "select_loop ulow ufold f ms [] (\<not> (trim_space (xf_CurrentSessionID f) \<noteq> [] \<or> trim_space (xf_CurrentChatKey f) \<noteq> []))
        = Inl (UserScopeDenied (Some u))" using select_loop_foreign by blast
    with False assms(1) show ?thesis by (simp add: selectMetadata_def Let_def)
  next
    case own: False
    with assms select_own [OF False own, of ulow] show ?thesis
      by (auto simp: session_in_scope_def Let_def split: if_splits)
  qed
qed

lemma denied_facts [simp]:
  "ce_Decision (deniedCrossChatEvidence d r) = ''denied''" "ce_Sessions (deniedCrossChatEvidence d r) = []"
  "ce_FallbackScope (deniedCrossChatEvidence d r) = ''same-chat''"
  by (simp_all add: deniedCrossChatEvidence_def)

lemma start_evidence_facts [simp]:
  "ce_UserID (start_evidence ulow f) = trim_space (xf_UserID f)"
  "ce_CurrentSessionID (start_evidence ulow f) = trim_space (xf_CurrentSessionID f)"
  "ce_CurrentChatKey (start_evidence ulow f) = trim_space (xf_CurrentChatKey f)"
  "ce_FallbackScope (start_evidence ulow f) = []"
  by (simp_all add: start_evidence_def)

lemma explain_foreign:
  assumes "trim_space (xf_UserID f) \<noteq> []"
    and "list_ex (foreign_binding ufold (trim_space (xf_CurrentSessionID f)) (trim_space (xf_CurrentChatKey f))
      (trim_space (xf_UserID f))) metas"
  shows "\<exists>d r. ExplainCrossChatRecall ulow uquote ufold metas f = deniedCrossChatEvidence d r"
proof -
  obtain d r where "binding_loop uquote ufold metas (start_evidence ulow f)
      (\<not> (trim_space (xf_CurrentSessionID f) \<noteq> [] \<or> trim_space (xf_CurrentChatKey f) \<noteq> [])) = Inl (deniedCrossChatEvidence d r)"
    using binding_loop_foreign [of ufold "start_evidence ulow f" metas] assms(2) unfolding start_evidence_facts by blast
  with assms(1) show ?thesis by (auto simp: ExplainCrossChatRecall_def Let_def)
qed

text \<open>
  C26. What the service reports about a user-scoped recall is what the search does: the reported decision is
  allowed exactly when the selection of sessions succeeds and is not empty, and then the listed sessions are
  the selected ones in order, each marked current exactly when it is the current chat; otherwise the decision
  is denied, no session is listed and the fallback is the same chat.
\<close>

theorem cross_chat_explained:
  "let e = ExplainCrossChatRecall ulow uquote ufold metas f in
   case selectMetadata ulow ufold metas f of
     Inl _ \<Rightarrow> ce_Decision e = ''denied'' \<and> ce_Sessions e = [] \<and> ce_FallbackScope e = ''same-chat''
   | Inr sel \<Rightarrow>
       if sel = [] then ce_Decision e = ''denied'' \<and> ce_Sessions e = [] \<and> ce_FallbackScope e = ''same-chat''
       else ce_Decision e = ''allowed'' \<and> ce_FallbackScope e = [] \<and> ce_SessionsConsidered e = length sel
         \<and> ce_Sessions e = map (\<lambda>m. crossChatSessionEvidence m
             (metadataMatchesCurrent ufold m (trim_space (xf_CurrentSessionID f)) (trim_space (xf_CurrentChatKey f)))) sel"
proof -
  let ?s = "trim_space (xf_CurrentSessionID f)" and ?k = "trim_space (xf_CurrentChatKey f)" and ?u = "trim_space (xf_UserID f)"
  show ?thesis
  proof (cases "?u = []")
    case True
    then show ?thesis by (simp add: ExplainCrossChatRecall_def selectMetadata_def)
  next
    case False
    show ?thesis
    proof (cases "list_ex (foreign_binding ufold ?s ?k ?u) metas")
      case True
      obtain d r where "ExplainCrossChatRecall ulow uquote ufold metas f = deniedCrossChatEvidence d r"
        using explain_foreign [OF False True] by blast
      moreover obtain u where "select_loop ulow ufold f metas [] (\<not> (?s \<noteq> [] \<or> ?k \<noteq> [])) = Inl (UserScopeDenied (Some u))"
        using select_loop_foreign [OF True] by blast
      ultimately show ?thesis using False by (simp add: selectMetadata_def Let_def)
    next
      case own: False
      obtain c where "binding_loop uquote ufold metas (start_evidence ulow f) (\<not> (?s \<noteq> [] \<or> ?k \<noteq> []))
          = Inr ((start_evidence ulow f)\<lparr>ce_CurrentBinding := c\<rparr>, \<not> (?s \<noteq> [] \<or> ?k \<noteq> []) \<or> list_ex (is_current ufold ?s ?k) metas)"
        using binding_loop_own [of ufold "start_evidence ulow f" metas] own False unfolding start_evidence_facts by metis
      with False select_own [OF False own, of ulow] show ?thesis by (simp add: ExplainCrossChatRecall_def Let_def)
    qed
  qed
qed

section \<open>The lineage status\<close>

text \<open>One step up the parents of an index.\<close>

definition ascends :: "SessionMetadata list \<Rightarrow> string \<Rightarrow> string \<Rightarrow> bool" where
  "ascends idx a b \<longleftrightarrow> b \<noteq> [] \<and> (case tfind md_SessionID a idx of None \<Rightarrow> False | Some m \<Rightarrow> md_ParentSessionID m = b)"

definition is_root :: "SessionMetadata list \<Rightarrow> string \<Rightarrow> bool" where
  "is_root idx a \<longleftrightarrow> (case tfind md_SessionID a idx of None \<Rightarrow> False | Some m \<Rightarrow> md_ParentSessionID m = [])"

definition reaches_root :: "SessionMetadata list \<Rightarrow> string \<Rightarrow> bool" where
  "reaches_root idx s \<longleftrightarrow> (\<exists>r. (ascends idx)\<^sup>*\<^sup>* s r \<and> is_root idx r)"

definition reaches_unknown :: "SessionMetadata list \<Rightarrow> string \<Rightarrow> bool" where
  "reaches_unknown idx s \<longleftrightarrow> (\<exists>r. (ascends idx)\<^sup>*\<^sup>* s r \<and> tfind md_SessionID r idx = None)"

definition ascends_forever :: "SessionMetadata list \<Rightarrow> string \<Rightarrow> bool" where
  "ascends_forever idx s \<longleftrightarrow> (\<forall>r. (ascends idx)\<^sup>*\<^sup>* s r \<longrightarrow> (\<exists>r'. ascends idx r r'))"

lemma ascends_unique: "ascends idx a b \<Longrightarrow> ascends idx a c \<Longrightarrow> b = c"
  by (auto simp: ascends_def split: option.splits)

lemma ends_stop: "is_root idx a \<or> tfind md_SessionID a idx = None \<Longrightarrow> \<not> ascends idx a b"
  by (auto simp: ascends_def is_root_def split: option.splits)

lemma end_unique:
  assumes "(ascends idx)\<^sup>*\<^sup>* s a" "(ascends idx)\<^sup>*\<^sup>* s b" "\<And>x. \<not> ascends idx a x" "\<And>x. \<not> ascends idx b x"
  shows "a = b"
  using assms
proof (induction rule: converse_rtranclp_induct)
  case base
  then show ?case by (metis converse_rtranclpE)
next
  case (step y z)
  then have "(ascends idx)\<^sup>*\<^sup>* z b" by (metis ascends_unique converse_rtranclpE)
  with step show ?case by blast
qed

lemma closed_reach:
  assumes "(ascends idx)\<^sup>*\<^sup>* s r" "s \<in> A" "\<And>x y. x \<in> A \<Longrightarrow> ascends idx x y \<Longrightarrow> y \<in> A"
  shows "r \<in> A"
  using assms by (induction rule: rtranclp_induct) auto

text \<open>The walk stands at \<open>current\<close> after the sessions \<open>seen\<close>, each of which leads to a seen one or to \<open>current\<close>.\<close>

lemma walk_parents_cases:
  assumes "s \<in> set seen"
    and "\<And>x. x \<in> set seen \<Longrightarrow> \<exists>y. ascends idx x y \<and> (y \<in> set seen \<or> y = current)"
    and "(ascends idx)\<^sup>*\<^sup>* s current" "current \<noteq> []"
  shows "walk_parents idx seen current = ''loop'' \<and> ascends_forever idx s
    \<or> walk_parents idx seen current = ''orphan'' \<and> reaches_unknown idx s
    \<or> walk_parents idx seen current = ''ok'' \<and> reaches_root idx s"
  using assms
proof (induction idx seen current rule: walk_parents.induct)
  case (1 idx seen current)
  show ?case
  proof (cases "current \<in> set seen")
    case True
    have cl: "\<And>x y. x \<in> set seen \<Longrightarrow> ascends idx x y \<Longrightarrow> y \<in> set seen"
      using "1.prems"(2) True ascends_unique by metis
    have "r \<in> set seen" if "(ascends idx)\<^sup>*\<^sup>* s r" for r
      using closed_reach [OF that "1.prems"(1)] cl by blast
    with "1.prems"(2) have "ascends_forever idx s" unfolding ascends_forever_def by blast
    with True "1.prems"(4) show ?thesis by (simp add: walk_parents.simps [of idx seen])
  next
    case fresh: False
    show ?thesis
    proof (cases "tfind md_SessionID current idx")
      case None
      with fresh "1.prems"(3,4) show ?thesis
        by (auto simp: walk_parents.simps [of idx seen] reaches_unknown_def)
    next
      case (Some m)
      show ?thesis
      proof (cases "md_ParentSessionID m = []")
        case True
        with fresh Some "1.prems"(3,4) show ?thesis
          by (auto simp: walk_parents.simps [of idx seen] walk_parents.simps [of idx _ "[]"] reaches_root_def is_root_def)
      next
        case False
        with Some have a: "ascends idx current (md_ParentSessionID m)" by (simp add: ascends_def)
        have "walk_parents idx seen current = walk_parents idx (current # seen) (md_ParentSessionID m)"
          using fresh Some "1.prems"(4) by (simp add: walk_parents.simps [of idx seen])
        moreover have "\<exists>y. ascends idx x y \<and> (y \<in> set (current # seen) \<or> y = md_ParentSessionID m)"
          if "x \<in> set (current # seen)" for x
          using that a "1.prems"(2) [of x] by (metis list.set_intros(1,2) set_ConsD)
        ultimately show ?thesis
          using "1.IH" [OF "1.prems"(4) fresh] Some False "1.prems"(1,3) a by (simp add: rtranclp.rtrancl_into_rtrancl)
      qed
    qed
  qed
qed

lemma statusFor_cases:
  assumes "tfind md_SessionID s idx = Some m"
  shows "statusFor idx s = ''loop'' \<and> ascends_forever idx s
    \<or> statusFor idx s = ''orphan'' \<and> reaches_unknown idx s
    \<or> statusFor idx s = ''ok'' \<and> reaches_root idx s"
proof (cases "md_ParentSessionID m = []")
  case True
  with assms show ?thesis
    by (auto simp: statusFor_def walk_parents.simps [of idx _ "[]"] reaches_root_def is_root_def)
next
  case False
  with assms have "ascends idx s (md_ParentSessionID m)" by (simp add: ascends_def)
  with walk_parents_cases [of s "[s]" idx "md_ParentSessionID m"] assms False show ?thesis
    by (auto simp: statusFor_def)
qed

lemma lineage_ends_exclusive:
  "\<not> (reaches_root idx s \<and> reaches_unknown idx s)" "\<not> (reaches_root idx s \<and> ascends_forever idx s)"
  "\<not> (reaches_unknown idx s \<and> ascends_forever idx s)"
proof -
  show "\<not> (reaches_root idx s \<and> reaches_unknown idx s)"
  proof
    assume "reaches_root idx s \<and> reaches_unknown idx s"
    then obtain a b where ab: "(ascends idx)\<^sup>*\<^sup>* s a" "is_root idx a" "(ascends idx)\<^sup>*\<^sup>* s b" "tfind md_SessionID b idx = None"
      by (auto simp: reaches_root_def reaches_unknown_def)
    with end_unique [of idx s a b] ends_stop have "a = b" by blast
    with ab show False by (simp add: is_root_def)
  qed
  show "\<not> (reaches_root idx s \<and> ascends_forever idx s)" "\<not> (reaches_unknown idx s \<and> ascends_forever idx s)"
    using ends_stop [of idx] unfolding reaches_root_def reaches_unknown_def ascends_forever_def by blast+
qed

text \<open>
  C37. The lineage status of a matched session is exact and always returned: a session that is not in the
  index is unavailable; otherwise it is ok exactly when its chain of parents reaches a session without a
  parent, orphan exactly when the chain reaches a session that is not in the index, and loop exactly when the
  chain never ends.
\<close>

theorem lineage_status_exact:
  "case tfind md_SessionID s idx of
     None \<Rightarrow> statusFor idx s = ''unavailable''
   | Some m \<Rightarrow> (statusFor idx s = ''ok'' \<longleftrightarrow> reaches_root idx s)
       \<and> (statusFor idx s = ''orphan'' \<longleftrightarrow> reaches_unknown idx s)
       \<and> (statusFor idx s = ''loop'' \<longleftrightarrow> ascends_forever idx s)
       \<and> statusFor idx s \<in> {''ok'', ''orphan'', ''loop''}"
proof (cases "tfind md_SessionID s idx")
  case None
  then show ?thesis by (simp add: statusFor_def)
next
  case (Some m)
  with statusFor_cases [OF Some] lineage_ends_exclusive [of idx s] show ?thesis by auto
qed

section \<open>Confinement to the user\<close>

lemma scan_hits_in:
  assumes "scan_hits flt mk n rs = Inr hs" "h \<in> set hs"
  shows "\<exists>i r c. (i, r) \<in> set rs \<and> tu_ChatID r = Some c \<and> h = mk r c"
  using assms
proof (induction flt mk n rs arbitrary: hs rule: scan_hits.induct)
  case (2 flt mk n i r rs)
  then obtain c hs' where c: "tu_ChatID r = Some c" "scan_hits flt mk (Suc n) rs = Inr hs'" "hs = mk r c # hs'" "\<not> flt (TurnRow n)"
    by (auto split: if_splits option.splits sum.splits)
  show ?case
  proof (cases "h = mk r c")
    case True
    with c(1) show ?thesis by auto
  next
    case False
    with c "2.prems"(2) "2.IH" [OF c(4) c(1) c(2)] show ?thesis by auto
  qed
qed (simp split: if_splits)

text \<open>A turn of one of the sessions or chats that \<open>metas\<close> binds to the user.\<close>

definition users_turn :: "SessionMetadata list \<Rightarrow> string \<Rightarrow> turn_row \<Rightarrow> bool" where
  "users_turn metas userID r \<longleftrightarrow>
     (\<exists>m \<in> set metas. trim_space (md_UserID m) = userID
        \<and> (tu_SessionID r = trim_space (md_SessionID m) \<or> tu_ChatID r = Some (trim_space (canonicalChatKey m))))"

lemma SearchMessages_hit:
  assumes "SearchMessages ulow ufold fts like flt t metas f limit = Inr hits" "h \<in> set hits"
  shows "\<exists>i r. (i, r) \<in> set (arows t) \<and> tu_SyncStatus r = ''ready'' \<and> mh_Content h = tu_Content r
    \<and> users_turn metas (trim_space (xf_UserID f)) r"
proof -
  obtain sel where sel: "selectMetadata ulow ufold metas f = Inr sel"
    using assms(1) by (auto simp: SearchMessages_def split: sum.splits)
  have "sel \<noteq> []" "limit \<noteq> 0" using assms sel by (auto simp: SearchMessages_def split: if_splits)
  with assms sel obtain i r c where r: "(i, r) \<in> set (BuildTurnSearchQuery ulow fts like (xf_Query f)
        (fst (metadataIndexes sel)) (fst (snd (metadataIndexes sel))) (xf_Roles f) limit t)"
      "h = message_hit sel (buildSearchLineageIndex ulow sel) r c"
    by (fastforce simp: SearchMessages_def metadataIndexes_def split: if_splits dest!: scan_hits_in)
  then have row: "(i, r) \<in> set (arows t)" "tu_SyncStatus r = ''ready''"
      "scope_predicate (newTurnSearchScope (fst (metadataIndexes sel)) (fst (snd (metadataIndexes sel)))) r"
    by (auto simp: BuildTurnSearchQuery_def Let_def dest: latest_first_in)
  from row(3) have "\<exists>m \<in> set sel. tu_SessionID r = trim_space (md_SessionID m) \<or> tu_ChatID r = Some (trim_space (canonicalChatKey m))"
    by (fastforce simp: scope_predicate_def newTurnSearchScope_def metadataIndexes_def UniqueTrimmed_def set_Unique Space_def
        split: if_splits option.splits)
  with select_member [OF sel] have "users_turn metas (trim_space (xf_UserID f)) r" unfolding users_turn_def by blast
  moreover have "mh_Content h = tu_Content r" using r(2) by (simp add: message_hit_def metadataIndexes_def)
  ultimately show ?thesis using row by blast
qed

text \<open>A turn of the current session key.\<close>

definition same_chat_turn :: "string \<Rightarrow> turn_row \<Rightarrow> bool" where
  "same_chat_turn key r \<longleftrightarrow> tu_ChatID r = Some key \<or> tu_SessionID r = key"

lemma same_chat_hit:
  assumes "same_chat ulow ufold like flt t params compiled limit ev = Inr res" "h \<in> set (tf_Results res)"
  shows "\<exists>i r. (i, r) \<in> set (arows t) \<and> tu_SyncStatus r = ''ready'' \<and> sh_Content h = tu_Content r
    \<and> same_chat_turn (sp_SessionKey params) r"
  using assms findTurns_hit unfolding same_chat_turn_def
  by (fastforce simp: same_chat_def split: sum.splits)

text \<open>The directory binds the chat of the session key to somebody else.\<close>

definition bound_elsewhere :: "session_directory \<Rightarrow> string \<Rightarrow> string \<Rightarrow> bool" where
  "bound_elsewhere dir key userID \<longleftrightarrow>
     (case dir_ResolveUserID dir of
        None \<Rightarrow> False
      | Some resolve \<Rightarrow>
          (case splitChatKey key of (source, chatID, ok) \<Rightarrow>
             ok \<and> (case resolve source chatID of
               None \<Rightarrow> False
             | Some (u, found) \<Rightarrow> found \<and> trim_space u \<noteq> [] \<and> trim_space u \<noteq> userID)))"

lemma bound_elsewhere_foreign:
  assumes "crossChatEvidenceMetadata dir userID key metas = Inr evidenceMetas" "bound_elsewhere dir key userID"
  shows "list_ex (foreign_binding ufold (trim_space key) (trim_space key) userID) evidenceMetas"
proof -
  from assms obtain source chatID u where s: "splitChatKey key = (source, chatID, True)" "trim_space u \<noteq> userID"
      "evidenceMetas = metas @ [bound_metadata key source chatID u]"
    by (auto simp: crossChatEvidenceMetadata_def bound_elsewhere_def split: option.splits prod.splits if_splits)
  then have "trim_space key \<noteq> []" by (auto simp: splitChatKey_def strings_Cut_def split: prod.splits if_splits)
  with s show ?thesis by (simp add: foreign_binding_def metadataMatchesCurrent_def bound_metadata_def)
qed

text \<open>A search either stays in the session key or had the user scope allowed.\<close>

lemma searchTurnFallback_cases [consumes 1, case_names same none user]:
  assumes "searchTurnFallback ulow uquote ufold fts like flt flt' sessions t params compiled limit = Inr res"
  obtains g ev where "same_chat ulow ufold like g t params compiled limit ev = Inr res"
  | "tf_Results res = []"
  | dir metas em hits where "EqualFold ufold (sp_Scope params) ''user''" "sessions = Some dir"
      "dir_ListMetadataByUserID dir (trim_space (sp_Peer params)) = Some metas"
      "crossChatEvidenceMetadata dir (trim_space (sp_Peer params)) (sp_SessionKey params) metas = Inr em"
      "ce_Decision (ExplainCrossChatRecall ulow uquote ufold em (user_filter params compiled)) = ''allowed''"
      "SearchMessages ulow ufold fts like flt t metas (user_filter params compiled) limit = Inr hits"
      "res = \<lparr>tf_Results = map fallback_hit hits,
        tf_ScopeEvidence = Some (ExplainCrossChatRecall ulow uquote ufold em (user_filter params compiled))\<rparr>"
proof (cases "EqualFold ufold (sp_Scope params) ''user''")
  case False
  with assms that(1) [of flt None] that(2) show ?thesis by (simp add: searchTurnFallback_def split: if_splits) auto
next
  case True
  note step = assms [unfolded searchTurnFallback_def Let_def]
  show ?thesis
  proof (cases sessions)
    case None
    with step True that(1) show ?thesis by simp
  next
    case (Some dir)
    with step True obtain metas em where d: "dir_ListMetadataByUserID dir (trim_space (sp_Peer params)) = Some metas"
        "crossChatEvidenceMetadata dir (trim_space (sp_Peer params)) (sp_SessionKey params) metas = Inr em"
      by (simp split: option.splits sum.splits)
    show ?thesis
    proof (cases "ce_Decision (ExplainCrossChatRecall ulow uquote ufold em (user_filter params compiled)) = ''allowed''")
      case False
      with step True Some d that(1) show ?thesis by simp
    next
      case allowed: True
      show ?thesis
      proof (cases "SearchMessages ulow ufold fts like flt t metas (user_filter params compiled) limit")
        case (Inl e)
        with step True Some d allowed that(1) show ?thesis by (cases e) simp_all
      next
        case (Inr hits)
        with step True Some d allowed that(3) show ?thesis by simp
      qed
    qed
  qed
qed

text \<open>What a hit of the fallback can be.\<close>

lemma turn_fallback_confined:
  assumes "searchTurnFallback ulow uquote ufold fts like flt flt' sessions t params compiled limit = Inr res"
    and "h \<in> set (tf_Results res)"
  shows "\<exists>i r. (i, r) \<in> set (arows t) \<and> tu_SyncStatus r = ''ready'' \<and> sh_Content h = tu_Content r
    \<and> (same_chat_turn (sp_SessionKey params) r
      \<or> EqualFold ufold (sp_Scope params) ''user''
        \<and> (\<exists>e. tf_ScopeEvidence res = Some e \<and> ce_Decision e = ''allowed'')
        \<and> (\<exists>dir metas. sessions = Some dir
          \<and> dir_ListMetadataByUserID dir (trim_space (sp_Peer params)) = Some metas
          \<and> \<not> bound_elsewhere dir (sp_SessionKey params) (trim_space (sp_Peer params))
          \<and> users_turn metas (trim_space (sp_Peer params)) r))"
proof -
  let ?f = "user_filter params compiled" and ?u = "trim_space (sp_Peer params)"
  from assms(1) show ?thesis
  proof (cases rule: searchTurnFallback_cases)
    case (same g ev)
    from same_chat_hit [OF same assms(2)] show ?thesis by blast
  next
    case none
    with assms(2) show ?thesis by simp
  next
    case (user dir metas em hits)
    then obtain g where g: "g \<in> set hits" "h = fallback_hit g" using assms(2) by auto
    have x: "xf_UserID ?f = ?u" "xf_CurrentSessionID ?f = sp_SessionKey params" "xf_CurrentChatKey ?f = sp_SessionKey params"
      by (simp_all add: user_filter_def)
    from SearchMessages_hit [OF user(6) g(1)] obtain i r where r: "(i, r) \<in> set (arows t)" "tu_SyncStatus r = ''ready''"
        "mh_Content g = tu_Content r" "users_turn metas ?u r" by (auto simp: x)
    have "\<not> bound_elsewhere dir (sp_SessionKey params) ?u"
    proof
      assume be: "bound_elsewhere dir (sp_SessionKey params) ?u"
      have "?u \<noteq> []" using user(5) by (auto simp: ExplainCrossChatRecall_def x Let_def)
      with explain_foreign [of ?f ufold em ulow uquote] bound_elsewhere_foreign [OF user(4) be] user(5) show False
        by (auto simp: x)
    qed
    with user r g show ?thesis by (auto simp: fallback_hit_def)
  qed
qed

text \<open>
  C7. A search never leaves the chats of the user: every hit of the turn fallback is a stored turn in state
  ready, with its content unchanged, and it either belongs to the current session key, or the user scope was
  asked for and allowed, the directory does not bind the current chat to another user, and the turn belongs to
  a session or chat that the directory lists for this user.
\<close>

theorem user_scope_search_confined:
  assumes "searchTurnFallback ulow uquote ufold fts like flt flt' sessions t params compiled limit = Inr res"
    and "h \<in> set (tf_Results res)"
  shows "\<exists>i r. (i, r) \<in> set (arows t) \<and> tu_SyncStatus r = ''ready'' \<and> sh_Content h = tu_Content r
    \<and> (same_chat_turn (sp_SessionKey params) r
      \<or> EqualFold ufold (sp_Scope params) ''user''
        \<and> (\<exists>e. tf_ScopeEvidence res = Some e \<and> ce_Decision e = ''allowed'')
        \<and> (\<exists>dir metas. sessions = Some dir
          \<and> dir_ListMetadataByUserID dir (trim_space (sp_Peer params)) = Some metas
          \<and> \<not> bound_elsewhere dir (sp_SessionKey params) (trim_space (sp_Peer params))
          \<and> users_turn metas (trim_space (sp_Peer params)) r))"
  using assms by (rule turn_fallback_confined)

text \<open>A user with two chats: asked from the first, the search finds the turn of the second.\<close>

definition xw_meta :: "string \<Rightarrow> string \<Rightarrow> SessionMetadata" where
  "xw_meta s c = \<lparr>md_SessionID = s, md_Source = ''d'', md_ChatID = c, md_UserID = ''u'', md_Title = [],
      md_ParentSessionID = [], md_LineageKind = [], md_CreatedAt = 0, md_UpdatedAt = 0\<rparr>"

definition xw_dir :: session_directory where
  "xw_dir = \<lparr>dir_ListMetadataByUserID = \<lambda>_. Some [xw_meta ''a'' ''1'', xw_meta ''b'' ''2''], dir_ResolveUserID = None\<rparr>"

definition xw_turn :: turn_row where
  "xw_turn = \<lparr>tu_SessionID = ''b'', tu_Role = ''user'', tu_Content = ''tea'', tu_TsUnix = 5, tu_ChatID = Some ''d:2'', tu_Meta = NoMeta,
      tu_SyncStatus = ''ready''\<rparr>"

definition xw_params :: SearchParams where
  "xw_params = \<lparr>sp_ProfileID = [], sp_Peer = ''u'', sp_Query = ''tea'', sp_MaxTokens = 0, 
      sp_SessionKey = ''d:1'', sp_Scope = ''user'', sp_Sources = [], sp_Filters = [], sp_Limit = 5\<rparr>"

definition xw_hit :: SearchHit where
  "xw_hit = \<lparr>sh_Source = ''turn'', sh_OriginSource = ''d'', sh_Content = ''tea'', sh_SessionKey = ''b'',
     sh_Lineage = Some \<lparr>li_ParentSessionID = [], li_LineageKind = ''primary'', li_ChildSessionIDs = [], li_Status = ''ok''\<rparr>\<rparr>"

definition xw_search :: "fallback_error + turnFallbackResult" where
  "xw_search = searchTurnFallback (\<lambda>s. s) (\<lambda>s. s) (=) (\<lambda>_ _. True) (\<lambda>_ _. True) (\<lambda>_. False) (\<lambda>_. False) (Some xw_dir)
     \<lparr>arows = [(1, xw_turn)], aseq = 1\<rparr> xw_params emptyCompiled 5"

lemma xw_found: "case xw_search of Inl _ \<Rightarrow> False | Inr res \<Rightarrow> tf_Results res = [xw_hit]"
  by code_simp

theorem user_scope_search_confined_witness:
  "\<exists>res. xw_search = Inr res \<and> tf_Results res = [xw_hit]
    \<and> (same_chat_turn ''d:1'' xw_turn \<or> ce_Decision (the (tf_ScopeEvidence res)) = ''allowed'')"
proof -
  obtain res where res: "xw_search = Inr res" "tf_Results res = [xw_hit]"
    using xw_found by (auto split: sum.splits)
  with user_scope_search_confined [OF res(1) [unfolded xw_search_def], of xw_hit] show ?thesis
    by (auto simp: xw_params_def)
qed

end
