(* ===== verification/ScopedKey.thy ===== *)
theory ScopedKey
  imports Text
begin

text \<open>
  Scoped API keys (\<open>internal/scopedkey/scopedkey.go\<close>, wrapped by \<open>keys/keys.go\<close>): creating a signed
  token for a workspace, a peer or a session, and verifying one.  The URL-safe base64 coding is written
  out; the HMAC-SHA-256 of a text under a secret, the JSON coding of the claims and the RFC 3339
  coding of a time are the argument \<open>env\<close>.  A time is its offset from the Unix epoch in nanoseconds.
\<close>

section \<open>\<open>base64.RawURLEncoding\<close>\<close>

definition b64_alphabet :: string where
  "b64_alphabet = ''ABCDEFGHIJKLMNOPQRSTUVWXYZabcdefghijklmnopqrstuvwxyz0123456789-_''"

definition b64_char :: "nat \<Rightarrow> char" where
  "b64_char n = b64_alphabet ! n"

definition b64_val :: "char \<Rightarrow> nat option" where
  "b64_val c = find (\<lambda>n. b64_char n = c) [0..<64]"

fun b64_encode :: "string \<Rightarrow> string" where
  "b64_encode [] = []"
| "b64_encode [a] = (let n = byte a * 16 in map b64_char [n div 64, n mod 64])"
| "b64_encode [a, b] = (let n = (byte a * 256 + byte b) * 4 in map b64_char [n div 4096, n div 64 mod 64, n mod 64])"
| "b64_encode (a # b # c # s) =
     (let n = byte a * 65536 + byte b * 256 + byte c in
      map b64_char [n div 262144, n div 4096 mod 64, n div 64 mod 64, n mod 64] @ b64_encode s)"

text \<open>A lone last character is an error; the unused low bits of a short group are ignored.\<close>

fun b64_groups :: "nat list \<Rightarrow> string option" where
  "b64_groups [] = Some []"
| "b64_groups [x] = None"
| "b64_groups [x, y] = Some [char_of ((x * 64 + y) div 16)]"
| "b64_groups [x, y, z] = (let n = (x * 4096 + y * 64 + z) div 4 in Some [char_of (n div 256), char_of (n mod 256)])"
| "b64_groups (x # y # z # w # vs) =
     (let n = x * 262144 + y * 4096 + z * 64 + w in
      map_option (\<lambda>s. char_of (n div 65536) # char_of (n div 256 mod 256) # char_of (n mod 256) # s) (b64_groups vs))"

text \<open>The decoder skips line breaks and rejects every other character outside the alphabet.\<close>

definition b64_decode :: "string \<Rightarrow> string option" where
  "b64_decode s =
     (case those (map b64_val (filter (\<lambda>c. byte c \<noteq> 10 \<and> byte c \<noteq> 13) s)) of None \<Rightarrow> None | Some vs \<Rightarrow> b64_groups vs)"

lemma b64_val_char: "n < 64 \<Longrightarrow> b64_val (b64_char n) = Some n"
proof -
  have "list_all (\<lambda>n. b64_val (b64_char n) = Some n) [0..<64]" by code_simp
  then show "n < 64 \<Longrightarrow> b64_val (b64_char n) = Some n" by (simp add: list_all_iff)
qed

lemma b64_char_plain: "n < 64 \<Longrightarrow> byte (b64_char n) \<noteq> 10 \<and> byte (b64_char n) \<noteq> 13 \<and> b64_char n \<noteq> CHR ''.''"
proof -
  have "list_all (\<lambda>n. byte (b64_char n) \<noteq> 10 \<and> byte (b64_char n) \<noteq> 13 \<and> b64_char n \<noteq> CHR ''.'') [0..<64]" by code_simp
  then show "n < 64 \<Longrightarrow> ?thesis" by (simp add: list_all_iff)
qed

lemma byte_lt: "byte c < 256"
  by (simp add: byte_def)

lemma char_of_byte [simp]: "char_of (byte c) = c"
  by (simp add: byte_def)

lemma char_of_low [simp]: "char_of (256 * x + byte b) = b"
proof -
  have "char_of (256 * x + byte b) = (char_of ((256 * x + byte b) mod 256) :: char)" by (simp only: char_of_mod_256)
  then show ?thesis using byte_lt [of b] by simp
qed

text \<open>The values a text is encoded to, before the alphabet is applied.\<close>

fun b64_values :: "string \<Rightarrow> nat list" where
  "b64_values [] = []"
| "b64_values [a] = (let n = byte a * 16 in [n div 64, n mod 64])"
| "b64_values [a, b] = (let n = (byte a * 256 + byte b) * 4 in [n div 4096, n div 64 mod 64, n mod 64])"
| "b64_values (a # b # c # s) =
     (let n = byte a * 65536 + byte b * 256 + byte c in
      [n div 262144, n div 4096 mod 64, n div 64 mod 64, n mod 64] @ b64_values s)"

lemma b64_encode_values: "b64_encode s = map b64_char (b64_values s)"
  by (induction s rule: b64_values.induct) (simp_all add: Let_def)

lemma b64_values_lt: "list_all (\<lambda>n. n < 64) (b64_values s)"
proof (induction s rule: b64_values.induct)
  case (2 a)
  with byte_lt [of a] show ?case by (simp add: Let_def less_mult_imp_div_less)
next
  case (3 a b)
  with byte_lt [of a] byte_lt [of b] show ?case by (simp add: Let_def less_mult_imp_div_less)
next
  case (4 a b c s)
  with byte_lt [of a] byte_lt [of b] byte_lt [of c] show ?case by (simp add: Let_def less_mult_imp_div_less)
qed simp

lemma horner:
  "(a::nat) * 64 + b = x \<Longrightarrow> c * 64 + d = a \<Longrightarrow> c * 4096 + d * 64 + b = x"
  "(a::nat) * 64 + b = x \<Longrightarrow> c * 64 + d = a \<Longrightarrow> e * 64 + f = c \<Longrightarrow> e * 262144 + f * 4096 + d * 64 + b = x"
  by auto

lemma div_64: "(n::nat) div 4096 = n div 64 div 64" "(n::nat) div 262144 = n div 64 div 64 div 64"
  by (simp_all add: div_mult2_eq [symmetric])

lemma base64_digits: "(n::nat) div 262144 * 262144 + n div 4096 mod 64 * 4096 + n div 64 mod 64 * 64 + n mod 64 = n"
  unfolding div_64 by (rule horner(2) [OF div_mult_mod_eq div_mult_mod_eq div_mult_mod_eq])

lemma base64_digits3: "(n::nat) div 4096 * 4096 + n div 64 mod 64 * 64 + n mod 64 = n"
  unfolding div_64 by (rule horner(1) [OF div_mult_mod_eq div_mult_mod_eq])

lemma three_bytes:
  assumes "b < 256" "c < 256"
  shows "(a * 65536 + b * 256 + c) div 65536 = (a::nat)" "(a * 65536 + b * 256 + c) div 256 mod 256 = b"
    "(a * 65536 + b * 256 + c) mod 256 = c"
proof -
  have n: "a * 65536 + b * 256 + c = (a * 256 + b) * 256 + c" by simp
  have d: "(a * 65536 + b * 256 + c) div 256 = a * 256 + b" unfolding n using assms(2) by (subst div_mult_self3) simp_all
  have "(a * 65536 + b * 256 + c) div 65536 = (a * 65536 + b * 256 + c) div 256 div 256" by (simp add: div_mult2_eq [symmetric])
  then show "(a * 65536 + b * 256 + c) div 65536 = a" unfolding d using assms(1) by simp
  show "(a * 65536 + b * 256 + c) div 256 mod 256 = b" unfolding d using assms(1) by simp
  show "(a * 65536 + b * 256 + c) mod 256 = c" unfolding n using assms(2) by (simp only: mod_mult_self3) simp
qed

lemma b64_groups_values: "b64_groups (b64_values s) = Some s"
proof (induction s rule: b64_values.induct)
  case (2 a)
  have "byte a * 16 div 64 * 64 + byte a * 16 mod 64 = byte a * 16" by (rule div_mult_mod_eq)
  then show ?case by (simp only: b64_values.simps b64_groups.simps Let_def) simp
next
  case (3 a b)
  then show ?case using byte_lt [of b] base64_digits3 [of "(byte a * 256 + byte b) * 4"] by (simp add: Let_def)
next
  case (4 a b c s)
  with 4 three_bytes [of "byte b" "byte c" "byte a"] byte_lt [of b] byte_lt [of c] show ?case using base64_digits [of "byte a * 65536 + byte b * 256 + byte c"]
    by (simp add: Let_def del: char_of_mod_256)
qed simp

lemma those_map_Some: "those (map Some xs) = Some xs"
  by (induction xs) simp_all

lemma b64_roundtrip: "b64_decode (b64_encode s) = Some s"
proof -
  note v = b64_values_lt [of s, unfolded list_all_iff]
  have "filter (\<lambda>c. byte c \<noteq> 10 \<and> byte c \<noteq> 13) (b64_encode s) = b64_encode s"
    using v b64_char_plain by (auto simp: b64_encode_values filter_id_conv)
  moreover have "map b64_val (b64_encode s) = map Some (b64_values s)"
    using v b64_val_char by (simp add: b64_encode_values)
  ultimately show ?thesis by (simp add: b64_decode_def those_map_Some b64_groups_values)
qed

lemma b64_encode_no_dot: "CHR ''.'' \<notin> set (b64_encode s)"
proof
  assume "CHR ''.'' \<in> set (b64_encode s)"
  then obtain n where "n \<in> set (b64_values s)" "b64_char n = CHR ''.''" by (auto simp: b64_encode_values)
  with b64_values_lt [of s] b64_char_plain [of n] show False by (simp add: list_all_iff)
qed

section \<open>Keys\<close>

datatype key_error = ErrAuthDisabled | ErrAdminRequired | ErrScopeRequired | ErrSecretMissing | ErrInvalid | ErrExpired

record KeyParams =
  kp_WorkspaceID :: string
  kp_PeerID :: string
  kp_SessionID :: string
  kp_ExpiresAt :: int
  kp_AuthEnabled :: bool
  kp_Admin :: bool
  kp_Secret :: string
  kp_Now :: int

record Claims =
  cl_Timestamp :: string
  cl_ExpiresAt :: string
  cl_Admin :: "bool option"
  cl_WorkspaceID :: string
  cl_PeerID :: string
  cl_SessionID :: string

record KeyResult =
  kr_Key :: string
  kr_Claims :: Claims

text \<open>
  The library the code calls: \<open>mac text secret\<close> is HMAC-SHA-256, \<open>json_claims\<close> and \<open>json_read\<close>
  encode and decode claims, \<open>rfc3339\<close> and \<open>rfc3339_read\<close> format and parse a time.
\<close>

record key_env =
  mac :: "string \<Rightarrow> string \<Rightarrow> string"
  json_claims :: "Claims \<Rightarrow> string"
  json_read :: "string \<Rightarrow> Claims option"
  rfc3339 :: "int \<Rightarrow> string"
  rfc3339_read :: "string \<Rightarrow> int option"

definition signature :: "key_env \<Rightarrow> string \<Rightarrow> string \<Rightarrow> string" where
  "signature env unsigned secret = b64_encode (mac env unsigned secret)"

text \<open>The header as \<open>json.Marshal\<close> writes the map, keys in order: \<open>{"alg":"HS256","typ":"JWT"}\<close>.\<close>

definition token_header :: string where
  "token_header = (let q = char_of (34 :: nat) in
     [CHR ''{'', q] @ ''alg'' @ [q, CHR '':'', q] @ ''HS256'' @ [q, CHR '','', q] @ ''typ'' @ [q, CHR '':'', q] @ ''JWT'' @ [q, CHR ''}''])"

definition sign :: "key_env \<Rightarrow> Claims \<Rightarrow> string \<Rightarrow> key_error + string" where
  "sign env claims secret =
     (if trim_space secret = [] then Inl ErrSecretMissing
      else let unsigned = b64_encode token_header @ ''.'' @ b64_encode (json_claims env claims) in
        Inr (unsigned @ ''.'' @ signature env unsigned secret))"

definition CreateKey :: "key_env \<Rightarrow> int \<Rightarrow> KeyParams \<Rightarrow> key_error + KeyResult" where
  "CreateKey env clock p =
     (if \<not> kp_AuthEnabled p then Inl ErrAuthDisabled
      else if \<not> kp_Admin p then Inl ErrAdminRequired
      else
        let w = trim_space (kp_WorkspaceID p); pe = trim_space (kp_PeerID p); s = trim_space (kp_SessionID p) in
        if w = [] \<and> pe = [] \<and> s = [] then Inl ErrScopeRequired
        else
          let now = (if kp_Now p = zero_time then clock else kp_Now p);
              claims = \<lparr>cl_Timestamp = rfc3339 env now,
                        cl_ExpiresAt = (if kp_ExpiresAt p = zero_time then [] else rfc3339 env (kp_ExpiresAt p)),
                        cl_Admin = None, cl_WorkspaceID = w, cl_PeerID = pe, cl_SessionID = s\<rparr> in
          case sign env claims (kp_Secret p) of
            Inl e \<Rightarrow> Inl e
          | Inr key \<Rightarrow> Inr \<lparr>kr_Key = key, kr_Claims = claims\<rparr>)"

text \<open>\<open>strings.Split(token, ".")\<close>.\<close>

fun split_dots :: "string \<Rightarrow> string list" where
  "split_dots [] = [[]]"
| "split_dots (c # s) = (if c = CHR ''.'' then [] # split_dots s
     else case split_dots s of [] \<Rightarrow> [[c]] | w # ws \<Rightarrow> (c # w) # ws)"

definition isExpired :: "int \<Rightarrow> int \<Rightarrow> int \<Rightarrow> bool" where
  "isExpired clock exp now0 = (let now = (if now0 = zero_time then clock else now0) in \<not> now < exp)"

definition verifyExpiration :: "key_env \<Rightarrow> int \<Rightarrow> string \<Rightarrow> int \<Rightarrow> key_error option" where
  "verifyExpiration env clock rawExp now =
     (if rawExp = [] then None
      else case rfc3339_read env rawExp of
        None \<Rightarrow> Some ErrInvalid
      | Some exp \<Rightarrow> if isExpired clock exp now then Some ErrExpired else None)"

definition VerifyKey :: "key_env \<Rightarrow> int \<Rightarrow> string \<Rightarrow> string \<Rightarrow> int \<Rightarrow> key_error + Claims" where
  "VerifyKey env clock token secret now =
     (case split_dots token of
        [header, body, sig] \<Rightarrow>
          if trim_space secret = [] then Inl ErrSecretMissing
          else if sig \<noteq> signature env (header @ ''.'' @ body) secret then Inl ErrInvalid
          else (case b64_decode body of
            None \<Rightarrow> Inl ErrInvalid
          | Some payload \<Rightarrow>
             (case json_read env payload of
                None \<Rightarrow> Inl ErrInvalid
              | Some claims \<Rightarrow>
                 (case verifyExpiration env clock (cl_ExpiresAt claims) now of
                    Some e \<Rightarrow> Inl e
                  | None \<Rightarrow> Inr claims)))
      | _ \<Rightarrow> Inl ErrInvalid)"

lemma split_dots_plain: "CHR ''.'' \<notin> set s \<Longrightarrow> split_dots s = [s]"
  by (induction s) auto

lemma split_dots_append: "CHR ''.'' \<notin> set s \<Longrightarrow> split_dots (s @ CHR ''.'' # t) = s # split_dots t"
  by (induction s) auto

lemma split_dots_ne [simp]: "split_dots s \<noteq> []"
  by (induction s) (auto split: list.split)

lemma split_dots_join: "join_with ''.'' (split_dots s) = s"
proof (induction s)
  case (Cons c s)
  obtain w ws where w: "split_dots s = w # ws" by (cases "split_dots s") auto
  with Cons show ?case by (cases ws) auto
qed simp

lemma split_signed:
  "split_dots (b64_encode a @ ''.'' @ b64_encode b @ ''.'' @ b64_encode c) = [b64_encode a, b64_encode b, b64_encode c]"
  by (simp add: split_dots_append split_dots_plain b64_encode_no_dot)

lemma sign_verify:
  assumes "sign env claims secret = Inr token" "json_read env (json_claims env claims) = Some claims"
  shows "VerifyKey env clock token secret now =
    (case verifyExpiration env clock (cl_ExpiresAt claims) now of Some e \<Rightarrow> Inl e | None \<Rightarrow> Inr claims)"
proof -
  let ?u = "b64_encode token_header @ ''.'' @ b64_encode (json_claims env claims)"
  from assms(1) have s: "trim_space secret \<noteq> []" "token = ?u @ ''.'' @ signature env ?u secret"
    by (auto simp: sign_def Let_def split: if_splits)
  have "split_dots token = [b64_encode token_header, b64_encode (json_claims env claims), signature env ?u secret]"
    unfolding s(2) signature_def append_assoc by (rule split_signed)
  with s(1) assms(2) show ?thesis by (simp add: VerifyKey_def b64_roundtrip)
qed


lemma CreateKey_Inr:
  assumes "CreateKey env clock p = Inr r"
  shows "kp_AuthEnabled p \<and> kp_Admin p \<and> sign env (kr_Claims r) (kp_Secret p) = Inr (kr_Key r)
    \<and> cl_ExpiresAt (kr_Claims r) = (if kp_ExpiresAt p = zero_time then [] else rfc3339 env (kp_ExpiresAt p))
    \<and> cl_WorkspaceID (kr_Claims r) = trim_space (kp_WorkspaceID p) \<and> cl_PeerID (kr_Claims r) = trim_space (kp_PeerID p)
    \<and> cl_SessionID (kr_Claims r) = trim_space (kp_SessionID p) \<and> cl_Admin (kr_Claims r) = None
    \<and> (cl_WorkspaceID (kr_Claims r) \<noteq> [] \<or> cl_PeerID (kr_Claims r) \<noteq> [] \<or> cl_SessionID (kr_Claims r) \<noteq> [])"
  using assms by (auto simp: CreateKey_def Let_def split: if_splits sum.splits)

section \<open>Properties\<close>

text \<open>
  C34. A created key is issued only to an administrator with authentication on, for at least one scope
  and never with admin rights, and verifying it under the same secret gives back its claims until its
  expiry and \<open>ErrExpired\<close> from then on; the expiry that counts is the requested one cut down to
  the second, and a key without expiry never expires.  (The JSON coding of the claims and the RFC 3339
  coding of the expiry are taken to round-trip.)
\<close>

theorem key_create_verify:
  assumes "CreateKey env clock p = Inr r"
    and "json_read env (json_claims env (kr_Claims r)) = Some (kr_Claims r)"
    and "rfc3339 env (kp_ExpiresAt p) \<noteq> []"
    and "rfc3339_read env (rfc3339 env (kp_ExpiresAt p)) = Some (kp_ExpiresAt p div 1000000000 * 1000000000)"
  shows "kp_AuthEnabled p \<and> kp_Admin p \<and> cl_Admin (kr_Claims r) = None
    \<and> [trim_space (kp_WorkspaceID p), trim_space (kp_PeerID p), trim_space (kp_SessionID p)]
        = [cl_WorkspaceID (kr_Claims r), cl_PeerID (kr_Claims r), cl_SessionID (kr_Claims r)]
    \<and> \<not> list_all (\<lambda>x. x = []) [cl_WorkspaceID (kr_Claims r), cl_PeerID (kr_Claims r), cl_SessionID (kr_Claims r)]
    \<and> VerifyKey env clock' (kr_Key r) (kp_Secret p) now =
        (if kp_ExpiresAt p \<noteq> zero_time
            \<and> kp_ExpiresAt p div 1000000000 * 1000000000 \<le> (if now = zero_time then clock' else now)
         then Inl ErrExpired else Inr (kr_Claims r))"
proof -
  note c = CreateKey_Inr [OF assms(1)]
  from c have "sign env (kr_Claims r) (kp_Secret p) = Inr (kr_Key r)" by blast
  from sign_verify [OF this assms(2), of clock' now] c assms(3,4) show ?thesis
    by (auto simp: verifyExpiration_def isExpired_def Let_def not_le)
qed

text \<open>
  Verification accepts nothing but a signed token: three parts separated by dots of which the last
  is the signature of the first two under the given nonblank secret, a payload that decodes to the
  returned claims, and an expiry that is absent or parses to a time after the present.
\<close>

theorem verify_only_signed:
  assumes "VerifyKey env clock token secret now = Inr claims"
  shows "\<exists>header body payload. token = header @ ''.'' @ body @ ''.'' @ signature env (header @ ''.'' @ body) secret
    \<and> trim_space secret \<noteq> [] \<and> b64_decode body = Some payload \<and> json_read env payload = Some claims
    \<and> (cl_ExpiresAt claims = [] \<or> (\<exists>exp. rfc3339_read env (cl_ExpiresAt claims) = Some exp
          \<and> (if now = zero_time then clock else now) < exp))"
proof -
  from assms obtain header body sig where p: "split_dots token = [header, body, sig]"
    by (auto simp: VerifyKey_def split: list.splits)
  with split_dots_join [of token] have t: "token = header @ ''.'' @ body @ ''.'' @ sig" by simp
  from assms p have v: "trim_space secret \<noteq> []" "sig = signature env (header @ ''.'' @ body) secret"
    by (auto simp: VerifyKey_def split: if_splits)
  from assms p v obtain payload where d: "b64_decode body = Some payload" "json_read env payload = Some claims"
    "verifyExpiration env clock (cl_ExpiresAt claims) now = None"
    by (auto simp: VerifyKey_def split: option.splits)
  from d(3) have "cl_ExpiresAt claims = [] \<or> (\<exists>exp. rfc3339_read env (cl_ExpiresAt claims) = Some exp
          \<and> (if now = zero_time then clock else now) < exp)"
    by (auto simp: verifyExpiration_def isExpired_def Let_def split: option.splits if_splits)
  with t v d show ?thesis by blast
qed

section \<open>Witnesses\<close>

definition demo_claims :: Claims where
  "demo_claims = \<lparr>cl_Timestamp = ''0'', cl_ExpiresAt = ''5'', cl_Admin = None, cl_WorkspaceID = ''w'', cl_PeerID = [], cl_SessionID = []\<rparr>"

definition demo_env :: key_env where
  "demo_env = \<lparr>mac = (\<lambda>t s. s @ take 3 t), json_claims = (\<lambda>c. if c = demo_claims then ''c'' else []),
     json_read = (\<lambda>s. if s = ''c'' then Some demo_claims else None),
     rfc3339 = (\<lambda>t. Decimal (t div 1000000000)),
     rfc3339_read = (\<lambda>s. case ParseInt s of Inr n \<Rightarrow> Some (n * 1000000000) | Inl _ \<Rightarrow> None)\<rparr>"

definition demo_params :: KeyParams where
  "demo_params = \<lparr>kp_WorkspaceID = '' w'', kp_PeerID = [], kp_SessionID = [], kp_ExpiresAt = 5000000001, kp_AuthEnabled = True,
     kp_Admin = True, kp_Secret = ''k'', kp_Now = 1\<rparr>"

lemma demo_create: "\<exists>r. CreateKey demo_env 0 demo_params = Inr r \<and> kr_Claims r = demo_claims"
proof -
  have t: "trim_space '' w'' = ''w''" "trim_space ''k'' = ''k''" by code_simp+
  have d: "Decimal 0 = ''0''" "Decimal 5 = ''5''" by code_simp+
  show ?thesis
    by (simp add: CreateKey_def sign_def Let_def demo_params_def t demo_claims_def demo_env_def d zero_time_def)
qed

lemma demo_json: "json_read demo_env (json_claims demo_env demo_claims) = Some demo_claims"
  by (simp add: demo_env_def)

theorem key_create_verify_witness:
  "\<exists>r. CreateKey demo_env 0 demo_params = Inr r \<and> VerifyKey demo_env 0 (kr_Key r) ''k'' 4999999999 = Inr (kr_Claims r)
     \<and> VerifyKey demo_env 0 (kr_Key r) ''k'' 5000000000 = Inl ErrExpired"
proof -
  obtain r where r: "CreateKey demo_env 0 demo_params = Inr r" "kr_Claims r = demo_claims" using demo_create by blast
  have j: "json_read demo_env (json_claims demo_env (kr_Claims r)) = Some (kr_Claims r)" unfolding r(2) by (rule demo_json)
  have k: "kp_Secret demo_params = ''k''" "kp_ExpiresAt demo_params = 5000000001" by (simp_all add: demo_params_def)
  have d: "Decimal 5 = ''5''" "ParseInt ''5'' = Inr 5" by code_simp+
  have t: "rfc3339 demo_env (kp_ExpiresAt demo_params) \<noteq> []"
    "rfc3339_read demo_env (rfc3339 demo_env (kp_ExpiresAt demo_params)) = Some (kp_ExpiresAt demo_params div 1000000000 * 1000000000)"
    by (simp_all add: demo_env_def k d)
  from key_create_verify [OF r(1) j t, of 0 4999999999] key_create_verify [OF r(1) j t, of 0 5000000000] r k
  show ?thesis by (auto simp: zero_time_def)
qed

theorem verify_only_signed_witness:
  "\<exists>token header body. token = header @ ''.'' @ body @ ''.'' @ signature demo_env (header @ ''.'' @ body) ''k'' \<and> b64_decode body = Some ''c''"
proof -
  have t: "trim_space ''k'' = ''k''" by code_simp
  have d: "ParseInt ''5'' = Inr 5" by code_simp
  obtain token where s: "sign demo_env demo_claims ''k'' = Inr token" by (simp add: sign_def Let_def t)
  have e: "verifyExpiration demo_env 0 (cl_ExpiresAt demo_claims) 1 = None"
    by (simp add: verifyExpiration_def isExpired_def demo_env_def demo_claims_def d zero_time_def)
  have "VerifyKey demo_env 0 token ''k'' 1 = Inr demo_claims" using sign_verify [OF s demo_json, of 0 1] e by simp
  moreover have "json_read demo_env p = Some demo_claims \<Longrightarrow> p = ''c''" for p by (simp add: demo_env_def split: if_splits)
  ultimately show ?thesis using verify_only_signed [of demo_env 0 token "''k''" 1 demo_claims] by blast
qed

end
