(* ===== verification/TeamFeed.thy ===== *)
theory TeamFeed
  imports ActionGraph "HOL-Library.Multiset"
begin

text \<open>
  The team feed (\<open>service/team_feed.go\<close>): a reader authorised for a scope, or an administrator, pages
  through the action signals of the scope, newest first; every read, allowed or denied, leaves an
  audit row.  A page is asked for with the cursor of the previous one, the id of its last signal.
  \<open>flt\<close> says which SQL statement fails, \<open>uquote\<close> is the Unicode part of \<open>strconv.Quote\<close>, \<open>now\<close> the
  clock reading in nanoseconds.
\<close>

section \<open>Data\<close>

datatype TeamFeedDecision = TeamFeedDecisionAllowed | TeamFeedDecisionDenied

record TeamFeedQuery =
  tq_WorkspaceID :: string
  tq_ProfileID :: string
  tq_Peer :: string
  tq_Actor :: string
  tq_ActorWorkspaceID :: string
  tq_ActorProfileID :: string
  tq_Role :: string
  tq_Limit :: int
  tq_Cursor :: string

text \<open>The scope and the actor of a normalised query; the code holds them in a \<open>TeamFeedEntry\<close>.\<close>

record FeedScope = Scope +
  FeedActor :: string

record TeamFeedEntry =
  te_ID :: string
  te_SignalID :: int
  te_Row :: signal_row

record TeamFeedResult =
  tr_Authorized :: bool
  tr_Decision :: TeamFeedDecision
  tr_Reason :: string
  tr_Entries :: "TeamFeedEntry list"
  tr_NextCursor :: string
  tr_AuditID :: int

record TeamFeedAuditEvent =
  ta_peer :: "string \<times> string \<times> string"
  ta_Actor :: string
  ta_ActorWorkspaceID :: string
  ta_ActorProfileID :: string
  ta_Role :: string
  ta_Decision :: TeamFeedDecision
  ta_Reason :: string
  ta_CreatedAt :: int

record feed_db =
  fgraph :: action_db
  faudit :: "TeamFeedAuditEvent atable"

datatype feed_site = TfList | TfAudit

datatype feed_error = FeedInvalid string | FeedCursor string | FeedDb feed_site

record teamFeedAuthorization =
  tz_Allowed :: bool
  tz_Actor :: ActorScope
  tz_Role :: string
  tz_Reason :: string

section \<open>Normalisation and authorisation\<close>

definition feed_peer :: "'a Scope_scheme \<Rightarrow> string \<times> string \<times> string" where
  "feed_peer s = (WorkspaceID s, ProfileID s, Peer s)"

definition normalizeTeamFeedQuery :: "string \<Rightarrow> TeamFeedQuery \<Rightarrow> feed_error + FeedScope" where
  "normalizeTeamFeedQuery ws q =
     (let scope = scopekey_Normalize ws (tq_WorkspaceID q) (tq_ProfileID q) (tq_Peer q); actor = trim_space (tq_Actor q) in
      if \<not> Complete scope \<or> actor = [] then Inl (FeedInvalid ''team feed workspace_id, peer, and actor are required'')
      else Inr \<lparr>WorkspaceID = WorkspaceID scope, ProfileID = ProfileID scope, Peer = Peer scope, FeedActor = actor\<rparr>)"

definition normalizeTeamFeedAuditQuery :: "string \<Rightarrow> string \<Rightarrow> string \<Rightarrow> string \<Rightarrow> feed_error + Scope" where
  "normalizeTeamFeedAuditQuery ws workspaceID profileID peer =
     (let scope = scopekey_Normalize ws workspaceID profileID peer in
      if \<not> Complete scope then Inl (FeedInvalid ''team feed audit workspace_id and peer are required'') else Inr scope)"

definition decideTeamFeedAuthorization :: "(string \<Rightarrow> string) \<Rightarrow> TeamFeedQuery \<Rightarrow> FeedScope \<Rightarrow> teamFeedAuthorization" where
  "decideTeamFeedAuthorization uquote q target =
     (let actorScope = NormalizeActorScope (tq_ActorWorkspaceID q) (tq_ActorProfileID q) (WorkspaceID target);
          role = trim_space (tq_Role q);
          allowed = (role = ''admin'' \<or> SameScope actorScope (WorkspaceID target) (ProfileID target)) in
      \<lparr>tz_Allowed = allowed, tz_Actor = actorScope, tz_Role = role,
       tz_Reason = (if allowed then [] else DeniedReadReason uquote actorScope ''team feed'' (WorkspaceID target) (ProfileID target))\<rparr>)"

definition parseTeamFeedCursor :: "string \<Rightarrow> feed_error + int" where
  "parseTeamFeedCursor cursor =
     (if trim_space cursor = [] then Inr 0
      else case ParseDecimal cursor of
        Inl _ \<Rightarrow> Inl (FeedCursor cursor)
      | Inr parsed \<Rightarrow> if parsed < 0 then Inl (FeedCursor cursor) else Inr parsed)"

section \<open>Pages\<close>

text \<open>\<open>WHERE workspace_id = ? AND profile_id = ? AND peer_id = ? [AND id < ?] ORDER BY id DESC\<close>.\<close>

definition feed_rows :: "string \<times> string \<times> string \<Rightarrow> int \<Rightarrow> action_db \<Rightarrow> (int \<times> signal_row) list" where
  "feed_rows p cursor g =
     order_desc fst (filter (\<lambda>(i, r). peer_of (sr_key r) = p \<and> (cursor > 0 \<longrightarrow> i < cursor)) (arows (signals g)))"

definition feed_entry :: "int \<times> signal_row \<Rightarrow> TeamFeedEntry" where
  "feed_entry x = \<lparr>te_ID = Prefixed ''signal:'' (fst x), te_SignalID = fst x, te_Row = snd x\<rparr>"

text \<open>One row more than the limit is read; when it is there, the id of the last returned row is the cursor.\<close>

definition listTeamFeedEntries :: "string \<times> string \<times> string \<Rightarrow> int \<Rightarrow> int \<Rightarrow> action_db \<Rightarrow> TeamFeedEntry list \<times> string" where
  "listTeamFeedEntries p cursor limit g =
     (let entries = map feed_entry (take (nat (limit + 1)) (feed_rows p cursor g)) in
      if int (length entries) > limit then (take (nat limit) entries, Decimal (te_SignalID (entries ! nat (limit - 1))))
      else (entries, []))"

definition insertTeamFeedAudit :: "FeedScope \<Rightarrow> ActorScope \<Rightarrow> string \<Rightarrow> TeamFeedDecision \<Rightarrow> string \<Rightarrow> int \<Rightarrow> feed_db \<Rightarrow> int \<times> feed_db" where
  "insertTeamFeedAudit scope actor role decision reason now db =
     (let (i, t) = ainsert \<lparr>ta_peer = feed_peer scope, ta_Actor = FeedActor scope, ta_ActorWorkspaceID = ActorWorkspaceID actor,
            ta_ActorProfileID = ActorProfileID actor, ta_Role = role, ta_Decision = decision, ta_Reason = reason,
            ta_CreatedAt = now\<rparr> (faudit db) in
      (i, db\<lparr>faudit := t\<rparr>))"

section \<open>Operations\<close>

definition TeamFeed :: "(feed_site \<Rightarrow> bool) \<Rightarrow> (string \<Rightarrow> string) \<Rightarrow> string \<Rightarrow> int \<Rightarrow> TeamFeedQuery \<Rightarrow> feed_db
    \<Rightarrow> (feed_error + TeamFeedResult) \<times> feed_db" where
  "TeamFeed flt uquote ws now q db =
     (case normalizeTeamFeedQuery ws q of
        Inl e \<Rightarrow> (Inl e, db)
      | Inr norm \<Rightarrow>
          let authz = decideTeamFeedAuthorization uquote q norm in
          if \<not> tz_Allowed authz then
            (if flt TfAudit then (Inl (FeedDb TfAudit), db)
             else let (i, db') = insertTeamFeedAudit norm (tz_Actor authz) (tz_Role authz) TeamFeedDecisionDenied (tz_Reason authz) now db in
               (Inr \<lparr>tr_Authorized = False, tr_Decision = TeamFeedDecisionDenied, tr_Reason = tz_Reason authz,
                     tr_Entries = [], tr_NextCursor = [], tr_AuditID = i\<rparr>, db'))
          else
            (case parseTeamFeedCursor (tq_Cursor q) of
               Inl e \<Rightarrow> (Inl e, db)
             | Inr cursor \<Rightarrow>
                 if flt TfList then (Inl (FeedDb TfList), db)
                 else
                   let (entries, next) = listTeamFeedEntries (feed_peer norm) cursor (DefaultClamped (tq_Limit q) 50 100) (fgraph db) in
                   if flt TfAudit then (Inl (FeedDb TfAudit), db)
                   else let (i, db') = insertTeamFeedAudit norm (tz_Actor authz) (tz_Role authz) TeamFeedDecisionAllowed ''team feed read'' now db in
                     (Inr \<lparr>tr_Authorized = True, tr_Decision = TeamFeedDecisionAllowed, tr_Reason = [],
                           tr_Entries = entries, tr_NextCursor = next, tr_AuditID = i\<rparr>, db')))"

definition ListTeamFeedAudit :: "(feed_site \<Rightarrow> bool) \<Rightarrow> string \<Rightarrow> string \<Rightarrow> string \<Rightarrow> string \<Rightarrow> int \<Rightarrow> feed_db
    \<Rightarrow> feed_error + (int \<times> TeamFeedAuditEvent) list" where
  "ListTeamFeedAudit flt ws workspaceID profileID peer limit db =
     (case normalizeTeamFeedAuditQuery ws workspaceID profileID peer of
        Inl e \<Rightarrow> Inl e
      | Inr scope \<Rightarrow>
          if flt TfList then Inl (FeedDb TfList)
          else Inr (take (nat (DefaultClamped limit 100 100)) (order_desc (\<lambda>(i, r). (ta_CreatedAt r, i))
            (filter (\<lambda>(i, r). ta_peer r = feed_peer scope) (arows (faudit db))))))"

section \<open>A client that follows the cursors\<close>


section \<open>Pages of a feed\<close>














lemma Decimal_ne [simp]: "Decimal i \<noteq> []"
  by (simp add: Decimal_def)



section \<open>Properties\<close>


text \<open>
  A read of the team feed returns entries only of the requested scope and only to an administrator
  or to a reader of the same workspace and profile; whenever the call succeeds exactly one audit row is
  appended, with the decision that was returned, and the signals are not touched.
\<close>

theorem feed_authorised_and_audited:
  assumes "TeamFeed flt uq ws now q db = (Inr r, db')"
  shows "\<exists>norm. normalizeTeamFeedQuery ws q = Inr norm \<and> fgraph db' = fgraph db
    \<and> (tr_Authorized r \<longleftrightarrow> trim_space (tq_Role q) = ''admin''
        \<or> (trim_space (tq_ActorProfileID q) = ProfileID norm
           \<and> (trim_space (tq_ActorWorkspaceID q) \<in> {[], WorkspaceID norm})))
    \<and> (tr_Authorized r \<longleftrightarrow> tr_Decision r = TeamFeedDecisionAllowed) \<and> (\<not> tr_Authorized r \<longrightarrow> tr_Entries r = [])
    \<and> (\<forall>e \<in> set (tr_Entries r). peer_of (sr_key (te_Row e)) = feed_peer norm)
    \<and> (\<exists>row. arows (faudit db') = arows (faudit db) @ [(tr_AuditID r, row)] \<and> ta_Decision row = tr_Decision r
        \<and> ta_peer row = feed_peer norm \<and> ta_Actor row = trim_space (tq_Actor q))"
proof -
  from assms obtain norm where n: "normalizeTeamFeedQuery ws q = Inr norm" by (auto simp: TeamFeed_def split: sum.splits)
  have actor: "FeedActor norm = trim_space (tq_Actor q)" using n by (auto simp: normalizeTeamFeedQuery_def Let_def split: if_splits)
  let ?z = "decideTeamFeedAuthorization uq q norm"
  have z: "tz_Allowed ?z \<longleftrightarrow> trim_space (tq_Role q) = ''admin'' \<or> (trim_space (tq_ActorProfileID q) = ProfileID norm
           \<and> (trim_space (tq_ActorWorkspaceID q) \<in> {[], WorkspaceID norm}))"
    by (auto simp: decideTeamFeedAuthorization_def NormalizeActorScope_def SameScope_def Let_def)
  note c = assms [unfolded TeamFeed_def n sum.case Let_def]
  show ?thesis
  proof (cases "tz_Allowed ?z")
    case False
    with c n z actor show ?thesis
      by (auto simp: insertTeamFeedAudit_def ainsert_def Let_def feed_peer_def split: if_splits)
  next
    case True
    have rows: "set (fst (listTeamFeedEntries p cu l g)) \<subseteq> feed_entry ` set (feed_rows p cu g)" for p cu l g
      by (auto simp: listTeamFeedEntries_def Let_def dest!: in_set_takeD)
    have row: "peer_of (sr_key (snd x)) = p" if "x \<in> set (feed_rows p cu g)" for x p cu g
      using that by (auto simp: feed_rows_def)
    have ents: "\<forall>e \<in> set (fst (listTeamFeedEntries (feed_peer norm) cu l g)). peer_of (sr_key (te_Row e)) = feed_peer norm" for cu l g
      using rows [of "feed_peer norm" cu l g] row [of _ "feed_peer norm" cu g] by (auto simp: feed_entry_def)
    from True c obtain cu where "parseTeamFeedCursor (tq_Cursor q) = Inr cu" by (auto split: sum.splits)
    with True c n z actor ents show ?thesis
      by (auto simp: insertTeamFeedAudit_def ainsert_def Let_def case_prod_beta split: if_splits)
  qed
qed


section \<open>Witnesses\<close>

definition demo_feed :: feed_db where
  "demo_feed = \<lparr>fgraph = fold (act_step ''w'') (map (\<lambda>a. EvSignal (\<lambda>_. False) 1 (demo_signal a)) [''a'', ''b'', ''c'']) empty_action_db,
     faudit = aempty\<rparr>"

definition demo_feed_query :: TeamFeedQuery where
  "demo_feed_query = \<lparr>tq_WorkspaceID = [], tq_ProfileID = ''p'', tq_Peer = ''bob'', tq_Actor = ''eve'', tq_ActorWorkspaceID = [],
     tq_ActorProfileID = ''p'', tq_Role = [], tq_Limit = 2, tq_Cursor = []\<rparr>"

definition demo_scope :: FeedScope where
  "demo_scope = \<lparr>WorkspaceID = ''w'', ProfileID = ''p'', Peer = ''bob'', FeedActor = ''eve''\<rparr>"



theorem feed_authorised_and_audited_witness:
  "\<exists>r db'. TeamFeed (\<lambda>_. False) (\<lambda>s. s) ''w'' 5 (demo_feed_query\<lparr>tq_ActorProfileID := ''x''\<rparr>) demo_feed = (Inr r, db')
     \<and> tr_Entries r = [] \<and> length (arows (faudit db')) = 1"
proof -
  let ?q = "demo_feed_query\<lparr>tq_ActorProfileID := ''x''\<rparr>"
  have "is_ok (fst (TeamFeed (\<lambda>_. False) (\<lambda>s. s) ''w'' 5 ?q demo_feed))" by code_simp
  then obtain r db' where t: "TeamFeed (\<lambda>_. False) (\<lambda>s. s) ''w'' 5 ?q demo_feed = (Inr r, db')"
    by (metis is_ok_iff prod.collapse)
  have q: "trim_space (tq_Role ?q) = []" "trim_space (tq_ActorProfileID ?q) = ''x''" "arows (faudit demo_feed) = []" by code_simp+
  have "normalizeTeamFeedQuery ''w'' ?q = Inr demo_scope" by code_simp
  moreover have "ProfileID demo_scope = ''p''" by (simp add: demo_scope_def)
  ultimately show ?thesis using feed_authorised_and_audited [OF t] t q by auto
qed

end
