(* ===== verification/Retention.thy ===== *)
theory Retention
  imports Scope Tables Text "HOL-Library.Sublist"
begin

text \<open>
  Retention (\<open>service/retention_policy.go\<close>): a policy selects conclusions that are too old and, when
  the image directory is over its budget, image references; applying it archives the selected rows and
  writes one audit row for each.  The sizes of files and directories are what the operating system
  answers and are the argument \<open>disk\<close>, one reading per call of \<open>DiskUsage\<close>; \<open>dur\<close> prints a duration.
  The clock is read where the code reads it: once for the candidates, at every update and at every audit
  insert.  The fields that are constant in the code (\<open>Action\<close> is
  always archive, \<open>Mutates\<close>, \<open>VectorCleanup\<close>) and the view of the policy in the preview are left out.
  Times and durations are in nanoseconds, columns hold seconds; \<open>flt\<close> says which statement fails, the
  updates and audit inserts counted by candidate.
\<close>

section \<open>Data\<close>

record conclusion_row =
  co_ID :: int
  co_WorkspaceID :: string
  co_ObserverPeerID :: string
  co_PeerID :: string
  co_SessionKey :: "string option"
  co_Content :: string
  co_Status :: string
  co_CreatedAt :: int
  co_UpdatedAt :: int

record image_row =
  im_ID :: int
  im_WorkspaceID :: string
  im_PeerID :: string
  im_SessionKey :: string
  im_ImageRef :: string
  im_EmbeddingStatus :: string
  im_UpdatedAt :: int

datatype retention_target = TargetConclusion | TargetImage

record RetentionPolicy =
  po_Now :: int
  po_KeepForever :: bool
  po_MaxAge :: int
  po_MaxDBBytes :: int
  po_MaxImageBytes :: int
  po_MaxVectorBytes :: int
  po_PerWorkspaceLimit :: int
  po_ImageDir :: string
  po_VectorDir :: string

record EvictionCandidate =
  ec_StableID :: string
  ec_TargetType :: retention_target
  ec_WorkspaceID :: string
  ec_PeerID :: string
  ec_SessionKey :: string
  ec_CreatedAt :: int
  ec_Bytes :: int
  ec_Reasons :: "string list"
  ec_Preview :: string

record RetentionAuditEvent =
  rt_WorkspaceID :: string
  rt_StableID :: string
  rt_TargetType :: retention_target
  rt_Reason :: string
  rt_AppliedBy :: string
  rt_CreatedAt :: int

record RetentionApplyResult =
  ra_WorkspaceID :: string
  ra_AppliedBy :: string
  ra_Applied :: "EvictionCandidate list"
  ra_ImagesArchived :: int

record retention_db =
  conclusions :: "conclusion_row list"
  images :: "image_row list"
  taudit :: "RetentionAuditEvent atable"

record DiskUsageComponent =
  dc_Path :: string
  dc_Bytes :: int
  dc_LimitBytes :: int
  dc_OverBudget :: bool

record DiskUsageDiagnostics =
  dd_DB :: DiskUsageComponent
  dd_Images :: DiskUsageComponent
  dd_Vectors :: DiskUsageComponent

datatype retention_site = RtConclusions | RtImages | RtArchive nat | RtAudit nat | RtList

datatype retention_error = RtNoActor | RtDisk string | RtSQL retention_site | RtStableID string

text \<open>
  The file system: the path of the open database, the answer of \<open>os.Stat\<close> for a path, and the sizes of
  the files that a walk of the tree at a path visits.
\<close>

datatype stat_answer = StatNotExist | StatError | StatDir | StatFile int

datatype walk_answer = WalkNotExist | WalkError | WalkFiles "int list"

record disk_env =
  databasePath :: string
  osStat :: "string \<Rightarrow> stat_answer"
  walkDir :: "string \<Rightarrow> walk_answer"

text \<open>The service: its workspace and its observing peer.\<close>

record retention_service =
  rs_workspaceID :: string
  rs_observer :: string

section \<open>Disk usage\<close>

definition pathBytes :: "disk_env \<Rightarrow> string \<Rightarrow> retention_error + int" where
  "pathBytes disk path =
     (if Blank path then Inr 0
      else case walkDir disk path of
        WalkNotExist \<Rightarrow> Inr 0
      | WalkError \<Rightarrow> Inl (RtDisk path)
      | WalkFiles sizes \<Rightarrow> Inr (sum_list sizes))"

definition fileBytes :: "disk_env \<Rightarrow> string \<Rightarrow> retention_error + int" where
  "fileBytes disk path =
     (if Blank path then Inr 0
      else case osStat disk path of
        StatNotExist \<Rightarrow> Inr 0
      | StatError \<Rightarrow> Inl (RtDisk path)
      | StatDir \<Rightarrow> pathBytes disk path
      | StatFile n \<Rightarrow> Inr n)"

definition diskComponent :: "string \<Rightarrow> int \<Rightarrow> int \<Rightarrow> DiskUsageComponent" where
  "diskComponent path bytes limit =
     \<lparr>dc_Path = path, dc_Bytes = bytes, dc_LimitBytes = limit, dc_OverBudget = (limit > 0 \<and> bytes > limit)\<rparr>"

definition DiskUsage :: "disk_env \<Rightarrow> RetentionPolicy \<Rightarrow> retention_error + DiskUsageDiagnostics" where
  "DiskUsage disk policy =
     (let dbPath = databasePath disk in
      case fileBytes disk dbPath of
        Inl e \<Rightarrow> Inl e
      | Inr dbBytes \<Rightarrow>
     (case pathBytes disk (po_ImageDir policy) of
        Inl e \<Rightarrow> Inl e
      | Inr imageBytes \<Rightarrow>
     (case pathBytes disk (po_VectorDir policy) of
        Inl e \<Rightarrow> Inl e
      | Inr vectorBytes \<Rightarrow>
          Inr \<lparr>dd_DB = diskComponent dbPath dbBytes (po_MaxDBBytes policy),
               dd_Images = diskComponent (po_ImageDir policy) imageBytes (po_MaxImageBytes policy),
               dd_Vectors = diskComponent (po_VectorDir policy) vectorBytes (po_MaxVectorBytes policy)\<rparr>)))"

section \<open>Candidates\<close>

text \<open>The ellipsis is the three bytes of U+2026; the cut is at a byte, not at a rune.\<close>

definition previewRetentionContent :: "string \<Rightarrow> string" where
  "previewRetentionContent content0 =
     (let content = trim_space content0 in
      if length content \<le> 120 then content
      else take 120 content @ [char_of (226 :: nat), char_of (128 :: nat), char_of (166 :: nat)])"

definition live_conclusion :: "string \<Rightarrow> conclusion_row \<Rightarrow> bool" where
  "live_conclusion ws r \<longleftrightarrow> co_WorkspaceID r = ws \<and> co_Status r \<in> {''processed'', ''active''}"

definition live_image :: "string \<Rightarrow> image_row \<Rightarrow> bool" where
  "live_image ws r \<longleftrightarrow> im_WorkspaceID r = ws \<and> im_EmbeddingStatus r \<noteq> ''archived''"

definition conclusion_candidate :: "string \<Rightarrow> (int \<Rightarrow> string) \<Rightarrow> int \<Rightarrow> conclusion_row \<Rightarrow> EvictionCandidate" where
  "conclusion_candidate ws dur maxAge r =
     \<lparr>ec_StableID = Prefixed ''conclusion:'' (co_ID r), ec_TargetType = TargetConclusion, ec_WorkspaceID = ws,
      ec_PeerID = co_PeerID r, ec_SessionKey = (case co_SessionKey r of None \<Rightarrow> [] | Some s \<Rightarrow> s),
      ec_CreatedAt = co_CreatedAt r, ec_Bytes = int (length (co_Content r)),
      ec_Reasons = [''max_age exceeded: older than '' @ dur maxAge], ec_Preview = previewRetentionContent (co_Content r)\<rparr>"

definition image_candidate :: "string \<Rightarrow> string \<Rightarrow> image_row \<Rightarrow> EvictionCandidate" where
  "image_candidate ws reason r =
     \<lparr>ec_StableID = Prefixed ''image:'' (im_ID r), ec_TargetType = TargetImage, ec_WorkspaceID = ws,
      ec_PeerID = im_PeerID r, ec_SessionKey = im_SessionKey r, ec_CreatedAt = im_UpdatedAt r, ec_Bytes = 0,
      ec_Reasons = [reason], ec_Preview = im_ImageRef r\<rparr>"

text \<open>The rows the first query selects; \<open>now.Add(-MaxAge).Unix()\<close> is the cutoff.\<close>

definition old_conclusions :: "retention_service \<Rightarrow> int \<Rightarrow> int \<Rightarrow> retention_db \<Rightarrow> conclusion_row list" where
  "old_conclusions s now maxAge db =
     order_asc co_CreatedAt (filter (\<lambda>r. live_conclusion (rs_workspaceID s) r \<and> co_ObserverPeerID r = rs_observer s
       \<and> co_CreatedAt r < (now - maxAge) div 1000000000) (conclusions db))"

definition retentionImageCandidates :: "retention_service \<Rightarrow> string \<Rightarrow> retention_db \<Rightarrow> EvictionCandidate list" where
  "retentionImageCandidates s reason db =
     map (image_candidate (rs_workspaceID s) reason)
       (order_asc im_UpdatedAt (filter (live_image (rs_workspaceID s)) (images db)))"

definition retentionCandidates :: "(retention_site \<Rightarrow> bool) \<Rightarrow> (int \<Rightarrow> string) \<Rightarrow> disk_env \<Rightarrow> int \<Rightarrow> retention_service \<Rightarrow> RetentionPolicy
    \<Rightarrow> retention_db \<Rightarrow> retention_error + EvictionCandidate list" where
  "retentionCandidates flt dur disk clock s policy db =
     (if po_KeepForever policy then Inr []
      else
        let now = (if po_Now policy = zero_time then clock else po_Now policy) in
        if po_MaxAge policy > 0 \<and> flt RtConclusions then Inl (RtSQL RtConclusions)
        else
          let aged = (if po_MaxAge policy > 0
                      then map (conclusion_candidate (rs_workspaceID s) dur (po_MaxAge policy)) (old_conclusions s now (po_MaxAge policy) db)
                      else []);
              limited = (\<lambda>cs. if po_PerWorkspaceLimit policy > 0 \<and> int (length cs) > po_PerWorkspaceLimit policy
                              then take (nat (po_PerWorkspaceLimit policy)) cs else cs) in
          if po_MaxImageBytes policy > 0 then
            (case DiskUsage disk policy of
               Inl e \<Rightarrow> Inl e
             | Inr usage \<Rightarrow>
                 if \<not> dc_OverBudget (dd_Images usage) then Inr (limited aged)
                 else if flt RtImages then Inl (RtSQL RtImages)
                 else Inr (limited (aged @ retentionImageCandidates s ''image_dir over max_image_bytes'' db)))
          else Inr (limited aged))"

definition PreviewRetention :: "(retention_site \<Rightarrow> bool) \<Rightarrow> (int \<Rightarrow> string) \<Rightarrow> (nat \<Rightarrow> disk_env) \<Rightarrow> int \<Rightarrow> retention_service \<Rightarrow> RetentionPolicy
    \<Rightarrow> retention_db \<Rightarrow> retention_error + (DiskUsageDiagnostics \<times> EvictionCandidate list)" where
  "PreviewRetention flt dur disk clock s policy db =
     (case DiskUsage (disk 0) policy of
        Inl e \<Rightarrow> Inl e
      | Inr usage \<Rightarrow>
     (case retentionCandidates flt dur (disk 1) clock s policy db of
        Inl e \<Rightarrow> Inl e | Inr candidates \<Rightarrow> Inr (usage, candidates)))"

section \<open>Applying a policy\<close>

definition archive_conclusion :: "string \<Rightarrow> int \<Rightarrow> int \<Rightarrow> conclusion_row \<Rightarrow> conclusion_row" where
  "archive_conclusion ws clock i r =
     (if co_ID r = i \<and> live_conclusion ws r then r\<lparr>co_Status := ''archived'', co_UpdatedAt := clock div 1000000000\<rparr> else r)"

definition archive_image :: "string \<Rightarrow> int \<Rightarrow> int \<Rightarrow> image_row \<Rightarrow> image_row" where
  "archive_image ws clock i r =
     (if im_ID r = i \<and> live_image ws r then r\<lparr>im_EmbeddingStatus := ''archived'', im_UpdatedAt := clock div 1000000000\<rparr> else r)"

definition retentionTypedID :: "string \<Rightarrow> string \<Rightarrow> retention_error + int" where
  "retentionTypedID stableID pre =
     (case ParsePrefixed stableID pre of Inl _ \<Rightarrow> Inl (RtStableID stableID) | Inr i \<Rightarrow> Inr i)"

definition insertRetentionAudit :: "string \<Rightarrow> int \<Rightarrow> string \<Rightarrow> EvictionCandidate \<Rightarrow> retention_db \<Rightarrow> retention_db" where
  "insertRetentionAudit ws clock appliedBy c db =
     db\<lparr>taudit := snd (ainsert \<lparr>rt_WorkspaceID = ws, rt_StableID = ec_StableID c, rt_TargetType = ec_TargetType c,
          rt_Reason = join_with ''; '' (ec_Reasons c), rt_AppliedBy = trim_space appliedBy,
          rt_CreatedAt = clock div 1000000000\<rparr> (taudit db))\<rparr>"

text \<open>
  The update of one candidate: its kind decides the table; \<open>None\<close> is an update that touched no row,
  which the loop skips.
\<close>

definition archive_candidate :: "(retention_site \<Rightarrow> bool) \<Rightarrow> string \<Rightarrow> int \<Rightarrow> nat \<Rightarrow> EvictionCandidate \<Rightarrow> retention_db
    \<Rightarrow> retention_error + retention_db option" where
  "archive_candidate flt ws clock k c db =
     (case ec_TargetType c of
        TargetConclusion \<Rightarrow>
          (case retentionTypedID (ec_StableID c) ''conclusion:'' of
             Inl e \<Rightarrow> Inl e
           | Inr i \<Rightarrow>
               if flt (RtArchive k) then Inl (RtSQL (RtArchive k))
               else if \<not> list_ex (\<lambda>r. co_ID r = i \<and> live_conclusion ws r) (conclusions db) then Inr None
               else Inr (Some (db\<lparr>conclusions := map (archive_conclusion ws clock i) (conclusions db)\<rparr>)))
      | TargetImage \<Rightarrow>
          (case retentionTypedID (ec_StableID c) ''image:'' of
             Inl e \<Rightarrow> Inl e
           | Inr i \<Rightarrow>
               if flt (RtArchive k) then Inl (RtSQL (RtArchive k))
               else if \<not> list_ex (\<lambda>r. im_ID r = i \<and> live_image ws r) (images db) then Inr None
               else Inr (Some (db\<lparr>images := map (archive_image ws clock i) (images db)\<rparr>))))"

text \<open>\<open>clock\<close> gives the reading of the clock at a statement.\<close>

fun applyCandidates :: "(retention_site \<Rightarrow> bool) \<Rightarrow> string \<Rightarrow> (retention_site \<Rightarrow> int) \<Rightarrow> string \<Rightarrow> nat \<Rightarrow> EvictionCandidate list \<Rightarrow> RetentionApplyResult
    \<Rightarrow> retention_db \<Rightarrow> (retention_error + RetentionApplyResult) \<times> retention_db" where
  "applyCandidates flt ws clock appliedBy k [] res db = (Inr res, db)"
| "applyCandidates flt ws clock appliedBy k (c # cs) res db =
     (case archive_candidate flt ws (clock (RtArchive k)) k c db of
        Inl e \<Rightarrow> (Inl e, db)
      | Inr None \<Rightarrow> applyCandidates flt ws clock appliedBy (Suc k) cs res db
      | Inr (Some db1) \<Rightarrow>
          if flt (RtAudit k) then (Inl (RtSQL (RtAudit k)), db1)
          else applyCandidates flt ws clock appliedBy (Suc k) cs
            (res\<lparr>ra_Applied := ra_Applied res @ [c],
                 ra_ImagesArchived := ra_ImagesArchived res + (if ec_TargetType c = TargetImage then 1 else 0)\<rparr>)
            (insertRetentionAudit ws (clock (RtAudit k)) appliedBy c db1))"

definition ApplyRetention :: "(retention_site \<Rightarrow> bool) \<Rightarrow> (int \<Rightarrow> string) \<Rightarrow> (nat \<Rightarrow> disk_env) \<Rightarrow> (retention_site \<Rightarrow> int) \<Rightarrow> retention_service \<Rightarrow> RetentionPolicy
    \<Rightarrow> string \<Rightarrow> retention_db \<Rightarrow> (retention_error + RetentionApplyResult) \<times> retention_db" where
  "ApplyRetention flt dur disk clock s policy appliedBy db =
     (if trim_space appliedBy = [] then (Inl RtNoActor, db)
      else case PreviewRetention flt dur disk (clock RtConclusions) s policy db of
        Inl e \<Rightarrow> (Inl e, db)
      | Inr (usage, candidates) \<Rightarrow>
          applyCandidates flt (rs_workspaceID s) clock appliedBy 0 candidates
            \<lparr>ra_WorkspaceID = rs_workspaceID s, ra_AppliedBy = trim_space appliedBy, ra_Applied = [], ra_ImagesArchived = 0\<rparr> db)"

definition RetentionAudit :: "(retention_site \<Rightarrow> bool) \<Rightarrow> retention_service \<Rightarrow> string \<Rightarrow> string \<Rightarrow> int \<Rightarrow> retention_db
    \<Rightarrow> retention_error + (int \<times> RetentionAuditEvent) list" where
  "RetentionAudit flt s workspaceID stableID limit db =
     (let ws = scopekey_Workspace (rs_workspaceID s) workspaceID True; sid = trim_space stableID in
      if flt RtList then Inl (RtSQL RtList)
      else Inr (take (nat (LimitDefault limit 50)) (order_desc (\<lambda>(i, r). (rt_CreatedAt r, i))
        (filter (\<lambda>(i, r). rt_WorkspaceID r = ws \<and> (sid \<noteq> [] \<longrightarrow> rt_StableID r = sid)) (arows (taudit db))))))"

section \<open>What the loop does\<close>

definition target_prefix :: "retention_target \<Rightarrow> string" where
  "target_prefix t = (case t of TargetConclusion \<Rightarrow> ''conclusion:'' | TargetImage \<Rightarrow> ''image:'')"

text \<open>The row a candidate refers to.\<close>

definition cand_ref :: "EvictionCandidate \<Rightarrow> (retention_target \<times> int) option" where
  "cand_ref c = (case ParsePrefixed (ec_StableID c) (target_prefix (ec_TargetType c)) of
     Inl _ \<Rightarrow> None | Inr i \<Rightarrow> Some (ec_TargetType c, i))"

text \<open>The live rows of a workspace.\<close>

definition live_refs :: "string \<Rightarrow> retention_db \<Rightarrow> (retention_target \<times> int) set" where
  "live_refs ws db = Pair TargetConclusion ` co_ID ` {r \<in> set (conclusions db). live_conclusion ws r}
     \<union> Pair TargetImage ` im_ID ` {r \<in> set (images db). live_image ws r}"

definition archive_ref :: "string \<Rightarrow> int \<Rightarrow> retention_target \<times> int \<Rightarrow> retention_db \<Rightarrow> retention_db" where
  "archive_ref ws clock x db = (case x of
     (TargetConclusion, i) \<Rightarrow> db\<lparr>conclusions := map (archive_conclusion ws clock i) (conclusions db)\<rparr>
   | (TargetImage, i) \<Rightarrow> db\<lparr>images := map (archive_image ws clock i) (images db)\<rparr>)"

lemma archive_keeps [simp]:
  "co_ID (archive_conclusion ws clock i r) = co_ID r" "co_WorkspaceID (archive_conclusion ws clock i r) = co_WorkspaceID r"
  "im_ID (archive_image ws clock i a) = im_ID a" "im_WorkspaceID (archive_image ws clock i a) = im_WorkspaceID a"
  "live_conclusion ws (archive_conclusion ws clock i r) \<longleftrightarrow> live_conclusion ws r \<and> co_ID r \<noteq> i"
  "live_image ws (archive_image ws clock i a) \<longleftrightarrow> live_image ws a \<and> im_ID a \<noteq> i"
  by (auto simp: archive_conclusion_def archive_image_def live_conclusion_def live_image_def)

lemma archive_ref_taudit [simp]: "taudit (archive_ref ws clock x db) = taudit db"
  by (cases x; cases "fst x") (auto simp: archive_ref_def split: prod.split retention_target.split)

lemma key_image: "(\<And>x. key (f x) = key x) \<Longrightarrow> key ` {r \<in> f ` A. P r} = key ` {r \<in> A. P (f r)}"
  by (auto simp: image_iff) metis+

lemma live_refs_archive: "live_refs ws (archive_ref ws clock x db) = live_refs ws db - {x}"
proof -
  have c: "co_ID ` {r \<in> archive_conclusion ws clock i ` A. live_conclusion ws r} = co_ID ` {r \<in> A. live_conclusion ws r} - {i}" for i A
    by (subst key_image) auto
  have m: "im_ID ` {r \<in> archive_image ws clock i ` A. live_image ws r} = im_ID ` {r \<in> A. live_image ws r} - {i}" for i A
    by (subst key_image) auto
  obtain t i where x: "x = (t, i)" by fastforce
  show ?thesis unfolding x by (cases t) (auto simp: archive_ref_def live_refs_def c m simp del: image_iff)
qed

lemma live_refs_audit [simp]: "live_refs ws (insertRetentionAudit ws' clock who c db) = live_refs ws db"
  by (simp add: live_refs_def insertRetentionAudit_def)

text \<open>One candidate: an error or a skip changes nothing, a success archives exactly the live row it names.\<close>

lemma archive_candidate_cases:
  "(\<exists>e. archive_candidate flt ws clock k c db = Inl e)
   \<or> (archive_candidate flt ws clock k c db = Inr None \<and> (\<forall>x. cand_ref c = Some x \<longrightarrow> x \<notin> live_refs ws db))
   \<or> (\<exists>x. cand_ref c = Some x \<and> x \<in> live_refs ws db \<and> archive_candidate flt ws clock k c db = Inr (Some (archive_ref ws clock x db)))"
  by (cases "ec_TargetType c"; cases "ParsePrefixed (ec_StableID c) (target_prefix (ec_TargetType c))")
    (auto simp: archive_candidate_def cand_ref_def target_prefix_def retentionTypedID_def archive_ref_def live_refs_def
      list_ex_iff image_iff)

lemma archive_candidate_ok:
  "cand_ref c = Some x \<Longrightarrow> x \<in> live_refs ws db \<Longrightarrow> (\<And>s. \<not> flt s) \<Longrightarrow>
   archive_candidate flt ws clock k c db = Inr (Some (archive_ref ws clock x db))"
  by (cases "ec_TargetType c"; cases "ParsePrefixed (ec_StableID c) (target_prefix (ec_TargetType c))")
    (auto simp: archive_candidate_def cand_ref_def target_prefix_def retentionTypedID_def archive_ref_def live_refs_def
      list_ex_iff image_iff)

text \<open>
  The tables after some rows were archived, written out: \<open>X\<close> gives the time at which a row was archived.  Only a
  live row of the workspace is; its status and its time of update change, every other column, its
  content included, and every other row stay as they are.
\<close>

definition archived_conclusion :: "string \<Rightarrow> (retention_target \<times> int \<Rightarrow> int option) \<Rightarrow> conclusion_row \<Rightarrow> conclusion_row" where
  "archived_conclusion ws X r =
     (case X (TargetConclusion, co_ID r) of
        None \<Rightarrow> r
      | Some t \<Rightarrow>
          if co_WorkspaceID r = ws \<and> co_Status r \<in> {''processed'', ''active''}
          then \<lparr>co_ID = co_ID r, co_WorkspaceID = co_WorkspaceID r, co_ObserverPeerID = co_ObserverPeerID r, co_PeerID = co_PeerID r,
                co_SessionKey = co_SessionKey r, co_Content = co_Content r, co_Status = ''archived'',
                co_CreatedAt = co_CreatedAt r, co_UpdatedAt = t div 1000000000\<rparr>
          else r)"

definition archived_image :: "string \<Rightarrow> (retention_target \<times> int \<Rightarrow> int option) \<Rightarrow> image_row \<Rightarrow> image_row" where
  "archived_image ws X r =
     (case X (TargetImage, im_ID r) of
        None \<Rightarrow> r
      | Some t \<Rightarrow>
          if im_WorkspaceID r = ws \<and> im_EmbeddingStatus r \<noteq> ''archived''
          then \<lparr>im_ID = im_ID r, im_WorkspaceID = im_WorkspaceID r, im_PeerID = im_PeerID r, im_SessionKey = im_SessionKey r,
                im_ImageRef = im_ImageRef r, im_EmbeddingStatus = ''archived'', im_UpdatedAt = t div 1000000000\<rparr>
          else r)"

definition archived_rows :: "string \<Rightarrow> (retention_target \<times> int \<Rightarrow> int option) \<Rightarrow> retention_db \<Rightarrow> retention_db" where
  "archived_rows ws X db = db\<lparr>conclusions := map (archived_conclusion ws X) (conclusions db),
     images := map (archived_image ws X) (images db)\<rparr>"

text \<open>The audit row of a candidate, and the times of the candidates at their positions.\<close>

definition audit_row :: "string \<Rightarrow> string \<Rightarrow> int \<Rightarrow> EvictionCandidate \<Rightarrow> RetentionAuditEvent" where
  "audit_row ws who t c =
     \<lparr>rt_WorkspaceID = ws, rt_StableID = ec_StableID c, rt_TargetType = ec_TargetType c,
      rt_Reason = join_with ''; '' (ec_Reasons c), rt_AppliedBy = trim_space who, rt_CreatedAt = t div 1000000000\<rparr>"

definition archive_times :: "(retention_site \<Rightarrow> int) \<Rightarrow> (nat \<times> EvictionCandidate) list \<Rightarrow> retention_target \<times> int \<Rightarrow> int option" where
  "archive_times clock kcs = map_of (map (\<lambda>(k, c). (the (cand_ref c), clock (RtArchive k))) kcs)"

lemma archived_rows_empty [simp]: "archived_rows ws Map.empty db = db"
  by (simp add: archived_rows_def map_idI archived_conclusion_def archived_image_def)

lemma archived_rows_taudit: "archived_rows ws X (db\<lparr>taudit := t\<rparr>) = (archived_rows ws X db)\<lparr>taudit := t\<rparr>"
  by (simp add: archived_rows_def)

lemma taudit_archived_rows [simp]: "taudit (archived_rows ws X db) = taudit db"
  by (simp add: archived_rows_def)

text \<open>Archiving rows one after the other is archiving them all; a row that was archived is not archived again.\<close>

lemma archived_conclusion_step:
  "archived_conclusion ws X (archive_conclusion ws t i r) = archived_conclusion ws (X((TargetConclusion, i) \<mapsto> t)) r"
proof (cases "co_ID r = i \<and> live_conclusion ws r")
  case True
  then show ?thesis
    by (cases r) (simp add: archived_conclusion_def archive_conclusion_def live_conclusion_def split: option.split)
next
  case False
  then have "archive_conclusion ws t i r = r" by (simp only: archive_conclusion_def if_False)
  with False show ?thesis by (auto simp: archived_conclusion_def live_conclusion_def split: option.split)
qed

lemma archived_image_step:
  "archived_image ws X (archive_image ws t i r) = archived_image ws (X((TargetImage, i) \<mapsto> t)) r"
proof (cases "im_ID r = i \<and> live_image ws r")
  case True
  then show ?thesis
    by (cases r) (simp add: archived_image_def archive_image_def live_image_def split: option.split)
next
  case False
  then have "archive_image ws t i r = r" by (simp only: archive_image_def if_False)
  with False show ?thesis by (auto simp: archived_image_def live_image_def split: option.split)
qed

lemma archived_other_kind:
  "archived_conclusion ws (X((TargetImage, i) \<mapsto> t)) = archived_conclusion ws X"
  "archived_image ws (X((TargetConclusion, i) \<mapsto> t)) = archived_image ws X"
  by (simp_all add: fun_eq_iff archived_conclusion_def archived_image_def)

lemma archived_rows_step: "archived_rows ws X (archive_ref ws t x db) = archived_rows ws (X(x \<mapsto> t)) db"
  by (cases x; cases "fst x")
    (simp_all add: archive_ref_def archived_rows_def comp_def archived_conclusion_step archived_image_step archived_other_kind)

lemma insert_audit:
  obtains i where "insertRetentionAudit ws t who c db = db\<lparr>taudit := taudit (insertRetentionAudit ws t who c db)\<rparr>"
    "arows (taudit (insertRetentionAudit ws t who c db)) = arows (taudit db) @ [(i, audit_row ws who t c)]"
proof
  show "insertRetentionAudit ws t who c db = db\<lparr>taudit := taudit (insertRetentionAudit ws t who c db)\<rparr>"
    by (simp add: insertRetentionAudit_def)
  show "arows (taudit (insertRetentionAudit ws t who c db)) = arows (taudit db) @ [(aseq (taudit db) + 1, audit_row ws who t c)]"
    by (simp add: insertRetentionAudit_def audit_row_def ainsert_def Let_def)
qed

text \<open>
  What an application has done: \<open>archived\<close> are the candidates with their positions whose rows were archived, in
  order, \<open>audited\<close> those whose audit row was written.
\<close>

definition applied :: "string \<Rightarrow> (retention_site \<Rightarrow> int) \<Rightarrow> string \<Rightarrow> (nat \<times> EvictionCandidate) list \<Rightarrow> (nat \<times> EvictionCandidate) list
    \<Rightarrow> retention_db \<Rightarrow> retention_db \<Rightarrow> bool" where
  "applied ws clock who archived audited db db' \<longleftrightarrow>
     (\<exists>t rs. db' = (archived_rows ws (archive_times clock archived) db)\<lparr>taudit := t\<rparr> \<and> arows t = arows (taudit db) @ rs
        \<and> map snd rs = map (\<lambda>(k, c). audit_row ws who (clock (RtAudit k)) c) audited)
     \<and> list_all (\<lambda>(k, c). \<exists>x. cand_ref c = Some x \<and> x \<in> live_refs ws db) archived
     \<and> distinct (map (\<lambda>(k, c). cand_ref c) archived)"

lemma applied_none: "applied ws clock who [] [] db db"
  unfolding applied_def by (intro conjI exI [of _ "taudit db"] exI [of _ "[]"]) (simp_all add: archive_times_def)

lemma archive_times_Cons: "cand_ref c = Some x \<Longrightarrow> archive_times clock ((k, c) # kcs) = (archive_times clock kcs)(x \<mapsto> clock (RtArchive k))"
  by (simp add: archive_times_def)

lemma applied_unaudited:
  assumes "cand_ref c = Some x" "x \<in> live_refs ws db"
  shows "applied ws clock who [(k, c)] [] db (archive_ref ws (clock (RtArchive k)) x db)"
proof -
  have "archive_ref ws (clock (RtArchive k)) x db = archived_rows ws (archive_times clock [(k, c)]) db"
    using archived_rows_step [of ws Map.empty "clock (RtArchive k)" x db] archive_times_Cons [OF assms(1), of clock k "[]"]
    by (simp add: archive_times_def)
  then have "archive_ref ws (clock (RtArchive k)) x db = (archived_rows ws (archive_times clock [(k, c)]) db)\<lparr>taudit := taudit db\<rparr>"
    using archive_ref_taudit [of ws "clock (RtArchive k)" x db] by simp
  with assms show ?thesis unfolding applied_def
    by (intro conjI exI [of _ "taudit db"] exI [of _ "[]"]) (simp_all del: split_paired_Ex)
qed

lemma applied_step:
  assumes "applied ws clock who archived audited (insertRetentionAudit ws (clock (RtAudit k)) who c (archive_ref ws (clock (RtArchive k)) x db)) db'"
    and x: "cand_ref c = Some x" "x \<in> live_refs ws db"
  shows "applied ws clock who ((k, c) # archived) ((k, c) # audited) db db'"
proof -
  let ?d = "archive_ref ws (clock (RtArchive k)) x db"
  let ?a = "insertRetentionAudit ws (clock (RtAudit k)) who c ?d"
  obtain i where a: "?a = ?d\<lparr>taudit := taudit ?a\<rparr>" "arows (taudit ?a) = arows (taudit ?d) @ [(i, audit_row ws who (clock (RtAudit k)) c)]"
    by (rule insert_audit)
  from assms(1) obtain t rs where t: "db' = (archived_rows ws (archive_times clock archived) ?a)\<lparr>taudit := t\<rparr>"
    "arows t = arows (taudit ?a) @ rs" "map snd rs = map (\<lambda>(k, c). audit_row ws who (clock (RtAudit k)) c) audited"
    "list_all (\<lambda>(k, c). \<exists>y. cand_ref c = Some y \<and> y \<in> live_refs ws db - {x}) archived"
    "distinct (map (\<lambda>(k, c). cand_ref c) archived)"
    unfolding applied_def live_refs_audit live_refs_archive by (elim exE conjE)
  have "archived_rows ws (archive_times clock archived) ?a
      = (archived_rows ws (archive_times clock ((k, c) # archived)) db)\<lparr>taudit := taudit ?a\<rparr>"
    by (subst a(1), unfold archived_rows_taudit archived_rows_step archive_times_Cons [OF x(1)], rule refl)
  with t(1) have "db' = (archived_rows ws (archive_times clock ((k, c) # archived)) db)\<lparr>taudit := t\<rparr>" by simp
  moreover have "arows t = arows (taudit db) @ (i, audit_row ws who (clock (RtAudit k)) c) # rs" using t(2) a(2) by simp
  moreover have "list_all (\<lambda>(k, c). \<exists>y. cand_ref c = Some y \<and> y \<in> live_refs ws db) ((k, c) # archived)"
    using t(4) x by (auto simp: list_all_iff simp del: split_paired_Ex)
  moreover have "distinct (map (\<lambda>(k, c). cand_ref c) ((k, c) # archived))" using t(4,5) x(1) by (auto simp: list_all_iff)
  ultimately show ?thesis using t(3) unfolding applied_def
    by (intro conjI exI [of _ t] exI [of _ "(i, audit_row ws who (clock (RtAudit k)) c) # rs"]) simp_all
qed

text \<open>The loop, with any faults.\<close>

lemma applyCandidates_applied:
  "case applyCandidates flt ws clock who k cs res db of (out, db') \<Rightarrow>
     \<exists>archived audited. applied ws clock who archived audited db db' \<and> subseq archived (enumerate k cs)
       \<and> (case out of
            Inr r \<Rightarrow> audited = archived \<and> ra_Applied r = ra_Applied res @ map snd archived
          | Inl _ \<Rightarrow> archived = audited \<or> (\<exists>kc. archived = audited @ [kc]))"
proof (induction cs arbitrary: k res db)
  case Nil
  show ?case using applied_none by (auto intro!: exI [of _ "[]"])
next
  case (Cons c cs)
  let ?t = "clock (RtArchive k)"
  from archive_candidate_cases [of flt ws ?t k c db]
  consider e where "archive_candidate flt ws ?t k c db = Inl e" | "archive_candidate flt ws ?t k c db = Inr None"
    | x where "cand_ref c = Some x" "x \<in> live_refs ws db" "archive_candidate flt ws ?t k c db = Inr (Some (archive_ref ws ?t x db))"
    by blast
  then show ?case
  proof cases
    case 1
    then show ?thesis using applied_none by (auto intro!: exI [of _ "[]"])
  next
    case 2
    from Cons.IH [where k = "Suc k" and res = res and db = db] 2 show ?thesis by (fastforce intro: list_emb_Cons)
  next
    case (3 x)
    show ?thesis
    proof (cases "flt (RtAudit k)")
      case True
      with 3 applied_unaudited [OF 3(1,2), of clock who k] show ?thesis
        by simp (intro exI conjI, assumption, simp_all)
    next
      case False
      let ?d = "insertRetentionAudit ws (clock (RtAudit k)) who c (archive_ref ws ?t x db)"
      let ?r = "res\<lparr>ra_Applied := ra_Applied res @ [c], ra_ImagesArchived := ra_ImagesArchived res + (if ec_TargetType c = TargetImage then 1 else 0)\<rparr>"
      obtain out db' where o: "applyCandidates flt ws clock who (Suc k) cs ?r ?d = (out, db')" by fastforce
      from Cons.IH [where k = "Suc k" and res = ?r and db = ?d] o obtain archived audited where
        ih: "applied ws clock who archived audited ?d db'" "subseq archived (enumerate (Suc k) cs)"
          "case out of Inr r \<Rightarrow> audited = archived \<and> ra_Applied r = ra_Applied ?r @ map snd archived
            | Inl _ \<Rightarrow> archived = audited \<or> (\<exists>kc. archived = audited @ [kc])" by auto
      have "applyCandidates flt ws clock who k (c # cs) res db = (out, db')" using 3(3) False o by simp
      moreover have "applied ws clock who ((k, c) # archived) ((k, c) # audited) db db'" by (rule applied_step [OF ih(1) 3(1,2)])
      moreover have "subseq ((k, c) # archived) (enumerate k (c # cs))" using ih(2) by simp
      moreover have "case out of Inr r \<Rightarrow> (k, c) # audited = (k, c) # archived \<and> ra_Applied r = ra_Applied res @ map snd ((k, c) # archived)
            | Inl _ \<Rightarrow> (k, c) # archived = (k, c) # audited \<or> (\<exists>kc. (k, c) # archived = ((k, c) # audited) @ [kc])"
        using ih(3) by (auto split: sum.splits)
      ultimately show ?thesis by (simp only: prod.case) blast
    qed
  qed
qed

lemma refs_remain:
  assumes "distinct (map cand_ref (c # cs))" "cand_ref ` set (c # cs) \<subseteq> Some ` live_refs ws db" "cand_ref c = Some x"
  shows "cand_ref ` set cs \<subseteq> Some ` live_refs ws (insertRetentionAudit ws t' who c (archive_ref ws t x db))"
proof
  fix z assume z: "z \<in> cand_ref ` set cs"
  with assms(2) obtain y where y: "z = Some y" "y \<in> live_refs ws db" by auto
  moreover have "y \<noteq> x" using assms(1,3) y(1) z by auto
  ultimately show "z \<in> Some ` live_refs ws (insertRetentionAudit ws t' who c (archive_ref ws t x db))"
    by (simp add: live_refs_archive)
qed

text \<open>Without faults every candidate that names a live row of its own is archived and audited.\<close>

lemma applyCandidates_all:
  assumes "\<And>x. \<not> flt x" "distinct (map cand_ref cs)" "cand_ref ` set cs \<subseteq> Some ` live_refs ws db"
  shows "\<exists>db'. applyCandidates flt ws clock who k cs res db =
    (Inr (res\<lparr>ra_Applied := ra_Applied res @ cs,
             ra_ImagesArchived := ra_ImagesArchived res + int (length (filter (\<lambda>c. ec_TargetType c = TargetImage) cs))\<rparr>), db')
    \<and> applied ws clock who (enumerate k cs) (enumerate k cs) db db'"
  using assms(2,3)
proof (induction cs arbitrary: k res db)
  case Nil
  then show ?case using applied_none by simp
next
  case (Cons c cs)
  from Cons.prems obtain x where x: "cand_ref c = Some x" "x \<in> live_refs ws db" by auto
  let ?d = "insertRetentionAudit ws (clock (RtAudit k)) who c (archive_ref ws (clock (RtArchive k)) x db)"
  have a: "archive_candidate flt ws (clock (RtArchive k)) k c db = Inr (Some (archive_ref ws (clock (RtArchive k)) x db))"
    by (rule archive_candidate_ok [OF x assms(1)])
  have live: "cand_ref ` set cs \<subseteq> Some ` live_refs ws ?d" by (rule refs_remain [OF Cons.prems x(1)])
  from Cons.IH [OF _ live, where k = "Suc k" and res = "res\<lparr>ra_Applied := ra_Applied res @ [c],
      ra_ImagesArchived := ra_ImagesArchived res + (if ec_TargetType c = TargetImage then 1 else 0)\<rparr>"] Cons.prems(1)
  obtain db' where db': "applyCandidates flt ws clock who (Suc k) cs (res\<lparr>ra_Applied := ra_Applied res @ [c],
      ra_ImagesArchived := ra_ImagesArchived res + (if ec_TargetType c = TargetImage then 1 else 0)\<rparr>) ?d =
     (Inr (res\<lparr>ra_Applied := ra_Applied res @ c # cs,
             ra_ImagesArchived := ra_ImagesArchived res + int (length (filter (\<lambda>c. ec_TargetType c = TargetImage) (c # cs)))\<rparr>), db')"
    "applied ws clock who (enumerate (Suc k) cs) (enumerate (Suc k) cs) ?d db'"
    by (auto simp: add.assoc split: if_splits)
  from applied_step [OF db'(2) x] db'(1) a assms(1) [of "RtAudit k"] show ?case by (auto split: if_splits)
qed

text \<open>Row ids are unique and in the range of the column.\<close>

definition retention_inv :: "retention_db \<Rightarrow> bool" where
  "retention_inv db \<longleftrightarrow> unique_keys co_ID (conclusions db) \<and> unique_keys im_ID (images db)
     \<and> list_all (\<lambda>r. in_int64 (co_ID r)) (conclusions db) \<and> list_all (\<lambda>r. in_int64 (im_ID r)) (images db)"

lemma parse_prefixed: "in_int64 i \<Longrightarrow> ParsePrefixed (Prefixed p i) p = Inr i"
  by (simp add: ParsePrefixed_def Prefixed_def has_prefix_def ParseDecimal_def trim_Decimal ParseInt_Decimal)

lemma conclusion_candidate_ref: "in_int64 (co_ID r) \<Longrightarrow> cand_ref (conclusion_candidate ws dur m r) = Some (TargetConclusion, co_ID r)"
  by (simp add: cand_ref_def conclusion_candidate_def target_prefix_def parse_prefixed)

lemma image_candidate_ref: "in_int64 (im_ID r) \<Longrightarrow> cand_ref (image_candidate ws x r) = Some (TargetImage, im_ID r)"
  by (simp add: cand_ref_def image_candidate_def target_prefix_def parse_prefixed)

lemma distinct_order_asc: "distinct (map f xs) \<Longrightarrow> distinct (map f (order_asc k xs))"
  by (simp add: order_asc_def distinct_map)

lemma distinct_map_keys: "distinct (map g xs) \<Longrightarrow> (\<And>x. x \<in> set xs \<Longrightarrow> f x = h (g x)) \<Longrightarrow> inj h \<Longrightarrow> distinct (map f xs)"
  by (induction xs) (auto simp: inj_eq image_iff)


lemma candidate_refs_distinct:
  assumes "retention_inv db" "conc = map (conclusion_candidate ws dur m) (order_asc k (filter P (conclusions db)))"
    and "imgs = map (image_candidate ws x) (order_asc k' (filter Q (images db)))"
  shows "map cand_ref conc = map (\<lambda>r. Some (TargetConclusion, co_ID r)) (order_asc k (filter P (conclusions db)))"
    and "map cand_ref imgs = map (\<lambda>r. Some (TargetImage, im_ID r)) (order_asc k' (filter Q (images db)))"
    and "distinct (map cand_ref (conc @ imgs))"
proof -
  let ?c = "order_asc k (filter P (conclusions db))" and ?i = "order_asc k' (filter Q (images db))"
  have "map cand_ref conc = map (\<lambda>r. Some (TargetConclusion, co_ID r)) ?c"
    using assms(1) unfolding assms(2) by (auto simp: conclusion_candidate_ref retention_inv_def list_all_iff)
  moreover have "map cand_ref imgs = map (\<lambda>r. Some (TargetImage, im_ID r)) ?i"
    using assms(1) unfolding assms(3) by (auto simp: image_candidate_ref retention_inv_def list_all_iff)
  moreover have "distinct (map co_ID ?c)" "distinct (map im_ID ?i)"
    using assms(1) by (auto simp: retention_inv_def unique_keys_def intro!: distinct_order_asc distinct_map_filter)
  then have "distinct (map (\<lambda>r. Some (TargetConclusion, co_ID r)) ?c)" "distinct (map (\<lambda>r. Some (TargetImage, im_ID r)) ?i)"
    by (auto simp: distinct_map inj_on_def)
  ultimately show "map cand_ref conc = map (\<lambda>r. Some (TargetConclusion, co_ID r)) ?c"
    "map cand_ref imgs = map (\<lambda>r. Some (TargetImage, im_ID r)) ?i" "distinct (map cand_ref (conc @ imgs))"
    by (auto simp del: map_map)
qed

lemma retentionCandidates_full:
  assumes "retentionCandidates flt dur disk clock s policy db = Inr cs"
    and "now = (if po_Now policy = zero_time then clock else po_Now policy)"
    and "conc = map (conclusion_candidate (rs_workspaceID s) dur (po_MaxAge policy)) (old_conclusions s now (po_MaxAge policy) db)"
    and "imgs = retentionImageCandidates s ''image_dir over max_image_bytes'' db"
  shows "\<exists>full. full \<in> {[], conc, imgs, conc @ imgs} \<and> (cs = full \<or> cs = take (nat (po_PerWorkspaceLimit policy)) full)"
proof -
  note r = assms(1) [unfolded retentionCandidates_def Let_def, folded assms(2), folded assms(3,4)]
  show ?thesis
    by (rule exI [of _ "if po_KeepForever policy then [] else (if po_MaxAge policy > 0 then conc else []) @
        (if po_MaxImageBytes policy > 0 \<and> (case DiskUsage disk policy of Inl _ \<Rightarrow> False | Inr u \<Rightarrow> dc_OverBudget (dd_Images u)) then imgs else [])"])
      (use r in \<open>simp split: if_splits sum.splits\<close>)
qed

lemma preview_refs:
  assumes "retention_inv db" "retentionCandidates flt dur disk clock s policy db = Inr cs"
  shows "distinct (map cand_ref cs) \<and> cand_ref ` set cs \<subseteq> Some ` live_refs (rs_workspaceID s) db"
proof -
  let ?ws = "rs_workspaceID s"
  let ?now = "if po_Now policy = zero_time then clock else po_Now policy"
  let ?conc = "map (conclusion_candidate ?ws dur (po_MaxAge policy)) (old_conclusions s ?now (po_MaxAge policy) db)"
  let ?imgs = "retentionImageCandidates s ''image_dir over max_image_bytes'' db"
  have c: "?conc = map (conclusion_candidate ?ws dur (po_MaxAge policy)) (order_asc co_CreatedAt
      (filter (\<lambda>r. live_conclusion ?ws r \<and> co_ObserverPeerID r = rs_observer s
         \<and> co_CreatedAt r < (?now - po_MaxAge policy) div 1000000000) (conclusions db)))"
    by (simp add: old_conclusions_def)
  note r = candidate_refs_distinct [OF assms(1) c retentionImageCandidates_def]
  have "set (map cand_ref ?conc) \<subseteq> Some ` live_refs ?ws db" unfolding r(1) by (auto simp: live_refs_def)
  moreover have "set (map cand_ref ?imgs) \<subseteq> Some ` live_refs ?ws db" unfolding r(2) by (auto simp: live_refs_def)
  ultimately have sub: "cand_ref ` set ?conc \<subseteq> Some ` live_refs ?ws db" "cand_ref ` set ?imgs \<subseteq> Some ` live_refs ?ws db"
    by (simp_all only: set_map)
  obtain full where full: "full \<in> {[], ?conc, ?imgs, ?conc @ ?imgs}"
    "cs = full \<or> cs = take (nat (po_PerWorkspaceLimit policy)) full"
    using retentionCandidates_full [OF assms(2) refl refl refl] by blast
  have "distinct (map cand_ref ?conc)" "distinct (map cand_ref ?imgs)" "distinct (map cand_ref (?conc @ ?imgs))"
    using r(3) [where x = "''image_dir over max_image_bytes''"] by (simp_all del: map_map)
  with full(1) have "distinct (map cand_ref full)" by (elim insertE emptyE) (simp_all only: list.map distinct.simps)
  moreover have "cand_ref ` set full \<subseteq> Some ` live_refs ?ws db"
    using full(1) sub by (elim insertE emptyE) (simp_all only: set_append image_Un Un_subset_iff list.set image_empty empty_subsetI)
  ultimately show ?thesis using full(2) by (auto simp: take_map [symmetric] distinct_take dest: in_set_takeD)
qed


section \<open>Properties\<close>

text \<open>
  C38. Applying a retention policy without faults does exactly what its preview says: it reports the
  previewed candidates; their rows are live, different rows of the service's workspace, and become archived
  with the time of their update, in which only the status and the time of update change; every other row stays as
  it is; and the audit log is extended by exactly one row per candidate, in the order of the preview, with its
  stable id, kind, reasons, the trimmed actor and the time.
\<close>

theorem retention_apply_exact:
  assumes "retention_inv db" "\<And>x. \<not> flt x" "trim_space who \<noteq> []"
    and "PreviewRetention flt dur disk (clock RtConclusions) s policy db = Inr (usage, cs)"
  shows "\<exists>res t rs. ApplyRetention flt dur disk clock s policy who db =
      (Inr res, (archived_rows (rs_workspaceID s) (archive_times clock (enumerate 0 cs)) db)\<lparr>taudit := t\<rparr>)
    \<and> ra_Applied res = cs
    \<and> arows t = arows (taudit db) @ rs
    \<and> map snd rs = map (\<lambda>(k, c). audit_row (rs_workspaceID s) who (clock (RtAudit k)) c) (enumerate 0 cs)
    \<and> distinct (map cand_ref cs) \<and> cand_ref ` set cs \<subseteq> Some ` live_refs (rs_workspaceID s) db"
proof -
  let ?ws = "rs_workspaceID s"
  let ?r0 = "\<lparr>ra_WorkspaceID = ?ws, ra_AppliedBy = trim_space who, ra_Applied = [], ra_ImagesArchived = 0\<rparr>"
  have "retentionCandidates flt dur (disk 1) (clock RtConclusions) s policy db = Inr cs"
    using assms(4) by (auto simp: PreviewRetention_def split: sum.splits)
  from preview_refs [OF assms(1) this] have p: "distinct (map cand_ref cs)" "cand_ref ` set cs \<subseteq> Some ` live_refs ?ws db" by auto
  from applyCandidates_all [where flt = flt and clock = clock and who = who and k = 0 and res = ?r0, OF assms(2) p] obtain res db' where
    a: "applyCandidates flt ?ws clock who 0 cs ?r0 db = (Inr res, db')" "ra_Applied res = cs"
      "applied ?ws clock who (enumerate 0 cs) (enumerate 0 cs) db db'" by auto
  have "ApplyRetention flt dur disk clock s policy who db = (Inr res, db')" using a(1) by (simp add: ApplyRetention_def assms(3,4))
  with a(2,3) p show ?thesis unfolding applied_def by blast
qed

text \<open>
  C40. Whatever statement fails, the rows that an application of a policy archives are those of a selection of
  the previewed candidates, in order, each a live row of the service's workspace and none twice; in them only the
  status and the time of update change, and every other row stays as it is.  The audit log is extended by exactly
  one row for each of them, in the same order, except that the last one may lack its row when the call fails,
  between archiving it and auditing it; a call that succeeds reports exactly the selection and has audited all of it.
\<close>

theorem retention_audit_gap:
  assumes "ApplyRetention flt dur disk clock s policy who db = (out, db')"
  shows "\<exists>archived audited t rs.
      db' = (archived_rows (rs_workspaceID s) (archive_times clock archived) db)\<lparr>taudit := t\<rparr>
    \<and> arows t = arows (taudit db) @ rs
    \<and> map snd rs = map (\<lambda>(k, c). audit_row (rs_workspaceID s) who (clock (RtAudit k)) c) audited
    \<and> list_all (\<lambda>(k, c). \<exists>x. cand_ref c = Some x \<and> x \<in> live_refs (rs_workspaceID s) db) archived
    \<and> distinct (map (\<lambda>(k, c). cand_ref c) archived)
    \<and> (case PreviewRetention flt dur disk (clock RtConclusions) s policy db of
         Inl _ \<Rightarrow> archived = [] | Inr (usage, cs) \<Rightarrow> subseq archived (enumerate 0 cs))
    \<and> (case out of
         Inr r \<Rightarrow> audited = archived \<and> ra_Applied r = map snd archived
       | Inl _ \<Rightarrow> archived = audited \<or> (\<exists>kc. archived = audited @ [kc]))"
proof -
  let ?ws = "rs_workspaceID s"
  have "\<exists>archived audited. applied ?ws clock who archived audited db db'
    \<and> (case PreviewRetention flt dur disk (clock RtConclusions) s policy db of
         Inl _ \<Rightarrow> archived = [] | Inr (usage, cs) \<Rightarrow> subseq archived (enumerate 0 cs))
    \<and> (case out of
         Inr r \<Rightarrow> audited = archived \<and> ra_Applied r = map snd archived
       | Inl _ \<Rightarrow> archived = audited \<or> (\<exists>kc. archived = audited @ [kc]))"
  proof (cases "trim_space who \<noteq> [] \<and> is_ok (PreviewRetention flt dur disk (clock RtConclusions) s policy db)")
    case False
    then have "db' = db \<and> (\<exists>e. out = Inl e)"
      using assms by (cases "PreviewRetention flt dur disk (clock RtConclusions) s policy db")
        (auto simp: ApplyRetention_def split: if_splits)
    then show ?thesis using applied_none [of ?ws clock who db]
      by (intro exI [of _ "[]"]) (auto split: sum.split)
  next
    case True
    then obtain u cs where p: "PreviewRetention flt dur disk (clock RtConclusions) s policy db = Inr (u, cs)"
      by (cases "PreviewRetention flt dur disk (clock RtConclusions) s policy db") auto
    let ?r0 = "\<lparr>ra_WorkspaceID = ?ws, ra_AppliedBy = trim_space who, ra_Applied = [], ra_ImagesArchived = 0\<rparr>"
    have "applyCandidates flt ?ws clock who 0 cs ?r0 db = (out, db')" using assms True p by (simp add: ApplyRetention_def)
    with applyCandidates_applied [where flt = flt and ws = ?ws and clock = clock and who = who and k = 0 and cs = cs and res = ?r0 and db = db] p show ?thesis
      by (simp only: prod.case sum.case RetentionApplyResult.select_convs append_Nil)
  qed
  then show ?thesis unfolding applied_def by blast
qed

text \<open>
  A service of one workspace keeps an old conclusion, a fresh one and one of another observer; the
  policy selects the first.
\<close>

definition wit_service :: retention_service where
  "wit_service = \<lparr>rs_workspaceID = ''w'', rs_observer = ''o''\<rparr>"

definition wit_policy :: RetentionPolicy where
  "wit_policy = \<lparr>po_Now = 9000000000, po_KeepForever = False, po_MaxAge = 5000000000, po_MaxDBBytes = 0, po_MaxImageBytes = 0,
     po_MaxVectorBytes = 0, po_PerWorkspaceLimit = 0, po_ImageDir = [], po_VectorDir = []\<rparr>"

definition wit_conclusion :: "int \<Rightarrow> string \<Rightarrow> int \<Rightarrow> conclusion_row" where
  "wit_conclusion i obs created = \<lparr>co_ID = i, co_WorkspaceID = ''w'', co_ObserverPeerID = obs, co_PeerID = ''p'', co_SessionKey = None,
     co_Content = ''c'', co_Status = ''active'', co_CreatedAt = created, co_UpdatedAt = created\<rparr>"

definition wit_retention :: retention_db where
  "wit_retention = \<lparr>conclusions = [wit_conclusion 1 ''o'' 2, wit_conclusion 2 ''o'' 8, wit_conclusion 3 ''q'' 2],
     images = [], taudit = \<lparr>arows = [], aseq = 0\<rparr>\<rparr>"

definition wit_disk :: disk_env where
  "wit_disk = \<lparr>databasePath = [], osStat = (\<lambda>_. StatNotExist), walkDir = (\<lambda>_. WalkNotExist)\<rparr>"

lemmas wit_retention_defs = wit_service_def wit_policy_def wit_conclusion_def wit_retention_def wit_disk_def

lemma wit_preview:
  "\<exists>usage. PreviewRetention (\<lambda>_. False) (\<lambda>_. ''5s'') (\<lambda>_. wit_disk) 9000000000 wit_service wit_policy wit_retention
     = Inr (usage, [conclusion_candidate ''w'' (\<lambda>_. ''5s'') 5000000000 (wit_conclusion 1 ''o'' 2)])"
proof -
  have "(case PreviewRetention (\<lambda>_. False) (\<lambda>_. ''5s'') (\<lambda>_. wit_disk) 9000000000 wit_service wit_policy wit_retention of
      Inl _ \<Rightarrow> False | Inr (u, cs) \<Rightarrow> cs = [conclusion_candidate ''w'' (\<lambda>_. ''5s'') 5000000000 (wit_conclusion 1 ''o'' 2)])" by code_simp
  then show ?thesis by (auto split: sum.splits)
qed

text \<open>The clock of the example ticks with the statements.\<close>

definition wit_clock :: "retention_site \<Rightarrow> int" where
  "wit_clock x = (case x of RtArchive k \<Rightarrow> 9000000000 | RtAudit k \<Rightarrow> 10000000000 | _ \<Rightarrow> 9000000000)"

lemma wit_clock_start: "wit_clock RtConclusions = 9000000000"
  by (simp add: wit_clock_def)

theorem retention_apply_exact_witness:
  "\<exists>res db'. ApplyRetention (\<lambda>_. False) (\<lambda>_. ''5s'') (\<lambda>_. wit_disk) wit_clock wit_service wit_policy ''me'' wit_retention = (Inr res, db')
     \<and> map ec_StableID (ra_Applied res) = [''conclusion:1'']
     \<and> map (\<lambda>(i, r). (rt_StableID r, rt_CreatedAt r)) (arows (taudit db')) = [(''conclusion:1'', 10)]
     \<and> map (\<lambda>r. (co_ID r, co_Content r, co_Status r, co_UpdatedAt r)) (conclusions db')
         = [(1, ''c'', ''archived'', 9), (2, ''c'', ''active'', 8), (3, ''c'', ''active'', 2)]"
proof -
  let ?c = "conclusion_candidate ''w'' (\<lambda>_. ''5s'') 5000000000 (wit_conclusion 1 ''o'' 2)"
  let ?db = "archived_rows ''w'' (archive_times wit_clock (enumerate 0 [?c])) wit_retention"
  have i: "retention_inv wit_retention" and w: "trim_space ''me'' \<noteq> []" by code_simp+
  obtain usage where u: "PreviewRetention (\<lambda>_. False) (\<lambda>_. ''5s'') (\<lambda>_. wit_disk) (wit_clock RtConclusions) wit_service wit_policy wit_retention
     = Inr (usage, [?c])" unfolding wit_clock_start using wit_preview by blast
  have c: "ec_StableID ?c = ''conclusion:1''" "rt_StableID (audit_row ''w'' ''me'' (wit_clock (RtAudit 0)) ?c) = ''conclusion:1''"
    "rt_CreatedAt (audit_row ''w'' ''me'' (wit_clock (RtAudit 0)) ?c) = 10" "arows (taudit wit_retention) = []"
    "map (\<lambda>r. (co_ID r, co_Content r, co_Status r, co_UpdatedAt r)) (conclusions ?db)
         = [(1, ''c'', ''archived'', 9), (2, ''c'', ''active'', 8), (3, ''c'', ''active'', 2)]" by code_simp+
  have s: "rs_workspaceID wit_service = ''w''" by (simp add: wit_service_def)
  obtain res t rs where r: "ApplyRetention (\<lambda>_. False) (\<lambda>_. ''5s'') (\<lambda>_. wit_disk) wit_clock wit_service wit_policy ''me'' wit_retention
      = (Inr res, ?db\<lparr>taudit := t\<rparr>)" "ra_Applied res = [?c]" "arows t = rs"
      "map snd rs = [audit_row ''w'' ''me'' (wit_clock (RtAudit 0)) ?c]"
    using retention_apply_exact [where clock = wit_clock, OF i _ w u] c(4) unfolding s by auto
  from r(4) obtain n where "rs = [(n, audit_row ''w'' ''me'' (wit_clock (RtAudit 0)) ?c)]" by (auto simp: map_eq_Cons_conv)
  with r c show ?thesis by auto
qed

theorem retention_audit_gap_witness:
  "\<exists>out db' kc. ApplyRetention (\<lambda>s. s = RtAudit 0) (\<lambda>_. ''5s'') (\<lambda>_. wit_disk) wit_clock wit_service wit_policy ''me'' wit_retention = (out, db')
     \<and> \<not> is_ok out \<and> arows (taudit db') = []
     \<and> conclusions db' = conclusions (archived_rows ''w'' (archive_times wit_clock [kc]) wit_retention)"
proof -
  let ?r = "ApplyRetention (\<lambda>s. s = RtAudit 0) (\<lambda>_. ''5s'') (\<lambda>_. wit_disk) wit_clock wit_service wit_policy ''me'' wit_retention"
  have f: "\<not> is_ok (fst ?r)" "arows (taudit (snd ?r)) = []" "conclusions (snd ?r) \<noteq> conclusions wit_retention" "arows (taudit wit_retention) = []"
    by code_simp+
  obtain out db' where o: "?r = (out, db')" by fastforce
  note f = f [unfolded o fst_conv snd_conv]
  have s: "rs_workspaceID wit_service = ''w''" by (simp add: wit_service_def)
  from retention_audit_gap [OF o] f(1) obtain archived audited t rs where
    x: "db' = (archived_rows ''w'' (archive_times wit_clock archived) wit_retention)\<lparr>taudit := t\<rparr>"
      "arows t = arows (taudit wit_retention) @ rs"
      "map snd rs = map (\<lambda>(k, c). audit_row ''w'' ''me'' (wit_clock (RtAudit k)) c) audited"
      "archived = audited \<or> (\<exists>kc. archived = audited @ [kc])"
    unfolding s by (elim exE conjE) (use f(1) in \<open>cases out; auto\<close>)
  have "audited = []" using x(1-3) f(2,4) by simp
  moreover have "archived \<noteq> []" using x(1) f(3) by (auto simp: archive_times_def)
  ultimately obtain kc where "archived = [kc]" using x(4) by auto
  with o f(1,2) x(1) show ?thesis by (intro exI [of _ out] exI [of _ db'] exI [of _ kc]) simp
qed

end
