(* ===== verification/MemoryPolicy.thy ===== *)
theory MemoryPolicy
  imports Text Tables
begin

text \<open>
  Memory governance (\<open>internal/memorypolicy\<close>, and its copy in \<open>policy\<close>): the tiers, who reads and
  writes which tier, the explicit read grants of \<open>memory_acl\<close>, and the proposals that child agents
  submit and parents accept or reject.  Tiers and permissions are strings as in the code.  The table
  definitions are those of the tests of the package: \<open>memory_acl\<close> is unique in memory, agent and
  permission, \<open>memory_proposals\<close> in the proposal id, and its tier and kind columns are checked.
  Clock readings are in nanoseconds, columns hold seconds; \<open>flt\<close> is the failure of a statement.
\<close>

section \<open>Tiers\<close>

definition Hierarchy :: "string list" where
  "Hierarchy = [''global'', ''project'', ''task'', ''workspace'', ''decision'']"

definition ValidTier :: "(string \<Rightarrow> string) \<Rightarrow> string \<Rightarrow> bool" where
  "ValidTier ulow raw \<longleftrightarrow> to_lower ulow (trim_space raw) \<in> set [''global'', ''project'', ''task'', ''workspace'', ''decision'']"

definition NormalizeTier :: "(string \<Rightarrow> string) \<Rightarrow> string \<Rightarrow> string" where
  "NormalizeTier ulow raw =
     (let tier = to_lower ulow (trim_space raw) in if \<not> ValidTier ulow tier then ''global'' else tier)"

definition ReadableBy :: "string \<Rightarrow> string list" where
  "ReadableBy agentTier =
     (if agentTier = ''global'' then [''global'']
      else if agentTier = ''project'' then [''global'', ''project'']
      else if agentTier = ''task'' then [''global'', ''project'', ''task'']
      else if agentTier = ''workspace'' then [''global'', ''project'', ''task'', ''workspace'']
      else if agentTier = ''decision'' then [''global'', ''project'', ''task'', ''workspace'', ''decision'']
      else [])"

definition WritableBy :: "bool \<Rightarrow> string list" where
  "WritableBy isParent = (if isParent then Hierarchy else [''workspace''])"

definition DefaultTierForSource :: "(string \<Rightarrow> string) \<Rightarrow> string \<Rightarrow> string" where
  "DefaultTierForSource ulow sourceKind =
     (let k = to_lower ulow (trim_space sourceKind) in
      if k = ''manual'' \<or> k = ''import'' then ''project''
      else if k = ''tool'' \<or> k = ''runtime'' then ''task''
      else if k = ''derived'' then ''decision''
      else if k = ''reviewed_proposal'' then ''project''
      else ''global'')"

datatype policy_error = InvalidTier string | InvalidKind string | MarshalEvidence | PolicyDb
  | ProposalNotFound string | ProposalNotPending string

definition ValidateTierOrErr :: "(string \<Rightarrow> string) \<Rightarrow> string \<Rightarrow> policy_error option" where
  "ValidateTierOrErr ulow raw = (if \<not> ValidTier ulow raw then Some (InvalidTier raw) else None)"

text \<open>Windows grow along the hierarchy, and the valid tiers are the normal forms.\<close>

lemma readable_prefix: "ReadableBy (Hierarchy ! n) = take (Suc n) Hierarchy" if "n < length Hierarchy" for n
  using that by (auto simp: ReadableBy_def Hierarchy_def less_Suc_eq numeral_eq_Suc)

lemma readable_grows: "m \<le> n \<Longrightarrow> n < length Hierarchy \<Longrightarrow> set (ReadableBy (Hierarchy ! m)) \<subseteq> set (ReadableBy (Hierarchy ! n))"
  using readable_prefix [of m] readable_prefix [of n] by (simp add: set_take_subset_set_take)

lemma readable_unknown: "t \<notin> set Hierarchy \<Longrightarrow> ReadableBy t = []"
  by (auto simp: ReadableBy_def Hierarchy_def)

section \<open>Access\<close>

record ACLQuery =
  aq_AgentID :: string
  aq_IsParent :: bool
  aq_ReadTiers :: "string list"
  aq_WriteTier :: string
  aq_WorkspaceID :: string

text \<open>The columns of \<open>goncho_memory_items\<close> that the queries read.\<close>

record item_row =
  it_MemoryID :: string
  it_AgentID :: string
  it_WorkspaceID :: string
  it_Tier :: string
  it_Active :: int

record acl_row =
  acl_MemoryID :: string
  acl_AgentID :: string
  acl_Permission :: string
  acl_GrantedBy :: string
  acl_GrantedAt :: int

definition acl_key :: "acl_row \<Rightarrow> string \<times> string \<times> string" where
  "acl_key r = (acl_MemoryID r, acl_AgentID r, acl_Permission r)"

text \<open>\<open>INSERT OR IGNORE\<close>: a row whose key exists stays as it is.\<close>

definition keep_row :: "acl_row \<Rightarrow> acl_row \<Rightarrow> acl_row" where
  "keep_row old new = old"

interpretation acl_rows: keyed_table acl_key keep_row
  by unfold_locales (simp add: keep_row_def)

text \<open>The \<open>WHERE\<close> clause that \<open>ReadScopeSQL\<close> builds, on a row \<open>m\<close>.\<close>

definition ReadScopeSQL :: "ACLQuery \<Rightarrow> acl_row list \<Rightarrow> item_row \<Rightarrow> bool" where
  "ReadScopeSQL q acl m \<longleftrightarrow>
     (if aq_ReadTiers q = [] then False
      else list_ex (\<lambda>r. acl_MemoryID r = it_MemoryID m \<and> acl_AgentID r = aq_AgentID q \<and> acl_Permission r = ''read'') acl
         \<or> (it_WorkspaceID m = aq_WorkspaceID q \<and> it_Tier m \<in> set (aq_ReadTiers q))
         \<or> (it_WorkspaceID m = aq_WorkspaceID q \<and> it_AgentID m = aq_AgentID q \<and> it_Tier m = ''workspace''))"

definition CanWrite :: "ACLQuery \<Rightarrow> string \<Rightarrow> bool" where
  "CanWrite q tier \<longleftrightarrow> (if aq_IsParent q then True else tier = ''workspace'' \<and> aq_WriteTier q = ''workspace'')"

definition CanRead :: "ACLQuery \<Rightarrow> string \<Rightarrow> bool" where
  "CanRead q tier \<longleftrightarrow> list_ex (\<lambda>readable. readable = tier) (aq_ReadTiers q)"

definition readableTierSQL :: "string list \<Rightarrow> item_row \<Rightarrow> bool" where
  "readableTierSQL readableTiers m \<longleftrightarrow> (if readableTiers = [] then False else it_Tier m \<in> set readableTiers)"

section \<open>Proposals\<close>

datatype ProposalStatus = PropPending | PropAccepted | PropRejected

definition ValidProposalKind :: "string \<Rightarrow> bool" where
  "ValidProposalKind k \<longleftrightarrow> k \<in> set [''fact'', ''preference'', ''decision'', ''observation'', ''report'', ''artifact'']"

record MemoryProposal =
  mp_ProposalID :: string
  mp_SubtaskID :: string
  mp_ChildAgentID :: string
  mp_ParentAgentID :: string
  mp_ProposedTier :: string
  mp_Kind :: string
  mp_Content :: string
  mp_EvidenceJSON :: string
  mp_Status :: ProposalStatus
  mp_ReviewedBy :: "string option"
  mp_ReviewedAt :: "int option"
  mp_CommittedMemoryID :: "string option"
  mp_CreatedAt :: int

record ProposalRef =
  pf_ProposalID :: string
  pf_ChildAgentID :: string
  pf_ParentAgentID :: string
  pf_Status :: ProposalStatus

record policy_db =
  items :: "item_row list"
  grants :: "acl_row list"
  proposals :: "MemoryProposal atable"

definition GrantReadACL :: "bool \<Rightarrow> int \<Rightarrow> string \<Rightarrow> string \<Rightarrow> string \<Rightarrow> policy_db \<Rightarrow> policy_error option \<times> policy_db" where
  "GrantReadACL flt now memoryID agentID grantedBy db =
     (if flt then (Some PolicyDb, db)
      else (None, db\<lparr>grants := tupsert acl_key keep_row
        \<lparr>acl_MemoryID = memoryID, acl_AgentID = agentID, acl_Permission = ''read'', acl_GrantedBy = grantedBy,
         acl_GrantedAt = now div 1000000000\<rparr> (grants db)\<rparr>))"

definition RevokeACL :: "bool \<Rightarrow> string \<Rightarrow> string \<Rightarrow> string \<Rightarrow> policy_db \<Rightarrow> policy_error option \<times> policy_db" where
  "RevokeACL flt memoryID agentID permission db =
     (if flt then (Some PolicyDb, db)
      else (None, db\<lparr>grants := tdelete (\<lambda>r. acl_key r = (memoryID, agentID, permission)) (grants db)\<rparr>))"

definition AgentCanAccessMemory :: "bool \<Rightarrow> policy_db \<Rightarrow> string \<Rightarrow> string \<Rightarrow> string \<Rightarrow> string list \<Rightarrow> policy_error + bool" where
  "AgentCanAccessMemory flt db memoryID agentID workspaceID readableTiers =
     (if flt then Inl PolicyDb
      else Inr (list_ex (\<lambda>m. it_MemoryID m = memoryID \<and> it_Active m = 1
        \<and> (list_ex (\<lambda>r. acl_MemoryID r = it_MemoryID m \<and> acl_AgentID r = agentID \<and> acl_Permission r = ''read'') (grants db)
           \<or> (it_WorkspaceID m = workspaceID \<and> readableTierSQL readableTiers m)
           \<or> (it_WorkspaceID m = workspaceID \<and> it_AgentID m = agentID \<and> it_Tier m = ''workspace''))) (items db)))"

text \<open>
  \<open>json\<close> is the marshalled evidence, \<open>None\<close> when it cannot be marshalled; the clock is read twice.
\<close>

definition SubmitProposal :: "bool \<Rightarrow> (string \<Rightarrow> string) \<Rightarrow> int \<Rightarrow> int \<Rightarrow> string \<Rightarrow> string \<Rightarrow> string \<Rightarrow> string \<Rightarrow> string \<Rightarrow> string
    \<Rightarrow> string option \<Rightarrow> policy_db \<Rightarrow> (policy_error + ProposalRef) \<times> policy_db" where
  "SubmitProposal flt ulow now1 now2 subtaskID child parent content tier kind json db =
     (if \<not> ValidTier ulow tier then (Inl (InvalidTier tier), db)
      else if \<not> ValidProposalKind kind then (Inl (InvalidKind kind), db)
      else case json of
        None \<Rightarrow> (Inl MarshalEvidence, db)
      | Some evidence \<Rightarrow>
          let i = ''prop_'' @ child @ ''_'' @ Decimal now1 in
          if flt \<or> tier \<notin> set Hierarchy \<or> tfind (mp_ProposalID \<circ> snd) i (arows (proposals db)) \<noteq> None then (Inl PolicyDb, db)
          else
            (Inr \<lparr>pf_ProposalID = i, pf_ChildAgentID = child, pf_ParentAgentID = parent, pf_Status = PropPending\<rparr>,
             db\<lparr>proposals := snd (ainsert \<lparr>mp_ProposalID = i, mp_SubtaskID = subtaskID, mp_ChildAgentID = child,
               mp_ParentAgentID = parent, mp_ProposedTier = tier, mp_Kind = kind, mp_Content = content, mp_EvidenceJSON = evidence,
               mp_Status = PropPending, mp_ReviewedBy = None, mp_ReviewedAt = None, mp_CommittedMemoryID = None,
               mp_CreatedAt = now2 div 1000000000\<rparr> (proposals db))\<rparr>))"

text \<open>The query leaves the order of proposals of one second open; here the later id comes first.\<close>

definition ListPendingProposals :: "bool \<Rightarrow> string \<Rightarrow> policy_db \<Rightarrow> policy_error + (int \<times> MemoryProposal) list" where
  "ListPendingProposals flt parent db =
     (if flt then Inl PolicyDb
      else Inr (order_desc (\<lambda>(i, p). (mp_CreatedAt p, i))
        (filter (\<lambda>(i, p). mp_ParentAgentID p = parent \<and> mp_Status p = PropPending) (arows (proposals db)))))"

definition GetProposal :: "bool \<Rightarrow> string \<Rightarrow> policy_db \<Rightarrow> policy_error + (int \<times> MemoryProposal)" where
  "GetProposal flt proposalID db =
     (if flt then Inl PolicyDb
      else case tfind (mp_ProposalID \<circ> snd) proposalID (arows (proposals db)) of
        None \<Rightarrow> Inl (ProposalNotFound proposalID) | Some p \<Rightarrow> Inr p)"

definition accept_row :: "string \<Rightarrow> int \<Rightarrow> string option \<Rightarrow> MemoryProposal \<Rightarrow> MemoryProposal" where
  "accept_row reviewedBy now committed p =
     (case committed of
        Some m \<Rightarrow> p\<lparr>mp_Status := PropAccepted, mp_ReviewedBy := Some reviewedBy, mp_ReviewedAt := Some now, mp_CommittedMemoryID := Some m\<rparr>
      | None \<Rightarrow> p\<lparr>mp_Status := PropAccepted, mp_ReviewedBy := Some reviewedBy, mp_ReviewedAt := Some now\<rparr>)"

definition reject_row :: "string \<Rightarrow> int \<Rightarrow> MemoryProposal \<Rightarrow> MemoryProposal" where
  "reject_row reviewedBy now p = p\<lparr>mp_Status := PropRejected, mp_ReviewedBy := Some reviewedBy, mp_ReviewedAt := Some now\<rparr>"

text \<open>\<open>UPDATE ... WHERE proposal_id = ? AND status = 'pending'\<close>; \<open>affected\<close> is the failure of \<open>RowsAffected\<close>.\<close>

definition pending_row :: "string \<Rightarrow> int \<times> MemoryProposal \<Rightarrow> bool" where
  "pending_row proposalID x \<longleftrightarrow> mp_ProposalID (snd x) = proposalID \<and> mp_Status (snd x) = PropPending"

definition update_pending :: "(MemoryProposal \<Rightarrow> MemoryProposal) \<Rightarrow> string \<Rightarrow> policy_db \<Rightarrow> policy_db" where
  "update_pending f proposalID db = db\<lparr>proposals := (proposals db)\<lparr>arows :=
     map (\<lambda>x. if pending_row proposalID x then (fst x, f (snd x)) else x) (arows (proposals db))\<rparr>\<rparr>"

definition AcceptProposal :: "bool \<Rightarrow> bool \<Rightarrow> int \<Rightarrow> string \<Rightarrow> string \<Rightarrow> string option \<Rightarrow> policy_db \<Rightarrow> policy_error option \<times> policy_db" where
  "AcceptProposal flt affected now proposalID reviewedBy committed db =
     (if flt then (Some PolicyDb, db)
      else
        let db1 = update_pending (accept_row reviewedBy (now div 1000000000) committed) proposalID db in
        if affected then (Some PolicyDb, db1)
        else if \<not> list_ex (pending_row proposalID) (arows (proposals db)) then (Some (ProposalNotPending proposalID), db1)
        else (None, db1))"

definition RejectProposal :: "bool \<Rightarrow> bool \<Rightarrow> int \<Rightarrow> string \<Rightarrow> string \<Rightarrow> policy_db \<Rightarrow> policy_error option \<times> policy_db" where
  "RejectProposal flt affected now proposalID reviewedBy db =
     (if flt then (Some PolicyDb, db)
      else
        let db1 = update_pending (reject_row reviewedBy (now div 1000000000)) proposalID db in
        if affected then (Some PolicyDb, db1)
        else if \<not> list_ex (pending_row proposalID) (arows (proposals db)) then (Some (ProposalNotPending proposalID), db1)
        else (None, db1))"

section \<open>Runs\<close>

datatype policy_event =
    EvGrant bool int string string string
  | EvRevoke bool string string string
  | EvSubmit bool "string \<Rightarrow> string" int int string string string string string string "string option"
  | EvAccept bool bool int string string "string option"
  | EvReject bool bool int string string

fun policy_step :: "policy_event \<Rightarrow> policy_db \<Rightarrow> policy_db" where
  "policy_step (EvGrant flt now m a by') db = snd (GrantReadACL flt now m a by' db)"
| "policy_step (EvRevoke flt m a perm) db = snd (RevokeACL flt m a perm db)"
| "policy_step (EvSubmit flt ulow now1 now2 sub child parent content tier kind json) db =
     snd (SubmitProposal flt ulow now1 now2 sub child parent content tier kind json db)"
| "policy_step (EvAccept flt affected now i who m) db = snd (AcceptProposal flt affected now i who m db)"
| "policy_step (EvReject flt affected now i who) db = snd (RejectProposal flt affected now i who db)"

text \<open>The specification of the grants: the pairs of a memory and an agent that may read it.\<close>

fun grant_step :: "policy_event \<Rightarrow> (string \<times> string) set \<Rightarrow> (string \<times> string) set" where
  "grant_step (EvGrant flt now m a by') G = (if flt then G else insert (m, a) G)"
| "grant_step (EvRevoke flt m a perm) G = (if \<not> flt \<and> perm = ''read'' then G - {(m, a)} else G)"
| "grant_step _ G = G"

definition read_grants :: "policy_db \<Rightarrow> (string \<times> string) set" where
  "read_grants db = {(m, a). (m, a, ''read'') \<in> acl_key ` set (grants db)}"

lemma submit_tables [simp]:
  "grants (snd (SubmitProposal flt ulow now1 now2 sub child parent content tier kind json db)) = grants db"
  "items (snd (SubmitProposal flt ulow now1 now2 sub child parent content tier kind json db)) = items db"
  by (cases json; simp add: SubmitProposal_def Let_def)+

lemma review_tables [simp]:
  "grants (snd (AcceptProposal flt affected now i who m db)) = grants db" "items (snd (AcceptProposal flt affected now i who m db)) = items db"
  "grants (snd (RejectProposal flt affected now i who db)) = grants db" "items (snd (RejectProposal flt affected now i who db)) = items db"
  by (simp_all add: AcceptProposal_def RejectProposal_def update_pending_def Let_def)

lemma acl_tables [simp]:
  "proposals (snd (GrantReadACL flt now m a g db)) = proposals db" "items (snd (GrantReadACL flt now m a g db)) = items db"
  "proposals (snd (RevokeACL flt m a perm db)) = proposals db" "items (snd (RevokeACL flt m a perm db)) = items db"
  by (simp_all add: GrantReadACL_def RevokeACL_def)

lemma items_step: "items (policy_step e db) = items db"
  by (cases e) simp_all

lemma items_run [simp]: "items (fold policy_step es db) = items db"
  by (induction es arbitrary: db) (simp_all add: items_step)

lemma grants_abs: "read_grants (policy_step e db) = grant_step e (read_grants db)"
proof (cases e)
  case (EvGrant flt now m a g)
  then show ?thesis
    by (auto simp: read_grants_def GrantReadACL_def acl_rows.keys_upsert) (auto simp: acl_key_def)
next
  case (EvRevoke flt m a perm)
  then show ?thesis by (auto simp: read_grants_def RevokeACL_def acl_key_def image_iff)
qed (simp_all add: read_grants_def)

interpretation grants_sim: simulation policy_step "\<lambda>_. True" read_grants grant_step
  by unfold_locales (simp_all add: grants_abs)

lemma granted_iff:
  "list_ex (\<lambda>r. acl_MemoryID r = i \<and> acl_AgentID r = agentID \<and> acl_Permission r = ''read'') (grants db) \<longleftrightarrow> (i, agentID) \<in> read_grants db"
  by (auto simp: read_grants_def acl_key_def list_ex_iff image_iff)

lemma can_access_iff:
  "AgentCanAccessMemory False db memoryID agentID ws tiers = Inr (list_ex (\<lambda>m. it_MemoryID m = memoryID \<and> it_Active m = 1
     \<and> ((memoryID, agentID) \<in> read_grants db
       \<or> it_WorkspaceID m = ws \<and> (it_Tier m \<in> set tiers \<or> it_AgentID m = agentID \<and> it_Tier m = ''workspace''))) (items db))"
proof -
  show ?thesis
    unfolding AgentCanAccessMemory_def granted_iff
    by (simp, rule arg_cong2 [where f = list_ex, OF _ refl], rule ext) (auto simp: readableTierSQL_def)
qed

section \<open>The state of a proposal\<close>

lemma status_cases: "st \<noteq> PropPending \<longleftrightarrow> st = PropAccepted \<or> st = PropRejected"
  by (cases st) simp_all

text \<open>A pending proposal has no review columns, a decided one names its reviewer and the time.\<close>

definition proposal_ok :: "MemoryProposal \<Rightarrow> bool" where
  "proposal_ok p \<longleftrightarrow> mp_ProposedTier p \<in> set Hierarchy \<and> ValidProposalKind (mp_Kind p)
     \<and> (if mp_Status p = PropPending then mp_ReviewedBy p = None \<and> mp_ReviewedAt p = None \<and> mp_CommittedMemoryID p = None
        else mp_ReviewedBy p \<noteq> None \<and> mp_ReviewedAt p \<noteq> None)"

abbreviation prop_id :: "int \<times> MemoryProposal \<Rightarrow> string" where
  "prop_id \<equiv> mp_ProposalID \<circ> snd"

definition policy_inv :: "policy_db \<Rightarrow> bool" where
  "policy_inv db \<longleftrightarrow> unique_keys acl_key (grants db) \<and> awf (proposals db) \<and> unique_keys prop_id (arows (proposals db))
     \<and> list_all (\<lambda>x. proposal_ok (snd x)) (arows (proposals db))"

definition review_of :: "(MemoryProposal \<Rightarrow> MemoryProposal) \<Rightarrow> bool" where
  "review_of f \<longleftrightarrow> (\<forall>p. mp_ProposalID (f p) = mp_ProposalID p \<and> (proposal_ok p \<longrightarrow> proposal_ok (f p)) \<and> mp_Status (f p) \<noteq> PropPending)"

lemma review_rows [simp]: "review_of (accept_row who now m)" "review_of (reject_row who now)"
  by (auto simp: review_of_def accept_row_def reject_row_def proposal_ok_def split: option.splits if_splits)

definition reviewed :: "(MemoryProposal \<Rightarrow> MemoryProposal) \<Rightarrow> string \<Rightarrow> int \<times> MemoryProposal \<Rightarrow> int \<times> MemoryProposal" where
  "reviewed f i x = (if pending_row i x then (fst x, f (snd x)) else x)"

lemma update_pending_rows: "update_pending f i db = db\<lparr>proposals := (proposals db)\<lparr>arows := map (reviewed f i) (arows (proposals db))\<rparr>\<rparr>"
  by (simp add: update_pending_def reviewed_def cong: map_cong)

lemma reviewed_keeps: "review_of f \<Longrightarrow> fst (reviewed f i x) = fst x \<and> prop_id (reviewed f i x) = prop_id x
    \<and> (proposal_ok (snd x) \<longrightarrow> proposal_ok (snd (reviewed f i x)))"
  by (simp add: reviewed_def review_of_def)

lemma reviewed_decided: "mp_Status (snd x) \<noteq> PropPending \<Longrightarrow> reviewed f i x = x"
  by (simp add: reviewed_def pending_row_def)

lemma policy_inv_update: "policy_inv db \<Longrightarrow> review_of f \<Longrightarrow> policy_inv (update_pending f i db)"
proof -
  assume a: "policy_inv db" "review_of f"
  have k: "fst (reviewed f i x) = fst x" "prop_id (reviewed f i x) = prop_id x" "proposal_ok (snd x) \<Longrightarrow> proposal_ok (snd (reviewed f i x))" for x
    using reviewed_keeps [OF a(2), of i x] by simp_all
  have "awf ((proposals db)\<lparr>arows := map (reviewed f i) (arows (proposals db))\<rparr>)"
    using a(1) by (intro awf_update k(1)) (simp add: policy_inv_def)
  moreover have "unique_keys prop_id (map (reviewed f i) (arows (proposals db)))"
    using a(1) unique_keys_map [where key = prop_id and f = "reviewed f i" and t = "arows (proposals db)", OF k(2)] by (simp only: policy_inv_def)
  moreover have "list_all (\<lambda>x. proposal_ok (snd x)) (map (reviewed f i) (arows (proposals db)))"
    using a(1) k(3) by (simp add: policy_inv_def list_all_iff)
  ultimately show ?thesis using a(1) unfolding policy_inv_def update_pending_rows by simp
qed

lemma policy_inv_submit: "policy_inv db \<Longrightarrow> policy_inv (snd (SubmitProposal flt ulow now1 now2 sub child parent content tier kind json db))"
  by (cases json) (auto simp: policy_inv_def SubmitProposal_def Let_def unique_keys_def proposal_ok_def tfind_None)

lemma policy_inv_step: "policy_inv db \<Longrightarrow> policy_inv (policy_step e db)"
proof (cases e)
  case (EvGrant flt now m a g)
  moreover assume "policy_inv db"
  ultimately show ?thesis by (simp add: policy_inv_def GrantReadACL_def)
next
  case (EvRevoke flt m a perm)
  moreover assume "policy_inv db"
  ultimately show ?thesis by (simp add: policy_inv_def RevokeACL_def)
qed (simp_all add: policy_inv_submit policy_inv_update AcceptProposal_def RejectProposal_def Let_def)

lemma decided_step:
  assumes "tfind prop_id i (arows (proposals db)) = Some x" "mp_Status (snd x) \<noteq> PropPending"
  shows "tfind prop_id i (arows (proposals (policy_step e db))) = Some x"
proof -
  have u: "tfind prop_id i (arows (proposals (update_pending f j db))) = Some x" if "review_of f" for f j
    using assms reviewed_keeps [OF that, of j] by (simp add: update_pending_rows tfind_map reviewed_decided)
  have a: "tfind prop_id i (arows (proposals db) @ ys) = Some x" for ys
    using assms(1) by (simp add: tfind_append)
  show ?thesis
  proof (cases e)
    case (EvSubmit flt ulow now1 now2 sub child parent content tier kind json)
    then show ?thesis using assms(1) a by (cases json) (simp_all add: SubmitProposal_def Let_def)
  qed (simp_all add: u assms(1) AcceptProposal_def RejectProposal_def Let_def)
qed

interpretation policy: machine policy_step policy_inv
  by unfold_locales (rule policy_inv_step)

interpretation decided: machine policy_step "\<lambda>db. tfind prop_id i (arows (proposals db)) = Some x \<and> mp_Status (snd x) \<noteq> PropPending" for i x
  by unfold_locales (simp add: decided_step)

section \<open>Properties\<close>

definition fresh_policy :: "item_row list \<Rightarrow> policy_db" where
  "fresh_policy its = \<lparr>items = its, grants = [], proposals = aempty\<rparr>"

lemma fresh_policy_facts [simp]:
  "items (fresh_policy its) = its" "read_grants (fresh_policy its) = {}" "policy_inv (fresh_policy its)"
  by (simp_all add: fresh_policy_def read_grants_def policy_inv_def aempty_def awf_def)

text \<open>
  C30. Access is exactly what was granted: after any sequence of grants, revocations and proposal calls,
  failed statements included, on a database without grants, an agent reaches a memory precisely when the
  memory is active and it was granted to the agent by a call that no successful read revocation followed, or
  it lies in the agent's workspace and its tier is in the agent's window, or it is the agent's own
  workspace memory; proposals never give access.
\<close>

theorem access_follows_grants:
  "AgentCanAccessMemory False (fold policy_step es (fresh_policy its)) memoryID agentID ws tiers = Inr (list_ex (\<lambda>m.
     it_MemoryID m = memoryID \<and> it_Active m = 1
     \<and> ((memoryID, agentID) \<in> fold grant_step es {}
       \<or> it_WorkspaceID m = ws \<and> (it_Tier m \<in> set tiers \<or> it_AgentID m = agentID \<and> it_Tier m = ''workspace''))) its)"
  using grants_sim.run_abs [OF TrueI, of es "fresh_policy its"] by (simp add: can_access_iff)

text \<open>
  The clause of \<open>ReadScopeSQL\<close> and \<open>AgentCanAccessMemory\<close> agree on the active rows when the
  window is not empty; with an empty window the clause hides explicitly granted rows too.
\<close>

lemma read_scope_agrees:
  assumes "unique_keys it_MemoryID (items db)" "m \<in> set (items db)" "it_Active m = 1" "aq_ReadTiers q \<noteq> []"
  shows "AgentCanAccessMemory False db (it_MemoryID m) (aq_AgentID q) (aq_WorkspaceID q) (aq_ReadTiers q) = Inr (ReadScopeSQL q (grants db) m)"
proof -
  let ?P = "\<lambda>x. (it_MemoryID m, aq_AgentID q) \<in> read_grants db
    \<or> it_WorkspaceID x = aq_WorkspaceID q \<and> (it_Tier x \<in> set (aq_ReadTiers q) \<or> it_AgentID x = aq_AgentID q \<and> it_Tier x = ''workspace'')"
  have "list_ex (\<lambda>x. it_MemoryID x = it_MemoryID m \<and> it_Active x = 1 \<and> ?P x) (items db) \<longleftrightarrow> ?P m"
    unfolding list_ex_iff using unique_keys_eq [OF assms(1) _ assms(2)] assms(2,3) by metis
  moreover have "ReadScopeSQL q (grants db) m \<longleftrightarrow> ?P m"
    using assms(4) unfolding ReadScopeSQL_def granted_iff by auto
  ultimately show ?thesis by (simp only: can_access_iff)
qed

lemma read_scope_empty_window: "aq_ReadTiers q = [] \<Longrightarrow> \<not> ReadScopeSQL q acl m"
  by (simp add: ReadScopeSQL_def)

lemma find_pending:
  assumes "policy_inv db"
  shows "list_ex (pending_row i) (arows (proposals db)) \<longleftrightarrow>
    (\<exists>x. tfind prop_id i (arows (proposals db)) = Some x \<and> mp_Status (snd x) = PropPending)"
proof
  assume "list_ex (pending_row i) (arows (proposals db))"
  then obtain x where x: "x \<in> set (arows (proposals db))" "prop_id x = i" "mp_Status (snd x) = PropPending"
    by (auto simp: list_ex_iff pending_row_def)
  moreover have "unique_keys prop_id (arows (proposals db))" using assms by (simp add: policy_inv_def)
  ultimately show "\<exists>x. tfind prop_id i (arows (proposals db)) = Some x \<and> mp_Status (snd x) = PropPending"
    using tfind_unique [of prop_id "arows (proposals db)" x] by auto
next
  assume "\<exists>x. tfind prop_id i (arows (proposals db)) = Some x \<and> mp_Status (snd x) = PropPending"
  then show "list_ex (pending_row i) (arows (proposals db))"
    by (auto simp: list_ex_iff pending_row_def dest!: tfind_Some intro!: bexI)
qed

lemma no_pending_of_decided:
  "tfind prop_id i (arows (proposals db)) = Some x \<Longrightarrow> mp_Status (snd x) \<noteq> PropPending \<Longrightarrow> policy_inv db \<Longrightarrow>
   \<not> list_ex (pending_row i) (arows (proposals db))"
  by (simp add: find_pending)

text \<open>
  A proposal is decided at most once: a successful acceptance found it pending and records the
  reviewer, the time and the committed memory; whatever calls follow, the stored proposal stays exactly that,
  and every further acceptance or rejection of it, by anyone, fails and changes nothing.
\<close>

theorem proposal_decided_once:
  assumes "policy_inv db" "AcceptProposal flt affected now i who m db = (None, db1)" "db2 = fold policy_step es db1"
  shows "\<exists>k p. GetProposal False i db = Inr (k, p) \<and> mp_Status p = PropPending
    \<and> GetProposal False i db2 = Inr (k, accept_row who (now div 1000000000) m p)
    \<and> AcceptProposal flt' affected' now' i who' m' db2 = (Some (if flt' \<or> affected' then PolicyDb else ProposalNotPending i), db2)
    \<and> RejectProposal flt' affected' now' i who' db2 = (Some (if flt' \<or> affected' then PolicyDb else ProposalNotPending i), db2)"
proof -
  let ?f = "accept_row who (now div 1000000000) m"
  have l: "list_ex (pending_row i) (arows (proposals db))" "db1 = update_pending ?f i db"
    using assms(2) by (auto simp: AcceptProposal_def Let_def split: if_splits)
  with find_pending [OF assms(1)] obtain k p where p: "tfind prop_id i (arows (proposals db)) = Some (k, p)" "mp_Status p = PropPending" by auto
  have i: "policy_inv db1" unfolding l(2) by (rule policy_inv_update [OF assms(1)]) simp
  have r: "prop_id (reviewed ?f i x) = prop_id x" for x using reviewed_keeps [of ?f i x] by simp
  have "reviewed ?f i (k, p) = (k, ?f p)" using tfind_Some [OF p(1)] p(2) by (simp add: reviewed_def pending_row_def)
  then have d: "tfind prop_id i (arows (proposals db1)) = Some (k, ?f p)"
    using tfind_map [where key = prop_id and f = "reviewed ?f i", OF r] p(1) by (simp add: l(2) update_pending_rows)
  have s: "mp_Status (?f p) \<noteq> PropPending" by (simp add: accept_row_def split: option.split)
  have d2: "tfind prop_id i (arows (proposals db2)) = Some (k, ?f p)" "policy_inv db2"
    using decided.run_inv [where i = i and x = "(k, ?f p)" and es = es and s = db1] policy.run_inv [OF i, of es] d s by (simp_all add: assms(3))
  have n: "\<not> list_ex (pending_row i) (arows (proposals db2))" using no_pending_of_decided [OF d2(1) _ d2(2)] s by simp
  then have u: "update_pending g i db2 = db2" for g
    by (simp add: update_pending_def list_ex_iff map_idI)
  show ?thesis
    using p d2(1) n by (intro exI [of _ k] exI [of _ p]) (simp add: GetProposal_def AcceptProposal_def RejectProposal_def u)
qed

theorem proposal_decided_once_witness:
  "fst (AcceptProposal False False 5 ''prop_c_7'' ''q'' None (fold policy_step [EvReject False False 4 ''prop_c_7'' ''r'']
      (snd (AcceptProposal False False 3 ''prop_c_7'' ''p'' (Some ''mem'') (fold policy_step
        [EvSubmit False (\<lambda>s. s) 7 7 ''s'' ''c'' ''p'' ''x'' ''task'' ''fact'' (Some ''{}'')] (fresh_policy []))))))
   = Some (ProposalNotPending ''prop_c_7'')"
proof -
  let ?db = "fold policy_step [EvSubmit False (\<lambda>s. s) 7 7 ''s'' ''c'' ''p'' ''x'' ''task'' ''fact'' (Some ''{}'')] (fresh_policy [])"
  have "policy_inv ?db" by (rule policy.run_inv) simp
  moreover have "fst (AcceptProposal False False 3 ''prop_c_7'' ''p'' (Some ''mem'') ?db) = None" by code_simp
  then have "AcceptProposal False False 3 ''prop_c_7'' ''p'' (Some ''mem'') ?db = (None, snd (AcceptProposal False False 3 ''prop_c_7'' ''p'' (Some ''mem'') ?db))"
    by (metis prod.collapse)
  ultimately show ?thesis
    using proposal_decided_once [OF _ _ refl, of ?db False False 3 "''prop_c_7''" "''p''" "Some ''mem''" _
        "[EvReject False False 4 ''prop_c_7'' ''r'']" False False 5 "''q''" None] by fastforce
qed

end
