(* ===== verification/GoRegex.thy ===== *)
theory GoRegex
  imports Prelude
begin

text \<open>
  The part of Go's \<open>regexp\<close> that the redaction rules use: leftmost matches with the preferences of
  Perl (earlier alternatives, greedy and lazy repetition), the ASCII word boundary, case folding, and
  \<open>ReplaceAllStringFunc\<close>.  Texts are byte strings.  A cursor is the byte before the position and the
  bytes after it; \<open>ends\<close> lists the cursors at which a match can end, the preferred one first.
  Repetitions are of expressions that match no empty string.
\<close>

section \<open>Matching\<close>

datatype rx =
    RxEps
  | RxByte "char \<Rightarrow> bool"
  | RxSeq rx rx
  | RxAlt rx rx
  | RxStar rx
  | RxLazy rx
  | RxBoundary

type_synonym cursor = "char option \<times> string"

definition word_byte :: "char \<Rightarrow> bool" where
  "word_byte c \<longleftrightarrow> 48 \<le> byte c \<and> byte c \<le> 57 \<or> 65 \<le> byte c \<and> byte c \<le> 90 \<or> 97 \<le> byte c \<and> byte c \<le> 122 \<or> c = CHR ''_''"

definition at_boundary :: "cursor \<Rightarrow> bool" where
  "at_boundary x \<longleftrightarrow> (case fst x of None \<Rightarrow> False | Some p \<Rightarrow> word_byte p)
     \<noteq> (case snd x of [] \<Rightarrow> False | c # _ \<Rightarrow> word_byte c)"

text \<open>Repetition; every round consumes a byte, so as many rounds as bytes are enough.\<close>

fun star_ends :: "nat \<Rightarrow> (cursor \<Rightarrow> cursor list) \<Rightarrow> cursor \<Rightarrow> cursor list" where
  "star_ends 0 m x = [x]"
| "star_ends (Suc n) m x =
     concat (map (\<lambda>y. if length (snd y) < length (snd x) then star_ends n m y else []) (m x)) @ [x]"

fun lazy_ends :: "nat \<Rightarrow> (cursor \<Rightarrow> cursor list) \<Rightarrow> cursor \<Rightarrow> cursor list" where
  "lazy_ends 0 m x = [x]"
| "lazy_ends (Suc n) m x =
     x # concat (map (\<lambda>y. if length (snd y) < length (snd x) then lazy_ends n m y else []) (m x))"

primrec ends :: "rx \<Rightarrow> cursor \<Rightarrow> cursor list" where
  "ends RxEps = (\<lambda>x. [x])"
| "ends (RxByte P) = (\<lambda>x. case snd x of [] \<Rightarrow> [] | c # s \<Rightarrow> if P c then [(Some c, s)] else [])"
| "ends (RxSeq a b) = (\<lambda>x. concat (map (ends b) (ends a x)))"
| "ends (RxAlt a b) = (\<lambda>x. ends a x @ ends b x)"
| "ends (RxStar a) = (\<lambda>x. star_ends (length (snd x)) (ends a) x)"
| "ends (RxLazy a) = (\<lambda>x. lazy_ends (length (snd x)) (ends a) x)"
| "ends RxBoundary = (\<lambda>x. if at_boundary x then [x] else [])"

section \<open>Expressions\<close>

text \<open>
  A literal, a literal under \<open>(?i)\<close>, and \<open>x+\<close>.  Case folding of \<open>s\<close> and \<open>k\<close> reaches the runes U+017F and
  U+212A, whose encodings are spelled out.
\<close>

fun rx_seq :: "rx list \<Rightarrow> rx" where
  "rx_seq [] = RxEps"
| "rx_seq (r # rs) = RxSeq r (rx_seq rs)"

definition rx_lit :: "string \<Rightarrow> rx" where
  "rx_lit w = rx_seq (map (\<lambda>c. RxByte (\<lambda>x. x = c)) w)"

definition long_s :: rx where
  "long_s = rx_lit [char_of (197 :: nat), char_of (191 :: nat)]"

definition kelvin :: rx where
  "kelvin = rx_lit [char_of (226 :: nat), char_of (132 :: nat), char_of (170 :: nat)]"

definition rx_fold :: "char \<Rightarrow> rx" where
  "rx_fold c = (let b = RxByte (\<lambda>x. ascii_lower x = c) in
     if c = CHR ''s'' then RxAlt b long_s else if c = CHR ''k'' then RxAlt b kelvin else b)"

definition rx_lit_fold :: "string \<Rightarrow> rx" where
  "rx_lit_fold w = rx_seq (map rx_fold w)"

fun rx_alts :: "rx list \<Rightarrow> rx" where
  "rx_alts [] = RxByte (\<lambda>_. False)"
| "rx_alts [r] = r"
| "rx_alts (r # rs) = RxAlt r (rx_alts rs)"

definition rx_plus :: "rx \<Rightarrow> rx" where
  "rx_plus r = RxSeq r (RxStar r)"

definition rx_any :: rx where
  "rx_any = RxByte (\<lambda>_. True)"

text \<open>\<open>\s\<close>.\<close>

definition rx_space_byte :: "char \<Rightarrow> bool" where
  "rx_space_byte c \<longleftrightarrow> byte c \<in> {9, 10, 12, 13, 32}"

section \<open>Replacing\<close>

text \<open>
  \<open>ReplaceAllStringFunc\<close> for an expression that matches no empty string: the matches are found from left
  to right and do not overlap; the result counts them.
\<close>

function replace_all :: "rx \<Rightarrow> (string \<Rightarrow> string) \<Rightarrow> cursor \<Rightarrow> string \<times> nat" where
  "replace_all r f (p, s) =
     (case s of
        [] \<Rightarrow> ([], 0)
      | c # t \<Rightarrow>
          (case ends r (p, s) of
             (q, u) # _ \<Rightarrow>
               if length u < length s then (let (out, n) = replace_all r f (q, u) in (f (take (length s - length u) s) @ out, Suc n))
               else (let (out, n) = replace_all r f (Some c, t) in (c # out, n))
           | [] \<Rightarrow> (let (out, n) = replace_all r f (Some c, t) in (c # out, n))))"
  by pat_completeness auto
termination
  by (relation "measure (\<lambda>(r, f, p, s). length s)") auto

declare replace_all.simps [simp del]

definition ReplaceAllStringFunc :: "rx \<Rightarrow> (string \<Rightarrow> string) \<Rightarrow> string \<Rightarrow> string \<times> nat" where
  "ReplaceAllStringFunc r f s = replace_all r f (None, s)"

end
