(* ===== verification/Redaction.thy ===== *)
theory Redaction
  imports GoRegex "HOL-Library.Sublist"
begin

text \<open>
  Redaction of observations (\<open>redactObservationString\<close> of \<open>internal/observationlog/log.go\<close>): six
  expressions are replaced one after the other, each match by a marker that names the rule; a secret
  field of a JSON text keeps the text of the match up to its first colon.  The first rule is
  proved equal to a scan that cuts every span between private tags, and no span survives.
\<close>

section \<open>The rules\<close>

record redactionRule =
  rr_kind :: string
  rr_re :: rx

text \<open>\<open>(?is)<private>.*?</private>\<close>\<close>

definition private_re :: rx where
  "private_re = RxSeq (rx_lit_fold ''<private>'') (RxSeq (RxLazy rx_any) (rx_lit_fold ''</private>''))"

text \<open>\<open>(?s)-----BEGIN [A-Z ]*PRIVATE KEY-----.*?-----END [A-Z ]*PRIVATE KEY-----\<close>\<close>

definition pem_label :: rx where
  "pem_label = RxStar (RxByte (\<lambda>c. 65 \<le> byte c \<and> byte c \<le> 90 \<or> c = CHR '' ''))"

definition pem_re :: rx where
  "pem_re = rx_seq [rx_lit ''-----BEGIN '', pem_label, rx_lit ''PRIVATE KEY-----'', RxLazy rx_any,
     rx_lit ''-----END '', pem_label, rx_lit ''PRIVATE KEY-----'']"

text \<open>\<open>(?i)Authorization:\s*Bearer\s+[^\s\r\n]+\<close>\<close>

definition spaces :: rx where
  "spaces = RxStar (RxByte rx_space_byte)"

definition non_spaces :: rx where
  "non_spaces = rx_plus (RxByte (\<lambda>c. \<not> rx_space_byte c))"

definition authorization_re :: rx where
  "authorization_re = rx_seq [rx_lit_fold ''authorization:'', spaces, rx_lit_fold ''bearer'', rx_plus (RxByte rx_space_byte), non_spaces]"

text \<open>\<open>(?i)"([^"]*(?:secret|token|password|api_key|private_key|authorization)[^"]*)"\s*:\s*"[^"]*"\<close>\<close>

definition dquote :: char where
  "dquote = CHR 0x22"

definition non_quotes :: rx where
  "non_quotes = RxStar (RxByte (\<lambda>c. c \<noteq> dquote))"

definition json_secret_re :: rx where
  "json_secret_re = rx_seq [rx_lit [dquote], non_quotes,
     rx_alts (map rx_lit_fold [''secret'', ''token'', ''password'', ''api_key'', ''private_key'', ''authorization'']),
     non_quotes, rx_lit [dquote], spaces, rx_lit '':'', spaces, rx_lit [dquote], non_quotes, rx_lit [dquote]]"

text \<open>\<open>(?im)\b[A-Z0-9_]*(?:SECRET|TOKEN|PASSWORD|API_KEY|PRIVATE_KEY)[A-Z0-9_]*\s*=\s*[^\s\r\n]+\<close>\<close>

definition env_name :: rx where
  "env_name = RxStar (rx_alts [RxByte word_byte, long_s, kelvin])"

definition env_secret_re :: rx where
  "env_secret_re = rx_seq [RxBoundary, env_name,
     rx_alts (map rx_lit_fold [''secret'', ''token'', ''password'', ''api_key'', ''private_key'']),
     env_name, spaces, rx_lit ''='', spaces, non_spaces]"

text \<open>\<open>\b(?:sk-[A-Za-z0-9_-]+|ghp_[A-Za-z0-9_]+|github_pat_[A-Za-z0-9_]+)\b\<close>\<close>

definition api_key_re :: rx where
  "api_key_re = rx_seq [RxBoundary,
     rx_alts [RxSeq (rx_lit ''sk-'') (rx_plus (RxByte (\<lambda>c. word_byte c \<or> c = CHR ''-''))),
       RxSeq (rx_lit ''ghp_'') (rx_plus (RxByte word_byte)),
       RxSeq (rx_lit ''github_pat_'') (rx_plus (RxByte word_byte))],
     RxBoundary]"

definition observationRedactionRules :: "redactionRule list" where
  "observationRedactionRules =
     [\<lparr>rr_kind = ''private'', rr_re = private_re\<rparr>,
      \<lparr>rr_kind = ''pem_private_key'', rr_re = pem_re\<rparr>,
      \<lparr>rr_kind = ''authorization'', rr_re = authorization_re\<rparr>,
      \<lparr>rr_kind = ''json_secret'', rr_re = json_secret_re\<rparr>,
      \<lparr>rr_kind = ''env_secret'', rr_re = env_secret_re\<rparr>,
      \<lparr>rr_kind = ''api_key'', rr_re = api_key_re\<rparr>]"

text \<open>The replacement of one match; \<open>strings.SplitN(match, ":", 2)\<close> splits at the first colon.\<close>

definition redacted :: "string \<Rightarrow> string \<Rightarrow> string" where
  "redacted kind match =
     (if kind = ''json_secret'' \<and> CHR '':'' \<in> set match
      then takeWhile (\<lambda>c. c \<noteq> CHR '':'') match @ '':'' @ [dquote] @ ''[REDACTED:json_secret]'' @ [dquote]
      else ''[REDACTED:'' @ kind @ '']'')"

text \<open>One rule of the loop: the text, the number of redactions and their kinds so far.\<close>

definition redact_rule :: "redactionRule \<Rightarrow> string \<times> nat \<times> string list \<Rightarrow> string \<times> nat \<times> string list" where
  "redact_rule rule st = (case st of (v, n, kinds) \<Rightarrow>
     let (v', count) = ReplaceAllStringFunc (rr_re rule) (redacted (rr_kind rule)) v in
     (v', n + count, kinds @ replicate count (rr_kind rule)))"

definition redactObservationString :: "string \<Rightarrow> string \<times> nat \<times> string list" where
  "redactObservationString value = fold redact_rule observationRedactionRules (value, 0, [])"

section \<open>Cut texts\<close>

text \<open>
  \<open>cut s t\<close>: \<open>t\<close> arises from \<open>s\<close> by replacing some pieces by markers; a marker begins with a bracket or a
  colon and has no angle bracket.
\<close>

definition marker :: "string \<Rightarrow> bool" where
  "marker m \<longleftrightarrow> (\<exists>c u. m = c # u \<and> c \<in> {CHR ''['', CHR '':''}) \<and> CHR ''<'' \<notin> set m"

inductive cut :: "string \<Rightarrow> string \<Rightarrow> bool" where
  cut_Nil: "cut [] []"
| cut_copy: "cut s t \<Longrightarrow> cut (c # s) (c # t)"
| cut_marker: "marker m \<Longrightarrow> cut s t \<Longrightarrow> cut (d @ s) (m @ t)"

inductive_cases cut_Nil_rightE: "cut s []"

text \<open>A tag begins with an angle bracket and has no character that begins a marker.\<close>

definition tag :: "string \<Rightarrow> bool" where
  "tag w \<longleftrightarrow> (\<exists>u. w = CHR ''<'' # u) \<and> CHR ''['' \<notin> set w \<and> CHR '':'' \<notin> set w"

lemma cut_refl: "cut s s"
  by (induction s) (auto intro: cut.intros)

lemma cut_append: "cut s t \<Longrightarrow> cut (u @ s) (u @ t)"
  by (induction u) (auto intro: cut.intros)

lemma lower_bracket: "ascii_lower c = CHR ''<'' \<longleftrightarrow> c = CHR ''<''"
proof
  assume "ascii_lower c = CHR ''<''"
  then have "byte (ascii_lower c) = byte (CHR ''<'')" by (simp only:)
  moreover have "byte (CHR ''<'') = 60" by (simp add: byte_def)
  ultimately have "byte c = byte (CHR ''<'')" using byte_ascii_lower [of c] by (simp split: if_splits)
  then show "c = CHR ''<''" unfolding byte_def of_char_eq_iff .
qed (simp add: ascii_lower_def byte_def)

lemma marker_lower: "marker m \<Longrightarrow> marker (map ascii_lower m)"
proof -
  assume m: "marker m"
  then have "CHR ''<'' \<notin> set (map ascii_lower m)" by (auto simp: marker_def lower_bracket dest: sym)
  moreover obtain c u where "m = c # u" "c \<in> {CHR ''['', CHR '':''}" using m by (auto simp: marker_def)
  moreover from this(2) have "ascii_lower c = c" by (auto simp: ascii_lower_def byte_def)
  ultimately show ?thesis by (auto simp: marker_def)
qed

lemma cut_lower: "cut s t \<Longrightarrow> cut (map ascii_lower s) (map ascii_lower t)"
  by (induction rule: cut.induct) (auto intro: cut.intros marker_lower)

text \<open>A marker-free prefix of the result, and an occurrence of a tag in it, come from the text.\<close>

lemma cut_prefix:
  assumes "cut s t" "t = w @ b" "CHR ''['' \<notin> set w" "CHR '':'' \<notin> set w"
  shows "\<exists>s'. s = w @ s' \<and> cut s' b"
  using assms
proof (induction arbitrary: w rule: cut.induct)
  case (cut_copy s t c)
  then show ?case by (cases w) (auto intro: cut.cut_copy)
next
  case (cut_marker m s t d)
  then show ?case by (cases w) (auto simp: marker_def intro: cut.cut_marker)
qed (auto intro: cut.cut_Nil)

lemma cut_tag:
  assumes "cut s t" "t = a @ w @ b" "tag w"
  shows "\<exists>a' b'. s = a' @ w @ b' \<and> cut b' b"
  using assms
proof (induction arbitrary: a rule: cut.induct)
  case cut_Nil
  then show ?case by (simp add: tag_def)
next
  case (cut_copy s t c)
  show ?case
  proof (cases a)
    case Nil
    with cut_copy.prems cut_prefix [where w = w and b = b, OF cut.cut_copy [where c = c, OF cut_copy.hyps(1)]] show ?thesis
      by (fastforce simp: tag_def intro: exI [of _ "[]"])
  next
    case (Cons x a2)
    with cut_copy.prems have "t = a2 @ w @ b" by simp
    from cut_copy.IH [OF this cut_copy.prems(2)] obtain a' b' where "s = a' @ w @ b'" "cut b' b" by blast
    then show ?thesis by (metis append_Cons)
  qed
next
  case (cut_marker m s t d)
  obtain u where u: "w = CHR ''<'' # u" using cut_marker.prems(2) by (auto simp: tag_def)
  have "length m \<le> length a"
  proof (rule ccontr)
    assume "\<not> length m \<le> length a"
    then have "(m @ t) ! length a \<in> set m" by (simp add: nth_append)
    then show False using cut_marker.prems(1) cut_marker.hyps(1) u by (simp add: marker_def)
  qed
  with cut_marker.prems(1) have "a = m @ drop (length m) a" by (metis append_eq_append_conv_if append_take_drop_id)
  with cut_marker.prems(1) have "t = drop (length m) a @ w @ b" by (metis append.assoc same_append_eq)
  from cut_marker.IH [OF this cut_marker.prems(2)] obtain a' b' where "s = a' @ w @ b'" "cut b' b" by blast
  then show ?case by (metis append.assoc)
qed

section \<open>Replacing cuts\<close>

lemma replace_all_Nil [simp]: "replace_all r f (p, []) = ([], 0)"
  by (simp add: replace_all.simps)

text \<open>The three ways of a step: no match, an empty match, a match.\<close>

lemma replace_all_Cons:
  "replace_all r f (p, c # t) =
     (case ends r (p, c # t) of
        (q, u) # _ \<Rightarrow> if length u < length (c # t)
          then (f (take (length (c # t) - length u) (c # t)) @ fst (replace_all r f (q, u)), Suc (snd (replace_all r f (q, u))))
          else (c # fst (replace_all r f (Some c, t)), snd (replace_all r f (Some c, t)))
      | [] \<Rightarrow> (c # fst (replace_all r f (Some c, t)), snd (replace_all r f (Some c, t))))"
  by (subst replace_all.simps) (simp add: split_def Let_def split: list.split)

text \<open>Every cursor a match ends at is a suffix of the text it begins in.\<close>

lemma star_ends_suffix:
  assumes "\<And>x y. y \<in> set (m x) \<Longrightarrow> suffix (snd y) (snd x)"
  shows "y \<in> set (star_ends n m x) \<Longrightarrow> suffix (snd y) (snd x)"
proof (induction n arbitrary: x)
  case (Suc n)
  then consider "y = x" | z where "z \<in> set (m x)" "y \<in> set (star_ends n m z)" by (auto split: if_splits)
  then show ?case by cases (use assms Suc.IH suffix_order.trans in blast)+
qed simp

lemma lazy_ends_suffix:
  assumes "\<And>x y. y \<in> set (m x) \<Longrightarrow> suffix (snd y) (snd x)"
  shows "y \<in> set (lazy_ends n m x) \<Longrightarrow> suffix (snd y) (snd x)"
proof (induction n arbitrary: x)
  case (Suc n)
  then consider "y = x" | z where "z \<in> set (m x)" "y \<in> set (lazy_ends n m z)" by (auto split: if_splits)
  then show ?case by cases (use assms Suc.IH suffix_order.trans in blast)+
qed simp

lemma ends_suffix: "y \<in> set (ends r x) \<Longrightarrow> suffix (snd y) (snd x)"
proof (induction r arbitrary: x y)
  case (RxByte P)
  then show ?case by (cases "snd x") (auto split: if_splits simp: suffix_Cons)
next
  case (RxSeq a b)
  from RxSeq.prems obtain z where "z \<in> set (ends a x)" "y \<in> set (ends b z)" by auto
  with RxSeq.IH(1) [of z x] RxSeq.IH(2) [of y z] show ?case using suffix_order.trans by blast
next
  case (RxStar a)
  then show ?case by (simp only: ends.simps) (rule star_ends_suffix)
next
  case (RxLazy a)
  then show ?case by (simp only: ends.simps) (rule lazy_ends_suffix)
qed (auto split: if_splits)

definition marks :: "(string \<Rightarrow> string) \<Rightarrow> bool" where
  "marks f \<longleftrightarrow> (\<forall>d. \<exists>u e m. d = u @ e \<and> f d = u @ m \<and> marker m)"

lemma cut_replace: "marks f \<Longrightarrow> cut (snd x) (fst (replace_all r f x))"
proof (induction x rule: measure_induct_rule [where f = "\<lambda>x. length (snd x)"])
  case (less x0)
  obtain p s where x0: "x0 = (p, s)" by fastforce
  show ?case unfolding x0
  proof (cases s)
    case Nil
    then show "cut (snd (p, s)) (fst (replace_all r f (p, s)))" by (simp add: cut.cut_Nil)
  next
    case (Cons c t)
    note IH = less.IH [OF _ less.prems, unfolded x0]
    have "cut t (fst (replace_all r f (Some c, t)))" using IH [of "(Some c, t)"] Cons by simp
    then have copy: "cut (c # t) (c # fst (replace_all r f (Some c, t)))" by (rule cut.cut_copy)
    show "cut (snd (p, s)) (fst (replace_all r f (p, s)))"
    proof (cases "ends r (p, s)")
      case Nil
      with Cons copy show ?thesis by (simp add: replace_all_Cons)
    next
      fix x xs assume x: "ends r (p, s) = x # xs"
      obtain q u where qu: "x = (q, u)" by fastforce
      show ?thesis
      proof (cases "length u < length s")
        case False
        with Cons x qu copy show ?thesis by (simp add: replace_all_Cons)
      next
        case True
        let ?d = "take (length s - length u) s"
        obtain d' where d': "s = d' @ u" using ends_suffix [of x r "(p, s)"] x qu by (auto simp: suffix_def)
        then have s: "s = ?d @ u" by simp
        obtain v e m where m: "?d = v @ e" "f ?d = v @ m" "marker m" using less.prems by (meson marks_def)
        have "cut u (fst (replace_all r f (q, u)))" using IH [of "(q, u)"] True by simp
        then have "cut (v @ e @ u) (v @ m @ fst (replace_all r f (q, u)))"
          by (intro cut_append cut.cut_marker m(3))
        moreover have "s = v @ e @ u" using s m(1) by (metis append.assoc)
        moreover have "fst (replace_all r f (p, s)) = v @ m @ fst (replace_all r f (q, u))"
          using x qu True m(2) Cons by (simp add: replace_all_Cons)
        ultimately show ?thesis by simp
      qed
    qed
  qed
qed

section \<open>Private spans\<close>

text \<open>A span: an opening tag and, somewhere after it, a closing tag, in any case.\<close>

definition private_span :: "string \<Rightarrow> bool" where
  "private_span s \<longleftrightarrow> (\<exists>a b c. map ascii_lower s = a @ ''<private>'' @ b @ ''</private>'' @ c)"

lemma tags: "tag ''<private>''" "tag ''</private>''"
  by (simp_all add: tag_def)

lemma cut_span: "cut s t \<Longrightarrow> private_span t \<Longrightarrow> private_span s"
proof -
  assume c: "cut s t" and "private_span t"
  then obtain a b d where t: "map ascii_lower t = a @ ''<private>'' @ b @ ''</private>'' @ d" by (auto simp: private_span_def)
  from cut_tag [OF cut_lower [OF c] t tags(1)] obtain a' b' where
    s: "map ascii_lower s = a' @ ''<private>'' @ b'" and c': "cut b' (b @ ''</private>'' @ d)" by blast
  from cut_tag [OF c' refl tags(2)] obtain e b2 where "b' = e @ ''</private>'' @ b2" by blast
  with s show ?thesis unfolding private_span_def by blast
qed

lemma lit_fold_ends: "map ascii_lower s = w @ z \<Longrightarrow> \<exists>q. (q, drop (length w) s) \<in> set (ends (rx_lit_fold w) (p, s))"
proof (induction w arbitrary: s p)
  case Nil
  then show ?case by (simp add: rx_lit_fold_def)
next
  case (Cons c w)
  then obtain x t where s: "s = x # t" "ascii_lower x = c" "map ascii_lower t = w @ z" by (cases s) auto
  have "(Some x, t) \<in> set (ends (rx_fold c) (p, s))" using s by (simp add: rx_fold_def Let_def)
  moreover obtain q where "(q, drop (length w) t) \<in> set (ends (rx_lit_fold w) (Some x, t))" using Cons.IH [OF s(3)] by blast
  ultimately show ?case unfolding s(1) by (intro exI [of _ q]) (auto simp: rx_lit_fold_def intro!: bexI)
qed

lemma lazy_any_ends: "k \<le> length s \<Longrightarrow> \<exists>q. (q, drop k s) \<in> set (ends (RxLazy rx_any) (p, s))"
proof (induction s arbitrary: p k)
  case (Cons c s)
  show ?case
  proof (cases k)
    case (Suc j)
    with Cons.IH [of j "Some c"] Cons.prems obtain q where "(q, drop j s) \<in> set (ends (RxLazy rx_any) (Some c, s))" by auto
    with Suc show ?thesis by (intro exI [of _ q]) (simp add: rx_any_def)
  qed (intro exI [of _ p], simp)
qed simp

lemma seq_ends: "y \<in> set (ends (RxSeq a b) x) \<longleftrightarrow> (\<exists>z \<in> set (ends a x). y \<in> set (ends b z))"
  by simp

lemma private_matches:
  assumes "map ascii_lower s = ''<private>'' @ b @ ''</private>'' @ c"
  shows "ends private_re (p, s) \<noteq> []"
proof -
  define s2 where "s2 = drop (length ''<private>'') s"
  from lit_fold_ends [OF assms, of p] obtain q1 where 1: "(q1, s2) \<in> set (ends (rx_lit_fold ''<private>'') (p, s))"
    unfolding s2_def by blast
  have d: "map ascii_lower s2 = b @ ''</private>'' @ c" unfolding s2_def drop_map [symmetric] assms by simp
  have "length b \<le> length s2" using arg_cong [OF d, of length] by simp
  from lazy_any_ends [OF this, of q1] obtain q2 where 2: "(q2, drop (length b) s2) \<in> set (ends (RxLazy rx_any) (q1, s2))" by blast
  have "map ascii_lower (drop (length b) s2) = ''</private>'' @ c" unfolding drop_map [symmetric] d by simp
  from lit_fold_ends [OF this, of q2] obtain y where 3: "y \<in> set (ends (rx_lit_fold ''</private>'') (q2, drop (length b) s2))" by blast
  have "y \<in> set (ends private_re (p, s))" unfolding private_re_def seq_ends using 1 2 3 by blast
  then show ?thesis by auto
qed

lemma private_progress: "y \<in> set (ends private_re (p, s)) \<Longrightarrow> length (snd y) < length s"
proof -
  assume y: "y \<in> set (ends private_re (p, s))"
  obtain P r where r: "rx_lit_fold ''<private>'' = RxSeq (RxByte P) r" by (simp add: rx_lit_fold_def rx_fold_def)
  from y obtain z w where z: "z \<in> set (ends (RxByte P) (p, s))" "w \<in> set (ends r z)"
    "y \<in> set (ends (RxSeq (RxLazy rx_any) (rx_lit_fold ''</private>'')) w)"
    unfolding private_re_def r by (subst (asm) seq_ends, elim bexE, subst (asm) (2) seq_ends) blast
  from z(1) have "length (snd z) < length s" by (cases s) (auto split: if_splits)
  moreover have "length (snd w) \<le> length (snd z)" "length (snd y) \<le> length (snd w)"
    using ends_suffix [OF z(2)] ends_suffix [OF z(3)] by (auto dest: suffix_length_le)
  ultimately show ?thesis by simp
qed

lemma private_removed:
  assumes f: "\<And>d. marker (f d)"
  shows "\<not> private_span (fst (replace_all private_re f x))"
proof (induction x rule: measure_induct_rule [where f = "\<lambda>x. length (snd x)"])
  case (less x0)
  have m: "marks f" using f by (auto simp: marks_def intro: exI [of _ "[]"])
  obtain p s where x0: "x0 = (p, s)" by fastforce
  note IH = less.IH [unfolded x0]
  show ?case unfolding x0
  proof (cases s)
    case Nil
    then show "\<not> private_span (fst (replace_all private_re f (p, s)))" by (simp add: private_span_def)
  next
    case (Cons c t)
    let ?o = "fst (replace_all private_re f (Some c, t))"
    have copy: "\<not> private_span (c # ?o)" if "ends private_re (p, s) = []"
    proof
      assume "private_span (c # ?o)"
      then obtain a b d where o: "map ascii_lower (c # ?o) = a @ ''<private>'' @ b @ ''</private>'' @ d" by (auto simp: private_span_def)
      have "a = []" using IH [of "(Some c, t)"] Cons o by (cases a) (auto simp: private_span_def)
      have "cut (map ascii_lower s) (map ascii_lower (c # ?o))"
        using cut.cut_copy [OF cut_replace [OF m, of "(Some c, t)"], of c] Cons by (intro cut_lower) simp
      from cut_prefix [OF this o [unfolded \<open>a = []\<close> append_Nil]] obtain s' where
        s': "map ascii_lower s = ''<private>'' @ s'" "cut s' (b @ ''</private>'' @ d)" by auto
      from cut_tag [OF s'(2) refl tags(2)] obtain e b2 where "s' = e @ ''</private>'' @ b2" by blast
      with s'(1) private_matches that show False by blast
    qed
    show "\<not> private_span (fst (replace_all private_re f (p, s)))"
    proof (cases "ends private_re (p, s)")
      case Nil
      with copy Cons show ?thesis by (simp add: replace_all_Cons)
    next
      fix y ys assume y: "ends private_re (p, s) = y # ys"
      obtain q u where qu: "y = (q, u)" by fastforce
      have lt: "length u < length s" using private_progress [of y p s] y qu by simp
      let ?r = "fst (replace_all private_re f (q, u))"
      have r: "fst (replace_all private_re f (p, s)) = f (take (length s - length u) s) @ ?r"
        using y qu lt Cons by (simp add: replace_all_Cons)
      show ?thesis unfolding r
      proof
        assume "private_span (f (take (length s - length u) s) @ ?r)"
        moreover have "cut ?r (f (take (length s - length u) s) @ ?r)" using cut.cut_marker [where d = "[]", OF f cut_refl] by simp
        ultimately show False using cut_span IH [of "(q, u)"] lt by auto
      qed
    qed
  qed
qed

section \<open>The whole redaction\<close>

lemma marks_redacted: "CHR ''<'' \<notin> set kind \<Longrightarrow> marks (redacted kind)"
proof -
  assume k: "CHR ''<'' \<notin> set kind"
  have "\<exists>u e m. d = u @ e \<and> redacted kind d = u @ m \<and> marker m" for d
  proof (cases "kind = ''json_secret'' \<and> CHR '':'' \<in> set d")
    case True
    then show ?thesis
      by (intro exI [of _ "takeWhile (\<lambda>c. c \<noteq> CHR '':'') d"] exI [of _ "dropWhile (\<lambda>c. c \<noteq> CHR '':'') d"]
        exI [of _ "'':'' @ [dquote] @ ''[REDACTED:json_secret]'' @ [dquote]"]) (simp add: redacted_def marker_def dquote_def)
  next
    case False
    with k show ?thesis
      by (intro exI [of _ "[]"] exI [of _ d] exI [of _ "''[REDACTED:'' @ kind @ '']''"]) (auto simp: redacted_def marker_def)
  qed
  then show ?thesis by (simp add: marks_def)
qed

definition redact_text :: "redactionRule \<Rightarrow> string \<Rightarrow> string" where
  "redact_text rule s = fst (ReplaceAllStringFunc (rr_re rule) (redacted (rr_kind rule)) s)"

lemma fst_redact_rule: "fst (redact_rule rule st) = redact_text rule (fst st)"
  by (simp add: redact_rule_def redact_text_def split_def Let_def)

lemma fst_redact_fold: "fst (fold redact_rule rules st) = fold redact_text rules (fst st)"
  by (induction rules arbitrary: st) (simp_all add: fst_redact_rule)

lemma span_redact_text: "CHR ''<'' \<notin> set (rr_kind rule) \<Longrightarrow> \<not> private_span s \<Longrightarrow> \<not> private_span (redact_text rule s)"
  using cut_span [OF cut_replace [where r = "rr_re rule" and x = "(None, s)", OF marks_redacted [where kind = "rr_kind rule"]]]
  by (auto simp: redact_text_def ReplaceAllStringFunc_def)

lemma span_redact_fold:
  "list_all (\<lambda>rule. CHR ''<'' \<notin> set (rr_kind rule)) rules \<Longrightarrow> \<not> private_span s \<Longrightarrow> \<not> private_span (fold redact_text rules s)"
  by (induction rules arbitrary: s) (simp_all add: span_redact_text)

lemma span_private_rule: "\<not> private_span (redact_text \<lparr>rr_kind = ''private'', rr_re = private_re\<rparr> s)"
  unfolding redact_text_def ReplaceAllStringFunc_def
  by (simp, rule private_removed) (simp add: redacted_def marker_def)

lemma redact_kinds_fold:
  "fst (snd st) = length (snd (snd st)) \<Longrightarrow> fst (snd (fold redact_rule rules st)) = length (snd (snd (fold redact_rule rules st)))"
  by (induction rules arbitrary: st) (auto simp: redact_rule_def split_def Let_def)

lemma private_spans_removed_span: "\<not> private_span (fst (redactObservationString s))"
proof -
  let ?rest = "tl observationRedactionRules"
  have r: "fold redact_text observationRedactionRules s = fold redact_text ?rest (redact_text \<lparr>rr_kind = ''private'', rr_re = private_re\<rparr> s)"
    by (simp add: observationRedactionRules_def)
  have "list_all (\<lambda>rule. CHR ''<'' \<notin> set (rr_kind rule)) ?rest" by (simp add: observationRedactionRules_def)
  from span_redact_fold [OF this span_private_rule, of s] show ?thesis
    unfolding redactObservationString_def fst_redact_fold fst_conv r .
qed

section \<open>What the rule for private spans keeps\<close>

text \<open>
  A specification without expressions.  A span begins at an opening tag and ends with the first closing
  tag after it; \<open>after_closing\<close> is the text after the first closing tag.  \<open>without_private\<close> scans a text
  from the left, replaces every span by the marker and goes on after the span; an opening tag that no
  closing tag follows is text like any other.
\<close>

definition opens_tag :: "string \<Rightarrow> bool" where
  "opens_tag s \<longleftrightarrow> map ascii_lower (take 9 s) = ''<private>''"

definition closes_tag :: "string \<Rightarrow> bool" where
  "closes_tag s \<longleftrightarrow> map ascii_lower (take 10 s) = ''</private>''"

fun after_closing :: "string \<Rightarrow> string option" where
  "after_closing [] = None"
| "after_closing (c # s) = (if closes_tag (c # s) then Some (drop 10 (c # s)) else after_closing s)"

definition after_span :: "string \<Rightarrow> string option" where
  "after_span s = (if opens_tag s then after_closing (drop 9 s) else None)"

lemma after_closing_length: "after_closing s = Some u \<Longrightarrow> length u < length s"
  by (induction s rule: after_closing.induct) (auto split: if_splits)

lemma after_span_length: "after_span s = Some u \<Longrightarrow> length u < length s"
  by (auto simp: after_span_def split: if_splits dest: after_closing_length)

function without_private :: "string \<Rightarrow> string \<times> nat" where
  "without_private [] = ([], 0)"
| "without_private (c # t) =
     (case after_span (c # t) of
        Some u \<Rightarrow> map_prod ((@) ''[REDACTED:private]'') Suc (without_private u)
      | None \<Rightarrow> map_prod ((#) c) (\<lambda>n. n) (without_private t))"
  by pat_completeness auto
termination
  by (relation "measure length") (auto dest!: after_span_length)

text \<open>The end of the preferred match.\<close>

definition match_end :: "cursor list \<Rightarrow> string option" where
  "match_end ys = (case ys of [] \<Rightarrow> None | y # _ \<Rightarrow> Some (snd y))"

lemma match_end_simps [simp]:
  "match_end [] = None" "match_end (y # ys) = Some (snd y)"
  "match_end (xs @ ys) = (case match_end xs of None \<Rightarrow> match_end ys | Some u \<Rightarrow> Some u)"
  by (simp_all add: match_end_def split: list.split)

lemma lit_fold_end:
  "list_all (\<lambda>c. c \<noteq> CHR ''s'' \<and> c \<noteq> CHR ''k'') w \<Longrightarrow>
    map snd (ends (rx_lit_fold w) (p, s)) = (if map ascii_lower (take (length w) s) = w then [drop (length w) s] else [])"
proof (induction w arbitrary: p s)
  case Nil
  then show ?case by (simp add: rx_lit_fold_def)
next
  case (Cons c w)
  show ?case
  proof (cases s)
    case (Cons a t)
    with Cons.IH [of "Some a" t] Cons.prems show ?thesis by (auto simp: rx_lit_fold_def rx_fold_def split: if_splits)
  qed (use Cons.prems in \<open>simp add: rx_lit_fold_def rx_fold_def\<close>)
qed

text \<open>The lengths of the two tags as numerals.\<close>

lemma tag_lengths: "length ''<private>'' = 9" "length ''</private>'' = 10"
  by simp_all

lemmas opening_end = lit_fold_end [of "''<private>''", unfolded tag_lengths]
lemmas closing_ends = lit_fold_end [of "''</private>''", unfolded tag_lengths]

lemma map_snd_match_end: "map snd ys = (if b then [u] else []) \<Longrightarrow> match_end ys = (if b then Some u else None)"
  by (cases ys) (auto split: if_splits)

lemma closing_end: "match_end (ends (rx_lit_fold ''</private>'') (p, s)) = (if closes_tag s then Some (drop 10 s) else None)"
  unfolding closes_tag_def by (rule map_snd_match_end, rule closing_ends) simp

lemma lazy_Cons: "ends (RxLazy rx_any) (p, c # s) = (p, c # s) # ends (RxLazy rx_any) (Some c, s)"
  by (simp add: rx_any_def)

lemma lazy_closing_end:
  "match_end (ends (RxSeq (RxLazy rx_any) (rx_lit_fold ''</private>'')) (p, s)) = after_closing s"
proof (induction s arbitrary: p)
  case Nil
  then show ?case using closing_end [of p "[]"] by (simp add: closes_tag_def)
next
  case (Cons c s)
  have "ends (RxSeq (RxLazy rx_any) (rx_lit_fold ''</private>'')) (p, c # s)
      = ends (rx_lit_fold ''</private>'') (p, c # s) @ ends (RxSeq (RxLazy rx_any) (rx_lit_fold ''</private>'')) (Some c, s)"
    unfolding ends.simps(3) lazy_Cons by simp
  with Cons.IH [of "Some c"] closing_end [of p "c # s"] show ?case by (simp del: ends.simps)
qed

lemma private_end: "match_end (ends private_re (p, s)) = after_span s"
proof -
  have o: "map snd (ends (rx_lit_fold ''<private>'') (p, s)) = (if opens_tag s then [drop 9 s] else [])"
    unfolding opens_tag_def by (rule opening_end) simp
  have e: "ends private_re (p, s)
      = concat (map (ends (RxSeq (RxLazy rx_any) (rx_lit_fold ''</private>''))) (ends (rx_lit_fold ''<private>'') (p, s)))"
    by (simp only: private_re_def ends.simps(3))
  show ?thesis
  proof (cases "opens_tag s")
    case True
    with o obtain q where "ends (rx_lit_fold ''<private>'') (p, s) = [(q, drop 9 s)]" by auto
    with True show ?thesis using lazy_closing_end [of q "drop 9 s"] by (simp add: e after_span_def del: ends.simps)
  next
    case False
    with o show ?thesis by (simp add: e after_span_def del: ends.simps)
  qed
qed

lemma private_rule_cuts:
  assumes f: "\<And>d. f d = ''[REDACTED:private]''"
  shows "replace_all private_re f x = without_private (snd x)"
proof (induction x rule: measure_induct_rule [where f = "\<lambda>x. length (snd x)"])
  case (less x)
  obtain p s where x: "x = (p, s)" by fastforce
  note IH = less.IH [unfolded x]
  show ?case unfolding x
  proof (cases s)
    case Nil
    then show "replace_all private_re f (p, s) = without_private (snd (p, s))" by simp
  next
    case (Cons c t)
    have copy: "replace_all private_re f (Some c, t) = without_private t" using IH [of "(Some c, t)"] Cons by simp
    show "replace_all private_re f (p, s) = without_private (snd (p, s))"
    proof (cases "ends private_re (p, s)")
      case Nil
      then have "after_span s = None" using private_end [of p s] by simp
      with Nil Cons copy show ?thesis by (simp add: replace_all_Cons prod_eq_iff)
    next
      fix y ys assume y: "ends private_re (p, s) = y # ys"
      obtain q u where qu: "y = (q, u)" by fastforce
      have u: "after_span s = Some u" using private_end [of p s] y qu by simp
      have "replace_all private_re f (q, u) = without_private u" using IH [of "(q, u)"] after_span_length [OF u] by simp
      with y qu u after_span_length [OF u] Cons f show ?thesis
        by (simp add: replace_all_Cons prod_eq_iff)
    qed
  qed
qed

text \<open>The whole redaction: the spans are cut, then the other rules work on what is left.\<close>

lemma redaction_after_cut:
  "redactObservationString s = fold redact_rule (tl observationRedactionRules)
     (fst (without_private s), snd (without_private s), replicate (snd (without_private s)) ''private'')"
proof -
  have "redact_rule \<lparr>rr_kind = ''private'', rr_re = private_re\<rparr> (s, 0, [])
      = (fst (without_private s), snd (without_private s), replicate (snd (without_private s)) ''private'')"
    using private_rule_cuts [of "redacted ''private''" "(None, s)"]
    by (simp add: redact_rule_def redacted_def ReplaceAllStringFunc_def split_def Let_def)
  then show ?thesis by (simp add: redactObservationString_def observationRedactionRules_def)
qed

text \<open>
  C5. Redaction cuts the private spans.  A span goes from an opening private tag to the first closing tag
  after it, in any case of letters and over any number of lines; scanned from the left, every span is
  replaced, tags and contents, by one marker and everything else is kept (\<open>without_private\<close>, which is
  written without regular expressions), each cut is counted and reported as a redaction of kind
  \<open>private\<close>, and the other five rules see only what is left, so what stood inside a span is in no part of
  the result.  A span ends at the first closing tag, so tags do not nest.  In the final text no opening
  tag, in any case, is followed by a closing one, and the count of redactions is the number of kinds.
\<close>

theorem private_spans_removed:
  "redactObservationString s = fold redact_rule (tl observationRedactionRules)
      (fst (without_private s), snd (without_private s), replicate (snd (without_private s)) ''private'')
   \<and> \<not> private_span (fst (redactObservationString s))
   \<and> fst (snd (redactObservationString s)) = length (snd (snd (redactObservationString s)))"
  using redact_kinds_fold [of "(s, 0, [])" observationRedactionRules]
  by (intro conjI redaction_after_cut private_spans_removed_span) (simp add: redactObservationString_def)

text \<open>The specification at work: two spans, the second one open to the end of the text.\<close>

lemma without_private_example:
  "without_private ''a<Private>x<private>y</PRIVATE>z</private> <private>'' = (''a[REDACTED:private]z</private> <private>'', 1)"
  by code_simp

end
