(* ===== verification/ObservationLog.thy ===== *)
theory ObservationLog
  imports Scope Tables UnixTime Utf8 Redaction
begin

text \<open>
  The observation log (\<open>internal/observationlog/log.go\<close>, and the service calls of
  \<open>service/observations.go\<close>): what an agent saw and did is redacted, truncated, checksummed and appended,
  with an audit event in the same transaction; a repeated call is recognised by its id and checksum.  A
  call reads an environment: which statement fails, the readings of the clock and of the random source, in
  the order the code takes them.  \<open>sha\<close> is the 32-byte digest of the JSON text of the checksummed fields.  A
  transaction that fails leaves the tables as they were.  The JSON columns hold the map they encode.
\<close>

section \<open>Data\<close>

type_synonym metadata = "(string \<times> string) list"

record ObservationParams =
  op_ID :: string
  op_Kind :: string
  op_WorkspaceID :: string
  op_ProfileID :: string
  op_PeerID :: string
  op_SessionKey :: string
  op_ContextID :: string
  op_Input :: string
  op_Output :: string
  op_Success :: "bool option"
  op_Metadata :: metadata
  op_ObservedAt :: int
  op_Reason :: string

text \<open>The checksummed fields, in the order of the JSON text, and the observation that adds the others.\<close>

record obs_payload =
  ob_Kind :: string
  ob_WorkspaceID :: string
  ob_ProfileID :: string
  ob_PeerID :: string
  ob_SessionKey :: string
  ob_ContextID :: string
  ob_Input :: string
  ob_Output :: string
  ob_Success :: "bool option"
  ob_Metadata :: metadata
  ob_InputTruncated :: bool
  ob_OutputTruncated :: bool
  ob_InputOriginalBytes :: int
  ob_OutputOriginalBytes :: int
  ob_Redacted :: bool
  ob_RedactionCount :: int

record Observation =
  ob_ID :: string
  ob_payload :: obs_payload
  ob_Checksum :: string
  ob_ObservedAt :: int

record ObservationResult =
  or_Observation :: Observation
  or_AuditID :: string
  or_Replayed :: bool

record ObservationQuery =
  oq_WorkspaceID :: string
  oq_ProfileID :: string
  oq_PeerID :: string
  oq_SessionKey :: string
  oq_ContextID :: string
  oq_Kinds :: "string list"
  oq_Success :: "bool option"
  oq_Since :: int
  oq_Until :: int
  oq_Limit :: int

record AuditEvent =
  ae_ID :: string
  ae_Action :: string
  ae_TargetType :: string
  ae_TargetID :: string
  ae_WorkspaceID :: string
  ae_PeerID :: string
  ae_SessionKey :: string
  ae_Reason :: string
  ae_Metadata :: metadata
  ae_CreatedAt :: int

record AuditQuery =
  aq_Action :: string
  aq_TargetType :: string
  aq_TargetID :: string
  aq_WorkspaceID :: string
  aq_PeerID :: string
  aq_SessionKey :: string
  aq_Since :: int
  aq_Until :: int
  aq_Limit :: int

record observation_db =
  observations :: "Observation list"
  audit_events :: "AuditEvent list"

datatype obs_site = ObContext | ObNilDB | ObBegin | ObGet | ObAuditLookup | ObCommit | ObInsert | ObAuditInsert | ObList | ObTrail

datatype obs_error = ObSite obs_site | ObKind string | ObText string | ObDuplicateKey string | ObValueTooLong string
  | ObCustomKind | ObMetadataTooLong | ObConflict string | ObAuditMissing string | ObRandom | ObAction string | ObTargetType string
  | ObWildcard

record obs_env =
  oe_fault :: "obs_site \<Rightarrow> bool"
  oe_now :: "nat \<Rightarrow> int"
  oe_random :: "nat \<Rightarrow> string option"

text \<open>The limits of the code, in bytes.\<close>

definition observationIDMaxBytes :: nat where "observationIDMaxBytes = 256"
definition observationScopeIDMaxBytes :: nat where "observationScopeIDMaxBytes = 512"
definition observationMetadataKeyMax :: nat where "observationMetadataKeyMax = 128"
definition observationMetadataValueMax :: nat where "observationMetadataValueMax = 4 * 1024"
definition observationMetadataJSONMax :: nat where "observationMetadataJSONMax = 16 * 1024"
definition observationInputMax :: nat where "observationInputMax = 16 * 1024"
definition observationOutputMax :: nat where "observationOutputMax = 64 * 1024"

definition validObservationKinds :: "string list" where
  "validObservationKinds = [''session_start'', ''user_prompt'', ''tool_call'', ''tool_result'', ''tool_error'',
     ''assistant_response'', ''compact'', ''session_end'', ''custom'']"

definition isValidObservationKind :: "string \<Rightarrow> bool" where
  "isValidObservationKind kind \<longleftrightarrow> kind \<in> set validObservationKinds"

section \<open>The JSON text of metadata\<close>

text \<open>Strings as \<open>encoding/json\<close> writes valid UTF-8, with its HTML escapes; keys are sorted.\<close>

definition json_ascii :: "char \<Rightarrow> string" where
  "json_ascii c =
     (let b = byte c; bs = char_of (92 :: nat); u = (\<lambda>n. [bs, CHR ''u'', CHR ''0'', CHR ''0'', hex_digit (n div 16), hex_digit (n mod 16)]) in
      if b = 34 \<or> b = 92 then [bs, c]
      else if b = 8 then [bs, CHR ''b''] else if b = 12 then [bs, CHR ''f''] else if b = 10 then [bs, CHR ''n'']
      else if b = 13 then [bs, CHR ''r''] else if b = 9 then [bs, CHR ''t'']
      else if b < 32 \<or> b = 60 \<or> b = 62 \<or> b = 38 then u b
      else [c])"

fun json_chars :: "string \<Rightarrow> string" where
  "json_chars (a # b # c # s) =
     (if byte a = 226 \<and> byte b = 128 \<and> (byte c = 168 \<or> byte c = 169)
      then char_of (92 :: nat) # ''u202'' @ [hex_digit (byte c - 160)] @ json_chars s
      else json_ascii a @ json_chars (b # c # s))"
| "json_chars s = concat (map json_ascii s)"

definition json_string :: "string \<Rightarrow> string" where
  "json_string s = [dquote] @ json_chars s @ [dquote]"

definition marshalObservationMetadata :: "metadata \<Rightarrow> string" where
  "marshalObservationMetadata m =
     ''{'' @ join_with '','' (map (\<lambda>(k, v). json_string k @ '':'' @ json_string v) m) @ ''}''"

section \<open>Normalisation\<close>

definition validateObservationTextID :: "string \<Rightarrow> string \<Rightarrow> nat \<Rightarrow> obs_error option" where
  "validateObservationTextID name value maxBytes =
     (if trim_space value = [] then Some (ObText name)
      else if \<not> valid_utf8 value then Some (ObText name)
      else if char_of (0 :: nat) \<in> set value then Some (ObText name)
      else if length value > maxBytes then Some (ObText name)
      else None)"

definition normalizeObservationIDPart :: "string \<Rightarrow> string \<Rightarrow> nat \<Rightarrow> bool \<Rightarrow> obs_error + string" where
  "normalizeObservationIDPart name value0 maxBytes required =
     (let value = trim_space value0 in
      if value = [] \<and> \<not> required then Inr []
      else case validateObservationTextID name value maxBytes of Some e \<Rightarrow> Inl e | None \<Rightarrow> Inr value)"

text \<open>The loop over the map in the order the runtime visits it; the result is kept sorted by key.\<close>

fun normalizeMetadataLoop :: "metadata \<Rightarrow> metadata \<Rightarrow> nat \<Rightarrow> string list \<Rightarrow> obs_error + (metadata \<times> nat \<times> string list)" where
  "normalizeMetadataLoop [] out redactions kinds = Inr (out, redactions, kinds)"
| "normalizeMetadataLoop ((rawKey, rawValue) # rest) out redactions kinds =
     (let key = trim_space rawKey in
      case validateObservationTextID ''metadata key'' key observationMetadataKeyMax of
        Some e \<Rightarrow> Inl e
      | None \<Rightarrow>
          if key \<in> fst ` set out then Inl (ObDuplicateKey key)
          else
            let (value, count, ks) = redactObservationString (ToValidUTF8 rawValue) in
            if length value > observationMetadataValueMax then Inl (ObValueTooLong key)
            else normalizeMetadataLoop rest (insort_key fst (key, value) out) (redactions + count) (kinds @ ks))"

definition normalizeObservationMetadata :: "string \<Rightarrow> metadata \<Rightarrow> obs_error + (metadata \<times> nat \<times> string list)" where
  "normalizeObservationMetadata kind m =
     (case normalizeMetadataLoop m [] 0 [] of
        Inl e \<Rightarrow> Inl e
      | Inr (out, redactions, kinds) \<Rightarrow>
          if kind = ''custom'' \<and> trim_space (case map_of out ''custom_kind'' of None \<Rightarrow> [] | Some v \<Rightarrow> v) = [] then Inl ObCustomKind
          else Inr (out, redactions, kinds))"

definition observationChecksum :: "(obs_payload \<Rightarrow> string) \<Rightarrow> obs_payload \<Rightarrow> string" where
  "observationChecksum sha p = hex_bytes (sha p)"

definition uniqueSortedStrings :: "string list \<Rightarrow> string list" where
  "uniqueSortedStrings values = sort (remdups (filter (\<lambda>v. v \<noteq> []) (map trim_space values)))"

definition FormatBool :: "bool \<Rightarrow> string" where
  "FormatBool b = (if b then ''true'' else ''false'')"

text \<open>The audit map, sorted by key.\<close>

definition observationAuditMetadata :: "obs_payload \<Rightarrow> string list \<Rightarrow> metadata" where
  "observationAuditMetadata p redactionKinds =
     [(''input_original_bytes'', Decimal (ob_InputOriginalBytes p)),
      (''input_truncated'', FormatBool (ob_InputTruncated p)),
      (''output_original_bytes'', Decimal (ob_OutputOriginalBytes p)),
      (''output_truncated'', FormatBool (ob_OutputTruncated p)),
      (''redacted'', FormatBool (ob_Redacted p)),
      (''redaction_count'', Decimal (ob_RedactionCount p)),
      (''redaction_kinds'', join_with '','' redactionKinds)]"

record normalizedObservation =
  no_obs :: Observation
  no_auditMetadata :: metadata
  no_reason :: string

text \<open>The six scope and id fields, in the order of the code.\<close>

definition normalizeIDs :: "ObservationParams \<Rightarrow> obs_error + (string \<times> string \<times> string \<times> string \<times> string \<times> string)" where
  "normalizeIDs p =
     (case normalizeObservationIDPart ''workspace_id'' (op_WorkspaceID p) observationScopeIDMaxBytes False of Inl e \<Rightarrow> Inl e | Inr workspaceID \<Rightarrow>
     (case normalizeObservationIDPart ''profile_id'' (op_ProfileID p) observationScopeIDMaxBytes False of Inl e \<Rightarrow> Inl e | Inr profileID \<Rightarrow>
     (case normalizeObservationIDPart ''peer_id'' (op_PeerID p) observationScopeIDMaxBytes False of Inl e \<Rightarrow> Inl e | Inr peerID \<Rightarrow>
     (case normalizeObservationIDPart ''session_key'' (op_SessionKey p) observationScopeIDMaxBytes False of Inl e \<Rightarrow> Inl e | Inr sessionKey \<Rightarrow>
     (case normalizeObservationIDPart ''context_id'' (op_ContextID p) observationScopeIDMaxBytes False of Inl e \<Rightarrow> Inl e | Inr contextID \<Rightarrow>
     (case normalizeObservationIDPart ''id'' (op_ID p) observationIDMaxBytes False of Inl e \<Rightarrow> Inl e | Inr i \<Rightarrow>
        Inr (workspaceID, profileID, peerID, sessionKey, contextID, i)))))))"

definition normalizeReason :: "string \<Rightarrow> string" where
  "normalizeReason reason0 =
     (let reason = (if trim_space reason0 = [] then ''observe'' else trim_space reason0) in
      fst (truncateUTF8Bytes (fst (redactObservationString (ToValidUTF8 reason))) observationMetadataValueMax))"

definition normalizeObservationParams :: "(obs_payload \<Rightarrow> string) \<Rightarrow> int \<Rightarrow> ObservationParams \<Rightarrow> obs_error + normalizedObservation" where
  "normalizeObservationParams sha now p =
     (let kind = trim_space (op_Kind p) in
      if \<not> isValidObservationKind kind then Inl (ObKind (op_Kind p))
      else case normalizeObservationMetadata kind (op_Metadata p) of
        Inl e \<Rightarrow> Inl e
      | Inr (metadata, metaRedactions, metaKinds) \<Rightarrow>
          let (redactedInput, inputRedactions, inputKinds) = redactObservationString (ToValidUTF8 (op_Input p));
              (redactedOutput, outputRedactions, outputKinds) = redactObservationString (ToValidUTF8 (op_Output p));
              redactionCount = int (metaRedactions + (inputRedactions + outputRedactions));
              redactionKinds = metaKinds @ inputKinds @ outputKinds;
              (input, inputTruncated) = truncateUTF8Bytes redactedInput observationInputMax;
              (output, outputTruncated) = truncateUTF8Bytes redactedOutput observationOutputMax in
          case normalizeIDs p of
            Inl e \<Rightarrow> Inl e
          | Inr (workspaceID, profileID, peerID, sessionKey, contextID, i) \<Rightarrow>
              if length (marshalObservationMetadata metadata) > observationMetadataJSONMax then Inl ObMetadataTooLong
              else
                let payload = \<lparr>ob_Kind = kind, ob_WorkspaceID = workspaceID, ob_ProfileID = profileID, ob_PeerID = peerID,
                      ob_SessionKey = sessionKey, ob_ContextID = contextID, ob_Input = input, ob_Output = output,
                      ob_Success = op_Success p, ob_Metadata = metadata, ob_InputTruncated = inputTruncated,
                      ob_OutputTruncated = outputTruncated, ob_InputOriginalBytes = int (length redactedInput),
                      ob_OutputOriginalBytes = int (length redactedOutput), ob_Redacted = (redactionCount > 0),
                      ob_RedactionCount = redactionCount\<rparr> in
                Inr \<lparr>no_obs = \<lparr>ob_ID = i, ob_payload = payload, ob_Checksum = observationChecksum sha payload,
                      ob_ObservedAt = (if op_ObservedAt p = zero_time then now else op_ObservedAt p)\<rparr>,
                     no_auditMetadata = observationAuditMetadata payload (uniqueSortedStrings redactionKinds),
                     no_reason = normalizeReason (op_Reason p)\<rparr>)"

definition newObservationID :: "string \<Rightarrow> string option \<Rightarrow> int \<Rightarrow> obs_error + string" where
  "newObservationID prefix' random now =
     (case random of None \<Rightarrow> Inl ObRandom
      | Some b \<Rightarrow> Inr (prefix' @ ''_'' @ Decimal (UnixNano now) @ ''_'' @ hex_bytes b))"

section \<open>Statements\<close>

text \<open>A stored row holds the 64-bit times.\<close>

definition stored_obs :: "Observation \<Rightarrow> Observation" where
  "stored_obs o' = o'\<lparr>ob_ObservedAt := UnixNano (ob_ObservedAt o')\<rparr>"

definition stored_event :: "AuditEvent \<Rightarrow> AuditEvent" where
  "stored_event e = e\<lparr>ae_CreatedAt := UnixNano (ae_CreatedAt e)\<rparr>"

definition getObservationByID :: "string \<Rightarrow> observation_db \<Rightarrow> Observation option" where
  "getObservationByID i db = tfind ob_ID i (observations db)"

definition insertObservation :: "Observation \<Rightarrow> observation_db \<Rightarrow> observation_db" where
  "insertObservation o' db = db\<lparr>observations := observations db @ [stored_obs o']\<rparr>"

text \<open>The audit table has its id as primary key.\<close>

definition insertAuditEvent :: "AuditEvent \<Rightarrow> observation_db \<Rightarrow> obs_error + observation_db" where
  "insertAuditEvent e db =
     (if tfind ae_ID (ae_ID e) (audit_events db) \<noteq> None then Inl (ObSite ObAuditInsert)
      else Inr (db\<lparr>audit_events := audit_events db @ [stored_event e]\<rparr>))"

definition firstObserveAuditID :: "string \<Rightarrow> observation_db \<Rightarrow> obs_error + string" where
  "firstObserveAuditID observationID db =
     (case order_asc (\<lambda>e. (ae_CreatedAt e, ae_ID e)) (filter (\<lambda>e. ae_Action e = ''observe'' \<and> ae_TargetType e = ''observation''
        \<and> ae_TargetID e = observationID) (audit_events db)) of
        [] \<Rightarrow> Inl (ObAuditMissing observationID)
      | e # _ \<Rightarrow> Inr (ae_ID e))"

section \<open>Operations\<close>

definition observe_event :: "string \<Rightarrow> normalizedObservation \<Rightarrow> string \<Rightarrow> int \<Rightarrow> AuditEvent" where
  "observe_event auditID norm i createdAt =
     \<lparr>ae_ID = auditID, ae_Action = ''observe'', ae_TargetType = ''observation'', ae_TargetID = i,
      ae_WorkspaceID = ob_WorkspaceID (ob_payload (no_obs norm)), ae_PeerID = ob_PeerID (ob_payload (no_obs norm)),
      ae_SessionKey = ob_SessionKey (ob_payload (no_obs norm)), ae_Reason = no_reason norm,
      ae_Metadata = no_auditMetadata norm, ae_CreatedAt = createdAt\<rparr>"

text \<open>The transaction of \<open>Observe\<close>, after normalisation; \<open>obs\<close> has its id.\<close>

definition observeTx :: "obs_env \<Rightarrow> normalizedObservation \<Rightarrow> Observation \<Rightarrow> observation_db
    \<Rightarrow> (obs_error + ObservationResult) \<times> observation_db" where
  "observeTx env norm obs db =
     (let flt = oe_fault env in
      if flt ObBegin then (Inl (ObSite ObBegin), db)
      else if flt ObGet then (Inl (ObSite ObGet), db)
      else case getObservationByID (ob_ID obs) db of
        Some existing \<Rightarrow>
          if ob_Checksum existing \<noteq> ob_Checksum obs then (Inl (ObConflict (ob_ID obs)), db)
          else if flt ObAuditLookup then (Inl (ObSite ObAuditLookup), db)
          else (case firstObserveAuditID (ob_ID existing) db of
              Inl e \<Rightarrow> (Inl e, db)
            | Inr auditID \<Rightarrow>
                if flt ObCommit then (Inl (ObSite ObCommit), db)
                else (Inr \<lparr>or_Observation = existing, or_AuditID = auditID, or_Replayed = True\<rparr>, db))
      | None \<Rightarrow>
          if flt ObInsert then (Inl (ObSite ObInsert), db)
          else (case newObservationID ''audit'' (oe_random env 1) (oe_now env 2) of
              Inl e \<Rightarrow> (Inl e, db)
            | Inr auditID \<Rightarrow>
                if flt ObAuditInsert then (Inl (ObSite ObAuditInsert), db)
                else (case insertAuditEvent (observe_event auditID norm (ob_ID obs) (oe_now env 3)) (insertObservation obs db) of
                    Inl e \<Rightarrow> (Inl e, db)
                  | Inr db2 \<Rightarrow>
                      if flt ObCommit then (Inl (ObSite ObCommit), db)
                      else (Inr \<lparr>or_Observation = obs, or_AuditID = auditID, or_Replayed = False\<rparr>, db2))))"

definition Observe :: "(obs_payload \<Rightarrow> string) \<Rightarrow> obs_env \<Rightarrow> ObservationParams \<Rightarrow> observation_db
    \<Rightarrow> (obs_error + ObservationResult) \<times> observation_db" where
  "Observe sha env p db =
     (let flt = oe_fault env in
      if flt ObContext then (Inl (ObSite ObContext), db)
      else if flt ObNilDB then (Inl (ObSite ObNilDB), db)
      else case normalizeObservationParams sha (oe_now env 0) p of
        Inl e \<Rightarrow> (Inl e, db)
      | Inr norm \<Rightarrow>
          if ob_ID (no_obs norm) = [] then
            (case newObservationID ''obs'' (oe_random env 0) (oe_now env 1) of
               Inl e \<Rightarrow> (Inl e, db)
             | Inr i \<Rightarrow> observeTx env norm ((no_obs norm)\<lparr>ob_ID := i\<rparr>) db)
          else observeTx env norm (no_obs norm) db)"

definition normalizeObservationLimit :: "int \<Rightarrow> int" where
  "normalizeObservationLimit limit = (if limit \<le> 0 then 50 else if limit > 500 then 500 else limit)"

text \<open>\<open>appendExactFilter\<close>: a blank value filters nothing.\<close>

definition exact_filter :: "string \<Rightarrow> string \<Rightarrow> bool" where
  "exact_filter value column \<longleftrightarrow> trim_space value = [] \<or> column = trim_space value"

definition obs_where :: "ObservationQuery \<Rightarrow> Observation \<Rightarrow> bool" where
  "obs_where q r \<longleftrightarrow> (let b = ob_payload r in
     exact_filter (oq_WorkspaceID q) (ob_WorkspaceID b) \<and> exact_filter (oq_ProfileID q) (ob_ProfileID b)
     \<and> exact_filter (oq_PeerID q) (ob_PeerID b) \<and> exact_filter (oq_SessionKey q) (ob_SessionKey b)
     \<and> exact_filter (oq_ContextID q) (ob_ContextID b)
     \<and> (oq_Kinds q = [] \<or> ob_Kind b \<in> set (oq_Kinds q))
     \<and> (oq_Success q = None \<or> ob_Success b = oq_Success q)
     \<and> (oq_Since q = zero_time \<or> UnixNano (oq_Since q) \<le> ob_ObservedAt r)
     \<and> (oq_Until q = zero_time \<or> ob_ObservedAt r \<le> UnixNano (oq_Until q)))"

definition ListObservations :: "(obs_site \<Rightarrow> bool) \<Rightarrow> ObservationQuery \<Rightarrow> observation_db \<Rightarrow> obs_error + Observation list" where
  "ListObservations flt q db =
     (if flt ObContext then Inl (ObSite ObContext)
      else if flt ObNilDB then Inl (ObSite ObNilDB)
      else case find (\<lambda>k. \<not> isValidObservationKind k) (oq_Kinds q) of
        Some k \<Rightarrow> Inl (ObKind k)
      | None \<Rightarrow>
          if flt ObList then Inl (ObSite ObList)
          else Inr (take (nat (normalizeObservationLimit (oq_Limit q)))
            (order_desc (\<lambda>r. (ob_ObservedAt r, ob_ID r)) (filter (obs_where q) (observations db)))))"

definition audit_where :: "AuditQuery \<Rightarrow> AuditEvent \<Rightarrow> bool" where
  "audit_where q e \<longleftrightarrow>
     exact_filter (aq_Action q) (ae_Action e) \<and> exact_filter (aq_TargetType q) (ae_TargetType e)
     \<and> exact_filter (aq_TargetID q) (ae_TargetID e) \<and> exact_filter (aq_WorkspaceID q) (ae_WorkspaceID e)
     \<and> exact_filter (aq_PeerID q) (ae_PeerID e) \<and> exact_filter (aq_SessionKey q) (ae_SessionKey e)
     \<and> (aq_Since q = zero_time \<or> UnixNano (aq_Since q) \<le> ae_CreatedAt e)
     \<and> (aq_Until q = zero_time \<or> ae_CreatedAt e \<le> UnixNano (aq_Until q))"

definition AuditTrail :: "(obs_site \<Rightarrow> bool) \<Rightarrow> AuditQuery \<Rightarrow> observation_db \<Rightarrow> obs_error + AuditEvent list" where
  "AuditTrail flt q db =
     (if flt ObContext then Inl (ObSite ObContext)
      else if flt ObNilDB then Inl (ObSite ObNilDB)
      else if aq_Action q \<noteq> [] \<and> aq_Action q \<noteq> ''observe'' then Inl (ObAction (aq_Action q))
      else if aq_TargetType q \<noteq> [] \<and> aq_TargetType q \<noteq> ''observation'' then Inl (ObTargetType (aq_TargetType q))
      else if flt ObTrail then Inl (ObSite ObTrail)
      else Inr (take (nat (normalizeObservationLimit (aq_Limit q)))
        (order_desc (\<lambda>e. (ae_CreatedAt e, ae_ID e)) (filter (audit_where q) (audit_events db)))))"

text \<open>The calls of the service fill in its workspace.\<close>

definition ServiceObserve :: "string \<Rightarrow> (obs_payload \<Rightarrow> string) \<Rightarrow> obs_env \<Rightarrow> ObservationParams \<Rightarrow> observation_db
    \<Rightarrow> (obs_error + ObservationResult) \<times> observation_db" where
  "ServiceObserve ws sha env p db =
     (if trim_space (op_WorkspaceID p) = ''*'' then (Inl ObWildcard, db)
      else Observe sha env (if trim_space (op_WorkspaceID p) = [] then p\<lparr>op_WorkspaceID := ws\<rparr> else p) db)"

definition ServiceListObservations :: "string \<Rightarrow> (obs_site \<Rightarrow> bool) \<Rightarrow> ObservationQuery \<Rightarrow> observation_db \<Rightarrow> obs_error + Observation list" where
  "ServiceListObservations ws flt q db =
     ListObservations flt (q\<lparr>oq_WorkspaceID := scopekey_Workspace ws (oq_WorkspaceID q) True\<rparr>) db"

section \<open>What is stored\<close>

lemma private_span_prefix: "prefix t s \<Longrightarrow> private_span t \<Longrightarrow> private_span s"
  unfolding private_span_def prefix_def by (metis append.assoc map_append)

lemma truncate_prefix: "prefix (fst (truncateUTF8Bytes s n)) s \<and> length (fst (truncateUTF8Bytes s n)) \<le> n"
proof (cases "length s \<le> n")
  case False
  then show ?thesis using drop_invalid_prefix [of "take n s"] take_is_prefix [of n s]
    by (auto simp: truncateUTF8Bytes_def intro: prefix_order.trans dest: conjunct2 prefix_length_le)
qed (simp add: truncateUTF8Bytes_def)

text \<open>A text that was redacted, and then possibly cut, holds no private span.\<close>

definition clean :: "nat \<Rightarrow> string \<Rightarrow> bool" where
  "clean n s \<longleftrightarrow> length s \<le> n \<and> \<not> private_span s"

lemma clean_redacted: "fst (redactObservationString s) = t \<Longrightarrow> clean n (fst (truncateUTF8Bytes t n))"
  using truncate_prefix [of t n] private_span_prefix private_spans_removed_span [of s] by (auto simp: clean_def)

definition text_ok :: "nat \<Rightarrow> string \<Rightarrow> bool" where
  "text_ok n s \<longleftrightarrow> length s \<le> n \<and> valid_utf8 s \<and> char_of (0 :: nat) \<notin> set s \<and> trim_space s = s"

lemma text_ok_validated: "validateObservationTextID name (trim_space s) n = None \<Longrightarrow> text_ok n (trim_space s) \<and> trim_space s \<noteq> []"
  by (auto simp: validateObservationTextID_def text_ok_def split: if_splits)

lemma text_ok_id: "normalizeObservationIDPart name s n req = Inr t \<Longrightarrow> text_ok n t"
  using text_ok_validated [of name s n]
  by (auto simp: normalizeObservationIDPart_def Let_def text_ok_def split: if_splits option.splits)

definition metadata_ok :: "metadata \<Rightarrow> bool" where
  "metadata_ok m \<longleftrightarrow> distinct (map fst m) \<and> sorted (map fst m)
     \<and> list_all (\<lambda>(k, v). k \<noteq> [] \<and> text_ok observationMetadataKeyMax k \<and> clean observationMetadataValueMax v) m"

lemma distinct_insort_fst:
  "fst x \<notin> fst ` set xs \<Longrightarrow> distinct (map fst xs) \<Longrightarrow> distinct (map fst (insort_key fst x xs))"
  by (induction xs) (auto simp: set_insort_key)

lemma metadata_ok_insert:
  "metadata_ok m \<Longrightarrow> k \<notin> fst ` set m \<Longrightarrow> k \<noteq> [] \<Longrightarrow> text_ok observationMetadataKeyMax k \<Longrightarrow> clean observationMetadataValueMax v
   \<Longrightarrow> metadata_ok (insort_key fst (k, v) m)"
  using distinct_insort_fst [of "(k, v)" m] by (simp add: metadata_ok_def sorted_insort_key list_all_iff set_insort_key)

lemma metadata_ok_loop:
  "normalizeMetadataLoop m out n ks = Inr (out', n', ks') \<Longrightarrow> metadata_ok out \<Longrightarrow> metadata_ok out'"
proof (induction m out n ks rule: normalizeMetadataLoop.induct)
  case (2 rawKey rawValue rest out n ks)
  let ?key = "trim_space rawKey"
  obtain vl count kinds where r: "redactObservationString (ToValidUTF8 rawValue) = (vl, count, kinds)" by (metis prod.collapse)
  have v: "validateObservationTextID ''metadata key'' ?key observationMetadataKeyMax = None" "?key \<notin> fst ` set out"
    "\<not> observationMetadataValueMax < length vl"
    "normalizeMetadataLoop rest (insort_key fst (?key, vl) out) (n + count) (ks @ kinds) = Inr (out', n', ks')"
    using "2.prems"(1) r by (auto simp: Let_def split: option.splits if_splits)
  have "clean observationMetadataValueMax vl" using v(3) private_spans_removed_span [of "ToValidUTF8 rawValue"] r by (simp add: clean_def)
  then have "metadata_ok (insort_key fst (?key, vl) out)"
    using metadata_ok_insert "2.prems"(2) v(2) text_ok_validated [OF v(1)] by blast
  from "2.IH" [OF refl v(1,2) refl r [symmetric] refl v(3,4) this] show ?case .
qed simp

definition payload_ok :: "obs_payload \<Rightarrow> bool" where
  "payload_ok b \<longleftrightarrow> isValidObservationKind (ob_Kind b)
     \<and> list_all (text_ok observationScopeIDMaxBytes) [ob_WorkspaceID b, ob_ProfileID b, ob_PeerID b, ob_SessionKey b, ob_ContextID b]
     \<and> clean observationInputMax (ob_Input b) \<and> clean observationOutputMax (ob_Output b)
     \<and> metadata_ok (ob_Metadata b) \<and> length (marshalObservationMetadata (ob_Metadata b)) \<le> observationMetadataJSONMax
     \<and> ob_InputTruncated b = (ob_InputOriginalBytes b > int observationInputMax)
     \<and> ob_OutputTruncated b = (ob_OutputOriginalBytes b > int observationOutputMax)
     \<and> ob_Redacted b = (ob_RedactionCount b > 0)"

definition obs_ok :: "(obs_payload \<Rightarrow> string) \<Rightarrow> Observation \<Rightarrow> bool" where
  "obs_ok sha r \<longleftrightarrow> payload_ok (ob_payload r) \<and> ob_Checksum r = observationChecksum sha (ob_payload r)"

lemma obs_ok_id [simp]: "obs_ok sha (r\<lparr>ob_ID := i\<rparr>) = obs_ok sha r" "obs_ok sha (stored_obs r) = obs_ok sha r"
  by (simp_all add: obs_ok_def stored_obs_def)

lemma metadata_ok_normalized: "normalizeObservationMetadata kind m = Inr (out, n, ks) \<Longrightarrow> metadata_ok out"
  using metadata_ok_loop [of m "[]" 0 "[]"]
  by (auto simp: normalizeObservationMetadata_def metadata_ok_def split: sum.splits if_splits)

lemma normalizeIDs_ok:
  "normalizeIDs p = Inr (w, f, e, s, c, i) \<Longrightarrow> list_all (text_ok observationScopeIDMaxBytes) [w, f, e, s, c] \<and> text_ok observationIDMaxBytes i"
  using text_ok_id by (auto simp: normalizeIDs_def split: sum.splits)

lemma truncated_iff: "snd (truncateUTF8Bytes s n) = (n < length s)"
  by (simp add: truncateUTF8Bytes_def not_le)

lemma normalized_ok:
  assumes "normalizeObservationParams sha now p = Inr norm"
  shows "obs_ok sha (no_obs norm) \<and> clean observationMetadataValueMax (no_reason norm)"
proof -
  let ?kind = "trim_space (op_Kind p)"
  let ?ri = "redactObservationString (ToValidUTF8 (op_Input p))" and ?ro = "redactObservationString (ToValidUTF8 (op_Output p))"
  obtain m n ks where m: "normalizeObservationMetadata ?kind (op_Metadata p) = Inr (m, n, ks)"
    and k: "isValidObservationKind ?kind"
    using assms by (auto simp: normalizeObservationParams_def Let_def split: if_splits sum.splits)
  obtain w f e s c i where ids: "normalizeIDs p = Inr (w, f, e, s, c, i)"
    and j: "length (marshalObservationMetadata m) \<le> observationMetadataJSONMax"
    using assms m k by (cases "normalizeIDs p") (auto simp: normalizeObservationParams_def Let_def split_def not_less split: if_splits)
  have r: "clean observationMetadataValueMax (normalizeReason r)" for r
    unfolding normalizeReason_def Let_def by (rule clean_redacted [OF refl])
  have "clean observationInputMax (fst (truncateUTF8Bytes (fst ?ri) observationInputMax))"
    "clean observationOutputMax (fst (truncateUTF8Bytes (fst ?ro) observationOutputMax))"
    by (rule clean_redacted [OF refl])+
  with assms m k ids j r show ?thesis
    using normalizeIDs_ok [OF ids] metadata_ok_normalized [OF m]
    by (auto simp: normalizeObservationParams_def Let_def split_def obs_ok_def payload_ok_def truncated_iff)
qed

text \<open>The outcomes of a call: an error, a replay, or a new observation with its audit event.\<close>

definition observe_new :: "(obs_payload \<Rightarrow> string) \<Rightarrow> Observation \<Rightarrow> AuditEvent \<Rightarrow> observation_db \<Rightarrow> bool" where
  "observe_new sha r e db \<longleftrightarrow> obs_ok sha r \<and> ob_ID r \<noteq> [] \<and> ob_ID r \<notin> ob_ID ` set (observations db) \<and> ae_ID e \<notin> ae_ID ` set (audit_events db)
     \<and> ae_TargetID e = ob_ID r \<and> ae_Action e = ''observe'' \<and> ae_TargetType e = ''observation''
     \<and> ae_WorkspaceID e = ob_WorkspaceID (ob_payload r) \<and> ae_PeerID e = ob_PeerID (ob_payload r)
     \<and> ae_SessionKey e = ob_SessionKey (ob_payload r) \<and> clean observationMetadataValueMax (ae_Reason e)"

lemma observeTx_cases:
  assumes "obs_ok sha r" "ob_ID r \<noteq> []" "no_obs norm = r\<lparr>ob_ID := j\<rparr>" "clean observationMetadataValueMax (no_reason norm)"
  shows "(\<exists>err. observeTx env norm r db = (Inl err, db))
    \<or> (\<exists>x a. observeTx env norm r db = (Inr \<lparr>or_Observation = x, or_AuditID = a, or_Replayed = True\<rparr>, db)
        \<and> getObservationByID (ob_ID r) db = Some x \<and> firstObserveAuditID (ob_ID r) db = Inr a)
    \<or> (\<exists>e. observeTx env norm r db = (Inr \<lparr>or_Observation = r, or_AuditID = ae_ID e, or_Replayed = False\<rparr>,
          db\<lparr>observations := observations db @ [stored_obs r], audit_events := audit_events db @ [stored_event e]\<rparr>)
        \<and> observe_new sha r e db)"
proof (cases "getObservationByID (ob_ID r) db")
  case (Some x)
  then have "ob_ID x = ob_ID r" by (auto simp: getObservationByID_def dest: tfind_Some)
  with Some show ?thesis by (auto simp: observeTx_def Let_def split: sum.splits)
next
  case None
  then have n: "ob_ID r \<notin> ob_ID ` set (observations db)" by (simp add: getObservationByID_def tfind_None)
  show ?thesis
  proof (cases "\<exists>err. observeTx env norm r db = (Inl err, db)")
    case False
    with None obtain a where a: "newObservationID ''audit'' (oe_random env 1) (oe_now env 2) = Inr a" "tfind ae_ID a (audit_events db) = None"
      "observeTx env norm r db = (Inr \<lparr>or_Observation = r, or_AuditID = a, or_Replayed = False\<rparr>,
        (insertObservation r db)\<lparr>audit_events := audit_events db @ [stored_event (observe_event a norm (ob_ID r) (oe_now env 3))]\<rparr>)"
      by (auto simp: observeTx_def Let_def insertAuditEvent_def insertObservation_def observe_event_def split: if_splits sum.splits)
    then show ?thesis using assms n
      by (intro disjI2 exI [of _ "observe_event a norm (ob_ID r) (oe_now env 3)"])
        (simp add: observe_new_def observe_event_def insertObservation_def tfind_None)
  qed simp
qed

lemma Observe_cases:
  "(\<exists>err. Observe sha env p db = (Inl err, db))
   \<or> (\<exists>i x a. Observe sha env p db = (Inr \<lparr>or_Observation = x, or_AuditID = a, or_Replayed = True\<rparr>, db)
        \<and> getObservationByID i db = Some x \<and> firstObserveAuditID i db = Inr a)
   \<or> (\<exists>r e. Observe sha env p db = (Inr \<lparr>or_Observation = r, or_AuditID = ae_ID e, or_Replayed = False\<rparr>,
          db\<lparr>observations := observations db @ [stored_obs r], audit_events := audit_events db @ [stored_event e]\<rparr>)
        \<and> observe_new sha r e db)"
proof (cases "normalizeObservationParams sha (oe_now env 0) p")
  case (Inr norm)
  have ok: "obs_ok sha (no_obs norm)" "clean observationMetadataValueMax (no_reason norm)" using normalized_ok [OF Inr] by simp_all
  consider "\<exists>err. Observe sha env p db = (Inl err, db)"
    | r j where "Observe sha env p db = observeTx env norm r db" "obs_ok sha r" "ob_ID r \<noteq> []" "no_obs norm = r\<lparr>ob_ID := j\<rparr>"
  proof (cases "ob_ID (no_obs norm) = []")
    case True
    show ?thesis
    proof (cases "newObservationID ''obs'' (oe_random env 0) (oe_now env 1)")
      case (Inl e)
      with True \<open>normalizeObservationParams sha (oe_now env 0) p = Inr norm\<close> show ?thesis
        by (intro that(1)) (simp add: Observe_def Let_def)
    next
      case (Inr i)
      then have "i \<noteq> []" by (auto simp: newObservationID_def split: option.splits)
      then show ?thesis
        using that(1) that(2) [of "(no_obs norm)\<lparr>ob_ID := i\<rparr>" "[]"] True ok Inr \<open>normalizeObservationParams sha (oe_now env 0) p = Inr norm\<close>
        by (cases "oe_fault env ObContext \<or> oe_fault env ObNilDB") (auto simp: Observe_def Let_def)
    qed
  next
    case False
    with that(1) that(2) [of "no_obs norm" "ob_ID (no_obs norm)"] ok Inr show ?thesis
      by (cases "oe_fault env ObContext \<or> oe_fault env ObNilDB") (auto simp: Observe_def Let_def)
  qed
  then show ?thesis
  proof cases
    case 2
    from observeTx_cases [OF 2(2-4) ok(2), of env db] show ?thesis unfolding 2(1) [symmetric] by blast
  qed simp
qed (simp add: Observe_def Let_def)

section \<open>Runs\<close>

text \<open>An audit event that belongs to an observation.\<close>

definition audits :: "Observation \<Rightarrow> AuditEvent \<Rightarrow> bool" where
  "audits r e \<longleftrightarrow> ae_TargetID e = ob_ID r \<and> ae_Action e = ''observe'' \<and> ae_TargetType e = ''observation''
     \<and> ae_WorkspaceID e = ob_WorkspaceID (ob_payload r) \<and> ae_PeerID e = ob_PeerID (ob_payload r)
     \<and> ae_SessionKey e = ob_SessionKey (ob_payload r) \<and> clean observationMetadataValueMax (ae_Reason e)"

definition obs_inv :: "(obs_payload \<Rightarrow> string) \<Rightarrow> observation_db \<Rightarrow> bool" where
  "obs_inv sha db \<longleftrightarrow> unique_keys ob_ID (observations db) \<and> unique_keys ae_ID (audit_events db)
     \<and> list_all (\<lambda>r. obs_ok sha r \<and> ob_ID r \<noteq> [] \<and> in_int64 (ob_ObservedAt r)) (observations db)
     \<and> list_all2 audits (observations db) (audit_events db)"

definition empty_observations :: observation_db where
  "empty_observations = \<lparr>observations = [], audit_events = []\<rparr>"

datatype obs_call = CallObserve obs_env ObservationParams | CallServiceObserve string obs_env ObservationParams

fun obs_step :: "(obs_payload \<Rightarrow> string) \<Rightarrow> obs_call \<Rightarrow> observation_db \<Rightarrow> observation_db" where
  "obs_step sha (CallObserve env p) db = snd (Observe sha env p db)"
| "obs_step sha (CallServiceObserve ws env p) db = snd (ServiceObserve ws sha env p db)"

lemma obs_inv_new:
  "obs_inv sha db \<Longrightarrow> observe_new sha r e db \<Longrightarrow>
   obs_inv sha (db\<lparr>observations := observations db @ [stored_obs r], audit_events := audit_events db @ [stored_event e]\<rparr>)"
  by (auto simp: obs_inv_def observe_new_def unique_keys_def stored_obs_def stored_event_def audits_def UnixNano_range obs_ok_def
    intro!: list_all2_appendI)

lemma obs_inv_observe: "obs_inv sha db \<Longrightarrow> obs_inv sha (snd (Observe sha env p db))"
  using Observe_cases [of sha env p db] obs_inv_new [of sha db] by auto

lemma obs_step_observe: "(\<exists>env p. obs_step sha c db = snd (Observe sha env p db)) \<or> obs_step sha c db = db"
  by (cases c) (auto simp: ServiceObserve_def)

lemma obs_inv_step: "obs_inv sha db \<Longrightarrow> obs_inv sha (obs_step sha c db)"
  using obs_step_observe [of sha c db] obs_inv_observe by auto

interpretation obs_log: machine "obs_step sha" "obs_inv sha" for sha
  by unfold_locales (rule obs_inv_step)

text \<open>The tables only grow.\<close>

definition grows :: "observation_db \<Rightarrow> observation_db \<Rightarrow> bool" where
  "grows db db' \<longleftrightarrow> prefix (observations db) (observations db') \<and> prefix (audit_events db) (audit_events db')"

lemma grows_step: "grows db (obs_step sha c db)"
proof -
  have "grows db (snd (Observe sha env p db))" for env p
    using Observe_cases [of sha env p db] by (auto simp: grows_def)
  then show ?thesis using obs_step_observe [of sha c db] by (auto simp: grows_def)
qed

lemma grows_run: "grows db (fold (obs_step sha) cs db)"
proof (induction cs arbitrary: db)
  case (Cons c cs)
  from grows_step [of db sha c] Cons.IH [of "obs_step sha c db"] show ?case
    by (auto simp: grows_def intro: prefix_order.trans)
qed (simp add: grows_def)

text \<open>Every stored observation has one audit event, which the lookup finds.\<close>

lemma tfind_prefix: "prefix xs ys \<Longrightarrow> tfind key k xs = Some x \<Longrightarrow> tfind key k ys = Some x"
  by (auto simp: prefix_def tfind_append)

lemma audits_targets: "list_all2 audits rs es \<Longrightarrow> map ae_TargetID es = map ob_ID rs"
  by (induction rs es rule: list_all2_induct) (simp_all add: audits_def)

lemma audits_actions: "list_all2 audits rs es \<Longrightarrow> e \<in> set es \<Longrightarrow> ae_Action e = ''observe'' \<and> ae_TargetType e = ''observation''"
  by (induction rs es rule: list_all2_induct) (auto simp: audits_def)

lemma firstObserveAuditID_eq:
  assumes "obs_inv sha db" "tfind ae_TargetID i (audit_events db) = Some e"
  shows "firstObserveAuditID i db = Inr (ae_ID e)"
proof -
  have t: "list_all2 audits (observations db) (audit_events db)" "unique_keys ob_ID (observations db)" using assms(1) by (simp_all add: obs_inv_def)
  have "unique_keys ae_TargetID (audit_events db)" using t audits_targets [OF t(1)] by (simp add: unique_keys_def)
  from unique_filter [OF this assms(2)] have "filter (\<lambda>e. ae_TargetID e = i) (audit_events db) = [e]" .
  moreover have "filter (\<lambda>e. ae_Action e = ''observe'' \<and> ae_TargetType e = ''observation'' \<and> ae_TargetID e = i) (audit_events db)
      = filter (\<lambda>e. ae_TargetID e = i) (audit_events db)"
    using audits_actions [OF t(1)] by (intro filter_cong) auto
  ultimately show ?thesis by (simp add: firstObserveAuditID_def order_asc_def)
qed

lemma audit_found:
  assumes "obs_inv sha db" "tfind ob_ID i (observations db) = Some r"
  shows "\<exists>e. tfind ae_TargetID i (audit_events db) = Some e"
proof -
  have "i \<in> set (map ob_ID (observations db))" using tfind_Some [OF assms(2)] by auto
  then have "i \<in> ae_TargetID ` set (audit_events db)"
    using audits_targets [of "observations db" "audit_events db"] assms(1) by (simp add: obs_inv_def) (metis list.set_map)
  then show ?thesis using tfind_None [of ae_TargetID i "audit_events db"] by (cases "tfind ae_TargetID i (audit_events db)") auto
qed

lemma UnixNano_idem: "UnixNano (UnixNano t) = UnixNano t"
  by (simp add: UnixNano_def)

lemma UnixNano_int64: "in_int64 t \<Longrightarrow> UnixNano t = t"
  by (simp add: UnixNano_def in_int64_def min_int64_def max_int64_def int_word_sint)

lemma stored_obs_id: "obs_inv sha db \<Longrightarrow> tfind ob_ID i (observations db) = Some x \<Longrightarrow> stored_obs x = x"
  by (auto simp: obs_inv_def stored_obs_def list_all_iff UnixNano_int64 dest!: tfind_Some)

text \<open>What a successful call leaves behind.\<close>

lemma observe_success:
  assumes "Observe sha env p db = (Inr r, db1)" "obs_inv sha db"
  shows "\<exists>e. tfind ob_ID (ob_ID (or_Observation r)) (observations db1) = Some (stored_obs (or_Observation r))
    \<and> tfind ae_TargetID (ob_ID (or_Observation r)) (audit_events db1) = Some e \<and> ae_ID e = or_AuditID r"
  using Observe_cases [of sha env p db]
proof (elim disjE exE conjE)
  fix i x a
  assume a: "Observe sha env p db = (Inr \<lparr>or_Observation = x, or_AuditID = a, or_Replayed = True\<rparr>, db)"
    "getObservationByID i db = Some x" "firstObserveAuditID i db = Inr a"
  then have f: "tfind ob_ID i (observations db) = Some x" "ob_ID x = i" by (auto simp: getObservationByID_def dest: tfind_Some)
  from audit_found [OF assms(2) f(1)] obtain e where e: "tfind ae_TargetID i (audit_events db) = Some e" by blast
  with firstObserveAuditID_eq [OF assms(2) e] a(3) have "ae_ID e = a" by simp
  with a(1) f e stored_obs_id [OF assms(2) f(1)] assms(1) show ?thesis by auto
next
  fix x e
  assume a: "Observe sha env p db = (Inr \<lparr>or_Observation = x, or_AuditID = ae_ID e, or_Replayed = False\<rparr>,
      db\<lparr>observations := observations db @ [stored_obs x], audit_events := audit_events db @ [stored_event e]\<rparr>)"
    "observe_new sha x e db"
  have n: "tfind ob_ID (ob_ID x) (observations db) = None" using a(2) by (simp add: tfind_None observe_new_def)
  moreover have "tfind ae_TargetID (ob_ID x) (audit_events db) = None"
    using n assms(2) audits_targets [of "observations db" "audit_events db"]
    by (simp add: tfind_None obs_inv_def) (metis list.set_map)
  ultimately show ?thesis
    using a assms(1) by (auto simp: tfind_append stored_obs_def stored_event_def observe_new_def)
qed (use assms in simp)

lemma observe_again:
  assumes "obs_inv sha db" "tfind ob_ID i (observations db) = Some x" "tfind ae_TargetID i (audit_events db) = Some e"
    and "\<And>s. \<not> oe_fault env s" "normalizeObservationParams sha (oe_now env 0) p = Inr norm" "ob_ID (no_obs norm) = i"
  shows "Observe sha env p db =
    (if ob_Checksum (no_obs norm) = ob_Checksum x then Inr \<lparr>or_Observation = x, or_AuditID = ae_ID e, or_Replayed = True\<rparr>
     else Inl (ObConflict i), db)"
proof -
  have x: "ob_ID x = i" using assms(2) by (auto dest: tfind_Some)
  moreover have "i \<noteq> []" using assms(1,2) by (auto simp: obs_inv_def list_all_iff dest: tfind_Some)
  ultimately show ?thesis
    using assms(4) [of ObContext] assms(4) [of ObNilDB] assms(4) [of ObBegin] assms(4) [of ObGet] assms(4) [of ObAuditLookup] assms(4) [of ObCommit]
      assms(2,5,6) firstObserveAuditID_eq [OF assms(1,3)]
    by (simp add: Observe_def observeTx_def Let_def getObservationByID_def)
qed

section \<open>Properties\<close>

text \<open>
  C35. Nothing unsafe is stored: after any sequence of observe calls, whatever they observe and whatever
  fails, every stored observation has a known kind and scopes of bounded, valid UTF-8, an input, an output and
  metadata values that are within their limits and hold no private span, consistent truncation and redaction
  fields, and the checksum of its content; no audit reason holds a private span either.
\<close>

theorem observations_clean:
  "list_all (obs_ok sha) (observations (fold (obs_step sha) cs empty_observations))
   \<and> list_all (\<lambda>e. clean observationMetadataValueMax (ae_Reason e)) (audit_events (fold (obs_step sha) cs empty_observations))"
proof -
  let ?db = "fold (obs_step sha) cs empty_observations"
  have i: "obs_inv sha ?db" by (rule obs_log.run_inv) (simp add: obs_inv_def empty_observations_def)
  have "list_all2 audits rs es \<Longrightarrow> list_all (\<lambda>e. clean observationMetadataValueMax (ae_Reason e)) es" for rs es
    by (induction rs es rule: list_all2_induct) (simp_all add: audits_def)
  with i show ?thesis by (auto simp: obs_inv_def list_all_iff)
qed

text \<open>
  C21. The audit trail is exactly the log: after any sequence of observe calls, with any failures between
  the two inserts, the audit events correspond one to one, in order, to the stored observations, each
  naming its observation and the same workspace, peer and session, and no id occurs twice.
\<close>

theorem observations_audited:
  "list_all2 audits (observations (fold (obs_step sha) cs empty_observations)) (audit_events (fold (obs_step sha) cs empty_observations))
   \<and> unique_keys ob_ID (observations (fold (obs_step sha) cs empty_observations))
   \<and> unique_keys ae_ID (audit_events (fold (obs_step sha) cs empty_observations))"
  using obs_log.run_inv [of sha empty_observations cs] by (simp add: obs_inv_def empty_observations_def)

text \<open>
  C4. Observing is idempotent and observations are immutable: after a successful call, and any further
  calls, a call with the same id and the same checksum returns the stored observation and the audit id of the
  first call, marked as replayed, a call with the same id and another checksum is a conflict, and neither
  changes the tables.
\<close>

theorem observe_idempotent:
  assumes "obs_inv sha db" "Observe sha env p db = (Inr r, db1)" "db2 = fold (obs_step sha) cs db1"
    and "\<And>s. \<not> oe_fault env' s" "normalizeObservationParams sha (oe_now env' 0) p' = Inr norm"
    and "ob_ID (no_obs norm) = ob_ID (or_Observation r)"
  shows "Observe sha env' p' db2 =
    (if ob_Checksum (no_obs norm) = ob_Checksum (or_Observation r)
     then Inr \<lparr>or_Observation = stored_obs (or_Observation r), or_AuditID = or_AuditID r, or_Replayed = True\<rparr>
     else Inl (ObConflict (ob_ID (or_Observation r))), db2)"
proof -
  from observe_success [OF assms(2,1)] obtain e where e:
    "tfind ob_ID (ob_ID (or_Observation r)) (observations db1) = Some (stored_obs (or_Observation r))"
    "tfind ae_TargetID (ob_ID (or_Observation r)) (audit_events db1) = Some e" "ae_ID e = or_AuditID r" by blast
  have "obs_inv sha db1" using obs_inv_observe [OF assms(1), of env p] assms(2) by simp
  then have i: "obs_inv sha db2" unfolding assms(3) by (rule obs_log.run_inv)
  have g: "prefix (observations db1) (observations db2)" "prefix (audit_events db1) (audit_events db2)"
    using grows_run [of db1 sha cs] by (simp_all add: grows_def assms(3))
  from observe_again [OF i tfind_prefix [OF g(1) e(1)] tfind_prefix [OF g(2) e(2)] assms(4-6)]
  show ?thesis by (simp add: e(3) stored_obs_def)
qed

text \<open>A call that observes nothing but its kind, made twice.\<close>

definition wit_env :: obs_env where
  "wit_env = \<lparr>oe_fault = (\<lambda>_. False), oe_now = (\<lambda>_. 7), oe_random = (\<lambda>_. Some [])\<rparr>"

definition wit_observation :: ObservationParams where
  "wit_observation = \<lparr>op_ID = ''a'', op_Kind = ''compact'', op_WorkspaceID = [], op_ProfileID = [], op_PeerID = [], op_SessionKey = [],
     op_ContextID = [], op_Input = [], op_Output = [], op_Success = None, op_Metadata = [], op_ObservedAt = 5, op_Reason = []\<rparr>"

lemma wit_normalized:
  "\<exists>norm. normalizeObservationParams sha t wit_observation = Inr norm \<and> ob_ID (no_obs norm) = ''a''"
proof -
  have a: "trim_space ''a'' = ''a''" "valid_utf8 ''a''" "char_of (0 :: nat) \<notin> set ''a''" "trim_space ''compact'' = ''compact''"
    "isValidObservationKind ''compact''" by code_simp+
  have r: "redactObservationString [] = ([], 0, [])"
    by (simp add: redactObservationString_def observationRedactionRules_def redact_rule_def ReplaceAllStringFunc_def)
  show ?thesis
    using a by (simp add: Let_def normalizeObservationParams_def wit_observation_def normalizeObservationMetadata_def normalizeIDs_def
      normalizeObservationIDPart_def validateObservationTextID_def ToValidUTF8_def r truncateUTF8Bytes_def observationIDMaxBytes_def
      marshalObservationMetadata_def observationMetadataJSONMax_def)
qed

theorem observe_idempotent_witness:
  "\<exists>r db1. Observe (\<lambda>_. ''d'') wit_env wit_observation empty_observations = (Inr r, db1) \<and> or_Replayed r = False
    \<and> Observe (\<lambda>_. ''d'') wit_env wit_observation db1
      = (Inr \<lparr>or_Observation = stored_obs (or_Observation r), or_AuditID = or_AuditID r, or_Replayed = True\<rparr>, db1)"
proof -
  have i: "obs_inv (\<lambda>_. ''d'') empty_observations" by (simp add: obs_inv_def empty_observations_def)
  have f: "\<not> oe_fault wit_env s" for s by (simp add: wit_env_def)
  obtain norm where n: "normalizeObservationParams (\<lambda>_. ''d'') (oe_now wit_env 0) wit_observation = Inr norm" "ob_ID (no_obs norm) = ''a''"
    using wit_normalized by blast
  then obtain r db1 where o: "Observe (\<lambda>_. ''d'') wit_env wit_observation empty_observations = (Inr r, db1)" "or_Observation r = no_obs norm"
    "or_Replayed r = False"
    by (simp add: Observe_def observeTx_def wit_env_def empty_observations_def getObservationByID_def newObservationID_def insertAuditEvent_def
      insertObservation_def)
  have "ob_ID (no_obs norm) = ob_ID (or_Observation r)" using o(2) by simp
  from observe_idempotent [OF i o(1) _ f n(1) this, of db1 "[]"] o show ?thesis by auto
qed

end
