(* ===== verification/QueueStatus.thy ===== *)
theory QueueStatus
  imports DreamScheduler UnixTime
begin

text \<open>
  The queue status of \<open>internal/queuestatus/status.go\<close>: what it reports about the dreams of a workspace and an
  observer, read from the table of the dream scheduler.
\<close>

record WorkUnitStatus =
  wu_Completed :: int
  wu_InProgress :: int
  wu_Pending :: int
  wu_Total :: int

record DreamQueueStatus =
  dq_Status :: string
  dq_Enabled :: bool
  dq_TablePresent :: bool
  dq_Evidence :: "DreamStatusEvidence list"

record QueueStatusConfig =
  qc_DreamEnabled :: bool
  qc_WorkspaceID :: string
  qc_ObserverPeerID :: string
  qc_Now :: int
  qc_DreamIdleTimeout :: int

text \<open>The work units by task type; \<open>sessions\<close> is always absent.\<close>

record queue_status =
  qs_Status :: string
  qs_ObservabilityOnly :: bool
  qs_WorkUnits :: "(string \<times> WorkUnitStatus) list"
  qs_Dream :: DreamQueueStatus
  qs_Degraded :: bool
  qs_Message :: string

record queue_defaults =
  qd_WorkspaceID :: string
  qd_ObserverPeerID :: string
  qd_DreamIdleTimeout :: int

datatype queue_site = QNilDB | QCtx | QTable | QCounts | QActive | QCooldown

datatype queue_error = QueueError queue_site

definition TaskTypes :: "string list" where
  "TaskTypes = [''representation'', ''summary'', ''dream'']"

definition no_units :: WorkUnitStatus where
  "no_units = \<lparr>wu_Completed = 0, wu_InProgress = 0, wu_Pending = 0, wu_Total = 0\<rparr>"

definition disabled_dreams :: "QueueStatusConfig \<Rightarrow> DreamQueueStatus" where
  "disabled_dreams cfg = \<lparr>dq_Status = ''dream_disabled'', dq_Enabled = False, dq_TablePresent = False,
     dq_Evidence = [DisabledEvidence (qc_WorkspaceID cfg) (qc_ObserverPeerID cfg) []]\<rparr>"

definition no_config :: QueueStatusConfig where
  "no_config = \<lparr>qc_DreamEnabled = False, qc_WorkspaceID = [], qc_ObserverPeerID = [], qc_Now = zero_time, qc_DreamIdleTimeout = 0\<rparr>"

definition effectiveConfig :: "int \<Rightarrow> queue_defaults \<Rightarrow> QueueStatusConfig option \<Rightarrow> QueueStatusConfig" where
  "effectiveConfig now defaults cfgs =
     (let cfg = (case cfgs of None \<Rightarrow> no_config | Some c \<Rightarrow> c);
          ws = trim_space (qc_WorkspaceID cfg); observer = trim_space (qc_ObserverPeerID cfg);
          idle = (if qc_DreamIdleTimeout cfg \<le> 0 then qd_DreamIdleTimeout defaults else qc_DreamIdleTimeout cfg) in
      cfg\<lparr>qc_WorkspaceID := (if ws = [] then trim_space (qd_WorkspaceID defaults) else ws),
        qc_ObserverPeerID := (if observer = [] then trim_space (qd_ObserverPeerID defaults) else observer),
        qc_Now := (if qc_Now cfg = zero_time then now else qc_Now cfg),
        qc_DreamIdleTimeout := (if idle \<le> 0 then 3600000000000 else idle)\<rparr>)"

definition Zero :: "int \<Rightarrow> queue_defaults \<Rightarrow> queue_status" where
  "Zero now defaults =
     \<lparr>qs_Status = ''degraded'', qs_ObservabilityOnly = True, qs_WorkUnits = map (\<lambda>t. (t, no_units)) TaskTypes,
      qs_Dream = disabled_dreams (effectiveConfig now defaults None), qs_Degraded = True,
      qs_Message = ''no dedicated Goncho task queue exists yet; zero tracked work units; queue status is for observability and debugging, do not wait for an empty queue''\<rparr>"

section \<open>Statements\<close>

definition of_observer :: "string \<Rightarrow> string \<Rightarrow> dream_row \<Rightarrow> bool" where
  "of_observer ws observer r \<longleftrightarrow> in_WorkspaceID (dw_Intent r) = ws \<and> in_ObserverPeerID (dw_Intent r) = observer"

text \<open>\<open>SELECT status, COUNT(*) ... GROUP BY status\<close> and the loop over its rows.\<close>

definition status_counts :: "string \<Rightarrow> string \<Rightarrow> (int \<times> dream_row) list \<Rightarrow> (string \<times> int) list" where
  "status_counts ws observer rows =
     (let statuses = map (\<lambda>(i, r). in_Status (dw_Intent r)) (filter (\<lambda>(i, r). of_observer ws observer r) rows) in
      map (\<lambda>s. (s, int (count_list statuses s))) (remdups statuses))"

definition add_count :: "string \<times> int \<Rightarrow> WorkUnitStatus \<Rightarrow> WorkUnitStatus" where
  "add_count sc c =
     (let c1 = c\<lparr>wu_Total := wu_Total c + snd sc\<rparr> in
      if fst sc = ''pending'' then c1\<lparr>wu_Pending := snd sc\<rparr>
      else if fst sc = ''in_progress'' then c1\<lparr>wu_InProgress := snd sc\<rparr>
      else if fst sc = ''completed'' then c1\<lparr>wu_Completed := snd sc\<rparr>
      else c1)"

definition readDreamWorkUnitCounts :: "(queue_site \<Rightarrow> bool) \<Rightarrow> string \<Rightarrow> string \<Rightarrow> dream_db \<Rightarrow> queue_error + WorkUnitStatus" where
  "readDreamWorkUnitCounts flt ws observer db =
     (if flt QCounts then Inl (QueueError QCounts)
      else Inr (fold add_count (status_counts ws observer (arows (dreams db))) no_units))"

text \<open>\<open>COALESCE(NULLIF(cooldown_until, 0), COALESCE(completed_at, updated_at) + ?)\<close> with the default cooldown.\<close>

definition cooldown_end :: "dream_row \<Rightarrow> int" where
  "cooldown_end r =
     (if in_CooldownUntil (dw_Intent r) \<noteq> 0 then in_CooldownUntil (dw_Intent r)
      else (case dw_CompletedAt r of None \<Rightarrow> dw_UpdatedAt r | Some t \<Rightarrow> t) + 28800)"

definition readDreamStatusEvidence :: "(queue_site \<Rightarrow> bool) \<Rightarrow> QueueStatusConfig \<Rightarrow> dream_db \<Rightarrow> queue_error + DreamStatusEvidence list" where
  "readDreamStatusEvidence flt cfg db =
     (let mine = filter (\<lambda>(i, r). of_observer (qc_WorkspaceID cfg) (qc_ObserverPeerID cfg) r) (arows (dreams db));
          now = Seconds (qc_Now cfg);
          active_rows = take 10 (order_desc (\<lambda>(i, r). (dw_UpdatedAt r, i)) (filter (\<lambda>(i, r). active r) mine));
          cooling_rows = take 10 (order_desc (\<lambda>(i, r). (cooldown_end r, i))
            (filter (\<lambda>(i, r). in_Status (dw_Intent r) = ''completed'' \<and> now < cooldown_end r) mine)) in
      if flt QActive then Inl (QueueError QActive)
      else if flt QCooldown then Inl (QueueError QCooldown)
      else Inr (map (\<lambda>x. EvidenceFromIntent (intent_of x)) active_rows
        @ map (\<lambda>x. (EvidenceFromIntent ((intent_of x)\<lparr>in_CooldownUntil := cooldown_end (snd x)\<rparr>))
              \<lparr>de_Code := ''dream_cooldown'', de_Reason := ''dream cooldown has not elapsed since the last completed dream''\<rparr>)
            cooling_rows))"

definition readDreamQueueStatus :: "(queue_site \<Rightarrow> bool) \<Rightarrow> QueueStatusConfig \<Rightarrow> dream_db \<Rightarrow> queue_error + DreamQueueStatus \<times> WorkUnitStatus" where
  "readDreamQueueStatus flt cfg db =
     (if \<not> qc_DreamEnabled cfg then Inr (disabled_dreams cfg, no_units)
      else if flt QTable then Inl (QueueError QTable)
      else if \<not> dreams_present db then
        Inr (\<lparr>dq_Status = ''dream_unavailable'', dq_Enabled = True, dq_TablePresent = False,
          dq_Evidence = [UnavailableEvidence (qc_WorkspaceID cfg) (qc_ObserverPeerID cfg) []]\<rparr>, no_units)
      else case readDreamWorkUnitCounts flt (qc_WorkspaceID cfg) (qc_ObserverPeerID cfg) db of
        Inl e \<Rightarrow> Inl e
      | Inr counts \<Rightarrow>
          (case readDreamStatusEvidence flt cfg db of
             Inl e \<Rightarrow> Inl e
           | Inr evidence \<Rightarrow>
               Inr (\<lparr>dq_Status = (if 0 < wu_Pending counts \<or> 0 < wu_InProgress counts then ''active''
                     else if list_ex (\<lambda>item. de_Code item = ''dream_cooldown'') evidence then ''cooldown'' else ''idle''),
                  dq_Enabled = True, dq_TablePresent = True, dq_Evidence = evidence\<rparr>, counts)))"

text \<open>\<open>Read\<close>; the configuration is the optional argument.\<close>

definition ReadQueue :: "(queue_site \<Rightarrow> bool) \<Rightarrow> int \<Rightarrow> queue_defaults \<Rightarrow> QueueStatusConfig option \<Rightarrow> dream_db \<Rightarrow> queue_error + queue_status" where
  "ReadQueue flt now defaults cfgs db =
     (if flt QNilDB then Inl (QueueError QNilDB)
      else if flt QCtx then Inl (QueueError QCtx)
      else
        let cfg = effectiveConfig now defaults cfgs; status = Zero now defaults in
        case readDreamQueueStatus flt cfg db of
          Inl e \<Rightarrow> Inl e
        | Inr (dream, counts) \<Rightarrow>
            Inr (status\<lparr>qs_Dream := dream,
              qs_WorkUnits := map (\<lambda>(t, u). if t = ''dream'' then (t, counts) else (t, u)) (qs_WorkUnits status),
              qs_Message := (if 0 < wu_Total counts then ''no dedicated Goncho representation/summary worker queue exists yet; dream work intent is tracked locally for observability and debugging, do not wait for an empty queue''
                else qs_Message status)\<rparr>))"

section \<open>The counts\<close>

definition status_count :: "string \<Rightarrow> string \<Rightarrow> string \<Rightarrow> dream_db \<Rightarrow> int" where
  "status_count ws observer s db =
     int (length (filter (\<lambda>(i, r). of_observer ws observer r \<and> in_Status (dw_Intent r) = s) (arows (dreams db))))"

lemma add_count_parts:
  "wu_Total (add_count (s, n) c) = wu_Total c + n"
  "wu_Pending (add_count (s, n) c) = (if s = ''pending'' then n else wu_Pending c)"
  "wu_InProgress (add_count (s, n) c) = (if s = ''in_progress'' then n else wu_InProgress c)"
  "wu_Completed (add_count (s, n) c) = (if s = ''completed'' then n else wu_Completed c)"
  by (simp_all add: add_count_def Let_def)

lemma fold_add_count:
  assumes "distinct (map fst xs)"
  shows "wu_Total (fold add_count xs c) = wu_Total c + sum_list (map snd xs)
    \<and> wu_Pending (fold add_count xs c) = (case map_of xs ''pending'' of None \<Rightarrow> wu_Pending c | Some n \<Rightarrow> n)
    \<and> wu_InProgress (fold add_count xs c) = (case map_of xs ''in_progress'' of None \<Rightarrow> wu_InProgress c | Some n \<Rightarrow> n)
    \<and> wu_Completed (fold add_count xs c) = (case map_of xs ''completed'' of None \<Rightarrow> wu_Completed c | Some n \<Rightarrow> n)"
  using assms
proof (induction xs arbitrary: c)
  case (Cons x xs)
  obtain s n where x: "x = (s, n)" by (cases x)
  then have absent: "map_of xs s = None" using Cons.prems by (auto simp: map_of_eq_None_iff)
  from Cons.IH [of "add_count x c"] Cons.prems absent show ?case
    unfolding x by (auto simp: add_count_parts split: option.split)
qed simp

lemma sum_count_list: "sum_list (map (\<lambda>s. int (count_list xs s)) (remdups xs)) = int (length xs)"
proof -
  have "sum_list (map (\<lambda>s. int (count_list xs s)) (remdups xs)) = (\<Sum>s \<in> set xs. int (count_list xs s))"
    by (subst sum_list_distinct_conv_sum_set) simp_all
  also have "\<dots> = int (length xs)" using sum_count_set [of xs "set xs"] by (simp flip: of_nat_sum)
  finally show ?thesis .
qed

lemma readDreamWorkUnitCounts_exact:
  assumes "readDreamWorkUnitCounts flt ws observer db = Inr c"
  shows "wu_Pending c = status_count ws observer ''pending'' db" "wu_InProgress c = status_count ws observer ''in_progress'' db"
    "wu_Completed c = status_count ws observer ''completed'' db"
    "wu_Total c = int (length (filter (\<lambda>(i, r). of_observer ws observer r) (arows (dreams db))))"
proof -
  let ?mine = "filter (\<lambda>(i, r). of_observer ws observer r) (arows (dreams db))"
  let ?ss = "map (\<lambda>(i, r). in_Status (dw_Intent r)) ?mine"
  let ?sc = "status_counts ws observer (arows (dreams db))"
  have sc: "?sc = map (\<lambda>s. (s, int (count_list ?ss s))) (remdups ?ss)" by (simp add: status_counts_def Let_def)
  have c: "c = fold add_count ?sc no_units" using assms by (simp add: readDreamWorkUnitCounts_def split: if_splits)
  have count: "int (count_list ?ss s) = status_count ws observer s db" for s
  proof -
    have "count_list (map f xs) s = length (filter (\<lambda>x. f x = s) xs)" for f and xs :: "(int \<times> dream_row) list"
      by (induction xs) auto
    then show ?thesis by (simp add: status_count_def conj_comms split_def)
  qed
  have found: "(case map_of ?sc s of None \<Rightarrow> 0 | Some n \<Rightarrow> n) = status_count ws observer s db" for s
  proof (cases "s \<in> set ?ss")
    case True
    then have "map_of ?sc s = Some (int (count_list ?ss s))" unfolding sc by (simp add: map_of_map_restrict restrict_map_def)
    then show ?thesis using count by simp
  next
    case False
    then have "map_of ?sc s = None" "count_list ?ss s = 0" unfolding sc by (auto simp: map_of_eq_None_iff count_list_0_iff)
    then show ?thesis using count [of s] by simp
  qed
  have "distinct (map fst ?sc)" unfolding sc by (simp add: comp_def)
  note parts = fold_add_count [OF this, of no_units]
  have zero: "wu_Total no_units = 0" "wu_Pending no_units = 0" "wu_InProgress no_units = 0" "wu_Completed no_units = 0"
    by (simp_all add: no_units_def)
  have total: "sum_list (map snd ?sc) = int (length ?mine)" using sum_count_list [of ?ss] unfolding sc by (simp add: comp_def)
  show "wu_Pending c = status_count ws observer ''pending'' db" "wu_InProgress c = status_count ws observer ''in_progress'' db"
    "wu_Completed c = status_count ws observer ''completed'' db" "wu_Total c = int (length ?mine)"
    using parts unfolding c zero total found by simp_all
qed

section \<open>What the status says\<close>

definition cooling :: "string \<Rightarrow> string \<Rightarrow> int \<Rightarrow> dream_row \<Rightarrow> bool" where
  "cooling ws observer now r \<longleftrightarrow> of_observer ws observer r \<and> in_Status (dw_Intent r) = ''completed'' \<and> now < cooldown_end r"

definition running :: "string \<Rightarrow> string \<Rightarrow> dream_row \<Rightarrow> bool" where
  "running ws observer r \<longleftrightarrow> of_observer ws observer r \<and> active r"

lemma status_count_pos: "0 < status_count ws observer s db \<longleftrightarrow>
    list_ex (\<lambda>(i, r). of_observer ws observer r \<and> in_Status (dw_Intent r) = s) (arows (dreams db))"
  by (auto simp: status_count_def list_ex_iff length_greater_0_conv [symmetric] filter_empty_conv simp del: length_greater_0_conv)

lemma take_ten_Nil: "take 10 xs = [] \<longleftrightarrow> xs = []"
  by (cases xs) auto

text \<open>When no dream is pending or running, all evidence is of dreams that cool down.\<close>

lemma cooldown_evidence:
  assumes "readDreamStatusEvidence flt cfg db = Inr ev"
    and "\<not> list_ex (\<lambda>(i, r). running (qc_WorkspaceID cfg) (qc_ObserverPeerID cfg) r) (arows (dreams db))"
  shows "list_ex (\<lambda>item. de_Code item = ''dream_cooldown'') ev \<longleftrightarrow>
    list_ex (\<lambda>(i, r). cooling (qc_WorkspaceID cfg) (qc_ObserverPeerID cfg) (Seconds (qc_Now cfg)) r) (arows (dreams db))"
proof -
  let ?mine = "filter (\<lambda>(i, r). of_observer (qc_WorkspaceID cfg) (qc_ObserverPeerID cfg) r) (arows (dreams db))"
  have "filter (\<lambda>(i, r). active r) ?mine = []" using assms(2) by (auto simp: filter_empty_conv list_ex_iff running_def)
  moreover define B where "B = take 10 (order_desc (\<lambda>(i, r). (cooldown_end r, i))
      (filter (\<lambda>(i, r). in_Status (dw_Intent r) = ''completed'' \<and> Seconds (qc_Now cfg) < cooldown_end r) ?mine))"
  ultimately have "ev = map (\<lambda>x. (EvidenceFromIntent ((intent_of x)\<lparr>in_CooldownUntil := cooldown_end (snd x)\<rparr>))
      \<lparr>de_Code := ''dream_cooldown'', de_Reason := ''dream cooldown has not elapsed since the last completed dream''\<rparr>) B"
    using assms(1) by (simp add: readDreamStatusEvidence_def Let_def order_desc_def split: if_splits)
  then have "list_ex (\<lambda>item. de_Code item = ''dream_cooldown'') ev \<longleftrightarrow> B \<noteq> []" by (cases B) simp_all
  also have "\<dots> \<longleftrightarrow> list_ex (\<lambda>(i, r). cooling (qc_WorkspaceID cfg) (qc_ObserverPeerID cfg) (Seconds (qc_Now cfg)) r) (arows (dreams db))"
    unfolding B_def take_ten_Nil order_desc_Nil by (auto simp: filter_empty_conv list_ex_iff cooling_def)
  finally show ?thesis .
qed

lemma readDreamQueueStatus_exact:
  assumes "readDreamQueueStatus flt cfg db = Inr (q, c)" "qc_DreamEnabled cfg" "dreams_present db"
    and "ws = qc_WorkspaceID cfg" "ob = qc_ObserverPeerID cfg"
  shows "readDreamWorkUnitCounts flt ws ob db = Inr c"
    and "dq_Status q = (if list_ex (\<lambda>(i, r). running ws ob r) (arows (dreams db)) then ''active''
        else if list_ex (\<lambda>(i, r). cooling ws ob (Seconds (qc_Now cfg)) r) (arows (dreams db)) then ''cooldown'' else ''idle'')"
proof -
  obtain ev where counts: "readDreamWorkUnitCounts flt ws ob db = Inr c" and ev: "readDreamStatusEvidence flt cfg db = Inr ev"
      and q: "dq_Status q = (if 0 < wu_Pending c \<or> 0 < wu_InProgress c then ''active''
         else if list_ex (\<lambda>item. de_Code item = ''dream_cooldown'') ev then ''cooldown'' else ''idle'')"
    using assms by (auto simp: readDreamQueueStatus_def split: if_splits sum.splits)
  from counts show "readDreamWorkUnitCounts flt ws ob db = Inr c" .
  have "0 < wu_Pending c \<or> 0 < wu_InProgress c \<longleftrightarrow> list_ex (\<lambda>(i, r). running ws ob r) (arows (dreams db))"
    unfolding readDreamWorkUnitCounts_exact [OF counts] status_count_pos by (auto simp: list_ex_iff running_def active_def)
  with q cooldown_evidence [OF ev] assms(4,5)
  show "dq_Status q = (if list_ex (\<lambda>(i, r). running ws ob r) (arows (dreams db)) then ''active''
        else if list_ex (\<lambda>(i, r). cooling ws ob (Seconds (qc_Now cfg)) r) (arows (dreams db)) then ''cooldown'' else ''idle'')"
    by simp
qed

lemma ReadQueue_parts:
  assumes "ReadQueue flt now defaults cfgs db = Inr s"
  obtains c where "readDreamQueueStatus flt (effectiveConfig now defaults cfgs) db = Inr (qs_Dream s, c)"
    "qs_WorkUnits s = [(''representation'', no_units), (''summary'', no_units), (''dream'', c)]"
  using assms by (auto simp: ReadQueue_def Zero_def TaskTypes_def Let_def split: if_splits sum.splits prod.splits)

text \<open>
  The queue status tells the truth about dreams.  Whatever rows the table holds and whatever configuration and
  defaults are given, a status that is returned reports no representation and summary work; for dreams, when they are
  enabled and the table exists, it reports the numbers of the pending, running and completed rows of the effective
  workspace and observer and of all their rows, and it is active exactly when one of them is pending or running,
  otherwise cooldown exactly when a completed one has not cooled down at the given time, otherwise idle; disabled
  dreams and a missing table are reported as such with zero counts.
\<close>

theorem queue_status_truthful:
  assumes "ReadQueue flt now defaults cfgs db = Inr s"
    and "cfg = effectiveConfig now defaults cfgs" "ws = qc_WorkspaceID cfg" "ob = qc_ObserverPeerID cfg"
    and "rows = filter (\<lambda>(i, r). of_observer ws ob r) (arows (dreams db))"
  shows "\<exists>c. qs_WorkUnits s = [(''representation'', no_units), (''summary'', no_units), (''dream'', c)]
    \<and> (if \<not> qc_DreamEnabled cfg then c = no_units \<and> dq_Status (qs_Dream s) = ''dream_disabled''
       else if \<not> dreams_present db then c = no_units \<and> dq_Status (qs_Dream s) = ''dream_unavailable''
       else wu_Total c = int (length rows)
         \<and> wu_Pending c = int (length (filter (\<lambda>(i, r). in_Status (dw_Intent r) = ''pending'') rows))
         \<and> wu_InProgress c = int (length (filter (\<lambda>(i, r). in_Status (dw_Intent r) = ''in_progress'') rows))
         \<and> wu_Completed c = int (length (filter (\<lambda>(i, r). in_Status (dw_Intent r) = ''completed'') rows))
         \<and> dq_Status (qs_Dream s) =
             (if list_ex (\<lambda>(i, r). active r) rows then ''active''
              else if list_ex (\<lambda>(i, r). in_Status (dw_Intent r) = ''completed'' \<and> Seconds (qc_Now cfg) < cooldown_end r) rows
              then ''cooldown'' else ''idle''))"
proof -
  obtain c where read: "readDreamQueueStatus flt cfg db = Inr (qs_Dream s, c)"
    and units: "qs_WorkUnits s = [(''representation'', no_units), (''summary'', no_units), (''dream'', c)]"
    using ReadQueue_parts [OF assms(1)] assms(2) by blast
  show ?thesis
  proof (cases "qc_DreamEnabled cfg \<and> dreams_present db")
    case False
    with read units show ?thesis by (auto simp: readDreamQueueStatus_def disabled_dreams_def dest!: sym [of _ "qs_Dream s"] split: if_splits)
  next
    case True
    then have on: "qc_DreamEnabled cfg" "dreams_present db" by simp_all
    note exact = readDreamQueueStatus_exact [OF read on assms(3,4)]
    have run: "list_ex (\<lambda>(i, r). running ws ob r) (arows (dreams db)) \<longleftrightarrow> list_ex (\<lambda>(i, r). active r) rows"
        "list_ex (\<lambda>(i, r). cooling ws ob (Seconds (qc_Now cfg)) r) (arows (dreams db)) \<longleftrightarrow>
          list_ex (\<lambda>(i, r). in_Status (dw_Intent r) = ''completed'' \<and> Seconds (qc_Now cfg) < cooldown_end r) rows"
      by (auto simp: assms(5) list_ex_iff running_def cooling_def)
    have n: "status_count ws ob st db = int (length (filter (\<lambda>(i, r). in_Status (dw_Intent r) = st) rows))" for st
      by (simp add: assms(5) status_count_def split_def conj_comms)
    from readDreamWorkUnitCounts_exact [OF exact(1)] exact(2) units on show ?thesis
      unfolding run n by (simp add: assms(5))
  qed
qed

text \<open>A completed dream, a cancelled one and a pending one.\<close>

definition qw_config :: QueueStatusConfig where
  "qw_config = \<lparr>qc_DreamEnabled = True, qc_WorkspaceID = '' w'', qc_ObserverPeerID = [], qc_Now = 500000000000, qc_DreamIdleTimeout = 1\<rparr>"

definition qw_defaults :: queue_defaults where
  "qw_defaults = \<lparr>qd_WorkspaceID = ''v'', qd_ObserverPeerID = ''o'', qd_DreamIdleTimeout = 0\<rparr>"

definition qw_schedule :: "string \<Rightarrow> int \<Rightarrow> dream_event" where
  "qw_schedule peer now = EvSchedule (\<lambda>_. False)
     \<lparr>dc_WorkspaceID = ''w'', dc_ObserverPeerID = ''o'', dc_DreamEnabled = True, dc_IdleTimeout = 0, dc_MinConclusions = 0, dc_Cooldown = 0\<rparr>
     \<lparr>dp_Peer = peer, dp_Now = now, dp_Manual = True, dp_Reason = []\<rparr>"

definition qw_completed :: "dream_event list" where
  "qw_completed = [qw_schedule ''p'' 10, EvExternal (completed_row 1 30) aempty]"

definition qw_db :: dream_db where
  "qw_db = fold dream_step (qw_completed @ [qw_schedule ''q'' 40, EvCancelPending (\<lambda>_. False) ''w'' ''q'' 50 [], qw_schedule ''q'' 60])
     \<lparr>dreams_present = True, dreams = aempty, conclusions = aempty\<rparr>"

lemma qw_ok: "case ReadQueue (\<lambda>_. False) 7 qw_defaults (Some qw_config) qw_db of Inl _ \<Rightarrow> False
    | Inr s \<Rightarrow> map (\<lambda>(t, u). (wu_Total u, wu_Pending u, wu_Completed u)) (qs_WorkUnits s) = [(0, 0, 0), (0, 0, 0), (3, 1, 1)]"
  by code_simp

theorem queue_status_truthful_witness:
  "\<exists>s. ReadQueue (\<lambda>_. False) 7 qw_defaults (Some qw_config) qw_db = Inr s \<and> dq_Status (qs_Dream s) = ''active''
     \<and> map (\<lambda>(t, u). (wu_Total u, wu_Pending u, wu_Completed u)) (qs_WorkUnits s) = [(0, 0, 0), (0, 0, 0), (3, 1, 1)]"
proof -
  obtain s where s: "ReadQueue (\<lambda>_. False) 7 qw_defaults (Some qw_config) qw_db = Inr s"
    "map (\<lambda>(t, u). (wu_Total u, wu_Pending u, wu_Completed u)) (qs_WorkUnits s) = [(0, 0, 0), (0, 0, 0), (3, 1, 1)]"
    using qw_ok by (auto split: sum.splits)
  have on: "qc_DreamEnabled (effectiveConfig 7 qw_defaults (Some qw_config))" "dreams_present qw_db"
      "list_ex (\<lambda>(i, r). active r) (filter (\<lambda>(i, r). of_observer (qc_WorkspaceID (effectiveConfig 7 qw_defaults (Some qw_config)))
        (qc_ObserverPeerID (effectiveConfig 7 qw_defaults (Some qw_config))) r) (arows (dreams qw_db)))" by code_simp+
  from queue_status_truthful [OF s(1) refl refl refl refl] on s show ?thesis by (auto split: if_splits)
qed

text \<open>A completed dream whose stored cooldown end is 0 cools down for the default time, whatever cooldown is configured.\<close>

lemma configured_cooldown_ignored:
  "let db = fold dream_step qw_completed \<lparr>dreams_present = True, dreams = aempty, conclusions = aempty\<rparr> in
   el_cooldownUntil (readEligibility db ''w'' ''o'' ''p'' 0 1000000000) = 31
   \<and> map (\<lambda>(i, r). cooldown_end r) (arows (dreams db)) = [28830]"
  by code_simp

end
