(* ===== verification/SessionMap.thy ===== *)
theory SessionMap
  imports CrossChat "HOL-Library.Multiset"
begin

text \<open>
  The session directory that the repository provides (\<open>session/session.go\<close>): three maps behind one mutex, so every
  call is one step.  A map is a table with one row per key; the order in which a listing visits the sessions is the
  parameter \<open>order\<close>.  \<open>cancelled\<close> says that the context of a call is done.
\<close>

record mem_map =
  mm_kv :: "(string \<times> string) list"
  mm_meta :: "SessionMetadata list"
  mm_chatUsers :: "(string \<times> string) list"

definition NewMemMap :: mem_map where
  "NewMemMap = \<lparr>mm_kv = [], mm_meta = [], mm_chatUsers = []\<rparr>"

datatype session_error = ContextDone

interpretation session_pairs: replacing_table fst "\<lambda>_ r. r"
  by unfold_locales simp_all

interpretation session_metas: replacing_table md_SessionID "\<lambda>_ r. r"
  by unfold_locales simp_all

definition chatBindingKey :: "string \<Rightarrow> string \<Rightarrow> string" where
  "chatBindingKey source chatID = source @ [char_of (0 :: nat)] @ chatID"

definition normalizeMetadata :: "int \<Rightarrow> SessionMetadata \<Rightarrow> SessionMetadata" where
  "normalizeMetadata now meta =
     (let kind = trim_space (md_LineageKind meta); created = (if md_CreatedAt meta = 0 then now else md_CreatedAt meta) in
      \<lparr>md_SessionID = trim_space (md_SessionID meta), md_Source = trim_space (md_Source meta), md_ChatID = trim_space (md_ChatID meta),
       md_UserID = trim_space (md_UserID meta), md_Title = trim_space (md_Title meta),
       md_ParentSessionID = trim_space (md_ParentSessionID meta), md_LineageKind = (if kind = [] then ''primary'' else kind),
       md_CreatedAt = created, md_UpdatedAt = (if md_UpdatedAt meta = 0 then created else md_UpdatedAt meta)\<rparr>)"

definition Get :: "bool \<Rightarrow> string \<Rightarrow> mem_map \<Rightarrow> session_error + string" where
  "Get cancelled key m =
     (if cancelled then Inl ContextDone else Inr (case tfind fst key (mm_kv m) of None \<Rightarrow> [] | Some (k, v) \<Rightarrow> v))"

definition Put :: "bool \<Rightarrow> string \<Rightarrow> string \<Rightarrow> mem_map \<Rightarrow> (session_error + unit) \<times> mem_map" where
  "Put cancelled key sessionID m =
     (if cancelled then (Inl ContextDone, m)
      else if trim_space sessionID = [] then (Inr (), m\<lparr>mm_kv := tdelete (\<lambda>r. fst r = key) (mm_kv m)\<rparr>)
      else (Inr (), m\<lparr>mm_kv := tupsert fst (\<lambda>_ r. r) (key, sessionID) (mm_kv m)\<rparr>))"

definition PutMetadata :: "bool \<Rightarrow> int \<Rightarrow> SessionMetadata \<Rightarrow> mem_map \<Rightarrow> (session_error + unit) \<times> mem_map" where
  "PutMetadata cancelled now meta0 m =
     (if cancelled then (Inl ContextDone, m)
      else
        let meta = normalizeMetadata now meta0; m1 = m\<lparr>mm_meta := tupsert md_SessionID (\<lambda>_ r. r) meta (mm_meta m)\<rparr> in
        if md_Source meta \<noteq> [] \<and> md_ChatID meta \<noteq> [] \<and> md_UserID meta \<noteq> [] then
          (Inr (), m1\<lparr>mm_chatUsers := tupsert fst (\<lambda>_ r. r) (chatBindingKey (md_Source meta) (md_ChatID meta), md_UserID meta) (mm_chatUsers m1)\<rparr>)
        else (Inr (), m1))"

definition ResolveUserID :: "bool \<Rightarrow> string \<Rightarrow> string \<Rightarrow> mem_map \<Rightarrow> session_error + string \<times> bool" where
  "ResolveUserID cancelled source chatID m =
     (if cancelled then Inl ContextDone
      else Inr (case tfind fst (chatBindingKey (trim_space source) (trim_space chatID)) (mm_chatUsers m) of
          None \<Rightarrow> ([], False) | Some (k, u) \<Rightarrow> (u, True)))"

definition ListMetadataByUserID :: "(SessionMetadata list \<Rightarrow> SessionMetadata list) \<Rightarrow> bool \<Rightarrow> string \<Rightarrow> mem_map
    \<Rightarrow> session_error + SessionMetadata list" where
  "ListMetadataByUserID order cancelled userID m =
     (if cancelled then Inl ContextDone else Inr (filter (\<lambda>r. md_UserID r = trim_space userID) (order (mm_meta m))))"

section \<open>Histories\<close>

datatype session_map_event =
    EvPut bool string string
  | EvPutMetadata bool int SessionMetadata

fun session_map_step :: "session_map_event \<Rightarrow> mem_map \<Rightarrow> mem_map" where
  "session_map_step (EvPut cancelled key sessionID) m = snd (Put cancelled key sessionID m)"
| "session_map_step (EvPutMetadata cancelled now meta) m = snd (PutMetadata cancelled now meta m)"

text \<open>The specification: three functions, of which a call changes one value or two.\<close>

record session_spec =
  sm_session :: "string \<Rightarrow> string option"
  sm_meta :: "string \<Rightarrow> SessionMetadata option"
  sm_user :: "string \<Rightarrow> string option"

fun session_spec_step :: "session_map_event \<Rightarrow> session_spec \<Rightarrow> session_spec" where
  "session_spec_step (EvPut cancelled key sessionID) s =
     (if cancelled then s else s\<lparr>sm_session := (sm_session s)(key := if trim_space sessionID = [] then None else Some sessionID)\<rparr>)"
| "session_spec_step (EvPutMetadata cancelled now meta) s =
     (if cancelled then s
      else let m = normalizeMetadata now meta in
        s\<lparr>sm_meta := (sm_meta s)(md_SessionID m \<mapsto> m),
          sm_user := (if md_Source m \<noteq> [] \<and> md_ChatID m \<noteq> [] \<and> md_UserID m \<noteq> []
            then (sm_user s)(chatBindingKey (md_Source m) (md_ChatID m) \<mapsto> md_UserID m) else sm_user s)\<rparr>)"

definition session_abs :: "mem_map \<Rightarrow> session_spec" where
  "session_abs m = \<lparr>sm_session = (\<lambda>k. map_option snd (tfind fst k (mm_kv m))), sm_meta = (\<lambda>k. tfind md_SessionID k (mm_meta m)),
     sm_user = (\<lambda>k. map_option snd (tfind fst k (mm_chatUsers m)))\<rparr>"

definition session_map_inv :: "mem_map \<Rightarrow> bool" where
  "session_map_inv m \<longleftrightarrow> unique_keys fst (mm_kv m) \<and> unique_keys md_SessionID (mm_meta m) \<and> unique_keys fst (mm_chatUsers m)
     \<and> list_all (\<lambda>(k, u). trim_space u = u \<and> u \<noteq> []) (mm_chatUsers m)
     \<and> list_all (\<lambda>r. trim_space (md_UserID r) = md_UserID r) (mm_meta m)"

lemma normalizeMetadata_simps [simp]:
  "md_SessionID (normalizeMetadata now m) = trim_space (md_SessionID m)" "md_Source (normalizeMetadata now m) = trim_space (md_Source m)"
  "md_ChatID (normalizeMetadata now m) = trim_space (md_ChatID m)" "md_UserID (normalizeMetadata now m) = trim_space (md_UserID m)"
  by (simp_all add: normalizeMetadata_def Let_def)

lemma list_all_upsert: "list_all P t \<Longrightarrow> P r \<Longrightarrow> list_all P (tupsert key (\<lambda>_ r. r) r t)"
  by (induction t) auto

lemma session_step_inv: "session_map_inv m \<Longrightarrow> session_map_inv (session_map_step e m)"
  by (cases e) (simp_all add: session_map_inv_def Put_def PutMetadata_def Let_def list_all_upsert)

lemma find_pair_upsert: "map_option snd (tfind fst k (tupsert fst (\<lambda>_ r. r) (k', v) t)) = (if k = k' then Some v else map_option snd (tfind fst k t))"
  by (induction t) auto

lemma find_meta_upsert: "tfind md_SessionID k (tupsert md_SessionID (\<lambda>_ r. r) m t) = (if k = md_SessionID m then Some m else tfind md_SessionID k t)"
  by (induction t) auto

lemma session_step_abs: "session_abs (session_map_step e m) = session_spec_step e (session_abs m)"
  by (cases e)
    (auto simp: session_abs_def Put_def PutMetadata_def Let_def tfind_tdelete_key find_pair_upsert find_meta_upsert fun_eq_iff)

interpretation session_maps: simulation session_map_step session_map_inv session_abs session_spec_step
  by unfold_locales (simp_all add: session_step_inv session_step_abs)

lemma NewMemMap_ok: "session_map_inv NewMemMap"
  "session_abs NewMemMap = \<lparr>sm_session = (\<lambda>_. None), sm_meta = (\<lambda>_. None), sm_user = (\<lambda>_. None)\<rparr>"
  by (simp_all add: session_map_inv_def session_abs_def NewMemMap_def)

definition session_history :: "session_map_event list \<Rightarrow> session_spec" where
  "session_history es = fold session_spec_step es \<lparr>sm_session = (\<lambda>_. None), sm_meta = (\<lambda>_. None), sm_user = (\<lambda>_. None)\<rparr>"

text \<open>
  The session directory is its history: after any calls, \<open>Get\<close> returns the last session put under the key and
  nothing after a blank one, \<open>ResolveUserID\<close> the user of the last metadata that bound the chat, and
  \<open>ListMetadataByUserID\<close> returns each session once whose last metadata names the user, and no other.
\<close>

theorem session_directory_refines_history:
  assumes "\<And>xs. mset (order xs) = mset xs"
  shows "let m = fold session_map_step es NewMemMap in
    Get False key m = Inr (case sm_session (session_history es) key of None \<Rightarrow> [] | Some s \<Rightarrow> s)
    \<and> ResolveUserID False source chatID m
        = Inr (case sm_user (session_history es) (chatBindingKey (trim_space source) (trim_space chatID)) of None \<Rightarrow> ([], False) | Some u \<Rightarrow> (u, True))
    \<and> (\<exists>ms. ListMetadataByUserID order False userID m = Inr ms \<and> distinct (map md_SessionID ms)
        \<and> (\<forall>r. r \<in> set ms \<longleftrightarrow> sm_meta (session_history es) (md_SessionID r) = Some r \<and> md_UserID r = trim_space userID))"
proof -
  define m where "m = fold session_map_step es NewMemMap"
  have inv: "session_map_inv m" unfolding m_def by (rule session_maps.run_inv [OF NewMemMap_ok(1)])
  have abs: "session_abs m = session_history es"
    unfolding m_def session_history_def using session_maps.run_abs [OF NewMemMap_ok(1), of es] NewMemMap_ok(2) by simp
  have kv: "sm_session (session_history es) k = map_option snd (tfind fst k (mm_kv m))"
    and meta: "sm_meta (session_history es) k = tfind md_SessionID k (mm_meta m)"
    and user: "sm_user (session_history es) k = map_option snd (tfind fst k (mm_chatUsers m))" for k
    by (simp_all flip: abs add: session_abs_def)
  have s: "set (order xs) = set xs" for xs using mset_eq_setD [OF assms] .
  have "distinct (map md_SessionID (order (mm_meta m)))"
    using inv mset_eq_imp_distinct_iff [of "map md_SessionID (order (mm_meta m))" "map md_SessionID (mm_meta m)"] assms
    by (simp add: session_map_inv_def unique_keys_def)
  moreover have "r \<in> set (mm_meta m) \<longleftrightarrow> tfind md_SessionID (md_SessionID r) (mm_meta m) = Some r" for r
    using inv by (auto simp: session_map_inv_def dest: tfind_unique tfind_Some)
  ultimately show ?thesis
    unfolding m_def [symmetric] Let_def
    by (auto simp: Get_def ResolveUserID_def ListMetadataByUserID_def kv meta user s distinct_map_filter split: option.split)
qed

section \<open>The directory and the search\<close>

definition mm_directory :: "(SessionMetadata list \<Rightarrow> SessionMetadata list) \<Rightarrow> mem_map \<Rightarrow> session_directory" where
  "mm_directory order m =
     \<lparr>dir_ListMetadataByUserID = (\<lambda>u. case ListMetadataByUserID order False u m of Inl _ \<Rightarrow> None | Inr ms \<Rightarrow> Some ms),
      dir_ResolveUserID = Some (\<lambda>source chatID. case ResolveUserID False source chatID m of Inl _ \<Rightarrow> None | Inr b \<Rightarrow> Some b)\<rparr>"










text \<open>Two chats of one user; the second is bound to somebody else later, and the search is asked from the first.\<close>

definition yw_meta :: "string \<Rightarrow> string \<Rightarrow> string \<Rightarrow> SessionMetadata" where
  "yw_meta s c u = \<lparr>md_SessionID = s, md_Source = ''d'', md_ChatID = c, md_UserID = u, md_Title = [], md_ParentSessionID = [],
     md_LineageKind = [], md_CreatedAt = 0, md_UpdatedAt = 0\<rparr>"

definition yw_events :: "session_map_event list" where
  "yw_events = [EvPutMetadata False 1 (yw_meta ''a'' ''1'' ''u''), EvPutMetadata False 2 (yw_meta ''b'' '' 2'' ''u''), EvPut False ''d:1'' ''a'']"

definition yw_search :: "string \<Rightarrow> session_map_event list \<Rightarrow> fallback_error + turnFallbackResult" where
  "yw_search key es = searchTurnFallback (\<lambda>s. s) (\<lambda>s. s) (=) (\<lambda>_ _. True) (\<lambda>_ _. True) (\<lambda>_. False) (\<lambda>_. False)
     (Some (mm_directory rev (fold session_map_step es NewMemMap))) \<lparr>arows = [(1, xw_turn)], aseq = 1\<rparr>
     (xw_params\<lparr>sp_SessionKey := key\<rparr>) emptyCompiled 5"


text \<open>After the chat is bound to another user, the same search finds nothing of the other chat.\<close>

lemma yw_rebound:
  "case yw_search ''d:1'' (yw_events @ [EvPutMetadata False 3 (yw_meta ''c'' ''1'' ''v'')]) of Inl _ \<Rightarrow> False | Inr res \<Rightarrow> tf_Results res = []"
  by code_simp

theorem session_directory_refines_history_witness:
  "ResolveUserID False '' d'' ''2'' (fold session_map_step yw_events NewMemMap) = Inr (''u'', True)
    \<and> Get False ''d:1'' (fold session_map_step yw_events NewMemMap) = Inr ''a''"
proof -
  have r: "mset (rev xs) = mset xs" for xs :: "SessionMetadata list" by simp
  have h: "sm_session (session_history yw_events) ''d:1'' = Some ''a''" by code_simp
  have u: "sm_user (session_history yw_events) (chatBindingKey (trim_space '' d'') (trim_space ''2'')) = Some ''u''" by code_simp
  show ?thesis using session_directory_refines_history [of rev yw_events "''d:1''" "'' d''" "''2''", OF r] h u by (simp add: Let_def)
qed


end
