(* ===== verification/Topology.thy ===== *)
theory Topology
  imports SessionMap
begin

text \<open>
  Where a memory belongs (\<open>service/topology.go\<close>): the workspace of a request, the peer of a session, what a peer may
  observe, and the key of a session.
\<close>

definition DefaultWorkspaceID :: string where
  "DefaultWorkspaceID = ''gormes''"

datatype topology_error = ErrWorkspacePerUser "string option" | ErrWorkspaceRequiresHardIsolation string | ErrWorkspaceRequired
  | ErrUnsupportedStrategy string | ErrPeerIdentityRequired | ErrSessionBoundaryRequired | ErrUnsupportedBoundary string

record WorkspaceRequest =
  wr_Strategy :: string
  wr_WorkspaceID :: string
  wr_UserID :: string

record WorkspaceDecision =
  wd_Workspace :: string
  wd_HardIsolation :: bool
  wd_Evidence :: "string list"

definition ResolveWorkspace :: "(string \<Rightarrow> string) \<Rightarrow> WorkspaceRequest \<Rightarrow> topology_error + WorkspaceDecision" where
  "ResolveWorkspace ulow req =
     (let strategy = Lower ulow (wr_Strategy req) in
      if strategy = [] \<or> strategy = ''default'' then
        (if trim_space (wr_WorkspaceID req) \<noteq> [] then Inl (ErrWorkspaceRequiresHardIsolation (trim_space (wr_WorkspaceID req)))
         else Inr \<lparr>wd_Workspace = DefaultWorkspaceID, wd_HardIsolation = False, wd_Evidence = [''default_workspace:'' @ DefaultWorkspaceID]\<rparr>)
      else if strategy = ''hard_isolation'' then
        (if trim_space (wr_WorkspaceID req) = [] then Inl ErrWorkspaceRequired
         else Inr \<lparr>wd_Workspace = trim_space (wr_WorkspaceID req), wd_HardIsolation = True, wd_Evidence = [''workspace:hard_isolation'']\<rparr>)
      else if strategy = ''per_user'' then
        (if trim_space (wr_UserID req) = [] then Inl (ErrWorkspacePerUser None) else Inl (ErrWorkspacePerUser (Some (trim_space (wr_UserID req)))))
      else Inl (ErrUnsupportedStrategy (wr_Strategy req)))"

record PeerIdentityDecision =
  pi_PeerID :: string
  pi_Degraded :: bool
  pi_Evidence :: "string list"

definition ResolvePeerID :: "(string \<Rightarrow> string) \<Rightarrow> SessionMetadata \<Rightarrow> topology_error + PeerIdentityDecision" where
  "ResolvePeerID ulow meta =
     (if trim_space (md_UserID meta) \<noteq> [] then
        Inr \<lparr>pi_PeerID = trim_space (md_UserID meta), pi_Degraded = False, pi_Evidence = [''peer:session_metadata_user_id'']\<rparr>
      else
        let source = Lower ulow (md_Source meta); chatID = trim_space (md_ChatID meta) in
        if source = [] \<or> chatID = [] then Inl ErrPeerIdentityRequired
        else Inr \<lparr>pi_PeerID = source @ '':'' @ chatID, pi_Degraded = True, pi_Evidence = [''peer:source_prefixed_external_fallback'']\<rparr>)"

record ObservationDecision =
  od_ObserveMe :: bool
  od_ObserveOthers :: bool
  od_Evidence :: "string list"

definition DefaultObservation :: "(string \<Rightarrow> string) \<Rightarrow> string \<Rightarrow> bool \<Rightarrow> ObservationDecision" where
  "DefaultObservation ulow role0 crossPeer =
     (let role = Lower ulow role0;
          observeMe = (role \<notin> {''gormes_assistant'', ''deterministic_assistant'', ''transport_bot'', ''import_helper'', ''parent_agent''}) in
      \<lparr>od_ObserveMe = observeMe, od_ObserveOthers = crossPeer,
       od_Evidence = (if crossPeer then [''observation:cross_peer_opt_in''] else [])\<rparr>)"

datatype SessionBoundaryKind = BoundaryThread | BoundaryChannel | BoundaryRepository | BoundaryImportBatch | BoundaryDelegatedChildRun

definition boundary_kind :: "string \<Rightarrow> SessionBoundaryKind option" where
  "boundary_kind s =
     (if s = ''thread'' then Some BoundaryThread
      else if s = ''channel'' then Some BoundaryChannel
      else if s = ''repository'' then Some BoundaryRepository
      else if s = ''import_batch'' then Some BoundaryImportBatch
      else if s = ''delegated_child_run'' then Some BoundaryDelegatedChildRun
      else None)"

record SessionBoundaryRequest =
  br_Kind :: string
  br_Key :: string
  br_Source :: string

record SessionBoundaryDecision =
  bd_Kind :: SessionBoundaryKind
  bd_SessionKey :: string

definition joinSessionKey :: "string \<Rightarrow> string \<Rightarrow> string \<Rightarrow> string" where
  "joinSessionKey source boundary key = (if source = [] then boundary @ '':'' @ key else source @ '':'' @ boundary @ '':'' @ key)"

definition ResolveSessionBoundary :: "(string \<Rightarrow> string) \<Rightarrow> SessionBoundaryRequest \<Rightarrow> topology_error + SessionBoundaryDecision" where
  "ResolveSessionBoundary ulow req =
     (let kind = Lower ulow (br_Kind req); key = trim_space (br_Key req); source = Lower ulow (br_Source req) in
      if key = [] then Inl ErrSessionBoundaryRequired
      else case boundary_kind kind of
        Some BoundaryThread \<Rightarrow> Inr \<lparr>bd_Kind = BoundaryThread, bd_SessionKey = joinSessionKey source ''thread'' key\<rparr>
      | Some BoundaryChannel \<Rightarrow> Inr \<lparr>bd_Kind = BoundaryChannel, bd_SessionKey = joinSessionKey source ''channel'' key\<rparr>
      | Some BoundaryRepository \<Rightarrow> Inr \<lparr>bd_Kind = BoundaryRepository, bd_SessionKey = ''repo:'' @ key\<rparr>
      | Some BoundaryImportBatch \<Rightarrow> Inr \<lparr>bd_Kind = BoundaryImportBatch, bd_SessionKey = ''import:'' @ key\<rparr>
      | Some BoundaryDelegatedChildRun \<Rightarrow> Inr \<lparr>bd_Kind = BoundaryDelegatedChildRun, bd_SessionKey = ''child-run:'' @ key\<rparr>
      | None \<Rightarrow> if kind = [] then Inl ErrSessionBoundaryRequired else Inl (ErrUnsupportedBoundary (br_Kind req)))"

section \<open>Workspaces\<close>

text \<open>A workspace is the default one, or an isolated one that was asked for by name; no user gets one of his own.\<close>

lemma workspace_decisions:
  assumes "ResolveWorkspace ulow req = Inr d"
  shows "wd_HardIsolation d = (Lower ulow (wr_Strategy req) = ''hard_isolation'')
    \<and> wd_Workspace d = (if wd_HardIsolation d then trim_space (wr_WorkspaceID req) else DefaultWorkspaceID)
    \<and> wd_Workspace d \<noteq> []"
  using assms by (auto simp: ResolveWorkspace_def DefaultWorkspaceID_def Let_def split: if_splits)

section \<open>Session keys\<close>

text \<open>A source that can be told from the prefixes of the keys: no colon, and none of the words the code writes first.\<close>

definition plain_source :: "string \<Rightarrow> bool" where
  "plain_source s \<longleftrightarrow> CHR '':'' \<notin> set s \<and> s \<notin> {''thread'', ''channel'', ''repo'', ''import'', ''child-run''}"

lemma colon_split:
  assumes "CHR '':'' \<notin> set a" "CHR '':'' \<notin> set b" "a @ '':'' @ x = b @ '':'' @ y"
  shows "a = b \<and> x = y"
proof -
  have "takeWhile (\<lambda>c. c \<noteq> CHR '':'') (a @ '':'' @ x) = a" "takeWhile (\<lambda>c. c \<noteq> CHR '':'') (b @ '':'' @ y) = b"
    using assms(1,2) by (subst takeWhile_append2, auto)+
  with assms(3) show ?thesis by simp
qed

fun key_parts :: "SessionBoundaryKind \<Rightarrow> string \<Rightarrow> string \<Rightarrow> string" where
  "key_parts BoundaryThread source key = joinSessionKey source ''thread'' key"
| "key_parts BoundaryChannel source key = joinSessionKey source ''channel'' key"
| "key_parts BoundaryRepository source key = ''repo'' @ '':'' @ key"
| "key_parts BoundaryImportBatch source key = ''import'' @ '':'' @ key"
| "key_parts BoundaryDelegatedChildRun source key = ''child-run'' @ '':'' @ key"

lemma ResolveSessionBoundary_key:
  assumes "ResolveSessionBoundary ulow req = Inr d"
  shows "bd_SessionKey d = key_parts (bd_Kind d) (Lower ulow (br_Source req)) (trim_space (br_Key req))"
    "boundary_kind (Lower ulow (br_Kind req)) = Some (bd_Kind d)" "trim_space (br_Key req) \<noteq> []"
  using assms by (auto simp: ResolveSessionBoundary_def Let_def split: if_splits option.splits SessionBoundaryKind.splits)

text \<open>The word before the first colon of a key, and what follows it.\<close>

fun key_head :: "SessionBoundaryKind \<Rightarrow> string \<Rightarrow> string" where
  "key_head BoundaryThread source = (if source = [] then ''thread'' else source)"
| "key_head BoundaryChannel source = (if source = [] then ''channel'' else source)"
| "key_head BoundaryRepository source = ''repo''"
| "key_head BoundaryImportBatch source = ''import''"
| "key_head BoundaryDelegatedChildRun source = ''child-run''"

fun key_rest :: "SessionBoundaryKind \<Rightarrow> string \<Rightarrow> string \<Rightarrow> string" where
  "key_rest BoundaryThread source key = (if source = [] then key else ''thread'' @ '':'' @ key)"
| "key_rest BoundaryChannel source key = (if source = [] then key else ''channel'' @ '':'' @ key)"
| "key_rest k source key = key"

lemma key_parts_split: "key_parts k source key = key_head k source @ '':'' @ key_rest k source key"
  by (cases k) (simp_all add: joinSessionKey_def)

lemma key_head_plain: "plain_source s \<Longrightarrow> CHR '':'' \<notin> set (key_head k s)"
  by (cases k) (simp_all add: plain_source_def)

lemma key_parts_inject:
  assumes "plain_source s" "plain_source s'" "key_parts k s key = key_parts k' s' key'"
  shows "k = k' \<and> key = key' \<and> (k \<in> {BoundaryThread, BoundaryChannel} \<longrightarrow> s = s')"
proof -
  from colon_split [OF key_head_plain [OF assms(1)] key_head_plain [OF assms(2)] assms(3) [unfolded key_parts_split]]
  have h: "key_head k s = key_head k' s'" "key_rest k s key = key_rest k' s' key'" by simp_all
  show ?thesis
    using h assms(1,2) by (cases k; cases k') (auto simp: plain_source_def split: if_splits)
qed

text \<open>
  Session keys do not collide: two requests with plain sources resolve to the same session key only if they name
  the same kind of boundary, the same trimmed key and, for threads and channels, the same source.
\<close>

theorem session_keys_distinct:
  assumes "ResolveSessionBoundary ulow req = Inr d" "ResolveSessionBoundary ulow req' = Inr d'"
    and "plain_source (Lower ulow (br_Source req))" "plain_source (Lower ulow (br_Source req'))"
  shows "bd_SessionKey d = bd_SessionKey d' \<longleftrightarrow>
    Lower ulow (br_Kind req) = Lower ulow (br_Kind req') \<and> trim_space (br_Key req) = trim_space (br_Key req')
    \<and> (bd_Kind d \<in> {BoundaryThread, BoundaryChannel} \<longrightarrow> Lower ulow (br_Source req) = Lower ulow (br_Source req'))"
proof -
  note r = ResolveSessionBoundary_key [OF assms(1)] ResolveSessionBoundary_key [OF assms(2)]
  have kinds: "Lower ulow (br_Kind req) = Lower ulow (br_Kind req') \<longleftrightarrow> bd_Kind d = bd_Kind d'"
    using r(2,5) by (auto simp: boundary_kind_def split: if_splits)
  have same: "key_parts k s key = key_parts k s' key" if "k \<in> {BoundaryThread, BoundaryChannel} \<longrightarrow> s = s'" for k s s' key
    using that by (cases k) simp_all
  show ?thesis
    unfolding r(1,4) kinds using key_parts_inject [OF assms(3,4)] same by metis
qed

text \<open>Without the condition they do: a source with a name the code uses.\<close>

lemma session_keys_collide:
  "ResolveSessionBoundary (\<lambda>s. s) \<lparr>br_Kind = ''thread'', br_Key = ''x'', br_Source = ''repo''\<rparr>
     = Inr \<lparr>bd_Kind = BoundaryThread, bd_SessionKey = ''repo:thread:x''\<rparr>
   \<and> ResolveSessionBoundary (\<lambda>s. s) \<lparr>br_Kind = ''repository'', br_Key = ''thread:x'', br_Source = []\<rparr>
     = Inr \<lparr>bd_Kind = BoundaryRepository, bd_SessionKey = ''repo:thread:x''\<rparr>"
  by code_simp

text \<open>A user whose id looks like an external chat shares the peer of that chat.\<close>

lemma peer_identities_collide:
  "map_option pi_PeerID (case ResolvePeerID (\<lambda>s. s) (yw_meta ''a'' ''1'' ''d:1'') of Inl _ \<Rightarrow> None | Inr d \<Rightarrow> Some d) = Some ''d:1''
   \<and> map_option pi_PeerID (case ResolvePeerID (\<lambda>s. s) (yw_meta ''b'' ''1'' '''') of Inl _ \<Rightarrow> None | Inr d \<Rightarrow> Some d) = Some ''d:1''"
  by code_simp

definition zw_request :: "string \<Rightarrow> string \<Rightarrow> SessionBoundaryRequest" where
  "zw_request source key = \<lparr>br_Kind = ''Thread'', br_Key = key, br_Source = source\<rparr>"

theorem session_keys_distinct_witness:
  "case (ResolveSessionBoundary (\<lambda>s. s) (zw_request ''Slack'' '' t''), ResolveSessionBoundary (\<lambda>s. s) (zw_request ''irc'' ''t'')) of
     (Inr d, Inr d') \<Rightarrow> bd_SessionKey d \<noteq> bd_SessionKey d'
   | _ \<Rightarrow> False"
proof -
  have "is_ok (ResolveSessionBoundary (\<lambda>s. s) (zw_request ''Slack'' '' t''))" "is_ok (ResolveSessionBoundary (\<lambda>s. s) (zw_request ''irc'' ''t''))"
    by code_simp+
  then obtain d d' where d: "ResolveSessionBoundary (\<lambda>s. s) (zw_request ''Slack'' '' t'') = Inr d"
      "ResolveSessionBoundary (\<lambda>s. s) (zw_request ''irc'' ''t'') = Inr d'" unfolding is_ok_iff by blast
  have p: "plain_source (Lower (\<lambda>s. s) (br_Source (zw_request ''Slack'' '' t'')))" "plain_source (Lower (\<lambda>s. s) (br_Source (zw_request ''irc'' ''t'')))"
      "Lower (\<lambda>s. s) (br_Source (zw_request ''Slack'' '' t'')) \<noteq> Lower (\<lambda>s. s) (br_Source (zw_request ''irc'' ''t''))"
      "boundary_kind (Lower (\<lambda>s. s) (br_Kind (zw_request ''Slack'' '' t''))) = Some BoundaryThread"
    by code_simp+
  have "bd_Kind d = BoundaryThread" using ResolveSessionBoundary_key(2) [OF d(1)] p(4) by simp
  with session_keys_distinct [OF d p(1,2)] p(3) show ?thesis unfolding d by simp
qed

end
