(* ===== verification/Spec2Isabelle.thy ===== *)
theory Spec2Isabelle
  imports ActionSystem CircuitBreaker WriteQueue MemorySlots SessionContext DynamicAgents
    WebhookDelivery SearchFilter ReviewLog PluginConfig RecallRanking CrossChat
    ScopedKey TeamFeed Retention MemoryPolicy ObservationLog QueueStatus SessionMap Topology
begin

text \<open>
  Goncho verification library: a shallow embedding of the memory service Goncho (written in Go) and the
  theorems that make its core correct.

  The program.  Goncho keeps the memory of conversational agents in SQLite.  A service (\<open>service\<close>) exposes
  operations on conclusions, slots, observations, reviews, actions, retention and recall; the packages under
  \<open>internal\<close> hold the logic it composes (observation log, review log, dream scheduler, search filters,
  webhooks, scoped keys, memory policy, agent registry, plugin runtime); \<open>writequeue\<close> serialises memory
  writes; \<open>policy\<close>, \<open>keys\<close> and \<open>filter\<close> are public wrappers.  Components meet in the tables: leases and receipts
  refer to actions and signals, the team feed pages over signals, memory slots report to the observation
  log, retention archives conclusions, webhook deliveries read the registered endpoints.

  Conventions.  A Go string is the list of its bytes.  A time is an integer number of nanoseconds or, in a
  column, seconds, or the 64-bit value of \<open>UnixNano\<close>.  A table is a list of rows; a statement is the list
  operation it performs (theory Tables).  A call returns its error or result and the tables after it; what may
  fail outside the code (a statement, a random source, a cancelled context) is decided by a fault oracle
  \<open>flt\<close> that the caller of the model chooses, so every theorem holds for all failures unless it says
  otherwise.  Clock readings are arguments, in the order the code takes them.  Code that is not part of the
  repository or has no model in HOL is a parameter: SHA-256 and HMAC, \<open>url.Parse\<close>, the Unicode case table for
  non-ASCII text (\<open>ulow\<close>), the quoting of non-ASCII text in messages, an HTTP client, the operating system's file
  sizes, the decoding of an encoded JSON map (\<open>remap\<close>).  Sequences of calls are lists of events, folded by a step function or, where critical sections
  interleave, related by an inductive step relation.

  Theories.
  \<^item> Prelude, Text, Utf8, UnixTime: bytes, \<open>strings.TrimSpace\<close>, case folding, unique lists, word splitting,
    decimal identifiers (\<open>service/internal/textutil\<close>, \<open>idutil\<close>, \<open>limitutil\<close>), UTF-8 validity and truncation.
  \<^item> Tables: rows with a key, autoincrement tables, ordering and limits, and the interfaces
    \<open>keyed_table\<close>, \<open>replacing_table\<close>, \<open>machine\<close>, \<open>guarded_machine\<close>, \<open>logged_machine\<close> and \<open>simulation\<close>, which the components
    interpret on their own tables and steps.
  \<^item> Scope: workspace, profile, peer and action scopes and the read check of an actor
    (\<open>service/internal/scopekey\<close>, \<open>actionscope\<close>, \<open>scopeauth\<close>, \<open>service/action_scope.go\<close>).
  \<^item> ActionGraph, ActionLeases, ActionReceipts (\<open>service/action_graph.go\<close>, \<open>action_leases.go\<close>,
    \<open>action_signal_receipts.go\<close>): the frontier is the ready set and never empties on acyclic work, leases
    exclude, receipts are authorised and audited.  ActionSystem puts the three on one database.
  \<^item> TeamFeed (\<open>service/team_feed.go\<close>): paging ends, misses nothing and is authorised.
  \<^item> CircuitBreaker (\<open>service/provider_resilience.go\<close>), WriteQueue (\<open>writequeue\<close>): interleaved calls as steps;
    the sequential \<open>Submit\<close> refines them.
  \<^item> MemorySlots (\<open>service/memory_slots.go\<close>): a refinement of a map with revisions.
  \<^item> DreamScheduler (\<open>internal/dreamscheduler\<close>): scheduling and cancellation.  The repository has no code that
    starts or completes a dream; what else writes the table is an arbitrary function on it, and the property
    that needs it says in a hypothesis that it reactivates no dream and moves none to another peer.  QueueStatus (\<open>internal/queuestatus\<close>)
    reports from the same table.  DynamicAgents (\<open>internal/dynamicagents\<close>).
  \<^item> WebhookEndpoints, WebhookDelivery (\<open>internal/webhooks\<close>): registration, the URL policy, signing, retries.
  \<^item> SearchFilter (\<open>internal/searchfilter\<close>): the grammar, the compiler and the equivalence of what the
    compiled filter admits with a meaning given to the filter map itself, without the parser.
  \<^item> ReviewLog (\<open>internal/reviewlog\<close>): the review state machine and its history.
  \<^item> GoRegex, Redaction, ObservationLog (\<open>internal/observationlog\<close>): Go's leftmost-first matching, the
    redaction rules as expressions, and the idempotent, audited log.
  \<^item> PluginWrites, PluginConfig (\<open>internal/pluginruntime\<close>): the asynchronous writer as an interleaving of
    its critical sections and of the single calls of the flusher, the
    configuration precedence and the names.
  \<^item> ScopedKey (\<open>internal/scopedkey\<close>): signed keys, base64 written out.
  \<^item> Retention (\<open>service/retention_policy.go\<close>), whose clock is read once per statement: the clock is a
    function of the place that reads it.  MemoryPolicy (\<open>internal/memorypolicy\<close>).
  \<^item> Float64, GoSort: IEEE binary64 as rationals with the rounding function, and Go's insertion/merge
    \<open>SliceStable\<close> with the interface \<open>keyed_order\<close>.
  \<^item> RecallScore, RecallEvidence, RecallPipeline, RecallRanking (\<open>service/recall_pipeline.go\<close>): the score of
    a candidate, the evidence gates, deduplication, diversification, the budgets and the trace; candidates
    come in as arguments.
  \<^item> Turns, TurnSearch, CrossChat (\<open>service/memory.go\<close>, \<open>service/sql.go\<close>, \<open>service/retrieval_module.go\<close>): the
    stored turns, the search for them, and which sessions a user-scoped search may reach.  SessionMap
    (\<open>session/session.go\<close>): the session directory of the repository and the search on top of it.  Topology
    (\<open>service/topology.go\<close>): workspaces, peers and session keys.
  \<^item> ServiceDb, Conclusions, Lifecycle (\<open>service/conclusion_module.go\<close>, \<open>service/lifecycle_module.go\<close>, their
    statements in \<open>service/sql.go\<close>, the profile calls of \<open>service/service.go\<close>): the tables of the service, batches of
    messages with transaction and retry, listing and deletion, conclusions and peer cards.  MemorySystem
    interleaves all of them on one database: order of messages, isolation and deletion of workspaces in the five tables of ServiceDb.
    SessionContext (\<open>service/retrieval_module.go\<close>, \<open>service/internal/contexttokens\<close>): the summaries of a session and
    the messages that a prompt gets within its budget.

  Groups of lemmas.  Each component has an invariant of its state with the lemma that every step keeps it
  (interpretations of \<open>machine\<close>), case lemmas that enumerate the outcomes of an operation with their effect on
  the tables, frame lemmas for what it leaves alone, and its properties, which are short consequences.

  Bounds and fuel.  Recursions that are not structural have termination proofs: text scanning consumes bytes,
  the repetition of an expression runs as many rounds as bytes are left, since every round consumes one.
  Reading a feed takes a page per signal at most, which is the fuel the termination property shows to be
  enough.  The flush of the plugin writer takes one iteration per queued item.

  Not modelled.  The generation of recall candidates (full-text queries, search intents, embeddings), the
  value of \<open>math.Exp2\<close> (a parameter with its documented range) and the replay fingerprint; HTTP handlers, the
  command line, exports and benchmarks are input and output; the SQL text that creates tables is represented
  by the records.  Floating point is rounded after every operation, as on amd64, which does not fuse a
  multiplication with an addition.  The manifest lists every part with its reason.
\<close>

section \<open>Properties that span components\<close>

text \<open>
  C15. Referential integrity across the action components: after any sequence of graph, lease and receipt
  calls on an empty database, in any order, with any faults and clock readings, every dependency edge and
  every lease belongs to a stored action and every receipt to a stored signal of the same action; the keys
  of actions, leases and receipts and the dependency edges are unique, and so are the row ids of signals,
  receipts and of the audit rows of leases and receipts, whatever gaps the autoincrement ids of receipts have.
\<close>

theorem action_references_hold:
  "referential (fold (system_step sv) es empty_system)
   \<and> act_inv (sy_graph (fold (system_step sv) es empty_system))
   \<and> lease_inv (sy_leases (fold (system_step sv) es empty_system))
   \<and> unique_keys rc_unique (receipts (sy_graph (fold (system_step sv) es empty_system)))
   \<and> distinct (map rc_ID (receipts (sy_graph (fold (system_step sv) es empty_system))))
   \<and> awf (sy_raudit (fold (system_step sv) es empty_system))"
  using action_system_machine.run_inv [OF empty_system_inv, of sv es]
  by (simp add: system_inv_def receipt_inv_def sy_receipts_def)

end
